(* ===== verification/Prelude.thy ===== *)
theory Prelude
  imports Main "HOL-Library.Word" "HOL-Library.AList"
begin

text \<open>
  Shared vocabulary of the development: JavaScript strings as lists of UTF-16 code units,
  the insertion-ordered \<open>Map\<close> and \<open>Set\<close> of the language as association lists and lists,
  the keyed-store interface that the registries rely on, and the lemma collections.
\<close>

section \<open>Collections of facts\<close>

named_theorems js_defs \<open>unfolding of the small operations of a component\<close>
named_theorems js_inv \<open>preservation of a component's invariant\<close>

section \<open>Strings\<close>

text \<open>A JavaScript string is a sequence of 16-bit code units.\<close>

type_synonym jstr = "16 word list"

definition js :: "string \<Rightarrow> jstr" where
  "js s = map of_char s"

lemma unat_of_char16: "unat (of_char c :: 16 word) = of_char c"
proof -
  have bound: "(of_char c :: nat) < 2 ^ LENGTH(16)"
    using less_trans [OF nat_of_char_less_256 [of c], of "2 ^ LENGTH(16)"] by simp
  have "(of_char c :: 16 word) = of_nat (of_char c)" by (simp add: of_nat_of_char)
  then show ?thesis using bound by (simp add: unat_of_nat take_bit_nat_eq_self)
qed

lemma of_char16_inject [simp]: "(of_char c :: 16 word) = of_char d \<longleftrightarrow> c = d"
proof
  assume "(of_char c :: 16 word) = of_char d"
  then have "unat (of_char c :: 16 word) = unat (of_char d :: 16 word)" by (rule arg_cong)
  then have "(of_char c :: nat) = of_char d" by (simp only: unat_of_char16)
  then show "c = d" by (simp only: of_char_eq_iff)
qed simp

lemma js_inject [simp]: "js s = js t \<longleftrightarrow> s = t"
  unfolding js_def by (rule inj_map_eq_map) (rule injI, simp)

lemma js_Nil [simp]: "js [] = []" and js_Cons: "js (c # s) = of_char c # js s"
  by (simp_all add: js_def)

lemma js_eq_Nil [simp]: "js s = [] \<longleftrightarrow> s = []" "[] = js s \<longleftrightarrow> s = []"
  by (auto simp: js_def)

section \<open>The insertion-ordered Map\<close>

text \<open>
  \<open>Map.set\<close> overwrites in place and appends a new key at the end; \<open>Map.delete\<close> removes the
  entry. These are \<open>AList.update\<close> and \<open>AList.delete\<close>; \<open>Map.get\<close> is \<open>map_of\<close>, and iteration
  visits the association list from the left.
\<close>

type_synonym ('k, 'v) jmap = "('k \<times> 'v) list"

abbreviation mget :: "('k, 'v) jmap \<Rightarrow> 'k \<Rightarrow> 'v option" where
  "mget m k \<equiv> map_of m k"

abbreviation mput :: "'k \<Rightarrow> 'v \<Rightarrow> ('k, 'v) jmap \<Rightarrow> ('k, 'v) jmap" where
  "mput k v m \<equiv> AList.update k v m"

abbreviation mdel :: "'k \<Rightarrow> ('k, 'v) jmap \<Rightarrow> ('k, 'v) jmap" where
  "mdel k m \<equiv> AList.delete k m"

definition mhas :: "('k, 'v) jmap \<Rightarrow> 'k \<Rightarrow> bool" where
  "mhas m k \<longleftrightarrow> k \<in> fst ` set m"

definition mkeys :: "('k, 'v) jmap \<Rightarrow> 'k list" where
  "mkeys m = map fst m"

definition mvals :: "('k, 'v) jmap \<Rightarrow> 'v list" where
  "mvals m = map snd m"

definition mwf :: "('k, 'v) jmap \<Rightarrow> bool" where
  "mwf m \<longleftrightarrow> distinct (map fst m)"

lemma mhas_iff: "mhas m k \<longleftrightarrow> mget m k \<noteq> None"
  by (simp add: mhas_def map_of_eq_None_iff)

lemma mget_mput [simp]: "mget (mput k v m) = (mget m)(k \<mapsto> v)"
  by (rule update_conv')

lemma mget_mdel [simp]: "mget (mdel k m) = (mget m)(k := None)"
  by (rule delete_conv')

lemma mwf_Nil [simp]: "mwf []"
  by (simp add: mwf_def)

lemma mwf_mput [simp, intro]: "mwf m \<Longrightarrow> mwf (mput k v m)"
  by (simp add: mwf_def distinct_update)

lemma mwf_mdel [simp, intro]: "mwf m \<Longrightarrow> mwf (mdel k m)"
  by (simp add: mwf_def distinct_delete)

lemma mwf_mget_mem: "mwf m \<Longrightarrow> mget m k = Some v \<longleftrightarrow> (k, v) \<in> set m"
  by (auto simp: mwf_def map_of_is_SomeI dest: map_of_SomeD)

lemma mput_fresh: "mget m k = None \<Longrightarrow> mput k v m = m @ [(k, v)]"
  by (induction m) (auto split: if_splits)

lemma mkeys_mput:
  "mkeys (mput k v m) = (if mhas m k then mkeys m else mkeys m @ [k])"
  by (induction m) (auto simp: mkeys_def mhas_def)

lemma mdel_absent: "mget m k = None \<Longrightarrow> mdel k m = m"
  by (induction m) (auto split: if_splits)

lemma mget_filter_snd:
  "mwf m \<Longrightarrow> mget (filter (\<lambda>(k, v). P k) m) k = (if P k then mget m k else None)"
  by (induction m) (auto simp: mwf_def map_of_eq_None_iff split: if_splits)

section \<open>The keyed-store interface\<close>

text \<open>
  What the registries of the program use of a keyed container: lookup after insertion and
  deletion, the order in which keys are enumerated, and the invariant that keys are unique.
\<close>

locale keyed_store =
  fixes look :: "'s \<Rightarrow> 'k \<Rightarrow> 'v option"
    and put :: "'k \<Rightarrow> 'v \<Rightarrow> 's \<Rightarrow> 's"
    and del :: "'k \<Rightarrow> 's \<Rightarrow> 's"
    and keys :: "'s \<Rightarrow> 'k list"
    and wf :: "'s \<Rightarrow> bool"
  assumes look_put: "look (put k v s) = (look s)(k \<mapsto> v)"
    and look_del: "look (del k s) = (look s)(k := None)"
    and keys_look: "set (keys s) = dom (look s)"
    and keys_put: "keys (put k v s) = (if k \<in> set (keys s) then keys s else keys s @ [k])"
    and wf_put: "wf s \<Longrightarrow> wf (put k v s)"
    and wf_del: "wf s \<Longrightarrow> wf (del k s)"
    and wf_keys: "wf s \<Longrightarrow> distinct (keys s)"
begin

text \<open>Insertion of a batch, in order: the last binding of a key wins.\<close>

lemma look_put_all:
  "look (fold (\<lambda>(k, v). put k v) kvs s) k
     = (case map_of (rev kvs) k of Some v \<Rightarrow> Some v | None \<Rightarrow> look s k)"
proof (induction kvs arbitrary: s)
  case (Cons kv kvs)
  obtain a b where kv: "kv = (a, b)" by force
  show ?case
    by (simp add: kv Cons look_put map_add_def split: option.splits)
qed simp

lemma wf_put_all: "wf s \<Longrightarrow> wf (fold (\<lambda>(k, v). put k v) kvs s)"
  by (induction kvs arbitrary: s) (auto intro: wf_put)

lemma dom_put_all:
  "dom (look (fold (\<lambda>(k, v). put k v) kvs s)) = fst ` set kvs \<union> dom (look s)"
  by (induction kvs arbitrary: s) (auto simp: look_put)

text \<open>Keys that are already enumerated keep their position.\<close>

lemma keys_put_all_prefix: "\<exists>ks. keys (fold (\<lambda>(k, v). put k v) kvs s) = keys s @ ks"
proof (induction kvs arbitrary: s)
  case (Cons kv kvs)
  obtain a b where kv: "kv = (a, b)" by force
  obtain ks where "keys (fold (\<lambda>(k, v). put k v) kvs (put a b s)) = keys (put a b s) @ ks"
    using Cons by blast
  then show ?case by (simp add: kv keys_put)
qed simp

lemma put_del_look: "look (put k v (del k s)) = look (put k v s)"
  by (simp add: look_put look_del fun_eq_iff)

end

interpretation jm: keyed_store map_of AList.update AList.delete mkeys mwf
proof unfold_locales
  fix k :: 'a and v :: 'b and s :: "('a, 'b) jmap"
  show "map_of (AList.update k v s) = (map_of s)(k \<mapsto> v)" by simp
  show "map_of (AList.delete k s) = (map_of s)(k := None)" by simp
  show "set (mkeys s) = dom (map_of s)" by (simp add: mkeys_def dom_map_of_conv_image_fst)
  show "mkeys (AList.update k v s) = (if k \<in> set (mkeys s) then mkeys s else mkeys s @ [k])"
    using mkeys_mput [of k v s] by (simp add: mhas_def mkeys_def)
  show "mwf s \<Longrightarrow> mwf (AList.update k v s)" by (rule mwf_mput)
  show "mwf s \<Longrightarrow> mwf (AList.delete k s)" by (rule mwf_mdel)
  show "mwf s \<Longrightarrow> distinct (mkeys s)" by (simp add: mwf_def mkeys_def)
qed

section \<open>Runs of events\<close>

text \<open>
  Components that are driven by events from outside: a condition that every event keeps, and, after a
  shutdown, an observation that no event changes any more.
\<close>

locale event_closed =
  fixes ok :: "'s \<Rightarrow> bool"
    and step :: "'e \<Rightarrow> 's \<Rightarrow> 's"
  assumes step_ok: "ok s \<Longrightarrow> ok (step e s)"
begin

lemma run_ok: "ok s \<Longrightarrow> ok (fold step es s)"
  by (induction es arbitrary: s) (simp_all add: step_ok)

end

locale shut_down = event_closed ok step
  for ok :: "'s \<Rightarrow> bool" and step :: "'e \<Rightarrow> 's \<Rightarrow> 's" +
  fixes obs :: "'s \<Rightarrow> 'o"
  assumes step_obs: "ok s \<Longrightarrow> obs (step e s) = obs s"
begin

lemma run_obs: "ok s \<Longrightarrow> obs (fold step es s) = obs s"
  by (induction es arbitrary: s) (simp_all add: step_ok step_obs)

end

end
