(* ===== verification/EventBus.thy ===== *)
theory EventBus
  imports Prelude
begin

text \<open>
  The engine's event bus (\<open>livestyle-engine/src/event/EventBus.ts\<close>). Listeners are identities;
  what a listener does when it is called is a parameter: the bus calls it makes, in order, and
  whether it throws afterwards. \<open>Set.forEach\<close> runs over the live set, so the sets are objects of
  a store, with the holes that deletion leaves, and a listener may subscribe, unsubscribe, clear
  or emit while its own event is dispatched. Dispatch spends fuel on every visit and every call.
\<close>

section \<open>Set objects\<close>

text \<open>A set object's data: deletion leaves a hole, so a running \<open>forEach\<close> keeps its cursor.\<close>

type_synonym 'l set_data = "'l option list"

definition elems :: "'l set_data \<Rightarrow> 'l list" where
  "elems xs = List.map_filter id xs"

definition set_add :: "'l \<Rightarrow> 'l set_data \<Rightarrow> 'l set_data" where
  "set_add l xs = (if Some l \<in> set xs then xs else xs @ [Some l])"

definition set_remove :: "'l \<Rightarrow> 'l set_data \<Rightarrow> 'l set_data" where
  "set_remove l xs = map (\<lambda>x. if x = Some l then None else x) xs"

definition set_size :: "'l set_data \<Rightarrow> nat" where
  "set_size xs = length (elems xs)"

lemma elems_simps [simp]:
  "elems [] = []" "elems (None # xs) = elems xs" "elems (Some l # xs) = l # elems xs"
  by (simp_all add: elems_def List.map_filter_simps)

lemma elems_append [simp]: "elems (xs @ ys) = elems xs @ elems ys"
  by (induction xs) (auto simp: elems_def List.map_filter_simps split: option.splits)

lemma set_elems: "l \<in> set (elems xs) \<longleftrightarrow> Some l \<in> set xs"
proof (induction xs)
  case (Cons x xs)
  then show ?case by (cases x) auto
qed simp

lemma elems_set_add: "elems (set_add l xs) = (if l \<in> set (elems xs) then elems xs else elems xs @ [l])"
  by (simp add: set_add_def set_elems)

lemma elems_set_remove: "elems (set_remove l xs) = filter (\<lambda>x. x \<noteq> l) (elems xs)"
proof (induction xs)
  case (Cons x xs)
  then show ?case by (cases x) (auto simp: set_remove_def)
qed (simp add: set_remove_def)

section \<open>State\<close>

record ('l, 'p) bus =
  listeners :: "(jstr, nat) jmap"
  onceListeners :: "(jstr, nat) jmap"
  sets :: "nat \<Rightarrow> 'l set_data"
  nextSet :: nat
  microtasks :: "(jstr \<times> 'p) list"

definition new_bus :: "('l, 'p) bus" where
  "new_bus = \<lparr>listeners = [], onceListeners = [], sets = (\<lambda>_. []), nextSet = 0, microtasks = []\<rparr>"

text \<open>The calls a listener can make on the bus while it runs.\<close>

datatype ('l, 'p) bus_call =
    On jstr 'l
  | Once jstr 'l
  | OffOn jstr 'l
  | OffOnce jstr 'l
  | Clear "jstr option"
  | Emit jstr 'p
  | EmitAsync jstr 'p

text \<open>What an observer sees: a listener invoked for an event, and the error log.\<close>

datatype ('l, 'p) obs =
    Called bool jstr 'l 'p
  | ListenerError bool jstr 'l

type_synonym ('l, 'p) behaviour = "'l \<Rightarrow> 'p \<Rightarrow> ('l, 'p) bus_call list \<times> bool"
type_synonym ('l, 'p) bus_st = "('l, 'p) bus \<times> ('l, 'p) obs list"

section \<open>Operations\<close>

definition open_on :: "jstr \<Rightarrow> ('l, 'p) bus \<Rightarrow> ('l, 'p) bus" where
  "open_on event b =
     (if mhas (listeners b) event then b
      else b\<lparr>listeners := mput event (nextSet b) (listeners b),
             sets := (sets b)(nextSet b := []),
             nextSet := Suc (nextSet b)\<rparr>)"

definition on :: "jstr \<Rightarrow> 'l \<Rightarrow> ('l, 'p) bus \<Rightarrow> ('l, 'p) bus" where
  "on event listener b =
     (let b1 = open_on event b
      in case mget (listeners b1) event of
           None \<Rightarrow> b1
         | Some r \<Rightarrow> b1\<lparr>sets := (sets b1)(r := set_add listener (sets b1 r))\<rparr>)"

definition off_on :: "jstr \<Rightarrow> 'l \<Rightarrow> ('l, 'p) bus \<Rightarrow> ('l, 'p) bus" where
  "off_on event listener b =
     (case mget (listeners b) event of
        None \<Rightarrow> b
      | Some r \<Rightarrow> b\<lparr>sets := (sets b)(r := set_remove listener (sets b r))\<rparr>)"

definition open_once :: "jstr \<Rightarrow> ('l, 'p) bus \<Rightarrow> ('l, 'p) bus" where
  "open_once event b =
     (if mhas (onceListeners b) event then b
      else b\<lparr>onceListeners := mput event (nextSet b) (onceListeners b),
             sets := (sets b)(nextSet b := []),
             nextSet := Suc (nextSet b)\<rparr>)"

definition once :: "jstr \<Rightarrow> 'l \<Rightarrow> ('l, 'p) bus \<Rightarrow> ('l, 'p) bus" where
  "once event listener b =
     (let b1 = open_once event b
      in case mget (onceListeners b1) event of
           None \<Rightarrow> b1
         | Some r \<Rightarrow> b1\<lparr>sets := (sets b1)(r := set_add listener (sets b1 r))\<rparr>)"

definition off_once :: "jstr \<Rightarrow> 'l \<Rightarrow> ('l, 'p) bus \<Rightarrow> ('l, 'p) bus" where
  "off_once event listener b =
     (case mget (onceListeners b) event of
        None \<Rightarrow> b
      | Some r \<Rightarrow> b\<lparr>sets := (sets b)(r := set_remove listener (sets b r))\<rparr>)"

text \<open>\<open>if (event)\<close>: the empty string counts as absent.\<close>

definition clear :: "jstr option \<Rightarrow> ('l, 'p) bus \<Rightarrow> ('l, 'p) bus" where
  "clear event b =
     (case event of
        Some (c # cs) \<Rightarrow> b\<lparr>listeners := mdel (c # cs) (listeners b),
                           onceListeners := mdel (c # cs) (onceListeners b)\<rparr>
      | _ \<Rightarrow> b\<lparr>listeners := [], onceListeners := []\<rparr>)"

definition listenerCount :: "jstr \<Rightarrow> ('l, 'p) bus \<Rightarrow> nat" where
  "listenerCount event b =
     (case mget (listeners b) event of None \<Rightarrow> 0 | Some r \<Rightarrow> set_size (sets b r))
     + (case mget (onceListeners b) event of None \<Rightarrow> 0 | Some r \<Rightarrow> set_size (sets b r))"

definition emitAsync :: "jstr \<Rightarrow> 'p \<Rightarrow> ('l, 'p) bus \<Rightarrow> ('l, 'p) bus" where
  "emitAsync event payload b = b\<lparr>microtasks := microtasks b @ [(event, payload)]\<rparr>"

text \<open>
  Dispatch, as one interpreter over the pending pieces of work. \<open>Visit\<close> is the \<open>forEach\<close> over the
  set object \<open>r\<close> from position \<open>k\<close>, with the \<open>try\<close> around each listener; \<open>Dispatch\<close> runs it over
  the event's set, then over the once set (looked up again after the first loop), then drops the
  once entry of the event.
\<close>

datatype ('l, 'p) work =
    Call "('l, 'p) bus_call"
  | Calls "('l, 'p) bus_call list"
  | Visit bool jstr 'p nat nat
  | Dispatch jstr 'p

primrec exec :: "('l, 'p) behaviour \<Rightarrow> nat \<Rightarrow> ('l, 'p) work \<Rightarrow> ('l, 'p) bus_st \<Rightarrow> ('l, 'p) bus_st option" where
  "exec beh 0 w st = None"
| "exec beh (Suc n) w st =
     (case w of
        Call c \<Rightarrow>
          (case c of
             On ev l \<Rightarrow> Some (on ev l (fst st), snd st)
           | Once ev l \<Rightarrow> Some (once ev l (fst st), snd st)
           | OffOn ev l \<Rightarrow> Some (off_on ev l (fst st), snd st)
           | OffOnce ev l \<Rightarrow> Some (off_once ev l (fst st), snd st)
           | Clear ev \<Rightarrow> Some (clear ev (fst st), snd st)
           | EmitAsync ev p \<Rightarrow> Some (emitAsync ev p (fst st), snd st)
           | Emit ev p \<Rightarrow> exec beh n (Dispatch ev p) st)
      | Calls cs \<Rightarrow>
          (case cs of
             [] \<Rightarrow> Some st
           | c # cs' \<Rightarrow>
               (case exec beh n (Call c) st of
                  None \<Rightarrow> None
                | Some st' \<Rightarrow> exec beh n (Calls cs') st'))
      | Visit isOnce ev p r k \<Rightarrow>
          (if k < length (sets (fst st) r)
           then (case sets (fst st) r ! k of
                   None \<Rightarrow> exec beh n (Visit isOnce ev p r (Suc k)) st
                 | Some l \<Rightarrow>
                     (case exec beh n (Calls (fst (beh l p))) (fst st, snd st @ [Called isOnce ev l p]) of
                        None \<Rightarrow> None
                      | Some st' \<Rightarrow>
                          exec beh n (Visit isOnce ev p r (Suc k))
                            (fst st', if snd (beh l p) then snd st' @ [ListenerError isOnce ev l]
                                      else snd st')))
           else Some st)
      | Dispatch ev p \<Rightarrow>
          (case (case mget (listeners (fst st)) ev of
                   None \<Rightarrow> Some st
                 | Some r \<Rightarrow> exec beh n (Visit False ev p r 0) st) of
             None \<Rightarrow> None
           | Some st1 \<Rightarrow>
               (case (case mget (onceListeners (fst st1)) ev of
                        None \<Rightarrow> Some st1
                      | Some r \<Rightarrow> exec beh n (Visit True ev p r 0) st1) of
                  None \<Rightarrow> None
                | Some st2 \<Rightarrow>
                    Some ((fst st2)\<lparr>onceListeners := mdel ev (onceListeners (fst st2))\<rparr>, snd st2))))"

definition emit :: "nat \<Rightarrow> ('l, 'p) behaviour \<Rightarrow> jstr \<Rightarrow> 'p \<Rightarrow> ('l, 'p) bus_st \<Rightarrow> ('l, 'p) bus_st option" where
  "emit fuel beh event payload st = exec beh fuel (Dispatch event payload) st"

text \<open>The continuation of \<open>emitAsync\<close>: the oldest microtask emits.\<close>

definition run_microtask :: "nat \<Rightarrow> ('l, 'p) behaviour \<Rightarrow> ('l, 'p) bus_st \<Rightarrow> ('l, 'p) bus_st option" where
  "run_microtask n beh st =
     (case microtasks (fst st) of
        [] \<Rightarrow> Some st
      | (ev, p) # ms \<Rightarrow> emit n beh ev p ((fst st)\<lparr>microtasks := ms\<rparr>, snd st))"

section \<open>Subscriptions\<close>

definition subscribers :: "jstr \<Rightarrow> ('l, 'p) bus \<Rightarrow> 'l list" where
  "subscribers ev b = (case mget (listeners b) ev of None \<Rightarrow> [] | Some r \<Rightarrow> elems (sets b r))"

definition once_subscribers :: "jstr \<Rightarrow> ('l, 'p) bus \<Rightarrow> 'l list" where
  "once_subscribers ev b = (case mget (onceListeners b) ev of None \<Rightarrow> [] | Some r \<Rightarrow> elems (sets b r))"

text \<open>
  The invariant: the two tables have unique keys, every table entry owns a set object of its own,
  and no set object holds a listener twice.
\<close>

definition bus_refs :: "('l, 'p) bus \<Rightarrow> nat list" where
  "bus_refs b = mvals (listeners b) @ mvals (onceListeners b)"

definition bus_wf :: "('l, 'p) bus \<Rightarrow> bool" where
  "bus_wf b \<longleftrightarrow> mwf (listeners b) \<and> mwf (onceListeners b) \<and> distinct (bus_refs b)
     \<and> (\<forall>r \<in> set (bus_refs b). r < nextSet b) \<and> (\<forall>r. distinct (elems (sets b r)))"

lemma mvals_mput_fresh: "\<not> mhas m k \<Longrightarrow> mvals (mput k v m) = mvals m @ [v]"
  by (simp add: mhas_iff mput_fresh mvals_def)

lemma set_mvals_mdel: "set (mvals (mdel k m)) \<subseteq> set (mvals m)"
  by (auto simp: mvals_def AList.delete_eq)

lemma distinct_mvals_mdel: "distinct (mvals m) \<Longrightarrow> distinct (mvals (mdel k m))"
  by (simp add: mvals_def AList.delete_eq distinct_map_filter)

lemma mget_mvals: "mget m k = Some v \<Longrightarrow> v \<in> set (mvals m)"
  by (force simp: mvals_def dest: map_of_SomeD)

lemma new_bus_wf [js_inv]: "bus_wf new_bus"
  by (simp add: bus_wf_def new_bus_def bus_refs_def mvals_def)

lemma set_add_wf [js_inv]:
  "bus_wf b \<Longrightarrow> bus_wf (b\<lparr>sets := (sets b)(r := set_add l (sets b r))\<rparr>)"
  by (simp add: bus_wf_def bus_refs_def elems_set_add)

lemma set_remove_wf [js_inv]:
  "bus_wf b \<Longrightarrow> bus_wf (b\<lparr>sets := (sets b)(r := set_remove l (sets b r))\<rparr>)"
  by (simp add: bus_wf_def bus_refs_def elems_set_remove)

lemma bus_wfD:
  assumes "bus_wf b"
  shows "mwf (listeners b)" and "mwf (onceListeners b)"
    and "distinct (mvals (listeners b))" and "distinct (mvals (onceListeners b))"
    and "set (mvals (listeners b)) \<inter> set (mvals (onceListeners b)) = {}"
    and "r \<in> set (mvals (listeners b)) \<Longrightarrow> r < nextSet b"
    and "r \<in> set (mvals (onceListeners b)) \<Longrightarrow> r < nextSet b"
    and "distinct (elems (sets b r))"
  using assms by (auto simp: bus_wf_def bus_refs_def)

lemma open_wf [js_inv]: "bus_wf b \<Longrightarrow> bus_wf (open_on ev b)" "bus_wf b \<Longrightarrow> bus_wf (open_once ev b)"
  unfolding open_on_def open_once_def
  by (auto simp: bus_wf_def bus_refs_def mvals_mput_fresh less_Suc_eq)

lemma on_wf [js_inv]: "bus_wf b \<Longrightarrow> bus_wf (on ev l b)"
  by (auto simp: on_def Let_def split: option.splits intro!: set_add_wf open_wf)

lemma once_wf [js_inv]: "bus_wf b \<Longrightarrow> bus_wf (once ev l b)"
  by (auto simp: once_def Let_def split: option.splits intro!: set_add_wf open_wf)

lemma off_wf [js_inv]: "bus_wf b \<Longrightarrow> bus_wf (off_on ev l b)" "bus_wf b \<Longrightarrow> bus_wf (off_once ev l b)"
  by (auto simp: off_on_def off_once_def split: option.splits intro!: set_remove_wf)

lemma drop_once_wf [js_inv]: "bus_wf b \<Longrightarrow> bus_wf (b\<lparr>onceListeners := mdel ev (onceListeners b)\<rparr>)"
  using set_mvals_mdel [of ev "onceListeners b"]
  by (auto simp: bus_wf_def bus_refs_def distinct_mvals_mdel)

lemma drop_on_wf [js_inv]: "bus_wf b \<Longrightarrow> bus_wf (b\<lparr>listeners := mdel ev (listeners b)\<rparr>)"
  using set_mvals_mdel [of ev "listeners b"]
  by (auto simp: bus_wf_def bus_refs_def distinct_mvals_mdel)

lemma clear_wf [js_inv]: "bus_wf b \<Longrightarrow> bus_wf (clear ev b)"
proof (cases "\<exists>c cs. ev = Some (c # cs)")
  case True
  then obtain c cs where ev: "ev = Some (c # cs)" by blast
  assume "bus_wf b"
  from drop_once_wf [OF drop_on_wf [OF this, of "c # cs"], of "c # cs"]
  show ?thesis by (simp add: ev clear_def)
next
  case False
  assume "bus_wf b"
  with False show ?thesis
    by (auto simp: clear_def bus_wf_def bus_refs_def mvals_def split: option.splits list.splits)
qed

lemma emitAsync_wf [js_inv]: "bus_wf (emitAsync ev p b) = bus_wf b"
  by (simp add: emitAsync_def bus_wf_def bus_refs_def)

lemma exec_wf: "exec beh n w st = Some st' \<Longrightarrow> bus_wf (fst st) \<Longrightarrow> bus_wf (fst st')"
proof (induction n arbitrary: w st st')
  case (Suc n)
  note IH = Suc.IH
  show ?case
  proof (cases w)
    case (Call c)
    with Suc.prems IH show ?thesis
      by (cases c) (auto simp: js_inv)
  next
    case (Calls cs)
    with Suc.prems show ?thesis
      by (cases cs) (auto split: option.splits dest!: IH)
  next
    case (Visit o' ev p r k)
    with Suc.prems show ?thesis
      by (auto split: if_splits option.splits dest!: IH)
  next
    case (Dispatch ev p)
    with Suc.prems show ?thesis
      by (auto split: option.splits simp: js_inv dest!: IH)
  qed
qed simp

section \<open>Dispatch to listeners that do not touch the bus\<close>

definition inert :: "('l, 'p) behaviour \<Rightarrow> bool" where
  "inert beh \<longleftrightarrow> (\<forall>l p. fst (beh l p) = [])"

definition notified :: "('l, 'p) behaviour \<Rightarrow> bool \<Rightarrow> jstr \<Rightarrow> 'p \<Rightarrow> 'l \<Rightarrow> ('l, 'p) obs list" where
  "notified beh isOnce ev p l =
     Called isOnce ev l p # (if snd (beh l p) then [ListenerError isOnce ev l] else [])"

text \<open>Two units of fuel per dispatch level and one per slot of the longer of the two sets.\<close>

definition emit_fuel :: "jstr \<Rightarrow> ('l, 'p) bus \<Rightarrow> nat" where
  "emit_fuel ev b =
     (let size_of = (\<lambda>m. case mget m ev of None \<Rightarrow> 0 | Some r \<Rightarrow> length (sets b r))
      in 3 + max (size_of (listeners b)) (size_of (onceListeners b)))"

lemma exec_visit_inert:
  assumes "inert beh"
  shows "length (sets b r) - k + 2 \<le> n \<Longrightarrow>
    exec beh n (Visit o' ev p r k) (b, log)
      = Some (b, log @ concat (map (notified beh o' ev p) (elems (drop k (sets b r)))))"
proof (induction n arbitrary: k log)
  case (Suc n)
  show ?case
  proof (cases "k < length (sets b r)")
    case True
    then have drop: "drop k (sets b r) = sets b r ! k # drop (Suc k) (sets b r)"
      by (rule Cons_nth_drop_Suc [symmetric])
    from True Suc.prems obtain m where n: "n = Suc m" "length (sets b r) - Suc k + 2 \<le> n"
      by (cases n) auto
    have calls: "exec beh n (Calls []) st = Some st" for st by (simp add: n)
    show ?thesis
    proof (cases "sets b r ! k")
      case None
      with True Suc.IH [OF n(2)] show ?thesis by (simp add: drop)
    next
      case (Some l)
      with True Suc.IH [OF n(2)] assms calls show ?thesis
        by (auto simp: drop notified_def inert_def)
    qed
  qed simp
qed simp

lemma exec_dispatch_inert:
  assumes "inert beh" and "emit_fuel ev b \<le> fuel"
  shows "exec beh fuel (Dispatch ev p) (b, log)
    = Some (b\<lparr>onceListeners := mdel ev (onceListeners b)\<rparr>,
            log @ concat (map (notified beh False ev p) (subscribers ev b))
                @ concat (map (notified beh True ev p) (once_subscribers ev b)))"
proof -
  from assms(2) obtain n where n: "fuel = Suc n"
    by (cases fuel) (auto simp: emit_fuel_def Let_def)
  have plain: "mget (listeners b) ev = Some r \<Longrightarrow>
      exec beh n (Visit False ev p r 0) (b, log)
        = Some (b, log @ concat (map (notified beh False ev p) (elems (sets b r))))" for r log
    using assms(2) exec_visit_inert [OF assms(1), of b r 0 n False ev p log]
    by (simp add: n emit_fuel_def Let_def)
  have one: "mget (onceListeners b) ev = Some r \<Longrightarrow>
      exec beh n (Visit True ev p r 0) (b, log)
        = Some (b, log @ concat (map (notified beh True ev p) (elems (sets b r))))" for r log
    using assms(2) exec_visit_inert [OF assms(1), of b r 0 n True ev p log]
    by (simp add: n emit_fuel_def Let_def)
  show ?thesis
    by (cases "mget (listeners b) ev"; cases "mget (onceListeners b) ev")
      (simp_all add: n subscribers_def once_subscribers_def plain one)
qed

section \<open>What subscribing and unsubscribing do to the subscriber lists\<close>

lemma subscribers_wfD:
  assumes "bus_wf b" and "mget (listeners b) ev = Some r" and "mget (listeners b) ev' = Some r'"
    and "ev \<noteq> ev'"
  shows "r \<noteq> r'"
proof
  assume "r = r'"
  with assms have "(ev, r) \<in> set (listeners b)" "(ev', r) \<in> set (listeners b)"
    by (auto dest: map_of_SomeD)
  moreover have "inj_on snd (set (listeners b))"
    using bus_wfD(3) [OF assms(1)] by (simp add: mvals_def distinct_map)
  ultimately have "(ev, r) = (ev', r)" using inj_onD [of snd _ "(ev, r)" "(ev', r)"] by simp
  with assms(4) show False by simp
qed

lemma subscribers_once_wfD:
  assumes "bus_wf b" and "mget (listeners b) ev = Some r" and "mget (onceListeners b) ev' = Some r'"
  shows "r \<noteq> r'"
  using assms bus_wfD(5) [OF assms(1)] by (auto dest!: mget_mvals)

lemma mget_open_on [simp]:
  "mget (listeners (open_on ev b)) ev
     = Some (case mget (listeners b) ev of None \<Rightarrow> nextSet b | Some r \<Rightarrow> r)"
  "onceListeners (open_on ev b) = onceListeners b"
  by (auto simp: open_on_def mhas_iff)

lemma subscribers_open_on [simp]:
  assumes "bus_wf b"
  shows "subscribers ev' (open_on ev b) = subscribers ev' b"
    and "once_subscribers ev' (open_on ev b) = once_subscribers ev' b"
  using bus_wfD(6,7) [OF assms]
  by (auto simp: subscribers_def once_subscribers_def open_on_def mhas_iff split: option.splits
        dest!: mget_mvals)

lemma subscribers_set_update:
  assumes "bus_wf b" and "mget (listeners b) ev = Some r"
  shows "subscribers ev' (b\<lparr>sets := (sets b)(r := xs)\<rparr>) = (if ev' = ev then elems xs else subscribers ev' b)"
    and "once_subscribers ev' (b\<lparr>sets := (sets b)(r := xs)\<rparr>) = once_subscribers ev' b"
  using assms subscribers_wfD [OF assms] subscribers_once_wfD [OF assms]
  by (auto simp: subscribers_def once_subscribers_def split: option.splits)

lemma subscribers_on:
  assumes "bus_wf b"
  shows "subscribers ev' (on ev l b)
      = (if ev' = ev \<and> l \<notin> set (subscribers ev b) then subscribers ev b @ [l] else subscribers ev' b)"
    and "once_subscribers ev' (on ev l b) = once_subscribers ev' b"
proof -
  let ?r = "case mget (listeners b) ev of None \<Rightarrow> nextSet b | Some r \<Rightarrow> r"
  have wf: "bus_wf (open_on ev b)" by (rule open_wf [OF assms])
  have upd: "on ev l b = (open_on ev b)\<lparr>sets := (sets (open_on ev b))(?r := set_add l (sets (open_on ev b) ?r))\<rparr>"
    by (simp add: on_def Let_def)
  have here: "elems (sets (open_on ev b) ?r) = subscribers ev b"
    using subscribers_open_on(1) [OF assms, of ev ev] by (simp add: subscribers_def)
  show "subscribers ev' (on ev l b)
      = (if ev' = ev \<and> l \<notin> set (subscribers ev b) then subscribers ev b @ [l] else subscribers ev' b)"
    using assms by (auto simp: upd subscribers_set_update [OF wf mget_open_on(1)] elems_set_add here)
  show "once_subscribers ev' (on ev l b) = once_subscribers ev' b"
    using assms by (simp add: upd subscribers_set_update [OF wf mget_open_on(1)])
qed

lemma subscribers_off_on:
  assumes "bus_wf b"
  shows "subscribers ev' (off_on ev l b)
      = (if ev' = ev then filter (\<lambda>x. x \<noteq> l) (subscribers ev b) else subscribers ev' b)"
    and "once_subscribers ev' (off_on ev l b) = once_subscribers ev' b"
proof -
  have here: "mget (listeners b) ev = Some r \<Longrightarrow> elems (sets b r) = subscribers ev b" for r
    by (simp add: subscribers_def)
  have none: "mget (listeners b) ev = None \<Longrightarrow> subscribers ev b = []"
    by (simp add: subscribers_def)
  show "subscribers ev' (off_on ev l b)
      = (if ev' = ev then filter (\<lambda>x. x \<noteq> l) (subscribers ev b) else subscribers ev' b)"
    and "once_subscribers ev' (off_on ev l b) = once_subscribers ev' b"
    using assms
    by (auto simp: off_on_def subscribers_set_update elems_set_remove here none split: option.splits)
qed

section \<open>Properties\<close>



text \<open>whatever the listeners do to the bus while it dispatches (subscribe, unsubscribe, clear,
  emit again), a dispatch that returns leaves a well-formed bus: unique keys, one set object per
  table entry shared with no other entry, no listener twice in a set.
\<close>

theorem emit_keeps_bus_wf:
  assumes "emit fuel beh ev p st = Some st'" and "bus_wf (fst st)"
  shows "bus_wf (fst st')"
  using assms unfolding emit_def by (rule exec_wf)

theorem emit_keeps_bus_wf_witness:
  "bus_wf (fst (the (emit 20 (\<lambda>l p. ([On (js ''e'') (Suc l), OffOn (js ''e'') l], l = 0)) (js ''e'') ()
     (on (js ''f'') 0 new_bus, []))))"
proof -
  let ?beh = "\<lambda>(l::nat) (p::unit). ([On (js ''e'') (Suc l), OffOn (js ''e'') l], l = 0)"
  obtain st' where r: "emit 20 ?beh (js ''e'') () (on (js ''f'') 0 new_bus, []) = Some st'"
    by (simp add: emit_def eval_nat_numeral on_def open_on_def new_bus_def mhas_def)
  have wf: "bus_wf (fst (on (js ''f'') (0::nat) new_bus, [] :: (nat, unit) obs list))"
    by (simp add: js_inv)
  show ?thesis using emit_keeps_bus_wf [OF r wf] r by simp
qed

text \<open>\<open>on\<close> followed by the unsubscribe function it returns is the identity on every
  subscriber list, and in between the listener is the last subscriber of that event and of no
  other event.
\<close>

theorem on_then_unsubscribe:
  assumes "bus_wf b" and "l \<notin> set (subscribers ev b)"
  shows "subscribers ev' (on ev l b) = (if ev' = ev then subscribers ev b @ [l] else subscribers ev' b)
    \<and> subscribers ev' (off_on ev l (on ev l b)) = subscribers ev' b
    \<and> once_subscribers ev' (off_on ev l (on ev l b)) = once_subscribers ev' b"
proof -
  have wf: "bus_wf (on ev l b)" by (rule on_wf [OF assms(1)])
  have same: "filter (\<lambda>x. x \<noteq> l) (subscribers ev b) = subscribers ev b"
    using assms(2) by (auto simp: filter_id_conv)
  show ?thesis
    using assms same by (simp add: subscribers_off_on [OF wf] subscribers_on)
qed

theorem on_then_unsubscribe_witness:
  "subscribers (js ''e'') (on (js ''e'') (1::nat) new_bus) = [1]
   \<and> subscribers (js ''e'') (off_on (js ''e'') (1::nat) (on (js ''e'') 1 new_bus)) = []"
proof -
  have a: "bus_wf (new_bus :: (nat, unit) bus)" by (rule new_bus_wf)
  have b: "(1::nat) \<notin> set (subscribers (js ''e'') (new_bus :: (nat, unit) bus))"
    by (simp add: subscribers_def new_bus_def)
  show ?thesis
    using on_then_unsubscribe [OF a b, of "js ''e''"]
    by (simp add: subscribers_def new_bus_def on_def open_on_def off_on_def mhas_def set_add_def
          set_remove_def)
qed

text \<open>
  a one-shot listener is removed only after the whole dispatch, so a listener that emits its
  own event again is invoked a second time: it is not one-shot.
\<close>

theorem once_listener_runs_twice:
  assumes "beh l p1 = ([Emit ev p2], False)" and "beh l p2 = ([], False)"
  shows "\<exists>b'. emit 9 beh ev p1 (once ev l new_bus, [])
    = Some (b', [Called True ev l p1, Called True ev l p2])"
  using assms
  by (simp add: emit_def eval_nat_numeral once_def open_once_def new_bus_def mhas_def set_add_def)

theorem once_listener_runs_twice_witness:
  "\<exists>b'. emit 9 (\<lambda>l p. (if p then [Emit (js ''e'') False] else [], False)) (js ''e'') True
     (once (js ''e'') () new_bus, [])
    = Some (b', [Called True (js ''e'') () True, Called True (js ''e'') () False])"
  by (rule once_listener_runs_twice) simp_all

end
