(* ===== verification/JsValue.thy ===== *)
theory JsValue
  imports Complex_Main Prelude
begin

text \<open>
  Values of the language: numbers with their non-finite members, primitive values and references
  to objects, strict equality, truthiness, and ASCII case conversion on code units.
\<close>

section \<open>Numbers\<close>

text \<open>A finite number is an exact rational: the operations modelled on numbers are comparisons and
  integrality, which are exact on doubles.\<close>

datatype jsnum = Fin rat | NaN | PosInf | NegInf

fun num_less :: "jsnum \<Rightarrow> jsnum \<Rightarrow> bool" where
  "num_less (Fin a) (Fin b) = (a < b)"
| "num_less (Fin a) PosInf = True"
| "num_less NegInf (Fin b) = True"
| "num_less NegInf PosInf = True"
| "num_less _ _ = False"

definition num_is_integer :: "jsnum \<Rightarrow> bool" where
  "num_is_integer x = (case x of Fin a \<Rightarrow> snd (quotient_of a) = 1 | _ \<Rightarrow> False)"

lemma num_is_integer_of_int [simp]: "num_is_integer (Fin (of_int i))"
  by (simp add: num_is_integer_def)

section \<open>Values\<close>

datatype jsval = Undefined | Null | Bool bool | Num jsnum | Str jstr | Obj nat

text \<open>\<open>===\<close>: NaN differs from itself, objects are equal when they are the same reference.\<close>

definition strict_eq :: "jsval \<Rightarrow> jsval \<Rightarrow> bool" where
  "strict_eq a b \<longleftrightarrow> a = b \<and> a \<noteq> Num NaN"

definition truthy :: "jsval \<Rightarrow> bool" where
  "truthy v = (case v of
      Undefined \<Rightarrow> False | Null \<Rightarrow> False | Bool b \<Rightarrow> b
    | Num n \<Rightarrow> n \<noteq> Fin 0 \<and> n \<noteq> NaN | Str s \<Rightarrow> s \<noteq> [] | Obj r \<Rightarrow> True)"

datatype js_type = TUndefined | TObject | TBoolean | TNumber | TString

fun typeof :: "jsval \<Rightarrow> js_type" where
  "typeof Undefined = TUndefined"
| "typeof Null = TObject"
| "typeof (Bool b) = TBoolean"
| "typeof (Num n) = TNumber"
| "typeof (Str s) = TString"
| "typeof (Obj r) = TObject"

section \<open>Code units\<close>

definition is_upper :: "16 word \<Rightarrow> bool" where
  "is_upper c \<longleftrightarrow> 65 \<le> c \<and> c \<le> 90"

definition is_digit :: "16 word \<Rightarrow> bool" where
  "is_digit c \<longleftrightarrow> 48 \<le> c \<and> c \<le> 57"

text \<open>\<open>toLowerCase\<close> on ASCII letters; other code units are left as they are.\<close>

definition lower_unit :: "16 word \<Rightarrow> 16 word" where
  "lower_unit c = (if is_upper c then c + 32 else c)"

definition ascii_lower :: "jstr \<Rightarrow> jstr" where
  "ascii_lower = map lower_unit"

text \<open>White space and line terminators, as \<open>\\s\<close> and \<open>trim\<close> see them.\<close>

definition line_terminators :: "16 word list" where
  "line_terminators = [0x0A, 0x0D, 0x2028, 0x2029]"

definition is_space :: "16 word \<Rightarrow> bool" where
  "is_space c \<longleftrightarrow> c \<in> set [0x09, 0x0B, 0x0C, 0x20, 0xA0, 0x1680, 0x202F, 0x205F, 0x3000, 0xFEFF]
     \<or> (0x2000 \<le> c \<and> c \<le> 0x200A) \<or> c \<in> set line_terminators"

definition trim :: "jstr \<Rightarrow> jstr" where
  "trim s = rev (dropWhile is_space (rev (dropWhile is_space s)))"

lemma trim_idem: "trim (trim s) = trim s"
proof -
  have dw: "dropWhile P (dropWhile P xs) = dropWhile P xs" for P and xs :: "'a list"
    by (induction xs) auto
  let ?t = "dropWhile is_space s"
  have "dropWhile is_space (trim s) = trim s"
  proof (cases "dropWhile is_space (rev ?t)")
    case Nil
    then have "trim s = []" by (simp only: trim_def Nil rev.simps)
    then show ?thesis by simp
  next
    case (Cons c cs)
    obtain us where us: "rev ?t = us @ dropWhile is_space (rev ?t)"
      by (metis takeWhile_dropWhile_id)
    then have "?t = trim s @ rev us"
      by (metis rev_append rev_rev_ident trim_def)
    moreover have "dropWhile is_space ?t = ?t" by (rule dw)
    moreover have "trim s \<noteq> []" by (simp add: trim_def Cons)
    ultimately have "\<not> is_space (hd (trim s))"
      by (metis hd_append2 hd_dropWhile dropWhile_eq_Nil_conv append_is_Nil_conv)
    with \<open>trim s \<noteq> []\<close> show ?thesis by (cases "trim s") auto
  qed
  then show ?thesis by (simp add: trim_def [of "trim s"]) (simp add: trim_def dw)
qed

text \<open>\<open>str.includes(sub)\<close>, \<open>startsWith\<close> and \<open>split\<close> at one code unit.\<close>

fun starts_with :: "jstr \<Rightarrow> jstr \<Rightarrow> bool" where
  "starts_with s [] = True"
| "starts_with [] (c # cs) = False"
| "starts_with (d # ds) (c # cs) = (d = c \<and> starts_with ds cs)"

fun str_includes :: "jstr \<Rightarrow> jstr \<Rightarrow> bool" where
  "str_includes [] sub = (sub = [])"
| "str_includes (c # cs) sub = (starts_with (c # cs) sub \<or> str_includes cs sub)"

fun split_at :: "16 word \<Rightarrow> jstr \<Rightarrow> jstr list" where
  "split_at d [] = [[]]"
| "split_at d (c # cs) =
     (if c = d then [] # split_at d cs
      else (case split_at d cs of [] \<Rightarrow> [[c]] | w # ws \<Rightarrow> (c # w) # ws))"

lemma starts_with_iff: "starts_with s p \<longleftrightarrow> (\<exists>t. s = p @ t)"
  by (induction s p rule: starts_with.induct) auto

lemma str_includes_iff: "str_includes s sub \<longleftrightarrow> (\<exists>u v. s = u @ sub @ v)"
proof (induction s)
  case (Cons c cs)
  have "(\<exists>u v. c # cs = u @ sub @ v) \<longleftrightarrow> (\<exists>v. c # cs = sub @ v) \<or> (\<exists>u v. cs = u @ sub @ v)"
    by (metis append_Cons append_Nil list.exhaust list.inject)
  with Cons show ?case by (simp add: starts_with_iff)
qed simp

lemma split_at_nonempty [simp]: "split_at d s \<noteq> []"
  by (induction s) (auto split: list.splits)

lemma split_at_no_sep: "d \<notin> set s \<Longrightarrow> split_at d s = [s]"
  by (induction s) auto

end
