(* ===== verification/ComponentRegistry.thy ===== *)
theory ComponentRegistry
  imports JsValue
begin

text \<open>
  The component registry of the engine
  (\<open>livestyle-engine/src/registry/ComponentRegistry.ts\<close>, types of \<open>types/component.ts\<close>): the
  two tables, registration, removal, lookup, and the asynchronous loading of a component's script
  and style sheet as a step that starts it and a step that finishes it on the state of that moment.
  The browser's custom-element table is a field of the state; the classes are an abstract type.
\<close>

section \<open>State\<close>

record component_meta =
  meta_id :: jstr
  meta_tagName :: jstr
  meta_name :: jstr
  meta_description :: "jstr option"
  meta_version :: jstr
  meta_author :: "jstr option"
  meta_thumbnail :: "jstr option"
  meta_defaultProps :: "(jstr, jsval) jmap"

record 'c registry_entry =
  entry_meta :: component_meta
  componentClass :: 'c
  loaded :: bool
  loadingError :: "jstr option"

record load_config =
  jsUrl :: jstr
  cssUrl :: "jstr option"
  config_tagName :: "jstr option"

datatype registry_event =
    COMPONENT_REGISTERED component_meta
  | COMPONENT_UNREGISTERED jstr component_meta
  | COMPONENT_LOADED jstr jstr
  | COMPONENT_LOAD_ERROR jstr jstr jstr

record 'c component_registry =
  entries :: "(jstr, 'c registry_entry) jmap"
  idIndex :: "(jstr, jstr) jmap"
  customElements :: "(jstr, 'c) jmap"
  emitted :: "registry_event list"

definition new_registry :: "(jstr, 'c) jmap \<Rightarrow> 'c component_registry" where
  "new_registry els = \<lparr>entries = [], idIndex = [], customElements = els, emitted = []\<rparr>"

datatype registry_error =
    AlreadyRegistered jstr
  | DefineRefused jstr
  | LoadFailed jstr

definition reg_emit :: "registry_event \<Rightarrow> 'c component_registry \<Rightarrow> 'c component_registry" where
  "reg_emit e r = r\<lparr>emitted := emitted r @ [e]\<rparr>"

section \<open>Operations\<close>

text \<open>
  \<open>define_ok\<close> is the browser's verdict on \<open>customElements.define\<close>, which throws on an invalid
  name and on a class that is already in use.
\<close>

definition reg_register ::
  "(jstr \<Rightarrow> 'c \<Rightarrow> bool) \<Rightarrow> component_meta \<Rightarrow> 'c \<Rightarrow> 'c component_registry \<Rightarrow> registry_error + 'c component_registry" where
  "reg_register define_ok meta cls r =
     (let tagName = meta_tagName meta in
      if mhas (entries r) tagName then Inl (AlreadyRegistered tagName)
      else if \<not> mhas (customElements r) tagName \<and> \<not> define_ok tagName cls
      then Inl (DefineRefused tagName)
      else
        (let r1 = (if mhas (customElements r) tagName then r
                   else r\<lparr>customElements := mput tagName cls (customElements r)\<rparr>);
             r2 = r1\<lparr>entries := mput tagName
                      \<lparr>entry_meta = meta, componentClass = cls, loaded = True, loadingError = None\<rparr>
                      (entries r1)\<rparr>;
             r3 = r2\<lparr>idIndex := mput (meta_id meta) tagName (idIndex r2)\<rparr>
         in Inr (reg_emit (COMPONENT_REGISTERED meta) r3)))"

definition reg_unregister :: "jstr \<Rightarrow> 'c component_registry \<Rightarrow> 'c component_registry" where
  "reg_unregister tagName r =
     (case mget (entries r) tagName of
        None \<Rightarrow> r
      | Some entry \<Rightarrow>
          reg_emit (COMPONENT_UNREGISTERED tagName (entry_meta entry))
            (r\<lparr>entries := mdel tagName (entries r),
               idIndex := mdel (meta_id (entry_meta entry)) (idIndex r)\<rparr>))"

text \<open>\<open>config.meta?.tagName || componentId\<close>: an empty tag name counts as absent.\<close>

definition load_tagName :: "jstr \<Rightarrow> load_config \<Rightarrow> jstr" where
  "load_tagName componentId config =
     (case config_tagName config of Some (c # cs) \<Rightarrow> c # cs | _ \<Rightarrow> componentId)"

datatype load_start = AlreadyLoaded | Loading

definition load_begin :: "jstr \<Rightarrow> load_config \<Rightarrow> 'c component_registry \<Rightarrow> load_start" where
  "load_begin componentId config r =
     (if mhas (entries r) (load_tagName componentId config) then AlreadyLoaded else Loading)"

text \<open>
  The outcome of fetching a URL: \<open>None\<close>, or the message of the error. The style sheet is only
  fetched after the script, and only when its URL is a non-empty string.
\<close>

definition load_outcome :: "(jstr \<Rightarrow> jstr option) \<Rightarrow> (jstr \<Rightarrow> jstr option) \<Rightarrow> load_config \<Rightarrow> jstr option" where
  "load_outcome script sheet config =
     (case script (jsUrl config) of
        Some err \<Rightarrow> Some err
      | None \<Rightarrow>
          (case cssUrl config of Some (c # cs) \<Rightarrow> sheet (c # cs) | _ \<Rightarrow> None))"

definition placeholder_meta :: "jstr \<Rightarrow> jstr \<Rightarrow> component_meta" where
  "placeholder_meta componentId tagName =
     \<lparr>meta_id = componentId, meta_tagName = tagName, meta_name = tagName, meta_description = None,
      meta_version = js ''0.0.0'', meta_author = None, meta_thumbnail = None, meta_defaultProps = []\<rparr>"

definition load_finish ::
  "(jstr \<Rightarrow> jstr option) \<Rightarrow> (jstr \<Rightarrow> jstr option) \<Rightarrow> 'c \<Rightarrow> jstr \<Rightarrow> load_config
     \<Rightarrow> 'c component_registry \<Rightarrow> 'c component_registry \<times> registry_error option" where
  "load_finish script sheet emptyClass componentId config r =
     (let tagName = load_tagName componentId config in
      case load_outcome script sheet config of
        None \<Rightarrow> (reg_emit (COMPONENT_LOADED componentId tagName) r, None)
      | Some msg \<Rightarrow>
          (reg_emit (COMPONENT_LOAD_ERROR componentId tagName msg)
             (r\<lparr>entries := mput tagName
                \<lparr>entry_meta = placeholder_meta componentId tagName, componentClass = emptyClass,
                 loaded = False, loadingError = Some msg\<rparr> (entries r)\<rparr>),
           Some (LoadFailed msg)))"

definition getEntry :: "jstr \<Rightarrow> 'c component_registry \<Rightarrow> 'c registry_entry option" where
  "getEntry tagName r = mget (entries r) tagName"

text \<open>\<open>if (!tagName)\<close>: an index entry that holds the empty string counts as absent.\<close>

definition getEntryById :: "jstr \<Rightarrow> 'c component_registry \<Rightarrow> 'c registry_entry option" where
  "getEntryById componentId r =
     (case mget (idIndex r) componentId of
        Some (c # cs) \<Rightarrow> mget (entries r) (c # cs)
      | _ \<Rightarrow> None)"

definition getAllMeta :: "'c component_registry \<Rightarrow> component_meta list" where
  "getAllMeta r = map entry_meta (mvals (entries r))"

definition isRegistered :: "jstr \<Rightarrow> 'c component_registry \<Rightarrow> bool" where
  "isRegistered tagName r = mhas (entries r) tagName"

definition registry_size :: "'c component_registry \<Rightarrow> nat" where
  "registry_size r = length (entries r)"

definition reg_clear :: "'c component_registry \<Rightarrow> 'c component_registry" where
  "reg_clear r = r\<lparr>entries := [], idIndex := []\<rparr>"

section \<open>Invariant\<close>

text \<open>
  Keys are unique, an entry sits under its own tag name, a loaded entry's tag is a defined custom
  element, and the id index is sound: what it names is an entry of that id.
\<close>

definition entry_ok :: "'c component_registry \<Rightarrow> jstr \<Rightarrow> 'c registry_entry \<Rightarrow> bool" where
  "entry_ok r tagName e \<longleftrightarrow>
     meta_tagName (entry_meta e) = tagName \<and> (loaded e \<longrightarrow> mhas (customElements r) tagName)
     \<and> (loaded e \<longleftrightarrow> loadingError e = None)"

definition registry_wf :: "'c component_registry \<Rightarrow> bool" where
  "registry_wf r \<longleftrightarrow> mwf (entries r) \<and> mwf (idIndex r)
     \<and> (\<forall>t e. mget (entries r) t = Some e \<longrightarrow> entry_ok r t e)
     \<and> (\<forall>i t. mget (idIndex r) i = Some t \<longrightarrow>
           (\<exists>e. mget (entries r) t = Some e \<and> meta_id (entry_meta e) = i))"

lemma registry_wf_emit [simp]: "registry_wf (reg_emit e r) = registry_wf r"
  by (simp add: registry_wf_def reg_emit_def entry_ok_def)

lemma new_registry_wf [js_inv]: "registry_wf (new_registry els)"
  by (simp add: registry_wf_def new_registry_def)

lemma reg_register_wf [js_inv]:
  assumes "registry_wf r" and "reg_register define_ok meta cls r = Inr r'"
  shows "registry_wf r'"
  using assms
  by (auto simp: reg_register_def registry_wf_def reg_emit_def entry_ok_def Let_def mhas_iff
        split: if_splits) (fastforce+)

lemma reg_unregister_wf [js_inv]: "registry_wf r \<Longrightarrow> registry_wf (reg_unregister tagName r)"
  by (cases "mget (entries r) tagName")
    (fastforce simp: reg_unregister_def registry_wf_def reg_emit_def entry_ok_def)+

lemma reg_clear_wf [js_inv]: "registry_wf r \<Longrightarrow> registry_wf (reg_clear r)"
  by (simp add: reg_clear_def registry_wf_def)

lemma load_finish_wf [js_inv]:
  assumes "registry_wf r" and "load_begin componentId config r = Loading"
  shows "registry_wf (fst (load_finish script sheet c0 componentId config r))"
  using assms
  by (cases "load_outcome script sheet config")
    (fastforce simp: load_finish_def load_begin_def registry_wf_def entry_ok_def reg_emit_def
        Let_def placeholder_meta_def mhas_iff split: if_splits)+

text \<open>Runs of the registry in which no registration overlaps a load.\<close>

inductive reg_step :: "(jstr \<Rightarrow> 'c \<Rightarrow> bool) \<Rightarrow> 'c component_registry \<Rightarrow> 'c component_registry \<Rightarrow> bool"
  for define_ok where
  step_register: "reg_register define_ok meta cls r = Inr r' \<Longrightarrow> reg_step define_ok r r'"
| step_unregister: "reg_step define_ok r (reg_unregister tagName r)"
| step_load: "load_begin componentId config r = Loading \<Longrightarrow>
     reg_step define_ok r (fst (load_finish script sheet c0 componentId config r))"
| step_clear: "reg_step define_ok r (reg_clear r)"

inductive registry_reachable :: "(jstr \<Rightarrow> 'c \<Rightarrow> bool) \<Rightarrow> (jstr, 'c) jmap \<Rightarrow> 'c component_registry \<Rightarrow> bool"
  for define_ok els where
  reg_start: "registry_reachable define_ok els (new_registry els)"
| reg_next: "registry_reachable define_ok els r \<Longrightarrow> reg_step define_ok r r' \<Longrightarrow>
     registry_reachable define_ok els r'"

lemma reg_step_wf: "reg_step define_ok r r' \<Longrightarrow> registry_wf r \<Longrightarrow> registry_wf r'"
  by (induction rule: reg_step.induct) (blast intro: js_inv)+

section \<open>Properties\<close>

text \<open>in every state the registry reaches, whatever the order of registrations, removals and
  loads (none overlapping a load), an id lookup that finds something finds an entry of that very
  id, filed under its own tag name, and if it is marked loaded the browser knows its element.
\<close>

theorem registry_lookup_sound:
  assumes "registry_reachable define_ok els r" and "getEntryById i r = Some e"
  shows "meta_id (entry_meta e) = i \<and> getEntry (meta_tagName (entry_meta e)) r = Some e
    \<and> (loaded e \<longrightarrow> mhas (customElements r) (meta_tagName (entry_meta e)))"
proof -
  from assms(1) have "registry_wf r"
    by (induction rule: registry_reachable.induct) (auto intro: js_inv reg_step_wf)
  with assms(2) show ?thesis
    by (fastforce simp: getEntryById_def getEntry_def registry_wf_def entry_ok_def
          split: option.splits list.splits)
qed

definition sample_meta :: "jstr \<Rightarrow> jstr \<Rightarrow> component_meta" where
  "sample_meta i t = \<lparr>meta_id = i, meta_tagName = t, meta_name = t, meta_description = None,
     meta_version = js ''1.0.0'', meta_author = None, meta_thumbnail = None, meta_defaultProps = []\<rparr>"

lemma sample_meta_simps [simp]:
  "meta_id (sample_meta i t) = i" "meta_tagName (sample_meta i t) = t"
  by (simp_all add: sample_meta_def)

theorem registry_lookup_sound_witness:
  "\<exists>r e. getEntryById (js ''a'') r = Some (e :: unit registry_entry) \<and> meta_id (entry_meta e) = js ''a''"
proof -
  define m where "m = sample_meta (js ''a'') (js ''x-a'')"
  obtain r where reg: "reg_register (\<lambda>_ _. True) m () (new_registry []) = Inr r"
    and found: "\<exists>e. getEntryById (js ''a'') r = Some e"
    by (simp add: reg_register_def m_def new_registry_def mhas_def reg_emit_def getEntryById_def
          Let_def js_Cons)
  have "registry_reachable (\<lambda>_ _. True) [] r"
    by (rule registry_reachable.reg_next [OF registry_reachable.reg_start step_register [OF reg]])
  with found registry_lookup_sound show ?thesis by blast
qed

text \<open>a load that fails leaves a placeholder entry under the tag name, and from then on the same
  load returns at once as if the component were loaded, and the component cannot be registered:
  the failure is reported once and no retry is possible before the tag is unregistered.
\<close>

theorem failed_load_blocks_retry:
  assumes "load_finish script sheet c0 i config r = (r', Some err)"
  shows "load_begin i config r' = AlreadyLoaded
    \<and> (\<forall>define_ok meta cls. meta_tagName meta = load_tagName i config \<longrightarrow>
         reg_register define_ok meta cls r' = Inl (AlreadyRegistered (load_tagName i config)))
    \<and> load_begin i config (reg_unregister (load_tagName i config) r') = Loading"
  using assms
  by (auto simp: load_finish_def load_begin_def reg_register_def reg_unregister_def reg_emit_def
        mhas_iff Let_def split: option.splits)

theorem failed_load_blocks_retry_witness:
  "\<exists>r' err. load_finish (\<lambda>u. Some (js ''404'')) (\<lambda>u. None) () (js ''x-a'')
      \<lparr>jsUrl = js ''u'', cssUrl = None, config_tagName = None\<rparr> (new_registry []) = (r', Some err)
    \<and> load_begin (js ''x-a'') \<lparr>jsUrl = js ''u'', cssUrl = None, config_tagName = None\<rparr> r' = AlreadyLoaded"
proof -
  let ?c = "\<lparr>jsUrl = js ''u'', cssUrl = None, config_tagName = None\<rparr>"
  obtain r' err where f: "load_finish (\<lambda>u. Some (js ''404'')) (\<lambda>u. None) () (js ''x-a'') ?c
      (new_registry []) = (r', Some err)"
    by (auto simp: load_finish_def load_outcome_def Let_def)
  from failed_load_blocks_retry [OF f] f show ?thesis by blast
qed

text \<open>
  two components registered under one id: removing the first drops the id from the index, so
  the second, still registered, is no longer found by its id.
\<close>

theorem duplicate_id_unregister_hides:
  assumes "meta_id m1 = meta_id m2" and "meta_tagName m1 \<noteq> meta_tagName m2"
    and "reg_register define_ok m1 c1 r = Inr r1" and "reg_register define_ok m2 c2 r1 = Inr r2"
  shows "isRegistered (meta_tagName m2) (reg_unregister (meta_tagName m1) r2)
    \<and> getEntryById (meta_id m2) (reg_unregister (meta_tagName m1) r2) = None"
  using assms
  by (auto simp: reg_register_def reg_unregister_def reg_emit_def isRegistered_def getEntryById_def
        mhas_iff Let_def split: if_splits)

theorem duplicate_id_unregister_hides_witness:
  "\<exists>r. isRegistered (js ''x-b'') (r :: unit component_registry) \<and> getEntryById (js ''a'') r = None"
proof -
  define m1 where "m1 = sample_meta (js ''a'') (js ''x-a'')"
  define m2 where "m2 = sample_meta (js ''a'') (js ''x-b'')"
  obtain r1 where r1: "reg_register (\<lambda>_ _. True) m1 () (new_registry []) = Inr r1"
    by (simp add: reg_register_def m1_def new_registry_def mhas_def Let_def)
  obtain r2 where r2: "reg_register (\<lambda>_ _. True) m2 () r1 = Inr r2"
    using r1 by (auto simp: reg_register_def m1_def m2_def new_registry_def mhas_def Let_def
        reg_emit_def)
  have i: "meta_id m1 = meta_id m2" and t: "meta_tagName m1 \<noteq> meta_tagName m2"
    by (simp_all add: m1_def m2_def)
  show ?thesis
    using duplicate_id_unregister_hides [OF i t r1 r2] by (auto simp: m2_def)
qed

end
