(* ===== verification/ComponentInstance.thy ===== *)
theory ComponentInstance
  imports ComponentRegistry
begin

text \<open>
  One mounted component (\<open>livestyle-engine/src/runtime/ComponentInstance.ts\<close>): its life cycle,
  the property diff of an update, and the rendering of properties into attributes. The page is an
  explicit store of elements and of the children of containers; what the browser may refuse
  (an invalid element or attribute name, an append) and how it prints values are parameters.
\<close>

section \<open>The page\<close>

record element =
  attributes :: "(jstr, jstr) jmap"
  properties :: "(jstr, jsval) jmap"

record dom =
  elements :: "nat \<Rightarrow> element"
  next_element :: nat
  children :: "nat \<Rightarrow> nat list"

record browser =
  create_ok :: "jstr \<Rightarrow> bool"
  attr_ok :: "jstr \<Rightarrow> bool"
  append_ok :: "nat \<Rightarrow> bool"
  stringify :: "nat \<Rightarrow> jstr option"
  number_str :: "jsnum \<Rightarrow> jstr"

datatype dom_error = InvalidName | StringifyFailed | AppendFailed | NotFound

section \<open>The instance\<close>

datatype component_state = CREATED | MOUNTED | UPDATED | ERROR | UNMOUNTED

type_synonym props_config = "(jstr, jsval) jmap"

record comp_inst =
  inst_meta :: component_meta
  inst_state :: component_state
  inst_props :: props_config
  inst_element :: "nat option"
  inst_container :: "nat option"

text \<open>\<open>{ ...a, ...b }\<close>\<close>

definition spread :: "props_config \<Rightarrow> props_config \<Rightarrow> props_config" where
  "spread a b = fold (\<lambda>(k, v). mput k v) b a"

definition new_instance :: "component_meta \<Rightarrow> props_config option \<Rightarrow> comp_inst" where
  "new_instance meta initialProps =
     \<lparr>inst_meta = meta, inst_state = CREATED,
      inst_props = spread (spread [] (meta_defaultProps meta)) (case initialProps of None \<Rightarrow> [] | Some p \<Rightarrow> p),
      inst_element = None, inst_container = None\<rparr>"

text \<open>Every capital letter gets a hyphen in front, then all is lowered.\<close>

definition toKebabCase :: "jstr \<Rightarrow> jstr" where
  "toKebabCase str = ascii_lower (concat (map (\<lambda>c. if is_upper c then [45, c] else [c]) str))"

definition prop_of :: "props_config \<Rightarrow> jstr \<Rightarrow> jsval" where
  "prop_of p k = (case mget p k of None \<Rightarrow> Undefined | Some v \<Rightarrow> v)"

definition diffProps :: "props_config \<Rightarrow> props_config \<Rightarrow> props_config" where
  "diffProps oldProps newProps = filter (\<lambda>(k, v). \<not> strict_eq (prop_of oldProps k) v) newProps"

definition set_attribute :: "browser \<Rightarrow> jstr \<Rightarrow> jstr \<Rightarrow> element \<Rightarrow> element \<times> dom_error option" where
  "set_attribute br name val el =
     (if attr_ok br name then (el\<lparr>attributes := mput name val (attributes el)\<rparr>, None)
      else (el, Some InvalidName))"

definition remove_attribute :: "jstr \<Rightarrow> element \<Rightarrow> element" where
  "remove_attribute name el = el\<lparr>attributes := mdel name (attributes el)\<rparr>"

definition applyProp :: "browser \<Rightarrow> jstr \<Rightarrow> jsval \<Rightarrow> element \<Rightarrow> element \<times> dom_error option" where
  "applyProp br key val el =
     (let attrName = toKebabCase key in
      case val of
        Undefined \<Rightarrow> (remove_attribute attrName el, None)
      | Null \<Rightarrow> (remove_attribute attrName el, None)
      | Bool b \<Rightarrow>
          (if b then set_attribute br attrName [] el else (remove_attribute attrName el, None))
      | Obj r \<Rightarrow>
          (let el1 = el\<lparr>properties := mput key val (properties el)\<rparr>
           in case stringify br r of
                None \<Rightarrow> (el1, Some StringifyFailed)
              | Some json \<Rightarrow> set_attribute br attrName json el1)
      | Num n \<Rightarrow> set_attribute br attrName (number_str br n) el
      | Str s \<Rightarrow> set_attribute br attrName s el)"

text \<open>The loop over the entries; an exception leaves the attributes set so far.\<close>

fun applyProps :: "browser \<Rightarrow> props_config \<Rightarrow> element \<Rightarrow> element \<times> dom_error option" where
  "applyProps br [] el = (el, None)"
| "applyProps br ((k, v) # ps) el =
     (case applyProp br k v el of
        (el1, Some e) \<Rightarrow> (el1, Some e)
      | (el1, None) \<Rightarrow> applyProps br ps el1)"

type_synonym mounted = "comp_inst \<times> dom \<times> dom_error option"

definition mount :: "browser \<Rightarrow> nat \<Rightarrow> comp_inst \<Rightarrow> dom \<Rightarrow> mounted" where
  "mount br c i d =
     (if inst_state i = MOUNTED then (i, d, None)
      else
        (let i1 = i\<lparr>inst_container := Some c\<rparr> in
         if \<not> create_ok br (meta_tagName (inst_meta i)) then (i1\<lparr>inst_state := ERROR\<rparr>, d, Some InvalidName)
         else
           (let e = next_element d;
                i2 = i1\<lparr>inst_element := Some e\<rparr>;
                (el, err) = applyProps br (inst_props i2) \<lparr>attributes = [], properties = []\<rparr>;
                d1 = d\<lparr>elements := (elements d)(e := el), next_element := Suc e\<rparr>
            in case err of
                 Some x \<Rightarrow> (i2\<lparr>inst_state := ERROR\<rparr>, d1, Some x)
               | None \<Rightarrow>
                   (if \<not> append_ok br c then (i2\<lparr>inst_state := ERROR\<rparr>, d1, Some AppendFailed)
                    else (i2\<lparr>inst_state := MOUNTED\<rparr>,
                          d1\<lparr>children := (children d1)(c := children d1 c @ [e])\<rparr>, None)))))"

definition update :: "browser \<Rightarrow> props_config \<Rightarrow> comp_inst \<Rightarrow> dom \<Rightarrow> mounted" where
  "update br newProps i d =
     (if inst_state i = UNMOUNTED then (i, d, None)
      else
        (let changedProps = diffProps (inst_props i) newProps in
         if changedProps = [] then (i, d, None)
         else
           (let i1 = i\<lparr>inst_props := spread (inst_props i) newProps\<rparr> in
            case inst_element i of
              None \<Rightarrow> (i1\<lparr>inst_state := UPDATED\<rparr>, d, None)
            | Some e \<Rightarrow>
                (case applyProps br changedProps (elements d e) of
                   (el, Some x) \<Rightarrow> (i1, d\<lparr>elements := (elements d)(e := el)\<rparr>, Some x)
                 | (el, None) \<Rightarrow>
                     (i1\<lparr>inst_state := UPDATED\<rparr>, d\<lparr>elements := (elements d)(e := el)\<rparr>, None)))))"

text \<open>\<open>removeChild\<close> throws when the element is not a child of the container.\<close>

definition unmount :: "comp_inst \<Rightarrow> dom \<Rightarrow> mounted" where
  "unmount i d =
     (if inst_state i = UNMOUNTED then (i, d, None)
      else
        (let done_inst = i\<lparr>inst_element := None, inst_container := None, inst_state := UNMOUNTED\<rparr> in
         case (inst_element i, inst_container i) of
           (Some e, Some c) \<Rightarrow>
             (if e \<in> set (children d c)
              then (done_inst, d\<lparr>children := (children d)(c := remove1 e (children d c))\<rparr>, None)
              else (i, d, Some NotFound))
         | _ \<Rightarrow> (done_inst, d, None)))"

section \<open>Rendering\<close>

text \<open>The attribute a property value stands for.\<close>

definition attr_of :: "browser \<Rightarrow> jsval \<Rightarrow> jstr option" where
  "attr_of br v = (case v of
      Undefined \<Rightarrow> None | Null \<Rightarrow> None | Bool b \<Rightarrow> (if b then Some [] else None)
    | Obj r \<Rightarrow> stringify br r | Num n \<Rightarrow> Some (number_str br n) | Str s \<Rightarrow> Some s)"

definition in_sync :: "browser \<Rightarrow> element \<Rightarrow> props_config \<Rightarrow> bool" where
  "in_sync br el p \<longleftrightarrow>
     (\<forall>k v. mget p k = Some v \<longrightarrow> mget (attributes el) (toKebabCase k) = attr_of br v)
     \<and> (\<forall>a. a \<notin> toKebabCase ` dom (mget p) \<longrightarrow> mget (attributes el) a = None)"

lemma applyProp_attributes:
  "applyProp br k v el = (el', None) \<Longrightarrow>
     mget (attributes el') = (mget (attributes el))(toKebabCase k := attr_of br v)"
  by (auto simp: applyProp_def set_attribute_def remove_attribute_def attr_of_def Let_def fun_eq_iff
      split: jsval.splits if_splits option.splits)

lemma applyProps_Cons:
  "applyProps br ((k, v) # ps) el = (el', None) \<Longrightarrow>
     \<exists>el1. applyProp br k v el = (el1, None) \<and> applyProps br ps el1 = (el', None)"
  by (auto split: prod.splits option.splits)

lemma applyProps_other:
  assumes "applyProps br ps el = (el', None)" and "a \<notin> toKebabCase ` fst ` set ps"
  shows "mget (attributes el') a = mget (attributes el) a"
  using assms
proof (induction ps arbitrary: el)
  case (Cons p ps)
  obtain k v where p: "p = (k, v)" by force
  from Cons.prems(1) obtain el1 where "applyProp br k v el = (el1, None)" "applyProps br ps el1 = (el', None)"
    unfolding p by (blast dest: applyProps_Cons)
  with Cons show ?case by (auto simp: p dest: applyProp_attributes)
qed simp

lemma applyProps_rendered:
  assumes "applyProps br ps el = (el', None)" and "mwf ps" and "inj_on toKebabCase (fst ` set ps)"
    and "(k, v) \<in> set ps"
  shows "mget (attributes el') (toKebabCase k) = attr_of br v"
  using assms
proof (induction ps arbitrary: el)
  case (Cons p ps)
  obtain k0 v0 where p: "p = (k0, v0)" by force
  from Cons.prems(1) obtain el1 where el1: "applyProp br k0 v0 el = (el1, None)" "applyProps br ps el1 = (el', None)"
    unfolding p by (blast dest: applyProps_Cons)
  have rest: "mwf ps" "inj_on toKebabCase (fst ` set ps)" and sep: "toKebabCase k0 \<notin> toKebabCase ` fst ` set ps"
    using Cons.prems(2,3) by (auto simp: p mwf_def inj_on_def)
  show ?case
  proof (cases "(k, v) \<in> set ps")
    case True
    then show ?thesis by (rule Cons.IH [OF el1(2) rest])
  next
    case False
    with Cons.prems(4) show ?thesis
      by (simp add: p applyProps_other [OF el1(2) sep] applyProp_attributes [OF el1(1)])
  qed
qed simp

lemma mget_spread: "mget (spread a b) k = (case mget (rev b) k of Some v \<Rightarrow> Some v | None \<Rightarrow> mget a k)"
  unfolding spread_def by (rule jm.look_put_all)

lemma mget_rev: "mwf m \<Longrightarrow> mget (rev m) = mget m"
  by (rule map_of_eqI) (auto simp: mwf_def map_of_eq_Some_iff rev_map [symmetric] dest: map_of_SomeD)

lemma mwf_spread: "mwf a \<Longrightarrow> mwf (spread a b)"
  unfolding spread_def by (rule jm.wf_put_all)

text \<open>
  The diff is enough: re-rendering only the changed properties of an element that shows the old
  properties makes it show the merged ones.
\<close>

lemma dom_spread: "dom (mget (spread a b)) = dom (mget a) \<union> fst ` set b"
  unfolding spread_def by (simp add: jm.dom_put_all Un_commute)

lemma diff_render:
  assumes sync: "in_sync br el p" and wf: "mwf newProps"
    and inj: "inj_on toKebabCase (dom (mget p) \<union> fst ` set newProps)"
    and app: "applyProps br (diffProps p newProps) el = (el', None)"
  shows "in_sync br el' (spread p newProps)"
proof -
  let ?diff = "diffProps p newProps"
  have sub: "set ?diff \<subseteq> set newProps" by (auto simp: diffProps_def)
  have diff: "mwf ?diff" "inj_on toKebabCase (fst ` set ?diff)"
    using wf inj sub by (auto simp: mwf_def diffProps_def distinct_map_filter intro: inj_on_subset)
  have kept: "mget (attributes el') (toKebabCase k) = mget (attributes el) (toKebabCase k)"
    if "k \<in> dom (mget p) \<union> fst ` set newProps" "k \<notin> fst ` set ?diff" for k
  proof (rule applyProps_other [OF app])
    have "fst ` set ?diff \<subseteq> dom (mget p) \<union> fst ` set newProps" using sub by auto
    with that inj show "toKebabCase k \<notin> toKebabCase ` fst ` set ?diff"
      by (simp add: inj_on_image_mem_iff)
  qed
  have "mget (attributes el') (toKebabCase k) = attr_of br v"
    if kv: "mget (spread p newProps) k = Some v" for k v
  proof (cases "k \<in> fst ` set ?diff")
    case True
    then obtain w where w: "(k, w) \<in> set ?diff" by force
    with sub wf have "mget newProps k = Some w" by (auto simp: mwf_mget_mem)
    with kv have "w = v" by (simp add: mget_spread mget_rev [OF wf])
    with w show ?thesis by (auto intro: applyProps_rendered [OF app diff])
  next
    case False
    have k: "k \<in> dom (mget p) \<union> fst ` set newProps"
      using kv dom_spread [of p newProps] by (auto simp: dom_def)
    have "mget (attributes el) (toKebabCase k) = attr_of br v"
    proof (cases "mget p k")
      case (Some u)
      have "u = v"
        using kv Some False wf
        by (auto simp: mget_spread mget_rev diffProps_def strict_eq_def prop_of_def mwf_mget_mem
              image_iff split: option.splits)
      with Some sync show ?thesis by (simp add: in_sync_def)
    next
      case None
      then have new: "mget newProps k = Some v" using kv by (auto simp: mget_spread mget_rev [OF wf] split: option.splits)
      with False None wf have "v = Undefined"
        by (auto simp: diffProps_def strict_eq_def prop_of_def mwf_mget_mem image_iff)
      moreover have "toKebabCase k \<notin> toKebabCase ` dom (mget p)"
        using None k inj by (auto dest: inj_onD)
      ultimately show ?thesis using sync by (simp add: in_sync_def attr_of_def)
    qed
    with kept [OF k False] show ?thesis by simp
  qed
  moreover have "mget (attributes el') a = None" if a: "a \<notin> toKebabCase ` dom (mget (spread p newProps))" for a
  proof -
    have "a \<notin> toKebabCase ` fst ` set ?diff" using a sub by (auto simp: dom_spread)
    then have "mget (attributes el') a = mget (attributes el) a" by (rule applyProps_other [OF app])
    also have "\<dots> = None" using a sync unfolding in_sync_def dom_spread image_Un by blast
    finally show ?thesis .
  qed
  ultimately show ?thesis unfolding in_sync_def by blast
qed

section \<open>A mounted component under updates\<close>

fun run_updates :: "browser \<Rightarrow> props_config list \<Rightarrow> comp_inst \<Rightarrow> dom \<Rightarrow> mounted" where
  "run_updates br [] i d = (i, d, None)"
| "run_updates br (p # ps) i d =
     (case update br p i d of
        (i1, d1, Some x) \<Rightarrow> (i1, d1, Some x)
      | (i1, d1, None) \<Rightarrow> run_updates br ps i1 d1)"

definition rendered :: "browser \<Rightarrow> comp_inst \<Rightarrow> dom \<Rightarrow> bool" where
  "rendered br i d \<longleftrightarrow> inst_state i \<in> {MOUNTED, UPDATED} \<and>
     (\<exists>e. inst_element i = Some e \<and> in_sync br (elements d e) (inst_props i))"

lemma unchanged_spread:
  assumes "diffProps p newProps = []" and "mwf newProps"
  shows "in_sync br el p \<Longrightarrow> inj_on toKebabCase (dom (mget p) \<union> fst ` set newProps) \<Longrightarrow>
    in_sync br el (spread p newProps)"
  by (rule diff_render [OF _ assms(2)]) (simp_all add: assms(1))

lemma update_rendered:
  assumes "rendered br i d" and "mwf newProps"
    and "inj_on toKebabCase (dom (mget (inst_props i)) \<union> fst ` set newProps)"
    and "update br newProps i d = (i', d', None)"
  shows "rendered br i' d'"
  using assms diff_render [OF _ assms(2,3)]
  by (auto simp: update_def rendered_def Let_def split: if_splits option.splits prod.splits)

lemma update_props:
  "update br newProps i d = (i', d', None) \<Longrightarrow>
     inst_props i' = inst_props i \<or> inst_props i' = spread (inst_props i) newProps"
  by (auto simp: update_def Let_def split: if_splits option.splits prod.splits)

lemma update_keys:
  "update br newProps i d = (i', d', None) \<Longrightarrow>
     dom (mget (inst_props i')) \<subseteq> dom (mget (inst_props i)) \<union> fst ` set newProps"
  using update_props [of br newProps i d i' d'] dom_spread [of "inst_props i" newProps] by auto

lemma run_updates_rendered:
  assumes "rendered br i d" and "\<forall>p \<in> set ps. mwf p"
    and "inj_on toKebabCase (dom (mget (inst_props i)) \<union> (\<Union>p \<in> set ps. fst ` set p))"
    and "run_updates br ps i d = (i', d', None)"
  shows "rendered br i' d'"
  using assms
proof (induction ps arbitrary: i d)
  case (Cons p ps)
  from Cons.prems(4) obtain i1 d1 where u: "update br p i d = (i1, d1, None)"
    and r: "run_updates br ps i1 d1 = (i', d', None)"
    by (auto split: prod.splits option.splits)
  have "rendered br i1 d1"
    using Cons.prems by (intro update_rendered [OF Cons.prems(1) _ _ u]) (auto intro: inj_on_subset)
  moreover have "inj_on toKebabCase (dom (mget (inst_props i1)) \<union> (\<Union>p \<in> set ps. fst ` set p))"
    by (rule inj_on_subset [OF Cons.prems(3)]) (use update_keys [OF u] in auto)
  ultimately show ?case using Cons.prems(2) r by (intro Cons.IH) auto
qed simp

lemma mount_rendered:
  assumes "mount br c i d = (i', d', None)" and "inst_state i \<noteq> MOUNTED"
    and "mwf (inst_props i)" and "inj_on toKebabCase (dom (mget (inst_props i)))"
  shows "rendered br i' d'" and "inst_props i' = inst_props i"
proof -
  from assms(1,2) obtain el where
    el: "applyProps br (inst_props i) \<lparr>attributes = [], properties = []\<rparr> = (el, None)"
    and i': "i' = i\<lparr>inst_container := Some c, inst_element := Some (next_element d), inst_state := MOUNTED\<rparr>"
    and d': "elements d' (next_element d) = el"
    by (auto simp: mount_def Let_def split: if_splits prod.splits option.splits)
  have keys: "fst ` set (inst_props i) = dom (mget (inst_props i))" by (simp add: dom_map_of_conv_image_fst)
  have "in_sync br el (inst_props i)"
    unfolding in_sync_def
  proof (intro conjI allI impI)
    fix k v assume "mget (inst_props i) k = Some v"
    then show "mget (attributes el) (toKebabCase k) = attr_of br v"
      using assms(3,4) by (intro applyProps_rendered [OF el]) (simp_all add: keys mwf_mget_mem)
  next
    fix a assume "a \<notin> toKebabCase ` dom (mget (inst_props i))"
    then show "mget (attributes el) a = None"
      using applyProps_other [OF el, of a] by (simp add: keys)
  qed
  then show "rendered br i' d'" by (simp add: rendered_def i' d')
  show "inst_props i' = inst_props i" by (simp add: i')
qed

section \<open>Properties\<close>


definition test_browser :: browser where
  "test_browser = \<lparr>create_ok = (\<lambda>_. True), attr_ok = (\<lambda>a. a \<noteq> js ''!''), append_ok = (\<lambda>_. True),
     stringify = (\<lambda>_. None), number_str = (\<lambda>_. js ''1'')\<rparr>"

definition empty_dom :: dom where
  "empty_dom = \<lparr>elements = (\<lambda>_. \<lparr>attributes = [], properties = []\<rparr>), next_element = 0,
     children = (\<lambda>_. [])\<rparr>"

lemma kebab_samples [simp]:
  "toKebabCase (js ''bgColor'') = js ''bg-color''" "toKebabCase (js ''w'') = js ''w''"
  "toKebabCase (js ''!'') = js ''!''"
  by (simp_all add: toKebabCase_def ascii_lower_def lower_unit_def is_upper_def js_def)


text \<open>mounting and then unmounting gives back the container's children as they were, and leaves
  the component unmounted with no reference to the page.
\<close>

theorem mount_unmount_restores:
  assumes "mount br c i d = (i1, d1, None)" and "inst_state i \<noteq> MOUNTED"
    and "\<forall>e \<in> set (children d c). e < next_element d"
  shows "\<exists>i2 d2. unmount i1 d1 = (i2, d2, None) \<and> children d2 = children d
    \<and> inst_state i2 = UNMOUNTED \<and> inst_element i2 = None \<and> inst_container i2 = None"
proof -
  from assms(1,2) have i1: "inst_state i1 = MOUNTED" "inst_element i1 = Some (next_element d)"
      "inst_container i1 = Some c"
    and d1: "children d1 = (children d)(c := children d c @ [next_element d])"
    by (auto simp: mount_def Let_def split: if_splits prod.splits option.splits)
  have "next_element d \<notin> set (children d c)" using assms(3) by blast
  then show ?thesis by (simp add: unmount_def i1 d1 remove1_append fun_eq_iff)
qed

theorem mount_unmount_restores_witness:
  "\<exists>i2 d2. unmount (fst (mount test_browser 0 (new_instance (sample_meta (js ''a'') (js ''x-a'')) None) empty_dom))
      (fst (snd (mount test_browser 0 (new_instance (sample_meta (js ''a'') (js ''x-a'')) None) empty_dom)))
    = (i2, d2, None) \<and> children d2 = children empty_dom"
proof -
  let ?i = "new_instance (sample_meta (js ''a'') (js ''x-a'')) None"
  obtain i1 d1 where m: "mount test_browser 0 ?i empty_dom = (i1, d1, None)"
    by (simp add: mount_def new_instance_def spread_def sample_meta_def test_browser_def Let_def)
  have "inst_state ?i \<noteq> MOUNTED" "\<forall>e \<in> set (children empty_dom 0). e < next_element empty_dom"
    by (simp_all add: new_instance_def empty_dom_def)
  from mount_unmount_restores [OF m this] m show ?thesis by auto
qed

text \<open>
  a mount that fails while the properties are applied leaves the component with an element
  that was never appended; every later unmount then throws, so the component stays in its error
  state for good.
\<close>

theorem failed_mount_cannot_unmount:
  assumes "applyProps br (inst_props i) \<lparr>attributes = [], properties = []\<rparr> = (el, Some x)"
    and "create_ok br (meta_tagName (inst_meta i))" and "inst_state i \<noteq> MOUNTED"
    and "\<forall>e \<in> set (children d c). e < next_element d"
  shows "\<exists>i1 d1. mount br c i d = (i1, d1, Some x) \<and> inst_state i1 = ERROR
    \<and> unmount i1 d1 = (i1, d1, Some NotFound)"
  using assms by (auto simp: mount_def unmount_def Let_def)

theorem failed_mount_cannot_unmount_witness:
  "\<exists>i1 d1. mount test_browser 0
      (new_instance (sample_meta (js ''a'') (js ''x-a'')) (Some [(js ''!'', Bool True)])) empty_dom
        = (i1, d1, Some InvalidName) \<and> inst_state i1 = ERROR
    \<and> unmount i1 d1 = (i1, d1, Some NotFound)"
  by (rule failed_mount_cannot_unmount)
    (simp_all add: new_instance_def spread_def sample_meta_def test_browser_def applyProp_def
        set_attribute_def empty_dom_def)

text \<open>
  mounting a component that has been updated since its mount is not refused: a second element
  joins the first in the container, and unmounting removes only the second.
\<close>

theorem remount_after_update_duplicates:
  assumes "mount br c i d = (i1, d1, None)" and "inst_state i \<noteq> MOUNTED"
    and "update br p i1 d1 = (iu, du, None)" and "diffProps (inst_props i) p \<noteq> []"
    and "mount br c iu du = (i2, d2, None)"
  shows "children d2 c = children d c @ [next_element d, Suc (next_element d)]
    \<and> (\<exists>i3 d3. unmount i2 d2 = (i3, d3, None) \<and> next_element d \<in> set (children d3 c))"
proof -
  from assms(1,2) have i1: "inst_state i1 = MOUNTED" "inst_element i1 = Some (next_element d)"
      "inst_props i1 = inst_props i"
    and d1: "children d1 = (children d)(c := children d c @ [next_element d])"
      "next_element d1 = Suc (next_element d)"
    by (auto simp: mount_def Let_def split: if_splits prod.splits option.splits)
  from assms(3,4) have iu: "inst_state iu = UPDATED"
    and du: "children du = children d1" "next_element du = next_element d1"
    by (auto simp: update_def Let_def i1 split: if_splits prod.splits option.splits)
  from assms(5) have i2: "inst_state i2 = MOUNTED" "inst_element i2 = Some (Suc (next_element d))"
      "inst_container i2 = Some c"
    and d2: "children d2 = (children du)(c := children du c @ [Suc (next_element d)])"
    by (auto simp: mount_def Let_def iu du d1 split: if_splits prod.splits option.splits)
  show ?thesis by (auto simp: unmount_def Let_def i2 d2 du d1 remove1_append in_set_remove1)
qed

theorem remount_after_update_duplicates_witness:
  "\<exists>i2 d2. children d2 (0::nat) = [0, Suc 0]
    \<and> (\<exists>i3 d3. unmount i2 d2 = (i3, d3, None) \<and> 0 \<in> set (children d3 0))"
proof -
  let ?i = "new_instance (sample_meta (js ''a'') (js ''x-a'')) None"
  let ?u = "[(js ''w'', Str (js ''9''))]"
  note evals = mount_def update_def new_instance_def spread_def sample_meta_def test_browser_def
    Let_def empty_dom_def diffProps_def prop_of_def strict_eq_def applyProp_def set_attribute_def
  obtain i1 d1 where m: "mount test_browser 0 ?i empty_dom = (i1, d1, None)"
    by (simp add: evals)
  obtain iu du where u: "update test_browser ?u i1 d1 = (iu, du, None)" and su: "inst_state iu = UPDATED"
      "inst_meta iu = inst_meta ?i" "inst_props iu = ?u"
    using m by (auto simp: evals)
  obtain i2 d2 where m2: "mount test_browser 0 iu du = (i2, d2, None)"
    using su by (auto simp: evals)
  have "inst_state ?i \<noteq> MOUNTED" "diffProps (inst_props ?i) ?u \<noteq> []"
    by (simp_all add: evals)
  from remount_after_update_duplicates [OF m this(1) u this(2) m2] show ?thesis
    by (auto simp: empty_dom_def)
qed

end
