(* ===== verification/RequestTable.thy ===== *)
theory RequestTable
  imports JsValue
begin

text \<open>
  What the two request/response bridges of the program share: promises, the timers that guard
  them, and the contract that every request that is still open is guarded by an armed timer. Also
  JSON values and decimal numerals, which both bridges put into messages.
\<close>

section \<open>JSON values and decimal numerals\<close>

datatype json =
    JNull
  | JBool bool
  | JNum jsnum
  | JStr jstr
  | JArr "json list"
  | JObj "(jstr \<times> json) list"

definition jfield :: "jstr \<Rightarrow> json \<Rightarrow> json option" where
  "jfield k j = (case j of JObj fs \<Rightarrow> map_of fs k | _ \<Rightarrow> None)"

fun decimal :: "nat \<Rightarrow> jstr" where
  "decimal n = (if n < 10 then [48 + of_nat n] else decimal (n div 10) @ [48 + of_nat (n mod 10)])"

declare decimal.simps [simp del]

lemma digit_unit:
  assumes "n < 10"
  shows "unat (48 + of_nat n :: 16 word) = 48 + n"
proof -
  have "unat (of_nat n :: 16 word) = n"
    using assms by (simp add: unat_of_nat take_bit_nat_eq_self)
  then show ?thesis using assms by (simp add: unat_word_ariths)
qed

lemma decimal_digits: "c \<in> set (decimal n) \<Longrightarrow> is_digit c"
proof (induction n rule: decimal.induct)
  case (1 n)
  have unit: "is_digit (48 + of_nat m)" if "m < 10" for m
    using digit_unit [OF that] that by (simp add: is_digit_def word_le_nat_alt)
  show ?case
  proof (cases "n < 10")
    case True
    with 1(2) unit show ?thesis by (simp add: decimal.simps [of n])
  next
    case False
    with 1 unit [of "n mod 10"] show ?thesis by (auto simp: decimal.simps [of n])
  qed
qed

lemma decimal_nonempty [simp]: "decimal n \<noteq> []" "[] \<noteq> decimal n"
  by (subst decimal.simps, simp)+

lemma decimal_inject [simp]: "decimal m = decimal n \<longleftrightarrow> m = n"
proof
  show "decimal m = decimal n \<Longrightarrow> m = n"
  proof (induction m arbitrary: n rule: decimal.induct)
    case (1 m)
    have dig: "(of_nat a :: 16 word) = of_nat b \<longleftrightarrow> a = b" if "a < 10" "b < 10" for a b
      using digit_unit [OF that(1)] digit_unit [OF that(2)] by (metis add_left_cancel)
    show ?case
    proof (cases "m < 10")
      case True
      with "1.prems" show ?thesis
        by (cases "n < 10") (auto simp: decimal.simps [of m] decimal.simps [of n] dig)
    next
      case False
      with "1.prems" have n: "\<not> n < 10"
        by (auto simp: decimal.simps [of m] decimal.simps [of n])
      with False "1.prems" have "decimal (m div 10) = decimal (n div 10)" "m mod 10 = n mod 10"
        by (simp_all add: decimal.simps [of m] decimal.simps [of n] dig)
      with "1.IH" [OF False] have "m div 10 = n div 10" "m mod 10 = n mod 10" by blast+
      then show ?thesis by (metis div_mult_mod_eq)
    qed
  qed
qed simp

section \<open>Promises\<close>

datatype ('v, 'e) promise = Unsettled | Resolved 'v | Rejected 'e

text \<open>Only the first call of \<open>resolve\<close> or \<open>reject\<close> has an effect.\<close>

definition settle :: "nat \<Rightarrow> ('v, 'e) promise \<Rightarrow> (nat \<Rightarrow> ('v, 'e) promise) \<Rightarrow> (nat \<Rightarrow> ('v, 'e) promise)" where
  "settle i p ps = (if ps i = Unsettled then ps(i := p) else ps)"

lemma settle_settled [simp]: "ps i \<noteq> Unsettled \<Longrightarrow> settle i p ps = ps"
  by (simp add: settle_def)

lemma settle_other: "j \<noteq> i \<Longrightarrow> settle i p ps j = ps j"
  by (simp add: settle_def)

lemma settle_eq_Unsettled [simp]:
  "p \<noteq> Unsettled \<Longrightarrow> settle i p ps j = Unsettled \<longleftrightarrow> j \<noteq> i \<and> ps j = Unsettled"
  by (simp add: settle_def)

section \<open>The table of open requests\<close>

text \<open>
  Entries map the identifier of a message to the number of its request, \<open>ps\<close> holds the promises by
  number, \<open>ts\<close> the armed timers with the identifier they were set for, and \<open>n\<close> is the next number.
  Every open promise is guarded by a timer, and every entry belongs to a timer.
\<close>

definition table_inv :: "('i, nat) jmap \<Rightarrow> (nat \<Rightarrow> ('v, 'e) promise) \<Rightarrow> (nat \<times> 'i \<times> 't) list \<Rightarrow> nat \<Rightarrow> bool" where
  "table_inv pend ps ts n \<longleftrightarrow>
     distinct (map fst ts) \<and> (\<forall>x\<in>set ts. fst x < n)
   \<and> (\<forall>r<n. ps r = Unsettled \<longrightarrow> r \<in> fst ` set ts) \<and> (\<forall>r\<ge>n. ps r = Unsettled)
   \<and> mwf pend \<and> (\<forall>i r. mget pend i = Some r \<longrightarrow> (\<exists>t. (r, i, t) \<in> set ts))"

lemma table_inv_empty: "table_inv [] (\<lambda>_. Unsettled) [] 0"
  by (simp add: table_inv_def)

lemma table_inv_entry: "table_inv pend ps ts n \<Longrightarrow> mget pend i = Some r \<Longrightarrow> \<exists>t. (r, i, t) \<in> set ts"
  unfolding table_inv_def by blast

lemma table_inv_timer:
  "table_inv pend ps ts n \<Longrightarrow> (r, i, t) \<in> set ts \<Longrightarrow> map_of ts r = Some (i, t) \<and> r < n"
  unfolding table_inv_def by fastforce

lemma table_inv_open:
  "table_inv pend ps ts n \<Longrightarrow> table_inv (mput i n pend) ps (ts @ [(n, i, t)]) (Suc n)"
  unfolding table_inv_def by (auto simp: less_Suc_eq image_Un; fastforce)

lemma table_inv_close:
  assumes inv: "table_inv pend ps ts n" and mem: "(r, i, t) \<in> set ts" and p: "p \<noteq> Unsettled"
  shows "table_inv (mdel i pend) (settle r p ps) (filter (\<lambda>(j, _). j \<noteq> r) ts) n"
proof -
  have "\<exists>t. (r', j, t) \<in> set (filter (\<lambda>(j, _). j \<noteq> r) ts)" if *: "mget (mdel i pend) j = Some r'" for j r'
  proof -
    from * have j: "j \<noteq> i" "mget pend j = Some r'" by (auto split: if_splits)
    with table_inv_entry [OF inv] obtain t' where t': "(r', j, t') \<in> set ts" by blast
    with mem j(1) have "r' \<noteq> r" using table_inv_timer [OF inv mem] table_inv_timer [OF inv t'] by auto
    with t' show ?thesis by auto
  qed
  then show ?thesis
    using inv p table_inv_timer [OF inv mem] unfolding table_inv_def
    by (auto simp: distinct_map_filter settle_def image_iff; fastforce)
qed

lemma table_inv_close_all:
  assumes inv: "table_inv pend ps ts n" and p: "p \<noteq> Unsettled"
  shows "table_inv [] (\<lambda>r. if r \<in> snd ` set pend \<and> ps r = Unsettled then p else ps r)
           (filter (\<lambda>(r, _). r \<notin> snd ` set pend) ts) n"
proof -
  have "r < n" if "(i, r) \<in> set pend" for i r
    using that inv table_inv_timer [OF inv] table_inv_entry [OF inv]
    by (metis mwf_mget_mem table_inv_def)
  then have "\<forall>r\<in>snd ` set pend. r < n" by auto
  then show ?thesis
    using inv p unfolding table_inv_def
    by (auto simp: distinct_map_filter case_prod_beta' not_less [symmetric] image_iff; fastforce)
qed

section \<open>The contract\<close>

locale request_table =
  fixes unsettled :: "'s \<Rightarrow> nat set"
    and armed :: "'s \<Rightarrow> nat list"
    and fire :: "nat \<Rightarrow> 's \<Rightarrow> 's"
    and inv :: "'s \<Rightarrow> bool"
  assumes tracked: "inv s \<Longrightarrow> unsettled s \<subseteq> set (armed s)"
    and armed_distinct: "inv s \<Longrightarrow> distinct (armed s)"
    and fire_unsettled: "inv s \<Longrightarrow> i \<in> set (armed s) \<Longrightarrow> unsettled (fire i s) = unsettled s - {i}"
    and fire_armed: "inv s \<Longrightarrow> i \<in> set (armed s) \<Longrightarrow> armed (fire i s) = removeAll i (armed s)"
    and fire_inv: "inv s \<Longrightarrow> i \<in> set (armed s) \<Longrightarrow> inv (fire i s)"
begin

lemma fire_list:
  assumes "inv s" and "distinct is" and "set is \<subseteq> set (armed s)"
  shows "inv (fold fire is s) \<and> unsettled (fold fire is s) = unsettled s - set is
    \<and> armed (fold fire is s) = filter (\<lambda>i. i \<notin> set is) (armed s)"
  using assms
proof (induction "is" arbitrary: s)
  case (Cons i "is")
  have i: "i \<in> set (armed s)" using Cons.prems by simp
  note st = fire_unsettled [OF Cons.prems(1) i] fire_armed [OF Cons.prems(1) i] fire_inv [OF Cons.prems(1) i]
  have "set is \<subseteq> set (armed (fire i s))" using Cons.prems by (auto simp: st)
  from Cons.IH [OF st(3) _ this] Cons.prems show ?case
    by (auto simp: st removeAll_filter_not_eq intro!: filter_cong)
qed simp

text \<open>When no answer ever comes, the timers settle every open request and none is left armed.\<close>

lemma drain:
  assumes "inv s"
  shows "unsettled (fold fire (armed s) s) = {} \<and> armed (fold fire (armed s) s) = []"
  using fire_list [OF assms armed_distinct [OF assms] subset_refl] tracked [OF assms]
  by auto

end

end
