(* ===== verification/EditorBridge.thy ===== *)
theory EditorBridge
  imports RequestTable
begin

text \<open>
  The editor-engine bridge (\<open>livestyle-engine/src/bridge/BridgeProtocol.ts\<close>,
  \<open>EditorBridge.ts\<close>, types of \<open>types/protocol.ts\<close>): message construction, validation and
  parsing, and the table of pending requests with their promises and ten-second timers. A request
  is numbered; its number names its promise and its timer. \<open>JSON.parse\<close>, \<open>JSON.stringify\<close> and
  the transport's \<open>send\<close> are parameters.
\<close>

section \<open>Messages\<close>

datatype direction = EDITOR_TO_ENGINE | ENGINE_TO_EDITOR

definition direction_str :: "direction \<Rightarrow> jstr" where
  "direction_str d = (case d of
      EDITOR_TO_ENGINE \<Rightarrow> js ''editor'' @ [0x2192] @ js ''engine''
    | ENGINE_TO_EDITOR \<Rightarrow> js ''engine'' @ [0x2192] @ js ''editor'')"

datatype msg_type =
    SET_COMPONENT_CONFIG | GET_COMPONENT_CONFIG | GET_COMPONENT_STATE | SET_LAYER_ORDER
  | NOTIFY_CONFIG_CHANGE | LOAD_COMPONENT | UNLOAD_COMPONENT
  | CANVAS_LOAD_COMPONENT | CANVAS_SWITCH_MODE | CANVAS_UPDATE_PROPS | PING | GET_ENGINE_VERSION
  | VALIDATE_CONFIG
  | COMPONENT_STATE_CHANGED | COMPONENT_ERROR | ENGINE_READY | CONFIG_VALIDATED
  | ENGINE_VERSION | PONG | CANVAS_STATE_CHANGED

definition type_str :: "msg_type \<Rightarrow> jstr" where
  "type_str t = js (case t of
      SET_COMPONENT_CONFIG \<Rightarrow> ''setComponentConfig''
    | GET_COMPONENT_CONFIG \<Rightarrow> ''getComponentConfig''
    | GET_COMPONENT_STATE \<Rightarrow> ''getComponentState''
    | SET_LAYER_ORDER \<Rightarrow> ''setLayerOrder''
    | NOTIFY_CONFIG_CHANGE \<Rightarrow> ''notifyConfigChange''
    | LOAD_COMPONENT \<Rightarrow> ''loadComponent''
    | UNLOAD_COMPONENT \<Rightarrow> ''unloadComponent''
    | CANVAS_LOAD_COMPONENT \<Rightarrow> ''canvasLoadComponent''
    | CANVAS_SWITCH_MODE \<Rightarrow> ''canvasSwitchMode''
    | CANVAS_UPDATE_PROPS \<Rightarrow> ''canvasUpdateProps''
    | PING \<Rightarrow> ''ping''
    | GET_ENGINE_VERSION \<Rightarrow> ''getEngineVersion''
    | VALIDATE_CONFIG \<Rightarrow> ''validateConfig''
    | COMPONENT_STATE_CHANGED \<Rightarrow> ''componentStateChanged''
    | COMPONENT_ERROR \<Rightarrow> ''componentError''
    | ENGINE_READY \<Rightarrow> ''engineReady''
    | CONFIG_VALIDATED \<Rightarrow> ''configValidated''
    | ENGINE_VERSION \<Rightarrow> ''engineVersion''
    | PONG \<Rightarrow> ''pong''
    | CANVAS_STATE_CHANGED \<Rightarrow> ''canvasStateChanged'')"

text \<open>
  A message as the receiver sees it: the checks of \<open>validateMessage\<close> do not tie the type and the
  direction to the enumerations, so both are strings; the payload is any object or null.
\<close>

record bridge_message =
  msg_id :: jstr
  msg_typ :: jstr
  msg_direction :: jstr
  msg_payload :: json
  msg_timestamp :: jsnum

record bridge_response =
  resp_messageId :: jstr
  resp_success :: bool
  resp_data :: "json option"
  resp_error :: "jstr option"

definition buildResponse :: "jstr \<Rightarrow> bool \<Rightarrow> json option \<Rightarrow> jstr option \<Rightarrow> bridge_response" where
  "buildResponse messageId success data err =
     \<lparr>resp_messageId = messageId, resp_success = success, resp_data = data, resp_error = err\<rparr>"

text \<open>The module-level counter is passed and returned.\<close>

definition nextMessageId :: "nat \<Rightarrow> nat \<Rightarrow> jstr \<times> nat" where
  "nextMessageId now messageIdCounter =
     (let c = Suc messageIdCounter in (js ''msg_'' @ decimal now @ js ''_'' @ decimal c, c))"

text \<open>\<open>Date.now()\<close> is read twice: \<open>now\<close> for the identifier, \<open>ts\<close> for the timestamp.\<close>

definition buildMessage :: "direction \<Rightarrow> msg_type \<Rightarrow> json \<Rightarrow> nat \<Rightarrow> nat \<Rightarrow> nat \<Rightarrow> bridge_message \<times> nat" where
  "buildMessage dir typ payload now ts counter =
     (let (i, c) = nextMessageId now counter
      in (\<lparr>msg_id = i, msg_typ = type_str typ, msg_direction = direction_str dir, msg_payload = payload,
           msg_timestamp = Fin (of_nat ts)\<rparr>, c))"

definition buildEditorMessage :: "msg_type \<Rightarrow> json \<Rightarrow> nat \<Rightarrow> nat \<Rightarrow> nat \<Rightarrow> bridge_message \<times> nat" where
  "buildEditorMessage = buildMessage EDITOR_TO_ENGINE"

definition buildEngineMessage :: "msg_type \<Rightarrow> json \<Rightarrow> nat \<Rightarrow> nat \<Rightarrow> nat \<Rightarrow> bridge_message \<times> nat" where
  "buildEngineMessage = buildMessage ENGINE_TO_EDITOR"

definition setComponentConfig_msg :: "jstr \<Rightarrow> json \<Rightarrow> nat \<Rightarrow> nat \<Rightarrow> nat \<Rightarrow> bridge_message \<times> nat" where
  "setComponentConfig_msg componentId props =
     buildEditorMessage SET_COMPONENT_CONFIG
       (JObj [(js ''componentId'', JStr componentId), (js ''props'', props)])"

definition getComponentConfig_msg :: "jstr \<Rightarrow> nat \<Rightarrow> nat \<Rightarrow> nat \<Rightarrow> bridge_message \<times> nat" where
  "getComponentConfig_msg componentId =
     buildEditorMessage GET_COMPONENT_CONFIG (JObj [(js ''componentId'', JStr componentId)])"

definition setLayerOrder_msg :: "json \<Rightarrow> nat \<Rightarrow> nat \<Rightarrow> nat \<Rightarrow> bridge_message \<times> nat" where
  "setLayerOrder_msg layerOrder =
     buildEditorMessage SET_LAYER_ORDER (JObj [(js ''layerOrder'', layerOrder)])"

definition notifyConfigChange_msg :: "jstr \<Rightarrow> jstr \<Rightarrow> json \<Rightarrow> nat \<Rightarrow> nat \<Rightarrow> nat \<Rightarrow> bridge_message \<times> nat" where
  "notifyConfigChange_msg componentId path newValue =
     buildEditorMessage NOTIFY_CONFIG_CHANGE
       (JObj [(js ''componentId'', JStr componentId), (js ''path'', JStr path), (js ''newValue'', newValue)])"

definition loadComponent_msg :: "jstr \<Rightarrow> jstr \<Rightarrow> jstr \<Rightarrow> nat \<Rightarrow> nat \<Rightarrow> nat \<Rightarrow> bridge_message \<times> nat" where
  "loadComponent_msg componentId tagName url =
     buildEditorMessage LOAD_COMPONENT
       (JObj [(js ''componentId'', JStr componentId), (js ''tagName'', JStr tagName), (js ''jsUrl'', JStr url)])"

text \<open>\<open>typeof payload === 'object'\<close> admits null and arrays; the message itself must be an object.\<close>

definition json_object :: "json \<Rightarrow> bool" where
  "json_object j = (case j of JNull \<Rightarrow> True | JArr _ \<Rightarrow> True | JObj _ \<Rightarrow> True | _ \<Rightarrow> False)"

definition validateMessage :: "json \<Rightarrow> bridge_message option" where
  "validateMessage j =
     (case (jfield (js ''id'') j, jfield (js ''type'') j, jfield (js ''direction'') j,
            jfield (js ''payload'') j, jfield (js ''timestamp'') j) of
        (Some (JStr i), Some (JStr t), Some (JStr d), Some p, Some (JNum ts)) \<Rightarrow>
          (if json_object p
           then Some \<lparr>msg_id = i, msg_typ = t, msg_direction = d, msg_payload = p, msg_timestamp = ts\<rparr>
           else None)
      | _ \<Rightarrow> None)"

definition message_json :: "bridge_message \<Rightarrow> json" where
  "message_json m = JObj [(js ''id'', JStr (msg_id m)), (js ''type'', JStr (msg_typ m)),
     (js ''direction'', JStr (msg_direction m)), (js ''payload'', msg_payload m),
     (js ''timestamp'', JNum (msg_timestamp m))]"

definition serialize :: "(json \<Rightarrow> jstr) \<Rightarrow> bridge_message \<Rightarrow> jstr" where
  "serialize stringify m = stringify (message_json m)"

text \<open>A parse error is \<open>None\<close>, and so is a message that fails the check.\<close>

definition deserialize :: "(jstr \<Rightarrow> json option) \<Rightarrow> jstr \<Rightarrow> bridge_message option" where
  "deserialize parse data = (case parse data of None \<Rightarrow> None | Some j \<Rightarrow> validateMessage j)"

section \<open>The bridge\<close>

datatype bridge_event =
    CONNECTION_OPENED
  | CONNECTION_CLOSED
  | MESSAGE_RECEIVED bridge_message
  | MESSAGE_SENT bridge_message
  | Forwarded jstr json

datatype bridge_error = NotConnected | TransportFailed | BridgeTimeout jstr | BridgeDisconnected

record bridge =
  connected :: bool
  pendingResponses :: "(jstr, nat) jmap"
  promises :: "nat \<Rightarrow> (json, bridge_error) promise"
  timers :: "(nat \<times> jstr \<times> jstr) list"
  next_req :: nat
  messageIdCounter :: nat
  sent :: "bridge_message list"
  transport_open :: bool
  bridge_events :: "bridge_event list"

definition new_bridge :: bridge where
  "new_bridge = \<lparr>connected = False, pendingResponses = [], promises = (\<lambda>_. Unsettled), timers = [],
     next_req = 0, messageIdCounter = 0, sent = [], transport_open = True, bridge_events = []\<rparr>"

definition bridge_emit :: "bridge_event \<Rightarrow> bridge \<Rightarrow> bridge" where
  "bridge_emit e b = b\<lparr>bridge_events := bridge_events b @ [e]\<rparr>"

definition connect :: "bridge \<Rightarrow> bridge" where
  "connect b = (if connected b then b else bridge_emit CONNECTION_OPENED (b\<lparr>connected := True\<rparr>))"

text \<open>\<open>send_ok\<close>: the transport accepts the message and it can be serialised.\<close>

definition bridge_send :: "(bridge_message \<Rightarrow> bool) \<Rightarrow> bridge_message \<Rightarrow> bridge \<Rightarrow> bridge_error + bridge" where
  "bridge_send send_ok msg b =
     (if \<not> connected b then Inl NotConnected
      else if \<not> send_ok msg then Inl TransportFailed
      else Inr (bridge_emit (MESSAGE_SENT msg) (b\<lparr>sent := sent b @ [msg]\<rparr>)))"

text \<open>An exception inside the executor rejects the promise; entry and timer stay.\<close>

definition sendAndWait :: "(bridge_message \<Rightarrow> bool) \<Rightarrow> bridge_message \<Rightarrow> bridge \<Rightarrow> bridge" where
  "sendAndWait send_ok msg b =
     (let r = next_req b;
          b1 = b\<lparr>next_req := Suc r, timers := timers b @ [(r, msg_id msg, msg_typ msg)],
                 pendingResponses := mput (msg_id msg) r (pendingResponses b)\<rparr>
      in case bridge_send send_ok msg b1 of
           Inl err \<Rightarrow> b1\<lparr>promises := settle r (Rejected err) (promises b1)\<rparr>
         | Inr b2 \<Rightarrow> b2)"

definition clear_timer :: "nat \<Rightarrow> bridge \<Rightarrow> bridge" where
  "clear_timer r b = b\<lparr>timers := filter (\<lambda>(i, _). i \<noteq> r) (timers b)\<rparr>"

text \<open>The timer's callback.\<close>

definition fire_timer :: "nat \<Rightarrow> bridge \<Rightarrow> bridge" where
  "fire_timer r b =
     (case map_of (timers b) r of
        None \<Rightarrow> b
      | Some (i, typ) \<Rightarrow>
          (clear_timer r b)\<lparr>pendingResponses := mdel i (pendingResponses b),
                            promises := settle r (Rejected (BridgeTimeout typ)) (promises b)\<rparr>)"

type_synonym builder = "nat \<Rightarrow> nat \<Rightarrow> nat \<Rightarrow> bridge_message \<times> nat"

definition request :: "(bridge_message \<Rightarrow> bool) \<Rightarrow> builder \<Rightarrow> nat \<Rightarrow> nat \<Rightarrow> bridge \<Rightarrow> bridge" where
  "request send_ok build now ts b =
     (let (msg, c) = build now ts (messageIdCounter b)
      in sendAndWait send_ok msg (b\<lparr>messageIdCounter := c\<rparr>))"

text \<open>\<open>notifyConfigChange\<close> sends without waiting; its promise rejects when \<open>send\<close> throws.\<close>

definition notify :: "(bridge_message \<Rightarrow> bool) \<Rightarrow> builder \<Rightarrow> nat \<Rightarrow> nat \<Rightarrow> bridge \<Rightarrow> bridge \<times> bridge_error option" where
  "notify send_ok build now ts b =
     (let (msg, c) = build now ts (messageIdCounter b);
          b1 = b\<lparr>messageIdCounter := c\<rparr>
      in case bridge_send send_ok msg b1 of Inl err \<Rightarrow> (b1, Some err) | Inr b2 \<Rightarrow> (b2, None))"

definition disconnect :: "bridge \<Rightarrow> bridge" where
  "disconnect b =
     (let b1 = bridge_emit CONNECTION_CLOSED (b\<lparr>connected := False, transport_open := False\<rparr>);
          b2 = fold (\<lambda>(_, r) b. (clear_timer r b)\<lparr>promises := settle r (Rejected BridgeDisconnected) (promises b)\<rparr>)
                 (pendingResponses b1) b1
      in b2\<lparr>pendingResponses := []\<rparr>)"

definition handleMessage :: "bridge_message \<Rightarrow> bridge \<Rightarrow> bridge" where
  "handleMessage m b =
     (case (if msg_direction m = direction_str ENGINE_TO_EDITOR
            then mget (pendingResponses b) (msg_id m) else None) of
        Some r \<Rightarrow>
          (clear_timer r b)\<lparr>promises := settle r (Resolved (msg_payload m)) (promises b),
                            pendingResponses := mdel (msg_id m) (pendingResponses b)\<rparr>
      | None \<Rightarrow>
          (if msg_typ m \<in> {type_str COMPONENT_STATE_CHANGED, type_str COMPONENT_ERROR,
                           type_str ENGINE_READY, type_str CONFIG_VALIDATED}
           then bridge_emit (Forwarded (js ''bridge:'' @ msg_typ m) (msg_payload m)) b
           else b))"

text \<open>The handler the constructor installs on the transport.\<close>

definition receive :: "(jstr \<Rightarrow> json option) \<Rightarrow> jstr \<Rightarrow> bridge \<Rightarrow> bridge" where
  "receive parse raw b =
     (case deserialize parse raw of
        None \<Rightarrow> b
      | Some m \<Rightarrow> handleMessage m (bridge_emit (MESSAGE_RECEIVED m) b))"


section \<open>Reachable states\<close>

text \<open>The requests of the public API, with their arguments.\<close>

datatype api_call =
    CallSetConfig jstr json
  | CallGetConfig jstr
  | CallSetLayerOrder json
  | CallLoad jstr jstr jstr

definition api_builder :: "api_call \<Rightarrow> builder" where
  "api_builder a = (case a of
      CallSetConfig i ps \<Rightarrow> setComponentConfig_msg i ps
    | CallGetConfig i \<Rightarrow> getComponentConfig_msg i
    | CallSetLayerOrder l \<Rightarrow> setLayerOrder_msg l
    | CallLoad i t u \<Rightarrow> loadComponent_msg i t u)"

text \<open>
  One step of the bridge: a call of the API, a text from the transport, or a timer. Transport,
  clock and parser may behave differently in every step.
\<close>

inductive bridge_step :: "bridge \<Rightarrow> bridge \<Rightarrow> bool" where
  step_connect: "bridge_step b (connect b)"
| step_disconnect: "bridge_step b (disconnect b)"
| step_request: "bridge_step b (request send_ok (api_builder a) now ts b)"
| step_notify: "bridge_step b (fst (notify send_ok (notifyConfigChange_msg i p v) now ts b))"
| step_receive: "bridge_step b (receive parse raw b)"
| step_timer: "r \<in> fst ` set (timers b) \<Longrightarrow> bridge_step b (fire_timer r b)"

inductive bridge_reach :: "bridge \<Rightarrow> bool" where
  reach_new: "bridge_reach new_bridge"
| reach_step: "bridge_reach b \<Longrightarrow> bridge_step b b' \<Longrightarrow> bridge_reach b'"

definition unsettled :: "bridge \<Rightarrow> nat set" where
  "unsettled b = {r. r < next_req b \<and> promises b r = Unsettled}"

definition armed :: "bridge \<Rightarrow> nat list" where
  "armed b = map fst (timers b)"

text \<open>Identifiers carry the counter they were made with.\<close>

definition made_before :: "nat \<Rightarrow> jstr \<Rightarrow> bool" where
  "made_before c i \<longleftrightarrow> (\<exists>now k. k \<le> c \<and> i = js ''msg_'' @ decimal now @ js ''_'' @ decimal k)"

definition bridge_inv :: "bridge \<Rightarrow> bool" where
  "bridge_inv b \<longleftrightarrow>
     table_inv (pendingResponses b) (promises b) (timers b) (next_req b)
   \<and> (\<forall>(r, i, t)\<in>set (timers b). made_before (messageIdCounter b) i)"

lemma nextMessageId_digits:
  assumes "decimal a @ js ''_'' @ decimal c = decimal b @ js ''_'' @ decimal d"
  shows "c = d"
proof -
  have sep: "\<not> is_digit (of_char (CHR ''_''))" by (simp add: is_digit_def)
  have cut: "dropWhile is_digit (decimal n @ js ''_'' @ ys) = js ''_'' @ ys" for n ys
    using sep by (subst dropWhile_append2) (auto simp: decimal_digits js_Cons)
  have "js ''_'' @ decimal c = js ''_'' @ decimal d"
    using arg_cong [OF assms, of "dropWhile is_digit"] by (simp only: cut)
  then show ?thesis by simp
qed

lemma made_before_next [simp]: "made_before (Suc c) (fst (nextMessageId now c))"
  by (auto simp: made_before_def nextMessageId_def Let_def)

lemma made_before_mono: "made_before c i \<Longrightarrow> c \<le> d \<Longrightarrow> made_before d i"
  by (auto simp: made_before_def) (metis order_trans)


lemma bridge_table: "bridge_inv b \<Longrightarrow> table_inv (pendingResponses b) (promises b) (timers b) (next_req b)"
  by (simp add: bridge_inv_def)

definition finish :: "nat \<Rightarrow> jstr \<Rightarrow> (json, bridge_error) promise \<Rightarrow> bridge \<Rightarrow> bridge" where
  "finish r i p b = (clear_timer r b)\<lparr>pendingResponses := mdel i (pendingResponses b),
                                      promises := settle r p (promises b)\<rparr>"

lemma armed_finish: "armed (finish r i p b) = removeAll r (armed b)"
  by (simp add: armed_def finish_def clear_timer_def removeAll_filter_not_eq filter_map o_def
        case_prod_beta' eq_commute)

lemma unsettled_finish: "p \<noteq> Unsettled \<Longrightarrow> unsettled (finish r i p b) = unsettled b - {r}"
  by (auto simp: unsettled_def finish_def clear_timer_def settle_def)

lemma finish_inv [js_inv]:
  "bridge_inv b \<Longrightarrow> (r, i, t) \<in> set (timers b) \<Longrightarrow> p \<noteq> Unsettled \<Longrightarrow> bridge_inv (finish r i p b)"
  unfolding bridge_inv_def by (auto simp: finish_def clear_timer_def dest: table_inv_close)

lemma fire_timer_finish:
  assumes "bridge_inv b" and "r \<in> set (armed b)"
  obtains i t where "(r, i, t) \<in> set (timers b)" and "fire_timer r b = finish r i (Rejected (BridgeTimeout t)) b"
proof -
  from assms(2) obtain i t where mem: "(r, i, t) \<in> set (timers b)" by (auto simp: armed_def)
  with table_inv_timer [OF bridge_table [OF assms(1)]] have "map_of (timers b) r = Some (i, t)" by blast
  then show ?thesis using that [OF mem] by (simp add: fire_timer_def finish_def)
qed

text \<open>The bridge provides the contract of the table of requests.\<close>

interpretation eb: request_table unsettled armed fire_timer bridge_inv
proof unfold_locales
  fix b :: bridge and r
  show "bridge_inv b \<Longrightarrow> unsettled b \<subseteq> set (armed b)"
    by (auto simp: bridge_inv_def table_inv_def unsettled_def armed_def)
  show "bridge_inv b \<Longrightarrow> distinct (armed b)" by (simp add: bridge_inv_def table_inv_def armed_def)
  assume *: "bridge_inv b" "r \<in> set (armed b)"
  show "unsettled (fire_timer r b) = unsettled b - {r}"
    by (rule fire_timer_finish [OF *]) (simp add: unsettled_finish)
  show "armed (fire_timer r b) = removeAll r (armed b)"
    by (rule fire_timer_finish [OF *]) (simp add: armed_finish)
  show "bridge_inv (fire_timer r b)"
    by (rule fire_timer_finish [OF *]) (simp add: finish_inv [OF *(1)])
qed

lemma bridge_inv_cong:
  assumes "bridge_inv b" and "timers b' = timers b" and "next_req b' = next_req b" and "promises b' = promises b"
    and "pendingResponses b' = pendingResponses b" and "messageIdCounter b \<le> messageIdCounter b'"
  shows "bridge_inv b'"
  using assms made_before_mono unfolding bridge_inv_def by fastforce

lemma emit_inv [js_inv]: "bridge_inv b \<Longrightarrow> bridge_inv (bridge_emit e b)"
  by (erule bridge_inv_cong) (simp_all add: bridge_emit_def)

lemma handleMessage_inv [js_inv]:
  assumes "bridge_inv b"
  shows "bridge_inv (handleMessage m b)"
proof (cases "if msg_direction m = direction_str ENGINE_TO_EDITOR
              then mget (pendingResponses b) (msg_id m) else None")
  case None
  then show ?thesis using assms by (simp add: handleMessage_def emit_inv)
next
  case (Some r)
  then have "mget (pendingResponses b) (msg_id m) = Some r" by (simp split: if_splits)
  then obtain t where "(r, msg_id m, t) \<in> set (timers b)" using table_inv_entry [OF bridge_table [OF assms]] by blast
  moreover have "handleMessage m b = finish r (msg_id m) (Resolved (msg_payload m)) b"
    using Some by (intro bridge.equality) (simp_all add: handleMessage_def finish_def clear_timer_def)
  ultimately show ?thesis using finish_inv [OF assms] by simp
qed

lemma receive_inv [js_inv]: "bridge_inv b \<Longrightarrow> bridge_inv (receive parse raw b)"
  by (simp add: receive_def handleMessage_inv emit_inv split: option.split)

text \<open>The state after the executor of \<open>sendAndWait\<close> has registered the request.\<close>

lemma register_inv:
  assumes "bridge_inv b" and "made_before (Suc (messageIdCounter b)) i"
  shows "bridge_inv (b\<lparr>messageIdCounter := Suc (messageIdCounter b), next_req := Suc (next_req b),
           timers := timers b @ [(next_req b, i, t)],
           pendingResponses := mput i (next_req b) (pendingResponses b)\<rparr>)"
  using assms made_before_mono [of "messageIdCounter b" _ "Suc (messageIdCounter b)"]
  unfolding bridge_inv_def by (auto simp: table_inv_open)

lemma settle_inv:
  "bridge_inv b \<Longrightarrow> r < next_req b \<Longrightarrow> p \<noteq> Unsettled \<Longrightarrow> bridge_inv (b\<lparr>promises := settle r p (promises b)\<rparr>)"
  unfolding bridge_inv_def table_inv_def by auto

lemma send_inv: "bridge_inv b \<Longrightarrow> bridge_send ok msg b = Inr b' \<Longrightarrow> bridge_inv b'"
  by (auto simp: bridge_send_def bridge_emit_def elim!: bridge_inv_cong split: if_splits)

lemma api_builder_id:
  "\<exists>m. api_builder a now ts c = (m, Suc c) \<and> msg_id m = fst (nextMessageId now c)"
  "\<exists>m. notifyConfigChange_msg i p v now ts c = (m, Suc c) \<and> msg_id m = fst (nextMessageId now c)"
  by (auto simp: api_builder_def setComponentConfig_msg_def getComponentConfig_msg_def setLayerOrder_msg_def
      loadComponent_msg_def notifyConfigChange_msg_def buildEditorMessage_def buildMessage_def nextMessageId_def
      Let_def split: api_call.split)

lemma request_inv [js_inv]:
  assumes "bridge_inv b"
  shows "bridge_inv (request ok (api_builder a) now ts b)"
proof -
  obtain m where m: "api_builder a now ts (messageIdCounter b) = (m, Suc (messageIdCounter b))"
    "msg_id m = fst (nextMessageId now (messageIdCounter b))"
    using api_builder_id by blast
  let ?b = "b\<lparr>messageIdCounter := Suc (messageIdCounter b), next_req := Suc (next_req b),
       timers := timers b @ [(next_req b, msg_id m, msg_typ m)],
       pendingResponses := mput (msg_id m) (next_req b) (pendingResponses b)\<rparr>"
  have reg: "bridge_inv ?b"
    by (rule register_inv [OF assms]) (simp add: m(2))
  show ?thesis
    using settle_inv [OF reg, of "next_req b"] send_inv [OF reg]
    by (simp add: request_def m(1) sendAndWait_def Let_def split: sum.split)
qed

lemma notify_inv [js_inv]:
  "bridge_inv b \<Longrightarrow> bridge_inv (fst (notify ok (notifyConfigChange_msg i p v) now ts b))"
proof -
  assume inv: "bridge_inv b"
  obtain m where m: "notifyConfigChange_msg i p v now ts (messageIdCounter b) = (m, Suc (messageIdCounter b))"
    using api_builder_id by blast
  have "bridge_inv (b\<lparr>messageIdCounter := Suc (messageIdCounter b)\<rparr>)"
    by (rule bridge_inv_cong [OF inv]) simp_all
  then show ?thesis by (auto simp: notify_def m Let_def dest: send_inv split: sum.split)
qed

text \<open>The loop of \<open>disconnect\<close>.\<close>

lemma reject_all:
  "let b' = fold (\<lambda>(_, r) b. (clear_timer r b)\<lparr>promises := settle r (Rejected e) (promises b)\<rparr>) ps b
   in timers b' = filter (\<lambda>(r, _). r \<notin> snd ` set ps) (timers b)
    \<and> promises b' = (\<lambda>r. if r \<in> snd ` set ps \<and> promises b r = Unsettled then Rejected e else promises b r)
    \<and> next_req b' = next_req b \<and> messageIdCounter b' = messageIdCounter b
    \<and> pendingResponses b' = pendingResponses b \<and> connected b' = connected b"
proof (induction ps arbitrary: b)
  case (Cons p ps)
  obtain i r where p: "p = (i, r)" by force
  show ?case
    using Cons [of "(clear_timer r b)\<lparr>promises := settle r (Rejected e) (promises b)\<rparr>"]
    by (auto simp: p Let_def clear_timer_def settle_def fun_eq_iff intro!: filter_cong)
qed simp

lemma disconnect_effect:
  "timers (disconnect b) = filter (\<lambda>(r, _). r \<notin> snd ` set (pendingResponses b)) (timers b)"
  "promises (disconnect b) = (\<lambda>r. if r \<in> snd ` set (pendingResponses b) \<and> promises b r = Unsettled
     then Rejected BridgeDisconnected else promises b r)"
  "next_req (disconnect b) = next_req b" "messageIdCounter (disconnect b) = messageIdCounter b"
  "pendingResponses (disconnect b) = []" "connected (disconnect b) = False"
  using reject_all [of BridgeDisconnected "pendingResponses b"
      "bridge_emit CONNECTION_CLOSED (b\<lparr>connected := False, transport_open := False\<rparr>)"]
  by (simp_all add: disconnect_def Let_def bridge_emit_def cong: if_cong)

lemma disconnect_inv [js_inv]: "bridge_inv b \<Longrightarrow> bridge_inv (disconnect b)"
  using table_inv_close_all [OF bridge_table]
  unfolding bridge_inv_def disconnect_effect by auto

lemma reach_inv: "bridge_reach b \<Longrightarrow> bridge_inv b"
proof (induction rule: bridge_reach.induct)
  case reach_new
  show ?case by (simp add: bridge_inv_def table_inv_empty new_bridge_def)
next
  case (reach_step b b')
  from reach_step(2) reach_step.IH show ?case
  proof cases
    case step_connect
    have "bridge_inv (b\<lparr>connected := True\<rparr>)" by (rule bridge_inv_cong [OF reach_step.IH]) simp_all
    with step_connect reach_step.IH show ?thesis by (simp add: connect_def emit_inv)
  next
    case (step_timer r)
    with reach_step.IH eb.fire_inv show ?thesis by (auto simp: armed_def)
  qed (simp_all add: js_inv)
qed


section \<open>Properties\<close>

lemma request_effect:
  assumes "connected b" and "api_builder a now ts (messageIdCounter b) = (m, c)" and "ok m"
  shows "promises (request ok (api_builder a) now ts b) = promises b
    \<and> next_req (request ok (api_builder a) now ts b) = Suc (next_req b)
    \<and> sent (request ok (api_builder a) now ts b) = sent b @ [m]
    \<and> timers (request ok (api_builder a) now ts b) = timers b @ [(next_req b, msg_id m, msg_typ m)]
    \<and> mget (pendingResponses (request ok (api_builder a) now ts b)) (msg_id m) = Some (next_req b)"
  using assms by (simp add: request_def sendAndWait_def bridge_send_def bridge_emit_def Let_def)

text \<open>
  C18: No request of the bridge is lost: in every reachable state, whatever texts arrived and
  however sends failed, if from now on nothing but the ten-second timers happens, then firing them
  once each settles every promise that was ever handed out, and no timer and no pending entry is
  left.
\<close>

theorem no_request_lost:
  assumes "bridge_reach b"
  shows "let b' = fold fire_timer (armed b) b
         in (\<forall>r<next_req b. promises b' r \<noteq> Unsettled) \<and> timers b' = [] \<and> pendingResponses b' = []"
proof -
  let ?b = "fold fire_timer (armed b) b"
  note inv = reach_inv [OF assms]
  have dr: "unsettled ?b = {}" "armed ?b = []" using eb.drain [OF inv] by auto
  have inv': "bridge_inv ?b" using eb.fire_list [OF inv eb.armed_distinct [OF inv] subset_refl] by auto
  have nr: "next_req (fold fire_timer rs s) = next_req s" for rs s
    by (induction rs arbitrary: s) (auto simp: fire_timer_def clear_timer_def split: option.split)
  have "mget (pendingResponses ?b) i = None" for i
    using table_inv_entry [OF bridge_table [OF inv']] dr(2)
    by (cases "mget (pendingResponses ?b) i") (auto simp: armed_def)
  then have "pendingResponses ?b = []"
    by (metis mget_mput neq_Nil_conv fun_upd_same map_of_Cons_code(2) option.distinct(1) surj_pair)
  with dr show ?thesis by (auto simp: Let_def unsettled_def armed_def nr)
qed

text \<open>
  C21: A request is answered by its own response and by nothing else: on a connected bridge whose
  transport takes the message, the promise stays open until the response with the message's
  identifier arrives from the engine; that response resolves it with its payload, leaves every other
  promise as it was, and removes the request's timer, so no timeout follows. A response with
  any other identifier leaves the promise open.
\<close>

theorem response_resolves_its_request:
  assumes "bridge_reach b" and "connected b"
    and m: "api_builder a now ts (messageIdCounter b) = (m, c)" and ok: "ok m"
    and r: "msg_direction reply = direction_str ENGINE_TO_EDITOR"
  shows "let b1 = request ok (api_builder a) now ts b;
             b2 = handleMessage reply b1
         in promises b1 (next_req b) = Unsettled
          \<and> (msg_id reply = msg_id m \<longrightarrow>
               promises b2 = (promises b1)(next_req b := Resolved (msg_payload reply))
             \<and> next_req b \<notin> set (armed b2))
          \<and> (msg_id reply \<noteq> msg_id m \<longrightarrow>
               promises b2 (next_req b) = Unsettled \<and> next_req b \<in> set (armed b2))"
proof -
  let ?b1 = "request ok (api_builder a) now ts b"
  note inv = reach_inv [OF assms(1)] and eff = request_effect [OF assms(2) m, of ok, OF ok]
  have inv1: "bridge_inv ?b1" by (rule request_inv [OF inv])
  have "promises b (next_req b) = Unsettled" using bridge_table [OF inv] by (simp add: table_inv_def)
  then have open_: "promises ?b1 (next_req b) = Unsettled" using eff by simp
  have mem: "(next_req b, msg_id m, msg_typ m) \<in> set (timers ?b1)" using eff by simp
  have other: "r' \<noteq> next_req b" if "mget (pendingResponses ?b1) i = Some r'" "i \<noteq> msg_id m" for i r'
  proof
    assume "r' = next_req b"
    with table_inv_entry [OF bridge_table [OF inv1] that(1)]
    obtain t where "(next_req b, i, t) \<in> set (timers ?b1)" by blast
    from table_inv_timer [OF bridge_table [OF inv1] this] table_inv_timer [OF bridge_table [OF inv1] mem] that(2)
    show False by simp
  qed
  show ?thesis
    using eff open_ other [of "msg_id reply"] mem r
    by (auto simp: Let_def handleMessage_def settle_def clear_timer_def armed_def bridge_emit_def
        image_iff split: option.split)
qed

text \<open>
  Message identifiers never repeat: two messages built with different values of the
  counter have different identifiers whatever the clock says, so a clock that stands still or
  runs backwards cannot make two requests share an entry.
\<close>

theorem message_ids_distinct:
  "msg_id (fst (buildMessage d t p now ts c)) = msg_id (fst (buildMessage d' t' p' now' ts' c')) \<longleftrightarrow>
     now = now' \<and> c = c'"
proof
  assume "msg_id (fst (buildMessage d t p now ts c)) = msg_id (fst (buildMessage d' t' p' now' ts' c'))"
  then have eq: "decimal now @ js ''_'' @ decimal (Suc c) = decimal now' @ js ''_'' @ decimal (Suc c')"
    by (simp add: buildMessage_def nextMessageId_def Let_def)
  from nextMessageId_digits [OF this] have "c = c'" by simp
  with eq show "now = now' \<and> c = c'" by simp
qed (simp add: buildMessage_def nextMessageId_def Let_def)

text \<open>
  Serialisation round trip: a message with an object payload that goes through
  \<open>serialize\<close> and \<open>deserialize\<close> arrives unchanged, provided the JSON text parses back to the value
  it was printed from. A message whose payload is not an object is dropped.
\<close>

theorem message_roundtrip:
  assumes "parse (stringify (message_json m)) = Some (message_json m)"
  shows "deserialize parse (serialize stringify m) = (if json_object (msg_payload m) then Some m else None)"
  using assms
  by (simp add: deserialize_def serialize_def validateMessage_def message_json_def jfield_def)

section \<open>Witnesses\<close>

definition w_bridge :: bridge where
  "w_bridge = request (\<lambda>_. True) (api_builder (CallGetConfig [])) 1 1 (connect new_bridge)"

lemma w_bridge_reach: "bridge_reach w_bridge"
  unfolding w_bridge_def by (intro reach_step [OF reach_step [OF reach_new step_connect] step_request])

lemma no_request_lost_witness:
  "let b' = fold fire_timer (armed w_bridge) w_bridge
   in (\<forall>r<next_req w_bridge. promises b' r \<noteq> Unsettled) \<and> timers b' = [] \<and> pendingResponses b' = []"
  by (rule no_request_lost [OF w_bridge_reach])

definition w_reply :: bridge_message where
  "w_reply = \<lparr>msg_id = fst (nextMessageId 1 0), msg_typ = [], msg_direction = direction_str ENGINE_TO_EDITOR,
     msg_payload = JNull, msg_timestamp = Fin 1\<rparr>"

lemma response_resolves_its_request_witness:
  "promises (handleMessage w_reply w_bridge) 0 = Resolved JNull"
proof -
  have m: "api_builder (CallGetConfig []) 1 1 (messageIdCounter (connect new_bridge))
    = (fst (api_builder (CallGetConfig []) 1 1 0), Suc 0)"
    by (simp add: connect_def new_bridge_def bridge_emit_def api_builder_def getComponentConfig_msg_def
        buildEditorMessage_def buildMessage_def nextMessageId_def Let_def)
  have i: "msg_id (fst (api_builder (CallGetConfig []) 1 1 0)) = msg_id w_reply"
    by (simp add: w_reply_def api_builder_def getComponentConfig_msg_def
        buildEditorMessage_def buildMessage_def nextMessageId_def Let_def)
  have c: "connected (connect new_bridge)" "next_req (connect new_bridge) = 0"
    by (simp_all add: connect_def new_bridge_def bridge_emit_def)
  have "msg_direction w_reply = direction_str ENGINE_TO_EDITOR" "msg_payload w_reply = JNull"
    by (simp_all add: w_reply_def)
  with response_resolves_its_request [OF reach_step [OF reach_new step_connect] c(1) m, of "\<lambda>_. True" w_reply]
  show ?thesis unfolding w_bridge_def Let_def i c(2) by simp
qed

lemma message_roundtrip_witness:
  "deserialize (\<lambda>_. Some (message_json w_reply)) (serialize (\<lambda>_. []) w_reply) = Some w_reply"
  using message_roundtrip [of "\<lambda>_. Some (message_json w_reply)" "\<lambda>_. []" w_reply]
  by (simp add: json_object_def) (simp add: w_reply_def)

end
