(* ===== verification/ConfigValidator.thy ===== *)
theory ConfigValidator
  imports JsValue
begin

text \<open>
  The configuration validator of the component engine
  (\<open>livestyle-engine/src/validate/ConfigValidator.ts\<close>, types of \<open>ConfigSchema.ts\<close>): loading a schema,
  and checking values for type, range, pattern and dependencies. The YAML parser and the engine
  that runs a schema's own patterns are parameters; the two fixed patterns of the file are modelled.
\<close>

section \<open>Schema\<close>

text \<open>The constructors carry a prefix: X is a keyword of the logic.\<close>

datatype field_type = T_I32 | T_STR | T_BOOL | T_DURATION | T_SECRET

definition SUPPORTED_TYPES :: "(jstr \<times> field_type) list" where
  "SUPPORTED_TYPES = [(js ''I32'', T_I32), (js ''STR'', T_STR), (js ''BOOL'', T_BOOL), (js ''DURATION'', T_DURATION), (js ''SECRET'', T_SECRET)]"

record contract =
  c_range :: "(jsnum \<times> jsnum) option"
  c_pattern :: "jstr option"
  c_dependencies :: "jstr list option"
  c_slo_impact :: "jstr option"
  c_approval_required :: "bool option"

record ui_meta =
  ui_label :: jstr
  ui_order :: jsnum

record ConfigFieldDefinition =
  fd_id :: nat
  fd_key :: jstr
  fd_type :: field_type
  fd_default :: jsval
  fd_description :: jstr
  fd_module :: jstr
  fd_contract :: "contract option"
  fd_ui_meta :: "ui_meta option"

record ConfigDomain =
  dom_domain :: jstr
  dom_version :: jstr
  dom_fields :: "ConfigFieldDefinition list"

text \<open>The parsed document, as the source types it; an absent or mistyped part is \<open>None\<close>.\<close>

record raw_ui =
  ru_label :: "jstr option"
  ru_order :: "jsnum option"

record RawField =
  rf_key :: jstr
  rf_type :: jstr
  rf_default :: jsval
  rf_business_desc :: "jstr option"
  rf_description :: "jstr option"
  rf_contract :: "contract option"
  rf_ui :: "raw_ui option"

record RawSchema =
  raw_domain :: "jstr option"
  raw_version :: jstr
  raw_fields :: "RawField list option"

datatype schema_error = YamlError | MissingDomain | MissingFields | UnsupportedType jstr jstr | NotLoaded | BadPattern jstr

definition extractModule :: "jstr \<Rightarrow> jstr" where
  "extractModule key = takeWhile (\<lambda>c. c \<noteq> 0x2E) key"

text \<open>A falsy text is left out.\<close>

definition nonempty_opt :: "jstr option \<Rightarrow> jstr option" where
  "nonempty_opt s = (if s = Some [] then None else s)"

definition build_contract :: "contract \<Rightarrow> contract" where
  "build_contract c = \<lparr>c_range = c_range c, c_pattern = nonempty_opt (c_pattern c),
     c_dependencies = c_dependencies c, c_slo_impact = nonempty_opt (c_slo_impact c),
     c_approval_required = c_approval_required c\<rparr>"

definition build_field :: "nat \<Rightarrow> RawField \<Rightarrow> schema_error + ConfigFieldDefinition" where
  "build_field idx f =
     (case map_of SUPPORTED_TYPES (rf_type f) of
        None \<Rightarrow> Inl (UnsupportedType (rf_type f) (rf_key f))
      | Some t \<Rightarrow> Inr \<lparr>fd_id = idx + 1, fd_key = rf_key f, fd_type = t, fd_default = rf_default f,
          fd_description = (case rf_business_desc f of Some d \<Rightarrow> d
                            | None \<Rightarrow> (case rf_description f of Some d \<Rightarrow> d | None \<Rightarrow> [])),
          fd_module = extractModule (rf_key f),
          fd_contract = map_option build_contract (rf_contract f),
          fd_ui_meta = map_option (\<lambda>u. \<lparr>ui_label = (case ru_label u of Some l \<Rightarrow> l | None \<Rightarrow> []),
                                        ui_order = (case ru_order u of Some n \<Rightarrow> n | None \<Rightarrow> Fin 0)\<rparr>) (rf_ui f)\<rparr>)"

fun build_fields :: "nat \<Rightarrow> RawField list \<Rightarrow> schema_error + ConfigFieldDefinition list" where
  "build_fields idx [] = Inr []"
| "build_fields idx (f # fs) =
     (case build_field idx f of Inl e \<Rightarrow> Inl e
      | Inr d \<Rightarrow> (case build_fields (Suc idx) fs of Inl e \<Rightarrow> Inl e | Inr ds \<Rightarrow> Inr (d # ds)))"

record validator =
  v_domain :: "ConfigDomain option"
  fieldMap :: "(jstr, ConfigFieldDefinition) jmap"

definition new_validator :: validator where
  "new_validator = \<lparr>v_domain = None, fieldMap = []\<rparr>"

text \<open>\<open>yaml\<close>: \<open>None\<close> when it throws, \<open>Some None\<close> for an empty document.\<close>

definition loadFromYaml :: "(jstr \<Rightarrow> RawSchema option option) \<Rightarrow> jstr \<Rightarrow> validator \<Rightarrow> schema_error + validator" where
  "loadFromYaml yaml content v =
     (case yaml content of
        None \<Rightarrow> Inl YamlError
      | Some None \<Rightarrow> Inl MissingDomain
      | Some (Some raw) \<Rightarrow>
          (case raw_domain raw of
             None \<Rightarrow> Inl MissingDomain
           | Some d \<Rightarrow>
               (case raw_fields raw of
                  None \<Rightarrow> Inl MissingFields
                | Some rfs \<Rightarrow>
                    (case build_fields 0 rfs of
                       Inl e \<Rightarrow> Inl e
                     | Inr fds \<Rightarrow>
                         Inr (v\<lparr>v_domain := Some \<lparr>dom_domain = d, dom_version = raw_version raw, dom_fields = fds\<rparr>,
                                fieldMap := fold (\<lambda>(k, fd). mput k fd) (map (\<lambda>fd. (fd_key fd, fd)) fds) []\<rparr>)))))"

section \<open>The two patterns\<close>

text \<open>\<open>/^\\d+(ms|s|m|h)?$/\<close>\<close>

definition is_duration :: "jstr \<Rightarrow> bool" where
  "is_duration s \<longleftrightarrow> takeWhile is_digit s \<noteq> []
     \<and> dropWhile is_digit s \<in> {[], js ''ms'', js ''s'', js ''m'', js ''h''}"

text \<open>
  \<open>/^(\\S+?)\\s*(==|>|<|>=|<=)?\\s*(.*)$/\<close> as the list of its successes in the order in which
  a backtracking matcher tries them: the lazy group from one character upwards, white space from the
  longest run downwards, the operators in the order written and then none, and the rest, which must
  reach the end and holds no line terminator. The match is the first success.
\<close>

definition operators :: "jstr list" where
  "operators = [js ''=='', js ''>'', js ''<'', js ''>='', js ''<='']"

definition space_runs :: "jstr \<Rightarrow> jstr list" where
  "space_runs s = map (\<lambda>n. drop n s) (rev [0..<Suc (length (takeWhile is_space s))])"

definition operator_tries :: "jstr \<Rightarrow> (jstr option \<times> jstr) list" where
  "operator_tries s = map (\<lambda>q. (Some q, drop (length q) s)) (filter (starts_with s) operators) @ [(None, s)]"

definition rest_tries :: "jstr \<Rightarrow> jstr list" where
  "rest_tries s = filter (\<lambda>t. \<forall>c\<in>set t. c \<notin> set line_terminators) (space_runs s)"

definition dependency_matches :: "jstr \<Rightarrow> (jstr \<times> jstr option \<times> jstr) list" where
  "dependency_matches s =
     concat (map (\<lambda>n. concat (map (\<lambda>s1. concat (map (\<lambda>(q, s2). map (\<lambda>t. (take n s, q, t)) (rest_tries s2))
        (operator_tries s1))) (space_runs (drop n s))))
       [1..<Suc (length (takeWhile (\<lambda>c. \<not> is_space c) s))])"

definition match_dependency :: "jstr \<Rightarrow> (jstr \<times> jstr option \<times> jstr) option" where
  "match_dependency s = (case dependency_matches s of [] \<Rightarrow> None | m # _ \<Rightarrow> Some m)"

section \<open>Validation\<close>

datatype message =
    TypeMismatch field_type
  | OutOfRange
  | PatternMismatch jstr
  | BadExpression jstr
  | UnknownDependency jstr
  | MissingOperand jstr
  | EnsureCondition jstr

record ConfigValidationError =
  e_field :: jstr
  e_message :: message
  e_warning :: bool

record ConfigValidationResult =
  r_valid :: bool
  r_errors :: "ConfigValidationError list"
  r_warnings :: "message list"

definition checkType :: "jstr \<Rightarrow> field_type \<Rightarrow> jsval \<Rightarrow> ConfigValidationError option" where
  "checkType key t val =
     (let err = Some \<lparr>e_field = key, e_message = TypeMismatch t, e_warning = False\<rparr>
      in case t of
           T_I32 \<Rightarrow> (case val of Num n \<Rightarrow> if num_is_integer n then None else err | _ \<Rightarrow> err)
         | T_STR \<Rightarrow> (case val of Str s \<Rightarrow> None | _ \<Rightarrow> err)
         | T_BOOL \<Rightarrow> (case val of Bool b \<Rightarrow> None | _ \<Rightarrow> err)
         | T_DURATION \<Rightarrow> (case val of Num n \<Rightarrow> None | Str s \<Rightarrow> if is_duration s then None else err | _ \<Rightarrow> err)
         | T_SECRET \<Rightarrow> (case val of Str s \<Rightarrow> None | _ \<Rightarrow> err))"

text \<open>One round of the loop of \<open>checkDependencies\<close>.\<close>

definition check_dependency :: "(jstr, ConfigFieldDefinition) jmap \<Rightarrow> jstr \<Rightarrow> jstr \<Rightarrow> ConfigValidationError list" where
  "check_dependency fm fieldKey depExpr =
     (case match_dependency depExpr of
        None \<Rightarrow> [\<lparr>e_field = fieldKey, e_message = BadExpression depExpr, e_warning = True\<rparr>]
      | Some (depFieldKey, operator, operandRaw) \<Rightarrow>
          (case mget fm depFieldKey of
             None \<Rightarrow> [\<lparr>e_field = fieldKey, e_message = UnknownDependency depFieldKey, e_warning = False\<rparr>]
           | Some _ \<Rightarrow>
               (case operator of
                  None \<Rightarrow> []
                | Some _ \<Rightarrow>
                    (if trim operandRaw = []
                     then [\<lparr>e_field = fieldKey, e_message = MissingOperand depExpr, e_warning = True\<rparr>]
                     else [\<lparr>e_field = fieldKey, e_message = EnsureCondition depExpr, e_warning = True\<rparr>]))))"

definition checkDependencies :: "(jstr, ConfigFieldDefinition) jmap \<Rightarrow> jstr \<Rightarrow> jstr list \<Rightarrow> ConfigValidationError list" where
  "checkDependencies fm fieldKey deps = concat (map (check_dependency fm fieldKey) deps)"

definition range_errors :: "ConfigFieldDefinition \<Rightarrow> jsval \<Rightarrow> ConfigValidationError list" where
  "range_errors field val =
     (case (Option.bind (fd_contract field) c_range, val) of
        (Some (mn, mx), Num n) \<Rightarrow>
          (if num_less n mn \<or> num_less mx n
           then [\<lparr>e_field = fd_key field, e_message = OutOfRange, e_warning = False\<rparr>] else [])
      | _ \<Rightarrow> [])"

text \<open>\<open>test p s\<close>: \<open>None\<close> when the pattern is not a regular expression.\<close>

definition pattern_errors :: "(jstr \<Rightarrow> jstr \<Rightarrow> bool option) \<Rightarrow> ConfigFieldDefinition \<Rightarrow> jsval \<Rightarrow> schema_error + ConfigValidationError list" where
  "pattern_errors test field val =
     (case (Option.bind (fd_contract field) c_pattern, val) of
        (Some p, Str s) \<Rightarrow>
          (case test p s of
             None \<Rightarrow> Inl (BadPattern p)
           | Some ok \<Rightarrow> Inr (if ok then [] else [\<lparr>e_field = fd_key field, e_message = PatternMismatch p, e_warning = False\<rparr>]))
      | _ \<Rightarrow> Inr [])"

definition dependency_errors :: "(jstr, ConfigFieldDefinition) jmap \<Rightarrow> ConfigFieldDefinition \<Rightarrow> ConfigValidationError list" where
  "dependency_errors fm field =
     (case Option.bind (fd_contract field) c_dependencies of
        None \<Rightarrow> [] | Some deps \<Rightarrow> checkDependencies fm (fd_key field) deps)"

definition validateField :: "(jstr \<Rightarrow> jstr \<Rightarrow> bool option) \<Rightarrow> validator \<Rightarrow> ConfigFieldDefinition \<Rightarrow> jsval \<Rightarrow> schema_error + ConfigValidationError list" where
  "validateField test v field val =
     (case checkType (fd_key field) (fd_type field) val of
        Some e \<Rightarrow> Inr [e]
      | None \<Rightarrow>
          (case pattern_errors test field val of
             Inl e \<Rightarrow> Inl e
           | Inr ps \<Rightarrow> Inr (range_errors field val @ ps @ dependency_errors (fieldMap v) field)))"

fun validate_fields ::
  "(jstr \<Rightarrow> jstr \<Rightarrow> bool option) \<Rightarrow> validator \<Rightarrow> (jstr, jsval) jmap \<Rightarrow> ConfigFieldDefinition list \<Rightarrow> schema_error + ConfigValidationError list" where
  "validate_fields test v config [] = Inr []"
| "validate_fields test v config (f # fs) =
     (case mget config (fd_key f) of
        None \<Rightarrow> validate_fields test v config fs
      | Some val \<Rightarrow>
          (case validateField test v f val of
             Inl e \<Rightarrow> Inl e
           | Inr es \<Rightarrow> (case validate_fields test v config fs of Inl e \<Rightarrow> Inl e | Inr es' \<Rightarrow> Inr (es @ es'))))"

definition validate :: "(jstr \<Rightarrow> jstr \<Rightarrow> bool option) \<Rightarrow> validator \<Rightarrow> (jstr, jsval) jmap \<Rightarrow> schema_error + ConfigValidationResult" where
  "validate test v config =
     (case v_domain v of
        None \<Rightarrow> Inl NotLoaded
      | Some d \<Rightarrow>
          (case validate_fields test v config (dom_fields d) of
             Inl e \<Rightarrow> Inl e
           | Inr es \<Rightarrow> (let errs = filter (\<lambda>e. \<not> e_warning e) es
                       in Inr \<lparr>r_valid = (errs = []), r_errors = errs,
                               r_warnings = map e_message (filter e_warning es)\<rparr>)))"

section \<open>The schema that a load builds\<close>

lemma build_fields_shape:
  "build_fields idx rfs = Inr ds \<Longrightarrow>
     length ds = length rfs \<and> (\<forall>i<length ds. fd_id (ds ! i) = idx + i + 1 \<and> fd_key (ds ! i) = rf_key (rfs ! i)
       \<and> fd_module (ds ! i) = extractModule (rf_key (rfs ! i))
       \<and> map_of SUPPORTED_TYPES (rf_type (rfs ! i)) = Some (fd_type (ds ! i)))"
proof (induction rfs arbitrary: idx ds)
  case (Cons f fs)
  from Cons.prems obtain d ds' where d: "build_field idx f = Inr d" "build_fields (Suc idx) fs = Inr ds'" "ds = d # ds'"
    by (auto split: sum.splits)
  then have "fd_id d = idx + 1 \<and> fd_key d = rf_key f \<and> fd_module d = extractModule (rf_key f)
      \<and> map_of SUPPORTED_TYPES (rf_type f) = Some (fd_type d)"
    by (auto simp: build_field_def split: option.splits)
  with Cons.IH [OF d(2)] d(3) show ?case by (auto simp: less_Suc_eq_0_disj nth_Cons')
qed simp

lemma load_shape:
  assumes "loadFromYaml yaml content v = Inr v'"
  obtains d fds where "v_domain v' = Some d" "dom_fields d = fds"
    and "\<And>k. mget (fieldMap v') k = map_of (rev (map (\<lambda>fd. (fd_key fd, fd)) fds)) k"
  using assms
  by (auto simp: loadFromYaml_def jm.look_put_all split: option.splits sum.splits)

section \<open>What the dependency pattern matches\<close>

lemma space_runs_nonempty [simp]: "space_runs s \<noteq> []"
  by (simp add: space_runs_def)

lemma operator_tries_none: "(None, s) \<in> set (operator_tries s)"
  by (simp add: operator_tries_def)

lemma self_in_space_runs: "s \<in> set (space_runs s)"
  by (force simp: space_runs_def image_iff intro!: bexI [of _ 0])

lemma hd_concat: "xs \<noteq> [] \<Longrightarrow> hd xs \<noteq> [] \<Longrightarrow> hd (concat xs) = hd (hd xs)"
  by (cases xs) (auto simp: hd_append)

lemma match_dependency_first:
  assumes "\<not> is_space c" and "\<forall>x\<in>set s. x \<notin> set line_terminators"
  shows "\<exists>q t. match_dependency (c # s) = Some ([c], q, t)"
proof -
  let ?f = "\<lambda>n. concat (map (\<lambda>s1. concat (map (\<lambda>(q, s2). map (\<lambda>t. (take n (c # s), q, t)) (rest_tries s2))
        (operator_tries s1))) (space_runs (drop n (c # s))))"
  have range: "[1..<Suc (length (takeWhile (\<lambda>c. \<not> is_space c) (c # s)))]
      = 1 # [2..<Suc (length (takeWhile (\<lambda>c. \<not> is_space c) (c # s)))]"
    using assms(1) by (subst upt_conv_Cons) (simp_all add: numeral_2_eq_2)
  have "s \<in> set (rest_tries s)" using assms(2) self_in_space_runs by (simp add: rest_tries_def)
  then have "([c], None, s) \<in> set (?f 1)"
    using self_in_space_runs [of s] operator_tries_none [of s] by force
  then have ne: "?f 1 \<noteq> []" by force
  have shape: "fst m = [c]" if "m \<in> set (?f 1)" for m
    using that by auto
  have "dependency_matches (c # s) = ?f 1 @ concat (map ?f [2..<Suc (length (takeWhile (\<lambda>c. \<not> is_space c) (c # s)))])"
    unfolding dependency_matches_def range by simp
  with ne have "match_dependency (c # s) = Some (hd (?f 1))"
    unfolding match_dependency_def by (cases "?f 1") (simp_all add: list.case_eq_if)
  with shape [OF list.set_sel(1) [OF ne]] show ?thesis by (metis prod.collapse)
qed

section \<open>Properties\<close>

definition type_ok :: "field_type \<Rightarrow> jsval \<Rightarrow> bool" where
  "type_ok t val = (case (t, val) of
      (T_I32, Num n) \<Rightarrow> num_is_integer n
    | (T_STR, Str s) \<Rightarrow> True
    | (T_BOOL, Bool b) \<Rightarrow> True
    | (T_DURATION, Num n) \<Rightarrow> True
    | (T_DURATION, Str s) \<Rightarrow> is_duration s
    | (T_SECRET, Str s) \<Rightarrow> True
    | _ \<Rightarrow> False)"

text \<open>What a value of a field has to satisfy, stated without the order of the checks.\<close>

definition value_ok :: "(jstr \<Rightarrow> jstr \<Rightarrow> bool option) \<Rightarrow> (jstr, ConfigFieldDefinition) jmap \<Rightarrow> ConfigFieldDefinition \<Rightarrow> jsval \<Rightarrow> bool" where
  "value_ok test fm f val \<longleftrightarrow> type_ok (fd_type f) val
   \<and> (\<forall>c. fd_contract f = Some c \<longrightarrow>
        (\<forall>mn mx n. c_range c = Some (mn, mx) \<longrightarrow> val = Num n \<longrightarrow> \<not> num_less n mn \<and> \<not> num_less mx n)
      \<and> (\<forall>p s. c_pattern c = Some p \<longrightarrow> val = Str s \<longrightarrow> test p s = Some True)
      \<and> (\<forall>deps dep k q t. c_dependencies c = Some deps \<longrightarrow> dep \<in> set deps \<longrightarrow>
            match_dependency dep = Some (k, q, t) \<longrightarrow> mget fm k \<noteq> None))"

lemma checkType_ok: "checkType key t val = None \<longleftrightarrow> type_ok t val"
  by (cases t; cases val) (auto simp: checkType_def type_ok_def Let_def)

lemma checkType_error: "checkType key t val = Some e \<Longrightarrow> \<not> e_warning e"
  by (cases t; cases val) (auto simp: checkType_def Let_def split: if_splits)

lemma range_errors_ok:
  "(\<forall>e\<in>set (range_errors f val). e_warning e) \<longleftrightarrow>
   (\<forall>c mn mx n. fd_contract f = Some c \<longrightarrow> c_range c = Some (mn, mx) \<longrightarrow> val = Num n \<longrightarrow> \<not> num_less n mn \<and> \<not> num_less mx n)"
  by (cases val; cases "fd_contract f"; cases "c_range (the (fd_contract f))")
    (auto simp: range_errors_def split: if_splits)

lemma pattern_errors_ok:
  "pattern_errors test f val = Inr ps \<Longrightarrow> (\<forall>e\<in>set ps. e_warning e) \<longleftrightarrow>
   (\<forall>c p s. fd_contract f = Some c \<longrightarrow> c_pattern c = Some p \<longrightarrow> val = Str s \<longrightarrow> test p s = Some True)"
  by (cases val) (auto simp: pattern_errors_def split: Option.bind_splits option.splits if_splits)

lemma check_dependency_ok:
  "(\<forall>e\<in>set (check_dependency fm key dep). e_warning e) \<longleftrightarrow>
   (\<forall>k q t. match_dependency dep = Some (k, q, t) \<longrightarrow> mget fm k \<noteq> None)"
  by (auto simp: check_dependency_def split: option.split)

lemma dependency_errors_ok:
  "(\<forall>e\<in>set (dependency_errors fm f). e_warning e) \<longleftrightarrow>
   (\<forall>c deps dep k q t. fd_contract f = Some c \<longrightarrow> c_dependencies c = Some deps \<longrightarrow> dep \<in> set deps \<longrightarrow>
      match_dependency dep = Some (k, q, t) \<longrightarrow> mget fm k \<noteq> None)"
  by (cases "Option.bind (fd_contract f) c_dependencies")
    (auto simp: dependency_errors_def checkDependencies_def check_dependency_ok split: Option.bind_splits)

lemma validateField_ok:
  assumes "validateField test v f val = Inr es"
  shows "(\<forall>e\<in>set es. e_warning e) \<longleftrightarrow> value_ok test (fieldMap v) f val"
proof (cases "checkType (fd_key f) (fd_type f) val")
  case (Some e)
  with assms checkType_error [OF Some] checkType_ok [of "fd_key f" "fd_type f" val]
  show ?thesis by (auto simp: validateField_def value_ok_def)
next
  case None
  with assms obtain ps where ps: "pattern_errors test f val = Inr ps"
    and es: "es = range_errors f val @ ps @ dependency_errors (fieldMap v) f"
    by (auto simp: validateField_def split: sum.splits)
  have "type_ok (fd_type f) val" using None checkType_ok by blast
  then show ?thesis
    unfolding es value_ok_def set_append ball_Un range_errors_ok pattern_errors_ok [OF ps] dependency_errors_ok
    by blast
qed

lemma validate_fields_ok:
  "validate_fields test v config fs = Inr es \<Longrightarrow> (\<forall>e\<in>set es. e_warning e) \<longleftrightarrow>
     (\<forall>f\<in>set fs. \<forall>val. mget config (fd_key f) = Some val \<longrightarrow> value_ok test (fieldMap v) f val)"
proof (induction fs arbitrary: es)
  case (Cons f fs)
  show ?case
  proof (cases "mget config (fd_key f)")
    case None
    with Cons show ?thesis by simp
  next
    case (Some val)
    with Cons.prems obtain es1 es2 where "validateField test v f val = Inr es1"
      "validate_fields test v config fs = Inr es2" "es = es1 @ es2"
      by (auto split: sum.splits)
    with Cons.IH validateField_ok Some show ?thesis by (simp add: ball_Un)
  qed
qed simp

lemma validateField_total:
  assumes "\<forall>p s. test p s \<noteq> None"
  shows "\<exists>es. validateField test v f val = Inr es"
proof -
  have "\<exists>ps. pattern_errors test f val = Inr ps"
    using assms by (simp add: pattern_errors_def split: option.split jsval.split) (metis not_Some_eq)
  then show ?thesis by (auto simp: validateField_def split: option.split)
qed

lemma validate_fields_total:
  assumes "\<forall>p s. test p s \<noteq> None"
  shows "\<exists>es. validate_fields test v config fs = Inr es"
proof (induction fs)
  case (Cons f fs)
  then obtain es where es: "validate_fields test v config fs = Inr es" by blast
  show ?case
  proof (cases "mget config (fd_key f)")
    case (Some val)
    obtain es' where "validateField test v f val = Inr es'" using validateField_total [OF assms] by blast
    with es Some show ?thesis by simp
  qed (simp add: es)
qed simp

text \<open>What the verdict means: with a loaded schema whose patterns are regular expressions,
  validation returns, it reports valid exactly when every schema field that the configuration sets has a
  value of its type, inside its range (a number that is not a number passes), matching its pattern, with
  dependencies whose parsed key is declared; fields that are not set are not checked, keys outside the
  schema are ignored, and a verdict of valid lists no errors.
\<close>

theorem validate_meaning:
  assumes "v_domain v = Some d" and "\<forall>p s. test p s \<noteq> None"
  shows "\<exists>r. validate test v config = Inr r
      \<and> (r_valid r \<longleftrightarrow> (\<forall>f\<in>set (dom_fields d). \<forall>val. mget config (fd_key f) = Some val \<longrightarrow>
            value_ok test (fieldMap v) f val))
      \<and> (r_valid r \<longleftrightarrow> r_errors r = [])"
proof -
  obtain es where es: "validate_fields test v config (dom_fields d) = Inr es"
    using validate_fields_total [OF assms(2)] by blast
  have "filter (\<lambda>e. \<not> e_warning e) es = [] \<longleftrightarrow> (\<forall>e\<in>set es. e_warning e)" by (simp add: filter_empty_conv)
  with es assms(1) validate_fields_ok [OF es] show ?thesis by (simp add: validate_def Let_def)
qed

text \<open>
  A dependency on another field never works: the lazy group of the dependency pattern is
  satisfied with one character, so for a dependency that starts with a visible character the parsed key
  is that character alone; unless the schema declares a field with that one-character key, every value
  that has the field's type is rejected, although the field it depends on is declared.
\<close>

theorem dependency_key_is_one_character:
  assumes "fd_contract f = Some c" and "c_dependencies c = Some deps" and "ch # rest \<in> set deps"
    and "\<not> is_space ch" and "\<forall>x\<in>set rest. x \<notin> set line_terminators"
    and "mget (fieldMap v) [ch] = None"
  shows "\<not> value_ok test (fieldMap v) f val
    \<and> \<lparr>e_field = fd_key f, e_message = UnknownDependency [ch], e_warning = False\<rparr> \<in> set (dependency_errors (fieldMap v) f)"
proof -
  obtain q t where m: "match_dependency (ch # rest) = Some ([ch], q, t)"
    using match_dependency_first [OF assms(4,5)] by blast
  then have "\<lparr>e_field = fd_key f, e_message = UnknownDependency [ch], e_warning = False\<rparr> \<in> set (check_dependency (fieldMap v) (fd_key f) (ch # rest))"
    using assms(6) by (simp add: check_dependency_def)
  with assms(1-3) have "\<lparr>e_field = fd_key f, e_message = UnknownDependency [ch], e_warning = False\<rparr> \<in> set (dependency_errors (fieldMap v) f)"
    by (auto simp: dependency_errors_def checkDependencies_def)
  moreover have "\<not> value_ok test (fieldMap v) f val"
    using m assms unfolding value_ok_def by blast
  ultimately show ?thesis by blast
qed

section \<open>Witnesses\<close>

definition w_yaml :: "jstr \<Rightarrow> RawSchema option option" where
  "w_yaml _ = Some (Some \<lparr>raw_domain = Some (js ''live''), raw_version = js ''1'', raw_fields = Some
     [\<lparr>rf_key = js ''grid.size'', rf_type = js ''I32'', rf_default = Num (Fin 8), rf_business_desc = None,
       rf_description = None, rf_contract = Some \<lparr>c_range = Some (Fin 1, Fin 64), c_pattern = None,
         c_dependencies = Some [js ''grid.on''], c_slo_impact = None, c_approval_required = None\<rparr>, rf_ui = None\<rparr>,
      \<lparr>rf_key = js ''grid.on'', rf_type = js ''BOOL'', rf_default = Bool True, rf_business_desc = None,
       rf_description = None, rf_contract = None, rf_ui = None\<rparr>]\<rparr>)"

definition w_validator :: validator where
  "w_validator = (case loadFromYaml w_yaml [] new_validator of Inr v \<Rightarrow> v | Inl _ \<Rightarrow> new_validator)"

definition w_field :: ConfigFieldDefinition where
  "w_field = hd (dom_fields (the (v_domain w_validator)))"

lemma w_keys: "js ''grid.size'' = [103,114,105,100,46,115,105,122,101]" "js ''grid.on'' = [103,114,105,100,46,111,110]"
  by (simp_all add: js_def)

lemma w_validator_domain: "\<exists>d. v_domain w_validator = Some d"
  by (simp add: w_validator_def w_yaml_def loadFromYaml_def build_field_def SUPPORTED_TYPES_def)

lemma validate_meaning_witness:
  "\<exists>r. validate (\<lambda>_ _. Some True) w_validator [] = Inr r \<and> r_valid r"
  using w_validator_domain validate_meaning [of w_validator _ "\<lambda>_ _. Some True" "[]"] by fastforce

lemma dependency_key_is_one_character_witness:
  "\<not> value_ok (\<lambda>_ _. Some True) (fieldMap w_validator) w_field (Num (Fin 8))"
proof -
  have f: "fd_contract w_field = Some \<lparr>c_range = Some (Fin 1, Fin 64), c_pattern = None,
         c_dependencies = Some [js ''grid.on''], c_slo_impact = None, c_approval_required = None\<rparr>"
    by (simp add: w_field_def w_validator_def w_yaml_def loadFromYaml_def build_field_def SUPPORTED_TYPES_def
        build_contract_def nonempty_opt_def)
  have "mget (fieldMap w_validator) [103] = None"
    by (simp add: w_validator_def w_yaml_def loadFromYaml_def build_field_def SUPPORTED_TYPES_def w_keys)
  moreover have "\<not> is_space 103" by (simp add: is_space_def line_terminators_def)
  moreover have "\<forall>x\<in>set [114,105,100,46,111,110 :: 16 word]. x \<notin> set line_terminators"
    by (simp add: line_terminators_def)
  ultimately show ?thesis
    using dependency_key_is_one_character [OF f, of "[js ''grid.on'']" 103 "[114,105,100,46,111,110]"
      w_validator "\<lambda>_ _. Some True" "Num (Fin 8)"] by (simp add: w_keys)
qed

end
