(* ===== verification/ConfigWatcher.thy ===== *)
theory ConfigWatcher
  imports JsValue
begin

text \<open>
  The watcher of component configuration files
  (\<open>livestyle-engine/src/config/ConfigWatcher.ts\<close>): file system events with a debounce timer per file,
  the polling fallback with snapshots of modification times, start, stop, and the forced polling mode.
  The directory contents, the clock and the path functions are parameters of each step.
\<close>

section \<open>State\<close>

datatype change_type = Change | Rename | Delete

record ConfigChangeEvent =
  ev_filePath :: jstr
  ev_dirName :: jstr
  ev_type :: change_type
  ev_timestamp :: nat

text \<open>
  Active intervals carry the snapshots their callback captured; armed timers carry the file and the type
  their callback reports. \<open>pollTimer\<close> is the interval the watcher remembers.
\<close>

record watcher =
  watch_open :: bool
  pollTimer :: "nat option"
  intervals :: "(nat \<times> (jstr, nat) jmap) list"
  lastEventTimestamps :: "(jstr, nat) jmap"
  debounceTimers :: "(jstr, nat) jmap"
  timers :: "(nat \<times> jstr \<times> change_type) list"
  next_id :: nat
  has_callback :: bool
  emitted :: "ConfigChangeEvent list"

record watch_env =
  debounceMs :: nat
  basename :: "jstr \<Rightarrow> jstr"
  dirname :: "jstr \<Rightarrow> jstr"
  resolve_path :: "jstr \<Rightarrow> jstr"

definition new_watcher :: watcher where
  "new_watcher = \<lparr>watch_open = False, pollTimer = None, intervals = [], lastEventTimestamps = [],
     debounceTimers = [], timers = [], next_id = 0, has_callback = False, emitted = []\<rparr>"

definition onConfigChange :: "watcher \<Rightarrow> watcher" where
  "onConfigChange w = w\<lparr>has_callback := True\<rparr>"

definition isComponentConfig :: "watch_env \<Rightarrow> jstr \<Rightarrow> bool" where
  "isComponentConfig e filename \<longleftrightarrow> basename e filename = js ''component.yaml''"

definition emitChange :: "watch_env \<Rightarrow> nat \<Rightarrow> jstr \<Rightarrow> change_type \<Rightarrow> watcher \<Rightarrow> watcher" where
  "emitChange e now filename t w =
     (if \<not> has_callback w then w
      else w\<lparr>emitted := emitted w @ [\<lparr>ev_filePath = resolve_path e filename, ev_dirName = dirname e filename,
                                     ev_type = t, ev_timestamp = now\<rparr>]\<rparr>)"

section \<open>Events\<close>

definition recent :: "watch_env \<Rightarrow> jstr \<Rightarrow> nat \<Rightarrow> watcher \<Rightarrow> bool" where
  "recent e filename now w \<longleftrightarrow>
     int now - int (case mget (lastEventTimestamps w) filename of Some t \<Rightarrow> t | None \<Rightarrow> 0) < int (debounceMs e)"

definition fs_event :: "watch_env \<Rightarrow> nat \<Rightarrow> change_type \<Rightarrow> jstr option \<Rightarrow> watcher \<Rightarrow> watcher" where
  "fs_event e now t file w =
     (case file of
        None \<Rightarrow> w
      | Some filename \<Rightarrow>
          (if filename = [] \<or> \<not> isComponentConfig e filename then w
           else
             (let w1 = (if recent e filename now w
                        then (case mget (debounceTimers w) filename of
                                None \<Rightarrow> w | Some k \<Rightarrow> w\<lparr>timers := filter (\<lambda>(i, _). i \<noteq> k) (timers w)\<rparr>)
                        else w)
              in w1\<lparr>lastEventTimestamps := mput filename now (lastEventTimestamps w1),
                    timers := timers w1 @ [(next_id w1, filename, t)],
                    debounceTimers := mput filename (next_id w1) (debounceTimers w1),
                    next_id := Suc (next_id w1)\<rparr>)))"

definition debounce_fire :: "watch_env \<Rightarrow> nat \<Rightarrow> nat \<Rightarrow> watcher \<Rightarrow> watcher" where
  "debounce_fire e now k w =
     (case map_of (timers w) k of
        None \<Rightarrow> w
      | Some (filename, t) \<Rightarrow>
          emitChange e now filename t
            (w\<lparr>timers := filter (\<lambda>(i, _). i \<noteq> k) (timers w), debounceTimers := mdel filename (debounceTimers w)\<rparr>))"

section \<open>Polling\<close>

text \<open>
  A directory entry: name, whether it is a directory, and the modification time of its configuration
  file if there is one. \<open>None\<close>: the directory is absent or cannot be read; a failure in the middle of the
  loop keeps the entries before it and is the listing of those.
\<close>

type_synonym listing = "(jstr \<times> bool \<times> nat option) list option"

definition takeSnapshot :: "(jstr \<Rightarrow> jstr) \<Rightarrow> listing \<Rightarrow> (jstr, nat) jmap \<Rightarrow> (jstr, nat) jmap" where
  "takeSnapshot yaml_path dir snapshots =
     (case dir of
        None \<Rightarrow> snapshots
      | Some entries \<Rightarrow> fold (\<lambda>(name, is_dir, mtime) s.
          if \<not> is_dir then s else (case mtime of None \<Rightarrow> s | Some m \<Rightarrow> mput (yaml_path name) m s)) entries snapshots)"

definition startPolling :: "(jstr \<Rightarrow> jstr) \<Rightarrow> listing \<Rightarrow> watcher \<Rightarrow> watcher" where
  "startPolling yaml_path dir w =
     w\<lparr>intervals := intervals w @ [(next_id w, takeSnapshot yaml_path dir [])],
       pollTimer := Some (next_id w), next_id := Suc (next_id w)\<rparr>"

text \<open>The loop of the interval's callback over the current snapshot; the captured map is updated.\<close>

fun poll_files :: "watch_env \<Rightarrow> nat \<Rightarrow> (jstr \<times> nat) list \<Rightarrow> (jstr, nat) jmap \<Rightarrow> watcher \<Rightarrow> (jstr, nat) jmap \<times> watcher" where
  "poll_files e now [] snaps w = (snaps, w)"
| "poll_files e now ((path, mtime) # fs) snaps w =
     (let changed = (case mget snaps path of None \<Rightarrow> False | Some prev \<Rightarrow> prev < mtime) \<and> isComponentConfig e path;
          w1 = (if changed \<and> \<not> recent e path now w
                then emitChange e now path Change (w\<lparr>lastEventTimestamps := mput path now (lastEventTimestamps w)\<rparr>)
                else w)
      in poll_files e now fs (mput path mtime snaps) w1)"

definition poll_tick :: "watch_env \<Rightarrow> (jstr \<Rightarrow> jstr) \<Rightarrow> nat \<Rightarrow> listing \<Rightarrow> nat \<Rightarrow> watcher \<Rightarrow> watcher" where
  "poll_tick e yaml_path now dir k w =
     (case map_of (intervals w) k of
        None \<Rightarrow> w
      | Some snaps \<Rightarrow>
          (let (snaps', w1) = poll_files e now (takeSnapshot yaml_path dir []) snaps w
           in w1\<lparr>intervals := map (\<lambda>(i, s). (i, if i = k then snaps' else s)) (intervals w1)\<rparr>))"

section \<open>Start and stop\<close>

text \<open>\<open>watch_ok\<close>: whether the native watch can be set up.\<close>

definition start :: "bool \<Rightarrow> (jstr \<Rightarrow> jstr) \<Rightarrow> listing \<Rightarrow> watcher \<Rightarrow> watcher" where
  "start watch_ok yaml_path dir w =
     (if watch_open w \<or> pollTimer w \<noteq> None then w
      else if watch_ok then w\<lparr>watch_open := True\<rparr>
      else startPolling yaml_path dir w)"

definition stop :: "watcher \<Rightarrow> watcher" where
  "stop w =
     w\<lparr>watch_open := False,
       intervals := (case pollTimer w of None \<Rightarrow> intervals w | Some k \<Rightarrow> filter (\<lambda>(i, _). i \<noteq> k) (intervals w)),
       pollTimer := None,
       timers := filter (\<lambda>(i, _). i \<notin> snd ` set (debounceTimers w)) (timers w),
       debounceTimers := [], lastEventTimestamps := []\<rparr>"

definition forcePolling :: "(jstr \<Rightarrow> jstr) \<Rightarrow> listing \<Rightarrow> watcher \<Rightarrow> watcher" where
  "forcePolling yaml_path dir w = startPolling yaml_path dir (w\<lparr>watch_open := False\<rparr>)"

section \<open>Runs\<close>

text \<open>What happens from outside: an event of an open watch, a due timer, a tick of an active interval.\<close>

datatype outside =
    FsEvent watch_env nat change_type "jstr option"
  | TimerDue watch_env nat nat
  | Tick watch_env "jstr \<Rightarrow> jstr" nat listing nat

definition outside_step :: "outside \<Rightarrow> watcher \<Rightarrow> watcher" where
  "outside_step ev w = (case ev of
      FsEvent e now t file \<Rightarrow> if watch_open w then fs_event e now t file w else w
    | TimerDue e now k \<Rightarrow> debounce_fire e now k w
    | Tick e yp now dir k \<Rightarrow> poll_tick e yp now dir k w)"

text \<open>
  A step of a watcher that is never forced into polling. Timers are timely: when the time since the last event of
  a file has reached the debounce interval, the timer of that event has fired.
\<close>

inductive watch_step :: "watcher \<Rightarrow> watcher \<Rightarrow> bool" where
  ws_callback: "watch_step w (onConfigChange w)"
| ws_start: "watch_step w (start ok yp dir w)"
| ws_stop: "watch_step w (stop w)"
| ws_event: "watch_open w \<Longrightarrow> (\<not> recent e f now w \<longrightarrow> (\<forall>(i, g, t)\<in>set (timers w). g \<noteq> f)) \<Longrightarrow>
     watch_step w (fs_event e now t (Some f) w)"
| ws_timer: "watch_step w (debounce_fire e now k w)"
| ws_tick: "watch_step w (poll_tick e yp now dir k w)"

inductive watch_reach :: "watcher \<Rightarrow> bool" where
  wr_new: "watch_reach new_watcher"
| wr_step: "watch_reach w \<Longrightarrow> watch_step w w' \<Longrightarrow> watch_reach w'"

text \<open>Every armed timer and every active interval is one the watcher remembers.\<close>

definition watch_inv :: "watcher \<Rightarrow> bool" where
  "watch_inv w \<longleftrightarrow>
     fst ` set (intervals w) \<subseteq> (case pollTimer w of None \<Rightarrow> {} | Some k \<Rightarrow> {k})
   \<and> (\<forall>(i, f, t)\<in>set (timers w). mget (debounceTimers w) f = Some i \<and> i < next_id w)
   \<and> distinct (map fst (timers w))"

lemma emitChange_frame [simp]:
  "intervals (emitChange e now f t w) = intervals w" "pollTimer (emitChange e now f t w) = pollTimer w"
  "timers (emitChange e now f t w) = timers w" "debounceTimers (emitChange e now f t w) = debounceTimers w"
  "next_id (emitChange e now f t w) = next_id w" "watch_open (emitChange e now f t w) = watch_open w"
  by (simp_all add: emitChange_def)

lemma poll_files_frame:
  "intervals (snd (poll_files e now fs s w)) = intervals w \<and> pollTimer (snd (poll_files e now fs s w)) = pollTimer w
   \<and> timers (snd (poll_files e now fs s w)) = timers w \<and> debounceTimers (snd (poll_files e now fs s w)) = debounceTimers w
   \<and> next_id (snd (poll_files e now fs s w)) = next_id w"
proof (induction fs arbitrary: s w)
  case (Cons p fs)
  obtain path mtime where p: "p = (path, mtime)" by force
  show ?case by (simp add: p Let_def Cons)
qed simp

lemma poll_tick_frame:
  "fst ` set (intervals (poll_tick e yp now dir k w)) = fst ` set (intervals w)"
  "pollTimer (poll_tick e yp now dir k w) = pollTimer w" "timers (poll_tick e yp now dir k w) = timers w"
  "debounceTimers (poll_tick e yp now dir k w) = debounceTimers w" "next_id (poll_tick e yp now dir k w) = next_id w"
proof -
  note f = poll_files_frame
  show "fst ` set (intervals (poll_tick e yp now dir k w)) = fst ` set (intervals w)"
    by (force simp: poll_tick_def case_prod_beta' Let_def f image_iff split: option.split)
  show "pollTimer (poll_tick e yp now dir k w) = pollTimer w" "timers (poll_tick e yp now dir k w) = timers w"
    "debounceTimers (poll_tick e yp now dir k w) = debounceTimers w" "next_id (poll_tick e yp now dir k w) = next_id w"
    by (simp_all add: poll_tick_def case_prod_beta' Let_def f split: option.split)
qed

lemma fs_event_inv [js_inv]:
  assumes inv: "watch_inv w" and timely: "\<not> recent e f now w \<longrightarrow> (\<forall>(i, g, t)\<in>set (timers w). g \<noteq> f)"
  shows "watch_inv (fs_event e now t (Some f) w)"
proof -
  let ?ts = "if recent e f now w then (case mget (debounceTimers w) f of None \<Rightarrow> timers w
      | Some k \<Rightarrow> filter (\<lambda>(i, _). i \<noteq> k) (timers w)) else timers w"
  have sub: "set ?ts \<subseteq> set (timers w)" and dist: "distinct (map fst ?ts)"
    using inv by (auto simp: watch_inv_def distinct_map_filter split: option.split)
  have other: "g \<noteq> f" if "(i, g, t') \<in> set ?ts" for i g t'
    using that inv timely by (fastforce simp: watch_inv_def split: option.splits if_splits)
  show ?thesis
  proof (cases "f = [] \<or> \<not> isComponentConfig e f")
    case False
    then have eq: "timers (fs_event e now t (Some f) w) = ?ts @ [(next_id w, f, t)]"
      "debounceTimers (fs_event e now t (Some f) w) = mput f (next_id w) (debounceTimers w)"
      "next_id (fs_event e now t (Some f) w) = Suc (next_id w)"
      "intervals (fs_event e now t (Some f) w) = intervals w" "pollTimer (fs_event e now t (Some f) w) = pollTimer w"
      by (auto simp: fs_event_def Let_def split: option.split)
    show ?thesis
      using inv sub dist other unfolding watch_inv_def eq
      by (fastforce simp: less_Suc_eq)
  qed (use inv in \<open>simp add: fs_event_def\<close>)
qed

lemma debounce_fire_inv [js_inv]:
  assumes "watch_inv w"
  shows "watch_inv (debounce_fire e now k w)"
proof (cases "map_of (timers w) k")
  case (Some ft)
  obtain f t where ft: "ft = (f, t)" by force
  have "(k, f, t) \<in> set (timers w)" using map_of_SomeD [OF Some] ft by simp
  then have "mget (debounceTimers w) f = Some k" using assms by (auto simp: watch_inv_def)
  with assms Some ft show ?thesis
    by (auto simp: watch_inv_def debounce_fire_def distinct_map_filter)
qed (use assms in \<open>simp add: debounce_fire_def\<close>)

lemma start_inv [js_inv]:
  assumes "watch_inv w"
  shows "watch_inv (start ok yp dir w)"
proof (cases "watch_open w \<or> pollTimer w \<noteq> None \<or> ok")
  case True
  with assms show ?thesis by (auto simp: start_def watch_inv_def)
next
  case False
  then have "start ok yp dir w = startPolling yp dir w" "intervals w = []"
    using assms by (auto simp: start_def watch_inv_def)
  with assms show ?thesis by (auto simp: startPolling_def watch_inv_def less_SucI)
qed

definition quiet :: "watcher \<Rightarrow> bool" where
  "quiet w \<longleftrightarrow> \<not> watch_open w \<and> intervals w = [] \<and> timers w = []"

lemma stop_quiet:
  assumes "watch_inv w"
  shows "quiet (stop w)"
proof -
  have "i \<in> snd ` set (debounceTimers w)" if "(i, f, t) \<in> set (timers w)" for i f t
  proof -
    have "mget (debounceTimers w) f = Some i" using assms that by (auto simp: watch_inv_def)
    from map_of_SomeD [OF this] show ?thesis by force
  qed
  then have "timers (stop w) = []" by (auto simp: stop_def filter_empty_conv)
  moreover have "intervals (stop w) = []"
    using assms by (auto simp: stop_def watch_inv_def filter_empty_conv split: option.splits)
  ultimately show ?thesis by (simp add: quiet_def stop_def)
qed

lemma stop_inv [js_inv]: "watch_inv w \<Longrightarrow> watch_inv (stop w)"
  using stop_quiet [of w] by (simp add: watch_inv_def quiet_def stop_def)

lemma poll_tick_inv [js_inv]: "watch_inv w \<Longrightarrow> watch_inv (poll_tick e yp now dir k w)"
  unfolding watch_inv_def poll_tick_frame by simp

lemma onConfigChange_inv [js_inv]: "watch_inv w \<Longrightarrow> watch_inv (onConfigChange w)"
  by (simp add: watch_inv_def onConfigChange_def)

lemma watch_reach_inv: "watch_reach w \<Longrightarrow> watch_inv w"
proof (induction rule: watch_reach.induct)
  case wr_new
  show ?case by (simp add: watch_inv_def new_watcher_def)
next
  case (wr_step w w')
  from wr_step(2) wr_step.IH show ?case by (cases) (simp_all add: js_inv)
qed

section \<open>Properties\<close>

lemma quiet_outside: "quiet w \<Longrightarrow> outside_step ev w = w"
  by (cases ev) (simp_all add: quiet_def outside_step_def debounce_fire_def poll_tick_def)

text \<open>A quiet watcher provides the contract: the whole state is observed.\<close>

interpretation cw_down: shut_down quiet outside_step id
  by unfold_locales (simp_all add: quiet_outside)

text \<open>Stopping silences the watcher: in every state that a watcher reaches without being forced
  into polling, with timely timers, after \<open>stop\<close> no pending event of the file system, no due timer and no
  interval tick, in whatever number and order, reports a change or alters the watcher.
\<close>

theorem stop_silences_watcher:
  assumes "watch_reach w"
  shows "fold outside_step evs (stop w) = stop w"
  using cw_down.run_obs [OF stop_quiet [OF watch_reach_inv [OF assms]]] by simp

text \<open>Forcing the polling mode twice leaves an interval that \<open>stop\<close> does not clear.\<close>

lemma forced_polling_leaks:
  "next_id w \<notin> fst ` set (intervals w) \<Longrightarrow>
   (next_id w, takeSnapshot yp dir []) \<in> set (intervals (stop (forcePolling yp' dir' (forcePolling yp dir w))))"
  by (simp add: stop_def forcePolling_def startPolling_def)

definition w_watch :: watch_env where
  "w_watch = \<lparr>debounceMs = 500, basename = id, dirname = id, resolve_path = id\<rparr>"

definition w_changed :: watcher where
  "w_changed = fs_event w_watch 0 Change (Some (js ''component.yaml'')) (start True id None new_watcher)"

lemma stop_silences_watcher_witness:
  "fold outside_step [TimerDue w_watch 5 0, FsEvent w_watch 6 Change (Some (js ''component.yaml''))] (stop w_changed)
   = stop w_changed"
proof -
  have "watch_reach (start True id None new_watcher)" by (rule wr_step [OF wr_new ws_start])
  moreover have "watch_step (start True id None new_watcher) w_changed"
    unfolding w_changed_def by (rule ws_event) (simp_all add: start_def new_watcher_def)
  ultimately have "watch_reach w_changed" by (rule wr_step)
  then show ?thesis by (rule stop_silences_watcher)
qed

end
