(* ===== verification/Lifecycle.thy ===== *)
theory Lifecycle
  imports RequestTable
begin

text \<open>
  The plugin lifecycle manager (\<open>livedesign/src/plugin-host/lifecycle-manager.ts\<close>, types of
  \<open>shared/plugin-interface.ts\<close>). Plugin records are objects that calls capture before they await a
  plugin's own method, so they live in a store and the map holds references. Every asynchronous
  operation is split at its \<open>await\<close> into a beginning and an end; between them any other call may run.
\<close>

section \<open>Types\<close>

datatype PluginState = INSTALLED | LOADING | RUNNING | STOPPED | ERROR

definition VALID_TRANSITIONS :: "PluginState \<Rightarrow> PluginState list" where
  "VALID_TRANSITIONS s = (case s of
      INSTALLED \<Rightarrow> [LOADING, ERROR]
    | LOADING \<Rightarrow> [RUNNING, ERROR, STOPPED]
    | RUNNING \<Rightarrow> [STOPPED, ERROR]
    | STOPPED \<Rightarrow> [LOADING, INSTALLED]
    | ERROR \<Rightarrow> [INSTALLED, LOADING])"

record PluginManifest =
  man_id :: jstr
  man_name :: jstr
  man_version :: jstr
  man_permissions :: "json list"
  man_main :: jstr

datatype lc_error =
    AlreadyRegistered jstr
  | NotRegistered jstr
  | IllegalTransition PluginState PluginState
  | WrongState PluginState
  | InstanceMissing
  | InstanceActive
  | PluginThrew jstr

text \<open>Why a module could not be loaded: no entry file, an exception, a missing life cycle method.\<close>

datatype load_fault = EntryMissing jstr | ModuleThrew jstr | MethodMissing jstr

text \<open>The recorded error: the phase that failed, with the exception.\<close>

datatype plugin_error =
    InitFailed jstr | StartFailed lc_error | StopFailed jstr | DestroyFailed jstr | LoadFailed load_fault

record PluginInstance =
  pl_manifest :: PluginManifest
  pl_state :: PluginState
  pl_instance :: "nat option"
  pl_error :: "plugin_error option"

text \<open>The store is a list; a reference is a position, and a new object is appended.\<close>

record lifecycle =
  plugins :: "(jstr, nat) jmap"
  store :: "PluginInstance list"

definition new_lifecycle :: lifecycle where
  "new_lifecycle = \<lparr>plugins = [], store = []\<rparr>"

definition set_obj :: "nat \<Rightarrow> (PluginInstance \<Rightarrow> PluginInstance) \<Rightarrow> lifecycle \<Rightarrow> lifecycle" where
  "set_obj r f L = L\<lparr>store := (store L)[r := f (store L ! r)]\<rparr>"

section \<open>Synchronous operations\<close>

definition register :: "PluginManifest \<Rightarrow> lifecycle \<Rightarrow> lc_error + lifecycle" where
  "register manifest L =
     (if mhas (plugins L) (man_id manifest) then Inl (AlreadyRegistered (man_id manifest))
      else Inr (L\<lparr>store := store L @ [\<lparr>pl_manifest = manifest, pl_state = INSTALLED,
                                     pl_instance = None, pl_error = None\<rparr>],
                  plugins := mput (man_id manifest) (length (store L)) (plugins L)\<rparr>))"

definition get :: "jstr \<Rightarrow> lifecycle \<Rightarrow> nat option" where
  "get pluginId L = mget (plugins L) pluginId"

definition getAll :: "lifecycle \<Rightarrow> nat list" where
  "getAll L = mvals (plugins L)"

definition transitionTo :: "jstr \<Rightarrow> PluginState \<Rightarrow> lifecycle \<Rightarrow> lc_error + lifecycle" where
  "transitionTo pluginId newState L =
     (case mget (plugins L) pluginId of
        None \<Rightarrow> Inl (NotRegistered pluginId)
      | Some r \<Rightarrow>
          (let currentState = pl_state (store L ! r)
           in if newState \<notin> set (VALID_TRANSITIONS currentState)
              then Inl (IllegalTransition currentState newState)
              else Inr (set_obj r (pl_state_update (\<lambda>_. newState)) L)))"

definition unregister :: "jstr \<Rightarrow> lifecycle \<Rightarrow> lc_error + lifecycle" where
  "unregister pluginId L =
     (case mget (plugins L) pluginId of
        None \<Rightarrow> Inl (NotRegistered pluginId)
      | Some r \<Rightarrow> if pl_instance (store L ! r) \<noteq> None then Inl InstanceActive
                 else Inr (L\<lparr>plugins := mdel pluginId (plugins L)\<rparr>))"

section \<open>Asynchronous operations\<close>

text \<open>
  What the plugin's own method does: \<open>None\<close> when it completes, the message when it throws. The
  beginnings return the captured reference.
\<close>

type_synonym outcome = "jstr option"

definition init_begin :: "jstr \<Rightarrow> lifecycle \<Rightarrow> lc_error + nat \<times> lifecycle" where
  "init_begin pluginId L =
     (case mget (plugins L) pluginId of
        None \<Rightarrow> Inl (NotRegistered pluginId)
      | Some r \<Rightarrow>
          (if pl_state (store L ! r) \<noteq> INSTALLED then Inl (WrongState (pl_state (store L ! r)))
           else if pl_instance (store L ! r) = None then Inl InstanceMissing
           else (case transitionTo pluginId LOADING L of Inl e \<Rightarrow> Inl e | Inr L' \<Rightarrow> Inr (r, L'))))"

definition init_end :: "nat \<Rightarrow> outcome \<Rightarrow> lifecycle \<Rightarrow> lc_error option \<times> lifecycle" where
  "init_end r out L =
     (case out of
        None \<Rightarrow> (None, L)
      | Some msg \<Rightarrow> (Some (PluginThrew msg),
          set_obj r (\<lambda>p. p\<lparr>pl_state := ERROR, pl_error := Some (InitFailed msg)\<rparr>) L))"

definition start_begin :: "jstr \<Rightarrow> lifecycle \<Rightarrow> lc_error + nat" where
  "start_begin pluginId L =
     (case mget (plugins L) pluginId of
        None \<Rightarrow> Inl (NotRegistered pluginId)
      | Some r \<Rightarrow>
          (if pl_state (store L ! r) \<noteq> LOADING then Inl (WrongState (pl_state (store L ! r)))
           else if pl_instance (store L ! r) = None then Inl InstanceMissing
           else Inr r))"

text \<open>
  The transition stands inside the \<open>try\<close>, so its own exception also takes the rollback. The
  transition looks the plugin up again, the rollback uses the captured object.
\<close>

definition start_end :: "jstr \<Rightarrow> nat \<Rightarrow> outcome \<Rightarrow> lifecycle \<Rightarrow> lc_error option \<times> lifecycle" where
  "start_end pluginId r out L =
     (case (case out of Some msg \<Rightarrow> Inl (PluginThrew msg) | None \<Rightarrow> transitionTo pluginId RUNNING L) of
        Inr L' \<Rightarrow> (None, L')
      | Inl e \<Rightarrow> (Some e, set_obj r (\<lambda>p. p\<lparr>pl_state := STOPPED, pl_error := Some (StartFailed e)\<rparr>) L))"

datatype 'a begun = Finished lifecycle | Awaits 'a

definition stop_begin :: "jstr \<Rightarrow> lifecycle \<Rightarrow> lc_error + nat begun" where
  "stop_begin pluginId L =
     (case mget (plugins L) pluginId of
        None \<Rightarrow> Inl (NotRegistered pluginId)
      | Some r \<Rightarrow>
          (if pl_state (store L ! r) \<noteq> RUNNING \<and> pl_state (store L ! r) \<noteq> LOADING
           then Inl (WrongState (pl_state (store L ! r)))
           else if pl_instance (store L ! r) = None
           then (case transitionTo pluginId STOPPED L of Inl e \<Rightarrow> Inl e | Inr L' \<Rightarrow> Inr (Finished L'))
           else Inr (Awaits r)))"

definition stop_end :: "jstr \<Rightarrow> nat \<Rightarrow> outcome \<Rightarrow> lifecycle \<Rightarrow> lc_error option \<times> lifecycle" where
  "stop_end pluginId r out L =
     (let L1 = (case out of None \<Rightarrow> L
                | Some msg \<Rightarrow> set_obj r (\<lambda>p. p\<lparr>pl_error := Some (StopFailed msg)\<rparr>) L)
      in case transitionTo pluginId STOPPED L1 of Inl e \<Rightarrow> (Some e, L1) | Inr L' \<Rightarrow> (None, L'))"

definition destroy_finish :: "nat \<Rightarrow> lifecycle \<Rightarrow> lifecycle" where
  "destroy_finish r L = set_obj r (\<lambda>p. p\<lparr>pl_instance := None, pl_state := INSTALLED\<rparr>) L"

definition destroy_begin :: "jstr \<Rightarrow> lifecycle \<Rightarrow> lc_error + nat begun" where
  "destroy_begin pluginId L =
     (case mget (plugins L) pluginId of
        None \<Rightarrow> Inl (NotRegistered pluginId)
      | Some r \<Rightarrow> if pl_instance (store L ! r) = None then Inr (Finished (destroy_finish r L))
                 else Inr (Awaits r))"

definition destroy_end :: "nat \<Rightarrow> outcome \<Rightarrow> lifecycle \<Rightarrow> lifecycle" where
  "destroy_end r out L =
     destroy_finish r (case out of None \<Rightarrow> L
       | Some msg \<Rightarrow> set_obj r (\<lambda>p. p\<lparr>pl_error := Some (DestroyFailed msg)\<rparr>) L)"

text \<open>The operations run to completion when nothing interleaves.\<close>

definition init_plugin :: "jstr \<Rightarrow> outcome \<Rightarrow> lifecycle \<Rightarrow> lc_error option \<times> lifecycle" where
  "init_plugin i out L = (case init_begin i L of Inl e \<Rightarrow> (Some e, L) | Inr (r, L') \<Rightarrow> init_end r out L')"

definition start_plugin :: "jstr \<Rightarrow> outcome \<Rightarrow> lifecycle \<Rightarrow> lc_error option \<times> lifecycle" where
  "start_plugin i out L = (case start_begin i L of Inl e \<Rightarrow> (Some e, L) | Inr r \<Rightarrow> start_end i r out L)"

definition stop_plugin :: "jstr \<Rightarrow> outcome \<Rightarrow> lifecycle \<Rightarrow> lc_error option \<times> lifecycle" where
  "stop_plugin i out L =
     (case stop_begin i L of Inl e \<Rightarrow> (Some e, L) | Inr (Finished L') \<Rightarrow> (None, L') | Inr (Awaits r) \<Rightarrow> stop_end i r out L)"

definition destroy_plugin :: "jstr \<Rightarrow> outcome \<Rightarrow> lifecycle \<Rightarrow> lc_error option \<times> lifecycle" where
  "destroy_plugin i out L =
     (case destroy_begin i L of Inl e \<Rightarrow> (Some e, L) | Inr (Finished L') \<Rightarrow> (None, L') | Inr (Awaits r) \<Rightarrow> (None, destroy_end r out L))"

fun destroy_ids :: "(jstr \<Rightarrow> outcome) \<Rightarrow> jstr list \<Rightarrow> lifecycle \<Rightarrow> (jstr \<times> lc_error) list \<times> lifecycle" where
  "destroy_ids out [] L = ([], L)"
| "destroy_ids out (i # is) L =
     (case destroy_plugin i (out i) L of (e, L1) \<Rightarrow>
        (case destroy_ids out is L1 of (es, L2) \<Rightarrow>
           (case e of None \<Rightarrow> (es, L2) | Some err \<Rightarrow> ((i, err) # es, L2))))"

text \<open>The loop of \<open>destroyAll\<close> collects the errors; the call fails when there are any.\<close>

definition destroyAll :: "(jstr \<Rightarrow> outcome) \<Rightarrow> lifecycle \<Rightarrow> (jstr \<times> lc_error) list \<times> lifecycle" where
  "destroyAll out L = destroy_ids out (mkeys (plugins L)) L"

section \<open>Interleaved runs\<close>

text \<open>The calls that are waiting for a plugin's method, and the calls of the loader.\<close>

datatype task = InitTask nat | StartTask jstr nat | StopTask jstr nat | DestroyTask nat

definition inject :: "jstr \<Rightarrow> nat \<Rightarrow> lifecycle \<Rightarrow> lifecycle" where
  "inject i inst L = (case mget (plugins L) i of None \<Rightarrow> L
     | Some r \<Rightarrow> set_obj r (pl_instance_update (\<lambda>_. Some inst)) L)"

definition mark_load_error :: "jstr \<Rightarrow> load_fault \<Rightarrow> lifecycle \<Rightarrow> lifecycle" where
  "mark_load_error i msg L = (case mget (plugins L) i of None \<Rightarrow> L
     | Some r \<Rightarrow> set_obj r (\<lambda>p. p\<lparr>pl_state := ERROR, pl_error := Some (LoadFailed msg)\<rparr>) L)"

inductive lc_step :: "lifecycle \<times> task list \<Rightarrow> lifecycle \<times> task list \<Rightarrow> bool" where
  ls_register: "register m L = Inr L' \<Longrightarrow> lc_step (L, ts) (L', ts)"
| ls_inject: "lc_step (L, ts) (inject i inst L, ts)"
| ls_load_error: "lc_step (L, ts) (mark_load_error i msg L, ts)"
| ls_unregister: "unregister i L = Inr L' \<Longrightarrow> lc_step (L, ts) (L', ts)"
| ls_init: "init_begin i L = Inr (r, L') \<Longrightarrow> lc_step (L, ts) (L', InitTask r # ts)"
| ls_init_end: "InitTask r \<in> set ts \<Longrightarrow> lc_step (L, ts) (snd (init_end r out L), remove1 (InitTask r) ts)"
| ls_start: "start_begin i L = Inr r \<Longrightarrow> lc_step (L, ts) (L, StartTask i r # ts)"
| ls_start_end: "StartTask i r \<in> set ts \<Longrightarrow> lc_step (L, ts) (snd (start_end i r out L), remove1 (StartTask i r) ts)"
| ls_stop: "stop_begin i L = Inr (Awaits r) \<Longrightarrow> lc_step (L, ts) (L, StopTask i r # ts)"
| ls_stop_now: "stop_begin i L = Inr (Finished L') \<Longrightarrow> lc_step (L, ts) (L', ts)"
| ls_stop_end: "StopTask i r \<in> set ts \<Longrightarrow> lc_step (L, ts) (snd (stop_end i r out L), remove1 (StopTask i r) ts)"
| ls_destroy: "destroy_begin i L = Inr (Awaits r) \<Longrightarrow> lc_step (L, ts) (L, DestroyTask r # ts)"
| ls_destroy_now: "destroy_begin i L = Inr (Finished L') \<Longrightarrow> lc_step (L, ts) (L', ts)"
| ls_destroy_end: "DestroyTask r \<in> set ts \<Longrightarrow> lc_step (L, ts) (destroy_end r out L, remove1 (DestroyTask r) ts)"

inductive lc_reach :: "lifecycle \<times> task list \<Rightarrow> bool" where
  lr_new: "lc_reach (new_lifecycle, [])"
| lr_step: "lc_reach c \<Longrightarrow> lc_step c c' \<Longrightarrow> lc_reach c'"

fun task_ref :: "task \<Rightarrow> nat" where
  "task_ref (InitTask r) = r"
| "task_ref (StartTask i r) = r"
| "task_ref (StopTask i r) = r"
| "task_ref (DestroyTask r) = r"

definition obj_ok :: "PluginInstance \<Rightarrow> bool" where
  "obj_ok p \<longleftrightarrow> (pl_state p \<in> {LOADING, RUNNING} \<longrightarrow> pl_instance p \<noteq> None)"

definition lc_inv :: "lifecycle \<Rightarrow> bool" where
  "lc_inv L \<longleftrightarrow> mwf (plugins L)
   \<and> (\<forall>i r. mget (plugins L) i = Some r \<longrightarrow> r < length (store L) \<and> man_id (pl_manifest (store L ! r)) = i)
   \<and> (\<forall>p\<in>set (store L). obj_ok p)"

text \<open>The state changes of one object that the operations can make.\<close>

definition moves :: "PluginState \<Rightarrow> PluginState \<Rightarrow> bool" where
  "moves s s' \<longleftrightarrow> s' = s \<or> s' \<in> {INSTALLED, STOPPED, ERROR} \<or> (s = INSTALLED \<and> s' = LOADING) \<or> (s = LOADING \<and> s' = RUNNING)"

lemma moves_refl [simp]: "moves s s"
  by (simp add: moves_def)

definition obj_moves :: "lifecycle \<Rightarrow> lifecycle \<Rightarrow> bool" where
  "obj_moves L L' \<longleftrightarrow> length (store L) \<le> length (store L')
     \<and> (\<forall>r<length (store L). moves (pl_state (store L ! r)) (pl_state (store L' ! r))
           \<and> pl_manifest (store L' ! r) = pl_manifest (store L ! r))"

lemma obj_moves_refl [simp]: "obj_moves L L"
  by (simp add: obj_moves_def)

text \<open>A change of one object that keeps the map.\<close>

lemma set_obj_step:
  assumes "lc_inv L" and "r < length (store L)"
    and "pl_manifest (f (store L ! r)) = pl_manifest (store L ! r)" and "obj_ok (f (store L ! r))"
    and "moves (pl_state (store L ! r)) (pl_state (f (store L ! r)))"
  shows "lc_inv (set_obj r f L) \<and> obj_moves L (set_obj r f L)"
  using assms
  by (auto simp: lc_inv_def obj_moves_def set_obj_def nth_list_update dest!: subsetD [OF set_update_subset_insert])

lemmas set_obj_inv = set_obj_step [THEN conjunct1] and set_obj_moves = set_obj_step [THEN conjunct2]

lemma lookup_bound: "lc_inv L \<Longrightarrow> mget (plugins L) i = Some r \<Longrightarrow> r < length (store L)"
  by (simp add: lc_inv_def)

lemma transition_step:
  assumes "lc_inv L" and "transitionTo i s L = Inr L'"
    and "s = STOPPED \<or> s = RUNNING \<or> (s = LOADING \<and> (\<forall>r. mget (plugins L) i = Some r \<longrightarrow>
           pl_state (store L ! r) = INSTALLED \<and> pl_instance (store L ! r) \<noteq> None))"
  shows "lc_inv L' \<and> obj_moves L L'"
proof -
  from assms(2) obtain r where r: "mget (plugins L) i = Some r" and
    s: "s \<in> set (VALID_TRANSITIONS (pl_state (store L ! r)))"
    and L': "L' = set_obj r (pl_state_update (\<lambda>_. s)) L"
    by (auto simp: transitionTo_def Let_def split: option.splits if_splits)
  have b: "r < length (store L)" by (rule lookup_bound [OF assms(1) r])
  have "obj_ok (store L ! r)" using assms(1) b by (simp add: lc_inv_def)
  then show ?thesis
    unfolding L' using assms(3) s r b
    by (intro set_obj_step [OF assms(1) b])
      (auto simp: obj_ok_def moves_def VALID_TRANSITIONS_def split: PluginState.splits)
qed

lemma register_step: "lc_inv L \<Longrightarrow> register m L = Inr L' \<Longrightarrow> lc_inv L' \<and> obj_moves L L'"
  by (auto simp: register_def lc_inv_def obj_moves_def obj_ok_def nth_append less_SucI split: if_splits)

lemma unregister_step: "lc_inv L \<Longrightarrow> unregister i L = Inr L' \<Longrightarrow> lc_inv L' \<and> obj_moves L L'"
  by (auto simp: unregister_def lc_inv_def obj_moves_def split: option.splits if_splits)

lemma init_end_step:
  "lc_inv L \<Longrightarrow> r < length (store L) \<Longrightarrow> lc_inv (snd (init_end r out L)) \<and> obj_moves L (snd (init_end r out L))"
  by (auto simp: init_end_def obj_ok_def moves_def split: option.split intro!: set_obj_inv set_obj_moves)

lemma init_begin_step:
  assumes "lc_inv L" and "init_begin i L = Inr (r, L')"
  shows "lc_inv L' \<and> obj_moves L L' \<and> r < length (store L)"
  using assms transition_step [OF assms(1), of i LOADING L']
  by (auto simp: init_begin_def lookup_bound split: option.splits if_splits sum.splits)

lemma start_end_step:
  assumes "lc_inv L" and "r < length (store L)"
  shows "lc_inv (snd (start_end i r out L)) \<and> obj_moves L (snd (start_end i r out L))"
proof (cases "case out of Some msg \<Rightarrow> Inl (PluginThrew msg) | None \<Rightarrow> transitionTo i RUNNING L")
  case (Inl e)
  with assms show ?thesis by (auto simp: start_end_def obj_ok_def moves_def intro!: set_obj_inv set_obj_moves)
next
  case (Inr L')
  then have "transitionTo i RUNNING L = Inr L'" by (simp split: option.splits)
  with transition_step [OF assms(1) this] Inr show ?thesis by (simp add: start_end_def)
qed

text \<open>Recording an error text moves no object.\<close>

lemma set_error_step:
  assumes "lc_inv L" and "r < length (store L)"
  shows "lc_inv (set_obj r (pl_error_update f) L)"
    and "obj_moves (set_obj r (pl_error_update f) L) L' \<Longrightarrow> obj_moves L L'"
proof -
  have "obj_ok (store L ! r)" using assms by (simp add: lc_inv_def)
  then show "lc_inv (set_obj r (pl_error_update f) L)"
    using assms by (intro set_obj_inv) (auto simp: obj_ok_def)
  have "pl_state (store (set_obj r (pl_error_update f) L) ! k) = pl_state (store L ! k)
      \<and> pl_manifest (store (set_obj r (pl_error_update f) L) ! k) = pl_manifest (store L ! k)" for k
    using assms(2) by (cases "k = r") (simp_all add: set_obj_def)
  then show "obj_moves (set_obj r (pl_error_update f) L) L' \<Longrightarrow> obj_moves L L'"
    by (simp add: obj_moves_def set_obj_def)
qed

lemma stop_end_step:
  assumes "lc_inv L" and "r < length (store L)"
  shows "lc_inv (snd (stop_end i r out L)) \<and> obj_moves L (snd (stop_end i r out L))"
proof -
  let ?L1 = "case out of None \<Rightarrow> L | Some msg \<Rightarrow> set_obj r (\<lambda>p. p\<lparr>pl_error := Some (StopFailed msg)\<rparr>) L"
  have inv1: "lc_inv ?L1" and via: "obj_moves ?L1 L' \<Longrightarrow> obj_moves L L'" for L'
    using assms set_error_step by (auto split: option.split option.split_asm)
  show ?thesis
  proof (cases "transitionTo i STOPPED ?L1")
    case (Inl e)
    with inv1 via [of ?L1] show ?thesis by (simp add: stop_end_def Let_def)
  next
    case (Inr L')
    with transition_step [OF inv1 Inr] via show ?thesis by (simp add: stop_end_def Let_def)
  qed
qed

lemma destroy_finish_step:
  "lc_inv L \<Longrightarrow> r < length (store L) \<Longrightarrow> lc_inv (destroy_finish r L) \<and> obj_moves L (destroy_finish r L)"
  unfolding destroy_finish_def by (intro conjI set_obj_inv set_obj_moves) (auto simp: obj_ok_def moves_def)

lemma destroy_end_step:
  assumes "lc_inv L" and "r < length (store L)"
  shows "lc_inv (destroy_end r out L) \<and> obj_moves L (destroy_end r out L)"
proof (cases out)
  case None
  with destroy_finish_step [OF assms] show ?thesis by (simp add: destroy_end_def)
next
  case (Some msg)
  let ?L1 = "set_obj r (\<lambda>p. p\<lparr>pl_error := Some (DestroyFailed msg)\<rparr>) L"
  have "r < length (store ?L1)" using assms(2) by (simp add: set_obj_def)
  note fin = destroy_finish_step [OF set_error_step(1) [OF assms] this]
  from fin set_error_step(2) [OF assms fin [THEN conjunct2]] Some show ?thesis by (simp add: destroy_end_def)
qed

lemma begins_step:
  assumes "lc_inv L"
  shows "start_begin i L = Inr r \<Longrightarrow> r < length (store L)"
    and "stop_begin i L = Inr (Awaits r) \<Longrightarrow> r < length (store L)"
    and "destroy_begin i L = Inr (Awaits r) \<Longrightarrow> r < length (store L)"
    and "stop_begin i L = Inr (Finished L') \<Longrightarrow> lc_inv L' \<and> obj_moves L L'"
    and "destroy_begin i L = Inr (Finished L') \<Longrightarrow> lc_inv L' \<and> obj_moves L L'"
  using assms transition_step [OF assms, of i STOPPED L'] destroy_finish_step [OF assms]
  by (auto simp: start_begin_def stop_begin_def destroy_begin_def lookup_bound
      split: option.splits if_splits sum.splits)

lemma inject_step: "lc_inv L \<Longrightarrow> lc_inv (inject i x L) \<and> obj_moves L (inject i x L)"
  by (auto simp: inject_def obj_ok_def lookup_bound split: option.split intro!: set_obj_inv set_obj_moves)

lemma mark_load_error_step: "lc_inv L \<Longrightarrow> lc_inv (mark_load_error i m L) \<and> obj_moves L (mark_load_error i m L)"
  by (auto simp: mark_load_error_def obj_ok_def moves_def lookup_bound split: option.split intro!: set_obj_inv set_obj_moves)

text \<open>One step keeps the invariant and makes only legal moves.\<close>

lemma step_inv:
  assumes "lc_step (L, ts) (L', ts')" and "lc_inv L" and "\<forall>t\<in>set ts. task_ref t < length (store L)"
  shows "lc_inv L' \<and> obj_moves L L' \<and> (\<forall>t\<in>set ts'. task_ref t < length (store L'))"
proof -
  have "lc_inv L' \<and> obj_moves L L' \<and> (\<forall>t\<in>set ts'. task_ref t < length (store L))"
    using assms(1)
  proof (cases rule: lc_step.cases)
    case (ls_init i r)
    with init_begin_step [OF assms(2)] assms(3) show ?thesis by simp
  next
    case (ls_init_end r out)
    with init_end_step [OF assms(2)] assms(3) show ?thesis by (force dest: notin_set_remove1)
  next
    case (ls_start_end i r out)
    with start_end_step [OF assms(2)] assms(3) show ?thesis by (force dest: notin_set_remove1)
  next
    case (ls_stop_end i r out)
    with stop_end_step [OF assms(2)] assms(3) show ?thesis by (force dest: notin_set_remove1)
  next
    case (ls_destroy_end r out)
    with destroy_end_step [OF assms(2)] assms(3) show ?thesis by (force dest: notin_set_remove1)
  qed (use assms(2,3) begins_step [OF assms(2)] register_step [OF assms(2)] unregister_step [OF assms(2)]
      inject_step [OF assms(2)] mark_load_error_step [OF assms(2)] in auto)
  then show ?thesis by (auto simp: obj_moves_def intro: less_le_trans)
qed

lemma reach_lc_inv:
  "lc_reach c \<Longrightarrow> lc_inv (fst c) \<and> (\<forall>t\<in>set (snd c). task_ref t < length (store (fst c)))"
proof (induction rule: lc_reach.induct)
  case lr_new
  show ?case by (simp add: lc_inv_def new_lifecycle_def)
next
  case (lr_step c c')
  then show ?case using step_inv [of "fst c" "snd c" "fst c'" "snd c'"] by simp
qed

section \<open>Properties\<close>

lemmas lc_ops = init_plugin_def start_plugin_def init_begin_def start_begin_def init_end_def start_end_def
  transitionTo_def VALID_TRANSITIONS_def set_obj_def Let_def

text \<open>
  C12: The plugin state machine under every interleaving of calls: in each reachable configuration
  a registered plugin that is LOADING or RUNNING has an instance, and the object it is looked up as
  carries its own identifier; and whatever call begins or ends next, an object becomes RUNNING only
  from LOADING and LOADING only from INSTALLED.
\<close>

theorem plugin_state_machine:
  assumes "lc_reach (L, ts)"
  shows "(\<forall>i r. get i L = Some r \<longrightarrow> r < length (store L) \<and> man_id (pl_manifest (store L ! r)) = i
            \<and> (pl_state (store L ! r) \<in> {LOADING, RUNNING} \<longrightarrow> pl_instance (store L ! r) \<noteq> None))
       \<and> (\<forall>L' ts' r. lc_step (L, ts) (L', ts') \<longrightarrow> r < length (store L) \<longrightarrow>
            (pl_state (store L' ! r) = RUNNING \<longrightarrow> pl_state (store L ! r) \<in> {RUNNING, LOADING})
          \<and> (pl_state (store L' ! r) = LOADING \<longrightarrow> pl_state (store L ! r) \<in> {LOADING, INSTALLED}))"
proof -
  from reach_lc_inv [OF assms] have inv: "lc_inv L" "\<forall>t\<in>set ts. task_ref t < length (store L)" by auto
  have ok: "obj_ok (store L ! r)" if "r < length (store L)" for r using inv(1) that by (simp add: lc_inv_def)
  have mv: "moves (pl_state (store L ! r)) (pl_state (store L' ! r))"
    if "lc_step (L, ts) (L', ts')" "r < length (store L)" for L' ts' r
    using step_inv [OF that(1) inv] that(2) by (simp add: obj_moves_def)
  show ?thesis
  proof (intro conjI allI impI)
    fix L' ts' r
    assume *: "lc_step (L, ts) (L', ts')" "r < length (store L)"
    show "pl_state (store L' ! r) = RUNNING \<Longrightarrow> pl_state (store L ! r) \<in> {RUNNING, LOADING}"
      and "pl_state (store L' ! r) = LOADING \<Longrightarrow> pl_state (store L ! r) \<in> {LOADING, INSTALLED}"
      using mv [OF *] by (auto simp: moves_def)
  qed (use inv(1) ok in \<open>auto simp: lc_inv_def get_def obj_ok_def\<close>)
qed

text \<open>Starting a freshly loaded plugin without interference: the state after \<open>init\<close> and \<open>start\<close> is
  RUNNING exactly when both methods of the plugin complete; a failing \<open>init\<close> leaves ERROR and makes
  \<open>start\<close> refuse, a failing \<open>start\<close> rolls back to STOPPED; the error reported is the plugin's.
\<close>

theorem init_start_outcome:
  assumes "mget (plugins L) i = Some r" and "r < length (store L)"
    and "pl_state (store L ! r) = INSTALLED" and "pl_instance (store L ! r) = Some inst"
  shows "let (e1, L1) = init_plugin i o1 L; (e2, L2) = start_plugin i o2 L1 in
           pl_state (store L2 ! r) = (if o1 \<noteq> None then ERROR else if o2 \<noteq> None then STOPPED else RUNNING)
         \<and> e1 = map_option PluginThrew o1
         \<and> e2 = (if o1 \<noteq> None then Some (WrongState ERROR) else map_option PluginThrew o2)
         \<and> pl_instance (store L2 ! r) = Some inst \<and> (\<forall>k. k \<noteq> r \<longrightarrow> store L2 ! k = store L ! k)"
  using assms by (cases o1; cases o2) (auto simp: lc_ops)

text \<open>
  Two overlapping starts stop the plugin: when \<open>start\<close> is called twice before the plugin's own
  start method returns, both calls pass the guard, the plugin's method runs twice and completes twice,
  and still the record ends in STOPPED with an error, because the second transition RUNNING to RUNNING
  is illegal and its exception takes the rollback path.
\<close>

theorem double_start_marks_stopped:
  assumes "mget (plugins L) i = Some r" and "r < length (store L)"
    and "pl_state (store L ! r) = LOADING" and "pl_instance (store L ! r) = Some inst"
  shows "start_begin i L = Inr r
       \<and> (let (e1, L1) = start_end i r None L; (e2, L2) = start_end i r None L1 in
            e1 = None \<and> pl_state (store L1 ! r) = RUNNING
          \<and> e2 = Some (IllegalTransition RUNNING RUNNING) \<and> pl_state (store L2 ! r) = STOPPED
          \<and> pl_instance (store L2 ! r) = Some inst)"
  using assms by (simp add: lc_ops)

section \<open>Witnesses\<close>

definition w_manifest :: PluginManifest where
  "w_manifest = \<lparr>man_id = js ''p'', man_name = js ''p'', man_version = js ''1'', man_permissions = [], man_main = js ''m''\<rparr>"

definition w_lc :: lifecycle where
  "w_lc = inject (js ''p'') 5 (new_lifecycle\<lparr>
     store := [\<lparr>pl_manifest = w_manifest, pl_state = INSTALLED, pl_instance = None, pl_error = None\<rparr>],
     plugins := [(js ''p'', 0)]\<rparr>)"

lemma w_lc_simps [simp]:
  "plugins w_lc = [(js ''p'', 0)]"
  "store w_lc = [\<lparr>pl_manifest = w_manifest, pl_state = INSTALLED, pl_instance = Some 5, pl_error = None\<rparr>]"
  by (simp_all add: w_lc_def inject_def set_obj_def)

lemma w_lc_reach: "lc_reach (w_lc, [])"
proof -
  have "register w_manifest new_lifecycle = Inr (new_lifecycle\<lparr>
     store := [\<lparr>pl_manifest = w_manifest, pl_state = INSTALLED, pl_instance = None, pl_error = None\<rparr>],
     plugins := [(js ''p'', 0)]\<rparr>)"
    by (simp add: register_def new_lifecycle_def mhas_def w_manifest_def)
  from lr_step [OF lr_step [OF lr_new ls_register [OF this]] ls_inject] show ?thesis
    unfolding w_lc_def by blast
qed

lemma plugin_state_machine_witness:
  "man_id (pl_manifest (store w_lc ! 0)) = js ''p''"
  using plugin_state_machine [OF w_lc_reach] by (simp add: get_def del: w_lc_simps(2))

lemma init_start_outcome_witness:
  "let (e1, L1) = init_plugin (js ''p'') None w_lc; (e2, L2) = start_plugin (js ''p'') (Some (js ''x'')) L1 in
     pl_state (store L2 ! 0) = STOPPED \<and> e2 = Some (PluginThrew (js ''x''))"
  using init_start_outcome [of w_lc "js ''p''" 0 5 None "Some (js ''x'')"] by (simp add: case_prod_beta' Let_def)

definition w_loading :: lifecycle where
  "w_loading = snd (init_plugin (js ''p'') None w_lc)"

lemma double_start_marks_stopped_witness:
  "pl_state (store (snd (start_end (js ''p'') 0 None (snd (start_end (js ''p'') 0 None w_loading)))) ! 0) = STOPPED"
proof -
  have "mget (plugins w_loading) (js ''p'') = Some 0" "0 < length (store w_loading)"
    "pl_state (store w_loading ! 0) = LOADING" "pl_instance (store w_loading ! 0) = Some 5"
    by (simp_all add: w_loading_def lc_ops)
  from double_start_marks_stopped [OF this] show ?thesis by (simp add: case_prod_beta' Let_def)
qed

end
