(* ===== verification/IpcRouter.thy ===== *)
theory IpcRouter
  imports RequestTable
begin

text \<open>
  The message router of the desktop application's main process
  (\<open>livedesign/src/main/ipc-router.ts\<close>, types of \<open>shared/ipc-protocol.ts\<close>): routing table,
  envelope validation, delivery, the injected source, and the table of requests the main process
  waits for, each with a timer of thirty seconds. What a child's send function does with an envelope
  and whether the main window is destroyed are parameters of each step.
\<close>

section \<open>Processes, channels, envelopes\<close>

datatype ProcessId = MAIN | RENDERER | LLM_SERVICE | PLUGIN_HOST

datatype IpcChannel =
    LLM_CHAT | LLM_STREAM_CHUNK | LLM_RESPONSE | LLM_ABORT
  | EMOTION_UPDATE
  | PLUGIN_INVOKE | PLUGIN_STOP | PLUGIN_RESULT
  | PLUGIN_REQUEST_FILE | PLUGIN_REQUEST_NETWORK | PLUGIN_APPROVAL_RESULT
  | CONFIG_CHANGED | NOTIFICATION
  | LLM_SWITCH_CHARACTER | SERVICE_READY | PLUGIN_HOST_READY
  | CATCHPHRASE_PROMOTION_REQUEST | CATCHPHRASE_PROMOTION_RESULT

definition all_channels :: "IpcChannel list" where
  "all_channels = [LLM_CHAT, LLM_STREAM_CHUNK, LLM_RESPONSE, LLM_ABORT, EMOTION_UPDATE, PLUGIN_INVOKE,
     PLUGIN_STOP, PLUGIN_RESULT, PLUGIN_REQUEST_FILE, PLUGIN_REQUEST_NETWORK, PLUGIN_APPROVAL_RESULT,
     CONFIG_CHANGED, NOTIFICATION, LLM_SWITCH_CHARACTER, SERVICE_READY, PLUGIN_HOST_READY,
     CATCHPHRASE_PROMOTION_REQUEST, CATCHPHRASE_PROMOTION_RESULT]"

text \<open>The enumeration as an instance: quantifiers over channels compute.\<close>

instantiation IpcChannel :: enum
begin

definition enum_IpcChannel :: "IpcChannel list" where
  "enum_IpcChannel = all_channels"

definition enum_all_IpcChannel :: "(IpcChannel \<Rightarrow> bool) \<Rightarrow> bool" where
  "enum_all_IpcChannel P = list_all P all_channels"

definition enum_ex_IpcChannel :: "(IpcChannel \<Rightarrow> bool) \<Rightarrow> bool" where
  "enum_ex_IpcChannel P = list_ex P all_channels"

instance
proof
  have all: "UNIV = set all_channels"
  proof (rule equalityI; rule subsetI)
    fix c :: IpcChannel show "c \<in> set all_channels" by (cases c) (simp_all add: all_channels_def)
  qed simp
  show "UNIV = set (enum_class.enum :: IpcChannel list)" by (simp add: enum_IpcChannel_def all)
  show "distinct (enum_class.enum :: IpcChannel list)" by (simp add: enum_IpcChannel_def all_channels_def)
  fix P :: "IpcChannel \<Rightarrow> bool"
  show "enum_class.enum_all P \<longleftrightarrow> Ball UNIV P"
    by (simp add: enum_all_IpcChannel_def list_all_iff all)
  show "enum_class.enum_ex P \<longleftrightarrow> Bex UNIV P"
    by (simp add: enum_ex_IpcChannel_def list_ex_iff all)
qed

end

definition channel_str :: "IpcChannel \<Rightarrow> jstr" where
  "channel_str c = js (case c of
      LLM_CHAT \<Rightarrow> ''llm:chat''
    | LLM_STREAM_CHUNK \<Rightarrow> ''llm:stream:chunk''
    | LLM_RESPONSE \<Rightarrow> ''llm:response''
    | LLM_ABORT \<Rightarrow> ''llm:abort''
    | EMOTION_UPDATE \<Rightarrow> ''emotion:update''
    | PLUGIN_INVOKE \<Rightarrow> ''plugin:invoke''
    | PLUGIN_STOP \<Rightarrow> ''plugin:stop''
    | PLUGIN_RESULT \<Rightarrow> ''plugin:result''
    | PLUGIN_REQUEST_FILE \<Rightarrow> ''plugin:request:file''
    | PLUGIN_REQUEST_NETWORK \<Rightarrow> ''plugin:request:network''
    | PLUGIN_APPROVAL_RESULT \<Rightarrow> ''plugin:approval:result''
    | CONFIG_CHANGED \<Rightarrow> ''config:changed''
    | NOTIFICATION \<Rightarrow> ''notification:show''
    | LLM_SWITCH_CHARACTER \<Rightarrow> ''llm:switch:character''
    | SERVICE_READY \<Rightarrow> ''service:ready''
    | PLUGIN_HOST_READY \<Rightarrow> ''plugin-host:ready''
    | CATCHPHRASE_PROMOTION_REQUEST \<Rightarrow> ''catchphrase:promotion:request''
    | CATCHPHRASE_PROMOTION_RESULT \<Rightarrow> ''catchphrase:promotion:result'')"

definition channel_of :: "jstr \<Rightarrow> IpcChannel option" where
  "channel_of s = find (\<lambda>c. channel_str c = s) all_channels"

lemma channel_of_str [simp]: "channel_of (channel_str c) = Some c"
  by (cases c) (simp_all add: channel_of_def all_channels_def channel_str_def)

lemma channel_of_SomeD: "channel_of s = Some c \<Longrightarrow> s = channel_str c"
  by (auto simp: channel_of_def find_Some_iff)

record ipc_envelope =
  env_id :: jstr
  env_channel :: IpcChannel
  env_payload :: "json option"
  env_source :: "ProcessId option"
  env_error :: "json option"

text \<open>The truth value of a field that may be absent.\<close>

definition json_truthy :: "json option \<Rightarrow> bool" where
  "json_truthy j = (case j of
      None \<Rightarrow> False | Some JNull \<Rightarrow> False | Some (JBool b) \<Rightarrow> b
    | Some (JNum n) \<Rightarrow> n \<noteq> Fin 0 \<and> n \<noteq> NaN | Some (JStr s) \<Rightarrow> s \<noteq> [] | _ \<Rightarrow> True)"

text \<open>
  \<open>validateEnvelope\<close> and the reading of the validated object. The sender's own \<open>source\<close> field is
  not read: both entry points overwrite it.
\<close>

definition validateEnvelope :: "json \<Rightarrow> ipc_envelope option" where
  "validateEnvelope j =
     (case jfield (js ''id'') j of
        Some (JStr i) \<Rightarrow>
          (if i = [] then None
           else case jfield (js ''channel'') j of
             Some (JStr cs) \<Rightarrow>
               (case channel_of cs of
                  None \<Rightarrow> None
                | Some c \<Rightarrow> Some \<lparr>env_id = i, env_channel = c, env_payload = jfield (js ''payload'') j,
                                env_source = None, env_error = jfield (js ''error'') j\<rparr>)
           | _ \<Rightarrow> None)
      | _ \<Rightarrow> None)"

section \<open>Routing\<close>

definition CHANNEL_ROUTE :: "IpcChannel \<Rightarrow> ProcessId option" where
  "CHANNEL_ROUTE c = (case c of
      LLM_CHAT \<Rightarrow> Some LLM_SERVICE
    | LLM_ABORT \<Rightarrow> Some LLM_SERVICE
    | LLM_SWITCH_CHARACTER \<Rightarrow> Some LLM_SERVICE
    | PLUGIN_INVOKE \<Rightarrow> Some PLUGIN_HOST
    | PLUGIN_STOP \<Rightarrow> Some PLUGIN_HOST
    | LLM_STREAM_CHUNK \<Rightarrow> Some RENDERER
    | LLM_RESPONSE \<Rightarrow> Some RENDERER
    | EMOTION_UPDATE \<Rightarrow> Some RENDERER
    | PLUGIN_RESULT \<Rightarrow> Some RENDERER
    | PLUGIN_REQUEST_FILE \<Rightarrow> Some MAIN
    | PLUGIN_REQUEST_NETWORK \<Rightarrow> Some MAIN
    | PLUGIN_APPROVAL_RESULT \<Rightarrow> Some PLUGIN_HOST
    | CONFIG_CHANGED \<Rightarrow> Some RENDERER
    | NOTIFICATION \<Rightarrow> Some RENDERER
    | SERVICE_READY \<Rightarrow> Some MAIN
    | PLUGIN_HOST_READY \<Rightarrow> Some MAIN
    | CATCHPHRASE_PROMOTION_REQUEST \<Rightarrow> Some RENDERER
    | CATCHPHRASE_PROMOTION_RESULT \<Rightarrow> Some LLM_SERVICE)"

datatype router_error =
    UnknownChannel IpcChannel
  | CoreProcess ProcessId
  | NoWindow
  | NoSender ProcessId
  | SendThrew
  | RouterTimeout IpcChannel ProcessId jstr
  | RouterClosed
  | ErrorReply json

definition resolveTargetProcess :: "IpcChannel \<Rightarrow> router_error + ProcessId" where
  "resolveTargetProcess channel =
     (case CHANNEL_ROUTE channel of None \<Rightarrow> Inl (UnknownChannel channel) | Some p \<Rightarrow> Inr p)"

lemma route_total: "\<exists>p. resolveTargetProcess c = Inr p"
  by (cases c) (simp_all add: resolveTargetProcess_def CHANNEL_ROUTE_def)

section \<open>State\<close>

text \<open>What a send function does with an envelope: it accepts it, returns false, or throws.\<close>

datatype send_outcome = Accepted | Refused | Threw

text \<open>\<open>window_ok\<close> tells whether the main window exists and is not destroyed.\<close>

record router_env =
  send_outcome :: "nat \<Rightarrow> ipc_envelope \<Rightarrow> send_outcome"
  window_ok :: "nat \<Rightarrow> bool"

record router =
  pendingRequests :: "(jstr, nat) jmap"
  childProcessWindows :: "(ProcessId, nat option) jmap"
  childProcessSenders :: "(ProcessId, nat) jmap"
  mainWindow :: "nat option"
  rt_promises :: "nat \<Rightarrow> (json option, router_error) promise"
  rt_timers :: "(nat \<times> jstr \<times> IpcChannel \<times> ProcessId) list"
  rt_next :: nat
  delivered :: "(ProcessId \<times> ipc_envelope) list"

definition new_router :: router where
  "new_router = \<lparr>pendingRequests = [], childProcessWindows = [], childProcessSenders = [],
     mainWindow = None, rt_promises = (\<lambda>_. Unsettled), rt_timers = [], rt_next = 0, delivered = []\<rparr>"

definition setMainWindow :: "nat \<Rightarrow> router \<Rightarrow> router" where
  "setMainWindow win r = r\<lparr>mainWindow := Some win\<rparr>"

definition core_process :: "ProcessId \<Rightarrow> bool" where
  "core_process p \<longleftrightarrow> p = MAIN \<or> p = RENDERER"

definition registerChildProcess :: "ProcessId \<Rightarrow> nat option \<Rightarrow> router \<Rightarrow> router_error + router" where
  "registerChildProcess p win r =
     (if core_process p then Inl (CoreProcess p)
      else Inr (r\<lparr>childProcessWindows := mput p win (childProcessWindows r)\<rparr>))"

definition registerChildProcessSender :: "ProcessId \<Rightarrow> nat \<Rightarrow> router \<Rightarrow> router_error + router" where
  "registerChildProcessSender p sendFn r =
     (if core_process p then Inl (CoreProcess p)
      else Inr (r\<lparr>childProcessSenders := mput p sendFn (childProcessSenders r)\<rparr>))"

definition unregisterChildProcess :: "ProcessId \<Rightarrow> router \<Rightarrow> router" where
  "unregisterChildProcess p r =
     r\<lparr>childProcessWindows := mdel p (childProcessWindows r),
       childProcessSenders := mdel p (childProcessSenders r)\<rparr>"

section \<open>Delivery\<close>

definition deliverToRenderer :: "router_env \<Rightarrow> ipc_envelope \<Rightarrow> router \<Rightarrow> router_error + router" where
  "deliverToRenderer e envelope r =
     (case mainWindow r of
        None \<Rightarrow> Inl NoWindow
      | Some w \<Rightarrow> if \<not> window_ok e w then Inl NoWindow
                 else Inr (r\<lparr>delivered := delivered r @ [(RENDERER, envelope)]\<rparr>))"

text \<open>The value of the send function is ignored: a refused envelope is gone and nobody is told.\<close>

definition deliverToChildProcess :: "router_env \<Rightarrow> ProcessId \<Rightarrow> ipc_envelope \<Rightarrow> router \<Rightarrow> router_error + router" where
  "deliverToChildProcess e p envelope r =
     (case mget (childProcessSenders r) p of
        None \<Rightarrow> Inl (NoSender p)
      | Some f \<Rightarrow> (case send_outcome e f envelope of
          Threw \<Rightarrow> Inl SendThrew
        | Refused \<Rightarrow> Inr r
        | Accepted \<Rightarrow> Inr (r\<lparr>delivered := delivered r @ [(p, envelope)]\<rparr>)))"

definition deliver :: "router_env \<Rightarrow> ProcessId \<Rightarrow> ipc_envelope \<Rightarrow> router \<Rightarrow> router_error + router" where
  "deliver e target envelope r = (case target of
      MAIN \<Rightarrow> Inr r
    | RENDERER \<Rightarrow> deliverToRenderer e envelope r
    | LLM_SERVICE \<Rightarrow> deliverToChildProcess e target envelope r
    | PLUGIN_HOST \<Rightarrow> deliverToChildProcess e target envelope r)"

section \<open>Requests and messages\<close>

definition rt_clear :: "nat \<Rightarrow> router \<Rightarrow> router" where
  "rt_clear q r = r\<lparr>rt_timers := filter (\<lambda>(j, _). j \<noteq> q) (rt_timers r)\<rparr>"

definition router_send :: "router_env \<Rightarrow> jstr \<Rightarrow> ProcessId \<Rightarrow> IpcChannel \<Rightarrow> json option \<Rightarrow> router \<Rightarrow> router" where
  "router_send e i target channel payload r =
     (let envelope = \<lparr>env_id = i, env_channel = channel, env_payload = payload,
                      env_source = Some MAIN, env_error = None\<rparr>;
          q = rt_next r;
          r1 = r\<lparr>rt_next := Suc q, rt_timers := rt_timers r @ [(q, i, channel, target)],
                 pendingRequests := mput i q (pendingRequests r)\<rparr>
      in case deliver e target envelope r1 of
           Inr r2 \<Rightarrow> r2
         | Inl err \<Rightarrow> (rt_clear q r1)\<lparr>pendingRequests := mdel i (pendingRequests r1),
                                     rt_promises := settle q (Rejected err) (rt_promises r1)\<rparr>)"

text \<open>The callback of the timer.\<close>

definition rt_fire :: "nat \<Rightarrow> router \<Rightarrow> router" where
  "rt_fire q r =
     (case map_of (rt_timers r) q of
        None \<Rightarrow> r
      | Some (i, channel, target) \<Rightarrow>
          (rt_clear q r)\<lparr>pendingRequests := mdel i (pendingRequests r),
             rt_promises := settle q (Rejected (RouterTimeout channel target i)) (rt_promises r)\<rparr>)"

definition handleRendererMessage :: "router_env \<Rightarrow> json \<Rightarrow> router \<Rightarrow> router" where
  "handleRendererMessage e raw r =
     (case validateEnvelope raw of
        None \<Rightarrow> r
      | Some env0 \<Rightarrow>
          (let envelope = env0\<lparr>env_source := Some RENDERER\<rparr>;
               result = (case resolveTargetProcess (env_channel envelope) of
                           Inl err \<Rightarrow> Inl err
                         | Inr target \<Rightarrow> deliver e target envelope r)
           in case result of
                Inr r1 \<Rightarrow> r1
              | Inl err \<Rightarrow> (case mget (pendingRequests r) (env_id envelope) of
                    None \<Rightarrow> r
                  | Some q \<Rightarrow> (rt_clear q r)\<lparr>pendingRequests := mdel (env_id envelope) (pendingRequests r),
                        rt_promises := settle q (Rejected err) (rt_promises r)\<rparr>)))"

definition handleChildProcessMessage :: "router_env \<Rightarrow> ProcessId \<Rightarrow> json \<Rightarrow> router \<Rightarrow> router" where
  "handleChildProcessMessage e p raw r =
     (case validateEnvelope raw of
        None \<Rightarrow> r
      | Some env0 \<Rightarrow>
          (let envelope = env0\<lparr>env_source := Some p\<rparr>
           in case mget (pendingRequests r) (env_id envelope) of
                Some q \<Rightarrow>
                  (rt_clear q r)\<lparr>pendingRequests := mdel (env_id envelope) (pendingRequests r),
                     rt_promises := settle q
                       (if json_truthy (env_error envelope)
                        then Rejected (ErrorReply (the (env_error envelope)))
                        else Resolved (env_payload envelope)) (rt_promises r)\<rparr>
              | None \<Rightarrow>
                  (case (case resolveTargetProcess (env_channel envelope) of
                           Inl err \<Rightarrow> Inl err
                         | Inr target \<Rightarrow> deliver e target envelope r) of
                     Inl err \<Rightarrow> r
                   | Inr r1 \<Rightarrow> r1)))"

definition dispose :: "router \<Rightarrow> router" where
  "dispose r =
     (let r1 = fold (\<lambda>(_, q) r. (rt_clear q r)\<lparr>rt_promises := settle q (Rejected RouterClosed) (rt_promises r)\<rparr>)
                 (pendingRequests r) r
      in r1\<lparr>pendingRequests := [], childProcessWindows := [], childProcessSenders := [], mainWindow := None\<rparr>)"

section \<open>Reachable states\<close>

inductive router_step :: "router \<Rightarrow> router \<Rightarrow> bool" where
  rs_window: "router_step r (setMainWindow w r)"
| rs_child: "registerChildProcess p w r = Inr r' \<Longrightarrow> router_step r r'"
| rs_sender: "registerChildProcessSender p f r = Inr r' \<Longrightarrow> router_step r r'"
| rs_unregister: "router_step r (unregisterChildProcess p r)"
| rs_send: "router_step r (router_send e i target channel payload r)"
| rs_renderer: "router_step r (handleRendererMessage e raw r)"
| rs_process: "router_step r (handleChildProcessMessage e p raw r)"
| rs_timer: "q \<in> fst ` set (rt_timers r) \<Longrightarrow> router_step r (rt_fire q r)"
| rs_dispose: "router_step r (dispose r)"

inductive router_reach :: "router \<Rightarrow> bool" where
  rr_new: "router_reach new_router"
| rr_step: "router_reach r \<Longrightarrow> router_step r r' \<Longrightarrow> router_reach r'"

definition router_inv :: "router \<Rightarrow> bool" where
  "router_inv r \<longleftrightarrow> table_inv (pendingRequests r) (rt_promises r) (rt_timers r) (rt_next r)"

definition rt_unsettled :: "router \<Rightarrow> nat set" where
  "rt_unsettled r = {q. q < rt_next r \<and> rt_promises r q = Unsettled}"

definition rt_armed :: "router \<Rightarrow> nat list" where
  "rt_armed r = map fst (rt_timers r)"

text \<open>The shape that every way of ending a request has.\<close>

definition rt_close :: "nat \<Rightarrow> jstr \<Rightarrow> (json option, router_error) promise \<Rightarrow> router \<Rightarrow> router" where
  "rt_close q i p r = (rt_clear q r)\<lparr>pendingRequests := mdel i (pendingRequests r),
                                     rt_promises := settle q p (rt_promises r)\<rparr>"

lemma rt_close_inv [js_inv]:
  "router_inv r \<Longrightarrow> (q, i, t) \<in> set (rt_timers r) \<Longrightarrow> p \<noteq> Unsettled \<Longrightarrow> router_inv (rt_close q i p r)"
  by (auto simp: router_inv_def rt_close_def rt_clear_def dest: table_inv_close)

lemma rt_close_shape:
  "rt_armed (rt_close q i p r) = removeAll q (rt_armed r)"
  "p \<noteq> Unsettled \<Longrightarrow> rt_unsettled (rt_close q i p r) = rt_unsettled r - {q}"
  by (simp add: rt_armed_def rt_close_def rt_clear_def removeAll_filter_not_eq filter_map o_def
      case_prod_beta' eq_commute) (auto simp: rt_unsettled_def rt_close_def rt_clear_def)

lemma rt_fire_close:
  assumes "router_inv r" and "q \<in> set (rt_armed r)"
  obtains i c t where "(q, i, c, t) \<in> set (rt_timers r)"
    and "rt_fire q r = rt_close q i (Rejected (RouterTimeout c t i)) r"
proof -
  from assms(2) obtain i c t where mem: "(q, i, c, t) \<in> set (rt_timers r)" by (auto simp: rt_armed_def)
  with assms(1) have "map_of (rt_timers r) q = Some (i, c, t)"
    by (auto simp: router_inv_def dest: table_inv_timer)
  then show ?thesis using that [OF mem] by (simp add: rt_fire_def rt_close_def)
qed

text \<open>The router provides the contract of the table of requests.\<close>

interpretation rt: request_table rt_unsettled rt_armed rt_fire router_inv
proof unfold_locales
  fix r :: router and q
  show "router_inv r \<Longrightarrow> rt_unsettled r \<subseteq> set (rt_armed r)"
    by (auto simp: router_inv_def table_inv_def rt_unsettled_def rt_armed_def)
  show "router_inv r \<Longrightarrow> distinct (rt_armed r)" by (simp add: router_inv_def table_inv_def rt_armed_def)
  assume *: "router_inv r" "q \<in> set (rt_armed r)"
  show "rt_unsettled (rt_fire q r) = rt_unsettled r - {q}"
    by (rule rt_fire_close [OF *]) (simp add: rt_close_shape)
  show "rt_armed (rt_fire q r) = removeAll q (rt_armed r)"
    by (rule rt_fire_close [OF *]) (simp add: rt_close_shape)
  show "router_inv (rt_fire q r)"
    by (rule rt_fire_close [OF *]) (simp add: rt_close_inv [OF *(1)])
qed

text \<open>Delivery changes the log only, and every delivered envelope is the one given.\<close>

lemma deliver_frame:
  "deliver e t envelope r = Inr r' \<Longrightarrow>
     r' = r \<or> (t \<noteq> MAIN \<and> r' = r\<lparr>delivered := delivered r @ [(t, envelope)]\<rparr>)"
  by (cases t) (auto simp: deliver_def deliverToRenderer_def deliverToChildProcess_def
      split: option.splits if_splits send_outcome.splits)

lemma router_inv_cong:
  "router_inv r \<Longrightarrow> pendingRequests r' = pendingRequests r \<Longrightarrow> rt_promises r' = rt_promises r \<Longrightarrow>
   rt_timers r' = rt_timers r \<Longrightarrow> rt_next r' = rt_next r \<Longrightarrow> router_inv r'"
  by (simp add: router_inv_def)

lemma deliver_inv [js_inv]: "router_inv r \<Longrightarrow> deliver e t envelope r = Inr r' \<Longrightarrow> router_inv r'"
  by (drule deliver_frame) (auto elim!: router_inv_cong)

lemma entry_close_inv [js_inv]:
  "router_inv r \<Longrightarrow> mget (pendingRequests r) i = Some q \<Longrightarrow> p \<noteq> Unsettled \<Longrightarrow> router_inv (rt_close q i p r)"
  using rt_close_inv table_inv_entry unfolding router_inv_def by metis

text \<open>The registration of a request.\<close>

definition rt_open :: "jstr \<Rightarrow> IpcChannel \<Rightarrow> ProcessId \<Rightarrow> router \<Rightarrow> router" where
  "rt_open i channel target r =
     r\<lparr>rt_next := Suc (rt_next r), rt_timers := rt_timers r @ [(rt_next r, i, channel, target)],
       pendingRequests := mput i (rt_next r) (pendingRequests r)\<rparr>"

lemma rt_open_inv [js_inv]: "router_inv r \<Longrightarrow> router_inv (rt_open i c t r)"
  by (simp add: router_inv_def rt_open_def table_inv_open)

lemma router_send_alt:
  "router_send e i target channel payload r =
     (case deliver e target \<lparr>env_id = i, env_channel = channel, env_payload = payload,
                             env_source = Some MAIN, env_error = None\<rparr> (rt_open i channel target r) of
        Inr r2 \<Rightarrow> r2
      | Inl err \<Rightarrow> rt_close (rt_next r) i (Rejected err) (rt_open i channel target r))"
  unfolding router_send_def rt_open_def rt_close_def Let_def by simp

lemma router_send_inv [js_inv]: "router_inv r \<Longrightarrow> router_inv (router_send e i target channel payload r)"
  using deliver_inv [OF rt_open_inv]
  by (auto simp: router_send_alt rt_open_inv split: sum.split intro!: entry_close_inv)
    (simp add: rt_open_def)

lemma handleRendererMessage_cases:
  obtains (unchanged) "handleRendererMessage e raw r = r"
  | (delivered) env t r' where "validateEnvelope raw = Some env" "resolveTargetProcess (env_channel env) = Inr t"
      "deliver e t (env\<lparr>env_source := Some RENDERER\<rparr>) r = Inr r'" "handleRendererMessage e raw r = r'"
  | (rejected) i q err where "mget (pendingRequests r) i = Some q"
      "handleRendererMessage e raw r = rt_close q i (Rejected err) r"
proof (cases "validateEnvelope raw")
  case None
  then show ?thesis using unchanged by (simp add: handleRendererMessage_def)
next
  case (Some env)
  obtain t where t: "resolveTargetProcess (env_channel env) = Inr t" using route_total by blast
  show ?thesis
  proof (cases "deliver e t (env\<lparr>env_source := Some RENDERER\<rparr>) r")
    case (Inl err)
    then show ?thesis
      using Some t unchanged rejected
      by (cases "mget (pendingRequests r) (env_id env)") (auto simp: handleRendererMessage_def rt_close_def)
  next
    case (Inr r')
    with Some t show ?thesis using delivered by (simp add: handleRendererMessage_def)
  qed
qed

lemma handleChildProcessMessage_cases:
  obtains (unchanged) "handleChildProcessMessage e p raw r = r"
  | (delivered) env t r' where "validateEnvelope raw = Some env" "resolveTargetProcess (env_channel env) = Inr t"
      "deliver e t (env\<lparr>env_source := Some p\<rparr>) r = Inr r'" "handleChildProcessMessage e p raw r = r'"
  | (answered) env q where "validateEnvelope raw = Some env" "mget (pendingRequests r) (env_id env) = Some q"
      "handleChildProcessMessage e p raw r = rt_close q (env_id env)
         (if json_truthy (env_error env) then Rejected (ErrorReply (the (env_error env)))
          else Resolved (env_payload env)) r"
proof (cases "validateEnvelope raw")
  case None
  then show ?thesis using unchanged by (simp add: handleChildProcessMessage_def)
next
  case (Some env)
  obtain t where t: "resolveTargetProcess (env_channel env) = Inr t" using route_total by blast
  show ?thesis
  proof (cases "mget (pendingRequests r) (env_id env)")
    case None
    with Some t show ?thesis
      using unchanged delivered
      by (cases "deliver e t (env\<lparr>env_source := Some p\<rparr>) r") (auto simp: handleChildProcessMessage_def)
  next
    case (Some q)
    with \<open>validateEnvelope raw = Some env\<close> show ?thesis
      using answered by (simp add: handleChildProcessMessage_def rt_close_def Let_def)
  qed
qed

lemma handleRendererMessage_inv [js_inv]:
  assumes "router_inv r"
  shows "router_inv (handleRendererMessage e raw r)"
proof (cases rule: handleRendererMessage_cases [of e raw r])
  case (delivered env t r')
  then show ?thesis using deliver_inv [OF assms] by metis
qed (simp_all add: assms entry_close_inv)

lemma handleChildProcessMessage_inv [js_inv]:
  assumes "router_inv r"
  shows "router_inv (handleChildProcessMessage e p raw r)"
proof (cases rule: handleChildProcessMessage_cases [of e p raw r])
  case (delivered env t r')
  then show ?thesis using deliver_inv [OF assms] by metis
qed (simp_all add: assms entry_close_inv)

lemma dispose_effect:
  "rt_timers (dispose r) = filter (\<lambda>(q, _). q \<notin> snd ` set (pendingRequests r)) (rt_timers r)"
  "rt_promises (dispose r) = (\<lambda>q. if q \<in> snd ` set (pendingRequests r) \<and> rt_promises r q = Unsettled
     then Rejected RouterClosed else rt_promises r q)"
  "rt_next (dispose r) = rt_next r" "pendingRequests (dispose r) = []"
proof -
  have "let r' = fold (\<lambda>(_, q) r. (rt_clear q r)\<lparr>rt_promises := settle q (Rejected RouterClosed) (rt_promises r)\<rparr>) ps r
    in rt_timers r' = filter (\<lambda>(q, _). q \<notin> snd ` set ps) (rt_timers r) \<and> rt_next r' = rt_next r
     \<and> rt_promises r' = (\<lambda>q. if q \<in> snd ` set ps \<and> rt_promises r q = Unsettled
          then Rejected RouterClosed else rt_promises r q)" for ps :: "(jstr \<times> nat) list"
  proof (induction ps arbitrary: r)
    case (Cons p ps)
    obtain i q where p: "p = (i, q)" by force
    show ?case
      using Cons [of "(rt_clear q r)\<lparr>rt_promises := settle q (Rejected RouterClosed) (rt_promises r)\<rparr>"]
      by (auto simp: p Let_def rt_clear_def settle_def fun_eq_iff intro!: filter_cong)
  qed simp
  from this [of "pendingRequests r"] show
    "rt_timers (dispose r) = filter (\<lambda>(q, _). q \<notin> snd ` set (pendingRequests r)) (rt_timers r)"
    "rt_promises (dispose r) = (\<lambda>q. if q \<in> snd ` set (pendingRequests r) \<and> rt_promises r q = Unsettled
       then Rejected RouterClosed else rt_promises r q)"
    "rt_next (dispose r) = rt_next r" "pendingRequests (dispose r) = []"
    by (simp_all add: dispose_def Let_def)
qed

lemma dispose_inv [js_inv]: "router_inv r \<Longrightarrow> router_inv (dispose r)"
  unfolding router_inv_def dispose_effect by (rule table_inv_close_all) simp_all

lemma router_reach_inv: "router_reach r \<Longrightarrow> router_inv r"
proof (induction rule: router_reach.induct)
  case rr_new
  show ?case by (simp add: router_inv_def new_router_def table_inv_empty)
next
  case (rr_step r r')
  from rr_step(2) rr_step.IH show ?case
  proof cases
    case (rs_timer q)
    with rr_step.IH rt.fire_inv show ?thesis by (auto simp: rt_armed_def)
  qed (auto simp: js_inv setMainWindow_def registerChildProcess_def registerChildProcessSender_def
      unregisterChildProcess_def elim!: router_inv_cong split: if_splits)
qed

section \<open>Properties\<close>

text \<open>
  C8: The source of a message cannot be forged: whatever object a renderer or a child process
  hands to the router, everything the handler delivers is an envelope whose source is the process it
  came from, whose channel is one of the enumeration, and which goes to the process the routing table
  names for that channel, and never to the main process.
\<close>

theorem source_is_injected:
  "(\<exists>new. delivered (handleRendererMessage e raw r) = delivered r @ new
      \<and> (\<forall>(t, env)\<in>set new. env_source env = Some RENDERER \<and> CHANNEL_ROUTE (env_channel env) = Some t \<and> t \<noteq> MAIN))
   \<and> (\<exists>new. delivered (handleChildProcessMessage e p raw r) = delivered r @ new
      \<and> (\<forall>(t, env)\<in>set new. env_source env = Some p \<and> CHANNEL_ROUTE (env_channel env) = Some t \<and> t \<noteq> MAIN))"
proof (intro conjI)
  have route: "resolveTargetProcess c = Inr t \<Longrightarrow> CHANNEL_ROUTE c = Some t" for c t
    by (simp add: resolveTargetProcess_def split: option.splits)
  show "\<exists>new. delivered (handleRendererMessage e raw r) = delivered r @ new
      \<and> (\<forall>(t, env)\<in>set new. env_source env = Some RENDERER \<and> CHANNEL_ROUTE (env_channel env) = Some t \<and> t \<noteq> MAIN)"
  proof (cases rule: handleRendererMessage_cases [of e raw r])
    case (delivered env t r')
    from deliver_frame [OF delivered(3)] delivered(4) route [OF delivered(2)] show ?thesis by auto
  qed (simp_all add: rt_close_def rt_clear_def)
  show "\<exists>new. delivered (handleChildProcessMessage e p raw r) = delivered r @ new
      \<and> (\<forall>(t, env)\<in>set new. env_source env = Some p \<and> CHANNEL_ROUTE (env_channel env) = Some t \<and> t \<noteq> MAIN)"
  proof (cases rule: handleChildProcessMessage_cases [of e p raw r])
    case (delivered env t r')
    from deliver_frame [OF delivered(3)] delivered(4) route [OF delivered(2)] show ?thesis by auto
  qed (simp_all add: rt_close_def rt_clear_def)
qed

text \<open>
  C31: No caller of the router waits for ever: in every reachable state, if nothing but the
  thirty-second timers happens from now on, every promise that \<open>send\<close> handed out is settled, and no
  timer and no pending request is left.
\<close>

theorem router_requests_settle:
  assumes "router_reach r"
  shows "let r' = fold rt_fire (rt_armed r) r
         in (\<forall>q<rt_next r. rt_promises r' q \<noteq> Unsettled) \<and> rt_timers r' = [] \<and> pendingRequests r' = []"
proof -
  let ?r = "fold rt_fire (rt_armed r) r"
  note inv = router_reach_inv [OF assms]
  have dr: "rt_unsettled ?r = {}" "rt_armed ?r = []" using rt.drain [OF inv] by auto
  have inv': "router_inv ?r" using rt.fire_list [OF inv rt.armed_distinct [OF inv] subset_refl] by auto
  have nr: "rt_next (fold rt_fire qs s) = rt_next s" for qs s
    by (induction qs arbitrary: s) (auto simp: rt_fire_def rt_clear_def split: option.split)
  have "mget (pendingRequests ?r) i = None" for i
    using inv' dr(2) unfolding router_inv_def
    by (cases "mget (pendingRequests ?r) i") (auto simp: rt_armed_def dest: table_inv_entry)
  then have "pendingRequests ?r = []"
    by (metis mget_mput neq_Nil_conv fun_upd_same map_of_Cons_code(2) option.distinct(1) surj_pair)
  with dr show ?thesis by (auto simp: Let_def rt_unsettled_def rt_armed_def nr)
qed

text \<open>Who can answer: a message of the renderer never resolves a promise of the main process, so
  a request that the main process sends to the renderer is fulfilled by no answer of the renderer; a
  child process, any child process, that sends an envelope with the identifier of an open request
  settles it: with the payload when the error field is falsy, with the error otherwise.
\<close>

theorem only_children_answer:
  "(rt_promises (handleRendererMessage e raw r) q = Resolved v \<longrightarrow> rt_promises r q = Resolved v)
   \<and> (\<forall>env. validateEnvelope raw = Some env \<longrightarrow> mget (pendingRequests r) (env_id env) = Some q \<longrightarrow>
        rt_promises r q = Unsettled \<longrightarrow>
        rt_promises (handleChildProcessMessage e p raw r) q =
          (if json_truthy (env_error env) then Rejected (ErrorReply (the (env_error env)))
           else Resolved (env_payload env)))"
proof (intro conjI)
  show "rt_promises (handleRendererMessage e raw r) q = Resolved v \<longrightarrow> rt_promises r q = Resolved v"
  proof (cases rule: handleRendererMessage_cases [of e raw r])
    case (delivered env t r')
    from deliver_frame [OF delivered(3)] delivered(4) show ?thesis by auto
  qed (auto simp: rt_close_def rt_clear_def settle_def split: if_splits)
  show "\<forall>env. validateEnvelope raw = Some env \<longrightarrow> mget (pendingRequests r) (env_id env) = Some q \<longrightarrow>
        rt_promises r q = Unsettled \<longrightarrow>
        rt_promises (handleChildProcessMessage e p raw r) q =
          (if json_truthy (env_error env) then Rejected (ErrorReply (the (env_error env)))
           else Resolved (env_payload env))"
    by (auto simp: handleChildProcessMessage_def Let_def settle_def rt_clear_def)
qed

text \<open>
  A refused message is silently dropped: when the child's send function returns false (it does
  so when the child is killed or disconnected), \<open>send\<close> delivers nothing and does not reject; the promise
  stays open until its timer fires, and then the error is the timeout.
\<close>

theorem refused_send_waits_for_timeout:
  assumes "router_reach r" and "target = LLM_SERVICE \<or> target = PLUGIN_HOST"
    and "mget (childProcessSenders r) target = Some f" and "\<And>env. send_outcome e f env = Refused"
  shows "let r' = router_send e i target channel payload r; q = rt_next r
         in rt_promises r' q = Unsettled \<and> delivered r' = delivered r
          \<and> rt_promises (rt_fire q r') q = Rejected (RouterTimeout channel target i)"
proof -
  have inv: "router_inv r" by (rule router_reach_inv [OF assms(1)])
  have open_: "rt_promises r (rt_next r) = Unsettled" using inv by (simp add: router_inv_def table_inv_def)
  have eq: "router_send e i target channel payload r = rt_open i channel target r"
    using assms(2-4) by (auto simp: router_send_alt deliver_def deliverToChildProcess_def rt_open_def)
  have "(rt_next r, i, channel, target) \<in> set (rt_timers (rt_open i channel target r))"
    by (simp add: rt_open_def)
  then have "map_of (rt_timers (rt_open i channel target r)) (rt_next r) = Some (i, channel, target)"
    using rt_open_inv [OF inv] by (auto simp: router_inv_def dest: table_inv_timer)
  then show ?thesis
    by (simp add: eq Let_def rt_fire_def rt_clear_def) (simp add: rt_open_def open_ settle_def)
qed

section \<open>Witnesses\<close>

definition w_env :: router_env where
  "w_env = \<lparr>send_outcome = (\<lambda>_ _. Refused), window_ok = (\<lambda>_. True)\<rparr>"

definition w_router :: router where
  "w_router = new_router\<lparr>childProcessSenders := [(LLM_SERVICE, 7)]\<rparr>"

definition w_sent :: router where
  "w_sent = router_send w_env (js ''a'') LLM_SERVICE LLM_CHAT None w_router"

lemma w_router_reach: "router_reach w_router"
  by (rule rr_step [OF rr_new rs_sender [of LLM_SERVICE 7]])
    (simp add: registerChildProcessSender_def core_process_def w_router_def new_router_def)

lemma router_requests_settle_witness:
  "let r' = fold rt_fire (rt_armed w_sent) w_sent
   in (\<forall>q<rt_next w_sent. rt_promises r' q \<noteq> Unsettled) \<and> rt_timers r' = [] \<and> pendingRequests r' = []"
  unfolding w_sent_def by (rule router_requests_settle [OF rr_step [OF w_router_reach rs_send]])

definition w_answer :: json where
  "w_answer = JObj [(js ''id'', JStr (js ''a'')), (js ''channel'', JStr (js ''llm:response'')), (js ''payload'', JNull)]"

lemma only_children_answer_witness:
  "rt_promises (handleChildProcessMessage w_env PLUGIN_HOST w_answer w_sent) 0 = Resolved (Some JNull)"
proof -
  have "js ''llm:response'' = channel_str LLM_RESPONSE" by (simp add: channel_str_def)
  then have v: "validateEnvelope w_answer = Some \<lparr>env_id = js ''a'', env_channel = LLM_RESPONSE,
     env_payload = Some JNull, env_source = None, env_error = None\<rparr>"
    by (simp add: w_answer_def validateEnvelope_def jfield_def del: channel_str_def)
  have "mget (pendingRequests w_sent) (js ''a'') = Some 0" "rt_promises w_sent 0 = Unsettled"
    by (simp_all add: w_sent_def router_send_alt rt_open_def deliver_def deliverToChildProcess_def
        w_router_def w_env_def new_router_def)
  with only_children_answer [of w_env w_answer w_sent 0 "None" PLUGIN_HOST] v
  show ?thesis by (simp add: json_truthy_def)
qed

lemma refused_send_waits_for_timeout_witness:
  "let r' = router_send w_env (js ''a'') LLM_SERVICE LLM_CHAT None w_router; q = rt_next w_router
   in rt_promises r' q = Unsettled \<and> delivered r' = delivered w_router
    \<and> rt_promises (rt_fire q r') q = Rejected (RouterTimeout LLM_CHAT LLM_SERVICE (js ''a''))"
  by (rule refused_send_waits_for_timeout [OF w_router_reach]) (simp_all add: w_router_def w_env_def)

lemma source_is_injected_witness:
  "\<exists>new. delivered (handleRendererMessage w_env w_answer (setMainWindow 1 w_router)) = delivered w_router @ new
      \<and> (\<forall>(t, env)\<in>set new. env_source env = Some RENDERER \<and> CHANNEL_ROUTE (env_channel env) = Some t \<and> t \<noteq> MAIN)"
  using source_is_injected [of w_env w_answer "setMainWindow 1 w_router"] by (simp add: setMainWindow_def)

end
