(* ===== verification/PluginHost.thy ===== *)
theory PluginHost
  imports Lifecycle IpcRouter
begin

text \<open>
  The plugin host process: manifest validation, scanning, loading and unloading
  (\<open>livedesign/src/plugin-host/plugin-loader.ts\<close>) and the process itself with its start-up sequence
  and message handlers (\<open>plugin-host/index.ts\<close>). The file system, the JSON parser, path joining and
  what a plugin's module and methods do are parameters.
\<close>

section \<open>Manifests\<close>

datatype manifest_error =
    NotAnObject | IdMissing | NameMissing | VersionMissing | MainMissing | PermissionsNotArray

text \<open>\<open>!x || typeof x !== 'string'\<close> is false exactly on non-empty strings.\<close>

definition nonempty_string :: "json option \<Rightarrow> bool" where
  "nonempty_string j = (case j of Some (JStr s) \<Rightarrow> s \<noteq> [] | _ \<Rightarrow> False)"

definition is_array :: "json \<Rightarrow> bool" where
  "is_array j = (case j of JArr _ \<Rightarrow> True | _ \<Rightarrow> False)"

definition json_is_object :: "json \<Rightarrow> bool" where
  "json_is_object j = (case j of JObj _ \<Rightarrow> True | JArr _ \<Rightarrow> True | _ \<Rightarrow> False)"

definition validateManifest :: "json \<Rightarrow> manifest_error list" where
  "validateManifest j =
     (if \<not> json_is_object j then [NotAnObject]
      else (if nonempty_string (jfield (js ''id'') j) then [] else [IdMissing])
         @ (if nonempty_string (jfield (js ''name'') j) then [] else [NameMissing])
         @ (if nonempty_string (jfield (js ''version'') j) then [] else [VersionMissing])
         @ (if nonempty_string (jfield (js ''main'') j) then [] else [MainMissing])
         @ (case jfield (js ''permissions'') j of
              None \<Rightarrow> [] | Some p \<Rightarrow> if is_array p then [] else [PermissionsNotArray]))"

definition jstr_of :: "json option \<Rightarrow> jstr" where
  "jstr_of j = (case j of Some (JStr s) \<Rightarrow> s | _ \<Rightarrow> [])"

definition jarr_of :: "json option \<Rightarrow> json list" where
  "jarr_of j = (case j of Some (JArr xs) \<Rightarrow> xs | _ \<Rightarrow> [])"

datatype read_error = ManifestNotFound | ManifestUnreadable | ManifestInvalid "manifest_error list"

record host_fs =
  exists_file :: "jstr \<Rightarrow> bool"
  read_file :: "jstr \<Rightarrow> jstr option"
  parse_json :: "jstr \<Rightarrow> json option"
  path_join :: "jstr \<Rightarrow> jstr \<Rightarrow> jstr"
  read_dir :: "jstr \<Rightarrow> (jstr \<times> bool) list"

definition readManifest :: "host_fs \<Rightarrow> jstr \<Rightarrow> read_error + PluginManifest" where
  "readManifest fs pluginDir =
     (let manifestPath = path_join fs pluginDir (js ''manifest.json'')
      in if \<not> exists_file fs manifestPath then Inl ManifestNotFound
         else (case Option.bind (read_file fs manifestPath) (parse_json fs) of
                 None \<Rightarrow> Inl ManifestUnreadable
               | Some raw \<Rightarrow>
                   (if validateManifest raw \<noteq> [] then Inl (ManifestInvalid (validateManifest raw))
                    else Inr \<lparr>man_id = jstr_of (jfield (js ''id'') raw), man_name = jstr_of (jfield (js ''name'') raw),
                              man_version = jstr_of (jfield (js ''version'') raw),
                              man_permissions = jarr_of (jfield (js ''permissions'') raw),
                              man_main = jstr_of (jfield (js ''main'') raw)\<rparr>)))"

definition scanPlugins :: "host_fs \<Rightarrow> jstr \<Rightarrow> PluginManifest list" where
  "scanPlugins fs pluginsDir =
     (if \<not> exists_file fs pluginsDir then []
      else List.map_filter (\<lambda>(name, dir). if \<not> dir then None
             else (case readManifest fs (path_join fs pluginsDir name) of Inl _ \<Rightarrow> None | Inr m \<Rightarrow> Some m))
           (read_dir fs pluginsDir))"

section \<open>The loader\<close>

text \<open>
  Running an entry file in a fresh sandbox gives the module's object and the methods it has, or throws.
\<close>

datatype module_result = ModuleThrows jstr | Exports nat "jstr \<Rightarrow> bool"

record loader =
  lm :: lifecycle
  sandboxes :: "(jstr, nat) jmap"
  next_sandbox :: nat
  destroyed :: "nat list"

definition new_loader :: loader where
  "new_loader = \<lparr>lm = new_lifecycle, sandboxes = [], next_sandbox = 0, destroyed = []\<rparr>"

datatype load_error = AlreadyLoaded PluginState | RegisterFailed lc_error | LoadFailure load_fault

definition missing_method :: "(jstr \<Rightarrow> bool) \<Rightarrow> jstr option" where
  "missing_method has = find (\<lambda>n. \<not> has n) [js ''init'', js ''start'', js ''stop'', js ''destroy'']"

text \<open>The body of the \<open>try\<close>: the exception, or the instance.\<close>

definition load_module :: "host_fs \<Rightarrow> (jstr \<Rightarrow> module_result) \<Rightarrow> jstr \<Rightarrow> PluginManifest \<Rightarrow> load_fault + nat" where
  "load_module fs run pluginsDir m =
     (let mainPath = path_join fs (path_join fs pluginsDir (man_id m)) (man_main m)
      in if \<not> exists_file fs mainPath then Inl (EntryMissing mainPath)
         else (case run mainPath of
                 ModuleThrows msg \<Rightarrow> Inl (ModuleThrew msg)
               | Exports inst has \<Rightarrow>
                   (case missing_method has of Some n \<Rightarrow> Inl (MethodMissing n) | None \<Rightarrow> Inr inst)))"

definition loadPlugin :: "host_fs \<Rightarrow> (jstr \<Rightarrow> module_result) \<Rightarrow> jstr \<Rightarrow> PluginManifest \<Rightarrow> loader \<Rightarrow> load_error option \<times> loader" where
  "loadPlugin fs run pluginsDir m ld =
     (let existing = get (man_id m) (lm ld);
          st = map_option (\<lambda>r. pl_state (store (lm ld) ! r)) existing
      in if existing \<noteq> None \<and> the st \<noteq> STOPPED \<and> the st \<noteq> ERROR then (Some (AlreadyLoaded (the st)), ld)
         else (case register m (lm ld) of
             Inl e \<Rightarrow> (Some (RegisterFailed e), ld)
           | Inr L1 \<Rightarrow>
               (let sb = next_sandbox ld;
                    ld1 = ld\<lparr>lm := L1, sandboxes := mput (man_id m) sb (sandboxes ld), next_sandbox := Suc sb\<rparr>
                in case load_module fs run pluginsDir m of
                     Inr inst \<Rightarrow> (None, ld1\<lparr>lm := inject (man_id m) inst L1\<rparr>)
                   | Inl msg \<Rightarrow> (Some (LoadFailure msg),
                       ld1\<lparr>destroyed := sb # destroyed ld1, sandboxes := mdel (man_id m) (sandboxes ld1),
                           lm := mark_load_error (man_id m) msg L1\<rparr>))))"

text \<open>Unloading, with what the plugin's \<open>stop\<close> and \<open>destroy\<close> do and no other call in between.\<close>

definition unloadPlugin :: "jstr \<Rightarrow> outcome \<Rightarrow> outcome \<Rightarrow> loader \<Rightarrow> lc_error option \<times> loader" where
  "unloadPlugin i stop_out destroy_out ld =
     (case get i (lm ld) of
        None \<Rightarrow> (Some (NotRegistered i), ld)
      | Some r \<Rightarrow>
          (case (if pl_state (store (lm ld) ! r) = RUNNING \<or> pl_state (store (lm ld) ! r) = LOADING
                 then stop_plugin i stop_out (lm ld) else (None, lm ld)) of
             (Some e, L1) \<Rightarrow> (Some e, ld\<lparr>lm := L1\<rparr>)
           | (None, L1) \<Rightarrow>
               (case destroy_plugin i destroy_out L1 of
                  (Some e, L2) \<Rightarrow> (Some e, ld\<lparr>lm := L2\<rparr>)
                | (None, L2) \<Rightarrow>
                    (let ld1 = (case mget (sandboxes ld) i of
                                  None \<Rightarrow> ld\<lparr>lm := L2\<rparr>
                                | Some sb \<Rightarrow> ld\<lparr>lm := L2, destroyed := sb # destroyed ld,
                                               sandboxes := mdel i (sandboxes ld)\<rparr>)
                     in case unregister i L2 of
                          Inl e \<Rightarrow> (Some e, ld1)
                        | Inr L3 \<Rightarrow> (None, ld1\<lparr>lm := L3\<rparr>)))))"

definition destroy_loader :: "(jstr \<Rightarrow> outcome) \<Rightarrow> loader \<Rightarrow> (jstr \<times> lc_error) list \<times> loader" where
  "destroy_loader out ld =
     (case destroyAll out (lm ld) of
        ([], L) \<Rightarrow> ([], ld\<lparr>lm := L, destroyed := rev (mvals (sandboxes ld)) @ destroyed ld, sandboxes := []\<rparr>)
      | (es, L) \<Rightarrow> (es, ld\<lparr>lm := L\<rparr>))"

section \<open>The process\<close>

text \<open>The start-up loop: load, init and start each plugin; a failure moves on to the next one.\<close>

record behaviour =
  on_init :: outcome
  on_start :: outcome

definition start_one :: "host_fs \<Rightarrow> (jstr \<Rightarrow> module_result) \<Rightarrow> (jstr \<Rightarrow> behaviour) \<Rightarrow> jstr \<Rightarrow> PluginManifest \<Rightarrow> loader \<Rightarrow> loader" where
  "start_one fs run beh pluginsDir m ld =
     (case loadPlugin fs run pluginsDir m ld of
        (Some e, ld1) \<Rightarrow> ld1
      | (None, ld1) \<Rightarrow>
          (case init_plugin (man_id m) (on_init (beh (man_id m))) (lm ld1) of
             (Some e, L2) \<Rightarrow> ld1\<lparr>lm := L2\<rparr>
           | (None, L2) \<Rightarrow> ld1\<lparr>lm := snd (start_plugin (man_id m) (on_start (beh (man_id m))) L2)\<rparr>))"

definition initialize :: "host_fs \<Rightarrow> (jstr \<Rightarrow> module_result) \<Rightarrow> (jstr \<Rightarrow> behaviour) \<Rightarrow> jstr \<Rightarrow> loader" where
  "initialize fs run beh pluginsDir = fold (start_one fs run beh pluginsDir) (scanPlugins fs pluginsDir) new_loader"

text \<open>Calling a method of the plugin's object: it is absent, throws, or returns.\<close>

datatype call_result = NoSuchMethod | CallThrows jstr | Returns json

datatype invoke_error = PluginNotFound | PluginNotRunning PluginState | PluginInstanceNull | NotCallable | MethodThrew jstr

definition invoke :: "(nat \<Rightarrow> jstr \<Rightarrow> json list \<Rightarrow> call_result) \<Rightarrow> jstr \<Rightarrow> jstr \<Rightarrow> json list \<Rightarrow> lifecycle \<Rightarrow> invoke_error + json" where
  "invoke callf pluginId method args L =
     (case get pluginId L of
        None \<Rightarrow> Inl PluginNotFound
      | Some r \<Rightarrow>
          (if pl_state (store L ! r) \<noteq> RUNNING then Inl (PluginNotRunning (pl_state (store L ! r)))
           else (case pl_instance (store L ! r) of
               None \<Rightarrow> Inl PluginInstanceNull
             | Some inst \<Rightarrow> (case callf inst method args of
                   NoSuchMethod \<Rightarrow> Inl NotCallable
                 | CallThrows msg \<Rightarrow> Inl (MethodThrew msg)
                 | Returns v \<Rightarrow> Inr v))))"

text \<open>The text of an error is a parameter; both branches answer with the identifier of the request.\<close>

definition handlePluginInvoke ::
  "(invoke_error \<Rightarrow> jstr) \<Rightarrow> (nat \<Rightarrow> jstr \<Rightarrow> json list \<Rightarrow> call_result) \<Rightarrow> ipc_envelope \<Rightarrow> lifecycle \<Rightarrow> ipc_envelope" where
  "handlePluginInvoke text callf envelope L =
     (let p = (case env_payload envelope of Some j \<Rightarrow> j | None \<Rightarrow> JNull);
          pluginId = jstr_of (jfield (js ''pluginId'') p);
          method = jstr_of (jfield (js ''method'') p);
          args = jarr_of (jfield (js ''args'') p);
          result = invoke callf pluginId method args L
      in \<lparr>env_id = env_id envelope, env_channel = PLUGIN_RESULT,
          env_payload = Some (JObj [(js ''pluginId'', JStr pluginId), (js ''method'', JStr method),
             (js ''result'', case result of Inl _ \<Rightarrow> JNull | Inr v \<Rightarrow> v)]),
          env_source = Some PLUGIN_HOST,
          env_error = (case result of Inl e \<Rightarrow> Some (JStr (text e)) | Inr _ \<Rightarrow> None)\<rparr>)"

definition handlePluginStop :: "(lc_error \<Rightarrow> jstr) \<Rightarrow> outcome \<Rightarrow> ipc_envelope \<Rightarrow> lifecycle \<Rightarrow> ipc_envelope \<times> lifecycle" where
  "handlePluginStop text out envelope L =
     (let pluginId = jstr_of (env_payload envelope);
          (err, L1) = (case get pluginId L of
              None \<Rightarrow> (None, L)
            | Some r \<Rightarrow> if pl_state (store L ! r) = RUNNING then stop_plugin pluginId out L else (None, L))
      in (\<lparr>env_id = env_id envelope, env_channel = PLUGIN_RESULT,
           env_payload = Some (JObj [(js ''pluginId'', JStr pluginId), (js ''stopped'', JBool (err = None))]),
           env_source = Some PLUGIN_HOST, env_error = map_option (\<lambda>e. JStr (text e)) err\<rparr>, L1))"

datatype host_action = InvokePlugin | StopPlugin | ConfigChanged | Unhandled | NoLoader

definition host_dispatch :: "bool \<Rightarrow> IpcChannel \<Rightarrow> host_action" where
  "host_dispatch has_loader c =
     (if \<not> has_loader then NoLoader
      else case c of PLUGIN_INVOKE \<Rightarrow> InvokePlugin | PLUGIN_STOP \<Rightarrow> StopPlugin
             | CONFIG_CHANGED \<Rightarrow> ConfigChanged | _ \<Rightarrow> Unhandled)"

text \<open>The instances whose \<open>onConfigChanged\<close> a configuration change calls, in order.\<close>

definition config_targets :: "(nat \<Rightarrow> jstr \<Rightarrow> bool) \<Rightarrow> jstr \<Rightarrow> lifecycle \<Rightarrow> nat list" where
  "config_targets has pluginId L =
     (let refs = (if pluginId \<noteq> [] then (case get pluginId L of None \<Rightarrow> [] | Some r \<Rightarrow> [r]) else getAll L)
      in filter (\<lambda>inst. has inst (js ''onConfigChanged''))
           (List.map_filter (\<lambda>r. pl_instance (store L ! r)) refs))"

definition capability_channel :: "jstr \<Rightarrow> IpcChannel" where
  "capability_channel type = (if starts_with type (js ''file:'') then PLUGIN_REQUEST_FILE else PLUGIN_REQUEST_NETWORK)"

section \<open>Loading and unloading\<close>

text \<open>A registered plugin object at the end of the store.\<close>

definition add_obj :: "jstr \<Rightarrow> PluginInstance \<Rightarrow> lifecycle \<Rightarrow> lifecycle" where
  "add_obj i p L = L\<lparr>store := store L @ [p], plugins := mput i (length (store L)) (plugins L)\<rparr>"

lemma add_obj_inv:
  "lc_inv L \<Longrightarrow> obj_ok p \<Longrightarrow> man_id (pl_manifest p) = i \<Longrightarrow> lc_inv (add_obj i p L)"
  by (auto simp: lc_inv_def add_obj_def nth_append less_SucI)

lemma add_obj_get [simp]: "get i (add_obj i p L) = Some (length (store L))"
  "store (add_obj i p L) ! length (store L) = p" "length (store L) < length (store (add_obj i p L))"
  by (simp_all add: add_obj_def get_def)

lemma add_obj_other:
  assumes "j \<noteq> i" and "lc_inv L"
  shows "get j (add_obj i p L) = get j L"
    and "get j L = Some r \<Longrightarrow> store (add_obj i p L) ! r = store L ! r"
  using assms lookup_bound [OF assms(2)] by (auto simp: add_obj_def get_def nth_append)

lemma set_obj_add [simp]: "set_obj (length (store L)) f (add_obj i p L) = add_obj i (f p) L"
  by (simp add: set_obj_def add_obj_def)

lemma register_fresh:
  "get (man_id m) L = None \<Longrightarrow>
     register m L = Inr (add_obj (man_id m) \<lparr>pl_manifest = m, pl_state = INSTALLED, pl_instance = None, pl_error = None\<rparr> L)"
  by (simp add: register_def get_def mhas_iff add_obj_def)

lemma mget_add_obj [simp]: "mget (plugins (add_obj i p L)) i = Some (length (store L))"
  by (simp add: add_obj_def)

lemma inject_add [simp]: "inject i x (add_obj i p L) = add_obj i (p\<lparr>pl_instance := Some x\<rparr>) L"
  by (simp add: inject_def)

lemma mark_error_add [simp]:
  "mark_load_error i msg (add_obj i p L) = add_obj i (p\<lparr>pl_state := ERROR, pl_error := Some (LoadFailed msg)\<rparr>) L"
  by (simp add: mark_load_error_def)

lemma transition_add:
  "s \<in> set (VALID_TRANSITIONS (pl_state p)) \<Longrightarrow> transitionTo i s (add_obj i p L) = Inr (add_obj i (p\<lparr>pl_state := s\<rparr>) L)"
  by (simp add: transitionTo_def)

text \<open>The state a plugin ends in after the start-up loop.\<close>

definition startup_state :: "host_fs \<Rightarrow> (jstr \<Rightarrow> module_result) \<Rightarrow> (jstr \<Rightarrow> behaviour) \<Rightarrow> jstr \<Rightarrow> PluginManifest \<Rightarrow> PluginState" where
  "startup_state fs run beh dir m =
     (case load_module fs run dir m of
        Inl _ \<Rightarrow> ERROR
      | Inr _ \<Rightarrow> if on_init (beh (man_id m)) \<noteq> None then ERROR
                else if on_start (beh (man_id m)) \<noteq> None then STOPPED else RUNNING)"

definition loaded_ok :: "host_fs \<Rightarrow> (jstr \<Rightarrow> module_result) \<Rightarrow> jstr \<Rightarrow> PluginManifest \<Rightarrow> bool" where
  "loaded_ok fs run dir m \<longleftrightarrow> (\<exists>x. load_module fs run dir m = Inr x)"

lemma start_one_effect:
  assumes "get (man_id m) (lm ld) = None"
  shows "\<exists>p. lm (start_one fs run beh dir m ld) = add_obj (man_id m) p (lm ld)
      \<and> pl_manifest p = m \<and> obj_ok p \<and> pl_state p = startup_state fs run beh dir m
      \<and> sandboxes (start_one fs run beh dir m ld) =
          (if loaded_ok fs run dir m then mput (man_id m) (next_sandbox ld) (sandboxes ld)
           else mdel (man_id m) (mput (man_id m) (next_sandbox ld) (sandboxes ld)))"
proof (cases "load_module fs run dir m")
  case (Inl msg)
  with assms show ?thesis
    by (intro exI [of _ "\<lparr>pl_manifest = m, pl_state = ERROR, pl_instance = None, pl_error = Some (LoadFailed msg)\<rparr>"])
      (simp add: start_one_def loadPlugin_def register_fresh startup_state_def loaded_ok_def obj_ok_def Let_def)
next
  case (Inr inst)
  let ?i = "man_id m" and ?p = "\<lambda>s e. \<lparr>pl_manifest = m, pl_state = s, pl_instance = Some inst, pl_error = e\<rparr>"
  have load: "loadPlugin fs run dir m ld = (None, ld\<lparr>lm := add_obj ?i (?p INSTALLED None) (lm ld),
      sandboxes := mput ?i (next_sandbox ld) (sandboxes ld), next_sandbox := Suc (next_sandbox ld)\<rparr>)"
    using assms Inr by (simp add: loadPlugin_def register_fresh Let_def)
  have init: "init_plugin ?i out (add_obj ?i (?p INSTALLED None) (lm ld)) =
     (case out of None \<Rightarrow> (None, add_obj ?i (?p LOADING None) (lm ld))
      | Some msg \<Rightarrow> (Some (PluginThrew msg), add_obj ?i (?p ERROR (Some (InitFailed msg))) (lm ld)))" for out
    by (simp add: init_plugin_def init_begin_def init_end_def transition_add VALID_TRANSITIONS_def split: option.split)
  have start: "snd (start_plugin ?i out (add_obj ?i (?p LOADING None) (lm ld))) =
     (case out of None \<Rightarrow> add_obj ?i (?p RUNNING None) (lm ld)
      | Some msg \<Rightarrow> add_obj ?i (?p STOPPED (Some (StartFailed (PluginThrew msg)))) (lm ld))" for out
    by (simp add: start_plugin_def start_begin_def start_end_def transition_add VALID_TRANSITIONS_def
        split: option.split)
  show ?thesis
    using Inr
    by (auto simp: start_one_def load init start startup_state_def loaded_ok_def obj_ok_def split: option.split)
qed

lemma startup_loop:
  assumes "lc_inv (lm ld)" and "distinct (map man_id ms)" and "\<forall>m\<in>set ms. get (man_id m) (lm ld) = None"
  shows "let ld' = fold (start_one fs run beh dir) ms ld in
      (\<forall>m\<in>set ms. \<exists>r. get (man_id m) (lm ld') = Some r \<and> pl_state (store (lm ld') ! r) = startup_state fs run beh dir m
          \<and> (mget (sandboxes ld') (man_id m) \<noteq> None \<longleftrightarrow> loaded_ok fs run dir m))
    \<and> (\<forall>j. j \<notin> man_id ` set ms \<longrightarrow> get j (lm ld') = get j (lm ld) \<and> mget (sandboxes ld') j = mget (sandboxes ld) j
          \<and> (\<forall>r. get j (lm ld) = Some r \<longrightarrow> store (lm ld') ! r = store (lm ld) ! r))"
  using assms
proof (induction ms arbitrary: ld)
  case (Cons m ms)
  let ?ld1 = "start_one fs run beh dir m ld"
  obtain p where p: "lm ?ld1 = add_obj (man_id m) p (lm ld)" "pl_manifest p = m" "obj_ok p"
    "pl_state p = startup_state fs run beh dir m"
    "sandboxes ?ld1 = (if loaded_ok fs run dir m then mput (man_id m) (next_sandbox ld) (sandboxes ld)
        else mdel (man_id m) (mput (man_id m) (next_sandbox ld) (sandboxes ld)))"
    using start_one_effect [of m ld fs run beh dir] Cons.prems(3) by auto
  have inv1: "lc_inv (lm ?ld1)" unfolding p(1) by (rule add_obj_inv) (simp_all add: p Cons.prems)
  have fresh: "\<forall>m'\<in>set ms. get (man_id m') (lm ?ld1) = None"
  proof
    fix m' assume "m' \<in> set ms"
    with Cons.prems(2) have "man_id m' \<noteq> man_id m" by (auto simp: image_iff)
    with add_obj_other(1) [OF this Cons.prems(1)] Cons.prems(3) \<open>m' \<in> set ms\<close>
    show "get (man_id m') (lm ?ld1) = None" by (simp add: p(1))
  qed
  note IH = Cons.IH [OF inv1 _ fresh, unfolded Let_def]
  have here: "get (man_id m) (lm ?ld1) = Some (length (store (lm ld)))"
    "pl_state (store (lm ?ld1) ! length (store (lm ld))) = startup_state fs run beh dir m"
    "mget (sandboxes ?ld1) (man_id m) \<noteq> None \<longleftrightarrow> loaded_ok fs run dir m"
    by (simp_all add: p)
  have other: "get j (lm ?ld1) = get j (lm ld)" "mget (sandboxes ?ld1) j = mget (sandboxes ld) j"
    "get j (lm ld) = Some r \<Longrightarrow> store (lm ?ld1) ! r = store (lm ld) ! r" if "j \<noteq> man_id m" for j r
    using add_obj_other [OF that Cons.prems(1)] that by (simp_all add: p)
  show ?case
    using IH Cons.prems(2) here other by (auto simp: Let_def)
qed simp

section \<open>Properties\<close>


text \<open>
  A plugin whose load failed, or that was stopped, cannot be loaded again: the guard of
  \<open>loadPlugin\<close> lets the states STOPPED and ERROR through, but the registration that follows refuses every
  identifier that is still registered, so loading a registered plugin fails in every state and changes
  nothing.
\<close>

theorem registered_plugin_not_reloadable:
  assumes "get (man_id m) (lm ld) = Some r"
  shows "loadPlugin fs run dir m ld =
     (Some (if pl_state (store (lm ld) ! r) \<in> {STOPPED, ERROR} then RegisterFailed (AlreadyRegistered (man_id m))
            else AlreadyLoaded (pl_state (store (lm ld) ! r))), ld)"
  using assms by (auto simp: loadPlugin_def register_def mhas_iff get_def Let_def)

lemma stop_plugin_ok:
  assumes "lc_inv L" and "get i L = Some r" and "pl_state (store L ! r) \<in> {RUNNING, LOADING}"
  shows "fst (stop_plugin i out L) = None \<and> plugins (snd (stop_plugin i out L)) = plugins L
    \<and> length (store (snd (stop_plugin i out L))) = length (store L)"
proof -
  have b: "r < length (store L)" using assms by (simp add: lc_inv_def get_def)
  then have "pl_instance (store L ! r) \<noteq> None" using assms by (auto simp: lc_inv_def obj_ok_def)
  then show ?thesis
    using assms(2,3) b
    by (cases out)
      (auto simp: stop_plugin_def stop_begin_def stop_end_def transitionTo_def VALID_TRANSITIONS_def get_def
        set_obj_def Let_def)
qed

lemma destroy_plugin_ok:
  assumes "get i L = Some r" and "r < length (store L)"
  shows "fst (destroy_plugin i out L) = None \<and> plugins (snd (destroy_plugin i out L)) = plugins L
    \<and> pl_instance (store (snd (destroy_plugin i out L)) ! r) = None"
  using assms
  by (cases out; cases "pl_instance (store L ! r)")
    (auto simp: destroy_plugin_def destroy_begin_def destroy_end_def destroy_finish_def get_def set_obj_def)

text \<open>Unloading always succeeds and is complete: from any consistent state a registered plugin is
  unregistered and its sandbox destroyed, whatever its stop and destroy methods throw, the other
  plugins keep their objects and sandboxes, and the plugin can be loaded again.
\<close>

theorem unload_removes_plugin:
  assumes "lc_inv (lm ld)" and "get i (lm ld) = Some r"
  shows "fst (unloadPlugin i sp dp ld) = None
       \<and> get i (lm (snd (unloadPlugin i sp dp ld))) = None
       \<and> mget (sandboxes (snd (unloadPlugin i sp dp ld))) i = None
       \<and> (\<forall>sb. mget (sandboxes ld) i = Some sb \<longrightarrow> sb \<in> set (destroyed (snd (unloadPlugin i sp dp ld))))
       \<and> (\<forall>j. j \<noteq> i \<longrightarrow> get j (lm (snd (unloadPlugin i sp dp ld))) = get j (lm ld)
              \<and> mget (sandboxes (snd (unloadPlugin i sp dp ld))) j = mget (sandboxes ld) j)
       \<and> (\<forall>m. man_id m = i \<longrightarrow> loaded_ok fs run dir m \<longrightarrow>
              fst (loadPlugin fs run dir m (snd (unloadPlugin i sp dp ld))) = None)"
proof -
  let ?busy = "pl_state (store (lm ld) ! r) = RUNNING \<or> pl_state (store (lm ld) ! r) = LOADING"
  have b: "r < length (store (lm ld))" using assms by (simp add: lc_inv_def get_def)
  obtain L1 where L1: "(if ?busy then stop_plugin i sp (lm ld) else (None, lm ld)) = (None, L1)"
    and same1: "plugins L1 = plugins (lm ld)" "length (store L1) = length (store (lm ld))"
  proof (cases ?busy)
    case True
    with stop_plugin_ok [OF assms, of sp] that [of "snd (stop_plugin i sp (lm ld))"] show ?thesis
      by (auto simp: prod_eq_iff)
  next
    case False
    with that show ?thesis by auto
  qed
  have "get i L1 = Some r" "r < length (store L1)" using assms(2) b same1 by (simp_all add: get_def)
  from destroy_plugin_ok [OF this, of dp] obtain L2 where L2: "destroy_plugin i dp L1 = (None, L2)"
    and same2: "plugins L2 = plugins L1" "pl_instance (store L2 ! r) = None"
    using that [of "snd (destroy_plugin i dp L1)"] by (auto simp: prod_eq_iff)
  have un: "unregister i L2 = Inr (L2\<lparr>plugins := mdel i (plugins L2)\<rparr>)"
    using assms(2) same1 same2 by (simp add: unregister_def get_def)
  let ?ld1 = "case mget (sandboxes ld) i of None \<Rightarrow> ld\<lparr>lm := L2\<rparr>
      | Some sb \<Rightarrow> ld\<lparr>lm := L2, destroyed := sb # destroyed ld, sandboxes := mdel i (sandboxes ld)\<rparr>"
  have eq: "unloadPlugin i sp dp ld = (None, ?ld1\<lparr>lm := L2\<lparr>plugins := mdel i (plugins L2)\<rparr>\<rparr>)"
    using assms(2) L1 L2 un by (simp add: unloadPlugin_def Let_def)
  then show ?thesis
    using same1 same2
    by (auto simp: get_def loadPlugin_def register_fresh loaded_ok_def Let_def mdel_absent split: option.split)
qed

section \<open>Invocation\<close>

lemma invoke_ok_iff:
  "invoke callf i meth args L = Inr v \<longleftrightarrow>
     (\<exists>r inst. get i L = Some r \<and> pl_state (store L ! r) = RUNNING \<and> pl_instance (store L ! r) = Some inst
        \<and> callf inst meth args = Returns v)"
  by (auto simp: invoke_def split: option.split call_result.split)

text \<open>The envelope as the structured clone of a message carries it.\<close>

definition envelope_json :: "ipc_envelope \<Rightarrow> json" where
  "envelope_json e = JObj ([(js ''id'', JStr (env_id e)), (js ''channel'', JStr (channel_str (env_channel e)))]
     @ (case env_payload e of None \<Rightarrow> [] | Some p \<Rightarrow> [(js ''payload'', p)])
     @ (case env_error e of None \<Rightarrow> [] | Some p \<Rightarrow> [(js ''error'', p)]))"

lemma validate_envelope_json:
  "validateEnvelope (envelope_json e) = (if env_id e = [] then None else Some (e\<lparr>env_source := None\<rparr>))"
  by (cases e) (auto simp: validateEnvelope_def envelope_json_def jfield_def split: option.split)


section \<open>Witnesses\<close>

definition w_manifest_json :: json where
  "w_manifest_json = JObj [(js ''id'', JStr (js ''p'')), (js ''name'', JStr (js ''p'')), (js ''version'', JStr (js ''1'')),
     (js ''main'', JStr (js ''m''))]"

definition w_fs :: host_fs where
  "w_fs = \<lparr>exists_file = (\<lambda>_. True), read_file = Some, parse_json = (\<lambda>_. Some w_manifest_json),
     path_join = (@), read_dir = (\<lambda>_. [(js ''p'', True), (js ''x'', False)])\<rparr>"

definition w_run :: "jstr \<Rightarrow> module_result" where
  "w_run _ = Exports 5 (\<lambda>_. True)"

definition w_beh :: "jstr \<Rightarrow> behaviour" where
  "w_beh _ = \<lparr>on_init = None, on_start = Some (js ''boom'')\<rparr>"

lemma w_scan: "scanPlugins w_fs [] = [w_manifest]"
  by (simp add: scanPlugins_def w_fs_def readManifest_def validateManifest_def w_manifest_json_def
      json_is_object_def nonempty_string_def jfield_def jstr_of_def jarr_of_def w_manifest_def Let_def map_filter_simps)


definition w_loader :: loader where
  "w_loader = new_loader\<lparr>lm := w_lc, sandboxes := [(js ''p'', 0)], next_sandbox := 1\<rparr>"

lemma registered_plugin_not_reloadable_witness:
  "loadPlugin w_fs w_run [] w_manifest w_loader = (Some (AlreadyLoaded INSTALLED), w_loader)"
  using registered_plugin_not_reloadable [of w_manifest w_loader 0 w_fs w_run "[]"]
  by (simp add: w_loader_def get_def w_manifest_def)

lemma unload_removes_plugin_witness:
  "get (js ''p'') (lm (snd (unloadPlugin (js ''p'') None (Some []) w_loader))) = None"
proof -
  have "lc_inv (lm w_loader)" using reach_lc_inv [OF w_lc_reach] by (simp add: w_loader_def)
  moreover have "get (js ''p'') (lm w_loader) = Some 0" by (simp add: w_loader_def get_def)
  ultimately show ?thesis using unload_removes_plugin by blast
qed


end
