(* ===== verification/ProcessManager.thy ===== *)
theory ProcessManager
  imports IpcRouter
begin

text \<open>
  The manager of the child processes (\<open>livedesign/src/main/process-manager.ts\<close>): starting, exit
  handling with delayed restarts, manual stop and restart, shutdown, status. Runtime records and child
  handles are objects that callbacks capture, so both live in stores. The manager works on the state
  of the message router. Forking, identifiers and the clock are parameters of a step.
\<close>

section \<open>State\<close>

record process_config =
  cfg_name :: jstr
  cfg_process :: ProcessId
  cfg_script :: jstr

record child =
  ch_killed :: bool
  ch_connected :: bool
  ch_exited :: bool
  ch_config :: process_config

record runtime =
  run_config :: process_config
  run_child :: "nat option"
  restartCount :: nat
  maxRestarts :: nat
  manuallyStopped :: bool

text \<open>A restart timer holds the captured runtime, the process it reports on, and its delay.\<close>

record pm =
  processes :: "(ProcessId, nat) jmap"
  runtimes :: "runtime list"
  children :: "child list"
  isShuttingDown :: bool
  restarts :: "(nat \<times> ProcessId \<times> nat) list"
  pm_router :: router

record pm_io =
  fork_ok :: bool
  renv :: router_env
  uuid :: jstr
  now :: nat

definition new_pm :: pm where
  "new_pm = \<lparr>processes = [], runtimes = [], children = [], isShuttingDown = False, restarts = [], pm_router = new_router\<rparr>"

text \<open>\<open>replace(/^src[/\\]/, '')\<close> on the relative path.\<close>

definition clean_path :: "jstr \<Rightarrow> jstr" where
  "clean_path p = (if starts_with p (js ''src/'') \<or> starts_with p (js ''src'' @ [92]) then drop 4 p else p)"

definition resolveScriptPath :: "(jstr \<Rightarrow> jstr \<Rightarrow> jstr) \<Rightarrow> bool \<Rightarrow> jstr \<Rightarrow> jstr \<Rightarrow> jstr \<Rightarrow> jstr" where
  "resolveScriptPath resolve development src_dir dist_dir rel =
     resolve (if development then src_dir else dist_dir) (clean_path rel)"

definition llm_config :: "(jstr \<Rightarrow> jstr) \<Rightarrow> process_config" where
  "llm_config script = \<lparr>cfg_name = js ''llm-service'', cfg_process = LLM_SERVICE,
     cfg_script = script (js ''services/llm-service/index.ts'')\<rparr>"

definition plugin_host_config :: "(jstr \<Rightarrow> jstr) \<Rightarrow> process_config" where
  "plugin_host_config script = \<lparr>cfg_name = js ''plugin-host'', cfg_process = PLUGIN_HOST,
     cfg_script = script (js ''services/plugin-host/index.ts'')\<rparr>"

definition set_runtime :: "nat \<Rightarrow> (runtime \<Rightarrow> runtime) \<Rightarrow> pm \<Rightarrow> pm" where
  "set_runtime r f P = P\<lparr>runtimes := (runtimes P)[r := f (runtimes P ! r)]\<rparr>"

definition set_child :: "nat \<Rightarrow> (child \<Rightarrow> child) \<Rightarrow> pm \<Rightarrow> pm" where
  "set_child c f P = P\<lparr>children := (children P)[c := f (children P ! c)]\<rparr>"

text \<open>The send function that a start registers for its child.\<close>

definition child_sender :: "pm \<Rightarrow> (nat \<Rightarrow> ipc_envelope \<Rightarrow> bool) \<Rightarrow> nat \<Rightarrow> ipc_envelope \<Rightarrow> send_outcome" where
  "child_sender P os_send c env =
     (if ch_killed (children P ! c) \<or> \<not> ch_connected (children P ! c) then Refused
      else if os_send c env then Accepted else Refused)"

section \<open>Starting\<close>

text \<open>\<open>fork\<close> may throw; then the promise rejects and nothing has changed.\<close>

definition startProcess :: "bool \<Rightarrow> process_config \<Rightarrow> pm \<Rightarrow> pm option" where
  "startProcess forked config P =
     (if \<not> forked then None
      else
        (let c = length (children P); r = length (runtimes P);
             P1 = P\<lparr>children := children P @ [\<lparr>ch_killed = False, ch_connected = True, ch_exited = False, ch_config = config\<rparr>],
                    runtimes := runtimes P @ [\<lparr>run_config = config, run_child = Some c, restartCount = 0,
                                              maxRestarts = 3, manuallyStopped = False\<rparr>],
                    processes := mput (cfg_process config) r (processes P)\<rparr>
         in case registerChildProcessSender (cfg_process config) c (pm_router P1) of
              Inl _ \<Rightarrow> None
            | Inr rt \<Rightarrow> Some (P1\<lparr>pm_router := rt\<rparr>)))"

definition startLlmService :: "bool \<Rightarrow> (jstr \<Rightarrow> jstr) \<Rightarrow> pm \<Rightarrow> pm option" where
  "startLlmService forked script P = startProcess forked (llm_config script) P"

definition startPluginHost :: "bool \<Rightarrow> (jstr \<Rightarrow> jstr) \<Rightarrow> pm \<Rightarrow> pm option" where
  "startPluginHost forked script P = startProcess forked (plugin_host_config script) P"

section \<open>Messages and notifications\<close>

definition isIpcEnvelope :: "json \<Rightarrow> bool" where
  "isIpcEnvelope j =
     (case (jfield (js ''id'') j, jfield (js ''channel'') j) of
        (Some (JStr i), Some (JStr c)) \<Rightarrow> channel_of c \<noteq> None
      | _ \<Rightarrow> False)"

definition handleChildMessage :: "router_env \<Rightarrow> ProcessId \<Rightarrow> json \<Rightarrow> pm \<Rightarrow> pm" where
  "handleChildMessage e p message P =
     (if isIpcEnvelope message then P\<lparr>pm_router := handleChildProcessMessage e p message (pm_router P)\<rparr> else P)"

definition ready_channel :: "ProcessId \<Rightarrow> IpcChannel" where
  "ready_channel p = (if p = LLM_SERVICE then SERVICE_READY else PLUGIN_HOST_READY)"

definition process_str :: "ProcessId \<Rightarrow> jstr" where
  "process_str p = js (case p of MAIN \<Rightarrow> ''main'' | RENDERER \<Rightarrow> ''renderer''
     | LLM_SERVICE \<Rightarrow> ''llm-service'' | PLUGIN_HOST \<Rightarrow> ''plugin-host'')"

definition notifyProcessReady :: "pm_io \<Rightarrow> ProcessId \<Rightarrow> pm \<Rightarrow> pm" where
  "notifyProcessReady io p P = P\<lparr>pm_router := router_send (renv io) (uuid io) RENDERER (ready_channel p)
     (Some (JObj [(js ''processId'', JStr (process_str p)), (js ''ready'', JBool True),
                  (js ''timestamp'', JNum (Fin (of_nat (now io))))])) (pm_router P)\<rparr>"

definition notifyProcessDown :: "pm_io \<Rightarrow> ProcessId \<Rightarrow> nat option \<Rightarrow> pm \<Rightarrow> pm" where
  "notifyProcessDown io p code P = P\<lparr>pm_router := router_send (renv io) (uuid io) RENDERER (ready_channel p)
     (Some (JObj [(js ''processId'', JStr (process_str p)), (js ''ready'', JBool False),
                  (js ''exitCode'', case code of None \<Rightarrow> JNull | Some n \<Rightarrow> JNum (Fin (of_nat n))),
                  (js ''timestamp'', JNum (Fin (of_nat (now io))))])) (pm_router P)\<rparr>"

section \<open>Exit and restart\<close>

definition restartDelay :: "nat \<Rightarrow> nat" where
  "restartDelay count = min (1000 * count) 5000"

definition handleProcessExit :: "pm_io \<Rightarrow> ProcessId \<Rightarrow> nat option \<Rightarrow> pm \<Rightarrow> pm" where
  "handleProcessExit io p code P =
     (case mget (processes P) p of
        None \<Rightarrow> P
      | Some r \<Rightarrow>
          (let P1 = P\<lparr>pm_router := unregisterChildProcess p (pm_router P)\<rparr>;
               rt = runtimes P1 ! r
           in if manuallyStopped rt \<or> isShuttingDown P1 then P1
              else if restartCount rt \<ge> maxRestarts rt then notifyProcessDown io p code P1
              else (let count = Suc (restartCount rt)
                    in (set_runtime r (restartCount_update (\<lambda>_. count)) P1)
                         \<lparr>restarts := restarts P1 @ [(r, p, restartDelay count)]\<rparr>)))"

text \<open>The exit event of a child: the operating system reports it once.\<close>

definition child_exit :: "pm_io \<Rightarrow> nat \<Rightarrow> nat option \<Rightarrow> pm \<Rightarrow> pm" where
  "child_exit io c code P =
     handleProcessExit io (cfg_process (ch_config (children P ! c))) code
       (set_child c (\<lambda>ch. ch\<lparr>ch_exited := True, ch_connected := False\<rparr>) P)"

text \<open>The callback of the \<open>k\<close>-th restart timer.\<close>

definition restart_fire :: "pm_io \<Rightarrow> nat \<Rightarrow> pm \<Rightarrow> pm" where
  "restart_fire io k P =
     (let (r, p, d) = restarts P ! k;
          P1 = P\<lparr>restarts := take k (restarts P) @ drop (Suc k) (restarts P)\<rparr>
      in if isShuttingDown P1 then P1
         else (case startProcess (fork_ok io) (run_config (runtimes P1 ! r)) P1 of
                 None \<Rightarrow> P1
               | Some P2 \<Rightarrow> notifyProcessReady io p P2))"

definition stopProcess :: "ProcessId \<Rightarrow> pm \<Rightarrow> pm" where
  "stopProcess p P =
     (case mget (processes P) p of
        None \<Rightarrow> P
      | Some r \<Rightarrow>
          (case run_child (runtimes P ! r) of
             None \<Rightarrow> P
           | Some c \<Rightarrow>
               (let P1 = set_runtime r (manuallyStopped_update (\<lambda>_. True)) P;
                    P2 = set_child c (\<lambda>ch. ch\<lparr>ch_connected := False, ch_killed := ch_killed ch \<or> \<not> ch_exited ch\<rparr>) P1
                in P2\<lparr>pm_router := unregisterChildProcess p (pm_router P2)\<rparr>)))"

text \<open>\<open>None\<close>: unknown process. Otherwise the state, and whether the new start succeeded.\<close>

definition restartProcess :: "bool \<Rightarrow> ProcessId \<Rightarrow> pm \<Rightarrow> (bool \<times> pm) option" where
  "restartProcess forked p P =
     (case mget (processes P) p of
        None \<Rightarrow> None
      | Some r \<Rightarrow>
          (let P1 = set_runtime r (\<lambda>rt. rt\<lparr>manuallyStopped := False, restartCount := 0\<rparr>) (stopProcess p P)
           in case startProcess forked (run_config (runtimes P1 ! r)) P1 of
                None \<Rightarrow> Some (False, P1) | Some P2 \<Rightarrow> Some (True, P2)))"

definition stopAll :: "pm \<Rightarrow> pm" where
  "stopAll P = (fold stopProcess (mkeys (processes P)) (P\<lparr>isShuttingDown := True\<rparr>))\<lparr>processes := []\<rparr>"

section \<open>Status\<close>

record process_status =
  st_running :: bool
  st_restartCount :: nat
  st_pid :: "nat option"

definition getProcessStatus :: "ProcessId \<Rightarrow> pm \<Rightarrow> process_status" where
  "getProcessStatus p P =
     (case mget (processes P) p of
        None \<Rightarrow> \<lparr>st_running = False, st_restartCount = 0, st_pid = None\<rparr>
      | Some r \<Rightarrow>
          \<lparr>st_running = (case run_child (runtimes P ! r) of
              None \<Rightarrow> False | Some c \<Rightarrow> \<not> ch_killed (children P ! c) \<and> ch_connected (children P ! c)),
           st_restartCount = restartCount (runtimes P ! r), st_pid = run_child (runtimes P ! r)\<rparr>)"

definition getAllStatuses :: "pm \<Rightarrow> (jstr \<times> ProcessId \<times> process_status) list" where
  "getAllStatuses P = map (\<lambda>(p, r). (cfg_name (run_config (runtimes P ! r)), p, getProcessStatus p P)) (processes P)"

section \<open>Crashes\<close>

text \<open>A process in service: its runtime is current, its child alive and connected.\<close>

definition in_service :: "ProcessId \<Rightarrow> nat \<Rightarrow> pm \<Rightarrow> bool" where
  "in_service p c P \<longleftrightarrow> (\<exists>r. mget (processes P) p = Some r \<and> r < length (runtimes P) \<and> c < length (children P)
     \<and> run_child (runtimes P ! r) = Some c \<and> \<not> manuallyStopped (runtimes P ! r)
     \<and> restartCount (runtimes P ! r) = 0 \<and> maxRestarts (runtimes P ! r) = 3
     \<and> cfg_process (run_config (runtimes P ! r)) = p \<and> ch_config (children P ! c) = run_config (runtimes P ! r)
     \<and> \<not> ch_killed (children P ! c) \<and> ch_connected (children P ! c)) \<and> \<not> isShuttingDown P \<and> restarts P = []"

text \<open>One crash of the current child, and the timer it sets.\<close>

definition crash_cycle :: "pm_io \<Rightarrow> nat \<Rightarrow> pm \<Rightarrow> pm" where
  "crash_cycle io c P = restart_fire io 0 (child_exit io c (Some 1) P)"

lemma start_frame:
  assumes "startProcess forked config P = Some P'"
  shows "children P' = children P @ [\<lparr>ch_killed = False, ch_connected = True, ch_exited = False, ch_config = config\<rparr>]
    \<and> runtimes P' = runtimes P @ [\<lparr>run_config = config, run_child = Some (length (children P)), restartCount = 0,
         maxRestarts = 3, manuallyStopped = False\<rparr>]
    \<and> processes P' = mput (cfg_process config) (length (runtimes P)) (processes P)
    \<and> isShuttingDown P' = isShuttingDown P \<and> restarts P' = restarts P
    \<and> mget (childProcessSenders (pm_router P')) (cfg_process config) = Some (length (children P))"
  using assms
  by (auto simp: startProcess_def registerChildProcessSender_def Let_def split: if_splits sum.splits)

lemma start_ok: "\<not> core_process (cfg_process config) \<Longrightarrow> \<exists>P'. startProcess True config P = Some P'"
  by (auto simp: startProcess_def registerChildProcessSender_def Let_def)

lemma notify_frame [simp]:
  "processes (notifyProcessReady io p P) = processes P" "runtimes (notifyProcessReady io p P) = runtimes P"
  "children (notifyProcessReady io p P) = children P" "isShuttingDown (notifyProcessReady io p P) = isShuttingDown P"
  "restarts (notifyProcessReady io p P) = restarts P"
  by (simp_all add: notifyProcessReady_def)

lemma crash_cycle_step:
  assumes "in_service p c P" and "\<not> core_process p" and "fork_ok io"
  shows "in_service p (length (children P)) (crash_cycle io c P)
    \<and> length (children (crash_cycle io c P)) = Suc (length (children P))"
proof -
  obtain r where r: "mget (processes P) p = Some r" "r < length (runtimes P)" "c < length (children P)"
    "run_child (runtimes P ! r) = Some c" "\<not> manuallyStopped (runtimes P ! r)"
    "restartCount (runtimes P ! r) = 0" "maxRestarts (runtimes P ! r) = 3"
    "cfg_process (run_config (runtimes P ! r)) = p" "ch_config (children P ! c) = run_config (runtimes P ! r)"
    and sd: "\<not> isShuttingDown P" "restarts P = []"
    using assms(1) by (auto simp: in_service_def)
  let ?E = "child_exit io c (Some 1) P"
  have E: "restarts ?E = [(r, p, 1000)]" "\<not> isShuttingDown ?E" "processes ?E = processes P"
    "length (runtimes ?E) = length (runtimes P)" "length (children ?E) = length (children P)"
    "run_config (runtimes ?E ! r) = run_config (runtimes P ! r)"
    using r sd by (auto simp: child_exit_def handleProcessExit_def set_child_def set_runtime_def restartDelay_def Let_def)
  obtain P2 where P2: "startProcess True (run_config (runtimes P ! r)) (?E\<lparr>restarts := []\<rparr>) = Some P2"
    using start_ok assms(2) r(8) by blast
  have cyc: "crash_cycle io c P = notifyProcessReady io p P2"
    using E P2 assms(3) by (simp add: crash_cycle_def restart_fire_def Let_def)
  from start_frame [OF P2] E sd r(8) show ?thesis
    by (auto simp: cyc in_service_def nth_append)
qed

text \<open>A series of crashes, each of the child that the previous restart started.\<close>

fun crash_all :: "pm_io list \<Rightarrow> nat \<Rightarrow> pm \<Rightarrow> pm" where
  "crash_all [] c P = P"
| "crash_all (io # ios) c P = crash_all ios (length (children P)) (crash_cycle io c P)"

section \<open>Events after shutdown\<close>

datatype pm_event = ExitEvent pm_io nat "nat option" | TimerEvent pm_io nat | MessageEvent router_env ProcessId json

definition pm_event :: "pm_event \<Rightarrow> pm \<Rightarrow> pm" where
  "pm_event ev P = (case ev of
      ExitEvent io c code \<Rightarrow> if c < length (children P) then child_exit io c code P else P
    | TimerEvent io k \<Rightarrow> if k < length (restarts P) then restart_fire io k P else P
    | MessageEvent e p j \<Rightarrow> handleChildMessage e p j P)"

lemma stopProcess_frame:
  "isShuttingDown (stopProcess p P) = isShuttingDown P \<and> length (children (stopProcess p P)) = length (children P)
    \<and> length (runtimes (stopProcess p P)) = length (runtimes P) \<and> restarts (stopProcess p P) = restarts P
    \<and> processes (stopProcess p P) = processes P"
  by (simp add: stopProcess_def set_runtime_def set_child_def Let_def split: option.split)

lemma stopAll_frame:
  "isShuttingDown (stopAll P) \<and> length (children (stopAll P)) = length (children P) \<and> processes (stopAll P) = []"
proof -
  have "isShuttingDown (fold stopProcess ps Q) = isShuttingDown Q
      \<and> length (children (fold stopProcess ps Q)) = length (children Q)" for ps Q
    by (induction ps arbitrary: Q) (simp_all add: stopProcess_frame)
  from this [of "mkeys (processes P)" "P\<lparr>isShuttingDown := True\<rparr>"] show ?thesis by (simp add: stopAll_def)
qed

lemma event_after_shutdown:
  assumes "isShuttingDown P" and "processes P = []"
  shows "isShuttingDown (pm_event ev P) \<and> processes (pm_event ev P) = []
    \<and> length (children (pm_event ev P)) = length (children P)"
  using assms
  by (cases ev) (auto simp: pm_event_def child_exit_def handleProcessExit_def set_child_def restart_fire_def
      handleChildMessage_def Let_def split: prod.split)

text \<open>A manager that is shut down provides the contract: the number of started children is observed.\<close>

interpretation pm_down: shut_down "\<lambda>P. isShuttingDown P \<and> processes P = []" pm_event "\<lambda>P. length (children P)"
  by unfold_locales (simp_all add: event_after_shutdown)

section \<open>Properties\<close>

text \<open>The limit of three restarts is never reached: however often a process in service crashes,
  each restart succeeds and installs a new runtime whose counter is zero, so after any number of
  crashes the process is running again, its restart count reads zero, one more child has been forked per
  crash, and the manager never gives up.
\<close>

theorem restart_limit_never_reached:
  assumes "in_service p c P" and "\<not> core_process p" and "\<forall>io\<in>set ios. fork_ok io"
  shows "getProcessStatus p (crash_all ios c P) =
      \<lparr>st_running = True, st_restartCount = 0,
       st_pid = Some (if ios = [] then c else length (children P) + length ios - 1)\<rparr>
    \<and> length (children (crash_all ios c P)) = length (children P) + length ios"
  using assms
proof (induction ios arbitrary: c P)
  case Nil
  then show ?case by (auto simp: in_service_def getProcessStatus_def)
next
  case (Cons io ios)
  from crash_cycle_step [of p c P io] Cons.prems
  have "in_service p (length (children P)) (crash_cycle io c P)"
    "length (children (crash_cycle io c P)) = Suc (length (children P))" by auto
  with Cons.IH [of "length (children P)" "crash_cycle io c P"] Cons.prems show ?case by auto
qed

text \<open>
  A manual restart starts the process twice: the exit event of the old child arrives after the
  new runtime is installed, so it is taken for a crash of the new one. The new child loses its send
  function, a restart is scheduled, and when its timer fires a second child is started while the first
  still lives.
\<close>

theorem manual_restart_starts_twice:
  assumes "in_service p c P" and "\<not> core_process p" and "fork_ok io2" and "restartProcess True p P = Some (ok, P1)"
  shows "let n = length (children P); P2 = child_exit io1 c None P1; P3 = restart_fire io2 0 P2
         in ok \<and> st_pid (getProcessStatus p P1) = Some n \<and> st_running (getProcessStatus p P1)
          \<and> mget (childProcessSenders (pm_router P2)) p = None
          \<and> length (children P3) = n + 2
          \<and> (\<forall>k\<in>{n, n + 1}. ch_connected (children P3 ! k) \<and> \<not> ch_killed (children P3 ! k))"
proof -
  obtain r where r: "mget (processes P) p = Some r" "r < length (runtimes P)" "c < length (children P)"
    "run_child (runtimes P ! r) = Some c" "cfg_process (run_config (runtimes P ! r)) = p"
    "ch_config (children P ! c) = run_config (runtimes P ! r)"
    and sd: "\<not> isShuttingDown P" "restarts P = []"
    using assms(1) by (auto simp: in_service_def)
  let ?S = "set_runtime r (\<lambda>rt. rt\<lparr>manuallyStopped := False, restartCount := 0\<rparr>) (stopProcess p P)"
  have S: "length (children ?S) = length (children P)" "length (runtimes ?S) = length (runtimes P)"
    "restarts ?S = []" "\<not> isShuttingDown ?S" "run_config (runtimes ?S ! r) = run_config (runtimes P ! r)"
    "ch_config (children ?S ! c) = run_config (runtimes P ! r)" "processes ?S = processes P"
    using r sd by (auto simp: stopProcess_def set_runtime_def set_child_def Let_def)
  obtain Q where Q: "startProcess True (run_config (runtimes P ! r)) ?S = Some Q"
    using start_ok assms(2) r(5) by blast
  with assms(4) r(1) S(5) have P1: "P1 = Q" "ok" by (simp_all add: restartProcess_def Let_def)
  note f1 = start_frame [OF Q]
  let ?n = "length (children P)" and ?m = "length (runtimes P)"
  let ?P2 = "child_exit io1 c None Q"
  have P2: "restarts ?P2 = [(?m, p, 1000)]" "\<not> isShuttingDown ?P2" "length (children ?P2) = Suc ?n"
    "run_config (runtimes ?P2 ! ?m) = run_config (runtimes P ! r)"
    "ch_connected (children ?P2 ! ?n) \<and> \<not> ch_killed (children ?P2 ! ?n)"
    "mget (childProcessSenders (pm_router ?P2)) p = None"
    using f1 S r
    by (auto simp: child_exit_def handleProcessExit_def set_child_def set_runtime_def restartDelay_def Let_def
        nth_append unregisterChildProcess_def)
  obtain P3 where P3: "startProcess True (run_config (runtimes P ! r)) (?P2\<lparr>restarts := []\<rparr>) = Some P3"
    using start_ok assms(2) r(5) by blast
  have "restart_fire io2 0 ?P2 = notifyProcessReady io2 p P3"
    using P2 P3 assms(3) by (simp add: restart_fire_def Let_def)
  with start_frame [OF P3] P2 f1 S r(5) P1 show ?thesis
    by (auto simp: Let_def getProcessStatus_def nth_append)
qed

text \<open>
  C2: Shutdown is final: after \<open>stopAll\<close>, no sequence of exit events, restart timers that were
  already armed, and messages starts another child process.
\<close>

theorem no_start_after_stopAll:
  "length (children (fold pm_event evs (stopAll P))) = length (children P)"
  using pm_down.run_obs [of "stopAll P" evs] stopAll_frame [of P] by simp

text \<open>
  A process that was stopped by hand stays down: its exit event, whatever the code, schedules
  no restart and sends no notification, and the status reads not running.
\<close>

theorem stopped_process_stays_down:
  assumes "in_service p c P"
  shows "restarts (child_exit io c code (stopProcess p P)) = []
    \<and> \<not> st_running (getProcessStatus p (child_exit io c code (stopProcess p P)))
    \<and> rt_next (pm_router (child_exit io c code (stopProcess p P))) = rt_next (pm_router P)"
  using assms
  by (auto simp: in_service_def child_exit_def stopProcess_def handleProcessExit_def set_runtime_def set_child_def
      getProcessStatus_def unregisterChildProcess_def Let_def)

section \<open>Witnesses\<close>

definition w_pm :: pm where
  "w_pm = the (startLlmService True id new_pm)"

definition w_io :: pm_io where
  "w_io = \<lparr>fork_ok = True, renv = w_env, uuid = [1], now = 0\<rparr>"

lemma w_in_service: "in_service LLM_SERVICE 0 w_pm"
  by (simp add: w_pm_def startLlmService_def startProcess_def llm_config_def new_pm_def Let_def
      registerChildProcessSender_def core_process_def in_service_def)

lemma w_not_core: "\<not> core_process LLM_SERVICE"
  by (simp add: core_process_def)

lemma restart_limit_never_reached_witness:
  "st_restartCount (getProcessStatus LLM_SERVICE (crash_all [w_io, w_io, w_io, w_io, w_io] 0 w_pm)) = 0"
  using restart_limit_never_reached [OF w_in_service w_not_core, of "[w_io, w_io, w_io, w_io, w_io]"]
  by (simp add: w_io_def)

lemma manual_restart_starts_twice_witness:
  "\<exists>P1. restartProcess True LLM_SERVICE w_pm = Some (True, P1)
     \<and> length (children (restart_fire w_io 0 (child_exit w_io 0 None P1))) = 3"
proof -
  obtain ok P1 where P1: "restartProcess True LLM_SERVICE w_pm = Some (ok, P1)"
    using w_in_service
    by (cases "restartProcess True LLM_SERVICE w_pm")
      (auto simp: restartProcess_def in_service_def Let_def split: option.splits)
  have "length (children w_pm) = 1"
    by (simp add: w_pm_def startLlmService_def startProcess_def llm_config_def new_pm_def Let_def
        registerChildProcessSender_def core_process_def)
  with manual_restart_starts_twice [OF w_in_service w_not_core _ P1, of w_io w_io] P1 show ?thesis
    by (simp add: w_io_def Let_def)
qed

lemma stopped_process_stays_down_witness:
  "restarts (child_exit w_io 0 None (stopProcess LLM_SERVICE w_pm)) = []"
  using stopped_process_stays_down [OF w_in_service] by blast

end
