(* ===== verification/StreamParser.thy ===== *)
theory StreamParser
  imports RequestTable
begin

text \<open>
  The parser of streamed model responses (\<open>livedesign/src/llm-service/stream-parser.ts\<close>): server-sent
  events cut out of arbitrary text chunks, their interpretation as response deltas, and the reading
  loop. The JSON parser and the printing of non-string content are parameters; the chunk callback is
  a log and does not throw.
\<close>

section \<open>Lines\<close>

text \<open>Splitting a text that arrives in two parts.\<close>

lemma split_at_append:
  "split_at d (s @ t) = butlast (split_at d s) @ split_at d (last (split_at d s) @ t)"
proof (induction s)
  case (Cons c s)
  show ?case
  proof (cases "c = d")
    case True
    with Cons show ?thesis by simp
  next
    case False
    obtain w ws where w: "split_at d s = w # ws" by (cases "split_at d s") simp_all
    show ?thesis
    proof (cases ws)
      case Nil
      with w Cons False show ?thesis by simp
    next
      case (Cons w' ws')
      with w \<open>split_at d (s @ t) = _\<close> False show ?thesis by (simp split: list.split)
    qed
  qed
qed simp

lemma split_at_parts: "d \<notin> set (last (split_at d s))"
  by (induction s) (auto split: list.splits if_splits)

section \<open>The event parser\<close>

datatype sse_event = OnData jstr | OnDone

definition processLine :: "jstr \<Rightarrow> sse_event list" where
  "processLine line =
     (let trimmed = trim line
      in if trimmed = [] then []
         else if starts_with trimmed (js ''data:'')
         then (let data = trim (drop 5 trimmed)
               in if data = js ''[DONE]'' then [OnDone] else [OnData data])
         else [])"

text \<open>The state is the buffer. A call of \<open>feed\<close> returns the callbacks it makes, in order.\<close>

definition sse_feed :: "jstr \<Rightarrow> jstr \<Rightarrow> sse_event list \<times> jstr" where
  "sse_feed chunk buffer =
     (let pieces = split_at 10 (buffer @ chunk)
      in (concat (map processLine (butlast pieces)), last pieces))"

definition sse_reset :: "jstr \<Rightarrow> jstr" where
  "sse_reset buffer = []"

fun sse_feed_all :: "jstr list \<Rightarrow> jstr \<Rightarrow> sse_event list \<times> jstr" where
  "sse_feed_all [] buffer = ([], buffer)"
| "sse_feed_all (c # cs) buffer =
     (let (es, b1) = sse_feed c buffer; (es', b2) = sse_feed_all cs b1 in (es @ es', b2))"

lemma sse_feed_append:
  "sse_feed (a @ b) buffer =
     (fst (sse_feed a buffer) @ fst (sse_feed b (snd (sse_feed a buffer))), snd (sse_feed b (snd (sse_feed a buffer))))"
  using split_at_append [of 10 "buffer @ a" b]
  by (simp add: sse_feed_def Let_def butlast_append)

lemma sse_feed_Nil: "10 \<notin> set buffer \<Longrightarrow> sse_feed [] buffer = ([], buffer)"
  by (simp add: sse_feed_def split_at_no_sep)

lemma sse_feed_concat:
  "10 \<notin> set buffer \<Longrightarrow> sse_feed_all cs buffer = sse_feed (concat cs) buffer"
proof (induction cs arbitrary: buffer)
  case (Cons c cs)
  have "10 \<notin> set (snd (sse_feed c buffer))" by (simp add: sse_feed_def Let_def split_at_parts)
  from Cons.IH [OF this] show ?case by (simp add: sse_feed_append case_prod_beta' Let_def)
qed (simp add: sse_feed_Nil)

section \<open>Response deltas\<close>

record StreamChunk =
  chunk_text :: jstr
  chunk_delta :: jstr
  chunk_done :: bool

text \<open>The property of a value that may be undefined: \<open>None\<close> when reading it throws.\<close>

definition read_prop :: "jstr \<Rightarrow> json option \<Rightarrow> json option option" where
  "read_prop k j = (case j of None \<Rightarrow> None | Some JNull \<Rightarrow> None | Some v \<Rightarrow> Some (jfield k v))"

definition falsy :: "json option \<Rightarrow> bool" where
  "falsy j = (case j of None \<Rightarrow> True | Some JNull \<Rightarrow> True | Some (JBool b) \<Rightarrow> \<not> b
     | Some (JNum n) \<Rightarrow> n = Fin 0 \<or> n = NaN | Some (JStr s) \<Rightarrow> s = [] | _ \<Rightarrow> False)"

definition first_choice :: "json \<Rightarrow> json option" where
  "first_choice cs = (case cs of
      JArr (c # _) \<Rightarrow> Some c
    | JStr (c # _) \<Rightarrow> Some (JStr [c])
    | JObj fs \<Rightarrow> jfield (js ''0'') cs
    | _ \<Rightarrow> None)"

definition empty_choices :: "json \<Rightarrow> bool" where
  "empty_choices cs = (case cs of JArr [] \<Rightarrow> True | JStr [] \<Rightarrow> True
     | JObj fs \<Rightarrow> jfield (js ''length'') cs = Some (JNum (Fin 0)) | _ \<Rightarrow> False)"

text \<open>
  The body of the \<open>try\<close> on a parsed value: nothing to report, a content delta with the done flag, or an
  exception. A finish reason that is absent counts as done, only null does not.
\<close>

datatype delta_result = Skip | Delta jstr bool | Throws

definition read_delta :: "(json \<Rightarrow> jstr) \<Rightarrow> json \<Rightarrow> delta_result" where
  "read_delta to_str parsed =
     (case read_prop (js ''choices'') (Some parsed) of
        None \<Rightarrow> Throws
      | Some choices \<Rightarrow>
          (if falsy choices \<or> empty_choices (the choices) then Skip
           else (case read_prop (js ''delta'') (first_choice (the choices)) of
               None \<Rightarrow> Throws
             | Some delta \<Rightarrow>
                 (case (read_prop (js ''finish_reason'') (first_choice (the choices)), read_prop (js ''content'') delta) of
                    (Some finish, Some content) \<Rightarrow>
                      Delta (if falsy content then [] else (case the content of JStr s \<Rightarrow> s | j \<Rightarrow> to_str j)) (finish \<noteq> Some JNull)
                  | _ \<Rightarrow> Throws))))"

record json_io =
  parse_text :: "jstr \<Rightarrow> json option"
  print_json :: "json \<Rightarrow> jstr"

text \<open>The state is the accumulated text; each call reports at most one chunk.\<close>

definition handleData :: "json_io \<Rightarrow> jstr \<Rightarrow> jstr \<Rightarrow> StreamChunk list \<times> jstr" where
  "handleData io data acc =
     (case (case parse_text io data of None \<Rightarrow> Throws | Some j \<Rightarrow> read_delta (print_json io) j) of
        Skip \<Rightarrow> ([], acc)
      | Delta s d \<Rightarrow> ([\<lparr>chunk_text = acc @ s, chunk_delta = s, chunk_done = d\<rparr>], acc @ s)
      | Throws \<Rightarrow> ([\<lparr>chunk_text = acc @ data, chunk_delta = data, chunk_done = False\<rparr>], acc @ data))"

definition handleDone :: "jstr \<Rightarrow> StreamChunk list \<times> jstr" where
  "handleDone acc = ([\<lparr>chunk_text = acc, chunk_delta = [], chunk_done = True\<rparr>], acc)"

definition handle_event :: "json_io \<Rightarrow> sse_event \<Rightarrow> jstr \<Rightarrow> StreamChunk list \<times> jstr" where
  "handle_event io e acc = (case e of OnData d \<Rightarrow> handleData io d acc | OnDone \<Rightarrow> handleDone acc)"

fun handle_events :: "json_io \<Rightarrow> sse_event list \<Rightarrow> jstr \<Rightarrow> StreamChunk list \<times> jstr" where
  "handle_events io [] acc = ([], acc)"
| "handle_events io (e # es) acc =
     (let (cs, a1) = handle_event io e acc; (cs', a2) = handle_events io es a1 in (cs @ cs', a2))"

record stream_parser =
  sp_buffer :: jstr
  accumulatedText :: jstr

definition new_stream_parser :: stream_parser where
  "new_stream_parser = \<lparr>sp_buffer = [], accumulatedText = []\<rparr>"

definition stream_feed :: "json_io \<Rightarrow> jstr \<Rightarrow> stream_parser \<Rightarrow> StreamChunk list \<times> stream_parser" where
  "stream_feed io chunk p =
     (let (es, b) = sse_feed chunk (sp_buffer p); (cs, a) = handle_events io es (accumulatedText p)
      in (cs, \<lparr>sp_buffer = b, accumulatedText = a\<rparr>))"

definition stream_reset :: "stream_parser \<Rightarrow> stream_parser" where
  "stream_reset p = \<lparr>sp_buffer = sse_reset (sp_buffer p), accumulatedText = []\<rparr>"

section \<open>The reading loop\<close>

text \<open>
  What the reader yields: decoded chunks until the end, an abort seen before a read, or a failing read.
  The result is the text, or \<open>None\<close> when the read throws; the chunks are those reported.
\<close>

datatype read_step = Chunk jstr | End | ReadFails | AbortSeen

fun parse_loop :: "json_io \<Rightarrow> read_step list \<Rightarrow> stream_parser \<Rightarrow> jstr \<Rightarrow> StreamChunk list \<times> jstr option" where
  "parse_loop io [] p full = ([], Some full)"
| "parse_loop io (End # rs) p full = ([], Some full)"
| "parse_loop io (AbortSeen # rs) p full = ([], Some full)"
| "parse_loop io (ReadFails # rs) p full = ([], None)"
| "parse_loop io (Chunk c # rs) p full =
     (let (cs, p1) = stream_feed io c p; (cs', r) = parse_loop io rs p1 (accumulatedText p1) in (cs @ cs', r))"

definition parseStream :: "json_io \<Rightarrow> bool \<Rightarrow> read_step list \<Rightarrow> (jstr list \<times> jstr option)" where
  "parseStream io has_body steps =
     (if \<not> has_body then ([], None)
      else (let (cs, r) = parse_loop io steps new_stream_parser [] in (map chunk_delta cs, r)))"

section \<open>Properties\<close>

lemma handle_event_text:
  "snd (handle_event io e acc) = acc @ concat (map chunk_delta (fst (handle_event io e acc)))
   \<and> (\<forall>c\<in>set (fst (handle_event io e acc)). chunk_text c = snd (handle_event io e acc))"
  by (cases e) (auto simp: handle_event_def handleData_def handleDone_def split: option.split delta_result.split)

lemma handle_events_append:
  "handle_events io (es @ es') acc =
     (fst (handle_events io es acc) @ fst (handle_events io es' (snd (handle_events io es acc))),
      snd (handle_events io es' (snd (handle_events io es acc))))"
  by (induction es arbitrary: acc) (simp_all add: case_prod_beta' Let_def)

lemma handle_events_text:
  "snd (handle_events io es acc) = acc @ concat (map chunk_delta (fst (handle_events io es acc)))"
proof (induction es arbitrary: acc)
  case (Cons e es)
  show ?case
    using Cons [of "snd (handle_event io e acc)"] handle_event_text [of io e acc]
    by (simp add: case_prod_beta' Let_def)
qed simp

lemma parse_loop_chunks:
  assumes "10 \<notin> set (sp_buffer p)"
  shows "parse_loop io (map Chunk cs @ End # rs) p (accumulatedText p) =
     (let (out, a) = handle_events io (fst (sse_feed (concat cs) (sp_buffer p))) (accumulatedText p) in (out, Some a))"
  using assms
proof (induction cs arbitrary: p)
  case Nil
  then show ?case by (simp add: sse_feed_Nil)
next
  case (Cons c cs)
  let ?p1 = "snd (stream_feed io c p)"
  have "10 \<notin> set (sp_buffer ?p1)"
    by (simp add: stream_feed_def sse_feed_def case_prod_beta' Let_def split_at_parts)
  from Cons.IH [OF this] show ?case
    by (simp add: case_prod_beta' Let_def stream_feed_def sse_feed_append handle_events_append)
qed

text \<open>The cutting of the stream does not matter: whatever chunks a response arrives in, the text
  that is returned and the deltas that are reported are those of the whole text at once; they are the
  deltas of the events in the lines that a line feed ends, and the returned text is their concatenation.
  A last line without a line feed is not read.
\<close>

theorem stream_chunking_invariant:
  assumes "concat cs = body"
  shows "parseStream io True (map Chunk cs @ [End]) =
      (let out = fst (handle_events io (concat (map processLine (butlast (split_at 10 body)))) [])
       in (map chunk_delta out, Some (concat (map chunk_delta out))))"
  using assms handle_events_text [of io _ "[]"] parse_loop_chunks [of new_stream_parser io cs "[]"]
  by (simp add: parseStream_def new_stream_parser_def case_prod_beta' Let_def sse_feed_def)

definition w_io_json :: json_io where
  "w_io_json = \<lparr>parse_text = (\<lambda>_. None), print_json = (\<lambda>_. [])\<rparr>"

lemma stream_chunking_invariant_witness:
  "parseStream w_io_json True [Chunk (js ''da''), Chunk (js ''ta: a'' @ [10] @ js ''dat''), End]
     = ([js ''a''], Some (js ''a''))"
proof -
  have "processLine (js ''data: a'') = [OnData (js ''a'')]"
    by (simp add: processLine_def Let_def js_def trim_def is_space_def line_terminators_def)
  moreover have "split_at 10 (js ''data: a'' @ [10] @ js ''dat'') = [js ''data: a'', js ''dat'']"
    by (simp add: js_def)
  moreover have "js ''data: a'' = js ''da'' @ js ''ta: a''" by (simp add: js_def)
  ultimately show ?thesis
    using stream_chunking_invariant [of "[js ''da'', js ''ta: a'' @ [10] @ js ''dat'']"
        "js ''data: a'' @ [10] @ js ''dat''" w_io_json]
    by (simp add: handle_event_def handleData_def w_io_json_def Let_def)
qed

end
