(* ===== verification/IntentRouting.thy ===== *)
theory IntentRouting
  imports JsValue
begin

text \<open>
  How the editor's assistant turns a request into tool calls: the routing tables and functions
  (\<open>app/editor/src/ai/operationMapper.ts\<close>), the keyword dictionary and the extraction of rule
  fragments (\<open>ai/intent/trie_dict.ts\<close>), and the splitting and execution of clauses
  (\<open>ai/parallelExecutor.ts\<close>). Chinese texts are written as their code units. The execution of a tool
  call and the per-key operation check of another module are parameters. The lookup tables are the
  source's object literals; names inherited from the object prototype are not looked up in them.
\<close>

section \<open>Routing tables\<close>

definition TOOL_TO_OPERATION :: "(jstr \<times> jstr) list" where
  "TOOL_TO_OPERATION = map (\<lambda>(a, b). (js a, js b))
    [(''read_config_value'', ''READ''), (''write_config_value'', ''WRITE''), (''list_configs'', ''LIST''),
     (''validate_config'', ''VALIDATE''), (''create_schema_field'', ''ADD_FIELD''), (''update_gate_rule'', ''SET_RULE''),
     (''create_gate_chain'', ''CREATE_RULE_CHAIN''), (''list_directory'', ''BROWSE''), (''search_content'', ''SEARCH''),
     (''find_files'', ''FIND''), (''read_file'', ''VIEW_FILE''), (''run_terminal'', ''EXEC''),
     (''read_diagnostics'', ''DIAGNOSE''), (''generate_normalizer_template'', ''GENERATE''), (''chat'', ''CHAT''),
     (''execute_query'', ''QUERY''), (''ask_user'', ''ASK'')]"

definition OPERATION_TO_TOOLS :: "(jstr \<times> jstr list) list" where
  "OPERATION_TO_TOOLS = map (\<lambda>(a, bs). (js a, map js bs))
    [(''READ'', [''read_config_value'']), (''WRITE'', [''read_config_value'', ''write_config_value'']),
     (''LIST'', [''list_configs'']), (''VALIDATE'', [''validate_config'']), (''ADD_FIELD'', [''create_schema_field'']),
     (''SET_RULE'', [''update_gate_rule'']), (''CREATE_RULE_CHAIN'', [''create_gate_chain'']),
     (''BROWSE'', [''read_config_value'', ''list_directory'']), (''BROWSE_DIR'', [''list_directory'']),
     (''SEARCH'', [''search_content'']), (''FIND'', [''find_files'']), (''VIEW_FILE'', [''read_file'']),
     (''EXEC'', [''run_terminal'']), (''DIAGNOSE'', [''read_diagnostics'']),
     (''GENERATE'', [''generate_normalizer_template'']), (''CHAT'', [''chat'']),
     (''QUERY'', [''write_config_value'', ''execute_query'', ''read_config_value'']), (''ASK'', [''ask_user''])]"

definition INTENT_TO_OPERATION :: "(jstr \<times> jstr list) list" where
  "INTENT_TO_OPERATION = map (\<lambda>(a, bs). (js a, map js bs))
    [(''QUERY'', [''READ'', ''LIST'']), (''QUERY_SINGLE'', [''READ'']), (''QUERY_LIST'', [''LIST'']),
     (''QUERY_ENUM'', [''LIST'']), (''MODIFY'', [''READ'', ''WRITE'']), (''ACTION'', [''CHAT'', ''EXEC'', ''GENERATE''])]"

definition SYSTEM_SCOPED_OPS :: "jstr list" where
  "SYSTEM_SCOPED_OPS = map js [''LIST'', ''BROWSE'', ''BROWSE_DIR'', ''SEARCH'', ''FIND'', ''EXEC'', ''DIAGNOSE'',
     ''GENERATE'', ''CHAT'', ''QUERY'', ''ASK'']"

definition CONFIG_SCOPED_OPS :: "jstr list" where
  "CONFIG_SCOPED_OPS = map js [''READ'', ''WRITE'', ''VALIDATE'', ''ADD_FIELD'', ''SET_RULE'', ''CREATE_RULE_CHAIN'', ''VIEW_FILE'']"

definition EXECUTOR_SCOPED_OPS :: "jstr list" where
  "EXECUTOR_SCOPED_OPS = map js [''QUERY'']"

text \<open>An optional text is falsy when it is absent or empty.\<close>

definition falsy_text :: "jstr option \<Rightarrow> bool" where
  "falsy_text s = (case s of None \<Rightarrow> True | Some t \<Rightarrow> t = [])"

definition isIntentCompatibleWithValueType :: "jstr option \<Rightarrow> jstr option \<Rightarrow> bool" where
  "isIntentCompatibleWithValueType intent valueType =
     (if falsy_text intent then True
      else if falsy_text valueType then True
      else if intent = Some (js ''QUERY_LIST'') then valueType = Some (js ''directory'')
      else if intent = Some (js ''QUERY_SINGLE'')
      then valueType \<noteq> Some (js ''directory'') \<and> valueType \<noteq> Some (js ''file'') \<and> valueType \<noteq> Some (js ''file_path'')
      else True)"

datatype SemanticGroup = config | rule | schema

definition inferSemanticGroup :: "jstr \<Rightarrow> SemanticGroup" where
  "inferSemanticGroup configKey =
     (if configKey = [] then config
      else (let lower = ascii_lower configKey
            in if str_includes lower (js ''gate'') \<or> str_includes lower (js ''rule'')
                  \<or> str_includes lower [0x89C4, 0x5219] \<or> str_includes lower (js ''chain'') then rule
               else if str_includes lower (js ''schema'') \<or> str_includes lower (js ''field'')
                  \<or> str_includes lower [0x5B57, 0x6BB5] then schema
               else config))"

datatype ActionSubType = chat | exec | generate

text \<open>\<open>/A.*B/\<close> for two fixed texts without line terminators: B follows A on the same line.\<close>

fun followed_by :: "jstr \<Rightarrow> jstr \<Rightarrow> jstr \<Rightarrow> bool" where
  "followed_by a b [] = False"
| "followed_by a b (c # cs) =
     ((starts_with (c # cs) a \<and> str_includes (takeWhile (\<lambda>x. x \<notin> set line_terminators) (drop (length a) (c # cs))) b)
      \<or> followed_by a b cs)"

definition exec_words :: "jstr list" where
  "exec_words = [[0x6267, 0x884C], [0x8FD0, 0x884C], js ''tree'', js ''dir'', js ''ls'', js ''pwd'']"

definition inferActionSubType :: "jstr \<Rightarrow> ActionSubType" where
  "inferActionSubType userInput =
     (if userInput = [] then chat
      else (let lower = ascii_lower userInput
            in if \<exists>w\<in>set exec_words. str_includes lower w then exec
               else if followed_by [0x751F, 0x6210] [0x6A21, 0x677F] lower
                  \<or> str_includes lower [0x5F52, 0x4E00, 0x5316] \<or> str_includes lower [0x5382, 0x5546, 0x6620, 0x5C04]
               then generate else chat))"

definition routeQueryByValueType :: "jstr option \<Rightarrow> jstr option \<Rightarrow> bool \<Rightarrow> jstr" where
  "routeQueryByValueType intent valueType hasConfigKey =
     (if intent = Some (js ''QUERY_SINGLE'') then js ''READ''
      else if intent = Some (js ''QUERY_LIST'')
      then (if valueType = Some (js ''directory'') then js ''BROWSE_DIR''
            else if hasConfigKey then js ''READ'' else js ''LIST'')
      else if intent = Some (js ''QUERY_ENUM'') then js ''LIST''
      else if \<not> hasConfigKey then js ''LIST''
      else if valueType = Some (js ''file'') then js ''BROWSE_DIR''
      else js ''READ'')"

definition routeModifyBySemanticGroup :: "SemanticGroup \<Rightarrow> jstr list" where
  "routeModifyBySemanticGroup g = (case g of
      rule \<Rightarrow> [js ''SET_RULE''] | schema \<Rightarrow> [js ''ADD_FIELD''] | config \<Rightarrow> [js ''READ'', js ''WRITE''])"

definition routeActionBySubType :: "ActionSubType \<Rightarrow> jstr list" where
  "routeActionBySubType t = (case t of exec \<Rightarrow> [js ''EXEC''] | generate \<Rightarrow> [js ''GENERATE''] | chat \<Rightarrow> [js ''CHAT''])"

definition query_intents :: "jstr list" where
  "query_intents = map js [''QUERY'', ''QUERY_SINGLE'', ''QUERY_LIST'', ''QUERY_ENUM'']"

definition routeIntentToOperations :: "jstr \<Rightarrow> jstr option \<Rightarrow> jstr option \<Rightarrow> jstr option \<Rightarrow> jstr list" where
  "routeIntentToOperations intent targetConfigKey valueType userInput =
     (let hasKey = \<not> falsy_text targetConfigKey
      in if intent \<in> set query_intents then [routeQueryByValueType (Some intent) valueType hasKey]
         else if intent = js ''MODIFY''
         then (if \<not> hasKey then [js ''READ'', js ''WRITE'']
               else routeModifyBySemanticGroup (inferSemanticGroup (the targetConfigKey)))
         else if intent = js ''ACTION''
         then routeActionBySubType (inferActionSubType (case userInput of None \<Rightarrow> [] | Some u \<Rightarrow> u))
         else [js ''READ''])"

definition operationToTools :: "jstr \<Rightarrow> jstr list" where
  "operationToTools operation =
     (case map_of OPERATION_TO_TOOLS operation of Some ts \<Rightarrow> ts | None \<Rightarrow> [js ''read_config_value''])"

definition intentToOperations :: "jstr \<Rightarrow> jstr list" where
  "intentToOperations intent = (case map_of INTENT_TO_OPERATION intent of Some ops \<Rightarrow> ops | None \<Rightarrow> [])"

definition validateOperationForConfig :: "(jstr \<Rightarrow> jstr \<Rightarrow> jstr option) \<Rightarrow> jstr \<Rightarrow> jstr \<Rightarrow> jstr option" where
  "validateOperationForConfig validateConfigOp configKey operation =
     (if operation \<in> set SYSTEM_SCOPED_OPS \<or> operation \<in> set EXECUTOR_SCOPED_OPS then None
      else validateConfigOp configKey operation)"

section \<open>Keyword dictionary\<close>

definition OP_KW :: "(jstr \<times> jstr) list" where
  "OP_KW =
    [([0x6539, 0x6210], js ''write''), ([0x6539, 0x4E3A], js ''write''), ([0x8BBE, 0x4E3A], js ''write''), ([0x8BBE, 0x7F6E], js ''write''),
     ([0x5199, 0x5165], js ''write''), ([0x4FEE, 0x6539], js ''write''), ([0x66F4, 0x65B0], js ''write''), ([0x53D8, 0x66F4], js ''write''),
     ([0x7981, 0x7528], js ''gate''), ([0x542F, 0x7528], js ''gate''), ([0x5F00, 0x542F], js ''gate''), ([0x5173, 0x95ED], js ''gate''),
     ([0x9650, 0x5236], js ''gate''), ([0x6821, 0x9A8C], js ''gate''), ([0x68C0, 0x67E5], js ''gate''), ([0x5BA1, 0x6838], js ''gate''),
     ([0x5220, 0x9664], js ''schema''), ([0x79FB, 0x9664], js ''schema''), ([0x65B0, 0x589E], js ''schema''), ([0x6DFB, 0x52A0], js ''schema''),
     ([0x67E5, 0x770B], js ''read''), ([0x8BFB, 0x53D6], js ''read''), ([0x663E, 0x793A], js ''list''), ([0x5217, 0x51FA], js ''list''),
     ([0x641C, 0x7D22], js ''search''), ([0x67E5, 0x627E], js ''search'')]"

definition DOMAIN_KW :: "(jstr, jstr) jmap" where
  "DOMAIN_KW = [([0x5B57, 0x6BB5], js ''schema.field'')]"

text \<open>\<open>Object.assign\<close> onto the table.\<close>

definition syncDomainKWFromRegistry :: "(jstr \<times> jstr) list option \<Rightarrow> (jstr, jstr) jmap \<Rightarrow> (jstr, jstr) jmap" where
  "syncDomainKWFromRegistry domainKW table =
     (case domainKW of None \<Rightarrow> table | Some kvs \<Rightarrow> fold (\<lambda>(k, v). mput k v) kvs table)"

definition OP_MAP :: "(jstr \<times> jstr) list" where
  "OP_MAP =
    [([0x5927, 0x4E8E], js ''gt''), ([0x8D85, 0x8FC7], js ''gt''), ([0x9AD8, 0x4E8E], js ''gt''), ([0x003E], js ''gt''),
     ([0x5C0F, 0x4E8E], js ''lt''), ([0x4F4E, 0x4E8E], js ''lt''), ([0x003C], js ''lt''),
     ([0x7B49, 0x4E8E], js ''eq''), ([0x003D], js ''eq''), ([0x003D, 0x003D], js ''eq''),
     ([0x4E0D, 0x7B49, 0x4E8E], js ''ne''), ([0x0021, 0x003D], js ''ne''),
     ([0x5927, 0x4E8E, 0x7B49, 0x4E8E], js ''gte''), ([0x2265], js ''gte''), ([0x003E, 0x003D], js ''gte''),
     ([0x5C0F, 0x4E8E, 0x7B49, 0x4E8E], js ''lte''), ([0x2264], js ''lte''), ([0x003C, 0x003D], js ''lte''),
     ([0x5305, 0x542B], js ''in''), ([0x5C5E, 0x4E8E], js ''in''),
     ([0x4E0D, 0x5305, 0x542B], js ''not_in''), ([0x4E0D, 0x5C5E, 0x4E8E], js ''not_in'')]"

fun better_keyword :: "jstr \<Rightarrow> (jstr \<times> jstr) option \<Rightarrow> (jstr \<times> jstr) list \<Rightarrow> (jstr \<times> jstr) option" where
  "better_keyword sentence best [] = best"
| "better_keyword sentence best ((kw, v) # table) =
     better_keyword sentence
       (if str_includes sentence kw \<and> (case best of None \<Rightarrow> True | Some (b, _) \<Rightarrow> length b < length kw)
        then Some (kw, v) else best) table"

definition findLongestKeyword :: "jstr \<Rightarrow> (jstr \<times> jstr) list \<Rightarrow> (jstr \<times> jstr) option" where
  "findLongestKeyword sentence table = better_keyword sentence None table"

section \<open>Rule fragments\<close>

text \<open>\<open>indexOf\<close>.\<close>

fun index_of :: "jstr \<Rightarrow> jstr \<Rightarrow> nat option" where
  "index_of sub [] = (if sub = [] then Some 0 else None)"
| "index_of sub (c # cs) = (if starts_with (c # cs) sub then Some 0 else map_option Suc (index_of sub cs))"

definition numeric :: "16 word \<Rightarrow> bool" where
  "numeric c \<longleftrightarrow> is_digit c \<or> c = 0x2C \<or> c = 0x2E"

text \<open>The three uses of \<open>\\d[\\d,.]*\<close>: before the end, at the start, anywhere.\<close>

fun number_at_end :: "jstr \<Rightarrow> jstr option" where
  "number_at_end [] = None"
| "number_at_end (c # cs) =
     (if is_digit c \<and> dropWhile is_space (dropWhile numeric cs) = [] then Some (c # takeWhile numeric cs)
      else number_at_end cs)"

definition number_at_start :: "jstr \<Rightarrow> jstr option" where
  "number_at_start s = (case dropWhile is_space s of
      c # cs \<Rightarrow> if is_digit c then Some (c # takeWhile numeric cs) else None | [] \<Rightarrow> None)"

fun number_anywhere :: "jstr \<Rightarrow> jstr option" where
  "number_anywhere [] = None"
| "number_anywhere (c # cs) = (if is_digit c then Some (c # takeWhile numeric cs) else number_anywhere cs)"

definition drop_commas :: "jstr \<Rightarrow> jstr" where
  "drop_commas s = filter (\<lambda>c. c \<noteq> 0x2C) s"

definition try_phrase :: "jstr \<Rightarrow> jstr \<times> jstr \<Rightarrow> (jstr \<times> jstr) option" where
  "try_phrase sentence pq = (case pq of (phrase, q) \<Rightarrow>
     (case index_of phrase sentence of
        None \<Rightarrow> None
      | Some idx \<Rightarrow>
          (case (case number_at_end (take idx sentence) of
                   Some n \<Rightarrow> Some n | None \<Rightarrow> number_at_start (drop (idx + length phrase) sentence)) of
             None \<Rightarrow> None | Some n \<Rightarrow> Some (q, drop_commas n))))"

fun first_phrase :: "jstr \<Rightarrow> (jstr \<times> jstr) list \<Rightarrow> (jstr \<times> jstr) option" where
  "first_phrase sentence [] = None"
| "first_phrase sentence (pq # pqs) =
     (case try_phrase sentence pq of Some r \<Rightarrow> Some r | None \<Rightarrow> first_phrase sentence pqs)"

text \<open>The fragment: operator and value.\<close>

definition extractRuleFragment :: "jstr \<Rightarrow> (jstr \<times> jstr) option" where
  "extractRuleFragment sentence =
     (case first_phrase sentence OP_MAP of
        Some r \<Rightarrow> Some r
      | None \<Rightarrow>
          (case number_anywhere sentence of
             None \<Rightarrow> None
           | Some n \<Rightarrow>
               (if str_includes sentence [0x4EE5, 0x4E0A] \<or> str_includes sentence [0x8D85, 0x8FC7] then Some (js ''gte'', drop_commas n)
                else if str_includes sentence [0x4EE5, 0x4E0B] \<or> str_includes sentence [0x4F4E, 0x4E8E] then Some (js ''lt'', drop_commas n)
                else Some (js ''eq'', drop_commas n))))"

section \<open>Clauses\<close>

definition clause_separators :: "16 word list" where
  "clause_separators = [0x3002, 0xFF1B, 0x3B, 0xFF0C, 0x0A]"

fun split_any :: "16 word list \<Rightarrow> jstr \<Rightarrow> jstr list" where
  "split_any seps [] = [[]]"
| "split_any seps (c # cs) =
     (if c \<in> set seps then [] # split_any seps cs
      else (case split_any seps cs of [] \<Rightarrow> [[c]] | w # ws \<Rightarrow> (c # w) # ws))"

text \<open>
  A run of separators cuts once in the source and once per separator here; the pieces differ in empty
  ones only, and those are filtered out.
\<close>

definition splitUserIntent :: "jstr \<Rightarrow> jstr list" where
  "splitUserIntent s =
     (if s = [] then []
      else (let parts = filter (\<lambda>p. p \<noteq> []) (map trim (split_any clause_separators s))
            in if parts = [] then []
               else if length parts \<le> 1 then [s]
               else if length parts = 2 \<and> is_digit (last (parts ! 0)) \<and> is_digit (hd (parts ! 1)) then [s]
               else parts))"

record ToolResult =
  tr_success :: bool
  tr_error :: "jstr option"

text \<open>A tool call returns a result or throws an error with a message.\<close>

datatype call_outcome = Result ToolResult | Thrown jstr

record 't ClauseContext =
  cl_sentence :: jstr
  cl_index :: nat
  cl_toolCalls :: "'t list"
  cl_result :: "ToolResult option"
  cl_error :: "jstr option"

definition tool_failed :: jstr where
  "tool_failed = [0x5DE5, 0x5177, 0x8C03, 0x7528, 0x5931, 0x8D25]"

fun run_calls :: "('t \<Rightarrow> call_outcome) \<Rightarrow> 't list \<Rightarrow> ToolResult option \<Rightarrow> ToolResult option \<times> jstr option" where
  "run_calls f [] r = (r, None)"
| "run_calls f (tc # tcs) r =
     (case f tc of
        Thrown msg \<Rightarrow> (r, Some msg)
      | Result res \<Rightarrow>
          (if \<not> tr_success res
           then (Some res, Some (case tr_error res of None \<Rightarrow> tool_failed | Some e \<Rightarrow> if e = [] then tool_failed else e))
           else run_calls f tcs (Some res)))"

definition run_clause :: "('t \<Rightarrow> call_outcome) \<Rightarrow> 't ClauseContext \<Rightarrow> 't ClauseContext" where
  "run_clause f c = (let (r, e) = run_calls f (cl_toolCalls c) None
     in \<lparr>cl_sentence = cl_sentence c, cl_index = cl_index c, cl_toolCalls = cl_toolCalls c, cl_result = r, cl_error = e\<rparr>)"

definition clause_ok :: "'t ClauseContext \<Rightarrow> bool" where
  "clause_ok c \<longleftrightarrow> falsy_text (cl_error c) \<and> (case cl_result c of None \<Rightarrow> True | Some r \<Rightarrow> tr_success r)"

record 't MultiClauseResult =
  mc_clauses :: "'t ClauseContext list"
  mc_succeeded :: nat
  mc_failed :: nat
  mc_allSucceeded :: bool

definition executeClauses :: "('t \<Rightarrow> call_outcome) \<Rightarrow> 't ClauseContext list \<Rightarrow> 't MultiClauseResult" where
  "executeClauses f clauses =
     (let aggregated = map (run_clause f) clauses;
          succeeded = length (filter clause_ok aggregated);
          failed = length aggregated - succeeded
      in \<lparr>mc_clauses = aggregated, mc_succeeded = succeeded, mc_failed = failed, mc_allSucceeded = (failed = 0)\<rparr>)"

section \<open>Routing\<close>

lemmas route_tables = TOOL_TO_OPERATION_def OPERATION_TO_TOOLS_def operationToTools_def

lemma route_query_cases:
  "routeQueryByValueType i v k \<in> {js ''READ'', js ''LIST'', js ''BROWSE_DIR''}"
  by (simp add: routeQueryByValueType_def)

lemma tools_of_query_ops:
  "operationToTools (js ''READ'') = [js ''read_config_value'']"
  "operationToTools (js ''LIST'') = [js ''list_configs'']"
  "operationToTools (js ''BROWSE_DIR'') = [js ''list_directory'']"
  by (simp_all add: route_tables)

text \<open>Only a modification writes: whatever the intent text is, unless it is MODIFY or ACTION, and
  whatever key, value type and wording come with it, the tools of the routed operations are among reading a
  value, listing the configuration and listing a directory; and every tool is reachable from the operation it
  is reported as.
\<close>

theorem query_routes_are_read_only:
  "(intent \<notin> {js ''MODIFY'', js ''ACTION''} \<longrightarrow>
      (\<forall>q\<in>set (routeIntentToOperations intent key vt input).
         set (operationToTools q) \<subseteq> {js ''read_config_value'', js ''list_configs'', js ''list_directory''}))
   \<and> (\<forall>(t, q)\<in>set TOOL_TO_OPERATION. t \<in> set (operationToTools q))"
proof (intro conjI impI)
  assume *: "intent \<notin> {js ''MODIFY'', js ''ACTION''}"
  have "set (routeIntentToOperations intent key vt input) \<subseteq> {js ''READ'', js ''LIST'', js ''BROWSE_DIR''}"
    using * route_query_cases [of "Some intent" vt] by (auto simp: routeIntentToOperations_def Let_def)
  then show "\<forall>q\<in>set (routeIntentToOperations intent key vt input).
         set (operationToTools q) \<subseteq> {js ''read_config_value'', js ''list_configs'', js ''list_directory''}"
    using tools_of_query_ops by fastforce
next
  show "\<forall>(t, q)\<in>set TOOL_TO_OPERATION. t \<in> set (operationToTools q)"
    by (simp add: route_tables)
qed

section \<open>Longest keyword\<close>

definition best_ok :: "jstr \<Rightarrow> (jstr \<times> jstr) option \<Rightarrow> (jstr \<times> jstr) list \<Rightarrow> bool" where
  "best_ok s best done \<longleftrightarrow> (case best of
      None \<Rightarrow> \<forall>(k, v)\<in>set done. \<not> str_includes s k
    | Some (k, v) \<Rightarrow> str_includes s k \<and> (\<exists>us vs. done = us @ (k, v) # vs
        \<and> (\<forall>(k', v')\<in>set us. str_includes s k' \<longrightarrow> length k' < length k)
        \<and> (\<forall>(k', v')\<in>set vs. str_includes s k' \<longrightarrow> length k' \<le> length k)))"

lemma best_okI:
  "str_includes s k \<Longrightarrow> xs = us @ (k, v) # vs \<Longrightarrow> (\<forall>(k', v')\<in>set us. str_includes s k' \<longrightarrow> length k' < length k) \<Longrightarrow>
   (\<forall>(k', v')\<in>set vs. str_includes s k' \<longrightarrow> length k' \<le> length k) \<Longrightarrow> best_ok s (Some (k, v)) xs"
  by (auto simp: best_ok_def)

lemma better_keyword_ok:
  "best_ok s best done \<Longrightarrow> best_ok s (better_keyword s best table) (done @ table)"
proof (induction table arbitrary: best "done")
  case (Cons kv table)
  obtain kw v where kv: "kv = (kw, v)" by force
  let ?new = "if str_includes s kw \<and> (case best of None \<Rightarrow> True | Some (b, _) \<Rightarrow> length b < length kw)
        then Some (kw, v) else best"
  have "best_ok s ?new (done @ [(kw, v)])"
  proof (cases "str_includes s kw \<and> (case best of None \<Rightarrow> True | Some (b, _) \<Rightarrow> length b < length kw)")
    case True
    have "\<forall>(k', v')\<in>set done. str_includes s k' \<longrightarrow> length k' < length kw"
      using Cons.prems True unfolding best_ok_def by (cases best) fastforce+
    with best_okI [of s kw "done @ [(kw, v)]" "done" v "[]"] True show ?thesis by simp
  next
    case False
    show ?thesis
    proof (cases best)
      case None
      with False Cons.prems show ?thesis by (auto simp: best_ok_def)
    next
      case (Some b)
      obtain k w where b: "b = (k, w)" by force
      obtain us vs where sp: "done = us @ (k, w) # vs" "str_includes s k"
        "\<forall>(k', v')\<in>set us. str_includes s k' \<longrightarrow> length k' < length k"
        "\<forall>(k', v')\<in>set vs. str_includes s k' \<longrightarrow> length k' \<le> length k"
        using Cons.prems Some b by (auto simp: best_ok_def)
      have "done @ [(kw, v)] = us @ (k, w) # (vs @ [(kw, v)])" using sp(1) by simp
      moreover have "\<forall>(k', v')\<in>set (vs @ [(kw, v)]). str_includes s k' \<longrightarrow> length k' \<le> length k"
        using sp(4) False Some b by auto
      ultimately have "best_ok s (Some (k, w)) (done @ [(kw, v)])"
        using sp(2,3) by (intro best_okI)
      with False Some b show ?thesis by auto
    qed
  qed
  from Cons.IH [OF this] show ?case by (simp add: kv)
qed simp

text \<open>The keyword search returns a keyword of the table with its value that occurs in the
  sentence, no keyword that occurs is longer, among equally long ones it is the first of the table; it returns
  nothing exactly when no keyword occurs.
\<close>

theorem longest_keyword:
  "case findLongestKeyword s table of
     None \<Rightarrow> \<forall>(k, v)\<in>set table. \<not> str_includes s k
   | Some (k, v) \<Rightarrow> str_includes s k \<and> (\<exists>us vs. table = us @ (k, v) # vs
        \<and> (\<forall>(k', v')\<in>set us. str_includes s k' \<longrightarrow> length k' < length k)
        \<and> (\<forall>(k', v')\<in>set vs. str_includes s k' \<longrightarrow> length k' \<le> length k))"
  using better_keyword_ok [of s None "[]" table] by (simp add: findLongestKeyword_def best_ok_def)

section \<open>Operators that are never recognised\<close>

lemma index_of_skip:
  "c \<notin> set u \<Longrightarrow> index_of (c # p) (u @ s) = map_option (\<lambda>n. n + length u) (index_of (c # p) s)"
proof (induction u)
  case (Cons x u)
  then have "x \<noteq> c" "c \<notin> set u" by auto
  with Cons.IH show ?case by (cases "index_of (c # p) s") simp_all
qed (simp add: option.map_ident)

lemma index_of_absent: "c \<notin> set s \<Longrightarrow> index_of (c # p) s = None"
  using index_of_skip [of c s p "[]"] by simp

lemma number_at_end_none: "\<forall>c\<in>set s. \<not> is_digit c \<Longrightarrow> number_at_end s = None"
  by (induction s) auto

lemma numeric_simps: "is_digit c \<Longrightarrow> numeric c" "numeric c \<Longrightarrow> c \<le> 57"
  by (auto simp: numeric_def is_digit_def)

lemma numeric_not_space: "numeric c \<Longrightarrow> \<not> is_space c"
  by (auto simp: numeric_def is_digit_def is_space_def line_terminators_def word_le_nat_alt)

definition op_starts :: "16 word list" where
  "op_starts = [0x5927, 0x8D85, 0x9AD8, 0x3E, 0x5C0F, 0x4F4E, 0x3C, 0x7B49, 0x3D]"

text \<open>Texts in which none of the operators before the equality signs begins.\<close>

definition plain :: "jstr \<Rightarrow> bool" where
  "plain u \<longleftrightarrow> (\<forall>c\<in>set u. c \<notin> set op_starts \<and> \<not> is_digit c)"

definition number_text :: "jstr \<Rightarrow> bool" where
  "number_text n \<longleftrightarrow> n \<noteq> [] \<and> is_digit (hd n) \<and> (\<forall>c\<in>set n. numeric c)"

lemma number_absent:
  assumes "number_text n" and "c \<in> set op_starts"
  shows "c \<notin> set n"
proof
  assume "c \<in> set n"
  with assms(1) have "c \<le> 57" using numeric_simps(2) by (auto simp: number_text_def)
  with assms(2) show False by (auto simp: op_starts_def)
qed

lemma plain_absent: "plain u \<Longrightarrow> c \<in> set op_starts \<Longrightarrow> c \<notin> set u"
  by (auto simp: plain_def)

lemma number_at_start_number: "number_text n \<Longrightarrow> number_at_start n = Some n"
  using numeric_not_space numeric_simps(1)
  by (cases n) (auto simp: number_at_start_def number_text_def takeWhile_eq_all_conv)

text \<open>The texts in question: at least, at most, unequal, in both spellings.\<close>

definition composite_operators :: "jstr list" where
  "composite_operators = [[0x5927, 0x4E8E, 0x7B49, 0x4E8E], [0x5C0F, 0x4E8E, 0x7B49, 0x4E8E], [0x4E0D, 0x7B49, 0x4E8E], [0x003E, 0x003D], [0x003C, 0x003D], [0x0021, 0x003D]]"

lemma try_phrase_none:
  assumes "plain u" and "c \<in> set op_starts" and "index_of (c # p) s = None"
  shows "try_phrase (u @ s) (c # p, q) = None"
  using assms index_of_skip [OF plain_absent [OF assms(1,2)], of p s] by (simp add: try_phrase_def)

lemma try_phrase_hit:
  assumes "plain u" and "c \<in> set op_starts" and "index_of (c # p) s = Some i"
    and "\<forall>x\<in>set (take i s). \<not> is_digit x"
  shows "try_phrase (u @ s) (c # p, q) = map_option (\<lambda>n. (q, drop_commas n)) (number_at_start (drop (i + Suc (length p)) s))"
proof -
  have "number_at_end (u @ take i s) = None"
    using assms(1,4) by (intro number_at_end_none) (auto simp: plain_def)
  then show ?thesis
    using assms(3) index_of_skip [OF plain_absent [OF assms(1,2)], of p s]
    by (simp add: try_phrase_def add.commute split: option.split)
qed

lemma number_at_start_none: "\<not> is_space c \<Longrightarrow> \<not> is_digit c \<Longrightarrow> number_at_start (c # s) = None"
  by (simp add: number_at_start_def)

lemma number_no_operator: "number_text n \<Longrightarrow> c \<in> set op_starts \<Longrightarrow> index_of (c # p) n = None"
  by (rule index_of_absent [OF number_absent])

text \<open>
  The composite comparison operators are never recognised: a condition written as at least,
  at most or unequal, in Chinese or in symbols, followed by a number, is extracted as equality, because the
  table is searched in its own order and the equality sign inside the composite operator is found first.
\<close>

theorem composite_operators_read_as_equality:
  assumes "plain u" and "p \<in> set composite_operators" and "number_text n"
  shows "extractRuleFragment (u @ p @ n) = Some (js ''eq'', drop_commas n)"
proof -
  note none = try_phrase_none [OF assms(1)] and hit = try_phrase_hit [OF assms(1)]
    and num = number_at_start_number [OF assms(3)] number_no_operator [OF assms(3)]
  have ops: "p = [0x5927, 0x4E8E, 0x7B49, 0x4E8E] \<or> p = [0x5C0F, 0x4E8E, 0x7B49, 0x4E8E] \<or> p = [0x4E0D, 0x7B49, 0x4E8E] \<or> p = [0x003E, 0x003D] \<or> p = [0x003C, 0x003D] \<or> p = [0x0021, 0x003D]"
    using assms(2) by (simp add: composite_operators_def)
  show ?thesis
    using ops
    by (elim disjE)
      (simp_all add: extractRuleFragment_def OP_MAP_def none hit num op_starts_def number_at_start_none
        is_space_def is_digit_def line_terminators_def)
qed

section \<open>Clauses\<close>

text \<open>The error of a clause is absent exactly when every call of it returned success.\<close>

lemma run_calls_ok:
  "snd (run_calls f tcs r) = None \<longleftrightarrow> (\<forall>t\<in>set tcs. \<exists>res. f t = Result res \<and> tr_success res)"
  by (induction tcs arbitrary: r) (auto split: call_outcome.split)

text \<open>An error thrown with an empty message leaves no trace in the error field.\<close>

lemma empty_message_counts_as_success:
  "f t = Thrown [] \<Longrightarrow> mc_allSucceeded (executeClauses f [\<lparr>cl_sentence = s, cl_index = 0, cl_toolCalls = [t], cl_result = None, cl_error = None\<rparr>])"
  by (simp add: executeClauses_def run_clause_def clause_ok_def falsy_text_def Let_def)

section \<open>Witnesses\<close>

lemma query_routes_are_read_only_witness:
  "set (operationToTools (hd (routeIntentToOperations (js ''QUERY_LIST'') None None None)))
     \<subseteq> {js ''read_config_value'', js ''list_configs'', js ''list_directory''}"
proof -
  have "routeIntentToOperations (js ''QUERY_LIST'') None None None \<noteq> []"
    by (simp add: routeIntentToOperations_def query_intents_def)
  with query_routes_are_read_only [of "js ''QUERY_LIST''" None None None] show ?thesis
    by (simp add: hd_in_set)
qed

lemma longest_keyword_witness:
  "\<exists>k v. findLongestKeyword (js ''abc'') [(js ''a'', js ''1''), (js ''ab'', js ''2''), (js ''x'', js ''3'')] = Some (k, v) \<and> length k = 2"
proof -
  have f: "findLongestKeyword (js ''abc'') [(js ''a'', js ''1''), (js ''ab'', js ''2''), (js ''x'', js ''3'')] = Some (js ''ab'', js ''2'')"
    by (simp add: findLongestKeyword_def js_def)
  from longest_keyword [where s = "js ''abc''" and table = "[(js ''a'', js ''1''), (js ''ab'', js ''2''), (js ''x'', js ''3'')]"]
  have "str_includes (js ''abc'') (js ''ab'')" by (simp add: f)
  with f show ?thesis by (simp add: js_def)
qed

lemma composite_operators_read_as_equality_witness:
  "extractRuleFragment (js ''level '' @ [0x003E, 0x003D] @ [0x31, 0x2C, 0x30]) = Some (js ''eq'', [0x31, 0x30])"
proof -
  have "plain (js ''level '')" "number_text [0x31, 0x2C, 0x30]" "[0x003E, 0x003D] \<in> set composite_operators"
    by (simp_all add: plain_def js_def op_starts_def is_digit_def number_text_def numeric_def composite_operators_def)
  from composite_operators_read_as_equality [OF this(1,3,2)] show ?thesis by (simp add: drop_commas_def)
qed

end
