(* ===== verification/VersionRegistry.thy ===== *)
theory VersionRegistry
  imports RequestTable
begin

text \<open>
  The per-key version registry of the editor (\<open>app/editor/src/ai/versionRegistry.ts\<close>, types of
  \<open>ai/types.ts\<close>). The file is a text that a parser and a printer, both parameters, relate to a
  registry. A registry is a plain object of the language, so reading a key also finds the members that
  every object inherits; those are not arrays, and using them as one throws.
\<close>

section \<open>Registry\<close>

record ConfigVersion =
  cv_versionId :: jstr
  cv_displayName :: jstr
  cv_value :: jstr
  cv_timestamp :: nat
  cv_userInput :: jstr

type_synonym registry = "(jstr, ConfigVersion list) jmap"

definition inherited_names :: "jstr list" where
  "inherited_names = map js [''constructor'', ''__defineGetter__'', ''__defineSetter__'', ''hasOwnProperty'',
     ''__lookupGetter__'', ''__lookupSetter__'', ''isPrototypeOf'', ''propertyIsEnumerable'', ''toString'',
     ''valueOf'', ''__proto__'', ''toLocaleString'']"

text \<open>\<open>registry[key] || []\<close>, with \<open>None\<close> for an inherited member.\<close>

definition versions_of :: "registry \<Rightarrow> jstr \<Rightarrow> ConfigVersion list option" where
  "versions_of reg k = (case mget reg k of
      Some vs \<Rightarrow> Some vs
    | None \<Rightarrow> if k \<in> set inherited_names then None else Some [])"

record codec =
  parse_registry :: "jstr \<Rightarrow> registry option"
  print_registry :: "registry \<Rightarrow> jstr"

text \<open>An empty or unreadable text is an empty registry; a failing write leaves the file as it was.\<close>

definition loadVersionRegistry :: "codec \<Rightarrow> jstr \<Rightarrow> registry" where
  "loadVersionRegistry c file =
     (if file = [] then [] else (case parse_registry c file of None \<Rightarrow> [] | Some r \<Rightarrow> r))"

definition saveVersionRegistry :: "codec \<Rightarrow> bool \<Rightarrow> registry \<Rightarrow> jstr \<Rightarrow> jstr" where
  "saveVersionRegistry c write_ok reg file = (if write_ok then print_registry c reg else file)"

definition version_id :: "jstr \<Rightarrow> nat \<Rightarrow> jstr" where
  "version_id k seq = k @ js ''_v'' @ decimal seq"

text \<open>The loop over the written entries; \<open>None\<close> when it throws.\<close>

fun add_entries :: "nat \<Rightarrow> jstr \<Rightarrow> (jstr \<times> jstr) list \<Rightarrow> registry \<Rightarrow> (jstr, jstr) jmap \<Rightarrow> (registry \<times> (jstr, jstr) jmap) option" where
  "add_entries now userInput [] reg ids = Some (reg, ids)"
| "add_entries now userInput ((k, v) # es) reg ids =
     (if k = [] then add_entries now userInput es reg ids
      else (case versions_of reg k of
          None \<Rightarrow> None
        | Some versions \<Rightarrow>
            (let versionId = version_id k (length versions + 1)
             in add_entries now userInput es
                  (mput k (versions @ [\<lparr>cv_versionId = versionId, cv_displayName = [], cv_value = v,
                                        cv_timestamp = now, cv_userInput = userInput\<rparr>]) reg)
                  (mput k versionId ids))))"

text \<open>The registry is read before the loop and written after it; in between, other calls may run.\<close>

definition add_begin :: "codec \<Rightarrow> jstr \<Rightarrow> registry" where
  "add_begin c file = loadVersionRegistry c file"

definition add_end :: "codec \<Rightarrow> bool \<Rightarrow> nat \<Rightarrow> (jstr \<times> jstr) list \<Rightarrow> jstr \<Rightarrow> registry \<Rightarrow> jstr \<Rightarrow> (jstr \<times> registry \<times> (jstr, jstr) jmap) option" where
  "add_end c write_ok now es userInput loaded file =
     (case add_entries now userInput es loaded [] of
        None \<Rightarrow> None | Some (reg, ids) \<Rightarrow> Some (saveVersionRegistry c write_ok reg file, reg, ids))"

definition addVersionEntries :: "codec \<Rightarrow> bool \<Rightarrow> nat \<Rightarrow> (jstr \<times> jstr) list \<Rightarrow> jstr \<Rightarrow> jstr \<Rightarrow> (jstr \<times> registry \<times> (jstr, jstr) jmap) option" where
  "addVersionEntries c write_ok now es userInput file = add_end c write_ok now es userInput (add_begin c file) file"

definition getVersionsForKey :: "codec \<Rightarrow> jstr \<Rightarrow> jstr \<Rightarrow> ConfigVersion list option" where
  "getVersionsForKey c k file = versions_of (loadVersionRegistry c file) k"

text \<open>The outer option: the call throws; the inner one: no such version.\<close>

definition getVersionById :: "codec \<Rightarrow> jstr \<Rightarrow> jstr \<Rightarrow> jstr \<Rightarrow> ConfigVersion option option" where
  "getVersionById c k versionId file =
     map_option (find (\<lambda>v. cv_versionId v = versionId)) (getVersionsForKey c k file)"

fun rename_first :: "jstr \<Rightarrow> jstr \<Rightarrow> ConfigVersion list \<Rightarrow> ConfigVersion list" where
  "rename_first i d [] = []"
| "rename_first i d (v # vs) = (if cv_versionId v = i then v\<lparr>cv_displayName := d\<rparr> # vs else v # rename_first i d vs)"

definition renameVersion :: "codec \<Rightarrow> bool \<Rightarrow> jstr \<Rightarrow> jstr \<Rightarrow> jstr \<Rightarrow> jstr \<Rightarrow> jstr option" where
  "renameVersion c write_ok k versionId displayName file =
     (let reg = loadVersionRegistry c file
      in case mget reg k of
           None \<Rightarrow> if k \<in> set inherited_names then None else Some file
         | Some vs \<Rightarrow> Some (saveVersionRegistry c write_ok (mput k (rename_first versionId displayName vs) reg) file))"

section \<open>Numbered versions\<close>

text \<open>The identifiers of a key count its versions.\<close>

definition numbered :: "registry \<Rightarrow> bool" where
  "numbered reg \<longleftrightarrow> (\<forall>k vs. mget reg k = Some vs \<longrightarrow> map cv_versionId vs = map (version_id k) [1..<Suc (length vs)])"

lemma version_id_inject [simp]: "version_id k m = version_id k n \<longleftrightarrow> m = n"
  by (simp add: version_id_def)

lemma numbered_versions:
  "numbered reg \<Longrightarrow> versions_of reg k = Some vs \<Longrightarrow> map cv_versionId vs = map (version_id k) [1..<Suc (length vs)]"
  by (auto simp: versions_of_def numbered_def split: option.splits if_splits)

lemma numbered_add:
  assumes "numbered reg" and "versions_of reg k = Some vs" and "cv_versionId v = version_id k (length vs + 1)"
  shows "numbered (mput k (vs @ [v]) reg)"
  using assms numbered_versions [OF assms(1,2)] by (auto simp: numbered_def)

lemma add_entries_numbered:
  "add_entries now u es reg ids = Some (reg', ids') \<Longrightarrow> numbered reg \<Longrightarrow> numbered reg'"
  by (induction now u es reg ids rule: add_entries.induct)
    (auto simp: Let_def numbered_add split: if_splits option.splits)

lemma rename_first_ids: "map cv_versionId (rename_first i d vs) = map cv_versionId vs"
  by (induction vs) auto

lemma rename_first_length [simp]: "length (rename_first i d vs) = length vs"
  by (induction vs) auto

lemma rename_numbered: "numbered reg \<Longrightarrow> mget reg k = Some vs \<Longrightarrow> numbered (mput k (rename_first i d vs) reg)"
  by (auto simp: numbered_def rename_first_ids)

text \<open>Nothing is removed or reordered, and the new identifiers name the last version of their key.\<close>

lemma add_entries_effect:
  assumes "add_entries now u es reg ids = Some (reg', ids')"
  shows "(\<forall>k vs. versions_of reg k = Some vs \<longrightarrow> (\<exists>new. versions_of reg' k = Some (vs @ new)
            \<and> map cv_value new = map snd (filter (\<lambda>(k', v). k' = k \<and> k \<noteq> []) es)))
       \<and> (\<forall>k. k \<noteq> [] \<longrightarrow> k \<in> fst ` set es \<longrightarrow> (\<exists>vs. versions_of reg' k = Some vs \<and> vs \<noteq> [] \<and>
            mget ids' k = Some (version_id k (length vs))))
       \<and> (\<forall>k. k \<notin> fst ` set es \<longrightarrow> mget ids' k = mget ids k \<and> mget reg' k = mget reg k)"
  using assms
proof (induction now u es reg ids rule: add_entries.induct)
  case (2 now u k v es reg ids)
  show ?case
  proof (cases "k = []")
    case True
    with 2 show ?thesis by auto
  next
    case False
    with "2.prems" obtain vs where vs: "versions_of reg k = Some vs" by (auto split: option.splits)
    let ?new = "\<lparr>cv_versionId = version_id k (length vs + 1), cv_displayName = [], cv_value = v,
       cv_timestamp = now, cv_userInput = u\<rparr>"
    let ?reg = "mput k (vs @ [?new]) reg" and ?ids = "mput k (version_id k (length vs + 1)) ids"
    have "add_entries now u es ?reg ?ids = Some (reg', ids')"
      using "2.prems" False vs by (simp add: Let_def)
    note IH = "2.IH"(2) [OF False vs refl this]
    have look: "versions_of ?reg k = Some (vs @ [?new])"
      "\<And>j. j \<noteq> k \<Longrightarrow> versions_of ?reg j = versions_of reg j" by (simp_all add: versions_of_def)
    show ?thesis
    proof (intro conjI allI impI)
      fix j ws assume ws: "versions_of reg j = Some ws"
      show "\<exists>new. versions_of reg' j = Some (ws @ new)
            \<and> map cv_value new = map snd (filter (\<lambda>(k', v). k' = j \<and> j \<noteq> []) ((k, v) # es))"
      proof (cases "j = k")
        case True
        with IH look(1) obtain new where "versions_of reg' k = Some ((vs @ [?new]) @ new)"
          "map cv_value new = map snd (filter (\<lambda>(k', v). k' = k \<and> k \<noteq> []) es)" by blast
        with True ws vs False show ?thesis by (intro exI [of _ "?new # new"]) auto
      next
        case False
        with IH look(2) ws show ?thesis by fastforce
      qed
    next
      fix j assume j: "j \<noteq> []" "j \<in> fst ` set ((k, v) # es)"
      show "\<exists>vs. versions_of reg' j = Some vs \<and> vs \<noteq> [] \<and> mget ids' j = Some (version_id j (length vs))"
      proof (cases "j \<in> fst ` set es")
        case False
        with j have "j = k" by auto
        with False IH look(1) show ?thesis by (auto simp: versions_of_def)
      qed (use IH j in blast)
    qed (use IH in auto)
  qed
qed auto

section \<open>Properties\<close>

text \<open>Versions are append-only and retrievable: with a file whose versions are numbered and a text
  format that reads back what it prints, a successful addition keeps every earlier version in place, appends
  the written values in order, keeps the numbering, and the identifier it returns for a key finds the version
  with the last value written for that key.
\<close>

theorem added_version_is_found:
  assumes "addVersionEntries c True now es u file = Some (file', reg, ids)"
    and "numbered (loadVersionRegistry c file)" and "parse_registry c (print_registry c reg) = Some reg"
    and "print_registry c reg \<noteq> []"
  shows "numbered (loadVersionRegistry c file')
       \<and> (\<forall>k vs. getVersionsForKey c k file = Some vs \<longrightarrow> (\<exists>new. getVersionsForKey c k file' = Some (vs @ new)
            \<and> map cv_value new = map snd (filter (\<lambda>(k', v). k' = k \<and> k \<noteq> []) es)))
       \<and> (\<forall>k. k \<noteq> [] \<longrightarrow> k \<in> fst ` set es \<longrightarrow> (\<exists>i vs. mget ids k = Some i \<and> getVersionsForKey c k file' = Some vs
            \<and> vs \<noteq> [] \<and> getVersionById c k i file' = Some (Some (last vs))))"
proof -
  have add: "add_entries now u es (loadVersionRegistry c file) [] = Some (reg, ids)"
    and file': "file' = print_registry c reg"
    using assms(1) by (auto simp: addVersionEntries_def add_end_def add_begin_def saveVersionRegistry_def split: option.splits)
  have load: "loadVersionRegistry c file' = reg" using assms(3,4) by (simp add: loadVersionRegistry_def file')
  have num: "numbered reg" by (rule add_entries_numbered [OF add assms(2)])
  note eff = add_entries_effect [OF add]
  have find: "find (\<lambda>v. cv_versionId v = version_id k (length vs)) vs = Some (last vs)"
    if "versions_of reg k = Some vs" "vs \<noteq> []" for k vs
  proof -
    have ids: "cv_versionId (vs ! i) = version_id k (Suc i)" if "i < length vs" for i
      using arg_cong [OF numbered_versions [OF num \<open>versions_of reg k = Some vs\<close>], of "\<lambda>xs. xs ! i"] that
      by (simp del: upt_Suc)
    then have "\<forall>i<length vs - 1. cv_versionId (vs ! i) \<noteq> version_id k (length vs)" by auto
    moreover have "cv_versionId (vs ! (length vs - 1)) = version_id k (length vs)"
      using ids [of "length vs - 1"] that(2) by simp
    ultimately show ?thesis
      using that(2) by (auto simp: find_Some_iff last_conv_nth intro!: exI [of _ "length vs - 1"])
  qed
  show ?thesis
  proof (intro conjI allI impI)
    fix k assume "k \<noteq> []" "k \<in> fst ` set es"
    with eff obtain vs where "versions_of reg k = Some vs" "vs \<noteq> []" "mget ids k = Some (version_id k (length vs))" by blast
    with find show "\<exists>i vs. mget ids k = Some i \<and> getVersionsForKey c k file' = Some vs
            \<and> vs \<noteq> [] \<and> getVersionById c k i file' = Some (Some (last vs))"
      by (simp add: load getVersionsForKey_def getVersionById_def)
  qed (use num eff in \<open>simp_all add: load getVersionsForKey_def\<close>)
qed

text \<open>
  Two overlapping additions: both read the file before either writes it, so the second write
  removes the versions of the first.
\<close>

lemma overlapping_additions_lose_versions:
  assumes "add_end c True n1 [(k, v1)] u1 (add_begin c file) file = Some (file1, r1, i1)"
    and "add_end c True n2 [(k, v2)] u2 (add_begin c file) file1 = Some (file2, r2, i2)"
    and "parse_registry c (print_registry c r2) = Some r2" and "print_registry c r2 \<noteq> []"
    and "k \<noteq> []" and "getVersionsForKey c k file = Some vs"
  shows "\<exists>x. getVersionsForKey c k file2 = Some (vs @ [x]) \<and> cv_value x = v2"
proof -
  have "file2 = print_registry c r2" "add_entries n2 u2 [(k, v2)] (loadVersionRegistry c file) [] = Some (r2, i2)"
    using assms(2) by (auto simp: add_end_def add_begin_def saveVersionRegistry_def
        simp del: add_entries.simps split: option.splits)
  moreover have "versions_of (loadVersionRegistry c file) k = Some vs"
    using assms(6) by (simp add: getVersionsForKey_def)
  ultimately have "versions_of r2 k = Some (vs @ [\<lparr>cv_versionId = version_id k (length vs + 1), cv_displayName = [],
      cv_value = v2, cv_timestamp = n2, cv_userInput = u2\<rparr>])" "loadVersionRegistry c file2 = r2"
    using assms(3-5) by (auto simp: versions_of_def loadVersionRegistry_def Let_def)
  then show ?thesis by (simp add: getVersionsForKey_def)
qed

section \<open>Witnesses\<close>

definition w_registry :: registry where
  "w_registry = [(js ''a'', [\<lparr>cv_versionId = version_id (js ''a'') 1, cv_displayName = [], cv_value = js ''x'',
     cv_timestamp = 1, cv_userInput = []\<rparr>])]"

definition w_codec :: codec where
  "w_codec = \<lparr>parse_registry = (\<lambda>t. if t = [2] then Some w_registry else None),
     print_registry = (\<lambda>r. if r = w_registry then [2] else [1])\<rparr>"

lemma added_version_is_found_witness:
  "\<exists>i. getVersionById w_codec (js ''a'') i [2] = Some (Some (hd (the (mget w_registry (js ''a'')))))"
proof -
  have na: "js ''a'' \<notin> set inherited_names" by (simp add: inherited_names_def)
  have add: "addVersionEntries w_codec True 1 [(js ''a'', js ''x'')] [] [] = Some ([2], w_registry, [(js ''a'', version_id (js ''a'') 1)])"
    using na by (simp add: addVersionEntries_def add_end_def add_begin_def loadVersionRegistry_def versions_of_def
        saveVersionRegistry_def w_registry_def w_codec_def Let_def)
  have "numbered (loadVersionRegistry w_codec [])" by (simp add: loadVersionRegistry_def numbered_def)
  from added_version_is_found [OF add this] obtain i vs where
    "getVersionsForKey w_codec (js ''a'') [2] = Some vs" "getVersionById w_codec (js ''a'') i [2] = Some (Some (last vs))"
    by (auto simp: w_codec_def)
  then show ?thesis
    by (auto simp: getVersionsForKey_def loadVersionRegistry_def w_codec_def versions_of_def w_registry_def)
qed

end
