(* ===== verification/AgentEngine.thy ===== *)
theory AgentEngine
  imports JsValue
begin

text \<open>
  The generic engine of the editor's assistant: the stage pipeline
  (\<open>app/editor/src/ai/engine/pipelineEngine.ts\<close>), the tool registry (\<open>toolSystem.ts\<close>), the hook manager
  (\<open>hookManager.ts\<close>), types of \<open>engine/types.ts\<close>. Stages, tools and plugin hooks are parameters that
  transform the context or throw; elapsed times come with their outcomes.
\<close>

section \<open>Types\<close>

datatype stage_status = StageSuccess | StageError | StageSkipped

record StageResult =
  sr_stageId :: jstr
  sr_status :: stage_status
  sr_error :: "jstr option"
  sr_duration :: nat

record ToolCallResult =
  tc_toolName :: jstr
  tc_success :: bool
  tc_error :: "jstr option"
  tc_duration :: nat

record 'm PipelineContext =
  px_traceId :: jstr
  px_userMessage :: jstr
  px_toolResults :: "ToolCallResult list"
  px_aborted :: bool
  px_metadata :: 'm

record StageTrace =
  st_stageId :: jstr
  st_status :: stage_status
  st_duration :: nat
  st_toolCalls :: "(jstr \<times> nat \<times> bool) list"

text \<open>A stage returns a result or throws a message; either way it may have changed the context.\<close>

record 'm stage_outcome =
  so_context :: "'m PipelineContext"
  so_result :: "jstr + StageResult"
  so_elapsed :: nat

record 'm stage =
  stage_id :: jstr
  stage_run :: "'m PipelineContext \<Rightarrow> 'm stage_outcome"

text \<open>The hooks of the domain plugin; a hook that throws makes the whole run reject.\<close>

record 'm stage_hooks =
  onBeforeStage :: "(jstr \<Rightarrow> 'm PipelineContext \<Rightarrow> jstr + 'm PipelineContext) option"
  onAfterStage :: "(jstr \<Rightarrow> StageResult \<Rightarrow> 'm PipelineContext \<Rightarrow> jstr + 'm PipelineContext) option"

section \<open>The pipeline\<close>

record 'm pipeline =
  pl_stages :: "'m stage list"
  pl_onTrace :: bool

definition new_pipeline :: "'m pipeline" where
  "new_pipeline = \<lparr>pl_stages = [], pl_onTrace = False\<rparr>"

definition setStages :: "'m stage list \<Rightarrow> 'm pipeline \<Rightarrow> 'm pipeline" where
  "setStages ss p = p\<lparr>pl_stages := ss\<rparr>"

definition addStage :: "'m stage \<Rightarrow> 'm pipeline \<Rightarrow> 'm pipeline" where
  "addStage s p = p\<lparr>pl_stages := pl_stages p @ [s]\<rparr>"

definition onTrace :: "'m pipeline \<Rightarrow> 'm pipeline" where
  "onTrace p = p\<lparr>pl_onTrace := True\<rparr>"

definition aborted_result :: "jstr \<Rightarrow> StageResult" where
  "aborted_result i = \<lparr>sr_stageId = i, sr_status = StageSkipped, sr_error = Some (js ''Pipeline aborted''), sr_duration = 0\<rparr>"

definition before_hook :: "'m stage_hooks \<Rightarrow> jstr \<Rightarrow> 'm PipelineContext \<Rightarrow> jstr + 'm PipelineContext" where
  "before_hook h i ctx = (case onBeforeStage h of None \<Rightarrow> Inr ctx | Some f \<Rightarrow> f i ctx)"

definition after_hook :: "'m stage_hooks \<Rightarrow> jstr \<Rightarrow> StageResult \<Rightarrow> 'm PipelineContext \<Rightarrow> jstr + 'm PipelineContext" where
  "after_hook h i r ctx = (case onAfterStage h of None \<Rightarrow> Inr ctx | Some f \<Rightarrow> f i r ctx)"

text \<open>The result of one stage, an exception turned into an error result, with the measured time.\<close>

definition stage_result :: "'m stage \<Rightarrow> 'm stage_outcome \<Rightarrow> StageResult" where
  "stage_result s q = (case so_result q of
      Inr r \<Rightarrow> r\<lparr>sr_duration := so_elapsed q\<rparr>
    | Inl msg \<Rightarrow> \<lparr>sr_stageId = stage_id s, sr_status = StageError, sr_error = Some msg, sr_duration = so_elapsed q\<rparr>)"

definition stage_trace :: "'m stage \<Rightarrow> StageResult \<Rightarrow> 'm PipelineContext \<Rightarrow> StageTrace" where
  "stage_trace s r ctx = \<lparr>st_stageId = stage_id s, st_status = sr_status r, st_duration = sr_duration r,
     st_toolCalls = map (\<lambda>t. (tc_toolName t, tc_duration t, tc_success t)) (px_toolResults ctx)\<rparr>"

fun run_stages :: "'m stage_hooks \<Rightarrow> 'm stage list \<Rightarrow> 'm PipelineContext \<Rightarrow> jstr + StageResult list \<times> StageTrace list \<times> 'm PipelineContext" where
  "run_stages h [] ctx = Inr ([], [], ctx)"
| "run_stages h (s # ss) ctx =
     (if px_aborted ctx
      then (case run_stages h ss ctx of Inl e \<Rightarrow> Inl e
            | Inr (rs, ts, c) \<Rightarrow> Inr (aborted_result (stage_id s) # rs, ts, c))
      else (case before_hook h (stage_id s) ctx of Inl e \<Rightarrow> Inl e
        | Inr ctx1 \<Rightarrow>
            (let q = stage_run s ctx1; r = stage_result s q
             in case after_hook h (stage_id s) r (so_context q) of Inl e \<Rightarrow> Inl e
                | Inr ctx2 \<Rightarrow>
                    (let t = stage_trace s r ctx2
                     in if sr_status r = StageError then Inr ([r], [t], ctx2)
                        else (case run_stages h ss ctx2 of Inl e \<Rightarrow> Inl e
                              | Inr (rs, ts, c) \<Rightarrow> Inr (r # rs, t # ts, c))))))"

text \<open>The run builds its context from the partial one: a fresh trace identifier and no tool results.\<close>

definition execute :: "'m stage_hooks \<Rightarrow> jstr \<Rightarrow> 'm PipelineContext \<Rightarrow> 'm pipeline \<Rightarrow> jstr + StageResult list \<times> StageTrace list option \<times> jstr" where
  "execute h traceId ctx p =
     (case run_stages h (pl_stages p) (ctx\<lparr>px_traceId := traceId, px_toolResults := []\<rparr>) of
        Inl e \<Rightarrow> Inl e
      | Inr (rs, ts, c) \<Rightarrow> Inr (rs, if pl_onTrace p then Some ts else None, traceId))"

section \<open>The tool registry\<close>

text \<open>A tool returns a result or throws.\<close>

record 'm tool =
  tool_name :: jstr
  tool_description :: jstr
  tool_run :: "jstr \<Rightarrow> 'm PipelineContext \<Rightarrow> jstr + ToolCallResult"

definition registerTool :: "'m tool \<Rightarrow> (jstr, 'm tool) jmap \<Rightarrow> (jstr, 'm tool) jmap" where
  "registerTool t tools = mput (tool_name t) t tools"

definition registerTools :: "'m tool list \<Rightarrow> (jstr, 'm tool) jmap \<Rightarrow> (jstr, 'm tool) jmap" where
  "registerTools ts tools = fold (\<lambda>(n, t). mput n t) (map (\<lambda>t. (tool_name t, t)) ts) tools"

definition tool_error :: "jstr \<Rightarrow> jstr \<Rightarrow> nat \<Rightarrow> ToolCallResult" where
  "tool_error name msg d = \<lparr>tc_toolName = name, tc_success = False, tc_error = Some msg, tc_duration = d\<rparr>"

text \<open>\<open>onToolResult\<close> may throw after the tool has run; the exception replaces the tool's result.\<close>

definition executeTool ::
  "(jstr \<Rightarrow> ToolCallResult \<Rightarrow> jstr option) option \<Rightarrow> nat \<Rightarrow> jstr \<Rightarrow> jstr \<Rightarrow> 'm PipelineContext \<Rightarrow> (jstr, 'm tool) jmap \<Rightarrow> ToolCallResult" where
  "executeTool onToolResult elapsed name args ctx tools =
     (case mget tools name of
        None \<Rightarrow> tool_error name (js ''Tool '' @ [34] @ name @ [34] @ js '' not found'') 0
      | Some t \<Rightarrow>
          (case tool_run t args ctx of
             Inl msg \<Rightarrow> tool_error name msg elapsed
           | Inr r \<Rightarrow> (case onToolResult of
                 None \<Rightarrow> r
               | Some hook \<Rightarrow> (case hook name r of Some msg \<Rightarrow> tool_error name msg elapsed | None \<Rightarrow> r))))"

definition getTools :: "(jstr, 'm tool) jmap \<Rightarrow> 'm tool list" where
  "getTools tools = mvals tools"

definition getToolDefinitions :: "(jstr, 'm tool) jmap \<Rightarrow> (jstr \<times> jstr) list" where
  "getToolDefinitions tools = map (\<lambda>t. (tool_name t, tool_description t)) (getTools tools)"

definition clear_tools :: "(jstr, 'm tool) jmap \<Rightarrow> (jstr, 'm tool) jmap" where
  "clear_tools tools = []"

text \<open>A registered tool is found, the last registration of a name wins, the others stay.\<close>

lemma registered_tool:
  "mget (registerTools ts tools) n = (case map_of (rev (map (\<lambda>t. (tool_name t, t)) ts)) n of Some t \<Rightarrow> Some t | None \<Rightarrow> mget tools n)"
  by (simp add: registerTools_def jm.look_put_all)

section \<open>The hook manager\<close>

text \<open>
  The handler array of an event is an object that a running dispatch iterates by index while
  handlers may splice it; a deleted entry leaves the array to the dispatches that hold it.
\<close>

record hook_manager =
  hooks :: "(jstr, nat) jmap"
  arrays :: "nat list list"

definition new_hooks :: hook_manager where
  "new_hooks = \<lparr>hooks = [], arrays = []\<rparr>"

definition hook_on :: "jstr \<Rightarrow> nat \<Rightarrow> hook_manager \<Rightarrow> hook_manager" where
  "hook_on event handler H =
     (let H1 = (if mhas (hooks H) event then H
                else H\<lparr>hooks := mput event (length (arrays H)) (hooks H), arrays := arrays H @ [[]]\<rparr>);
          a = the (mget (hooks H1) event)
      in H1\<lparr>arrays := (arrays H1)[a := arrays H1 ! a @ [handler]]\<rparr>)"

definition hook_off :: "jstr \<Rightarrow> nat \<Rightarrow> hook_manager \<Rightarrow> hook_manager" where
  "hook_off event handler H =
     (case mget (hooks H) event of
        None \<Rightarrow> H
      | Some a \<Rightarrow>
          (let hs = remove1 handler (arrays H ! a); H1 = H\<lparr>arrays := (arrays H)[a := hs]\<rparr>
           in if hs = [] then H1\<lparr>hooks := mdel event (hooks H1)\<rparr> else H1))"

definition hook_has :: "jstr \<Rightarrow> hook_manager \<Rightarrow> bool" where
  "hook_has event H = (case mget (hooks H) event of None \<Rightarrow> False | Some a \<Rightarrow> arrays H ! a \<noteq> [])"

definition hook_clear :: "hook_manager \<Rightarrow> hook_manager" where
  "hook_clear H = H\<lparr>hooks := []\<rparr>"

datatype hook_op = HookOn jstr nat | HookOff jstr nat | HookClear

definition hook_op :: "hook_op \<Rightarrow> hook_manager \<Rightarrow> hook_manager" where
  "hook_op q H = (case q of HookOn e h \<Rightarrow> hook_on e h H | HookOff e h \<Rightarrow> hook_off e h H | HookClear \<Rightarrow> hook_clear H)"

text \<open>
  The loop of a dispatch: \<open>beh\<close> gives the changes of the table that a handler makes, and those of
  others while it is awaited. The fuel bounds the number of handlers called; \<open>None\<close> means it ran out.
\<close>

primrec dispatch_loop :: "nat \<Rightarrow> (nat \<Rightarrow> hook_op list) \<Rightarrow> nat \<Rightarrow> nat \<Rightarrow> hook_manager \<Rightarrow> nat list \<Rightarrow> (hook_manager \<times> nat list) option" where
  "dispatch_loop 0 beh a i H called = None"
| "dispatch_loop (Suc n) beh a i H called =
     (if i < length (arrays H ! a)
      then (let h = arrays H ! a ! i
            in dispatch_loop n beh a (Suc i) (fold hook_op (beh h) H) (called @ [h]))
      else Some (H, called))"

definition dispatch :: "nat \<Rightarrow> (nat \<Rightarrow> hook_op list) \<Rightarrow> jstr \<Rightarrow> hook_manager \<Rightarrow> (hook_manager \<times> nat list) option" where
  "dispatch n beh event H = (case mget (hooks H) event of None \<Rightarrow> Some (H, []) | Some a \<Rightarrow> dispatch_loop n beh a 0 H [])"

section \<open>Properties\<close>

text \<open>A run of the pipeline that is not rejected by a hook executes the stages in order and stops
  at the first error: only the last result can be an error; without an error there is one result per stage;
  once the context is aborted every further stage is skipped, none is executed; and the trace has one entry
  per executed stage with the status of its result.
\<close>

theorem pipeline_stops_at_first_error:
  assumes "run_stages h ss ctx = Inr (rs, ts, ctx')"
  shows "(\<forall>i. Suc i < length rs \<longrightarrow> sr_status (rs ! i) \<noteq> StageError)
       \<and> length rs \<le> length ss
       \<and> ((\<forall>r\<in>set rs. sr_status r \<noteq> StageError) \<longrightarrow> length rs = length ss)
       \<and> (px_aborted ctx \<longrightarrow> rs = map (aborted_result \<circ> stage_id) ss \<and> ts = [] \<and> ctx' = ctx)
       \<and> (\<exists>k. length ts = length rs - k \<and> k \<le> length rs \<and> map st_status ts = map sr_status (take (length ts) rs)
              \<and> drop (length ts) rs = map (aborted_result \<circ> stage_id) (take k (drop (length ts) ss)))"
  using assms
proof (induction h ss ctx arbitrary: rs ts ctx' rule: run_stages.induct)
  case (1 h ctx)
  then show ?case by simp
next
  case (2 h s ss ctx)
  show ?case
  proof (cases "px_aborted ctx")
    case True
    with "2.prems" obtain rs1 where r: "run_stages h ss ctx = Inr (rs1, ts, ctx')" "rs = aborted_result (stage_id s) # rs1"
      by (auto split: sum.splits)
    from "2.IH"(1) [OF True r(1)] True have "rs1 = map (aborted_result \<circ> stage_id) ss" "ts = []" "ctx' = ctx" by auto
    then show ?thesis
      by (auto simp: r aborted_result_def nth_Cons' intro!: exI [of _ "Suc (length ss)"])
  next
    case False
    with "2.prems" obtain ctx1 where c1: "before_hook h (stage_id s) ctx = Inr ctx1" by (auto split: sum.splits)
    let ?q = "stage_run s ctx1"
    let ?r = "stage_result s ?q"
    from "2.prems" False c1 obtain ctx2 where c2: "after_hook h (stage_id s) ?r (so_context ?q) = Inr ctx2"
      by (auto simp: Let_def split: sum.splits)
    let ?t = "stage_trace s ?r ctx2"
    have t: "st_status ?t = sr_status ?r" by (simp add: stage_trace_def)
    show ?thesis
    proof (cases "sr_status ?r = StageError")
      case True
      with "2.prems" False c1 c2 t show ?thesis by (auto simp: Let_def intro!: exI [of _ 0])
    next
      case noerr: False
      with "2.prems" False c1 c2 obtain rs1 ts1 where r: "run_stages h ss ctx2 = Inr (rs1, ts1, ctx')"
        "rs = ?r # rs1" "ts = ?t # ts1"
        by (auto simp: Let_def split: sum.splits)
      from "2.IH"(2) [OF False c1 refl refl c2 refl noerr r(1)] obtain k where
        ih: "\<forall>i. Suc i < length rs1 \<longrightarrow> sr_status (rs1 ! i) \<noteq> StageError" "length rs1 \<le> length ss"
        "(\<forall>r\<in>set rs1. sr_status r \<noteq> StageError) \<longrightarrow> length rs1 = length ss"
        and k: "length ts1 = length rs1 - k" "k \<le> length rs1" "map st_status ts1 = map sr_status (take (length ts1) rs1)"
        "drop (length ts1) rs1 = map (aborted_result \<circ> stage_id) (take k (drop (length ts1) ss))" by blast
      have "\<exists>k. length ts = length rs - k \<and> k \<le> length rs \<and> map st_status ts = map sr_status (take (length ts) rs)
              \<and> drop (length ts) rs = map (aborted_result \<circ> stage_id) (take k (drop (length ts) (s # ss)))"
        using k t r by (intro exI [of _ k]) (simp add: Suc_diff_le)
      moreover have "sr_status (rs ! i) \<noteq> StageError" if "Suc i < length rs" for i
        using that ih(1) noerr r by (cases i) auto
      ultimately show ?thesis using ih(2,3) noerr False r by (simp add: o_def)
    qed
  qed
qed

lemma dispatch_loop_unchanged:
  assumes "\<forall>h\<in>set (arrays H ! a). beh h = []" and "i \<le> length (arrays H ! a)" and "length (arrays H ! a) - i < n"
  shows "dispatch_loop n beh a i H called = Some (H, called @ drop i (arrays H ! a))"
  using assms
proof (induction n arbitrary: i called)
  case (Suc n)
  show ?case
  proof (cases "i < length (arrays H ! a)")
    case True
    with Suc.prems(1) have "beh (arrays H ! a ! i) = []" by simp
    with Suc.IH [of "Suc i" "called @ [arrays H ! a ! i]"] Suc.prems True show ?thesis
      by (simp add: Let_def Cons_nth_drop_Suc)
  qed (use Suc.prems in simp)
qed simp

text \<open>
  Removing a handler while its event is dispatched skips another one: when handlers leave the
  table alone every handler of the event is called once, in order; but when the first of two or more handlers
  removes itself, the second is not called in that dispatch, although it stays registered.
\<close>

theorem removal_during_dispatch_skips:
  assumes "mget (hooks H) event = Some a" and "a < length (arrays H)" and "arrays H ! a = h1 # h2 # hs"
    and "distinct (h1 # h2 # hs)" and "length hs + 2 < n"
    and "\<forall>h\<in>set hs. beh h = []" and "beh h2 = []"
  shows "(beh h1 = [] \<longrightarrow> dispatch n beh event H = Some (H, h1 # h2 # hs))
       \<and> (beh h1 = [HookOff event h1] \<longrightarrow>
           (\<exists>H'. dispatch n beh event H = Some (H', h1 # hs) \<and> mget (hooks H') event = Some a \<and> arrays H' ! a = h2 # hs))"
proof (intro conjI impI)
  assume "beh h1 = []"
  with assms show "dispatch n beh event H = Some (H, h1 # h2 # hs)"
    using dispatch_loop_unchanged [of H a beh 0 n "[]"] by (simp add: dispatch_def)
next
  assume b: "beh h1 = [HookOff event h1]"
  obtain m where m: "n = Suc m" using assms(5) by (cases n) auto
  let ?H = "hook_off event h1 H"
  have H': "arrays ?H ! a = h2 # hs" "mget (hooks ?H) event = Some a"
    using assms(1-4) by (simp_all add: hook_off_def Let_def)
  have "dispatch n beh event H = dispatch_loop m beh a 1 ?H [h1]"
    using assms(1,3) b by (simp add: dispatch_def m hook_op_def)
  also have "\<dots> = Some (?H, h1 # hs)"
    using dispatch_loop_unchanged [of ?H a beh 1 m "[h1]"] H' assms(5-7) m by simp
  finally show "\<exists>H'. dispatch n beh event H = Some (H', h1 # hs) \<and> mget (hooks H') event = Some a \<and> arrays H' ! a = h2 # hs"
    using H' by blast
qed

section \<open>Witnesses\<close>

definition w_hooks :: hook_manager where
  "w_hooks = hook_on (js ''e'') 2 (hook_on (js ''e'') 1 new_hooks)"

lemma removal_during_dispatch_skips_witness:
  "\<exists>H'. dispatch 5 (\<lambda>h. if h = 1 then [HookOff (js ''e'') 1] else []) (js ''e'') w_hooks = Some (H', [1])
     \<and> hook_has (js ''e'') H'"
proof -
  have w: "w_hooks = \<lparr>hooks = [(js ''e'', 0)], arrays = [[1, 2]]\<rparr>"
    by (simp add: w_hooks_def hook_on_def new_hooks_def mhas_def Let_def)
  from removal_during_dispatch_skips [of w_hooks "js ''e''" 0 1 2 "[]" 5 "\<lambda>h. if h = 1 then [HookOff (js ''e'') 1] else []"]
  show ?thesis by (auto simp: w hook_has_def)
qed

definition w_stage :: "jstr \<Rightarrow> bool \<Rightarrow> unit stage" where
  "w_stage i ok = \<lparr>stage_id = i, stage_run = (\<lambda>c. \<lparr>so_context = c,
     so_result = (if ok then Inr \<lparr>sr_stageId = i, sr_status = StageSuccess, sr_error = None, sr_duration = 0\<rparr> else Inl (js ''no'')),
     so_elapsed = 1\<rparr>)\<rparr>"

definition w_ctx :: "unit PipelineContext" where
  "w_ctx = \<lparr>px_traceId = [], px_userMessage = [], px_toolResults = [], px_aborted = False, px_metadata = ()\<rparr>"

lemma pipeline_stops_at_first_error_witness:
  "\<exists>rs ts c. run_stages \<lparr>onBeforeStage = None, onAfterStage = None\<rparr> [w_stage [1] True, w_stage [2] False, w_stage [3] True] w_ctx
     = Inr (rs, ts, c) \<and> length rs \<le> 3 \<and> length ts \<le> length rs"
proof -
  obtain rs ts c where r: "run_stages \<lparr>onBeforeStage = None, onAfterStage = None\<rparr>
      [w_stage [1] True, w_stage [2] False, w_stage [3] True] w_ctx = Inr (rs, ts, c)"
    by (simp add: w_stage_def w_ctx_def before_hook_def after_hook_def stage_result_def Let_def)
  from pipeline_stops_at_first_error [OF r] r show ?thesis by auto
qed

end
