(* ===== verification/JsNumber.thy ===== *)
theory JsNumber
  imports JsValue
begin

text \<open>
  The arithmetic of the language: binary64 with round-half-even. A number is \<^typ>\<open>jsnum\<close>; the two
  zeros are identified. Rounding is a function on rationals, so every operation computes, and its
  monotonicity carries the bounds of the components that clamp, average and scale.
\<close>

section \<open>Rounding\<close>

text \<open>The binade of a positive rational: \<open>2 powi e \<le> x < 2 powi (e + 1)\<close>.\<close>

function binade :: "rat \<Rightarrow> int" where
  "binade x = (if x \<le> 0 then 0 else if x < 1 then binade (2 * x) - 1 else if 2 \<le> x then binade (x / 2) + 1 else 0)"
  by auto

definition binade_measure :: "rat \<Rightarrow> nat" where
  "binade_measure x = (if 1 \<le> x then nat \<lfloor>x\<rfloor> else Suc (nat \<lfloor>1 / x\<rfloor>))"

lemma binade_measure_up:
  assumes "0 < x" "x < 1"
  shows "binade_measure (2 * x) < binade_measure x"
proof (cases "1 \<le> 2 * x")
  case True
  have "1 < 1 / x" using assms by (simp add: field_simps)
  then have "1 \<le> \<lfloor>1 / x\<rfloor>" by linarith
  moreover have "\<lfloor>2 * x\<rfloor> = 1" using True assms by linarith
  ultimately show ?thesis using True assms by (simp add: binade_measure_def nat_less_eq_zless le_nat_iff)
next
  case False
  have x2: "2 < 1 / x" using False assms by (simp add: field_simps)
  have "1 / (2 * x) = 1 / x / 2" by simp
  then have "\<lfloor>1 / (2 * x)\<rfloor> < \<lfloor>1 / x\<rfloor>" "0 \<le> \<lfloor>1 / (2 * x)\<rfloor>" using x2 by linarith+
  then show ?thesis using False assms by (simp add: binade_measure_def nat_less_eq_zless)
qed

lemma binade_measure_down:
  assumes "2 \<le> x"
  shows "binade_measure (x / 2) < binade_measure x"
proof -
  have "\<lfloor>x / 2\<rfloor> < \<lfloor>x\<rfloor>" "0 \<le> \<lfloor>x / 2\<rfloor>" "1 \<le> x / 2" using assms by linarith+
  then show ?thesis using assms by (simp add: binade_measure_def nat_less_eq_zless)
qed

termination binade
  by (relation "measure binade_measure") (auto intro: binade_measure_up binade_measure_down)

declare binade.simps [simp del]

lemma binade_bounds: "0 < x \<Longrightarrow> 2 powi binade x \<le> x \<and> x < 2 powi (binade x + 1)"
proof (induction x rule: binade.induct)
  case (1 x)
  have s: "(2::rat) powi (i + 1) = 2 * 2 powi i" for i by (simp add: power_int_add)
  have m: "(2::rat) powi (i - 1) = 2 powi i / 2" for i by (simp add: power_int_diff)
  consider "x < 1" | "2 \<le> x" | "1 \<le> x" "x < 2" by linarith
  then show ?case
  proof cases
    case 1
    with "1.IH"(1) "1.prems" have "2 powi binade (2 * x) \<le> 2 * x \<and> 2 * x < 2 powi (binade (2 * x) + 1)"
      by simp
    moreover have "binade x = binade (2 * x) - 1" using 1 "1.prems" by (simp add: binade.simps [of x])
    ultimately show ?thesis by (simp add: m s)
  next
    case 2
    with "1.IH"(2) "1.prems" have "2 powi binade (x / 2) \<le> x / 2 \<and> x / 2 < 2 powi (binade (x / 2) + 1)"
      by simp
    moreover have b: "binade x = binade (x / 2) + 1" using 2 "1.prems" by (simp add: binade.simps [of x])
    ultimately show ?thesis by (simp only: b s) linarith
  next
    case 3
    then have "binade x = 0" by (simp add: binade.simps [of x])
    with 3 show ?thesis by simp
  qed
qed

lemma two_powi_mono: "i \<le> j \<Longrightarrow> (2::rat) powi i \<le> 2 powi j"
  by (simp add: power_int_increasing)

lemma two_powi_less: "(2::rat) powi i < 2 powi j \<longleftrightarrow> i < j"
  by (metis less_le_not_le linorder_not_le one_less_numeral_iff power_int_strict_increasing semiring_norm(76) two_powi_mono)

lemma two_powi_pos: "0 < (2::rat) powi i"
  by simp

lemma binade_eq:
  assumes "2 powi e \<le> x" "x < 2 powi (e + 1)"
  shows "binade x = e"
proof -
  have "0 < x" using assms(1) two_powi_pos [of e] by linarith
  from binade_bounds [OF this] assms have "(2::rat) powi e < 2 powi (binade x + 1)" "(2::rat) powi binade x < 2 powi (e + 1)"
    by linarith+
  then show ?thesis by (simp add: two_powi_less)
qed

lemma binade_mono:
  assumes "0 < x" "x \<le> y"
  shows "binade x \<le> binade y"
proof -
  have "(2::rat) powi binade x < 2 powi (binade y + 1)"
    using assms binade_bounds [of x] binade_bounds [of y] by linarith
  then show ?thesis by (simp add: two_powi_less)
qed

text \<open>The nearest integer, halfway cases to the even one.\<close>

definition rne :: "rat \<Rightarrow> int" where
  "rne y = (let f = \<lfloor>y\<rfloor>; d = y - of_int f in
     if d < 1/2 then f else if 1/2 < d then f + 1 else if even f then f else f + 1)"

lemma rne_of_int [simp]: "rne (of_int i) = i"
  by (simp add: rne_def)

lemma rne_bounds: "of_int (rne y) \<le> y + 1/2 \<and> y - 1/2 \<le> of_int (rne y)"
  unfolding rne_def Let_def by (auto split: if_splits) linarith+

lemma rne_mono:
  assumes "x \<le> y"
  shows "rne x \<le> rne y"
proof (cases "\<lfloor>x\<rfloor> = \<lfloor>y\<rfloor>")
  case True
  with assms show ?thesis by (auto simp: rne_def Let_def split: if_splits)
next
  case False
  with assms have "\<lfloor>x\<rfloor> + 1 \<le> \<lfloor>y\<rfloor>" using floor_mono [OF assms] by linarith
  moreover have "rne x \<le> \<lfloor>x\<rfloor> + 1" "\<lfloor>y\<rfloor> \<le> rne y" by (auto simp: rne_def Let_def)
  ultimately show ?thesis by linarith
qed

lemma rne_minus: "rne (- y) = - rne y"
proof (cases "of_int \<lfloor>y\<rfloor> = y")
  case True
  then show ?thesis by (metis of_int_minus rne_of_int)
next
  case False
  then have "\<lfloor>- y\<rfloor> = - \<lfloor>y\<rfloor> - 1" by linarith
  then show ?thesis by (auto simp: rne_def Let_def)
qed

text \<open>The unit in the last place: 53 bits of precision, and no finer than the subnormals.\<close>

definition ulp :: "rat \<Rightarrow> rat" where
  "ulp x = 2 powi (max (binade \<bar>x\<bar>) (- 1022) - 52)"

definition dbl :: "rat \<Rightarrow> rat" where
  "dbl x = (if x = 0 then 0 else of_int (rne (x / ulp x)) * ulp x)"

lemma ulp_pos [simp]: "0 < ulp x" by (simp add: ulp_def)

lemma dbl_0 [simp]: "dbl 0 = 0" by (simp add: dbl_def)

lemma dbl_minus [simp]: "dbl (- x) = - dbl x"
  by (simp add: dbl_def ulp_def rne_minus)

lemma dbl_nonneg: "0 \<le> x \<Longrightarrow> 0 \<le> dbl x"
proof -
  assume "0 \<le> x"
  then have "rne (of_int 0) \<le> rne (x / ulp x)" by (intro rne_mono) (simp add: less_imp_le)
  then have "0 \<le> rne (x / ulp x)" by (simp only: rne_of_int)
  then show ?thesis by (simp add: dbl_def less_imp_le)
qed

lemma dbl_mono_pos:
  assumes "0 < x" "x \<le> y"
  shows "dbl x \<le> dbl y"
proof -
  define i where "i = max (binade x) (- 1022)"
  define j where "j = max (binade y) (- 1022)"
  have u: "ulp x = 2 powi (i - 52)" "ulp y = 2 powi (j - 52)" using assms by (simp_all add: ulp_def i_def j_def)
  have d: "dbl x = of_int (rne (x / ulp x)) * ulp x" "dbl y = of_int (rne (y / ulp y)) * ulp y"
    using assms by (simp_all add: dbl_def)
  have ij: "i \<le> j" using binade_mono [OF assms] by (simp add: i_def j_def)
  show ?thesis
  proof (cases "i = j")
    case True
    then have "ulp x = ulp y" by (simp add: u)
    moreover have "rne (x / ulp y) \<le> rne (y / ulp y)" using assms by (intro rne_mono divide_right_mono) (simp_all add: less_imp_le)
    ultimately show ?thesis by (simp add: d)
  next
    case False
    with ij have lt: "i + 1 \<le> j" by simp
    then have jb: "j = binade y" by (simp add: i_def j_def)
    have "x < 2 powi (binade x + 1)" "2 powi j \<le> y" using binade_bounds [of x] binade_bounds [of y] assms jb by auto
    moreover have "(2::rat) powi (binade x + 1) \<le> 2 powi (i + 1)" by (intro two_powi_mono) (simp add: i_def)
    ultimately have xy: "x \<le> 2 powi (i + 1)" "2 powi j \<le> y" by linarith+
    have p: "(2::rat) powi (i + 1) = 2 ^ 53 * ulp x" "(2::rat) powi j = 2 ^ 52 * ulp y"
      by (simp_all add: u power_int_diff power_int_add field_simps)
    have "rne (x / ulp x) \<le> rne (of_int (2 ^ 53))" using xy(1) p(1) by (intro rne_mono) (simp add: field_simps)
    moreover have "rne (of_int (2 ^ 52)) \<le> rne (y / ulp y)" using xy(2) p(2) by (intro rne_mono) (simp add: field_simps)
    ultimately have "rne (x / ulp x) \<le> 2 ^ 53" "2 ^ 52 \<le> rne (y / ulp y)" by (simp_all only: rne_of_int)
    then have "(of_int (rne (x / ulp x)) :: rat) \<le> of_int (2 ^ 53)" "(of_int (2 ^ 52) :: rat) \<le> of_int (rne (y / ulp y))"
      by (simp_all only: of_int_le_iff)
    then have "of_int (rne (x / ulp x)) \<le> (2::rat) ^ 53" "(2::rat) ^ 52 \<le> of_int (rne (y / ulp y))"
      by (simp_all only: of_int_power of_int_numeral)
    then have "dbl x \<le> 2 ^ 53 * ulp x" "2 ^ 52 * ulp y \<le> dbl y" by (simp_all add: d mult_right_mono)
    moreover have "(2::rat) powi (i + 1) \<le> 2 powi j" using lt by (rule two_powi_mono)
    ultimately show ?thesis using p by linarith
  qed
qed

lemma dbl_mono: "x \<le> y \<Longrightarrow> dbl x \<le> dbl y"
proof -
  assume le: "x \<le> y"
  consider "0 < x" | "x \<le> 0" "0 \<le> y" | "y < 0" by linarith
  then show ?thesis
  proof cases
    case 1 then show ?thesis using le by (rule dbl_mono_pos)
  next
    case 2
    then have "0 \<le> dbl (- x)" "0 \<le> dbl y" using dbl_nonneg [of "- x"] dbl_nonneg [of y] by auto
    then show ?thesis by simp
  next
    case 3
    then have "dbl (- y) \<le> dbl (- x)" using le by (intro dbl_mono_pos) auto
    then show ?thesis by simp
  qed
qed

section \<open>Exact values\<close>

lemma dbl_exact: "x / ulp x = of_int n \<Longrightarrow> dbl x = x"
  by (auto simp: dbl_def) (metis less_irrefl nonzero_eq_divide_eq ulp_pos)

lemma dbl_representable:
  assumes n: "\<bar>n\<bar> \<le> 2 ^ 53" and k: "- 1022 \<le> k"
  shows "dbl (of_int n * 2 powi (k - 52)) = of_int n * 2 powi (k - 52)"
proof (cases "n = 0")
  case False
  define x where "x = of_int n * (2::rat) powi (k - 52)"
  have ax: "\<bar>x\<bar> = of_int \<bar>n\<bar> * 2 powi (k - 52)" by (simp add: x_def abs_mult)
  have pos: "0 < \<bar>x\<bar>" using False by (simp add: x_def)
  have p53: "(2::rat) powi (k + 1) = of_int (2 ^ 53) * 2 powi (k - 52)" by (simp add: power_int_diff power_int_add)
  have div: "x / ulp x = of_int n * 2 powi (k - max (binade \<bar>x\<bar>) (- 1022))"
    by (simp add: x_def ulp_def power_int_diff field_simps flip: power_int_add)
  show ?thesis
  proof (cases "\<bar>n\<bar> = 2 ^ 53")
    case True
    then have "\<bar>x\<bar> = 2 powi (k + 1)" by (simp only: ax p53)
    then have "binade \<bar>x\<bar> = k + 1" by (intro binade_eq) (auto simp: two_powi_less two_powi_mono)
    then have "x / ulp x = of_int n / 2" using k by (simp add: div power_int_minus field_simps)
    also have "\<dots> = of_int (n div 2)"
    proof -
      have "even n" using True by (metis dvd_abs_iff even_numeral even_power zero_less_numeral)
      then show ?thesis by (elim evenE) simp
    qed
    finally show ?thesis using dbl_exact unfolding x_def by blast
  next
    case False
    then have "of_int \<bar>n\<bar> < (of_int (2 ^ 53) :: rat)" using n by (simp only: of_int_less_iff)
    then have "\<bar>x\<bar> < 2 powi (k + 1)" unfolding ax p53 by (intro mult_strict_right_mono) simp_all
    then have "2 powi binade \<bar>x\<bar> < (2::rat) powi (k + 1)" using binade_bounds [OF pos] by linarith
    then have "max (binade \<bar>x\<bar>) (- 1022) \<le> k" using k by (simp add: two_powi_less)
    then obtain m where "k - max (binade \<bar>x\<bar>) (- 1022) = int m" by (metis diff_ge_0_iff_ge nonneg_int_cases)
    then have "x / ulp x = of_int (n * 2 ^ m)" by (simp add: div)
    then show ?thesis using dbl_exact unfolding x_def by blast
  qed
qed simp

lemma dbl_of_int: "\<bar>n\<bar> \<le> 2 ^ 53 \<Longrightarrow> dbl (of_int n) = of_int n"
  using dbl_representable [of n 52] by simp

lemma dbl_of_nat: "n \<le> 2 ^ 53 \<Longrightarrow> dbl (of_nat n) = of_nat n"
proof -
  assume "n \<le> 2 ^ 53"
  then have "int n \<le> int (2 ^ 53)" by (simp only: of_nat_le_iff)
  then show ?thesis using dbl_of_int [of "int n"] by simp
qed

lemma dbl_1 [simp]: "dbl 1 = 1"
  using dbl_of_int [of 1] by simp

lemma dyadic_double: "\<bar>n\<bar> \<le> 2 ^ 53 \<Longrightarrow> k \<le> 1074 \<Longrightarrow> dbl (of_int n / 2 ^ k) = of_int n / 2 ^ k"
  using dbl_representable [of n "52 - int k"] by (simp add: power_int_minus_divide)

lemma dbl_half [simp]: "dbl (1/2) = 1/2" "dbl (1/4) = 1/4"
  using dyadic_double [of 1 1] dyadic_double [of 1 2] by simp_all

lemma dbl_idem [simp]: "dbl (dbl x) = dbl x"
proof (cases "x = 0")
  case False
  define k where "k = max (binade \<bar>x\<bar>) (- 1022)"
  have u: "ulp x = 2 powi (k - 52)" by (simp add: ulp_def k_def)
  have "\<bar>x\<bar> < 2 powi (binade \<bar>x\<bar> + 1)" using binade_bounds [of "\<bar>x\<bar>"] False by simp
  also have "\<dots> \<le> 2 powi (k + 1)" by (intro two_powi_mono) (simp add: k_def)
  also have "\<dots> = of_int (2 ^ 53) * ulp x" by (simp add: u power_int_diff power_int_add)
  finally have "x / ulp x \<le> of_int (2 ^ 53)" "of_int (- (2 ^ 53)) \<le> x / ulp x"
    using ulp_pos [of x] by (simp_all add: field_simps abs_less_iff)
  then have "rne (x / ulp x) \<le> rne (of_int (2 ^ 53))" "rne (of_int (- (2 ^ 53))) \<le> rne (x / ulp x)"
    by (auto intro: rne_mono)
  then have "\<bar>rne (x / ulp x)\<bar> \<le> 2 ^ 53" by (simp only: rne_of_int abs_le_iff minus_le_iff simp_thms)
  then have "dbl (of_int (rne (x / ulp x)) * ulp x) = of_int (rne (x / ulp x)) * ulp x"
    unfolding u by (rule dbl_representable) (simp add: k_def)
  then show ?thesis using False by (simp add: dbl_def [of x])
qed simp

lemma dbl_le: "x \<le> b \<Longrightarrow> dbl b = b \<Longrightarrow> dbl x \<le> b"
  using dbl_mono [of x b] by simp

lemma dbl_ge: "a \<le> x \<Longrightarrow> dbl a = a \<Longrightarrow> a \<le> dbl x"
  using dbl_mono [of a x] by simp

text \<open>Evaluation on a literal: \<open>s\<close> scales it to 53 bits and \<open>n\<close> is the nearest integer.\<close>

lemma dbl_eval:
  assumes b: "2 ^ 52 \<le> x * 2 ^ s" "x * 2 ^ s < 2 ^ 53" and n: "\<bar>x * 2 ^ s - of_int n\<bar> < 1 / 2"
    and s: "s \<le> 1074"
  shows "dbl x = of_int n / 2 ^ s"
proof -
  have x: "0 < x" using b(1) by (metis less_le_trans zero_less_mult_pos2 zero_less_numeral zero_less_power)
  have p: "(2::rat) powi (52 - int s) = 2 ^ 52 / 2 ^ s" "(2::rat) powi (52 - int s + 1) = 2 ^ 53 / 2 ^ s"
    by (simp_all add: power_int_diff power_int_add)
  have "2 ^ 52 / 2 ^ s \<le> x" "x < 2 ^ 53 / 2 ^ s" using b by (simp_all add: field_simps)
  then have "binade x = 52 - int s" by (intro binade_eq) (simp_all only: p)
  then have u: "ulp x = 1 / 2 ^ s" using x s by (simp add: ulp_def power_int_minus_divide)
  have "rne (x / ulp x) = n"
  proof -
    have "\<bar>of_int (rne (x * 2 ^ s)) - of_int n :: rat\<bar> < 1" using rne_bounds [of "x * 2 ^ s"] n by linarith
    then have "rne (x * 2 ^ s) = n" by linarith
    then show ?thesis by (simp add: u)
  qed
  then show ?thesis using x by (simp add: dbl_def u)
qed

section \<open>Operations\<close>

text \<open>Finite magnitudes end below \<open>2 ^ 1024\<close>.\<close>

definition finite_limit :: rat where
  "finite_limit = 2 ^ 1024"

lemma finite_limit_gt [simp]: "x \<le> 2 ^ 64 \<Longrightarrow> x < finite_limit"
  using power_strict_increasing [of 64 1024 "2::rat"] by (simp only: finite_limit_def) linarith

lemma finite_limit_pos [simp]: "0 < finite_limit" "- finite_limit < 0"
  by (simp_all add: finite_limit_def)

lemma finite_limit_lt [simp]: "- (2 ^ 64) \<le> x \<Longrightarrow> - finite_limit < x"
  using finite_limit_gt [of "- x"] by linarith

text \<open>The correctly rounded result, infinite when its magnitude exceeds the finite range.\<close>

definition num :: "rat \<Rightarrow> jsnum" where
  "num x = (let r = dbl x in if finite_limit \<le> r then PosInf else if r \<le> - (finite_limit) then NegInf else Fin r)"

fun nneg :: "jsnum \<Rightarrow> jsnum" where
  "nneg (Fin a) = Fin (- a)"
| "nneg NaN = NaN"
| "nneg PosInf = NegInf"
| "nneg NegInf = PosInf"

fun nadd :: "jsnum \<Rightarrow> jsnum \<Rightarrow> jsnum" where
  "nadd (Fin a) (Fin b) = num (a + b)"
| "nadd NaN y = NaN"
| "nadd x NaN = NaN"
| "nadd PosInf NegInf = NaN"
| "nadd NegInf PosInf = NaN"
| "nadd PosInf y = PosInf"
| "nadd NegInf y = NegInf"
| "nadd x PosInf = PosInf"
| "nadd x NegInf = NegInf"

definition nsub :: "jsnum \<Rightarrow> jsnum \<Rightarrow> jsnum" where
  "nsub x y = nadd x (nneg y)"

definition nsign :: "jsnum \<Rightarrow> int" where
  "nsign x = (case x of Fin a \<Rightarrow> (if a < 0 then -1 else if 0 < a then 1 else 0) | NaN \<Rightarrow> 0 | PosInf \<Rightarrow> 1 | NegInf \<Rightarrow> -1)"

definition ninf :: "int \<Rightarrow> jsnum" where
  "ninf s = (if s < 0 then NegInf else if 0 < s then PosInf else NaN)"

definition nmul :: "jsnum \<Rightarrow> jsnum \<Rightarrow> jsnum" where
  "nmul x y = (case (x, y) of
      (Fin a, Fin b) \<Rightarrow> num (a * b)
    | _ \<Rightarrow> if x = NaN \<or> y = NaN then NaN else ninf (nsign x * nsign y))"

definition ndiv :: "jsnum \<Rightarrow> jsnum \<Rightarrow> jsnum" where
  "ndiv x y = (case (x, y) of
      (Fin a, Fin b) \<Rightarrow> (if b = 0 then ninf (nsign x) else num (a / b))
    | (Fin a, PosInf) \<Rightarrow> Fin 0
    | (Fin a, NegInf) \<Rightarrow> Fin 0
    | (PosInf, Fin b) \<Rightarrow> (if b < 0 then NegInf else PosInf)
    | (NegInf, Fin b) \<Rightarrow> (if b < 0 then PosInf else NegInf)
    | _ \<Rightarrow> NaN)"

definition nabs :: "jsnum \<Rightarrow> jsnum" where
  "nabs x = (case x of Fin a \<Rightarrow> Fin \<bar>a\<bar> | NaN \<Rightarrow> NaN | _ \<Rightarrow> PosInf)"

definition num_le :: "jsnum \<Rightarrow> jsnum \<Rightarrow> bool" where
  "num_le x y \<longleftrightarrow> num_less x y \<or> (x = y \<and> x \<noteq> NaN)"

definition num_eq :: "jsnum \<Rightarrow> jsnum \<Rightarrow> bool" where
  "num_eq x y \<longleftrightarrow> x = y \<and> x \<noteq> NaN"

text \<open>\<open>Math.min\<close> and \<open>Math.max\<close> return NaN when an argument is.\<close>

definition nmin :: "jsnum \<Rightarrow> jsnum \<Rightarrow> jsnum" where
  "nmin x y = (if x = NaN \<or> y = NaN then NaN else if num_less y x then y else x)"

definition nmax :: "jsnum \<Rightarrow> jsnum \<Rightarrow> jsnum" where
  "nmax x y = (if x = NaN \<or> y = NaN then NaN else if num_less x y then y else x)"

text \<open>\<open>Math.max(lo, Math.min(hi, x))\<close>.\<close>

definition nclamp :: "jsnum \<Rightarrow> jsnum \<Rightarrow> jsnum \<Rightarrow> jsnum" where
  "nclamp lo hi x = nmax lo (nmin hi x)"

section \<open>Ranges\<close>

definition in_range :: "rat \<Rightarrow> rat \<Rightarrow> jsnum \<Rightarrow> bool" where
  "in_range a b x \<longleftrightarrow> (case x of Fin v \<Rightarrow> a \<le> v \<and> v \<le> b | _ \<Rightarrow> False)"

lemma in_range_Fin [simp]: "in_range a b (Fin v) \<longleftrightarrow> a \<le> v \<and> v \<le> b"
  by (simp add: in_range_def)

lemma in_rangeE: "in_range a b x \<Longrightarrow> (\<And>v. x = Fin v \<Longrightarrow> a \<le> v \<Longrightarrow> v \<le> b \<Longrightarrow> P) \<Longrightarrow> P"
  by (cases x) (auto simp: in_range_def)

lemma in_range_weaken: "in_range a b x \<Longrightarrow> c \<le> a \<Longrightarrow> b \<le> d \<Longrightarrow> in_range c d x"
  by (auto elim!: in_rangeE)

lemma num_Fin: "\<bar>dbl x\<bar> < finite_limit \<Longrightarrow> num x = Fin (dbl x)"
  unfolding num_def Let_def by (simp add: abs_less_iff not_le)

lemma dyadic_small:
  assumes n: "\<bar>n\<bar> \<le> 2 ^ 53"
  shows "\<bar>of_int n / 2 ^ k\<bar> < finite_limit"
proof -
  have "(of_int \<bar>n\<bar> :: rat) \<le> of_int (2 ^ 53)" using n by (simp only: of_int_le_iff)
  then have "\<bar>of_int n / 2 ^ k :: rat\<bar> \<le> 2 ^ 53 / 1"
    unfolding abs_divide by (intro frac_le) simp_all
  also have "\<dots> \<le> (2::rat) ^ 64" by simp
  finally show ?thesis by (rule finite_limit_gt)
qed

lemma num_dyadic: "\<bar>n\<bar> \<le> 2 ^ 53 \<Longrightarrow> k \<le> 1074 \<Longrightarrow> num (of_int n / 2 ^ k) = Fin (of_int n / 2 ^ k)"
  using dyadic_double [of n k] dyadic_small [of n k] num_Fin [of "of_int n / 2 ^ k"] by simp

lemma num_eval:
  assumes "2 ^ 52 \<le> x * 2 ^ s" "x * 2 ^ s < 2 ^ 53" "\<bar>x * 2 ^ s - of_int n\<bar> < 1 / 2" "s \<le> 1074"
  shows "num x = Fin (of_int n / 2 ^ s)"
proof -
  have d: "dbl x = of_int n / 2 ^ s" using assms by (rule dbl_eval)
  have "0 \<le> x" using assms(1) by (metis less_eq_rat_def less_le_trans zero_less_mult_pos2 zero_less_numeral zero_less_power)
  moreover have "x * 1 \<le> x * 2 ^ s" using \<open>0 \<le> x\<close> by (intro mult_left_mono) simp_all
  ultimately have "0 \<le> x" "x \<le> of_int (2 ^ 53)" using assms(2) by simp_all
  then have "0 \<le> dbl x" "dbl x \<le> of_int (2 ^ 53)"
    using dbl_nonneg dbl_le [of x "of_int (2 ^ 53)"] dbl_of_int [of "2 ^ 53"] by simp_all
  then have "\<bar>dbl x\<bar> < finite_limit" by (intro finite_limit_gt) simp
  then show ?thesis using d by (simp add: num_Fin)
qed

lemma num_int: "\<bar>n\<bar> \<le> 2 ^ 53 \<Longrightarrow> num (of_int n) = Fin (of_int n)"
  using num_dyadic [of n 0] by simp

lemma num_small [simp]: "num 0 = Fin 0" "num 1 = Fin 1" "num (1/2) = Fin (1/2)" "num (1/4) = Fin (1/4)"
  using num_dyadic [of 0 0] num_dyadic [of 1 0] num_dyadic [of 1 1] num_dyadic [of 1 2] by simp_all

lemma num_range:
  assumes "a \<le> x" "x \<le> b" "dbl a = a" "dbl b = b" "- (finite_limit) < a" "b < finite_limit"
  shows "in_range a b (num x)"
proof -
  have "a \<le> dbl x" "dbl x \<le> b" using assms by (auto intro: dbl_le dbl_ge)
  then show ?thesis using assms(5,6) by (simp add: num_def Let_def)
qed

text \<open>A clamp lands in its interval, unless its argument is NaN.\<close>

lemma nclamp_range: "a \<le> b \<Longrightarrow> x \<noteq> NaN \<Longrightarrow> in_range a b (nclamp (Fin a) (Fin b) x)"
  by (cases x) (auto simp: nclamp_def nmax_def nmin_def)

lemma nclamp_NaN [simp]: "nclamp lo hi NaN = NaN"
  by (simp add: nclamp_def nmax_def nmin_def)

lemma nclamp_id: "in_range a b x \<Longrightarrow> nclamp (Fin a) (Fin b) x = x"
  by (auto elim!: in_rangeE simp: nclamp_def nmax_def nmin_def)

lemma num_le_Fin [simp]: "num_le (Fin a) (Fin b) \<longleftrightarrow> a \<le> b"
  by (auto simp: num_le_def)

lemma NaN_incomparable [simp]: "\<not> num_less NaN x" "\<not> num_less x NaN" "\<not> num_le NaN x" "\<not> num_le x NaN"
  by (cases x; simp add: num_le_def)+

lemma num_range_dyadic:
  assumes "of_int p / 2 ^ k \<le> x" "x \<le> of_int q / 2 ^ l" and n: "\<bar>p\<bar> \<le> 2 ^ 53" "\<bar>q\<bar> \<le> 2 ^ 53" and "k \<le> 1074" "l \<le> 1074"
  shows "in_range (of_int p / 2 ^ k) (of_int q / 2 ^ l) (num x)"
proof -
  have "- finite_limit < of_int p / 2 ^ k" using dyadic_small [OF n(1), of k] by linarith
  moreover have "of_int q / 2 ^ l < finite_limit" using dyadic_small [OF n(2), of l] by linarith
  ultimately show ?thesis using assms by (intro num_range dyadic_double)
qed

lemma num_range_num:
  "a \<le> x \<Longrightarrow> x \<le> b \<Longrightarrow> dbl a = a \<Longrightarrow> dbl b = b \<Longrightarrow> - (finite_limit) < a \<Longrightarrow> b < finite_limit
   \<Longrightarrow> \<exists>v. num x = Fin v \<and> a \<le> v \<and> v \<le> b"
  using num_range [of a x b] by (auto elim: in_rangeE)

lemma nadd_range:
  assumes "in_range a b x" "in_range c d y" "dbl (a + c) = a + c" "dbl (b + d) = b + d"
    "- (finite_limit) < a + c" "b + d < finite_limit"
  shows "in_range (a + c) (b + d) (nadd x y)"
  using assms by (elim in_rangeE) (auto intro!: num_range add_mono)

lemma nmul_unit:
  assumes "in_range 0 a x" "in_range 0 1 y" "dbl a = a" "a < finite_limit"
  shows "in_range 0 a (nmul x y)"
proof -
  obtain u v where u: "x = Fin u" "0 \<le> u" "u \<le> a" and v: "y = Fin v" "0 \<le> v" "v \<le> 1"
    using assms(1,2) by (auto elim!: in_rangeE)
  then have "u * v \<le> a * 1" by (intro mult_mono) auto
  with u v assms(3,4) show ?thesis by (auto simp: nmul_def intro!: num_range)
qed

text \<open>An average of values from an interval lies in it.\<close>

lemma ndiv_average:
  assumes s: "in_range 0 (of_nat n) s" and n: "0 < n"
  shows "in_range 0 1 (ndiv s (Fin (of_nat n)))"
  using s
proof (rule in_rangeE)
  fix v assume "s = Fin v" "0 \<le> v" "v \<le> of_nat n"
  then show ?thesis using n by (auto simp: ndiv_def field_simps intro!: num_range)
qed

section \<open>Symmetric bounds and rounding errors\<close>

definition bounded :: "rat \<Rightarrow> jsnum \<Rightarrow> bool" where
  "bounded b x \<longleftrightarrow> in_range (- b) b x"

lemma bounded_not_NaN: "bounded b x \<Longrightarrow> x \<noteq> NaN"
  by (auto simp: bounded_def in_range_def)

lemma bounded_weaken: "bounded a x \<Longrightarrow> a \<le> b \<Longrightarrow> bounded b x"
  unfolding bounded_def by (erule in_range_weaken) simp_all

lemma in_range_bounded: "in_range a b x \<Longrightarrow> - c \<le> a \<Longrightarrow> b \<le> c \<Longrightarrow> bounded c x"
  unfolding bounded_def by (rule in_range_weaken)

lemma dbl_numeral [simp]: "numeral k \<le> (2 ^ 53 :: int) \<Longrightarrow> dbl (numeral k) = numeral k"
  using dbl_of_int [of "numeral k"] by simp

lemma bounded_num:
  assumes "\<bar>x\<bar> \<le> b" "dbl b = b" "b \<le> 2 ^ 64"
  shows "bounded b (num x)"
  unfolding bounded_def using assms by (intro num_range) (auto intro!: finite_limit_lt)

lemma bounded_mul:
  assumes "bounded a x" "bounded b y" "dbl (a * b) = a * b" "a * b \<le> 2 ^ 64"
  shows "bounded (a * b) (nmul x y)"
proof -
  obtain u v where u: "x = Fin u" "\<bar>u\<bar> \<le> a" and v: "y = Fin v" "\<bar>v\<bar> \<le> b"
    using assms(1,2) by (auto simp: bounded_def abs_le_iff elim!: in_rangeE)
  then have "\<bar>u * v\<bar> \<le> a * b" unfolding abs_mult by (intro mult_mono) auto
  with u v assms(3,4) show ?thesis by (simp add: nmul_def bounded_num)
qed

lemma bounded_add:
  assumes "bounded a x" "bounded b y" "dbl (a + b) = a + b" "a + b \<le> 2 ^ 64"
  shows "bounded (a + b) (nadd x y)"
proof -
  obtain u v where u: "x = Fin u" "\<bar>u\<bar> \<le> a" and v: "y = Fin v" "\<bar>v\<bar> \<le> b"
    using assms(1,2) by (auto simp: bounded_def abs_le_iff elim!: in_rangeE)
  then have "\<bar>u + v\<bar> \<le> a + b" by linarith
  with u v assms(3,4) show ?thesis by (simp add: bounded_num)
qed

lemma nmul_zero: "bounded b x \<Longrightarrow> nmul x (Fin 0) = Fin 0"
  by (auto simp: bounded_def nmul_def elim!: in_rangeE)

lemma bounded_neg: "bounded b x \<Longrightarrow> bounded b (nneg x)"
  by (auto simp: bounded_def elim!: in_rangeE)

lemma bounded_sub:
  "bounded a x \<Longrightarrow> bounded b y \<Longrightarrow> dbl (a + b) = a + b \<Longrightarrow> a + b \<le> 2 ^ 64 \<Longrightarrow> bounded (a + b) (nsub x y)"
  unfolding nsub_def by (intro bounded_add bounded_neg)

text \<open>Results of arithmetic are doubles.\<close>

definition is_double :: "jsnum \<Rightarrow> bool" where
  "is_double x \<longleftrightarrow> (case x of Fin v \<Rightarrow> dbl v = v | _ \<Rightarrow> True)"

lemma is_double_Fin [simp]: "is_double (Fin v) \<longleftrightarrow> dbl v = v"
  by (simp add: is_double_def)

lemma is_double_num [simp]: "is_double (num x)"
  by (simp add: num_def Let_def is_double_def)

lemma is_double_clamp: "is_double x \<Longrightarrow> is_double (nclamp (Fin 0) (Fin 1) x)"
  by (cases x) (simp_all add: nclamp_def nmax_def nmin_def is_double_def)

lemma is_double_nadd: "bounded a x \<Longrightarrow> bounded b y \<Longrightarrow> is_double (nadd x y)"
  by (auto simp: bounded_def elim!: in_rangeE)

lemma dbl_error:
  assumes "\<bar>x\<bar> \<le> 1"
  shows "\<bar>dbl x - x\<bar> \<le> 1 / 2 ^ 53"
proof (cases "x = 0")
  case False
  have "binade \<bar>x\<bar> \<le> binade 1" using False assms by (intro binade_mono) simp_all
  also have "binade 1 = 0" by (intro binade_eq) simp_all
  finally have "ulp x \<le> 2 powi (0 - 52)" unfolding ulp_def by (intro two_powi_mono) simp
  then have u: "ulp x \<le> 1 / 2 ^ 52" by (simp add: power_int_minus_divide)
  have "\<bar>of_int (rne (x / ulp x)) - x / ulp x\<bar> \<le> 1 / 2" using rne_bounds [of "x / ulp x"] by linarith
  then have "\<bar>of_int (rne (x / ulp x)) - x / ulp x\<bar> * ulp x \<le> 1 / 2 * (1 / 2 ^ 52)"
    using u by (intro mult_mono) (simp_all add: less_imp_le)
  moreover have "\<bar>of_int (rne (x / ulp x)) - x / ulp x\<bar> * ulp x = \<bar>dbl x - x\<bar>"
  proof -
    have "\<bar>of_int (rne (x / ulp x)) - x / ulp x\<bar> * ulp x = \<bar>(of_int (rne (x / ulp x)) - x / ulp x) * ulp x\<bar>"
      using ulp_pos [of x] by (simp only: abs_mult abs_of_pos)
    also have "(of_int (rne (x / ulp x)) - x / ulp x) * ulp x = dbl x - x"
      using False less_imp_neq [OF ulp_pos [of x]] by (simp add: dbl_def left_diff_distrib)
    finally show ?thesis .
  qed
  ultimately show ?thesis by simp
qed simp

text \<open>A double of a binade is a multiple of its unit.\<close>

lemma double_multiple:
  assumes "dbl x = x" "2 powi e \<le> x" "x < 2 powi (e + 1)" "- 1022 \<le> e"
  obtains n where "x = of_int n * 2 powi (e - 52)"
proof -
  have "0 < x" using assms(2) two_powi_pos [of e] by linarith
  moreover have "binade x = e" using assms(2,3) by (rule binade_eq)
  ultimately have "dbl x = of_int (rne (x / ulp x)) * 2 powi (e - 52)" using assms(4) by (simp add: dbl_def ulp_def)
  then show thesis using assms(1) that by metis
qed

section \<open>Ranges on a grid\<close>

text \<open>Bounds with a common denominator: rounding keeps them, and sums add them.\<close>

definition grid :: "int \<Rightarrow> int \<Rightarrow> jsnum \<Rightarrow> bool" where
  "grid p q x \<longleftrightarrow> in_range (of_int p / 2 ^ 16) (of_int q / 2 ^ 16) x"

lemma gridE:
  assumes "grid p q x"
  obtains v where "x = Fin v" "of_int p / 65536 \<le> v" "v \<le> of_int q / 65536"
  using assms by (auto simp: grid_def elim: in_rangeE)

lemma grid_num: "of_int p / 65536 \<le> x \<Longrightarrow> x \<le> of_int q / 65536 \<Longrightarrow> \<bar>p\<bar> \<le> 2 ^ 53 \<Longrightarrow> \<bar>q\<bar> \<le> 2 ^ 53 \<Longrightarrow> grid p q (num x)"
  unfolding grid_def by (rule num_range_dyadic) simp_all

lemma grid_Fin [simp]: "grid p q (Fin v) \<longleftrightarrow> of_int p / 65536 \<le> v \<and> v \<le> of_int q / 65536"
  by (simp add: grid_def)

lemma grid_weaken: "grid p q x \<Longrightarrow> p' \<le> p \<Longrightarrow> q \<le> q' \<Longrightarrow> grid p' q' x"
  unfolding grid_def by (erule in_range_weaken) (simp_all add: divide_right_mono)

lemma grid_add:
  assumes "grid p q x" "grid p' q' y" "\<bar>p + p'\<bar> \<le> 2 ^ 53" "\<bar>q + q'\<bar> \<le> 2 ^ 53"
  shows "grid (p + p') (q + q') (nadd x y)"
proof -
  obtain u v where "x = Fin u" "of_int p / 65536 \<le> u" "u \<le> of_int q / 65536"
    "y = Fin v" "of_int p' / 65536 \<le> v" "v \<le> of_int q' / 65536"
    using assms(1,2) by (auto elim!: gridE)
  then show ?thesis using assms(3,4) by (auto simp: add_divide_distrib intro!: grid_num)
qed

lemma grid_neg: "grid p q x \<Longrightarrow> grid (- q) (- p) (nneg x)"
  by (auto elim!: gridE)

lemma grid_sub:
  "grid p q x \<Longrightarrow> grid p' q' y \<Longrightarrow> \<bar>p - q'\<bar> \<le> 2 ^ 53 \<Longrightarrow> \<bar>q - p'\<bar> \<le> 2 ^ 53 \<Longrightarrow> grid (p - q') (q - p') (nsub x y)"
  unfolding nsub_def using grid_add [OF _ grid_neg, of p q x p' q' y] by simp

lemma grid_less: "grid p q x \<Longrightarrow> grid p' q' y \<Longrightarrow> q < p' \<Longrightarrow> num_less x y"
proof -
  assume a: "grid p q x" "grid p' q' y" "q < p'"
  obtain u v where "x = Fin u" "u \<le> of_int q / 65536" "y = Fin v" "of_int p' / 65536 \<le> v"
    using a(1,2) by (auto elim!: gridE)
  moreover have "(of_int q :: rat) / 65536 < of_int p' / 65536" using a(3) by (simp add: divide_strict_right_mono)
  ultimately show ?thesis by simp
qed

lemma nclamp_low: "num_less x lo \<Longrightarrow> num_le lo hi \<Longrightarrow> nclamp lo hi x = lo"
  by (cases x; cases lo; cases hi) (auto simp: nclamp_def nmax_def nmin_def num_le_def)

lemma nclamp_between: "num_le lo hi \<Longrightarrow> x \<noteq> NaN \<Longrightarrow> num_le lo (nclamp lo hi x) \<and> num_le (nclamp lo hi x) hi"
  by (cases x; cases lo; cases hi) (auto simp: nclamp_def nmax_def nmin_def num_le_def)

end
