(* ===== verification/PhraseStore.thy ===== *)
theory PhraseStore
  imports JsNumber
begin

text \<open>
  The learned catchphrases of the assistant (\<open>livedesign/src/llm-service/catchphrase/\<close>): the
  relational manager with its database and its memory fallback (\<open>relational-manager.ts\<close>), the
  confirmation service that promotes a candidate (\<open>user-confirmation.ts\<close>) and the frequency governor
  (\<open>frequency-governor.ts\<close>). The database driver, the identifier generator, the clock and the user's
  answers are parameters.
\<close>

section \<open>Records\<close>

datatype phrase_status = Candidate | Active

record relational =
  rel_id :: jstr
  rel_text :: jstr
  usageCount :: nat
  totalFeedbackScore :: jsnum
  feedbackCount :: nat
  averageScore :: jsnum
  rel_status :: phrase_status
  scenarioTag :: "jstr option"
  createdAt :: nat
  lastUsedAt :: "nat option"

text \<open>A row of the table; \<open>NULL\<close> columns are \<open>None\<close>.\<close>

record relational_row =
  row_id :: jstr
  row_text :: jstr
  usage_count :: nat
  total_feedback_score :: jsnum
  feedback_count :: nat
  average_score :: jsnum
  row_status :: phrase_status
  scenario_tag :: "jstr option"
  created_at :: nat
  last_used_at :: "nat option"

definition rowToCatchphrase :: "relational_row \<Rightarrow> relational" where
  "rowToCatchphrase r = \<lparr>rel_id = row_id r, rel_text = row_text r, usageCount = usage_count r,
     totalFeedbackScore = total_feedback_score r, feedbackCount = feedback_count r,
     averageScore = average_score r, rel_status = row_status r, scenarioTag = scenario_tag r,
     createdAt = created_at r, lastUsedAt = last_used_at r\<rparr>"

definition catchphraseToRow :: "relational \<Rightarrow> relational_row" where
  "catchphraseToRow c = \<lparr>row_id = rel_id c, row_text = rel_text c, usage_count = usageCount c,
     total_feedback_score = totalFeedbackScore c, feedback_count = feedbackCount c,
     average_score = averageScore c, row_status = rel_status c, scenario_tag = scenarioTag c,
     created_at = createdAt c, last_used_at = lastUsedAt c\<rparr>"

lemma row_round_trip [simp]: "rowToCatchphrase (catchphraseToRow c) = c"
  by (simp add: rowToCatchphrase_def catchphraseToRow_def)

lemma rowToCatchphrase_id [simp]: "rel_id (rowToCatchphrase r) = row_id r"
  by (simp add: rowToCatchphrase_def)

lemma catchphraseToRow_id [simp]: "row_id (catchphraseToRow c) = rel_id c"
  by (simp add: catchphraseToRow_def)

text \<open>The injected driver: each call may throw (\<open>None\<close>) and then has changed nothing.\<close>

record 'd database =
  db_create :: "'d \<Rightarrow> 'd option"
  db_insert :: "relational_row \<Rightarrow> 'd \<Rightarrow> 'd option"
  db_rows :: "'d \<Rightarrow> relational_row list option"

record 'd relational_manager =
  minUsage :: jsnum
  minFeedback :: jsnum
  rel_db :: "'d option"
  memory :: "relational list"

definition new_relational_manager :: "jsnum \<Rightarrow> jsnum \<Rightarrow> 'd relational_manager" where
  "new_relational_manager u f = \<lparr>minUsage = u, minFeedback = f, rel_db = None, memory = []\<rparr>"

definition updateConfig :: "jsnum \<Rightarrow> jsnum \<Rightarrow> 'd relational_manager \<Rightarrow> 'd relational_manager" where
  "updateConfig u f M = M\<lparr>minUsage := u, minFeedback := f\<rparr>"

text \<open>The table is created after the database is in place: a throw leaves it set.\<close>

definition setDatabase :: "'d database \<Rightarrow> 'd \<Rightarrow> 'd relational_manager \<Rightarrow> bool \<times> 'd relational_manager" where
  "setDatabase D d M =
     (case db_create D d of None \<Rightarrow> (False, M\<lparr>rel_db := Some d\<rparr>) | Some d' \<Rightarrow> (True, M\<lparr>rel_db := Some d'\<rparr>))"

section \<open>Lookup and persistence\<close>

definition findAll :: "'d database \<Rightarrow> 'd relational_manager \<Rightarrow> relational list" where
  "findAll D M =
     (case rel_db M of
        Some d \<Rightarrow> (case db_rows D d of Some rows \<Rightarrow> map rowToCatchphrase rows | None \<Rightarrow> [])
      | None \<Rightarrow> memory M)"

definition by_id :: "jstr \<Rightarrow> relational list \<Rightarrow> relational option" where
  "by_id i cs = find (\<lambda>c. rel_id c = i) cs"

definition findById :: "'d database \<Rightarrow> jstr \<Rightarrow> 'd relational_manager \<Rightarrow> relational option" where
  "findById D i M = by_id i (findAll D M)"

definition findByText :: "'d database \<Rightarrow> jstr \<Rightarrow> 'd relational_manager \<Rightarrow> relational option" where
  "findByText D t M = find (\<lambda>c. rel_text c = t) (findAll D M)"

definition getActive :: "'d database \<Rightarrow> 'd relational_manager \<Rightarrow> relational list" where
  "getActive D M = filter (\<lambda>c. rel_status c = Active) (findAll D M)"

definition getCandidates :: "'d database \<Rightarrow> 'd relational_manager \<Rightarrow> relational list" where
  "getCandidates D M = filter (\<lambda>c. rel_status c = Candidate) (findAll D M)"

definition findByScenarioTag :: "'d database \<Rightarrow> jstr \<Rightarrow> 'd relational_manager \<Rightarrow> relational list" where
  "findByScenarioTag D tag M = filter (\<lambda>c. rel_status c = Active \<and> scenarioTag c = Some tag) (findAll D M)"

text \<open>The memory store overwrites the first record with the identifier, or appends.\<close>

fun upsert :: "relational \<Rightarrow> relational list \<Rightarrow> relational list" where
  "upsert c [] = [c]"
| "upsert c (x # xs) = (if rel_id x = rel_id c then c # xs else x # upsert c xs)"

definition persistToMemory :: "relational \<Rightarrow> 'd relational_manager \<Rightarrow> 'd relational_manager" where
  "persistToMemory c M = M\<lparr>memory := upsert c (memory M)\<rparr>"

definition persist :: "'d database \<Rightarrow> relational \<Rightarrow> 'd relational_manager \<Rightarrow> 'd relational_manager" where
  "persist D c M =
     (case rel_db M of
        Some d \<Rightarrow> (case db_insert D (catchphraseToRow c) d of
            Some d' \<Rightarrow> M\<lparr>rel_db := Some d'\<rparr> | None \<Rightarrow> persistToMemory c M)
      | None \<Rightarrow> persistToMemory c M)"

section \<open>Usage and feedback\<close>

definition incrementUsage :: "'d database \<Rightarrow> nat \<Rightarrow> relational \<Rightarrow> 'd relational_manager \<Rightarrow> relational \<times> 'd relational_manager" where
  "incrementUsage D now c M =
     (let c' = c\<lparr>usageCount := Suc (usageCount c), lastUsedAt := Some now\<rparr> in (c', persist D c' M))"

text \<open>\<open>incrementUsage\<close> looks the identifier up again: the record it gets is the first one with it.\<close>

definition recordUsage :: "'d database \<Rightarrow> jstr \<Rightarrow> nat \<Rightarrow> jstr \<Rightarrow> jstr option \<Rightarrow> 'd relational_manager
    \<Rightarrow> relational \<times> 'd relational_manager" where
  "recordUsage D uuid now text tag M =
     (case findByText D text M of
        Some e \<Rightarrow> incrementUsage D now (case findById D (rel_id e) M of Some x \<Rightarrow> x | None \<Rightarrow> e) M
      | None \<Rightarrow>
          (let c = \<lparr>rel_id = uuid, rel_text = text, usageCount = 1, totalFeedbackScore = Fin 0,
                    feedbackCount = 0, averageScore = Fin 0, rel_status = Candidate,
                    scenarioTag = tag, createdAt = now, lastUsedAt = Some now\<rparr>
           in (c, persist D c M)))"

definition submitFeedback :: "'d database \<Rightarrow> jstr \<Rightarrow> jsnum \<Rightarrow> 'd relational_manager
    \<Rightarrow> relational option \<times> 'd relational_manager" where
  "submitFeedback D i score M =
     (case findById D i M of
        None \<Rightarrow> (None, M)
      | Some c \<Rightarrow>
          (let n = Suc (feedbackCount c);
               total = nadd (totalFeedbackScore c) (nclamp (Fin 0) (Fin 1) score);
               c' = c\<lparr>feedbackCount := n, totalFeedbackScore := total,
                      averageScore := ndiv total (Fin (of_nat n))\<rparr>
           in (Some c', persist D c' M)))"

section \<open>Promotion\<close>

definition eligible :: "'d relational_manager \<Rightarrow> relational \<Rightarrow> bool" where
  "eligible M c \<longleftrightarrow> rel_status c \<noteq> Active
     \<and> num_le (minUsage M) (Fin (of_nat (usageCount c))) \<and> num_le (minFeedback M) (averageScore c)"

definition checkPromotionEligibility :: "'d database \<Rightarrow> jstr \<Rightarrow> 'd relational_manager \<Rightarrow> bool" where
  "checkPromotionEligibility D i M = (case findById D i M of None \<Rightarrow> False | Some c \<Rightarrow> eligible M c)"

definition confirmPromotion :: "'d database \<Rightarrow> jstr \<Rightarrow> 'd relational_manager \<Rightarrow> relational option \<times> 'd relational_manager" where
  "confirmPromotion D i M =
     (case findById D i M of
        None \<Rightarrow> (None, M)
      | Some c \<Rightarrow> (let c' = c\<lparr>rel_status := Active\<rparr> in (Some c', persist D c' M)))"

definition rejectPromotion :: "'d database \<Rightarrow> jstr \<Rightarrow> 'd relational_manager \<Rightarrow> 'd relational_manager" where
  "rejectPromotion D i M =
     (case findById D i M of
        None \<Rightarrow> M
      | Some c \<Rightarrow> persist D (c\<lparr>usageCount := 0, totalFeedbackScore := Fin 0, feedbackCount := 0,
                              averageScore := Fin 0\<rparr>) M)"

section \<open>The confirmation service\<close>

datatype confirmation_result = Confirmed | Denied | TimedOut

record promotion_request =
  req_id :: jstr
  req_text :: jstr
  req_usage :: nat
  req_score :: jsnum

text \<open>The dialogs that are open: \<open>requestPromotion\<close> is suspended at the callback for each of them.\<close>

record 'd confirmation =
  manager :: "'d relational_manager"
  has_callback :: bool
  dialogs :: "promotion_request list"

definition registerConfirmCallback :: "'d confirmation \<Rightarrow> 'd confirmation" where
  "registerConfirmCallback S = S\<lparr>has_callback := True\<rparr>"

text \<open>The result, or \<open>None\<close> while the promise waits for the user.\<close>

definition requestPromotion :: "'d database \<Rightarrow> jstr \<Rightarrow> 'd confirmation \<Rightarrow> confirmation_result option \<times> 'd confirmation" where
  "requestPromotion D i S =
     (case findById D i (manager S) of
        None \<Rightarrow> (Some Denied, S)
      | Some c \<Rightarrow>
          if rel_status c = Active then (Some Confirmed, S)
          else if \<not> checkPromotionEligibility D i (manager S) then (Some Denied, S)
          else if has_callback S then
            (None, S\<lparr>dialogs := dialogs S @ [\<lparr>req_id = rel_id c, req_text = rel_text c,
                       req_usage = usageCount c, req_score = averageScore c\<rparr>]\<rparr>)
          else (Some Confirmed, S\<lparr>manager := snd (confirmPromotion D i (manager S))\<rparr>))"

fun handleResult :: "'d database \<Rightarrow> jstr \<Rightarrow> confirmation_result \<Rightarrow> 'd confirmation \<Rightarrow> 'd confirmation" where
  "handleResult D i Confirmed S = S\<lparr>manager := snd (confirmPromotion D i (manager S))\<rparr>"
| "handleResult D i Denied S = S\<lparr>manager := rejectPromotion D i (manager S)\<rparr>"
| "handleResult D i TimedOut S = S"

text \<open>The \<open>k\<close>-th open dialog is answered; a callback that rejects (\<open>None\<close>) only ends the request.\<close>

definition answer :: "'d database \<Rightarrow> nat \<Rightarrow> confirmation_result option \<Rightarrow> 'd confirmation \<Rightarrow> 'd confirmation" where
  "answer D k r S =
     (if k < length (dialogs S) then
        (let S' = S\<lparr>dialogs := take k (dialogs S) @ drop (Suc k) (dialogs S)\<rparr>
         in case r of None \<Rightarrow> S' | Some res \<Rightarrow> handleResult D (req_id (dialogs S ! k)) res S')
      else S)"

section \<open>The frequency governor\<close>

record governor =
  maxPerRound :: jsnum
  sessionCounters :: "(jstr, nat) jmap"

definition new_governor :: "jsnum \<Rightarrow> governor" where
  "new_governor n = \<lparr>maxPerRound = n, sessionCounters = []\<rparr>"

definition gov_updateConfig :: "jsnum \<Rightarrow> governor \<Rightarrow> governor" where
  "gov_updateConfig n g = g\<lparr>maxPerRound := n\<rparr>"

definition getOutputCount :: "jstr \<Rightarrow> governor \<Rightarrow> nat" where
  "getOutputCount s g = (case mget (sessionCounters g) s of Some n \<Rightarrow> n | None \<Rightarrow> 0)"

definition canOutput :: "jstr \<Rightarrow> governor \<Rightarrow> bool" where
  "canOutput s g = num_less (Fin (of_nat (getOutputCount s g))) (maxPerRound g)"

definition recordOutput :: "jstr \<Rightarrow> governor \<Rightarrow> nat \<times> governor" where
  "recordOutput s g =
     (let n = getOutputCount s g + 1 in (n, g\<lparr>sessionCounters := mput s n (sessionCounters g)\<rparr>))"

definition resetSession :: "jstr \<Rightarrow> governor \<Rightarrow> governor" where
  "resetSession s g = g\<lparr>sessionCounters := mdel s (sessionCounters g)\<rparr>"

definition clearAll :: "governor \<Rightarrow> governor" where
  "clearAll g = g\<lparr>sessionCounters := []\<rparr>"

section \<open>What the manager needs of its store\<close>

lemma by_id_distinct: "distinct (map rel_id xs) \<Longrightarrow> c \<in> set xs \<longleftrightarrow> by_id (rel_id c) xs = Some c"
  by (induction xs) (auto simp: by_id_def)

locale phrase_store =
  fixes phrases :: "'s \<Rightarrow> relational list"
    and save :: "relational \<Rightarrow> 's \<Rightarrow> 's"
    and ok :: "'s \<Rightarrow> bool"
  assumes save_lookup: "ok s \<Longrightarrow> by_id i (phrases (save c s)) = (if i = rel_id c then Some c else by_id i (phrases s))"
    and save_ok: "ok s \<Longrightarrow> ok (save c s)"
    and ids_distinct: "ok s \<Longrightarrow> distinct (map rel_id (phrases s))"
begin

lemma by_id_mem: "ok s \<Longrightarrow> c \<in> set (phrases s) \<longleftrightarrow> by_id (rel_id c) (phrases s) = Some c"
  using ids_distinct by (rule by_id_distinct)

lemma mem_by_id: "ok s \<Longrightarrow> by_id i (phrases s) = Some c \<longleftrightarrow> c \<in> set (phrases s) \<and> rel_id c = i"
  using by_id_mem [of s c] by (auto simp: by_id_def find_Some_iff)

lemma save_members: "ok s \<Longrightarrow> set (phrases (save c s)) = insert c {d \<in> set (phrases s). rel_id d \<noteq> rel_id c}"
proof (rule set_eqI)
  fix d assume s: "ok s"
  show "d \<in> set (phrases (save c s)) \<longleftrightarrow> d \<in> insert c {d \<in> set (phrases s). rel_id d \<noteq> rel_id c}"
    using by_id_mem [OF save_ok [OF s], of d c] by_id_mem [OF s, of d] save_lookup [OF s, of "rel_id d" c]
    by auto
qed

text \<open>A property of single records that a save of a good record keeps.\<close>

lemma save_all: "ok s \<Longrightarrow> (\<forall>d\<in>set (phrases s). P d) \<Longrightarrow> P c \<Longrightarrow> \<forall>d\<in>set (phrases (save c s)). P d"
  by (simp add: save_members)

end

text \<open>
  The database keeps its promise when an insertion succeeds and replaces the row with the same
  primary key, and a query returns the rows, at most one for a key.
\<close>

definition reliable :: "'d database \<Rightarrow> ('d \<Rightarrow> bool) \<Rightarrow> bool" where
  "reliable D good \<longleftrightarrow>
     (\<forall>d. good d \<longrightarrow> (\<exists>rows. db_rows D d = Some rows \<and> distinct (map row_id rows)))
   \<and> (\<forall>d r. good d \<longrightarrow> (\<exists>d'. db_insert D r d = Some d' \<and> good d'
        \<and> (\<forall>i. find (\<lambda>x. row_id x = i) (the (db_rows D d'))
             = (if i = row_id r then Some r else find (\<lambda>x. row_id x = i) (the (db_rows D d))))))"

definition store_ok :: "'d database \<Rightarrow> ('d \<Rightarrow> bool) \<Rightarrow> 'd relational_manager \<Rightarrow> bool" where
  "store_ok D good M \<longleftrightarrow> (case rel_db M of
      Some d \<Rightarrow> reliable D good \<and> good d | None \<Rightarrow> distinct (map rel_id (memory M)))"

lemma upsert_lookup: "by_id i (upsert c xs) = (if i = rel_id c then Some c else by_id i xs)"
  by (induction xs) (auto simp: by_id_def)

lemma upsert_ids: "map rel_id (upsert c xs) = (if rel_id c \<in> rel_id ` set xs then map rel_id xs else map rel_id xs @ [rel_id c])"
  by (induction xs) auto

lemma by_id_rows:
  "by_id i (map rowToCatchphrase rows) = map_option rowToCatchphrase (find (\<lambda>x. row_id x = i) rows)"
  by (induction rows) (auto simp: by_id_def)

lemma store_laws:
  assumes ok: "store_ok D good M"
  shows "by_id i (findAll D (persist D c M)) = (if i = rel_id c then Some c else by_id i (findAll D M))
    \<and> store_ok D good (persist D c M) \<and> distinct (map rel_id (findAll D M))"
proof (cases "rel_db M")
    case None
    with ok show ?thesis
      by (auto simp: findAll_def persist_def persistToMemory_def store_ok_def upsert_lookup upsert_ids)
  next
    case (Some d)
    with ok have r: "reliable D good" "good d" by (simp_all add: store_ok_def)
    then obtain rows where rows: "db_rows D d = Some rows" "distinct (map row_id rows)"
      unfolding reliable_def by blast
    from r obtain d' where d': "db_insert D (catchphraseToRow c) d = Some d'" "good d'"
      "\<forall>i. find (\<lambda>x. row_id x = i) (the (db_rows D d'))
         = (if i = row_id (catchphraseToRow c) then Some (catchphraseToRow c)
            else find (\<lambda>x. row_id x = i) (the (db_rows D d)))"
      unfolding reliable_def by blast
    from r(1) d'(2) obtain rows' where rows': "db_rows D d' = Some rows'" unfolding reliable_def by blast
    have "map rel_id (map rowToCatchphrase rows) = map row_id rows" by simp
    with Some r(1) rows rows' d' show ?thesis
      by (simp add: findAll_def persist_def store_ok_def by_id_rows del: map_map)
qed

interpretation st: phrase_store "findAll D" "persist D" "store_ok D good"
  for D :: "'d database" and good :: "'d \<Rightarrow> bool"
  by unfold_locales (simp_all add: store_laws)

section \<open>Runs\<close>

text \<open>What happens to the service: phrases are used and rated, promotions are requested, dialogs are answered.\<close>

datatype phrase_event =
    Usage jstr nat jstr "jstr option"
  | Feedback jstr jsnum
  | Request jstr
  | Answer nat "confirmation_result option"

fun phrase_step :: "'d database \<Rightarrow> phrase_event \<Rightarrow> 'd confirmation \<Rightarrow> 'd confirmation" where
  "phrase_step D (Usage uuid now t tag) S = S\<lparr>manager := snd (recordUsage D uuid now t tag (manager S))\<rparr>"
| "phrase_step D (Feedback i score) S = S\<lparr>manager := snd (submitFeedback D i score (manager S))\<rparr>"
| "phrase_step D (Request i) S = snd (requestPromotion D i S)"
| "phrase_step D (Answer k r) S = answer D k r S"

text \<open>The phrases whose dialog the user answered with a confirmation during a run.\<close>

fun approved :: "'d database \<Rightarrow> phrase_event list \<Rightarrow> 'd confirmation \<Rightarrow> jstr set" where
  "approved D [] S = {}"
| "approved D (e # es) S =
     (case e of Answer k (Some Confirmed) \<Rightarrow> (if k < length (dialogs S) then {req_id (dialogs S ! k)} else {}) | _ \<Rightarrow> {})
     \<union> approved D es (phrase_step D e S)"

text \<open>Every operation saves at most one record; this is the record it saves.\<close>

lemma recordUsage_saves:
  obtains c where "findByText D t M = None" "snd (recordUsage D uuid now t tag M) = persist D c M"
      "rel_status c = Candidate" "feedbackCount c = 0" "totalFeedbackScore c = Fin 0" "averageScore c = Fin 0" "usageCount c = 1"
  | c d where "d \<in> set (findAll D M)" "snd (recordUsage D uuid now t tag M) = persist D c M"
      "rel_id c = rel_id d" "rel_status c = rel_status d" "feedbackCount c = feedbackCount d"
      "totalFeedbackScore c = totalFeedbackScore d" "averageScore c = averageScore d"
proof (cases "findByText D t M")
  case None
  define c where "c = \<lparr>rel_id = uuid, rel_text = t, usageCount = 1, totalFeedbackScore = Fin 0,
    feedbackCount = 0, averageScore = Fin 0, rel_status = Candidate, scenarioTag = tag,
    createdAt = now, lastUsedAt = Some now\<rparr>"
  have "snd (recordUsage D uuid now t tag M) = persist D c M"
    using None by (simp add: recordUsage_def Let_def c_def)
  then show thesis using None by (intro that(1) [of c]) (simp_all add: c_def)
next
  case (Some e)
  define d where "d = (case findById D (rel_id e) M of Some x \<Rightarrow> x | None \<Rightarrow> e)"
  have "d \<in> set (findAll D M)"
    using Some by (auto simp: d_def findByText_def findById_def by_id_def find_Some_iff split: option.splits)
  moreover have "snd (recordUsage D uuid now t tag M) = persist D (d\<lparr>usageCount := Suc (usageCount d), lastUsedAt := Some now\<rparr>) M"
    using Some by (simp add: recordUsage_def incrementUsage_def d_def Let_def)
  ultimately show thesis by (rule that(2)) simp_all
qed

lemma findById_mem: "findById D i M = Some c \<Longrightarrow> c \<in> set (findAll D M) \<and> rel_id c = i"
  by (auto simp: findById_def by_id_def find_Some_iff)

lemma persist_config [simp]: "minUsage (persist D c M) = minUsage M" "minFeedback (persist D c M) = minFeedback M"
  by (auto simp: persist_def persistToMemory_def split: option.splits)

lemma manager_config [simp]:
  "minUsage (snd (recordUsage D uuid now t tag M)) = minUsage M"
  "minFeedback (snd (recordUsage D uuid now t tag M)) = minFeedback M"
  "minUsage (snd (submitFeedback D i score M)) = minUsage M"
  "minFeedback (snd (submitFeedback D i score M)) = minFeedback M"
  "minUsage (snd (confirmPromotion D i M)) = minUsage M"
  "minFeedback (snd (confirmPromotion D i M)) = minFeedback M"
  "minUsage (rejectPromotion D i M) = minUsage M"
  "minFeedback (rejectPromotion D i M) = minFeedback M"
  by (simp_all add: recordUsage_def incrementUsage_def submitFeedback_def confirmPromotion_def rejectPromotion_def
        Let_def split: option.splits)

text \<open>A condition on single records that holds of new records and that every saved record keeps
  is kept by the whole run; confirmations may use that the user approved.\<close>

definition records_ok :: "'d database \<Rightarrow> ('d \<Rightarrow> bool) \<Rightarrow> (relational \<Rightarrow> bool) \<Rightarrow> 'd relational_manager \<Rightarrow> bool" where
  "records_ok D good P M \<longleftrightarrow> store_ok D good M \<and> (\<forall>c\<in>set (findAll D M). P c)"

lemma records_persist: "records_ok D good P M \<Longrightarrow> P c \<Longrightarrow> records_ok D good P (persist D c M)"
  using st.save_ok [of D good M c] st.save_all [of D good M P c] by (simp add: records_ok_def)

lemma records_usage:
  assumes M: "records_ok D good P M"
    and new: "\<And>c. rel_status c = Candidate \<Longrightarrow> feedbackCount c = 0 \<Longrightarrow> totalFeedbackScore c = Fin 0
       \<Longrightarrow> averageScore c = Fin 0 \<Longrightarrow> P c"
    and same: "\<And>c d. P d \<Longrightarrow> rel_id c = rel_id d \<Longrightarrow> rel_status c = rel_status d \<Longrightarrow> feedbackCount c = feedbackCount d
       \<Longrightarrow> totalFeedbackScore c = totalFeedbackScore d \<Longrightarrow> averageScore c = averageScore d \<Longrightarrow> P c"
  shows "records_ok D good P (snd (recordUsage D uuid now t tag M))"
proof (rule recordUsage_saves [of D t M uuid now tag])
  fix c assume "snd (recordUsage D uuid now t tag M) = persist D c M" "rel_status c = Candidate"
    "feedbackCount c = 0" "totalFeedbackScore c = Fin 0" "averageScore c = Fin 0"
  then show ?thesis using M new by (simp add: records_persist)
next
  fix c d assume *: "d \<in> set (findAll D M)" "snd (recordUsage D uuid now t tag M) = persist D c M"
      "rel_id c = rel_id d" "rel_status c = rel_status d" "feedbackCount c = feedbackCount d"
      "totalFeedbackScore c = totalFeedbackScore d" "averageScore c = averageScore d"
  then have "P c" using M same [of d c] by (auto simp: records_ok_def)
  then show ?thesis using * M by (simp add: records_persist)
qed

lemma records_weaken: "records_ok D good P M \<Longrightarrow> (\<And>c. P c \<Longrightarrow> Q c) \<Longrightarrow> records_ok D good Q M"
  by (auto simp: records_ok_def)

section \<open>Promotion needs a confirmation\<close>

definition active_in :: "jstr set \<Rightarrow> relational \<Rightarrow> bool" where
  "active_in A c \<longleftrightarrow> (rel_status c = Active \<longrightarrow> rel_id c \<in> A)"

definition request_eligible :: "'d relational_manager \<Rightarrow> promotion_request \<Rightarrow> bool" where
  "request_eligible M q \<longleftrightarrow> num_le (minUsage M) (Fin (of_nat (req_usage q))) \<and> num_le (minFeedback M) (req_score q)"

definition service_ok :: "'d database \<Rightarrow> ('d \<Rightarrow> bool) \<Rightarrow> jstr set \<Rightarrow> 'd confirmation \<Rightarrow> bool" where
  "service_ok D good A S \<longleftrightarrow> has_callback S \<and> records_ok D good (active_in A) (manager S)
     \<and> (\<forall>q\<in>set (dialogs S). request_eligible (manager S) q)"

lemma request_ok: "service_ok D good A S \<Longrightarrow> service_ok D good A (snd (requestPromotion D i S))"
  by (auto simp: service_ok_def requestPromotion_def checkPromotionEligibility_def eligible_def request_eligible_def
        split: option.splits)

lemma feedback_ok:
  assumes "records_ok D good (active_in A) M"
  shows "records_ok D good (active_in A) (snd (submitFeedback D i score M))"
proof (cases "findById D i M")
  case (Some c)
  then have "active_in A c" using assms findById_mem [OF Some] by (simp add: records_ok_def)
  then show ?thesis using assms Some by (auto simp: submitFeedback_def Let_def active_in_def intro!: records_persist)
qed (simp add: submitFeedback_def assms)

lemma reject_ok:
  assumes "records_ok D good (active_in A) M"
  shows "records_ok D good (active_in A) (rejectPromotion D i M)"
proof (cases "findById D i M")
  case (Some c)
  then have "active_in A c" using assms findById_mem [OF Some] by (simp add: records_ok_def)
  then show ?thesis using assms Some by (auto simp: rejectPromotion_def active_in_def intro!: records_persist)
qed (simp add: rejectPromotion_def assms)

lemma confirm_ok:
  assumes "records_ok D good (active_in A) M"
  shows "records_ok D good (active_in (insert i A)) (snd (confirmPromotion D i M))"
proof -
  have M: "records_ok D good (active_in (insert i A)) M"
    using assms by (rule records_weaken) (auto simp: active_in_def)
  show ?thesis
  proof (cases "findById D i M")
    case (Some c)
    then have "rel_id c = i" using findById_mem by blast
    then show ?thesis using M Some by (auto simp: confirmPromotion_def Let_def active_in_def intro!: records_persist)
  qed (simp add: confirmPromotion_def M)
qed

lemma answer_ok:
  assumes S: "service_ok D good A S"
  shows "service_ok D good (A \<union> (case r of Some Confirmed \<Rightarrow>
      (if k < length (dialogs S) then {req_id (dialogs S ! k)} else {}) | _ \<Rightarrow> {})) (answer D k r S)"
proof (cases "k < length (dialogs S)")
  case True
  let ?S' = "S\<lparr>dialogs := take k (dialogs S) @ drop (Suc k) (dialogs S)\<rparr>"
  let ?i = "req_id (dialogs S ! k)"
  have S': "service_ok D good A ?S'"
    using S by (auto simp: service_ok_def dest: in_set_takeD in_set_dropD)
  have a: "answer D k r S = (case r of None \<Rightarrow> ?S' | Some res \<Rightarrow> handleResult D ?i res ?S')"
    using True by (simp add: answer_def Let_def)
  consider "r = None" | "r = Some Confirmed" | "r = Some Denied" | "r = Some TimedOut"
    by (cases r) (auto intro: confirmation_result.exhaust)
  then show ?thesis
  proof cases
    case 2
    with S' a True confirm_ok [of D good A "manager S" ?i] show ?thesis
      by (auto simp: service_ok_def request_eligible_def)
  next
    case 3
    with S' a reject_ok [of D good A "manager S" ?i] show ?thesis
      by (auto simp: service_ok_def request_eligible_def)
  qed (use S' a in simp_all)
next
  case False
  then show ?thesis using S by (auto simp: answer_def split: option.splits confirmation_result.splits)
qed

lemma step_ok:
  assumes S: "service_ok D good A S"
  shows "service_ok D good (A \<union> (case e of Answer k (Some Confirmed) \<Rightarrow>
      (if k < length (dialogs S) then {req_id (dialogs S ! k)} else {}) | _ \<Rightarrow> {})) (phrase_step D e S)"
proof (cases e)
  case (Usage uuid now t tag)
  have "records_ok D good (active_in A) (snd (recordUsage D uuid now t tag (manager S)))"
    using S by (intro records_usage) (auto simp: service_ok_def active_in_def)
  with S Usage show ?thesis by (simp add: service_ok_def request_eligible_def)
next
  case (Feedback i score)
  with S feedback_ok [of D good A "manager S"] show ?thesis by (simp add: service_ok_def request_eligible_def)
next
  case (Request i)
  with request_ok [OF S] show ?thesis by simp
next
  case (Answer k r)
  have "(case e of Answer k (Some Confirmed) \<Rightarrow> (if k < length (dialogs S) then {req_id (dialogs S ! k)} else {}) | _ \<Rightarrow> {})
    = (case r of Some Confirmed \<Rightarrow> (if k < length (dialogs S) then {req_id (dialogs S ! k)} else {}) | _ \<Rightarrow> {})"
    unfolding Answer by (simp split: option.split)
  with answer_ok [OF S, of k r] Answer show ?thesis by simp
qed

lemma service_run_ok: "service_ok D good A S \<Longrightarrow> service_ok D good (A \<union> approved D es S) (fold (phrase_step D) es S)"
proof (induction es arbitrary: A S)
  case (Cons e es)
  from Cons.IH [OF step_ok [OF Cons.prems, of e]] show ?case by (simp add: Un_assoc)
qed simp


text \<open>A table that never fails is a reliable database.\<close>

fun row_upsert :: "relational_row \<Rightarrow> relational_row list \<Rightarrow> relational_row list" where
  "row_upsert r [] = [r]"
| "row_upsert r (x # xs) = (if row_id x = row_id r then r # xs else x # row_upsert r xs)"

definition table_db :: "relational_row list database" where
  "table_db = \<lparr>db_create = Some, db_insert = (\<lambda>r d. Some (row_upsert r d)), db_rows = Some\<rparr>"

lemma row_upsert_find: "find (\<lambda>x. row_id x = i) (row_upsert r xs) = (if i = row_id r then Some r else find (\<lambda>x. row_id x = i) xs)"
  by (induction xs) auto

lemma row_upsert_ids: "map row_id (row_upsert r xs) = (if row_id r \<in> row_id ` set xs then map row_id xs else map row_id xs @ [row_id r])"
  by (induction xs) auto

lemma table_db_reliable: "reliable table_db (\<lambda>d. distinct (map row_id d))"
  by (auto simp: reliable_def table_db_def row_upsert_find row_upsert_ids)

definition sample_service :: "relational_row list confirmation" where
  "sample_service = \<lparr>manager = snd (setDatabase table_db [] (new_relational_manager (Fin 1) (Fin 0))),
     has_callback = True, dialogs = []\<rparr>"

definition sample_events :: "phrase_event list" where
  "sample_events = [Usage (js ''p1'') 5 (js ''go on'') None, Request (js ''p1''), Answer 0 (Some Confirmed)]"


section \<open>Ratings stay in the unit interval\<close>

definition rated_ok :: "nat \<Rightarrow> relational \<Rightarrow> bool" where
  "rated_ok n c \<longleftrightarrow> feedbackCount c \<le> n \<and> in_range 0 (of_nat (feedbackCount c)) (totalFeedbackScore c)
     \<and> in_range 0 1 (averageScore c)"

lemma rated_mono: "rated_ok n c \<Longrightarrow> n \<le> m \<Longrightarrow> rated_ok m c"
  by (auto simp: rated_ok_def)

lemma rating_ok:
  assumes M: "records_ok D good (rated_ok n) M" and n: "n < 2 ^ 53" and score: "score \<noteq> NaN"
  shows "records_ok D good (rated_ok (Suc n)) (snd (submitFeedback D i score M))"
proof (cases "findById D i M")
  case None
  have "records_ok D good (rated_ok (Suc n)) M" using M by (rule records_weaken) (auto intro: rated_mono)
  then show ?thesis using None by (simp add: submitFeedback_def)
next
  case (Some c)
  let ?m = "feedbackCount c"
  have c: "rated_ok n c" using M findById_mem [OF Some] by (simp add: records_ok_def)
  have le: "Suc ?m \<le> 2 ^ 53" using c n by (simp add: rated_ok_def)
  then have exact: "dbl (of_nat ?m + 1) = of_nat ?m + 1" using dbl_of_nat [of "Suc ?m"] by (simp add: add.commute)
  have "of_nat ?m + 1 < finite_limit"
    using le of_nat_mono [OF le, where 'a = rat] by (intro finite_limit_gt) simp
  then have total: "in_range 0 (of_nat (Suc ?m)) (nadd (totalFeedbackScore c) (nclamp (Fin 0) (Fin 1) score))"
    using c score exact nadd_range [of 0 "of_nat ?m" "totalFeedbackScore c" 0 1 "nclamp (Fin 0) (Fin 1) score"]
    by (simp add: rated_ok_def nclamp_range add.commute)
  have "in_range 0 1 (ndiv (nadd (totalFeedbackScore c) (nclamp (Fin 0) (Fin 1) score)) (Fin (of_nat (Suc ?m))))"
    using total by (rule ndiv_average) simp
  with total c have "rated_ok (Suc n) (c\<lparr>feedbackCount := Suc ?m,
      totalFeedbackScore := nadd (totalFeedbackScore c) (nclamp (Fin 0) (Fin 1) score),
      averageScore := ndiv (nadd (totalFeedbackScore c) (nclamp (Fin 0) (Fin 1) score)) (Fin (of_nat (Suc ?m)))\<rparr>)"
    by (simp add: rated_ok_def)
  moreover have "records_ok D good (rated_ok (Suc n)) M"
    using M by (rule records_weaken) (auto intro: rated_mono)
  ultimately show ?thesis using Some by (simp add: submitFeedback_def Let_def records_persist)
qed

lemma rated_confirm:
  assumes M: "records_ok D good (rated_ok n) M"
  shows "records_ok D good (rated_ok n) (snd (confirmPromotion D i M))"
proof (cases "findById D i M")
  case (Some c)
  then have "rated_ok n c" using M findById_mem [OF Some] by (simp add: records_ok_def)
  then show ?thesis using M Some by (simp add: confirmPromotion_def Let_def rated_ok_def records_persist)
qed (simp add: confirmPromotion_def M)

lemma rated_reject:
  assumes M: "records_ok D good (rated_ok n) M"
  shows "records_ok D good (rated_ok n) (rejectPromotion D i M)"
  using M by (auto simp: rejectPromotion_def rated_ok_def intro!: records_persist split: option.split)

lemma rated_answer:
  assumes M: "records_ok D good (rated_ok n) (manager S)"
  shows "records_ok D good (rated_ok n) (manager (answer D k r S))"
proof -
  have "records_ok D good (rated_ok n) (manager (handleResult D i res S'))"
    if "manager S' = manager S" for i res S'
    using M that by (cases res) (simp_all add: rated_confirm rated_reject)
  then show ?thesis using M by (simp add: answer_def Let_def split: option.split)
qed

lemma rated_step:
  assumes M: "records_ok D good (rated_ok n) (manager S)" and n: "n < 2 ^ 53"
    and score: "\<And>i score. e = Feedback i score \<Longrightarrow> score \<noteq> NaN"
  shows "records_ok D good (rated_ok (Suc n)) (manager (phrase_step D e S))"
proof (cases e)
  case (Feedback i score)
  then show ?thesis using rating_ok [OF M n] score by simp
next
  case (Usage uuid now t tag)
  have "records_ok D good (rated_ok n) (manager (phrase_step D e S))"
    using M Usage by (auto simp: rated_ok_def intro!: records_usage)
  then show ?thesis by (rule records_weaken) (auto intro: rated_mono)
next
  case (Request i)
  have "records_ok D good (rated_ok n) (manager (phrase_step D e S))"
    using M Request by (auto simp: requestPromotion_def rated_confirm split: option.split)
  then show ?thesis by (rule records_weaken) (auto intro: rated_mono)
next
  case (Answer k r)
  then have "records_ok D good (rated_ok n) (manager (phrase_step D e S))"
    using rated_answer [OF M] by simp
  then show ?thesis by (rule records_weaken) (auto intro: rated_mono)
qed

lemma rated_run:
  assumes "records_ok D good (rated_ok n) (manager S)" and "n + length es \<le> 2 ^ 53"
    and "\<forall>e\<in>set es. \<forall>i score. e = Feedback i score \<longrightarrow> score \<noteq> NaN"
  shows "records_ok D good (rated_ok (n + length es)) (manager (fold (phrase_step D) es S))"
  using assms
proof (induction es arbitrary: n S)
  case (Cons e es)
  have "records_ok D good (rated_ok (Suc n)) (manager (phrase_step D e S))"
    using Cons.prems by (intro rated_step) auto
  from Cons.IH [OF this] Cons.prems show ?case by simp
qed simp

text \<open>In binary64 arithmetic, the average rating of every phrase is a finite number between zero and
  one, and the accumulated score is finite and at most the number of ratings: every rating is clamped,
  rounding is monotone, and the counts are exact. This holds after any run of at most \<open>2 ^ 53\<close> events that
  starts with an empty store, for any scores but NaN, the infinite ones included.\<close>

theorem ratings_in_unit_interval:
  assumes "store_ok D good (manager S)" and "findAll D (manager S) = []"
    and "length es \<le> 2 ^ 53" and "\<forall>e\<in>set es. \<forall>i score. e = Feedback i score \<longrightarrow> score \<noteq> NaN"
  shows "\<forall>c\<in>set (findAll D (manager (fold (phrase_step D) es S))).
    in_range 0 1 (averageScore c) \<and> in_range 0 (of_nat (feedbackCount c)) (totalFeedbackScore c)"
  using rated_run [of D good 0 S es] assms by (simp add: records_ok_def rated_ok_def)

definition sample_ratings :: "phrase_event list" where
  "sample_ratings = [Usage (js ''p1'') 5 (js ''go on'') None, Feedback (js ''p1'') PosInf,
     Feedback (js ''p1'') (Fin (1/4))]"

lemma ratings_in_unit_interval_witness:
  "map averageScore (findAll table_db (manager (fold (phrase_step table_db) sample_ratings sample_service))) = [Fin (5/8)]
   \<and> list_all (\<lambda>c. in_range 0 1 (averageScore c) \<and> in_range 0 (of_nat (feedbackCount c)) (totalFeedbackScore c))
        (findAll table_db (manager (fold (phrase_step table_db) sample_ratings sample_service)))"
proof -
  have "store_ok table_db (\<lambda>d. distinct (map row_id d)) (manager sample_service)"
    using table_db_reliable by (simp add: store_ok_def sample_service_def setDatabase_def table_db_def new_relational_manager_def)
  moreover have "findAll table_db (manager sample_service) = []"
    by (simp add: findAll_def sample_service_def setDatabase_def table_db_def new_relational_manager_def)
  moreover have "map averageScore (findAll table_db (manager (fold (phrase_step table_db) sample_ratings sample_service))) = [Fin (5/8)]"
    using num_dyadic [of 5 2] num_dyadic [of 5 3]
    by (simp add: sample_ratings_def sample_service_def setDatabase_def table_db_def new_relational_manager_def
        recordUsage_def findByText_def findAll_def persist_def submitFeedback_def findById_def by_id_def
        rowToCatchphrase_def catchphraseToRow_def nclamp_def nmax_def nmin_def ndiv_def Let_def)
  ultimately show ?thesis
    using ratings_in_unit_interval [of table_db "\<lambda>d. distinct (map row_id d)" sample_service sample_ratings]
    by (simp add: sample_ratings_def list_all_iff)
qed

section \<open>Two dialogs for one phrase\<close>

text \<open>Nothing keeps a phrase from being asked about twice, and the answer is not checked against the
  thresholds again.\<close>

lemma request_opens:
  "findById D i (manager S) = Some c \<Longrightarrow> eligible (manager S) c \<Longrightarrow> has_callback S \<Longrightarrow>
   requestPromotion D i S = (None, S\<lparr>dialogs := dialogs S @ [\<lparr>req_id = i, req_text = rel_text c,
       req_usage = usageCount c, req_score = averageScore c\<rparr>]\<rparr>)"
  by (auto simp: requestPromotion_def checkPromotionEligibility_def eligible_def dest: findById_mem)

lemma findById_persist:
  "store_ok D good M \<Longrightarrow> findById D i (persist D c M) = (if i = rel_id c then Some c else findById D i M)"
  by (simp add: findById_def st.save_lookup)

text \<open>A dialog that times out changes no record, so the phrase stays eligible and the next request
  asks again at once, although a timeout is documented to be a refusal. And when two dialogs for
  one eligible phrase are open, the user can refuse the first and confirm the second: the phrase is then active with a
  usage count and an average of zero, the state that the refusal had reset it to, and below the thresholds if these are positive.\<close>

theorem stale_confirmation_promotes:
  assumes ok: "store_ok D good (manager S)" and c: "findById D i (manager S) = Some c"
    and el: "eligible (manager S) c" and S: "has_callback S" "dialogs S = []"
    and pos: "num_less (Fin 0) (minUsage (manager S))"
  shows "let S1 = snd (requestPromotion D i S); S2 = snd (requestPromotion D i S1);
             T = answer D 0 (Some TimedOut) S1; R = answer D 0 (Some Denied) S2; A = answer D 0 (Some Confirmed) R
         in manager T = manager S \<and> fst (requestPromotion D i T) = None
          \<and> \<not> checkPromotionEligibility D i (manager R)
          \<and> (\<exists>c'. findById D i (manager A) = Some c' \<and> rel_status c' = Active
               \<and> usageCount c' = 0 \<and> averageScore c' = Fin 0)"
proof -
  define q where "q = \<lparr>req_id = i, req_text = rel_text c, req_usage = usageCount c, req_score = averageScore c\<rparr>"
  define M where "M = manager S"
  define c0 where "c0 = c\<lparr>usageCount := 0, totalFeedbackScore := Fin 0, feedbackCount := 0, averageScore := Fin 0\<rparr>"
  have id: "rel_id c = i" using findById_mem [OF c] by simp
  have S1: "requestPromotion D i S = (None, S\<lparr>dialogs := [q]\<rparr>)"
    using request_opens [OF c el S(1)] S(2) by (simp add: q_def)
  have S2: "requestPromotion D i (S\<lparr>dialogs := [q]\<rparr>) = (None, S\<lparr>dialogs := [q, q]\<rparr>)"
    using request_opens [of D i "S\<lparr>dialogs := [q]\<rparr>" c] c el S(1) by (simp add: q_def)
  have T: "answer D 0 (Some TimedOut) (S\<lparr>dialogs := [q]\<rparr>) = S\<lparr>dialogs := []\<rparr>"
    by (simp add: answer_def Let_def)
  have again: "fst (requestPromotion D i (S\<lparr>dialogs := []\<rparr>)) = None"
    using request_opens [of D i "S\<lparr>dialogs := []\<rparr>" c] c el S(1) by simp
  have R: "answer D 0 (Some Denied) (S\<lparr>dialogs := [q, q]\<rparr>) = S\<lparr>dialogs := [q], manager := persist D c0 M\<rparr>"
    using c by (simp add: answer_def Let_def q_def rejectPromotion_def c0_def M_def)
  have c0: "findById D i (persist D c0 M) = Some c0" "store_ok D good (persist D c0 M)"
    using ok id by (simp_all add: findById_persist M_def c0_def st.save_ok)
  have ne: "\<not> checkPromotionEligibility D i (persist D c0 M)"
    using c0(1) pos by (cases "minUsage M") (simp_all add: checkPromotionEligibility_def eligible_def c0_def M_def num_le_def)
  have A: "answer D 0 (Some Confirmed) (S\<lparr>dialogs := [q], manager := persist D c0 M\<rparr>)
      = S\<lparr>dialogs := [], manager := persist D (c0\<lparr>rel_status := Active\<rparr>) (persist D c0 M)\<rparr>"
    using c0(1) by (simp add: answer_def Let_def q_def confirmPromotion_def)
  have "findById D i (persist D (c0\<lparr>rel_status := Active\<rparr>) (persist D c0 M)) = Some (c0\<lparr>rel_status := Active\<rparr>)"
    using c0(2) id by (simp add: findById_persist c0_def)
  then show ?thesis
    using S1 S2 T again R ne A by (simp add: Let_def c0_def)
qed

definition sample_eligible :: "relational_row list confirmation" where
  "sample_eligible = phrase_step table_db (Usage (js ''p1'') 5 (js ''go on'') None) sample_service"

lemma stale_confirmation_promotes_witness:
  "let S1 = snd (requestPromotion table_db (js ''p1'') sample_eligible); S2 = snd (requestPromotion table_db (js ''p1'') S1);
       T = answer table_db 0 (Some TimedOut) S1; R = answer table_db 0 (Some Denied) S2;
       A = answer table_db 0 (Some Confirmed) R
   in manager T = manager sample_eligible \<and> fst (requestPromotion table_db (js ''p1'') T) = None
    \<and> \<not> checkPromotionEligibility table_db (js ''p1'') (manager R)
    \<and> (\<exists>c'. findById table_db (js ''p1'') (manager A) = Some c' \<and> rel_status c' = Active
         \<and> usageCount c' = 0 \<and> averageScore c' = Fin 0)"
proof -
  have found: "findById table_db (js ''p1'') (manager sample_eligible) = Some \<lparr>rel_id = js ''p1'', rel_text = js ''go on'', usageCount = 1,
      totalFeedbackScore = Fin 0, feedbackCount = 0, averageScore = Fin 0, rel_status = Candidate,
      scenarioTag = None, createdAt = 5, lastUsedAt = Some 5\<rparr>" (is "_ = Some ?c")
    by code_simp
  have ok: "store_ok table_db (\<lambda>d. distinct (map row_id d)) (manager sample_eligible)"
    "has_callback sample_eligible" "dialogs sample_eligible = []" "num_less (Fin 0) (minUsage (manager sample_eligible))"
    "eligible (manager sample_eligible) ?c"
    using table_db_reliable
    by (simp_all add: sample_eligible_def sample_service_def setDatabase_def table_db_def new_relational_manager_def
        recordUsage_def findByText_def findAll_def persist_def store_ok_def Let_def catchphraseToRow_def eligible_def)
  show ?thesis by (rule stale_confirmation_promotes [OF ok(1) found ok(5,2,3,4)])
qed

section \<open>Writes that fail\<close>

text \<open>A write that the database refuses goes to the memory store, which is not read while a database
  is set: the record that \<open>recordUsage\<close> reports is found neither by its identifier nor by its text, and the
  next use of the phrase reports a first use again, with another record left in memory.\<close>

theorem failed_write_is_invisible:
  assumes d: "rel_db M = Some d" and rows: "db_rows D d = Some rows"
    and new: "text \<notin> row_text ` set rows" "u1 \<notin> row_id ` set rows"
    and fails: "\<And>r. row_text r = text \<Longrightarrow> db_insert D r d = None"
  shows "let (c1, M1) = recordUsage D u1 t1 text tag M; (c2, M2) = recordUsage D u2 t2 text tag M1
         in usageCount c1 = 1 \<and> usageCount c2 = 1 \<and> findAll D M2 = findAll D M
          \<and> findById D u1 M1 = None \<and> findByText D text M1 = None \<and> c1 \<in> set (memory M1)"
proof -
  have none: "findByText D text M' = None" "findById D u1 M' = None" "findAll D M' = map rowToCatchphrase rows"
    if "rel_db M' = Some d" for M'
    using that rows new
    by (auto simp: findByText_def findById_def findAll_def by_id_def find_None_iff rowToCatchphrase_def image_iff)
  have mem: "c \<in> set (upsert c xs)" for c xs by (induction xs) auto
  have usage: "\<exists>c. recordUsage D u t text tag M' = (c, M'\<lparr>memory := upsert c (memory M')\<rparr>) \<and> usageCount c = 1"
    if "rel_db M' = Some d" for M' u t
    using that none(1) [OF that] fails
    by (simp add: recordUsage_def persist_def persistToMemory_def catchphraseToRow_def Let_def)
  obtain c1 where c1: "recordUsage D u1 t1 text tag M = (c1, M\<lparr>memory := upsert c1 (memory M)\<rparr>)" "usageCount c1 = 1"
    using usage [OF d] by blast
  then have d1: "rel_db (M\<lparr>memory := upsert c1 (memory M)\<rparr>) = Some d" using d by simp
  obtain c2 where "recordUsage D u2 t2 text tag (M\<lparr>memory := upsert c1 (memory M)\<rparr>)
      = (c2, M\<lparr>memory := upsert c2 (upsert c1 (memory M))\<rparr>)" "usageCount c2 = 1"
    using usage [OF d1] by force
  then show ?thesis using c1 d none [OF d1] none(3) [OF d] mem by (simp add: none)
qed

definition full_db :: "relational_row list database" where
  "full_db = table_db\<lparr>db_insert := \<lambda>r d. None\<rparr>"

lemma failed_write_is_invisible_witness:
  "let M = \<lparr>minUsage = Fin 5, minFeedback = Fin 0, rel_db = Some [], memory = []\<rparr>;
       (c1, M1) = recordUsage full_db (js ''a'') 1 (js ''go'') None M;
       (c2, M2) = recordUsage full_db (js ''b'') 2 (js ''go'') None M1
   in usageCount c1 = 1 \<and> usageCount c2 = 1 \<and> findAll full_db M2 = findAll full_db M
    \<and> findById full_db (js ''a'') M1 = None \<and> findByText full_db (js ''go'') M1 = None \<and> c1 \<in> set (memory M1)"
  using failed_write_is_invisible [of "\<lparr>minUsage = Fin 5, minFeedback = Fin 0, rel_db = Some [], memory = []\<rparr>" "[]"
      full_db "[]" "js ''go''" "js ''a''" 1 None "js ''b''" 2]
  by (simp add: full_db_def table_db_def)

section \<open>Outputs per round\<close>

text \<open>An output that asks the governor first, as it is meant to be used.\<close>

definition guarded_output :: "jstr \<Rightarrow> governor \<Rightarrow> governor" where
  "guarded_output s g = (if canOutput s g then snd (recordOutput s g) else g)"

lemma count_record: "getOutputCount t (snd (recordOutput s g)) = (if t = s then getOutputCount s g + 1 else getOutputCount t g)"
  by (simp add: recordOutput_def getOutputCount_def Let_def)

lemma count_reset: "getOutputCount t (resetSession s g) = (if t = s then 0 else getOutputCount t g)"
  by (simp add: resetSession_def getOutputCount_def)

lemma guarded_max [simp]: "maxPerRound (guarded_output s g) = maxPerRound g" "maxPerRound (resetSession s g) = maxPerRound g"
  by (simp_all add: guarded_output_def recordOutput_def resetSession_def Let_def)

lemma guarded_count:
  "maxPerRound g = Fin (of_nat k) \<Longrightarrow> getOutputCount s (guarded_output s g) = (if getOutputCount s g < k then getOutputCount s g + 1 else getOutputCount s g)"
  by (simp add: guarded_output_def canOutput_def count_record)

lemma guarded_other: "t \<noteq> s \<Longrightarrow> getOutputCount t (guarded_output s g) = getOutputCount t g"
  by (simp add: guarded_output_def count_record)

text \<open>The outputs that a run of the governor grants to a session after its last reset.\<close>

datatype governor_event = Output jstr | Reset jstr

fun governor_step :: "governor_event \<Rightarrow> governor \<Rightarrow> governor" where
  "governor_step (Output s) g = guarded_output s g"
| "governor_step (Reset s) g = resetSession s g"

fun attempts :: "jstr \<Rightarrow> governor_event list \<Rightarrow> nat \<Rightarrow> nat" where
  "attempts s [] n = n"
| "attempts s (Output t # es) n = attempts s es (if t = s then Suc n else n)"
| "attempts s (Reset t # es) n = attempts s es (if t = s then 0 else n)"

lemma governor_run:
  "maxPerRound g = Fin (of_nat k) \<Longrightarrow> getOutputCount s g = min k n \<Longrightarrow>
   getOutputCount s (fold governor_step es g) = min k (attempts s es n)"
proof (induction es arbitrary: g n)
  case (Cons e es)
  show ?case
  proof (cases e)
    case (Output t)
    have "getOutputCount s (guarded_output t g) = min k (if t = s then Suc n else n)"
      using Cons.prems guarded_count [of g k s] guarded_other [of s t g] by auto
    then show ?thesis using Cons.IH [of "guarded_output t g"] Cons.prems Output by simp
  next
    case (Reset t)
    have "getOutputCount s (resetSession t g) = min k (if t = s then 0 else n)"
      using Cons.prems by (simp add: count_reset)
    then show ?thesis using Cons.IH [of "resetSession t g"] Cons.prems Reset by simp
  qed
qed simp

text \<open>A caller that asks the governor before each output gets at most \<open>max_per_round\<close> outputs in a
  session between two resets, and exactly that many if it tries often enough: after any run over any
  sessions, the counter of each session is the smaller of the bound and the number of attempts since its
  last reset, and an output is allowed if and only if the bound is not yet reached.\<close>

theorem governor_limits_rounds:
  "getOutputCount s (fold governor_step es (new_governor (Fin (of_nat k)))) = min k (attempts s es 0)
   \<and> (canOutput s (fold governor_step es (new_governor (Fin (of_nat k)))) \<longleftrightarrow> attempts s es 0 < k)"
proof -
  have run: "getOutputCount s (fold governor_step es (new_governor (Fin (of_nat k)))) = min k (attempts s es 0)"
    by (rule governor_run) (simp_all add: new_governor_def getOutputCount_def)
  have "maxPerRound (fold governor_step es g) = maxPerRound g" for g
    by (induction es arbitrary: g) (simp_all, metis governor_step.elims guarded_max)
  then have "maxPerRound (fold governor_step es (new_governor (Fin (of_nat k)))) = Fin (of_nat k)"
    by (simp add: new_governor_def)
  then show ?thesis using run by (auto simp: canOutput_def)
qed

end
