(* ===== verification/Personality.thy ===== *)
theory Personality
  imports JsNumber
begin

text \<open>
  The affective state of the assistant (\<open>livedesign/src/llm-service/personality/\<close>): the VAD model and
  the table of emotions (\<open>affective.ts\<close>), the modulation of changes by personality traits
  (\<open>traits.ts\<close>), decay towards the baseline (\<open>decay.ts\<close>) and the engine that owns the state, with its
  two timers and its listeners (\<open>engine.ts\<close>). Arithmetic is binary64; random numbers are parameters.
\<close>

section \<open>Affective states\<close>

record affective =
  valence :: jsnum
  arousal :: jsnum
  dominance :: jsnum

definition BASELINE_STATE :: affective where
  "BASELINE_STATE = \<lparr>valence = Fin (1/2), arousal = Fin (1/2), dominance = Fin (1/2)\<rparr>"

definition vad :: "rat \<Rightarrow> rat \<Rightarrow> rat \<Rightarrow> affective" where
  "vad v a d = \<lparr>valence = num v, arousal = num a, dominance = num d\<rparr>"

definition EMOTION_VAD_MAP :: "(jstr \<times> affective) list" where
  "EMOTION_VAD_MAP = [
     (js ''happy'', vad (85/100) (7/10) (6/10)),
     (js ''joy'', vad (9/10) (75/100) (55/100)),
     (js ''excited'', vad (8/10) (9/10) (7/10)),
     (js ''surprised'', vad (5/10) (85/100) (5/10)),
     (js ''calm'', vad (6/10) (2/10) (5/10)),
     (js ''relaxed'', vad (7/10) (15/100) (5/10)),
     (js ''neutral'', vad (5/10) (5/10) (5/10)),
     (js ''sad'', vad (15/100) (3/10) (3/10)),
     (js ''sorrow'', vad (1/10) (2/10) (25/100)),
     (js ''angry'', vad (1/10) (85/100) (8/10)),
     (js ''rage'', vad (5/100) (95/100) (9/10)),
     (js ''anxious'', vad (2/10) (8/10) (2/10)),
     (js ''fear'', vad (1/10) (9/10) (15/100)),
     (js ''confused'', vad (3/10) (6/10) (3/10)),
     (js ''shy'', vad (4/10) (4/10) (2/10)),
     (js ''embarrassed'', vad (2/10) (6/10) (2/10)),
     (js ''tired'', vad (3/10) (15/100) (35/100)),
     (js ''sympathy'', vad (7/10) (4/10) (3/10)),
     (js ''love'', vad (9/10) (6/10) (5/10)),
     (js ''grateful'', vad (85/100) (5/10) (4/10)),
     (js ''proud'', vad (8/10) (6/10) (8/10))]"

text \<open>An unknown name, and one that names a member of \<open>Object.prototype\<close>, gives the baseline.\<close>

definition emotionToVAD :: "jstr \<Rightarrow> affective" where
  "emotionToVAD e = (case map_of EMOTION_VAD_MAP (ascii_lower e) of Some v \<Rightarrow> v | None \<Rightarrow> BASELINE_STATE)"

section \<open>Traits\<close>

record traits =
  playfulness :: jsnum
  empathy :: jsnum

record big_five =
  extraversion :: jsnum
  neuroticism :: jsnum
  agreeableness :: jsnum
  openness :: jsnum
  conscientiousness :: jsnum

definition DEFAULT_TRAITS :: traits where
  "DEFAULT_TRAITS = \<lparr>playfulness = Fin (1/2), empathy = num (7/10)\<rparr>"

definition DEFAULT_BIG_FIVE :: big_five where
  "DEFAULT_BIG_FIVE = \<lparr>extraversion = Fin (1/2), neuroticism = num (3/10), agreeableness = num (7/10),
     openness = Fin (1/2), conscientiousness = num (6/10)\<rparr>"

definition constrainDelta :: "affective \<Rightarrow> traits \<Rightarrow> affective" where
  "constrainDelta d t = \<lparr>valence = nmul (valence d) (nadd (Fin (1/2)) (empathy t)),
     arousal = nmul (arousal d) (nadd (Fin (1/2)) (playfulness t)), dominance = dominance d\<rparr>"

text \<open>\<open>if (x < 0) x *= 1 - agreeableness * c\<close>.\<close>

definition soften :: "jsnum \<Rightarrow> jsnum \<Rightarrow> jsnum \<Rightarrow> jsnum" where
  "soften agree c x = (if num_less x (Fin 0) then nmul x (nsub (Fin 1) (nmul agree c)) else x)"

definition modulateDelta :: "affective \<Rightarrow> big_five \<Rightarrow> affective" where
  "modulateDelta d bf =
     (let v1 = nmul (valence d) (nadd (Fin (1/2)) (extraversion bf));
          g = nadd (Fin 1) (neuroticism bf);
          v2 = nmul v1 g; a2 = nmul (arousal d) g; d2 = nmul (dominance d) g;
          v3 = soften (agreeableness bf) (Fin (1/2)) v2;
          a3 = soften (agreeableness bf) (num (3/10)) a2;
          d3 = soften (agreeableness bf) (num (3/10)) d2
      in \<lparr>valence = v3,
          arousal = nmul a3 (nadd (Fin (1/2)) (openness bf)),
          dominance = nmul d3 (nsub (Fin 1) (nmul (conscientiousness bf) (num (3/10))))\<rparr>)"

definition modulateFull :: "affective \<Rightarrow> traits \<Rightarrow> big_five \<Rightarrow> affective" where
  "modulateFull d t bf = modulateDelta (constrainDelta d t) bf"

section \<open>Decay\<close>

definition clamp01 :: "jsnum \<Rightarrow> jsnum" where
  "clamp01 x = nclamp (Fin 0) (Fin 1) x"

record emotion_decay =
  intervalMs :: jsnum
  decay_rate :: jsnum
  noiseAmplitude :: jsnum
  decay_running :: bool

definition new_decay :: "jsnum \<Rightarrow> jsnum \<Rightarrow> emotion_decay" where
  "new_decay i r = \<lparr>intervalMs = i, decay_rate = r, noiseAmplitude = num (2/100), decay_running = False\<rparr>"

text \<open>\<open>rnd\<close> is the result of \<open>Math.random()\<close>.\<close>

definition decayAxis :: "emotion_decay \<Rightarrow> jsnum \<Rightarrow> jsnum \<Rightarrow> jsnum \<Rightarrow> jsnum" where
  "decayAxis D rnd x base =
     (let regression = nmul (nsub base x) (decay_rate D);
          noise = nmul (nmul (nsub rnd (Fin (1/2))) (Fin 2)) (noiseAmplitude D);
          delta = nadd regression noise
      in if num_less (nabs delta) (num (5/1000)) then base else clamp01 (nadd x delta))"

type_synonym draws = "jsnum \<times> jsnum \<times> jsnum"

fun decay_apply :: "emotion_decay \<Rightarrow> draws \<Rightarrow> affective \<Rightarrow> affective" where
  "decay_apply D (r1, r2, r3) s = \<lparr>valence = decayAxis D r1 (valence s) (valence BASELINE_STATE),
     arousal = decayAxis D r2 (arousal s) (arousal BASELINE_STATE),
     dominance = decayAxis D r3 (dominance s) (dominance BASELINE_STATE)\<rparr>"

definition decay_updateConfig :: "jsnum \<Rightarrow> jsnum \<Rightarrow> jsnum option \<Rightarrow> emotion_decay \<Rightarrow> emotion_decay" where
  "decay_updateConfig i r noise D = D\<lparr>intervalMs := i, decay_rate := r,
     noiseAmplitude := (case noise of Some n \<Rightarrow> n | None \<Rightarrow> noiseAmplitude D)\<rparr>"

section \<open>The engine\<close>

datatype affective_event_type =
  UserSad | UserHappy | UserAngry | UserAnxious | ToolSuccess | ToolFailure | LlmResponse

record affective_event =
  ev_type :: affective_event_type
  ev_emotion :: "jstr option"
  ev_intensity :: jsnum

definition EVENT_VAD_DELTA :: "affective_event_type \<Rightarrow> affective" where
  "EVENT_VAD_DELTA t = (case t of
      UserSad \<Rightarrow> vad (- 3/10) (- 1/10) (- 15/100)
    | UserHappy \<Rightarrow> vad (2/10) (15/100) (1/10)
    | UserAngry \<Rightarrow> vad (- 25/100) (3/10) (2/10)
    | UserAnxious \<Rightarrow> vad (- 15/100) (2/10) (- 2/10)
    | ToolSuccess \<Rightarrow> vad (1/10) (5/100) (1/10)
    | ToolFailure \<Rightarrow> vad (- 1/10) (- 5/100) (- 1/10)
    | LlmResponse \<Rightarrow> vad (5/100) (2/100) (2/100))"

record personality =
  current :: affective
  target :: affective
  smoothingFactor :: jsnum
  p_traits :: traits
  bigFive :: big_five
  decay :: emotion_decay
  p_listeners :: "nat list"
  smoothTimer :: bool

text \<open>A call of a listener with the new and the previous state; an exception it throws is caught.\<close>

type_synonym notification = "nat \<times> affective \<times> affective"

definition new_personality :: "jsnum \<Rightarrow> traits \<Rightarrow> big_five \<Rightarrow> jsnum \<Rightarrow> jsnum \<Rightarrow> personality" where
  "new_personality factor t bf i r = \<lparr>current = BASELINE_STATE, target = BASELINE_STATE, smoothingFactor = factor,
     p_traits = t, bigFive = bf, decay = (new_decay i r)\<lparr>decay_running := True\<rparr>, p_listeners = [], smoothTimer = True\<rparr>"

definition notifyListeners :: "affective \<Rightarrow> personality \<Rightarrow> notification list" where
  "notifyListeners previous P = map (\<lambda>l. (l, current P, previous)) (p_listeners P)"

definition applyDeltaToTarget :: "affective \<Rightarrow> personality \<Rightarrow> affective" where
  "applyDeltaToTarget d P = \<lparr>valence = clamp01 (nadd (valence (target P)) (valence d)),
     arousal = clamp01 (nadd (arousal (target P)) (arousal d)),
     dominance = clamp01 (nadd (dominance (target P)) (dominance d))\<rparr>"

definition scale :: "jsnum \<Rightarrow> affective \<Rightarrow> affective" where
  "scale k d = \<lparr>valence = nmul (valence d) k, arousal = nmul (arousal d) k, dominance = nmul (dominance d) k\<rparr>"

definition vsub :: "affective \<Rightarrow> affective \<Rightarrow> affective" where
  "vsub x y = \<lparr>valence = nsub (valence x) (valence y), arousal = nsub (arousal x) (arousal y),
     dominance = nsub (dominance x) (dominance y)\<rparr>"

text \<open>An empty emotion name is falsy; then the type decides.\<close>

definition event_delta :: "affective_event \<Rightarrow> affective" where
  "event_delta e = scale (ev_intensity e)
     (case ev_emotion e of
        Some n \<Rightarrow> if n \<noteq> [] then vsub (emotionToVAD n) BASELINE_STATE else EVENT_VAD_DELTA (ev_type e)
      | None \<Rightarrow> EVENT_VAD_DELTA (ev_type e))"

definition applyEvent :: "affective_event \<Rightarrow> personality \<Rightarrow> affective \<times> personality" where
  "applyEvent e P =
     (let P' = P\<lparr>target := applyDeltaToTarget (modulateFull (event_delta e) (p_traits P) (bigFive P)) P\<rparr>
      in (current P', P'))"

definition setAffective :: "affective \<Rightarrow> personality \<Rightarrow> notification list \<times> personality" where
  "setAffective s P =
     (let c = \<lparr>valence = clamp01 (valence s), arousal = clamp01 (arousal s), dominance = clamp01 (dominance s)\<rparr>;
          P' = P\<lparr>target := c, current := c\<rparr>
      in (notifyListeners (current P) P', P'))"

definition updateTraits :: "jsnum option \<Rightarrow> jsnum option \<Rightarrow> personality \<Rightarrow> personality" where
  "updateTraits pl em P = P\<lparr>p_traits := \<lparr>
     playfulness = (case pl of Some x \<Rightarrow> x | None \<Rightarrow> playfulness (p_traits P)),
     empathy = (case em of Some x \<Rightarrow> x | None \<Rightarrow> empathy (p_traits P))\<rparr>\<rparr>"

text \<open>Stop, reconfigure, start.\<close>

definition updateDecay :: "jsnum \<Rightarrow> jsnum \<Rightarrow> jsnum option \<Rightarrow> personality \<Rightarrow> personality" where
  "updateDecay i r noise P = P\<lparr>decay := (decay_updateConfig i r noise (decay P))\<lparr>decay_running := True\<rparr>\<rparr>"

definition onAffectiveChange :: "nat \<Rightarrow> personality \<Rightarrow> personality" where
  "onAffectiveChange l P = (if l \<in> set (p_listeners P) then P else P\<lparr>p_listeners := p_listeners P @ [l]\<rparr>)"

definition removeListener :: "nat \<Rightarrow> personality \<Rightarrow> personality" where
  "removeListener l P = P\<lparr>p_listeners := removeAll l (p_listeners P)\<rparr>"

definition clearListeners :: "personality \<Rightarrow> personality" where
  "clearListeners P = P\<lparr>p_listeners := []\<rparr>"

definition destroy_engine :: "personality \<Rightarrow> personality" where
  "destroy_engine P = P\<lparr>decay := (decay P)\<lparr>decay_running := False\<rparr>, smoothTimer := False, p_listeners := []\<rparr>"

definition small :: "jsnum \<Rightarrow> bool" where
  "small x \<longleftrightarrow> num_less (nabs x) (num (1/10000))"

definition smoothTick :: "personality \<Rightarrow> notification list \<times> personality" where
  "smoothTick P =
     (let diff = scale (smoothingFactor P) (vsub (target P) (current P))
      in if small (valence diff) \<and> small (arousal diff) \<and> small (dominance diff) then ([], P)
         else (let P' = P\<lparr>current := \<lparr>valence = clamp01 (nadd (valence (current P)) (valence diff)),
                   arousal = clamp01 (nadd (arousal (current P)) (arousal diff)),
                   dominance = clamp01 (nadd (dominance (current P)) (dominance diff))\<rparr>\<rparr>
               in (notifyListeners (current P) P', P')))"

text \<open>The callbacks of the two timers; a stopped timer does not fire.\<close>

definition decayTick :: "draws \<Rightarrow> draws \<Rightarrow> personality \<Rightarrow> notification list \<times> personality" where
  "decayTick r1 r2 P =
     (if decay_running (decay P)
      then (let P' = P\<lparr>current := decay_apply (decay P) r1 (current P), target := decay_apply (decay P) r2 (target P)\<rparr>
            in (notifyListeners (current P) P', P'))
      else ([], P))"

definition timerTick :: "personality \<Rightarrow> notification list \<times> personality" where
  "timerTick P = (if smoothTimer P then smoothTick P else ([], P))"

section \<open>The state stays in the unit cube\<close>

definition unit :: "jsnum \<Rightarrow> bool" where
  "unit x \<longleftrightarrow> in_range 0 1 x \<and> is_double x"

lemma unitE: "unit x \<Longrightarrow> (\<And>v. x = Fin v \<Longrightarrow> 0 \<le> v \<Longrightarrow> v \<le> 1 \<Longrightarrow> dbl v = v \<Longrightarrow> P) \<Longrightarrow> P"
  by (auto simp: unit_def elim!: in_rangeE)

lemma unit_bounded: "unit x \<Longrightarrow> bounded 1 x"
  by (auto simp: unit_def intro: in_range_bounded)

lemma unit_half [simp]: "unit (Fin (1/2))"
  by (simp add: unit_def)

lemma unit_num: "0 \<le> x \<Longrightarrow> x \<le> 1 \<Longrightarrow> unit (num x)"
  unfolding unit_def by (auto intro!: num_range)

lemma unit_clamp: "bounded b x \<Longrightarrow> is_double x \<Longrightarrow> unit (clamp01 x)"
  unfolding unit_def clamp01_def by (auto intro!: nclamp_range is_double_clamp dest: bounded_not_NaN)

definition unit_state :: "affective \<Rightarrow> bool" where
  "unit_state s \<longleftrightarrow> unit (valence s) \<and> unit (arousal s) \<and> unit (dominance s)"

definition bounded_state :: "rat \<Rightarrow> affective \<Rightarrow> bool" where
  "bounded_state b s \<longleftrightarrow> bounded b (valence s) \<and> bounded b (arousal s) \<and> bounded b (dominance s)"

lemma unit_baseline [simp]: "unit_state BASELINE_STATE"
  by (simp add: unit_state_def BASELINE_STATE_def)

lemma unit_bounded_state: "unit_state s \<Longrightarrow> bounded_state 1 s"
  by (simp add: unit_state_def bounded_state_def unit_bounded)

lemma unit_vad: "0 \<le> v \<Longrightarrow> v \<le> 1 \<Longrightarrow> 0 \<le> a \<Longrightarrow> a \<le> 1 \<Longrightarrow> 0 \<le> d \<Longrightarrow> d \<le> 1 \<Longrightarrow> unit_state (vad v a d)"
  by (simp add: unit_state_def vad_def unit_num)

lemma unit_emotion: "unit_state (emotionToVAD e)"
proof -
  have "\<forall>v\<in>snd ` set EMOTION_VAD_MAP. unit_state v"
    unfolding EMOTION_VAD_MAP_def by (simp add: unit_vad)
  then show ?thesis by (auto simp: emotionToVAD_def dest!: map_of_SomeD split: option.splits)
qed

lemma bounded_vad: "\<bar>v\<bar> \<le> 1 \<Longrightarrow> \<bar>a\<bar> \<le> 1 \<Longrightarrow> \<bar>d\<bar> \<le> 1 \<Longrightarrow> bounded_state 1 (vad v a d)"
  by (simp add: bounded_state_def vad_def bounded_num)

lemma bounded_event_delta: "bounded_state 1 (EVENT_VAD_DELTA t)"
  by (cases t) (simp_all add: EVENT_VAD_DELTA_def bounded_vad)

lemma bounded_vsub: "bounded_state 1 x \<Longrightarrow> bounded_state 1 y \<Longrightarrow> bounded_state 2 (vsub x y)"
  using bounded_sub [of 1 _ 1] by (simp add: bounded_state_def vsub_def)

lemma bounded_scale:
  "bounded_state a s \<Longrightarrow> bounded b k \<Longrightarrow> dbl (a * b) = a * b \<Longrightarrow> a * b \<le> 2 ^ 64 \<Longrightarrow> bounded_state (a * b) (scale k s)"
  by (simp add: bounded_state_def scale_def bounded_mul)

lemma bounded_state_weaken: "bounded_state a s \<Longrightarrow> a \<le> b \<Longrightarrow> bounded_state b s"
  by (auto simp: bounded_state_def intro: bounded_weaken)

lemma event_delta_bounded: "unit (ev_intensity e) \<Longrightarrow> bounded_state 2 (event_delta e)"
proof -
  assume i: "unit (ev_intensity e)"
  have "bounded_state 2 (case ev_emotion e of
        Some n \<Rightarrow> if n \<noteq> [] then vsub (emotionToVAD n) BASELINE_STATE else EVENT_VAD_DELTA (ev_type e)
      | None \<Rightarrow> EVENT_VAD_DELTA (ev_type e))"
    using bounded_state_weaken [OF bounded_event_delta, of 2 "ev_type e"]
      bounded_vsub [OF unit_bounded_state [OF unit_emotion] unit_bounded_state [OF unit_baseline]]
    by (simp split: option.split)
  from bounded_scale [OF this unit_bounded [OF i]] show ?thesis by (simp add: event_delta_def)
qed

definition traits_ok :: "traits \<Rightarrow> bool" where
  "traits_ok t \<longleftrightarrow> unit (playfulness t) \<and> unit (empathy t)"

definition big_five_ok :: "big_five \<Rightarrow> bool" where
  "big_five_ok bf \<longleftrightarrow> unit (extraversion bf) \<and> unit (neuroticism bf) \<and> unit (agreeableness bf)
     \<and> unit (openness bf) \<and> unit (conscientiousness bf)"

lemma bounded_half: "bounded 1 (Fin (1/2))" "bounded 1 (Fin 1)" "bounded 1 (num (3/10))"
  by (simp_all add: bounded_def num_range unit_bounded [unfolded bounded_def] unit_num)

lemma gain_bounded: "unit x \<Longrightarrow> bounded 2 (nadd (Fin (1/2)) x)" "unit x \<Longrightarrow> bounded 2 (nadd (Fin 1) x)"
  using bounded_add [OF bounded_half(1), of 1 x] bounded_add [OF bounded_half(2), of 1 x]
  by (simp_all add: unit_bounded)

lemma damp_bounded: "unit x \<Longrightarrow> bounded 1 c \<Longrightarrow> bounded 2 (nsub (Fin 1) (nmul x c))"
  using bounded_mul [of 1 x 1 c] bounded_sub [OF bounded_half(2), of 1 "nmul x c"] by (simp add: unit_bounded)

lemma soften_bounded:
  assumes "unit g" "bounded 1 c" "bounded b x" "dbl (b * 2) = b * 2" "b * 2 \<le> 2 ^ 64" "0 \<le> b"
  shows "bounded (b * 2) (soften g c x)"
  using bounded_mul [OF assms(3) damp_bounded [OF assms(1,2)] assms(4,5)] bounded_weaken [OF assms(3), of "b * 2"] assms(6)
  by (simp add: soften_def)

lemma modulate_bounded:
  assumes "bounded_state 2 d" "traits_ok t" "big_five_ok bf"
  shows "bounded_state 128 (modulateFull d t bf)"
proof -
  let ?c = "constrainDelta d t"
  have c: "bounded 4 (valence ?c)" "bounded 4 (arousal ?c)" "bounded 4 (dominance ?c)"
    using assms(1,2) bounded_mul [of 2 _ 2] by (auto simp: constrainDelta_def bounded_state_def traits_ok_def gain_bounded
        intro: bounded_weaken)
  have v: "bounded 8 (nmul (valence ?c) (nadd (Fin (1/2)) (extraversion bf)))"
    using bounded_mul [of 4 "valence ?c" 2] c assms(3) by (simp add: big_five_ok_def gain_bounded)
  have g: "bounded 2 (nadd (Fin 1) (neuroticism bf))" using assms(3) by (simp add: big_five_ok_def gain_bounded)
  have ag: "unit (agreeableness bf)" "unit (openness bf)" "unit (conscientiousness bf)" using assms(3) by (simp_all add: big_five_ok_def)
  have 2: "bounded 16 (nmul (nmul (valence ?c) (nadd (Fin (1/2)) (extraversion bf))) (nadd (Fin 1) (neuroticism bf)))"
    "bounded 16 (nmul (arousal ?c) (nadd (Fin 1) (neuroticism bf)))"
    "bounded 16 (nmul (dominance ?c) (nadd (Fin 1) (neuroticism bf)))"
    using bounded_mul [OF v g] bounded_mul [OF c(2) g] bounded_mul [OF c(3) g] by (auto intro: bounded_weaken)
  have 3: "bounded 32 (soften (agreeableness bf) k x)" if "bounded 16 x" "bounded 1 k" for x k
    using soften_bounded [OF ag(1) that(2,1)] by simp
  have 4: "bounded 64 (nmul x y)" if "bounded 32 x" "bounded 2 y" for x y
    using bounded_mul [OF that] by simp
  have "bounded 32 (valence (modulateFull d t bf))"
    using 3 [OF 2(1) bounded_half(1)] by (simp add: modulateFull_def modulateDelta_def Let_def)
  moreover have "bounded 64 (arousal (modulateFull d t bf))"
    using 4 [OF 3 [OF 2(2) bounded_half(3)] gain_bounded(1) [OF ag(2)]]
    by (simp add: modulateFull_def modulateDelta_def Let_def)
  moreover have "bounded 64 (dominance (modulateFull d t bf))"
    using 4 [OF 3 [OF 2(3) bounded_half(3)] damp_bounded [OF ag(3) bounded_half(3)]]
    by (simp add: modulateFull_def modulateDelta_def Let_def)
  ultimately show ?thesis by (auto simp: bounded_state_def intro: bounded_weaken)
qed

lemma target_unit:
  assumes "unit_state (target P)" "bounded_state 128 d"
  shows "unit_state (applyDeltaToTarget d P)"
proof -
  have "unit (clamp01 (nadd x y))" if "unit x" "bounded 128 y" for x y
    using bounded_add [OF unit_bounded [OF that(1)] that(2)] is_double_nadd [OF unit_bounded [OF that(1)] that(2)]
    by (auto intro: unit_clamp)
  then show ?thesis using assms by (simp add: applyDeltaToTarget_def unit_state_def bounded_state_def)
qed

definition decay_ok :: "emotion_decay \<Rightarrow> bool" where
  "decay_ok D \<longleftrightarrow> unit (decay_rate D) \<and> unit (noiseAmplitude D)"

lemma decayAxis_unit:
  assumes D: "decay_ok D" and r: "unit r" and x: "unit x" and b: "unit b"
  shows "unit (decayAxis D r x b)"
proof -
  have reg: "bounded 2 (nmul (nsub b x) (decay_rate D))"
    using bounded_mul [of 2 "nsub b x" 1 "decay_rate D"] bounded_sub [OF unit_bounded [OF b] unit_bounded [OF x]] D
    by (simp add: decay_ok_def unit_bounded)
  have "bounded 2 (nsub r (Fin (1/2)))"
    using bounded_sub [OF unit_bounded [OF r] bounded_half(1)] by simp
  then have "bounded 4 (nmul (nsub r (Fin (1/2))) (Fin 2))"
    using bounded_mul [of 2 "nsub r (Fin (1/2))" 2 "Fin 2"] by (simp add: bounded_def)
  then have noise: "bounded 4 (nmul (nmul (nsub r (Fin (1/2))) (Fin 2)) (noiseAmplitude D))"
    using bounded_mul [of 4 _ 1 "noiseAmplitude D"] D by (simp add: decay_ok_def unit_bounded)
  have delta: "bounded 6 (nadd (nmul (nsub b x) (decay_rate D)) (nmul (nmul (nsub r (Fin (1/2))) (Fin 2)) (noiseAmplitude D)))"
    using bounded_add [OF reg noise] by simp
  have "unit (clamp01 (nadd x (nadd (nmul (nsub b x) (decay_rate D)) (nmul (nmul (nsub r (Fin (1/2))) (Fin 2)) (noiseAmplitude D)))))"
    using bounded_add [OF unit_bounded [OF x] delta] is_double_nadd [OF unit_bounded [OF x] delta] by (auto intro: unit_clamp)
  then show ?thesis using b by (simp add: decayAxis_def Let_def)
qed

definition draws_ok :: "draws \<Rightarrow> bool" where
  "draws_ok r \<longleftrightarrow> unit (fst r) \<and> unit (fst (snd r)) \<and> unit (snd (snd r))"

lemma decay_apply_unit: "decay_ok D \<Longrightarrow> draws_ok r \<Longrightarrow> unit_state s \<Longrightarrow> unit_state (decay_apply D r s)"
  using unit_baseline by (cases r) (auto simp: draws_ok_def unit_state_def intro: decayAxis_unit)

text \<open>What reaches the engine from outside.\<close>

datatype engine_event =
    Event affective_event
  | SetState affective
  | Traits "jsnum option" "jsnum option"
  | DecayConfig jsnum jsnum "jsnum option"
  | Listen nat
  | Unlisten nat
  | Clear
  | Destroy
  | DecayTimer draws draws
  | SmoothTimer

fun engine_step :: "engine_event \<Rightarrow> personality \<Rightarrow> personality" where
  "engine_step (Event e) P = snd (applyEvent e P)"
| "engine_step (SetState s) P = snd (setAffective s P)"
| "engine_step (Traits pl em) P = updateTraits pl em P"
| "engine_step (DecayConfig i r noise) P = updateDecay i r noise P"
| "engine_step (Listen l) P = onAffectiveChange l P"
| "engine_step (Unlisten l) P = removeListener l P"
| "engine_step Clear P = clearListeners P"
| "engine_step Destroy P = destroy_engine P"
| "engine_step (DecayTimer r1 r2) P = snd (decayTick r1 r2 P)"
| "engine_step SmoothTimer P = snd (timerTick P)"

text \<open>The arguments keep to their documented ranges; a state that is set may be any finite one.\<close>

fun event_ok :: "engine_event \<Rightarrow> bool" where
  "event_ok (Event e) = unit (ev_intensity e)"
| "event_ok (SetState s) = (\<exists>b. bounded_state b s \<and> is_double (valence s) \<and> is_double (arousal s) \<and> is_double (dominance s))"
| "event_ok (Traits pl em) = (\<forall>x \<in> set_option pl \<union> set_option em. unit x)"
| "event_ok (DecayConfig i r noise) = (\<forall>x \<in> insert r (set_option noise). unit x)"
| "event_ok (DecayTimer r1 r2) = (draws_ok r1 \<and> draws_ok r2)"
| "event_ok _ = True"

definition engine_ok :: "personality \<Rightarrow> bool" where
  "engine_ok P \<longleftrightarrow> unit_state (current P) \<and> unit_state (target P) \<and> unit (smoothingFactor P)
     \<and> traits_ok (p_traits P) \<and> big_five_ok (bigFive P) \<and> decay_ok (decay P)"

lemma engine_event_ok: "engine_ok P \<Longrightarrow> unit (ev_intensity e) \<Longrightarrow> engine_ok (snd (applyEvent e P))"
  by (simp add: engine_ok_def applyEvent_def Let_def target_unit modulate_bounded event_delta_bounded)

lemma smooth_ok:
  assumes P: "engine_ok P"
  shows "engine_ok (snd (smoothTick P))"
proof -
  let ?d = "scale (smoothingFactor P) (vsub (target P) (current P))"
  have "bounded_state (2 * 1) ?d"
    using P by (intro bounded_scale bounded_vsub unit_bounded_state unit_bounded) (simp_all add: engine_ok_def)
  then have d: "bounded_state 2 ?d" by simp
  have "unit (clamp01 (nadd x y))" if "unit x" "bounded 2 y" for x y
    using bounded_add [OF unit_bounded [OF that(1)] that(2)] is_double_nadd [OF unit_bounded [OF that(1)] that(2)]
    by (auto intro: unit_clamp)
  then show ?thesis using P d by (simp add: smoothTick_def Let_def engine_ok_def unit_state_def bounded_state_def)
qed

lemma engine_step_ok:
  assumes P: "engine_ok P" and e: "event_ok e"
  shows "engine_ok (engine_step e P)"
proof (cases e)
  case (SetState s)
  then obtain b where "bounded_state b s" "is_double (valence s)" "is_double (arousal s)" "is_double (dominance s)"
    using e by auto
  with SetState P show ?thesis
    by (auto simp: engine_ok_def setAffective_def Let_def unit_state_def bounded_state_def intro: unit_clamp)
next
  case (DecayTimer r1 r2)
  then show ?thesis using P e by (simp add: engine_ok_def decayTick_def Let_def decay_apply_unit)
next
  case (Event x)
  then show ?thesis using P e by (simp add: engine_event_ok)
next
  case SmoothTimer
  then show ?thesis using P by (simp add: timerTick_def smooth_ok)
qed (use P e in \<open>auto simp: engine_ok_def updateTraits_def updateDecay_def decay_updateConfig_def onAffectiveChange_def
      removeListener_def clearListeners_def destroy_engine_def traits_ok_def decay_ok_def split: option.splits\<close>)

lemma engine_run_ok: "engine_ok P \<Longrightarrow> \<forall>e\<in>set es. event_ok e \<Longrightarrow> engine_ok (fold engine_step es P)"
  by (induction es arbitrary: P) (simp_all add: engine_step_ok)

lemma new_engine_ok:
  "unit f \<Longrightarrow> traits_ok t \<Longrightarrow> big_five_ok bf \<Longrightarrow> unit r \<Longrightarrow> engine_ok (new_personality f t bf i r)"
  by (simp add: engine_ok_def new_personality_def new_decay_def decay_ok_def unit_num)


lemma defaults_ok: "traits_ok DEFAULT_TRAITS" "big_five_ok DEFAULT_BIG_FIVE"
  by (simp_all add: traits_ok_def DEFAULT_TRAITS_def big_five_ok_def DEFAULT_BIG_FIVE_def unit_num)

definition sample_engine :: personality where
  "sample_engine = new_personality (num (3/10)) DEFAULT_TRAITS DEFAULT_BIG_FIVE (Fin 300000) (num (1/10))"

definition sample_run :: "engine_event list" where
  "sample_run = [Event \<lparr>ev_type = UserSad, ev_emotion = Some (js ''rage''), ev_intensity = Fin 1\<rparr>, SmoothTimer,
     DecayTimer (Fin 0, Fin 1, Fin (1/2)) (Fin 1, Fin 0, Fin (1/2)), Traits None (Some (Fin 1)), Destroy]"


section \<open>Decay reaches the baseline\<close>

lemma lit_005: "num (1/200) = Fin (5764607523034235 / 2 ^ 60)"
  using num_eval [of "1/200" 60 5764607523034235] by simp

text \<open>Without noise and with a rate of at most one half, one step closes the gap to the baseline, or
  narrows it by at least 0.0049 without crossing the baseline.\<close>

lemma half_multiple:
  assumes c: "dbl c = c" "0 \<le> c" "c \<le> 1"
  shows "c < 1/4 \<or> (\<exists>n::int. 1/2 - c = of_int n / 2 ^ 54 \<and> \<bar>n\<bar> \<le> 2 ^ 53)"
proof -
  consider "c < 1/4" | "1/4 \<le> c" "c < 1/2" | "1/2 \<le> c" "c < 1" | "c = 1" using c(3) by linarith
  then show ?thesis
  proof cases
    case 2
    obtain n where "c = of_int n * 2 powi (- 2 - 52)"
      using double_multiple [OF c(1), of "- 2"] 2 by (auto simp: power_int_minus_divide)
    then have n: "c = of_int n / 2 ^ 54" by (simp add: power_int_minus_divide)
    then have "1/2 - c = of_int (2 ^ 53 - n) / 2 ^ 54" by (simp add: field_simps)
    moreover have "(of_int (2 ^ 53 - n) :: rat) \<le> of_int (2 ^ 53)" "of_int (- (2 ^ 53)) \<le> (of_int (2 ^ 53 - n) :: rat)"
      using 2 n by (simp_all add: field_simps)
    ultimately show ?thesis by (intro disjI2 exI [of _ "2 ^ 53 - n"]) (simp only: of_int_le_iff abs_le_iff; simp)
  next
    case 3
    obtain n where "c = of_int n * 2 powi (- 1 - 52)"
      using double_multiple [OF c(1), of "- 1"] 3 by (auto simp: power_int_minus_divide)
    then have n: "c = of_int n / 2 ^ 53" by (simp add: power_int_minus_divide)
    then have "1/2 - c = of_int (2 ^ 53 - 2 * n) / 2 ^ 54" by (simp add: field_simps)
    moreover have "(of_int (2 ^ 53 - 2 * n) :: rat) \<le> of_int (2 ^ 53)" "of_int (- (2 ^ 53)) \<le> (of_int (2 ^ 53 - 2 * n) :: rat)"
      using 3 n by (simp_all add: field_simps)
    ultimately show ?thesis by (intro disjI2 exI [of _ "2 ^ 53 - 2 * n"]) (simp only: of_int_le_iff abs_le_iff; simp)
  next
    case 4
    then show ?thesis by (intro disjI2 exI [of _ "- (2 ^ 53)"]) simp
  qed simp
qed

text \<open>The rounded regression never exceeds half of the gap.\<close>

lemma regression_half:
  assumes c: "dbl c = c" "0 \<le> c" "c \<le> 1" and r: "0 \<le> r" "r \<le> 1/2"
  defines "d \<equiv> dbl (dbl (1/2 - c) * r)"
  shows "(c \<le> 1/2 \<longrightarrow> 0 \<le> d \<and> c + d \<le> 1/2) \<and> (1/2 \<le> c \<longrightarrow> d \<le> 0 \<and> 1/2 \<le> c + d) \<and> \<bar>d\<bar> \<le> 1/2"
  using half_multiple [OF c]
proof (elim disjE exE conjE)
  assume lt: "c < 1/4"
  have y: "0 \<le> dbl (1/2 - c)" "dbl (1/2 - c) \<le> 1/2"
    using lt c(2) dbl_nonneg [of "1/2 - c"] dbl_le [of "1/2 - c" "1/2"] by simp_all
  have "dbl (1/2 - c) * r \<le> 1/2 * (1/2)" using y r by (intro mult_mono) auto
  then have "0 \<le> d" "d \<le> 1/4"
    using y r dbl_nonneg [of "dbl (1/2 - c) * r"] dbl_le [of "dbl (1/2 - c) * r" "1/4"] by (simp_all add: d_def)
  then show ?thesis using lt c(2) by auto
next
  fix n :: int assume n: "1/2 - c = of_int n / 2 ^ 54" "\<bar>n\<bar> \<le> 2 ^ 53"
  have y: "dbl (1/2 - c) = 1/2 - c" unfolding n(1) using n(2) by (rule dyadic_double) simp
  have half: "dbl ((1/2 - c) / 2) = (1/2 - c) / 2"
    using dyadic_double [OF n(2), of 55] by (simp add: n(1))
  show ?thesis
  proof (cases "c \<le> 1/2")
    case True
    then have "(1/2 - c) * r \<le> (1/2 - c) * (1/2)" using r by (intro mult_left_mono) auto
    then have "d \<le> (1/2 - c) / 2" unfolding d_def y using half by (intro dbl_le) simp_all
    moreover have "0 \<le> d" unfolding d_def y using True r by (intro dbl_nonneg) simp
    ultimately show ?thesis using True c(2) by auto
  next
    case False
    then have "(1/2 - c) * (1/2) \<le> (1/2 - c) * r" using r by (intro mult_left_mono_neg) auto
    then have "(1/2 - c) / 2 \<le> d" unfolding d_def y using half by (intro dbl_ge) simp_all
    moreover have "d \<le> 0"
      unfolding d_def y using dbl_mono [of "(1/2 - c) * r" 0] False r by (simp add: mult_nonpos_nonneg)
    ultimately show ?thesis using False c(3) by auto
  qed
qed

definition gap :: "jsnum \<Rightarrow> rat" where
  "gap x = (case x of Fin v \<Rightarrow> \<bar>v - 1/2\<bar> | _ \<Rightarrow> 0)"

lemma quiet_step:
  assumes c: "dbl c = c" "0 \<le> c" "c \<le> 1" and r: "0 \<le> r" "r \<le> 1/2"
    and D: "decay_rate D = Fin r" "noiseAmplitude D = Fin 0" and rnd: "unit rnd"
  obtains v where "decayAxis D rnd (Fin c) (Fin (1/2)) = Fin v" "dbl v = v" "0 \<le> v" "v \<le> 1"
    "v = 1/2 \<or> \<bar>v - 1/2\<bar> \<le> \<bar>c - 1/2\<bar> - 49/10000"
proof -
  define d where "d = dbl (dbl (1/2 - c) * r)"
  note reg = regression_half [OF c r, folded d_def]
  have lim: "\<bar>x\<bar> < finite_limit" if "\<bar>x\<bar> \<le> 1" for x :: rat using that by (intro finite_limit_gt) simp
  have e: "\<bar>dbl (1/2 - c)\<bar> \<le> 1"
    using c dbl_le [of "1/2 - c" 1] dbl_ge [of "- 1" "1/2 - c"] by (simp add: abs_le_iff)
  have fin: "nmul (nsub (Fin (1/2)) (Fin c)) (Fin r) = Fin d"
    using reg e lim by (simp add: nsub_def nmul_def num_Fin d_def)
  have noise: "nmul (nmul (nsub rnd (Fin (1/2))) (Fin 2)) (Fin 0) = Fin 0"
  proof -
    have "bounded 2 (nsub rnd (Fin (1/2)))"
      using bounded_sub [OF unit_bounded [OF rnd] bounded_half(1)] by simp
    then have "bounded 4 (nmul (nsub rnd (Fin (1/2))) (Fin 2))"
      using bounded_mul [of 2 "nsub rnd (Fin (1/2))" 2 "Fin 2"] by (simp add: bounded_def)
    then show ?thesis by (rule nmul_zero)
  qed
  have "dbl d = d" by (simp add: d_def)
  then have delta: "nadd (Fin d) (Fin 0) = Fin d" using reg lim by (simp add: num_Fin)
  define L :: rat where "L = 5764607523034235 / 2 ^ 60"
  have step: "decayAxis D rnd (Fin c) (Fin (1/2)) = (if \<bar>d\<bar> < L then Fin (1/2) else clamp01 (num (c + d)))"
    using D fin noise delta by (simp add: decayAxis_def Let_def lit_005 nabs_def L_def)
  show thesis
  proof (cases "\<bar>d\<bar> < L")
    case True
    then show thesis using step by (intro that [of "1/2"]) simp_all
  next
    case False
    have b: "0 \<le> c + d" "c + d \<le> 1" using reg c by (cases "c \<le> 1/2"; auto)+
    then have v: "0 \<le> dbl (c + d)" "dbl (c + d) \<le> 1" by (auto intro: dbl_nonneg dbl_le)
    then have "num (c + d) = Fin (dbl (c + d))" using lim by (intro num_Fin) simp
    then have is_v: "decayAxis D rnd (Fin c) (Fin (1/2)) = Fin (dbl (c + d))"
      using step False v by (simp add: clamp01_def nclamp_id)
    have err: "\<bar>dbl (c + d) - (c + d)\<bar> \<le> 1 / 2 ^ 53" using b by (intro dbl_error) simp
    have "\<bar>dbl (c + d) - 1/2\<bar> \<le> \<bar>c - 1/2\<bar> - 49/10000"
    proof (cases "c \<le> 1/2")
      case True
      then have "dbl (c + d) \<le> 1/2" using reg by (intro dbl_le) auto
      moreover have "L \<le> d" using False True reg by auto
      ultimately show ?thesis using err True by (simp add: L_def abs_if split: if_splits)
    next
      case upper: False
      then have "1/2 \<le> dbl (c + d)" using reg by (intro dbl_ge) auto
      moreover have "d \<le> - L" using False upper reg by auto
      ultimately show ?thesis using err upper by (simp add: L_def abs_if split: if_splits)
    qed
    then show thesis using is_v v by (intro that [of "dbl (c + d)"]) simp_all
  qed
qed

lemma quiet_unit:
  assumes x: "unit x" and r: "0 \<le> r" "r \<le> 1/2"
    and D: "decay_rate D = Fin r" "noiseAmplitude D = Fin 0" and rnd: "unit rnd"
  shows "unit (decayAxis D rnd x (Fin (1/2)))
    \<and> (gap (decayAxis D rnd x (Fin (1/2))) = 0 \<or> gap (decayAxis D rnd x (Fin (1/2))) \<le> gap x - 49/10000)"
  using x
proof (rule unitE)
  fix c assume x: "x = Fin c" and c: "0 \<le> c" "c \<le> 1" "dbl c = c"
  obtain v where "decayAxis D rnd (Fin c) (Fin (1/2)) = Fin v" "dbl v = v" "0 \<le> v" "v \<le> 1"
    "v = 1/2 \<or> \<bar>v - 1/2\<bar> \<le> \<bar>c - 1/2\<bar> - 49/10000"
    by (rule quiet_step [OF c(3,1,2) r D rnd])
  then show ?thesis using x by (auto simp: unit_def gap_def)
qed

text \<open>The component at an axis after a number of ticks, each with its own draw.\<close>

fun quiet_run :: "emotion_decay \<Rightarrow> jsnum list \<Rightarrow> jsnum \<Rightarrow> jsnum" where
  "quiet_run D [] x = x"
| "quiet_run D (r # rs) x = quiet_run D rs (decayAxis D r x (Fin (1/2)))"

lemma quiet_run_gap:
  assumes "unit x" "0 \<le> r" "r \<le> 1/2" "decay_rate D = Fin r" "noiseAmplitude D = Fin 0" "\<forall>d\<in>set rs. unit d"
  shows "unit (quiet_run D rs x) \<and> (gap (quiet_run D rs x) = 0 \<or> gap (quiet_run D rs x) \<le> gap x - of_nat (length rs) * (49/10000))"
  using assms
proof (induction rs arbitrary: x)
  case (Cons d rs)
  let ?x = "decayAxis D d x (Fin (1/2))"
  have step: "unit ?x" "gap ?x = 0 \<or> gap ?x \<le> gap x - 49/10000"
    using quiet_unit [OF Cons.prems(1-5)] Cons.prems(6) by simp_all
  have "unit (quiet_run D rs ?x) \<and> (gap (quiet_run D rs ?x) = 0 \<or> gap (quiet_run D rs ?x) \<le> gap ?x - of_nat (length rs) * (49/10000))"
    using step(1) Cons.prems by (intro Cons.IH) simp_all
  moreover have "0 \<le> gap (quiet_run D rs ?x)" by (simp add: gap_def split: jsnum.split)
  ultimately show ?case using step(2) by (auto simp: field_simps)
qed simp

lemma gap_zero: "unit x \<Longrightarrow> gap x = 0 \<longleftrightarrow> x = Fin (1/2)"
  by (auto simp: gap_def elim!: unitE)

lemma quiet_run_baseline:
  assumes "unit x" "0 \<le> r" "r \<le> 1/2" "decay_rate D = Fin r" "noiseAmplitude D = Fin 0" "\<forall>d\<in>set rs. unit d"
    and len: "103 \<le> length rs"
  shows "quiet_run D rs x = Fin (1/2)"
proof -
  have run: "unit (quiet_run D rs x)" "gap (quiet_run D rs x) = 0 \<or> gap (quiet_run D rs x) \<le> gap x - of_nat (length rs) * (49/10000)"
    using quiet_run_gap [OF assms(1-6)] by simp_all
  have "gap x \<le> 1/2" using assms(1) by (auto simp: gap_def abs_if elim!: unitE)
  moreover have "(103::rat) \<le> of_nat (length rs)" using of_nat_mono [OF len, where 'a = rat] by simp
  moreover have "0 \<le> gap (quiet_run D rs x)" by (simp add: gap_def split: jsnum.split)
  ultimately have "gap (quiet_run D rs x) = 0" using run(2) by linarith
  then show ?thesis using run(1) by (simp add: gap_zero)
qed

definition decay_ticks :: "(draws \<times> draws) list \<Rightarrow> personality \<Rightarrow> personality" where
  "decay_ticks rs P = fold (\<lambda>(r1, r2) P. snd (decayTick r1 r2 P)) rs P"

lemma decay_ticks_state:
  "decay_running (decay P) \<Longrightarrow> current (decay_ticks rs P) =
     \<lparr>valence = quiet_run (decay P) (map (\<lambda>((a, b, c), _). a) rs) (valence (current P)),
      arousal = quiet_run (decay P) (map (\<lambda>((a, b, c), _). b) rs) (arousal (current P)),
      dominance = quiet_run (decay P) (map (\<lambda>((a, b, c), _). c) rs) (dominance (current P))\<rparr>
   \<and> target (decay_ticks rs P) =
     \<lparr>valence = quiet_run (decay P) (map (\<lambda>(_, (a, b, c)). a) rs) (valence (target P)),
      arousal = quiet_run (decay P) (map (\<lambda>(_, (a, b, c)). b) rs) (arousal (target P)),
      dominance = quiet_run (decay P) (map (\<lambda>(_, (a, b, c)). c) rs) (dominance (target P))\<rparr>"
proof (induction rs arbitrary: P)
  case (Cons r rs)
  obtain a b c a' b' c' where r: "r = ((a, b, c), (a', b', c'))" by (metis surj_pair)
  have "decay_running (decay (snd (decayTick (a, b, c) (a', b', c') P)))"
    "decay (snd (decayTick (a, b, c) (a', b', c') P)) = decay P"
    using Cons.prems by (simp_all add: decayTick_def Let_def)
  with Cons show ?case
    by (simp add: decay_ticks_def r decayTick_def Let_def BASELINE_STATE_def)
qed (simp add: decay_ticks_def)

text \<open>Decay ends, when it has no noise. With noise amplitude zero and a decay rate of at most one half,
  at most 103 ticks of a running decay timer bring both the current and the target state of the engine from
  any state of the unit cube exactly to the baseline, where every later tick leaves them, whatever the random
  draws are. In binary64 arithmetic each step moves a value towards one half by at least 0.0049, never across it, or
  aligns it.\<close>

theorem decay_reaches_baseline:
  assumes "unit_state (current P)" "unit_state (target P)" "decay_running (decay P)"
    and "decay_rate (decay P) = Fin r" "0 \<le> r" "r \<le> 1/2" "noiseAmplitude (decay P) = Fin 0"
    and "\<forall>(r1, r2)\<in>set rs. draws_ok r1 \<and> draws_ok r2" "103 \<le> length rs"
  shows "current (decay_ticks rs P) = BASELINE_STATE \<and> target (decay_ticks rs P) = BASELINE_STATE"
proof -
  have b: "quiet_run (decay P) (map f rs) x = Fin (1/2)" if "unit x" "\<forall>d\<in>set rs. unit (f d)" for f x
    using that assms by (intro quiet_run_baseline) auto
  have "\<forall>d\<in>set rs. unit ((\<lambda>((a, b, c), _). a) d) \<and> unit ((\<lambda>((a, b, c), _). b) d) \<and> unit ((\<lambda>((a, b, c), _). c) d)
      \<and> unit ((\<lambda>(_, (a, b, c)). a) d) \<and> unit ((\<lambda>(_, (a, b, c)). b) d) \<and> unit ((\<lambda>(_, (a, b, c)). c) d)"
    using assms(8) by (fastforce simp: draws_ok_def)
  then show ?thesis
    using assms(1,2) decay_ticks_state [OF assms(3), of rs]
    by (simp add: b unit_state_def BASELINE_STATE_def)
qed

definition sample_quiet :: personality where
  "sample_quiet = snd (setAffective \<lparr>valence = Fin 0, arousal = Fin 1, dominance = Fin (1/4)\<rparr>
     (updateDecay (Fin 300000) (Fin (1/4)) (Some (Fin 0)) sample_engine))"

definition sample_draws :: "(draws \<times> draws) list" where
  "sample_draws = replicate 103 ((Fin 0, Fin (1/2), Fin 1), (Fin 1, Fin 0, Fin (1/4)))"

lemma decay_reaches_baseline_witness:
  "current sample_quiet = \<lparr>valence = Fin 0, arousal = Fin 1, dominance = Fin (1/4)\<rparr>
   \<and> current (decay_ticks sample_draws sample_quiet) = BASELINE_STATE
   \<and> target (decay_ticks sample_draws sample_quiet) = BASELINE_STATE"
proof -
  have s: "current sample_quiet = \<lparr>valence = Fin 0, arousal = Fin 1, dominance = Fin (1/4)\<rparr>"
    "target sample_quiet = \<lparr>valence = Fin 0, arousal = Fin 1, dominance = Fin (1/4)\<rparr>"
    "decay_running (decay sample_quiet)" "decay_rate (decay sample_quiet) = Fin (1/4)" "noiseAmplitude (decay sample_quiet) = Fin 0"
    by (simp_all add: sample_quiet_def setAffective_def Let_def updateDecay_def decay_updateConfig_def clamp01_def nclamp_id)
  show ?thesis
    using decay_reaches_baseline [of sample_quiet "1/4" sample_draws] s
    by (simp add: unit_state_def unit_def sample_draws_def draws_ok_def)
qed

text \<open>With the noise that the decay has by default, a tick can move the baseline state away.\<close>

lemma lit_noise: "num (2/100) = Fin (5764607523034235 / 2 ^ 58)"
  using num_eval [of "2/100" 58 5764607523034235] by simp

lemma noise_leaves_baseline:
  "decayAxis (new_decay i (num (1/10))) (Fin 0) (Fin (1/2)) (Fin (1/2)) \<noteq> Fin (1/2)"
proof -
  let ?n = "5764607523034235 / 2 ^ 58 :: rat"
  have "in_range 0 (31/64) (num (1/2 - ?n))"
    using dyadic_double [of 31 6] by (intro num_range finite_limit_gt finite_limit_lt) simp_all
  then obtain v where v: "num (1/2 - ?n) = Fin v" "0 \<le> v" "v \<le> 31/64" by (rule in_rangeE)
  have "num (1/10) = Fin (dbl (1/10))"
    using dbl_le [of "1/10" 1] dbl_nonneg [of "1/10"] by (intro num_Fin finite_limit_gt) (simp add: abs_le_iff)
  then show ?thesis
    using v num_dyadic [of "- 1" 1] num_dyadic [of "- 1" 0] num_dyadic [of "- 5764607523034235" 58]
    by (simp add: decayAxis_def new_decay_def nsub_def nmul_def lit_noise [simplified] lit_005 nabs_def
        clamp01_def nclamp_id Let_def)
qed

end
