(* ===== verification/PhraseSelector.thy ===== *)
theory PhraseSelector
  imports PhraseStore Personality
begin

text \<open>
  Choosing a catchphrase (\<open>livedesign/src/llm-service/catchphrase/\<close>): the configured phrases
  (\<open>core-manager.ts\<close>), the trigger on deviations of the affective state (\<open>emotion-trigger.ts\<close>), the trigger
  on scenario tags (\<open>scenario-trigger.ts\<close>), the selector that ranks the candidates and modulates their
  intensity (\<open>selector.ts\<close>), the engine (\<open>index.ts\<close>) and the use of the result in the reply
  (\<open>agent/expresser.ts\<close>). The consistency check of the persona module is a parameter.
\<close>

section \<open>Configured phrases\<close>

datatype intensity = Low | Medium | High

record variants =
  low_text :: jstr
  medium_text :: jstr
  high_text :: jstr

record core_item =
  emotion_type :: jstr
  item_variants :: variants

fun variant :: "variants \<Rightarrow> intensity \<Rightarrow> jstr" where
  "variant v Low = low_text v"
| "variant v Medium = medium_text v"
| "variant v High = high_text v"

definition DEFAULT_CORE_CATCHPHRASES :: "core_item list" where
  "DEFAULT_CORE_CATCHPHRASES = [
     \<lparr>emotion_type = js ''encouragement'', item_variants = \<lparr>low_text = [21152, 27833],
        medium_text = [20320, 19968, 23450, 21487, 20197, 30340], high_text = [20320, 19968, 23450, 21487, 20197, 20570, 21040, 30340, 65281]\<rparr>\<rparr>,
     \<lparr>emotion_type = js ''calming'', item_variants = \<lparr>low_text = [27809, 20107, 30340],
        medium_text = [27809, 20851, 31995, 30340, 126], high_text = [21035, 25285, 24515, 65292, 25105, 19968, 30452, 22312, 36825, 37324]\<rparr>\<rparr>]"

record core_manager =
  items :: "core_item list"
  loaded :: bool

definition new_core :: core_manager where
  "new_core = \<lparr>items = [], loaded = False\<rparr>"

text \<open>What the configuration reader gives: nothing is configured, the read throws, an array, a text
  (parsed, or \<open>None\<close> when that throws), or a value of another kind. Values have the documented shape.\<close>

datatype core_config = NoReader | ReadFails | ArrayValue "core_item list" | TextValue "core_item list option" | OtherValue

definition configured_items :: "core_config \<Rightarrow> core_item list \<Rightarrow> core_item list" where
  "configured_items raw old = (case raw of
      ArrayValue xs \<Rightarrow> xs | TextValue (Some xs) \<Rightarrow> xs | _ \<Rightarrow> old)"

definition core_load :: "core_config \<Rightarrow> core_manager \<Rightarrow> core_manager" where
  "core_load raw C =
     (if loaded C then C
      else (let xs = configured_items raw (items C)
            in \<lparr>items = (if xs = [] then DEFAULT_CORE_CATCHPHRASES else xs), loaded = True\<rparr>))"

definition getCatchphrase :: "jstr \<Rightarrow> intensity \<Rightarrow> core_manager \<Rightarrow> jstr option" where
  "getCatchphrase e i C =
     (case find (\<lambda>x. emotion_type x = e) (items C) of Some x \<Rightarrow> Some (variant (item_variants x) i) | None \<Rightarrow> None)"

definition resolveIntensityByDeviation :: "jsnum \<Rightarrow> intensity" where
  "resolveIntensityByDeviation d =
     (if num_less (num (6/10)) d then High else if num_less (num (3/10)) d then Medium else Low)"

definition core_reset :: "core_manager \<Rightarrow> core_manager" where
  "core_reset C = new_core"

section \<open>The emotion trigger\<close>

datatype axis = Valence | Arousal | Dominance
datatype direction = Positive | Negative

record emotion_trigger =
  threshold :: jsnum
  valenceWeight :: jsnum

record emotion_context =
  deviation :: jsnum
  dominantAxis :: axis
  deviationDirection :: direction

definition DEFAULT_TRIGGER :: emotion_trigger where
  "DEFAULT_TRIGGER = \<lparr>threshold = num (3/10), valenceWeight = num (6/10)\<rparr>"

definition trigger_updateConfig :: "jsnum \<Rightarrow> jsnum \<Rightarrow> emotion_trigger \<Rightarrow> emotion_trigger" where
  "trigger_updateConfig t w T = T\<lparr>threshold := t, valenceWeight := w\<rparr>"

definition direction_of :: "jsnum \<Rightarrow> jsnum \<Rightarrow> direction" where
  "direction_of cur base = (if num_less base cur then Positive else Negative)"

definition computeContext :: "emotion_trigger \<Rightarrow> affective \<Rightarrow> affective \<Rightarrow> emotion_context" where
  "computeContext T cur base =
     (let dv = nabs (nsub (valence cur) (valence base));
          da = nabs (nsub (arousal cur) (arousal base));
          dd = nabs (nsub (dominance cur) (dominance base));
          dev = nadd (nadd (nmul dv (valenceWeight T)) (nmul da (Fin (1/4)))) (nmul dd (num (15/100)));
          m = nmax (nmax dv da) dd
      in if num_eq m dv then \<lparr>deviation = dev, dominantAxis = Valence, deviationDirection = direction_of (valence cur) (valence base)\<rparr>
         else if num_eq m da then \<lparr>deviation = dev, dominantAxis = Arousal, deviationDirection = direction_of (arousal cur) (arousal base)\<rparr>
         else \<lparr>deviation = dev, dominantAxis = Dominance, deviationDirection = direction_of (dominance cur) (dominance base)\<rparr>)"

definition isTriggered :: "emotion_trigger \<Rightarrow> emotion_context \<Rightarrow> bool" where
  "isTriggered T c = num_less (threshold T) (deviation c)"

definition EMOTION_DIRECTION_MAP :: "(jstr \<times> axis \<times> direction) list" where
  "EMOTION_DIRECTION_MAP = [(js ''encouragement'', Valence, Negative), (js ''calming'', Arousal, Positive)]"

definition matchEmotionType :: "emotion_trigger \<Rightarrow> emotion_context \<Rightarrow> jstr option" where
  "matchEmotionType T c =
     (if \<not> isTriggered T c then None
      else (case find (\<lambda>(_, a, d). a = dominantAxis c \<and> d = deviationDirection c) EMOTION_DIRECTION_MAP of
          Some (e, _) \<Rightarrow> Some e
        | None \<Rightarrow> (case find (\<lambda>(_, a, d). a = dominantAxis c) EMOTION_DIRECTION_MAP of
            Some (e, _) \<Rightarrow> Some e
          | None \<Rightarrow> Some (if deviationDirection c = Negative then js ''encouragement'' else js ''calming''))))"

section \<open>The scenario trigger\<close>

text \<open>An empty tag is falsy. Results are sorted by confidence, 1 before 0.6, stably.\<close>

definition tag_match :: "jstr list \<Rightarrow> relational \<Rightarrow> (relational \<times> jsnum) list" where
  "tag_match tags c = (case scenarioTag c of
      None \<Rightarrow> []
    | Some t \<Rightarrow> if t = [] then []
        else if t \<in> set tags then [(c, Fin 1)]
        else if \<exists>u\<in>set tags. str_includes u t \<or> str_includes t u then [(c, num (6/10))] else [])"

definition scenario_match :: "jstr list \<Rightarrow> relational list \<Rightarrow> (relational \<times> jsnum) list" where
  "scenario_match tags cs =
     (if tags = [] \<or> cs = [] then []
      else (let rs = concat (map (tag_match tags) cs)
            in filter (\<lambda>(_, k). k = Fin 1) rs @ filter (\<lambda>(_, k). k \<noteq> Fin 1) rs))"

section \<open>The selector\<close>

datatype phrase_source = CorePhrase | RelationalPhrase

record phrase_match =
  match_text :: jstr
  match_source :: phrase_source
  match_intensity :: intensity
  confidence :: jsnum
  match_emotion :: "jstr option"
  relationalId :: "jstr option"

record selection_config =
  sel_current :: affective
  sel_baseline :: affective
  sel_tags :: "jstr list"
  adaptiveEncouragement :: jsnum
  sel_session :: jstr

record 'd catchphrase_engine =
  coreManager :: core_manager
  relationalManager :: "'d relational_manager"
  emotionTrigger :: emotion_trigger
  frequencyGovernor :: governor

definition new_catchphrase_engine :: "'d catchphrase_engine" where
  "new_catchphrase_engine = \<lparr>coreManager = new_core,
     relationalManager = new_relational_manager (Fin 5) (num (7/10)), emotionTrigger = DEFAULT_TRIGGER,
     frequencyGovernor = new_governor (Fin 1)\<rparr>"

definition engine_initialize :: "core_config \<Rightarrow> 'd catchphrase_engine \<Rightarrow> 'd catchphrase_engine" where
  "engine_initialize raw E = E\<lparr>coreManager := core_load raw (coreManager E)\<rparr>"

definition tryEmotionMatch :: "(jstr \<Rightarrow> bool) \<Rightarrow> 'd catchphrase_engine \<Rightarrow> emotion_context \<Rightarrow> phrase_match option" where
  "tryEmotionMatch check E c =
     (if \<not> isTriggered (emotionTrigger E) c then None
      else (case matchEmotionType (emotionTrigger E) c of
          None \<Rightarrow> None
        | Some e \<Rightarrow>
            (let i = resolveIntensityByDeviation (deviation c)
             in case getCatchphrase e i (coreManager E) of
                  None \<Rightarrow> None
                | Some t \<Rightarrow> if t = [] \<or> \<not> check t then None
                    else Some \<lparr>match_text = t, match_source = CorePhrase, match_intensity = i,
                               confidence = num (8/10), match_emotion = Some e, relationalId = None\<rparr>)))"

definition relational_match :: "relational \<Rightarrow> jsnum \<Rightarrow> phrase_match" where
  "relational_match c k = \<lparr>match_text = rel_text c, match_source = RelationalPhrase, match_intensity = Medium,
     confidence = k, match_emotion = None, relationalId = Some (rel_id c)\<rparr>"

definition modulated_intensity :: "jsnum \<Rightarrow> intensity \<Rightarrow> intensity" where
  "modulated_intensity gain i =
     (if num_less (num (115/100)) gain \<and> i = Low then Medium
      else if num_less (num (125/100)) gain \<and> i = Medium then High
      else if num_less gain (num (85/100)) \<and> i = High then Medium
      else if num_less gain (num (75/100)) \<and> i = Medium then Low
      else i)"

definition tone_gain :: "jsnum \<Rightarrow> jsnum" where
  "tone_gain a = nadd (Fin 1) (nmul (nsub a (Fin (1/2))) (num (4/10)))"

definition applyToneModulation :: "phrase_match \<Rightarrow> jsnum \<Rightarrow> phrase_match" where
  "applyToneModulation m a = m\<lparr>match_intensity := modulated_intensity (tone_gain a) (match_intensity m),
     confidence := nmul (confidence m) (nmin (tone_gain a) (num (13/10)))\<rparr>"

text \<open>\<open>Math.floor(Math.random() * n)\<close>.\<close>

definition random_index :: "jsnum \<Rightarrow> nat \<Rightarrow> nat" where
  "random_index rnd n = (case nmul rnd (Fin (of_nat n)) of Fin v \<Rightarrow> nat \<lfloor>v\<rfloor> | _ \<Rightarrow> 0)"

text \<open>The three steps: a match that fails its consistency check leaves room for the next step.\<close>

definition best_match :: "'d database \<Rightarrow> (jstr \<Rightarrow> bool) \<Rightarrow> jsnum \<Rightarrow> selection_config \<Rightarrow> 'd catchphrase_engine \<Rightarrow> phrase_match option" where
  "best_match D check rnd cfg E =
     (let ctx = computeContext (emotionTrigger E) (sel_current cfg) (sel_baseline cfg);
          active = getActive D (relationalManager E);
          scen = scenario_match (sel_tags cfg) active;
          m1 = tryEmotionMatch check E ctx;
          m2 = (if m1 = None \<and> scen \<noteq> [] \<and> check (rel_text (fst (hd scen)))
                then Some (relational_match (fst (hd scen)) (snd (hd scen))) else m1)
      in if m2 = None \<and> active \<noteq> []
         then (let c = active ! random_index rnd (length active)
               in if check (rel_text c) then Some (relational_match c (num (3/10))) else None)
         else m2)"

definition select_phrase :: "'d database \<Rightarrow> (jstr \<Rightarrow> bool) \<Rightarrow> jsnum \<Rightarrow> selection_config \<Rightarrow> 'd catchphrase_engine \<Rightarrow> phrase_match option" where
  "select_phrase D check rnd cfg E =
     (if \<not> canOutput (sel_session cfg) (frequencyGovernor E) then None
      else (case best_match D check rnd cfg E of
          None \<Rightarrow> None
        | Some m \<Rightarrow> if check (match_text m) then Some (applyToneModulation m (adaptiveEncouragement cfg)) else None))"

section \<open>Use in the reply\<close>

definition injectCatchphrase :: "jstr \<Rightarrow> phrase_match \<Rightarrow> jstr" where
  "injectCatchphrase text m = (if str_includes text (match_text m) then text else match_text m @ [32] @ text)"

definition modulateIntensityByCatchphrase :: "jsnum \<Rightarrow> phrase_match \<Rightarrow> jsnum" where
  "modulateIntensityByCatchphrase base m =
     (let boost = (case match_intensity m of Low \<Rightarrow> num (3/10) | Medium \<Rightarrow> Fin (1/2) | High \<Rightarrow> num (8/10))
      in nmin (ndiv (nadd base boost) (Fin 2)) (Fin 1))"

section \<open>The random pick is in range\<close>

text \<open>A draw is a double below one, so it is at most \<open>1 - 2^-53\<close>; then rounding the product with a length
  never reaches the length.\<close>

lemma rounded_product_below:
  assumes n: "0 < n" "n \<le> 2 ^ 53" and r: "0 \<le> r" "r \<le> 1 - 1 / 2 ^ 53"
  shows "dbl (r * of_nat n) < of_nat n"
proof -
  define m :: rat where "m = of_nat n"
  have m: "1 \<le> m" using n(1) by (simp add: m_def)
  define k where "k = binade m"
  define y where "y = (1 - 1 / 2 ^ 53) * m"
  have kb: "2 powi k \<le> m" "m < 2 powi (k + 1)" using binade_bounds [of m] m by (simp_all add: k_def)
  have k0: "0 \<le> k" using binade_mono [of 1 m] m binade_eq [of 0 1] by (simp add: k_def)
  have "dbl (r * m) \<le> dbl y"
    unfolding y_def using r m by (intro dbl_mono mult_right_mono) simp_all
  moreover have "dbl y < m"
  proof (cases "m = 2 powi k")
    case True
    have "y = of_int (2 ^ 53 - 1) * 2 powi ((k - 1) - 52)"
      by (simp add: y_def True power_int_diff field_simps)
    then have "dbl y = y" using dbl_representable [of "2 ^ 53 - 1" "k - 1"] k0 by simp
    moreover have "y < m" using m by (simp add: y_def)
    ultimately show ?thesis by simp
  next
    case False
    define j where "j = nat k"
    have kj: "k = int j" using k0 by (simp add: j_def)
    have mn: "m = of_nat n" "(2::rat) powi k = of_nat (2 ^ j)" by (simp_all add: m_def kj)
    then have "2 ^ j < n" using kb(1) False by (simp only: of_nat_less_iff less_le of_nat_le_iff of_nat_eq_iff) auto
    then have "of_nat (2 ^ j + 1) \<le> m" unfolding mn(1) by (simp only: of_nat_le_iff)
    moreover have "m \<le> 2 ^ 53" using of_nat_mono [OF n(2), where 'a = rat] by (simp add: m_def)
    ultimately have "2 powi k \<le> y" by (simp add: y_def kj field_simps)
    moreover have "y < 2 powi (k + 1)" using kb(2) m by (simp add: y_def field_simps)
    ultimately have bin: "binade y = k" by (rule binade_eq)
    have y0: "0 < y" using m by (simp add: y_def)
    have jle: "j \<le> 52"
    proof (rule ccontr)
      assume "\<not> j \<le> 52"
      then have "(2::nat) ^ 53 \<le> 2 ^ j" by (intro power_increasing) simp_all
      then show False using \<open>2 ^ j < n\<close> n(2) by linarith
    qed
    have u: "ulp y = 1 / 2 ^ (52 - j)"
    proof -
      have "ulp y = 2 powi (- int (52 - j))" using y0 bin jle by (simp add: ulp_def kj of_nat_diff)
      then show ?thesis by (simp add: power_int_minus_divide)
    qed
    have p: "(2::rat) ^ 53 = 2 ^ (52 - j) * (2 * 2 ^ j)"
      using jle by (metis (no_types) le_add_diff_inverse2 mult.left_commute power_add power_Suc numeral_nat(7) Suc_numeral semiring_norm(5) semiring_norm(8))
    have q: "(2::rat) ^ (52 - j) / 2 ^ 53 = 1 / (2 * 2 ^ j)" unfolding p by simp
    have "y / ulp y = y * 2 ^ (52 - j)" by (simp add: u)
    also have "\<dots> = m * 2 ^ (52 - j) - m * (2 ^ (52 - j) / 2 ^ 53)" by (simp add: y_def left_diff_distrib)
    also have "\<dots> = of_nat (n * 2 ^ (52 - j)) - m / (2 * 2 ^ j)" unfolding q by (simp add: mn(1))
    finally have "y / ulp y = of_nat (n * 2 ^ (52 - j)) - m / (2 * 2 ^ j)" .
    moreover have "1 / 2 < m / (2 * 2 ^ j)" using kb(1) False by (simp add: kj field_simps)
    ultimately have "of_int (rne (y / ulp y)) < (of_nat (n * 2 ^ (52 - j)) :: rat)"
      using rne_bounds [of "y / ulp y"] by linarith
    then have "of_int (rne (y / ulp y)) * ulp y < of_nat (n * 2 ^ (52 - j)) * ulp y"
      by (intro mult_strict_right_mono) simp_all
    then show ?thesis using y0 by (simp add: dbl_def u mn(1))
  qed
  ultimately show ?thesis by (simp add: m_def)
qed

lemma random_index_in_range:
  assumes "0 < n" "n \<le> 2 ^ 53" "0 \<le> r" "r \<le> 1 - 1 / 2 ^ 53"
  shows "random_index (Fin r) n < n"
proof -
  have v: "0 \<le> dbl (r * of_nat n)" "dbl (r * of_nat n) < of_nat n"
    using rounded_product_below [OF assms] assms(3) by (simp_all add: dbl_nonneg)
  have "(of_nat n :: rat) \<le> 2 ^ 64" using of_nat_mono [OF assms(2), where 'a = rat] by simp
  then have "num (r * of_nat n) = Fin (dbl (r * of_nat n))"
    using v by (intro num_Fin finite_limit_gt) (simp add: abs_of_nonneg)
  moreover have "nat \<lfloor>dbl (r * of_nat n)\<rfloor> < n"
    using v by (simp add: nat_less_iff floor_less_iff)
  ultimately show ?thesis by (simp add: random_index_def nmul_def)
qed

section \<open>The baseline triggers nothing\<close>

lemma nsub_self: "unit x \<Longrightarrow> nabs (nsub x x) = Fin 0"
  by (auto simp: nsub_def nabs_def elim!: unitE)

lemma baseline_not_triggered:
  assumes "unit_state s" "num_le (Fin 0) (threshold T)" "bounded 1 (valenceWeight T)"
  shows "\<not> isTriggered T (computeContext T s s)"
proof -
  have z: "nabs (nsub (valence s) (valence s)) = Fin 0" "nabs (nsub (arousal s) (arousal s)) = Fin 0"
    "nabs (nsub (dominance s) (dominance s)) = Fin 0"
    using assms(1) by (simp_all add: unit_state_def nsub_self)
  have zm: "nmul (Fin 0) w = Fin 0" if "bounded 1 w" for w
    using that by (auto simp: bounded_def nmul_def elim!: in_rangeE)
  have "bounded 1 (num (3/20))" "bounded 1 (Fin (1/4))" by (simp_all add: bounded_num, simp add: bounded_def)
  then have "deviation (computeContext T s s) = Fin 0"
    using assms(3) z zm by (simp add: computeContext_def Let_def)
  moreover have "\<not> num_less (threshold T) (Fin 0)" using assms(2) by (cases "threshold T") (auto simp: num_le_def)
  ultimately show ?thesis by (simp add: isTriggered_def)
qed

section \<open>What is selected\<close>

lemma getCatchphrase_item: "getCatchphrase e i C = Some t \<Longrightarrow> \<exists>x\<in>set (items C). e = emotion_type x \<and> t = variant (item_variants x) i"
  by (auto simp: getCatchphrase_def find_Some_iff split: option.splits intro!: bexI [OF _ nth_mem])

lemma tryEmotionMatch_Some:
  assumes "tryEmotionMatch check E c = Some m"
  shows "isTriggered (emotionTrigger E) c \<and> match_source m = CorePhrase \<and> check (match_text m) \<and> match_text m \<noteq> []
    \<and> confidence m = num (8/10)
    \<and> (\<exists>x\<in>set (items (coreManager E)). match_emotion m = Some (emotion_type x)
         \<and> match_text m = variant (item_variants x) (match_intensity m))"
  using assms
  by (auto simp: tryEmotionMatch_def Let_def dest: getCatchphrase_item split: if_splits option.splits)

lemma scenario_match_active: "(c, k) \<in> set (scenario_match tags cs) \<Longrightarrow> c \<in> set cs \<and> (k = Fin 1 \<or> k = num (6/10))"
  by (auto simp: scenario_match_def Let_def tag_match_def split: if_splits option.splits)

text \<open>The candidates that a match can come from.\<close>

definition admissible :: "'d database \<Rightarrow> (jstr \<Rightarrow> bool) \<Rightarrow> 'd catchphrase_engine \<Rightarrow> phrase_match \<Rightarrow> bool" where
  "admissible D check E m \<longleftrightarrow> check (match_text m) \<and>
     ((match_source m = CorePhrase
        \<and> (\<exists>x\<in>set (items (coreManager E)). \<exists>i. match_text m = variant (item_variants x) i))
    \<or> (match_source m = RelationalPhrase
        \<and> (\<exists>c\<in>set (findAll D (relationalManager E)). rel_status c = Active
             \<and> match_text m = rel_text c \<and> relationalId m = Some (rel_id c))))"

lemma relational_admissible:
  "c \<in> set (getActive D (relationalManager E)) \<Longrightarrow> check (rel_text c) \<Longrightarrow> admissible D check E (relational_match c k)"
  by (auto simp: admissible_def relational_match_def getActive_def)

lemma best_match_admissible:
  assumes m: "best_match D check (Fin r) cfg E = Some m"
    and r: "0 \<le> r" "r \<le> 1 - 1 / 2 ^ 53" and len: "length (findAll D (relationalManager E)) \<le> 2 ^ 53"
  shows "admissible D check E m"
proof -
  define active where "active = getActive D (relationalManager E)"
  define ctx where "ctx = computeContext (emotionTrigger E) (sel_current cfg) (sel_baseline cfg)"
  define scen where "scen = scenario_match (sel_tags cfg) active"
  consider (emotion) "tryEmotionMatch check E ctx = Some m"
    | (scenario) "scen \<noteq> []" "check (rel_text (fst (hd scen)))" "m = relational_match (fst (hd scen)) (snd (hd scen))"
    | (random) "active \<noteq> []" "check (rel_text (active ! random_index (Fin r) (length active)))"
        "m = relational_match (active ! random_index (Fin r) (length active)) (num (3/10))"
    using m unfolding best_match_def active_def [symmetric] ctx_def [symmetric] scen_def [symmetric] Let_def
    by (auto split: if_splits)
  then show ?thesis
  proof cases
    case emotion
    then show ?thesis using tryEmotionMatch_Some [OF emotion] by (auto simp: admissible_def)
  next
    case scenario
    have "hd scen \<in> set scen" using scenario(1) by simp
    then have "fst (hd scen) \<in> set active"
      using scenario_match_active [of "fst (hd scen)" "snd (hd scen)"] by (simp add: scen_def)
    then show ?thesis using scenario relational_admissible by (simp add: active_def)
  next
    case random
    have "length active \<le> 2 ^ 53" using len length_filter_le order_trans unfolding active_def getActive_def by blast
    then have "random_index (Fin r) (length active) < length active"
      using random(1) r by (intro random_index_in_range) simp_all
    then have "active ! random_index (Fin r) (length active) \<in> set active" by (rule nth_mem)
    then show ?thesis using random relational_admissible by (simp add: active_def)
  qed
qed

lemma tone_text [simp]:
  "match_text (applyToneModulation m a) = match_text m" "match_source (applyToneModulation m a) = match_source m"
  "relationalId (applyToneModulation m a) = relationalId m"
  by (simp_all add: applyToneModulation_def)

text \<open>C24: A selection only ever outputs an admissible phrase: the governor allowed an output in the session, the
  text has passed the consistency check, and it is a variant of a configured phrase or the text of a
  learned phrase that is active, identified in the result. A random pick is always in range: a
  draw below one, multiplied with the number of active phrases and rounded, stays below that
  number. And a phrase for the user's emotion takes precedence over all others, with only its strength modulated.\<close>

theorem selection_is_admissible:
  assumes r: "0 \<le> r" "r \<le> 1 - 1 / 2 ^ 53" and len: "length (findAll D (relationalManager E)) \<le> 2 ^ 53"
  shows "(case select_phrase D check (Fin r) cfg E of
      None \<Rightarrow> True
    | Some m \<Rightarrow> canOutput (sel_session cfg) (frequencyGovernor E) \<and> admissible D check E m)
   \<and> (\<forall>m. canOutput (sel_session cfg) (frequencyGovernor E)
        \<and> tryEmotionMatch check E (computeContext (emotionTrigger E) (sel_current cfg) (sel_baseline cfg)) = Some m
        \<longrightarrow> select_phrase D check (Fin r) cfg E = Some (applyToneModulation m (adaptiveEncouragement cfg)))"
proof -
  have tone: "admissible D check E m \<Longrightarrow> admissible D check E (applyToneModulation m a)" for m a
    by (simp add: admissible_def)
  have first: "best_match D check (Fin r) cfg E = Some m"
    if "tryEmotionMatch check E (computeContext (emotionTrigger E) (sel_current cfg) (sel_baseline cfg)) = Some m" for m
    using that by (simp add: best_match_def Let_def)
  show ?thesis
    using best_match_admissible [OF _ r len, of check cfg] tone first
    by (auto simp: select_phrase_def split: option.split dest: tryEmotionMatch_Some)
qed

definition sample_phrase :: relational where
  "sample_phrase = \<lparr>rel_id = js ''p1'', rel_text = js ''go on'', usageCount = 7, totalFeedbackScore = Fin 1, feedbackCount = 1,
     averageScore = Fin 1, rel_status = Active, scenarioTag = Some (js ''work''), createdAt = 5, lastUsedAt = Some 5\<rparr>"

definition sample_selector :: "unit catchphrase_engine" where
  "sample_selector = \<lparr>coreManager = core_load NoReader new_core,
     relationalManager = \<lparr>minUsage = Fin 5, minFeedback = Fin 0, rel_db = None, memory = [sample_phrase]\<rparr>,
     emotionTrigger = DEFAULT_TRIGGER, frequencyGovernor = new_governor (Fin 1)\<rparr>"

definition no_db :: "unit database" where
  "no_db = \<lparr>db_create = \<lambda>d. None, db_insert = \<lambda>r d. None, db_rows = \<lambda>d. None\<rparr>"

definition sample_config :: selection_config where
  "sample_config = \<lparr>sel_current = BASELINE_STATE, sel_baseline = BASELINE_STATE, sel_tags = [js ''work''],
     adaptiveEncouragement = Fin (1/2), sel_session = js ''s''\<rparr>"

lemma sample_selection:
  "map_option match_text (select_phrase no_db (\<lambda>t. True) (Fin (1/2)) sample_config sample_selector) = Some (js ''go on'')"
proof -
  have "\<not> isTriggered DEFAULT_TRIGGER (computeContext DEFAULT_TRIGGER BASELINE_STATE BASELINE_STATE)"
  proof (rule baseline_not_triggered)
    have "unit (num (3/10))" "unit (num (6/10))" by (simp_all add: unit_num)
    then show "num_le (Fin 0) (threshold DEFAULT_TRIGGER)" "bounded 1 (valenceWeight DEFAULT_TRIGGER)"
      by (auto simp: DEFAULT_TRIGGER_def unit_bounded elim!: unitE)
  qed simp
  then show ?thesis
    by (simp add: select_phrase_def best_match_def sample_selector_def sample_config_def getActive_def findAll_def
        sample_phrase_def tryEmotionMatch_def scenario_match_def tag_match_def relational_match_def canOutput_def
        getOutputCount_def new_governor_def Let_def)
qed

lemma selection_is_admissible_witness:
  "case select_phrase no_db (\<lambda>t. True) (Fin (1/2)) sample_config sample_selector of
     None \<Rightarrow> False
   | Some m \<Rightarrow> match_text m = js ''go on'' \<and> admissible no_db (\<lambda>t. True) sample_selector m"
proof -
  have len: "length (findAll no_db (relationalManager sample_selector)) \<le> 2 ^ 53"
    by (simp add: findAll_def sample_selector_def)
  have "0 \<le> (1/2 :: rat)" "(1/2 :: rat) \<le> 1 - 1 / 2 ^ 53" by simp_all
  from selection_is_admissible [OF this len, where check = "\<lambda>t. True" and cfg = sample_config] sample_selection
  show ?thesis by (auto split: option.splits)
qed

section \<open>The emotion trigger\<close>

text \<open>The emotion trigger in closed form: a phrase type is matched exactly when the weighted deviation from the
  baseline exceeds the threshold, and it is decided by the axis of the largest deviation: encouragement for valence and calming for
  arousal, whatever the direction of the deviation, and by the direction for dominance. In the baseline itself nothing is
  triggered for any threshold that is not negative, wherever in the unit cube the baseline lies.\<close>

theorem emotion_trigger_meaning:
  shows "matchEmotionType T c =
      (if isTriggered T c
       then Some (case dominantAxis c of
           Valence \<Rightarrow> js ''encouragement''
         | Arousal \<Rightarrow> js ''calming''
         | Dominance \<Rightarrow> (if deviationDirection c = Negative then js ''encouragement'' else js ''calming''))
       else None)
    \<and> (unit_state s \<and> num_le (Fin 0) (threshold T) \<and> bounded 1 (valenceWeight T)
        \<longrightarrow> matchEmotionType T (computeContext T s s) = None)"
proof (intro conjI impI)
  show "matchEmotionType T c =
      (if isTriggered T c
       then Some (case dominantAxis c of
           Valence \<Rightarrow> js ''encouragement''
         | Arousal \<Rightarrow> js ''calming''
         | Dominance \<Rightarrow> (if deviationDirection c = Negative then js ''encouragement'' else js ''calming''))
       else None)"
    by (cases "dominantAxis c"; cases "deviationDirection c")
      (simp_all add: matchEmotionType_def EMOTION_DIRECTION_MAP_def)
next
  assume "unit_state s \<and> num_le (Fin 0) (threshold T) \<and> bounded 1 (valenceWeight T)"
  then show "matchEmotionType T (computeContext T s s) = None"
    using baseline_not_triggered [of s T] by (simp add: matchEmotionType_def)
qed

lemma lit_060: "num (6/10) = Fin (5404319552844595 / 2 ^ 53)"
  using num_eval [of "6/10" 53 5404319552844595] by simp

lemma lit_030: "num (3/10) = Fin (5404319552844595 / 2 ^ 54)"
  using num_eval [of "3/10" 54 5404319552844595] by simp

lemma emotion_trigger_meaning_witness:
  "matchEmotionType DEFAULT_TRIGGER (computeContext DEFAULT_TRIGGER BASELINE_STATE BASELINE_STATE) = None"
proof -
  have "unit_state BASELINE_STATE" by (simp add: unit_state_def BASELINE_STATE_def vad_def)
  moreover have "num_le (Fin 0) (threshold DEFAULT_TRIGGER)"
    by (simp add: DEFAULT_TRIGGER_def lit_030 [simplified])
  moreover have "bounded 1 (valenceWeight DEFAULT_TRIGGER)"
    by (simp add: DEFAULT_TRIGGER_def lit_060 [simplified] bounded_def)
  ultimately show ?thesis
    using emotion_trigger_meaning [of DEFAULT_TRIGGER "computeContext DEFAULT_TRIGGER BASELINE_STATE BASELINE_STATE" BASELINE_STATE]
    by blast
qed

section \<open>Tone modulation\<close>

lemma lit_040: "num (4/10) = Fin (7205759403792794 / 2 ^ 54)"
  using num_eval [of "4/10" 54 7205759403792794] by simp

lemma lit_115: "num (115/100) = Fin (5179139571476070 / 2 ^ 52)"
  using num_eval [of "115/100" 52 5179139571476070] by simp

lemma lit_125: "num (125/100) = Fin (5 / 4)"
  using num_dyadic [of 5 2] by simp

lemma lit_085: "num (85/100) = Fin (7656119366529843 / 2 ^ 53)"
  using num_eval [of "85/100" 53 7656119366529843] by simp

lemma lit_075: "num (75/100) = Fin (3 / 4)"
  using num_dyadic [of 3 2] by simp

lemma lit_130: "num (13/10) = Fin (5854679515581645 / 2 ^ 52)"
  using num_eval [of "13/10" 52 5854679515581645] by simp

text \<open>The gain, with room to spare in the bounds, for adaptive values in the documented range.\<close>

lemma gain_range:
  assumes a: "51 / 256 \<le> v" "v \<le> 231 / 256"
  obtains g where "tone_gain (Fin v) = Fin g" "57605 / 65536 \<le> g" "g \<le> 76145 / 65536"
    "33 / 64 \<le> v \<longrightarrow> 513 / 512 \<le> g"
proof -
  let ?k = "7205759403792794 / 2 ^ 54 :: rat"
  have "in_range (of_int (- 77) / 2 ^ 8) (of_int 103 / 2 ^ 8) (num (v - 1/2))"
    using a by (intro num_range_dyadic) simp_all
  then obtain w where w: "num (v - 1/2) = Fin w" "- 77 / 256 \<le> w" "w \<le> 103 / 256" by (auto elim: in_rangeE)
  have "w * ?k \<le> 103 / 256 * (103 / 256)"
    using w(3) mult_mono [of w "103/256" ?k "103/256"] by (cases "0 \<le> w") (auto intro: order_trans [of _ 0] mult_nonpos_nonneg)
  moreover have "- (77 / 256) * (103 / 256) \<le> w * ?k"
    using w(2) mult_mono [of "- w" "77/256" ?k "103/256"] by (cases "w \<le> 0") (auto intro: order_trans [of _ 0])
  ultimately have "in_range (of_int (- 7931) / 2 ^ 16) (of_int 10609 / 2 ^ 16) (num (w * ?k))"
    by (intro num_range_dyadic) simp_all
  then obtain p where p: "num (w * ?k) = Fin p" "- 7931 / 65536 \<le> p" "p \<le> 10609 / 65536" by (auto elim: in_rangeE)
  have "in_range (of_int 57605 / 2 ^ 16) (of_int 76145 / 2 ^ 16) (num (1 + p))"
    using p by (intro num_range_dyadic) simp_all
  then obtain g where g: "num (1 + p) = Fin g" "57605 / 65536 \<le> g" "g \<le> 76145 / 65536" by (auto elim: in_rangeE)
  have up: "513 / 512 \<le> g" if v: "33 / 64 \<le> v"
  proof -
    have "in_range (of_int 1 / 2 ^ 6) (of_int 103 / 2 ^ 8) (num (v - 1/2))"
      using a v by (intro num_range_dyadic) simp_all
    then have w1: "1 / 64 \<le> w" using w(1) by simp
    then have "1 / 64 * (1 / 4) \<le> w * ?k" by (intro mult_mono) simp_all
    then have "in_range (of_int 1 / 2 ^ 8) (of_int 10609 / 2 ^ 16) (num (w * ?k))"
      using \<open>w * ?k \<le> 103 / 256 * (103 / 256)\<close> by (intro num_range_dyadic) simp_all
    then have "1 / 256 \<le> p" using p(1) by simp
    then have "in_range (of_int 513 / 2 ^ 9) (of_int 76145 / 2 ^ 16) (num (1 + p))"
      using p by (intro num_range_dyadic) simp_all
    then show ?thesis using g(1) by simp
  qed
  have "tone_gain (Fin v) = Fin g"
    using w(1) p(1) g(1) by (simp add: tone_gain_def nsub_def nmul_def lit_040 [simplified])
  then show thesis using g up that by blast
qed

text \<open>Over the documented range of the adaptive encouragement, from 0.2 to 0.9, the modulation of the tone can do one thing to the
  strength of a phrase: raise low to medium, when the gain exceeds 1.15. Medium and high are never changed,
  and the branches that would raise medium or lower a strength cannot be reached. The text is
  kept, so a raised phrase has the strength of another variant than the one that is output. And a match of
  confidence one gets a confidence above one as soon as the adaptive value reaches 33/64, although a confidence is documented to
  lie between zero and one.\<close>

theorem modulation_range:
  assumes "51 / 256 \<le> v" "v \<le> 231 / 256"
  shows "match_text (applyToneModulation m (Fin v)) = match_text m
    \<and> match_intensity (applyToneModulation m (Fin v)) =
        (if match_intensity m = Low \<and> num_less (num (115/100)) (tone_gain (Fin v)) then Medium else match_intensity m)
    \<and> (confidence m = Fin 1 \<and> 33 / 64 \<le> v \<longrightarrow> num_less (Fin 1) (confidence (applyToneModulation m (Fin v))))"
proof -
  obtain g where g: "tone_gain (Fin v) = Fin g" "57605 / 65536 \<le> g" "g \<le> 76145 / 65536" "33 / 64 \<le> v \<longrightarrow> 513 / 512 \<le> g"
    using gain_range [OF assms] .
  have "modulated_intensity (Fin g) i = (if i = Low \<and> num_less (num (115/100)) (Fin g) then Medium else i)" for i
    using g by (cases i) (simp_all add: modulated_intensity_def lit_125 [simplified] lit_085 [simplified] lit_075 [simplified])
  moreover have "num_less (Fin 1) (nmul (Fin 1) (nmin (Fin g) (num (13/10))))" if "33 / 64 \<le> v"
  proof -
    have "in_range (of_int 513 / 2 ^ 9) (of_int 76145 / 2 ^ 16) (num g)"
      using g that by (intro num_range_dyadic) simp_all
    then show ?thesis using g(3) by (auto simp: nmul_def nmin_def lit_130 [simplified] elim!: in_rangeE)
  qed
  ultimately show ?thesis using g(1) by (simp add: applyToneModulation_def)
qed

lemma modulation_range_witness:
  "match_intensity (applyToneModulation (relational_match sample_phrase (Fin 1)) (Fin (3/4))) = Medium
   \<and> num_less (Fin 1) (confidence (applyToneModulation (relational_match sample_phrase (Fin 1)) (Fin (3/4))))"
  using modulation_range [of "3/4" "relational_match sample_phrase (Fin 1)"] by (simp add: relational_match_def)

end
