(* ===== verification/Persona.thy ===== *)
theory Persona
  imports JsNumber
begin

text \<open>
  The three-layer persona of the assistant (\<open>livedesign/src/llm-service/persona/\<close>): the fixed core
  (\<open>core.ts\<close>, \<open>types.ts\<close>), the evolution of the adaptive layer with its consistency check and its log
  (\<open>adaptive/\<close>), the situational layer (\<open>situational/\<close>) and the system that owns them
  (\<open>index.ts\<close>). Arithmetic is binary64; the log store is a parameter.
\<close>

section \<open>The layers\<close>

record core_persona =
  warmth :: jsnum
  rationality :: jsnum
  curiosity :: jsnum

record adaptive_persona =
  encouragement :: jsnum
  patience :: jsnum
  proactive_curiosity :: jsnum

definition DEFAULT_CORE_PERSONA :: core_persona where
  "DEFAULT_CORE_PERSONA = \<lparr>warmth = num (8/10), rationality = num (9/10), curiosity = num (6/10)\<rparr>"

definition DEFAULT_ADAPTIVE_PERSONA :: adaptive_persona where
  "DEFAULT_ADAPTIVE_PERSONA = \<lparr>encouragement = Fin (1/2), patience = num (6/10), proactive_curiosity = num (4/10)\<rparr>"

datatype core_trait = Warmth | Rationality | Curiosity
datatype adaptive_trait = Encouragement | Patience | ProactiveCuriosity

fun core_value :: "core_persona \<Rightarrow> core_trait \<Rightarrow> jsnum" where
  "core_value c Warmth = warmth c"
| "core_value c Rationality = rationality c"
| "core_value c Curiosity = curiosity c"

fun adaptive_value :: "adaptive_persona \<Rightarrow> adaptive_trait \<Rightarrow> jsnum" where
  "adaptive_value a Encouragement = encouragement a"
| "adaptive_value a Patience = patience a"
| "adaptive_value a ProactiveCuriosity = proactive_curiosity a"

fun set_adaptive :: "adaptive_trait \<Rightarrow> jsnum \<Rightarrow> adaptive_persona \<Rightarrow> adaptive_persona" where
  "set_adaptive Encouragement x a = a\<lparr>encouragement := x\<rparr>"
| "set_adaptive Patience x a = a\<lparr>patience := x\<rparr>"
| "set_adaptive ProactiveCuriosity x a = a\<lparr>proactive_curiosity := x\<rparr>"

fun CORE_PERSONA_RANGES :: "core_trait \<Rightarrow> jsnum \<times> jsnum" where
  "CORE_PERSONA_RANGES Warmth = (Fin (1/2), Fin 1)"
| "CORE_PERSONA_RANGES Rationality = (Fin (1/2), Fin 1)"
| "CORE_PERSONA_RANGES Curiosity = (num (3/10), Fin 1)"

fun ADAPTIVE_PERSONA_RANGES :: "adaptive_trait \<Rightarrow> jsnum \<times> jsnum" where
  "ADAPTIVE_PERSONA_RANGES Encouragement = (num (2/10), num (9/10))"
| "ADAPTIVE_PERSONA_RANGES Patience = (num (3/10), num (95/100))"
| "ADAPTIVE_PERSONA_RANGES ProactiveCuriosity = (num (1/10), num (7/10))"

fun ADAPTIVE_TO_CORE_MAP :: "adaptive_trait \<Rightarrow> core_trait" where
  "ADAPTIVE_TO_CORE_MAP Encouragement = Warmth"
| "ADAPTIVE_TO_CORE_MAP Patience = Rationality"
| "ADAPTIVE_TO_CORE_MAP ProactiveCuriosity = Curiosity"

definition adaptive_traits :: "adaptive_trait list" where
  "adaptive_traits = [Encouragement, Patience, ProactiveCuriosity]"

fun trait_name :: "adaptive_trait \<Rightarrow> jstr" where
  "trait_name Encouragement = js ''encouragement''"
| "trait_name Patience = js ''patience''"
| "trait_name ProactiveCuriosity = js ''proactive_curiosity''"

definition isCoreField :: "jstr \<Rightarrow> bool" where
  "isCoreField f \<longleftrightarrow> f \<in> set [js ''warmth'', js ''rationality'', js ''curiosity'']"

text \<open>The arguments are the environment variables after \<open>parseFloat\<close>, \<open>None\<close> when unset.\<close>

definition loadCorePersona :: "jsnum option \<Rightarrow> jsnum option \<Rightarrow> jsnum option \<Rightarrow> core_persona" where
  "loadCorePersona w r c =
     (let val = (\<lambda>x t. case_prod nclamp (CORE_PERSONA_RANGES t) (case x of Some v \<Rightarrow> v | None \<Rightarrow> core_value DEFAULT_CORE_PERSONA t))
      in \<lparr>warmth = val w Warmth, rationality = val r Rationality, curiosity = val c Curiosity\<rparr>)"

section \<open>The consistency check\<close>

datatype failure_reason = OutOfRange jsnum jsnum | TooFarFromCore core_trait jsnum

record consistency_failure =
  fail_trait :: adaptive_trait
  fail_reason :: failure_reason
  fail_value :: jsnum

definition MAX_CORE_DEVIATION :: jsnum where
  "MAX_CORE_DEVIATION = num (3/10)"

definition EPSILON :: jsnum where
  "EPSILON = num (1 / 10 ^ 10)"

definition range_failures :: "adaptive_persona \<Rightarrow> adaptive_trait \<Rightarrow> consistency_failure list" where
  "range_failures a t =
     (let (lo, hi) = ADAPTIVE_PERSONA_RANGES t; x = adaptive_value a t
      in if num_less x lo \<or> num_less hi x
         then [\<lparr>fail_trait = t, fail_reason = OutOfRange lo hi, fail_value = x\<rparr>] else [])"

definition deviation_failures :: "core_persona \<Rightarrow> adaptive_persona \<Rightarrow> adaptive_trait \<Rightarrow> consistency_failure list" where
  "deviation_failures c a t =
     (let x = adaptive_value a t; y = core_value c (ADAPTIVE_TO_CORE_MAP t)
      in if num_less (nadd MAX_CORE_DEVIATION EPSILON) (nabs (nsub x y))
         then [\<lparr>fail_trait = t, fail_reason = TooFarFromCore (ADAPTIVE_TO_CORE_MAP t) y, fail_value = x\<rparr>] else [])"

definition checkConsistency :: "core_persona \<Rightarrow> adaptive_persona \<Rightarrow> consistency_failure list" where
  "checkConsistency c a =
     concat (map (range_failures a) adaptive_traits) @ concat (map (deviation_failures c a) adaptive_traits)"

definition passed :: "core_persona \<Rightarrow> adaptive_persona \<Rightarrow> bool" where
  "passed c a \<longleftrightarrow> checkConsistency c a = []"

section \<open>Evolution\<close>

record evolution_config =
  positive_bias :: jsnum
  change_rate_per_1k :: jsnum

definition DEFAULT_EVOLUTION_CONFIG :: evolution_config where
  "DEFAULT_EVOLUTION_CONFIG = \<lparr>positive_bias = num (1/10), change_rate_per_1k = num (5/100)\<rparr>"

datatype check_status = CheckPassed | CheckFailed

text \<open>The reason of an entry is the feedback score, which the code formats.\<close>

record log_entry =
  log_trait :: jstr
  old_value :: jsnum
  new_value :: jsnum
  log_feedback :: jsnum
  consistency_check :: check_status

record evolution_context =
  ctx_core :: core_persona
  ctx_adaptive :: adaptive_persona
  ctx_total :: nat
  ctx_last :: nat
  feedbackScore :: jsnum

record trait_change =
  ch_trait :: adaptive_trait
  ch_old :: jsnum
  ch_new :: jsnum
  ch_delta :: jsnum

record evolution_result =
  before :: adaptive_persona
  after :: adaptive_persona
  consistencyPassed :: bool
  rolledBack :: bool
  changes :: "trait_change list"

definition changeFactor :: "evolution_config \<Rightarrow> evolution_context \<Rightarrow> jsnum" where
  "changeFactor cfg x = nmul (ndiv (Fin (of_nat (ctx_total x - ctx_last x))) (Fin 1000)) (change_rate_per_1k cfg)"

definition evolution_delta :: "evolution_config \<Rightarrow> evolution_context \<Rightarrow> jsnum" where
  "evolution_delta cfg x = nadd (nmul (feedbackScore x) (changeFactor cfg x)) (nmul (positive_bias cfg) (changeFactor cfg x))"

definition negligible :: "jsnum \<Rightarrow> bool" where
  "negligible d \<longleftrightarrow> num_less (nabs d) (num (1/10000))"

text \<open>One turn of the loop over the adaptive traits.\<close>

definition evolve_trait :: "evolution_config \<Rightarrow> evolution_context \<Rightarrow> adaptive_trait
    \<Rightarrow> adaptive_persona \<times> trait_change list \<Rightarrow> adaptive_persona \<times> trait_change list" where
  "evolve_trait cfg x t s =
     (if isCoreField (trait_name t) then s
      else (let cur = adaptive_value (ctx_adaptive x) t; d = evolution_delta cfg x
            in if negligible d then s
               else (let new = case_prod nclamp (ADAPTIVE_PERSONA_RANGES t) (nadd cur d)
                     in if num_less (num (1/10000)) (nabs (nsub new cur))
                        then (set_adaptive t new (fst s), snd s @ [\<lparr>ch_trait = t, ch_old = cur, ch_new = new, ch_delta = d\<rparr>])
                        else s)))"

definition evolved :: "evolution_config \<Rightarrow> evolution_context \<Rightarrow> adaptive_persona \<times> trait_change list" where
  "evolved cfg x = fold (evolve_trait cfg x) adaptive_traits (ctx_adaptive x, [])"

definition log_of :: "evolution_context \<Rightarrow> bool \<Rightarrow> trait_change \<Rightarrow> log_entry" where
  "log_of x ok c = \<lparr>log_trait = trait_name (ch_trait c), old_value = ch_old c, new_value = ch_new c,
     log_feedback = feedbackScore x, consistency_check = (if ok then CheckPassed else CheckFailed)\<rparr>"

text \<open>\<open>log.write\<close> may throw (\<open>None\<close>): then the rest of the evolution is skipped.\<close>

fun write_all :: "(log_entry \<Rightarrow> 'l \<Rightarrow> 'l option) \<Rightarrow> log_entry list \<Rightarrow> 'l \<Rightarrow> bool \<times> 'l" where
  "write_all w [] l = (True, l)"
| "write_all w (e # es) l = (case w e l of None \<Rightarrow> (False, l) | Some l' \<Rightarrow> write_all w es l')"

definition evolve :: "(log_entry \<Rightarrow> 'l \<Rightarrow> 'l option) \<Rightarrow> evolution_config \<Rightarrow> evolution_context \<Rightarrow> 'l
    \<Rightarrow> evolution_result option \<times> 'l" where
  "evolve w cfg x l =
     (let b = ctx_adaptive x
      in if ctx_total x \<le> ctx_last x
         then (Some \<lparr>before = b, after = b, consistencyPassed = True, rolledBack = False, changes = []\<rparr>, l)
         else (let (a, cs) = evolved cfg x; ok = passed (ctx_core x) a;
                   (written, l') = write_all w (map (log_of x ok) cs) l
               in if \<not> written then (None, l')
                  else if \<not> ok
                  then (Some \<lparr>before = b, after = b, consistencyPassed = False, rolledBack = True, changes = []\<rparr>, l')
                  else (Some \<lparr>before = b, after = a, consistencyPassed = True, rolledBack = False, changes = cs\<rparr>, l')))"

section \<open>The situational layer\<close>

datatype tone = Warm | Neutral | Professional

record situation =
  userEmotion :: "jstr option"
  turnNumber :: nat
  userValence :: "jsnum option"

record modulation =
  mod_tone :: tone
  expressiveness :: jsnum
  formality :: jsnum

definition emotion_name :: "situation \<Rightarrow> jstr" where
  "emotion_name x = (case userEmotion x of Some e \<Rightarrow> e | None \<Rightarrow> js ''neutral'')"

definition valence_of :: "situation \<Rightarrow> jsnum" where
  "valence_of x = (case userValence x of Some v \<Rightarrow> v | None \<Rightarrow> Fin (1/2))"

definition computeEmotionModulation :: "situation \<Rightarrow> jsnum \<times> jsnum" where
  "computeEmotionModulation x =
     (let v = valence_of x; n = emotion_name x;
          (e, f) = (if num_less (num (6/10)) v then (nadd (Fin 0) (num (5/100)), nsub (Fin 0) (num (5/100)))
                    else if num_less v (num (4/10)) then (nsub (Fin 0) (num (3/100)), nadd (Fin 0) (num (5/100)))
                    else (Fin 0, Fin 0))
      in if n \<in> {js ''happy'', js ''joy''} then (nadd e (num (5/100)), f)
         else if n \<in> {js ''sad'', js ''sorrow''} then (nsub e (num (2/100)), nadd f (num (3/100)))
         else if n \<in> {js ''angry'', js ''rage''} then (nsub e (num (5/100)), nadd f (num (8/100)))
         else if n \<in> {js ''anxious'', js ''fear''} then (nadd e (num (3/100)), nsub f (num (2/100)))
         else if n = js ''confused'' then (nadd e (num (2/100)), nadd f (num (2/100)))
         else (e, f))"

definition computeTurnModulation :: "nat \<Rightarrow> jsnum \<times> jsnum" where
  "computeTurnModulation n =
     (if n \<le> 3 then (num (- 5/100), num (1/10))
      else if n \<le> 10 then (Fin 0, num (5/100))
      else (num (5/100), num (- 5/100)))"

definition clampToRange :: "jsnum \<Rightarrow> jsnum \<Rightarrow> jsnum \<Rightarrow> jsnum" where
  "clampToRange x base r =
     nclamp (Fin 0) (Fin 1) (nclamp (nsub base r) (nadd base r) x)"

definition selectTone :: "core_persona \<Rightarrow> situation \<Rightarrow> tone" where
  "selectTone c x =
     (let n = emotion_name x; v = valence_of x
      in if num_le (num (7/10)) (warmth c) \<and> num_less v (num (4/10)) then Warm
         else if num_le (num (8/10)) (rationality c) \<and> num_le (num (4/10)) v then Professional
         else if n \<in> {js ''angry'', js ''rage''} then Professional
         else if n \<in> {js ''sad'', js ''sorrow'', js ''anxious'', js ''fear''} then Warm
         else Neutral)"

definition select_situational :: "core_persona \<Rightarrow> adaptive_persona \<Rightarrow> situation \<Rightarrow> modulation" where
  "select_situational c a x =
     (let (ee, ef) = computeEmotionModulation x; (te, tf) = computeTurnModulation (turnNumber x);
          rawE = nadd (nadd (encouragement a) ee) te;
          rawF = nadd (nadd (nsub (Fin 1) (patience a)) ef) tf
      in \<lparr>mod_tone = selectTone c x,
          expressiveness = clampToRange rawE (encouragement a) (num (2/10)),
          formality = clampToRange rawF (patience a) (num (2/10))\<rparr>)"

section \<open>The persona system\<close>

record 'l persona_system =
  core :: core_persona
  adaptive :: adaptive_persona
  evolutionLog :: 'l
  evolutionConfig :: evolution_config
  lastEvolutionConversations :: nat
  totalConversations :: nat
  accumulatedFeedback :: "jsnum list"

definition new_persona_system :: "core_persona \<Rightarrow> evolution_config \<Rightarrow> 'l \<Rightarrow> 'l persona_system" where
  "new_persona_system c cfg l = \<lparr>core = c, adaptive = DEFAULT_ADAPTIVE_PERSONA, evolutionLog = l, evolutionConfig = cfg,
     lastEvolutionConversations = 0, totalConversations = 0, accumulatedFeedback = []\<rparr>"

definition recordConversation :: "'l persona_system \<Rightarrow> 'l persona_system" where
  "recordConversation S = S\<lparr>totalConversations := Suc (totalConversations S)\<rparr>"

definition recordFeedback :: "jsnum \<Rightarrow> 'l persona_system \<Rightarrow> 'l persona_system" where
  "recordFeedback s S = S\<lparr>accumulatedFeedback := accumulatedFeedback S @ [nclamp (Fin (- 1)) (Fin 1) s]\<rparr>"

definition getAverageFeedback :: "'l persona_system \<Rightarrow> jsnum" where
  "getAverageFeedback S =
     (if accumulatedFeedback S = [] then Fin 0
      else ndiv (foldl nadd (Fin 0) (accumulatedFeedback S)) (Fin (of_nat (length (accumulatedFeedback S)))))"

definition system_context :: "'l persona_system \<Rightarrow> evolution_context" where
  "system_context S = \<lparr>ctx_core = core S, ctx_adaptive = adaptive S, ctx_total = totalConversations S,
     ctx_last = lastEvolutionConversations S, feedbackScore = getAverageFeedback S\<rparr>"

definition evolve_system :: "(log_entry \<Rightarrow> 'l \<Rightarrow> 'l option) \<Rightarrow> 'l persona_system \<Rightarrow> evolution_result option \<times> 'l persona_system" where
  "evolve_system w S =
     (case evolve w (evolutionConfig S) (system_context S) (evolutionLog S) of
        (None, l) \<Rightarrow> (None, S\<lparr>evolutionLog := l\<rparr>)
      | (Some r, l) \<Rightarrow>
          (Some r, if rolledBack r then S\<lparr>evolutionLog := l\<rparr>
                   else S\<lparr>evolutionLog := l, adaptive := after r, lastEvolutionConversations := totalConversations S,
                          accumulatedFeedback := []\<rparr>))"

definition selectSituational :: "'l persona_system \<Rightarrow> situation \<Rightarrow> modulation" where
  "selectSituational S x = select_situational (core S) (adaptive S) x"

definition updateEvolutionConfig :: "jsnum option \<Rightarrow> jsnum option \<Rightarrow> 'l persona_system \<Rightarrow> 'l persona_system" where
  "updateEvolutionConfig b r S = S\<lparr>evolutionConfig := \<lparr>
     positive_bias = (case b of Some x \<Rightarrow> x | None \<Rightarrow> positive_bias (evolutionConfig S)),
     change_rate_per_1k = (case r of Some x \<Rightarrow> x | None \<Rightarrow> change_rate_per_1k (evolutionConfig S))\<rparr>\<rparr>"

section \<open>The evolution loop in closed form\<close>

lemma not_core [simp]: "\<not> isCoreField (trait_name t)"
  by (cases t) (simp_all add: isCoreField_def)

definition new_value_of :: "evolution_config \<Rightarrow> evolution_context \<Rightarrow> adaptive_trait \<Rightarrow> jsnum" where
  "new_value_of cfg x t =
     case_prod nclamp (ADAPTIVE_PERSONA_RANGES t) (nadd (adaptive_value (ctx_adaptive x) t) (evolution_delta cfg x))"

definition changed :: "evolution_config \<Rightarrow> evolution_context \<Rightarrow> adaptive_trait \<Rightarrow> bool" where
  "changed cfg x t \<longleftrightarrow> \<not> negligible (evolution_delta cfg x)
     \<and> num_less (num (1/10000)) (nabs (nsub (new_value_of cfg x t) (adaptive_value (ctx_adaptive x) t)))"

definition change_of :: "evolution_config \<Rightarrow> evolution_context \<Rightarrow> adaptive_trait \<Rightarrow> trait_change" where
  "change_of cfg x t = \<lparr>ch_trait = t, ch_old = adaptive_value (ctx_adaptive x) t, ch_new = new_value_of cfg x t,
     ch_delta = evolution_delta cfg x\<rparr>"

lemma adaptive_set [simp]: "adaptive_value (set_adaptive t v a) u = (if u = t then v else adaptive_value a u)"
  by (cases t; cases u) simp_all

lemma evolve_trait_step:
  "evolve_trait cfg x t (a, cs) =
     (if changed cfg x t then (set_adaptive t (new_value_of cfg x t) a, cs @ [change_of cfg x t]) else (a, cs))"
  by (simp add: evolve_trait_def changed_def new_value_of_def change_of_def Let_def)

lemma evolve_fold:
  "distinct ts \<Longrightarrow> (\<forall>t. adaptive_value (fst (fold (evolve_trait cfg x) ts (a, cs))) t =
       (if t \<in> set ts \<and> changed cfg x t then new_value_of cfg x t else adaptive_value a t))
   \<and> snd (fold (evolve_trait cfg x) ts (a, cs)) = cs @ map (change_of cfg x) (filter (changed cfg x) ts)"
  by (induction ts arbitrary: a cs) (auto simp: evolve_trait_step)

lemma all_traits [simp]: "t \<in> set adaptive_traits" "distinct adaptive_traits"
  by (cases t) (simp_all add: adaptive_traits_def)

lemma evolved_value:
  "adaptive_value (fst (evolved cfg x)) t = (if changed cfg x t then new_value_of cfg x t else adaptive_value (ctx_adaptive x) t)"
  using evolve_fold [of adaptive_traits cfg x "ctx_adaptive x" "[]"] by (simp add: evolved_def)

lemma evolved_changes: "snd (evolved cfg x) = map (change_of cfg x) (filter (changed cfg x) adaptive_traits)"
  using evolve_fold [of adaptive_traits cfg x "ctx_adaptive x" "[]"] by (simp add: evolved_def)

section \<open>Consistency\<close>

text \<open>What the check accepts, value by value.\<close>

definition consistent_trait :: "core_persona \<Rightarrow> adaptive_persona \<Rightarrow> adaptive_trait \<Rightarrow> bool" where
  "consistent_trait c a t \<longleftrightarrow>
     (let x = adaptive_value a t; (lo, hi) = ADAPTIVE_PERSONA_RANGES t
      in \<not> num_less x lo \<and> \<not> num_less hi x
       \<and> \<not> num_less (nadd MAX_CORE_DEVIATION EPSILON) (nabs (nsub x (core_value c (ADAPTIVE_TO_CORE_MAP t)))))"

lemma trait_failures: "range_failures a t = [] \<and> deviation_failures c a t = [] \<longleftrightarrow> consistent_trait c a t"
  by (cases t) (simp_all add: range_failures_def deviation_failures_def consistent_trait_def Let_def)

lemma passed_iff: "passed c a \<longleftrightarrow> (\<forall>t. consistent_trait c a t)"
proof -
  have "passed c a \<longleftrightarrow> (\<forall>t\<in>set adaptive_traits. range_failures a t = [] \<and> deviation_failures c a t = [])"
    by (auto simp: passed_def checkConsistency_def)
  then show ?thesis unfolding trait_failures using all_traits(1) by blast
qed

text \<open>What reaches the persona system.\<close>

datatype persona_event =
    Conversation
  | FeedbackGiven jsnum
  | EvolutionDue
  | Reconfigure "jsnum option" "jsnum option"

fun persona_step :: "(log_entry \<Rightarrow> 'l \<Rightarrow> 'l option) \<Rightarrow> persona_event \<Rightarrow> 'l persona_system \<Rightarrow> 'l persona_system" where
  "persona_step w Conversation S = recordConversation S"
| "persona_step w (FeedbackGiven s) S = recordFeedback s S"
| "persona_step w EvolutionDue S = snd (evolve_system w S)"
| "persona_step w (Reconfigure b r) S = updateEvolutionConfig b r S"

text \<open>The three ways in which an evolution ends.\<close>

lemma evolve_cases:
  obtains (idle) l where "evolve w cfg x l0 = (Some \<lparr>before = ctx_adaptive x, after = ctx_adaptive x, consistencyPassed = True,
        rolledBack = False, changes = []\<rparr>, l)" "ctx_total x \<le> ctx_last x"
  | (threw) l where "evolve w cfg x l0 = (None, l)" "ctx_last x < ctx_total x"
  | (rolled) l where "evolve w cfg x l0 = (Some \<lparr>before = ctx_adaptive x, after = ctx_adaptive x, consistencyPassed = False,
        rolledBack = True, changes = []\<rparr>, l)" "ctx_last x < ctx_total x" "\<not> passed (ctx_core x) (fst (evolved cfg x))"
  | (applied) l where "evolve w cfg x l0 = (Some \<lparr>before = ctx_adaptive x, after = fst (evolved cfg x), consistencyPassed = True,
        rolledBack = False, changes = snd (evolved cfg x)\<rparr>, l)" "ctx_last x < ctx_total x" "passed (ctx_core x) (fst (evolved cfg x))"
proof (cases "ctx_total x \<le> ctx_last x")
  case True
  then show thesis by (intro idle [of l0]) (simp_all add: evolve_def Let_def)
next
  case False
  obtain a cs where ev: "evolved cfg x = (a, cs)" by force
  obtain b l where wr: "write_all w (map (log_of x (passed (ctx_core x) a)) cs) l0 = (b, l)" by force
  consider "\<not> b" | "b" "\<not> passed (ctx_core x) a" | "b" "passed (ctx_core x) a" by blast
  then show thesis
  proof cases
    case 1 then show thesis using False ev wr by (intro threw [of l]) (simp_all add: evolve_def Let_def)
  next
    case 2 then show thesis using False ev wr by (intro rolled [of l]) (simp_all add: evolve_def Let_def)
  next
    case 3 then show thesis using False ev wr by (intro applied [of l]) (simp_all add: evolve_def Let_def)
  qed
qed

definition persona_ok :: "core_persona \<Rightarrow> 'l persona_system \<Rightarrow> bool" where
  "persona_ok c S \<longleftrightarrow> core S = c \<and> passed c (adaptive S)"

lemma persona_step_ok: "persona_ok c S \<Longrightarrow> persona_ok c (persona_step w e S)"
proof (cases e)
  case EvolutionDue
  assume S: "persona_ok c S"
  show ?thesis
    by (rule evolve_cases [of w "evolutionConfig S" "system_context S" "evolutionLog S"])
      (use S EvolutionDue in \<open>simp_all add: persona_ok_def evolve_system_def system_context_def\<close>)
qed (simp_all add: persona_ok_def recordConversation_def recordFeedback_def updateEvolutionConfig_def)

interpretation persona: event_closed "persona_ok c" "persona_step w"
  for c and w :: "log_entry \<Rightarrow> 'l \<Rightarrow> 'l option"
  by unfold_locales (rule persona_step_ok)

text \<open>C20: The core persona is never changed, and the adaptive persona stays consistent with it: if the default adaptive
  persona passes the check, then after any sequence of conversations, ratings, evolutions and changes of the
  configuration, with a log store that may fail at any write, every adaptive trait is within its range and
  no further from its core trait than the check tolerates.\<close>

theorem persona_stays_consistent:
  assumes "passed c DEFAULT_ADAPTIVE_PERSONA"
  shows "let S = fold (persona_step w) es (new_persona_system c cfg l)
         in core S = c \<and> (\<forall>t. consistent_trait c (adaptive S) t)"
proof -
  have "persona_ok c (new_persona_system c cfg l)"
    using assms by (simp add: persona_ok_def new_persona_system_def)
  from persona.run_ok [OF this, of w es] show ?thesis unfolding persona_ok_def passed_iff Let_def .
qed

text \<open>The literals of the default persona.\<close>

lemma literals:
  "num (4/5) = Fin (7205759403792794 / 2 ^ 53)" "num (9/10) = Fin (8106479329266893 / 2 ^ 53)"
  "num (3/5) = Fin (5404319552844595 / 2 ^ 53)" "num (2/5) = Fin (7205759403792794 / 2 ^ 54)"
  "num (3/10) = Fin (5404319552844595 / 2 ^ 54)" "num (1 / 10 ^ 10) = Fin (7737125245533627 / 2 ^ 86)"
  "num (1/5) = Fin (7205759403792794 / 2 ^ 55)" "num (7/10) = Fin (6305039478318694 / 2 ^ 53)"
  "num (1/10) = Fin (7205759403792794 / 2 ^ 56)" "num (19/20) = Fin (8556839292003942 / 2 ^ 53)"
  using num_eval [of "4/5" 53 7205759403792794] num_eval [of "9/10" 53 8106479329266893]
    num_eval [of "3/5" 53 5404319552844595] num_eval [of "2/5" 54 7205759403792794]
    num_eval [of "3/10" 54 5404319552844595] num_eval [of "1 / 10 ^ 10" 86 7737125245533627]
    num_eval [of "1/5" 55 7205759403792794] num_eval [of "7/10" 53 6305039478318694]
    num_eval [of "1/10" 56 7205759403792794] num_eval [of "19/20" 53 8556839292003942]
  by simp_all

lemma tolerance: "nadd MAX_CORE_DEVIATION EPSILON = Fin (5404319554646035 / 2 ^ 54)"
  using num_eval [of "5404319552844595 / 2 ^ 54 + 7737125245533627 / 2 ^ 86" 54 5404319554646035]
  by (simp add: MAX_CORE_DEVIATION_def EPSILON_def literals [simplified])

lemma default_passes: "passed DEFAULT_CORE_PERSONA DEFAULT_ADAPTIVE_PERSONA"
proof -
  have "consistent_trait DEFAULT_CORE_PERSONA DEFAULT_ADAPTIVE_PERSONA t" for t
    using num_dyadic [of "- 5404319552844596" 54] num_dyadic [of "- 7205759403792792" 55]
    by (cases t) (simp_all add: consistent_trait_def DEFAULT_CORE_PERSONA_def DEFAULT_ADAPTIVE_PERSONA_def literals
        tolerance nsub_def nabs_def)
  then show ?thesis by (simp add: passed_iff)
qed

lemma persona_stays_consistent_witness:
  "let S = fold (persona_step (\<lambda>e l. Some (l @ [e]))) [Conversation, FeedbackGiven (Fin 1), EvolutionDue]
         (new_persona_system DEFAULT_CORE_PERSONA DEFAULT_EVOLUTION_CONFIG [])
   in core S = DEFAULT_CORE_PERSONA \<and> (\<forall>t. consistent_trait DEFAULT_CORE_PERSONA (adaptive S) t)"
  by (rule persona_stays_consistent [OF default_passes])

text \<open>The outcome of an evolution when the log accepts every write. Each trait moves by one and the same
  change, clamped to its range, unless the change is negligible or the clamped value differs by no more than 0.0001. The
  log grows by exactly one entry for each moved trait, with the old and the new value, marked as failed when the
  result is inconsistent with the core. Then nothing else changes: the adaptive persona, the conversation mark and the
  ratings are kept, and the result lists no change. Otherwise the moved values are in force and the ratings are used up.\<close>

theorem evolution_outcome:
  fixes S :: "log_entry list persona_system"
  assumes "lastEvolutionConversations S < totalConversations S"
  shows "let x = system_context S; cfg = evolutionConfig S; moved = filter (changed cfg x) adaptive_traits;
             a = fst (evolved cfg x); ok = passed (core S) a;
             (r, S') = evolve_system (\<lambda>e l. Some (l @ [e])) S
         in (\<forall>t. adaptive_value a t = (if t \<in> set moved then new_value_of cfg x t else adaptive_value (adaptive S) t))
          \<and> evolutionLog S' = evolutionLog S @ map (log_of x ok) (map (change_of cfg x) moved)
          \<and> (if ok then adaptive S' = a \<and> lastEvolutionConversations S' = totalConversations S \<and> accumulatedFeedback S' = []
                \<and> map_option changes r = Some (map (change_of cfg x) moved)
             else S' = S\<lparr>evolutionLog := evolutionLog S'\<rparr> \<and> map_option changes r = Some [] \<and> map_option rolledBack r = Some True)"
proof -
  define x where "x = system_context S"
  define cfg where "cfg = evolutionConfig S"
  have w: "write_all (\<lambda>e l. Some (l @ [e])) es l = (True, l @ es)" for es l :: "log_entry list"
    by (induction es arbitrary: l) simp_all
  have x: "ctx_total x = totalConversations S" "ctx_last x = lastEvolutionConversations S" "ctx_core x = core S" "ctx_adaptive x = adaptive S"
    by (simp_all add: x_def system_context_def)
  have v: "adaptive_value (fst (evolved cfg x)) t =
      (if t \<in> set (filter (changed cfg x) adaptive_traits) then new_value_of cfg x t else adaptive_value (adaptive S) t)" for t
    by (simp add: evolved_value x)
  have e: "evolve (\<lambda>e l. Some (l @ [e])) cfg x (evolutionLog S) =
    (let ok = passed (core S) (fst (evolved cfg x)); l' = evolutionLog S @ map (log_of x ok) (snd (evolved cfg x))
     in if \<not> ok then (Some \<lparr>before = adaptive S, after = adaptive S, consistencyPassed = False, rolledBack = True, changes = []\<rparr>, l')
        else (Some \<lparr>before = adaptive S, after = fst (evolved cfg x), consistencyPassed = True, rolledBack = False,
               changes = snd (evolved cfg x)\<rparr>, l'))"
    using assms by (simp add: evolve_def w x Let_def split: prod.split)
  show ?thesis
    unfolding Let_def x_def [symmetric] cfg_def [symmetric]
    using v e by (auto simp: evolve_system_def x_def [symmetric] cfg_def [symmetric] Let_def evolved_changes)
qed

definition sample_persona :: "log_entry list persona_system" where
  "sample_persona = recordConversation (new_persona_system DEFAULT_CORE_PERSONA DEFAULT_EVOLUTION_CONFIG [])"

lemma evolution_outcome_witness:
  "let x = system_context sample_persona; cfg = evolutionConfig sample_persona; moved = filter (changed cfg x) adaptive_traits;
       ok = passed (core sample_persona) (fst (evolved cfg x));
       (r, S') = evolve_system (\<lambda>e l. Some (l @ [e])) sample_persona
   in evolutionLog S' = map (log_of x ok) (map (change_of cfg x) moved)"
  using evolution_outcome [of sample_persona]
  by (simp add: sample_persona_def recordConversation_def new_persona_system_def Let_def case_prod_beta)

section \<open>The default persona cannot become less patient\<close>

lemma tolerance_grid: "grid 19660 19661 (nadd MAX_CORE_DEVIATION EPSILON)"
  by (simp add: tolerance)

lemma patience_falls:
  assumes d: "in_range (- 1) (- 1/5000) (evolution_delta cfg x)" and a: "ctx_adaptive x = DEFAULT_ADAPTIVE_PERSONA"
  shows "changed cfg x Patience \<and> \<not> passed DEFAULT_CORE_PERSONA (fst (evolved cfg x))"
proof -
  obtain v where v: "evolution_delta cfg x = Fin v" "- 1 \<le> v" "v \<le> - 1/5000" using d by (auto elim: in_rangeE)
  have tiny: "grid 6 7 (num (1/10000))" by (intro grid_num) simp_all
  have "num_less (num (1/10000)) (nabs (Fin v))"
    using tiny v by (auto simp: nabs_def elim!: gridE)
  then have big: "\<not> negligible (evolution_delta cfg x)"
    using v tiny by (auto simp: negligible_def nabs_def elim!: gridE)
  define p where "p = new_value_of cfg x Patience"
  have "grid (- 30000) 39309 (num (5404319552844595 / 2 ^ 53 + v))"
    using v by (intro grid_num) simp_all
  then obtain u where u: "num (5404319552844595 / 2 ^ 53 + v) = Fin u" "u \<le> 39309 / 65536" by (auto elim: gridE)
  then have p: "grid 19660 39309 p"
    using a v by (auto simp: p_def new_value_of_def DEFAULT_ADAPTIVE_PERSONA_def literals nclamp_def nmax_def nmin_def)
  have "grid (19660 - 39322) (39309 - 39321) (nsub p (num (6/10)))"
    using p by (intro grid_sub grid_num) simp_all
  then have "num_less (num (1/10000)) (nabs (nsub p (num (6/10))))"
    using tiny by (auto simp: nabs_def elim!: gridE)
  then have ch: "changed cfg x Patience"
    using big a by (simp add: changed_def p_def [symmetric] DEFAULT_ADAPTIVE_PERSONA_def)
  have "grid (19660 - 58983) (39309 - 58982) (nsub p (num (9/10)))"
    using p by (intro grid_sub grid_num) simp_all
  then have "num_less (nadd MAX_CORE_DEVIATION EPSILON) (nabs (nsub p (num (9/10))))"
    using tolerance_grid by (auto simp: nabs_def elim!: gridE)
  then have "\<not> consistent_trait DEFAULT_CORE_PERSONA (fst (evolved cfg x)) Patience"
    using evolved_value [of cfg x Patience] ch
    by (simp add: consistent_trait_def p_def [symmetric] DEFAULT_CORE_PERSONA_def Let_def)
  then show ?thesis using ch by (auto simp: passed_iff)
qed

text \<open>In the default configuration the default patience lies at the edge of what the check tolerates, in binary64 even
  0.0000000000000000444 beyond 0.3, which only the epsilon of the check accepts. So every evolution with a negative change of at
  least 0.0002 is rolled back as a whole, also for the traits that could have followed: the adaptive persona, the mark and the
  ratings stay as they are, the result lists no change, and the same evolution is tried again at the next date.\<close>

theorem default_persona_never_declines:
  assumes "core S = DEFAULT_CORE_PERSONA" "adaptive S = DEFAULT_ADAPTIVE_PERSONA"
    and "in_range (- 1) (- 1/5000) (evolution_delta (evolutionConfig S) (system_context S))"
    and "lastEvolutionConversations S < totalConversations S"
  shows "snd (evolve_system w S) = S\<lparr>evolutionLog := evolutionLog (snd (evolve_system w S))\<rparr>
    \<and> (case fst (evolve_system w S) of Some r \<Rightarrow> rolledBack r \<and> changes r = [] | None \<Rightarrow> True)"
proof -
  have x: "ctx_core (system_context S) = DEFAULT_CORE_PERSONA" "ctx_adaptive (system_context S) = DEFAULT_ADAPTIVE_PERSONA"
    "ctx_last (system_context S) < ctx_total (system_context S)"
    using assms by (simp_all add: system_context_def)
  have bad: "\<not> passed DEFAULT_CORE_PERSONA (fst (evolved (evolutionConfig S) (system_context S)))"
    using patience_falls [OF assms(3) x(2)] by simp
  show ?thesis
    by (rule evolve_cases [of w "evolutionConfig S" "system_context S" "evolutionLog S"])
      (use x bad in \<open>simp_all add: evolve_system_def\<close>)
qed

definition unhappy_persona :: "log_entry list persona_system" where
  "unhappy_persona = \<lparr>core = DEFAULT_CORE_PERSONA, adaptive = DEFAULT_ADAPTIVE_PERSONA, evolutionLog = [],
     evolutionConfig = \<lparr>positive_bias = Fin 0, change_rate_per_1k = Fin (1/4)\<rparr>, lastEvolutionConversations = 0,
     totalConversations = 500, accumulatedFeedback = [Fin (- 1)]\<rparr>"

lemma default_persona_never_declines_witness:
  "adaptive (snd (evolve_system (\<lambda>e l. Some (l @ [e])) unhappy_persona)) = DEFAULT_ADAPTIVE_PERSONA
   \<and> (case fst (evolve_system (\<lambda>e l. Some (l @ [e])) unhappy_persona) of Some r \<Rightarrow> rolledBack r \<and> changes r = [] | None \<Rightarrow> True)"
proof -
  have "evolution_delta (evolutionConfig unhappy_persona) (system_context unhappy_persona) = Fin (- 1/8)"
    using num_dyadic [of "- 1" 0] num_dyadic [of "- 1" 3] num_dyadic [of 1 3]
    by (simp add: evolution_delta_def changeFactor_def unhappy_persona_def system_context_def getAverageFeedback_def ndiv_def nmul_def)
  then have d: "in_range (- 1) (- 1/5000) (evolution_delta (evolutionConfig unhappy_persona) (system_context unhappy_persona))"
    by simp
  have "core unhappy_persona = DEFAULT_CORE_PERSONA" "adaptive unhappy_persona = DEFAULT_ADAPTIVE_PERSONA"
    "lastEvolutionConversations unhappy_persona < totalConversations unhappy_persona"
    by (simp_all add: unhappy_persona_def)
  note result = default_persona_never_declines [OF this(1,2) d this(3), of "\<lambda>e l. Some (l @ [e])"]
  have "adaptive (snd (evolve_system (\<lambda>e l. Some (l @ [e])) unhappy_persona)) = adaptive unhappy_persona"
    by (subst conjunct1 [OF result]) simp
  then show ?thesis using conjunct2 [OF result] \<open>adaptive unhappy_persona = _\<close> by simp
qed

section \<open>The situational layer\<close>

definition adaptive_in_range :: "adaptive_persona \<Rightarrow> bool" where
  "adaptive_in_range a \<longleftrightarrow> (\<forall>t. case ADAPTIVE_PERSONA_RANGES t of (lo, hi) \<Rightarrow> num_le lo (adaptive_value a t) \<and> num_le (adaptive_value a t) hi)"

lemma emotion_grid: "grid (- 5244) 6554 (fst (computeEmotionModulation x)) \<and> grid (- 4588) 8520 (snd (computeEmotionModulation x))"
proof -
  define v n where "v = valence_of x" and "n = emotion_name x"
  obtain e f where ef: "(if num_less (num (6/10)) v then (nadd (Fin 0) (num (5/100)), nsub (Fin 0) (num (5/100)))
                    else if num_less v (num (4/10)) then (nsub (Fin 0) (num (3/100)), nadd (Fin 0) (num (5/100)))
                    else (Fin 0, Fin 0)) = (e, f)" by force
  have l: "grid 3276 3277 (num (5/100))" "grid 1966 1967 (num (3/100))" "grid 1310 1311 (num (2/100))" "grid 5242 5243 (num (8/100))"
    by (intro grid_num; simp)+
  have z: "grid 0 0 (Fin 0)" by simp
  have e: "grid (- 1967) 3277 e" and f: "grid (- 3277) 3277 f"
    using ef grid_add [OF z l(1)] grid_sub [OF z l(1)] grid_sub [OF z l(2)]
    by (auto split: if_splits intro: grid_weaken)
  show ?thesis
    using ef e f grid_add [OF e l(1)] grid_sub [OF e l(3)] grid_sub [OF e l(1)] grid_add [OF e l(2)] grid_add [OF e l(3)]
      grid_add [OF f l(2)] grid_add [OF f l(4)] grid_sub [OF f l(3)] grid_add [OF f l(3)]
    unfolding computeEmotionModulation_def Let_def v_def [symmetric] n_def [symmetric]
    by (auto intro: grid_weaken)
qed

lemma turn_grid: "grid (- 3277) 3277 (fst (computeTurnModulation n)) \<and> grid (- 3277) 6554 (snd (computeTurnModulation n))"
  by (auto simp: computeTurnModulation_def intro!: grid_num)

lemma clampToRange_bounds:
  assumes b: "num_le (num (2/10)) (Fin b)" "b \<le> 1" and x: "x \<noteq> NaN"
  shows "num_le (nsub (Fin b) (num (2/10))) (clampToRange x (Fin b) (num (2/10)))
    \<and> num_le (clampToRange x (Fin b) (num (2/10))) (nadd (Fin b) (num (2/10)))
    \<and> in_range 0 1 (clampToRange x (Fin b) (num (2/10)))"
proof -
  define k :: rat where "k = 7205759403792794 / 2 ^ 55"
  have r: "num (2/10) = Fin k" using literals(7) by (simp add: k_def)
  have k: "0 \<le> k" "k \<le> 1" "k \<le> b" using b r by (simp_all add: k_def)
  have "in_range (of_int 0 / 2 ^ 0) (of_int 1 / 2 ^ 0) (num (b - k))"
    using b k by (intro num_range_dyadic) simp_all
  then obtain lo where lo: "num (b - k) = Fin lo" "0 \<le> lo" "lo \<le> 1" by (auto elim: in_rangeE)
  have "in_range (of_int 0 / 2 ^ 0) (of_int 2 / 2 ^ 0) (num (b + k))"
    using b k by (intro num_range_dyadic) simp_all
  then obtain hi where hi: "num (b + k) = Fin hi" "hi \<le> 2" by (auto elim: in_rangeE)
  have small: "\<bar>dbl y\<bar> < finite_limit" if "num y = Fin w" for y w
    using that by (auto simp: num_def Let_def split: if_splits)
  have "dbl (b - k) \<le> dbl (b + k)" using k by (intro dbl_mono) simp
  then have le: "lo \<le> hi" using num_Fin [OF small [OF lo(1)]] num_Fin [OF small [OF hi(1)]] lo(1) hi(1) by simp
  have "num_le (Fin lo) (nclamp (Fin lo) (Fin hi) x) \<and> num_le (nclamp (Fin lo) (Fin hi) x) (Fin hi)"
    using le x by (intro nclamp_between) simp_all
  then obtain w where w: "nclamp (Fin lo) (Fin hi) x = Fin w" "lo \<le> w" "w \<le> hi"
    by (cases "nclamp (Fin lo) (Fin hi) x") (auto simp: num_le_def)
  have "clampToRange x (Fin b) (Fin k) = nclamp (Fin 0) (Fin 1) (Fin w)"
    using lo(1) hi(1) w(1) by (simp add: clampToRange_def nsub_def)
  then show ?thesis using lo hi w le unfolding r
    by (auto simp: nsub_def nclamp_def nmax_def nmin_def)
qed

lemma range_patience: "num_le (num (2/10)) (num (3/10))" "num_le (num (95/100)) (Fin 1)" "num_le (num (9/10)) (Fin 1)"
  using literals by simp_all

lemma num_le_trans: "num_le x y \<Longrightarrow> num_le y z \<Longrightarrow> num_le x z"
  by (cases x; cases y; cases z) (auto simp: num_le_def)

text \<open>The situational layer stays within 0.2 of the adaptive layer, in every situation: for an adaptive persona within its
  ranges, the expressiveness is within 0.2 of the encouragement and the formality within 0.2 of the patience,
  and both lie between zero and one. But the formality starts from one minus the patience and is then forced into the
  neighbourhood of the patience itself: from a patience of 13/16 on it is the patience minus 0.2 in every
  situation, so it grows with the patience, whereas more patience is documented to make the assistant less formal.\<close>

theorem situational_bounds:
  assumes "adaptive_in_range a"
  shows "num_le (nsub (encouragement a) (num (2/10))) (expressiveness (select_situational c a x))
    \<and> num_le (expressiveness (select_situational c a x)) (nadd (encouragement a) (num (2/10)))
    \<and> num_le (nsub (patience a) (num (2/10))) (formality (select_situational c a x))
    \<and> num_le (formality (select_situational c a x)) (nadd (patience a) (num (2/10)))
    \<and> in_range 0 1 (expressiveness (select_situational c a x)) \<and> in_range 0 1 (formality (select_situational c a x))
    \<and> (num_le (Fin (13/16)) (patience a) \<longrightarrow> formality (select_situational c a x) = nsub (patience a) (num (2/10)))"
proof -
  have e: "num_le (num (2/10)) (encouragement a)" "num_le (encouragement a) (Fin 1)"
    and p: "num_le (num (2/10)) (patience a)" "num_le (patience a) (Fin 1)"
  proof -
    have "num_le (num (2/10)) (encouragement a)" "num_le (encouragement a) (num (9/10))"
      "num_le (num (3/10)) (patience a)" "num_le (patience a) (num (95/100))"
      using assms [unfolded adaptive_in_range_def, rule_format, of Encouragement]
        assms [unfolded adaptive_in_range_def, rule_format, of Patience] by simp_all
    then show "num_le (num (2/10)) (encouragement a)" "num_le (encouragement a) (Fin 1)"
      "num_le (num (2/10)) (patience a)" "num_le (patience a) (Fin 1)"
      using num_le_trans [OF range_patience(1)] num_le_trans [OF _ range_patience(2)] num_le_trans [OF _ range_patience(3)]
      by blast+
  qed
  define k :: rat where "k = 7205759403792794 / 2 ^ 55"
  have k: "num (2/10) = Fin k" "0 \<le> k" using literals(7) by (simp_all add: k_def)
  obtain ev where ev: "encouragement a = Fin ev" "ev \<le> 1" "k \<le> ev" using e k by (cases "encouragement a") (auto simp: num_le_def)
  obtain pv where pv: "patience a = Fin pv" "pv \<le> 1" "k \<le> pv" using p k by (cases "patience a") (auto simp: num_le_def)
  obtain ee ef where m: "computeEmotionModulation x = (ee, ef)" by force
  obtain te tf where t: "computeTurnModulation (turnNumber x) = (te, tf)" by force
  have g: "grid (- 5244) 6554 ee" "grid (- 4588) 8520 ef" "grid (- 3277) 3277 te" "grid (- 3277) 6554 tf"
    using emotion_grid [of x] turn_grid [of "turnNumber x"] m t by simp_all
  define rawE where "rawE = nadd (nadd (Fin ev) ee) te"
  define rawF where "rawF = nadd (nadd (nsub (Fin 1) (Fin pv)) ef) tf"
  have one: "grid 65536 65536 (Fin 1)" and gv: "grid 0 65536 (Fin ev)" "grid 0 65536 (Fin pv)"
    using ev pv k by simp_all
  have raw: "rawE \<noteq> NaN" "rawF \<noteq> NaN"
    using grid_add [OF grid_add [OF gv(1) g(1)] g(3)] grid_add [OF grid_add [OF grid_sub [OF one gv(2)] g(2)] g(4)]
    by (auto simp: rawE_def rawF_def elim!: gridE)
  have sel: "expressiveness (select_situational c a x) = clampToRange rawE (Fin ev) (num (2/10))"
    "formality (select_situational c a x) = clampToRange rawF (Fin pv) (num (2/10))"
    by (simp_all add: select_situational_def m t ev pv rawE_def rawF_def)
  have patient: "formality (select_situational c a x) = nsub (patience a) (num (2/10))" if "num_le (Fin (13/16)) (patience a)"
  proof -
    have pg: "grid 53248 65536 (Fin pv)" using that pv by simp
    have two: "grid 13107 13108 (num (2/10))" by (intro grid_num) simp_all
    have rawg: "grid (- 7865) 27362 rawF"
      using grid_add [OF grid_add [OF grid_sub [OF one pg] g(2)] g(4)] by (simp add: rawF_def)
    have lo: "grid 40140 52429 (nsub (Fin pv) (num (2/10)))" and hi: "grid 66355 78644 (nadd (Fin pv) (num (2/10)))"
      using grid_sub [OF pg two] grid_add [OF pg two] by simp_all
    have "nclamp (nsub (Fin pv) (num (2/10))) (nadd (Fin pv) (num (2/10))) rawF = nsub (Fin pv) (num (2/10))"
      using grid_less [OF rawg lo] grid_less [OF lo hi] by (intro nclamp_low) (simp_all add: num_le_def)
    moreover have "in_range 0 1 (nsub (Fin pv) (num (2/10)))" using lo by (auto elim!: gridE)
    ultimately show ?thesis by (simp add: sel clampToRange_def nclamp_id pv)
  qed
  show ?thesis
    using clampToRange_bounds [of ev rawE] clampToRange_bounds [of pv rawF] e p ev pv raw patient
    by (simp add: sel)
qed

lemma situational_bounds_witness:
  "formality (select_situational DEFAULT_CORE_PERSONA \<lparr>encouragement = Fin (1/2), patience = Fin (7/8), proactive_curiosity = Fin (1/2)\<rparr>
      \<lparr>userEmotion = Some (js ''rage''), turnNumber = 1, userValence = Some (Fin (1/4))\<rparr>)
   = nsub (Fin (7/8)) (num (2/10))"
proof -
  have "adaptive_in_range \<lparr>encouragement = Fin (1/2), patience = Fin (7/8), proactive_curiosity = Fin (1/2)\<rparr>"
    unfolding adaptive_in_range_def
  proof
    fix t
    show "case ADAPTIVE_PERSONA_RANGES t of (lo, hi) \<Rightarrow>
        num_le lo (adaptive_value \<lparr>encouragement = Fin (1/2), patience = Fin (7/8), proactive_curiosity = Fin (1/2)\<rparr> t)
      \<and> num_le (adaptive_value \<lparr>encouragement = Fin (1/2), patience = Fin (7/8), proactive_curiosity = Fin (1/2)\<rparr> t) hi"
      using literals by (cases t) simp_all
  qed
  from situational_bounds [OF this] show ?thesis by simp
qed

end
