(* ===== verification/ToolExecution.thy ===== *)
theory ToolExecution
  imports IntentRouting RequestTable
begin

text \<open>
  How the editor's assistant executes a tool call: the declarative checks of the arguments
  (\<open>app/editor/src/ai/preGate/index.ts\<close>, \<open>ai/tools/toolFactory.ts\<close>), the executor
  (\<open>ai/executor.ts\<close>) and the tools that read and write values, list directories, read and search files and run
  commands (\<open>ai/tools/*.ts\<close>). A tool reaches the main process through one inter-process call; that call, the
  regular expression engine, JSON text and the conversion of numbers and objects to text are parameters. Arguments
  are JSON objects; names inherited from the object prototype are not looked up in them.
\<close>

section \<open>Values\<close>

type_synonym tool_args = "(jstr \<times> json) list"

text \<open>A missing property is \<open>None\<close>.\<close>

definition json_truthy :: "json option \<Rightarrow> bool" where
  "json_truthy v = (case v of
      None \<Rightarrow> False | Some JNull \<Rightarrow> False | Some (JBool b) \<Rightarrow> b
    | Some (JNum n) \<Rightarrow> n \<noteq> Fin 0 \<and> n \<noteq> NaN | Some (JStr s) \<Rightarrow> s \<noteq> []
    | Some (JArr xs) \<Rightarrow> True | Some (JObj fs) \<Rightarrow> True)"

lemma json_truthy_simps [simp]:
  "\<not> json_truthy None" "\<not> json_truthy (Some JNull)" "json_truthy (Some (JBool b)) = b"
  "json_truthy (Some (JStr s)) \<longleftrightarrow> s \<noteq> []" "json_truthy (Some (JObj fs))" "json_truthy (Some (JArr xs))"
  by (simp_all add: json_truthy_def)

section \<open>Checks of the arguments\<close>

datatype rule_type = NotEmpty | RegexMatch | RegexNotMatch | Custom

record pre_gate_rule =
  rule_kind :: rule_type
  rule_field :: jstr
  rule_pattern :: "jstr option"
  rule_evaluator :: "jstr option"
  rule_error :: jstr

text \<open>An evaluator returns an error text, or nothing. The engine compiles a pattern, or throws.\<close>

type_synonym evaluator = "json option \<Rightarrow> pre_gate_rule \<Rightarrow> jstr option"
type_synonym regex_engine = "jstr \<Rightarrow> (jstr \<Rightarrow> bool) option"

definition not_empty :: evaluator where
  "not_empty v r = (if v = None \<or> v = Some JNull \<or> v = Some (JStr []) then Some (rule_error r) else None)"

definition regex_match :: "regex_engine \<Rightarrow> evaluator" where
  "regex_match rx v r =
     (case v of
        Some (JStr s) \<Rightarrow>
          (if falsy_text (rule_pattern r) then Some (rule_error r)
           else (case rx (the (rule_pattern r)) of
               None \<Rightarrow> Some ([0x6B63, 0x5219, 0x89E3, 0x6790, 0x5931, 0x8D25, 0x003A, 0x0020] @ the (rule_pattern r))
             | Some f \<Rightarrow> if f s then None else Some (rule_error r)))
      | _ \<Rightarrow> Some (rule_error r))"

definition regex_not_match :: "regex_engine \<Rightarrow> evaluator" where
  "regex_not_match rx v r =
     (case v of
        Some (JStr s) \<Rightarrow>
          (if falsy_text (rule_pattern r) then None
           else (case rx (the (rule_pattern r)) of
               None \<Rightarrow> None
             | Some f \<Rightarrow> if f s then Some (rule_error r) else None))
      | _ \<Rightarrow> None)"

fun builtinEvaluators :: "regex_engine \<Rightarrow> rule_type \<Rightarrow> evaluator option" where
  "builtinEvaluators rx NotEmpty = Some not_empty"
| "builtinEvaluators rx RegexMatch = Some (regex_match rx)"
| "builtinEvaluators rx RegexNotMatch = Some (regex_not_match rx)"
| "builtinEvaluators rx Custom = None"

type_synonym custom_table = "(jstr, evaluator) jmap"

definition registerCustomEvaluator :: "jstr \<Rightarrow> evaluator \<Rightarrow> custom_table \<Rightarrow> custom_table" where
  "registerCustomEvaluator n f t = mput n f t"

definition getEvaluator :: "regex_engine \<Rightarrow> custom_table \<Rightarrow> pre_gate_rule \<Rightarrow> evaluator option" where
  "getEvaluator rx customs r =
     (if rule_kind r = Custom \<and> \<not> falsy_text (rule_evaluator r) then mget customs (the (rule_evaluator r))
      else builtinEvaluators rx (rule_kind r))"

fun evaluate_rules :: "regex_engine \<Rightarrow> custom_table \<Rightarrow> pre_gate_rule list \<Rightarrow> tool_args \<Rightarrow> jstr option" where
  "evaluate_rules rx customs [] args = None"
| "evaluate_rules rx customs (r # rs) args =
     (case getEvaluator rx customs r of
        None \<Rightarrow> evaluate_rules rx customs rs args
      | Some ev \<Rightarrow> (case ev (map_of args (rule_field r)) r of
            Some e \<Rightarrow> Some e
          | None \<Rightarrow> evaluate_rules rx customs rs args))"

definition evaluatePreGates :: "regex_engine \<Rightarrow> custom_table \<Rightarrow> pre_gate_rule list option \<Rightarrow> tool_args \<Rightarrow> jstr option" where
  "evaluatePreGates rx customs rules args = (case rules of None \<Rightarrow> None | Some rs \<Rightarrow> evaluate_rules rx customs rs args)"

text \<open>
  The validator that the tool factory derives from the same rules. It compiles patterns without a guard, so an
  invalid pattern throws: \<open>Inl\<close>.
\<close>

fun inputValidator :: "regex_engine \<Rightarrow> pre_gate_rule list \<Rightarrow> tool_args \<Rightarrow> unit + jstr option" where
  "inputValidator rx [] args = Inr None"
| "inputValidator rx (r # rs) args =
     (let v = map_of args (rule_field r) in
      case rule_kind r of
        NotEmpty \<Rightarrow> (if v = None \<or> v = Some JNull \<or> v = Some (JStr []) then Inr (Some (rule_error r)) else inputValidator rx rs args)
      | RegexMatch \<Rightarrow>
          (if falsy_text (rule_pattern r) then inputValidator rx rs args
           else (case v of
               Some (JStr s) \<Rightarrow> (case rx (the (rule_pattern r)) of
                   None \<Rightarrow> Inl ()
                 | Some f \<Rightarrow> if f s then inputValidator rx rs args else Inr (Some (rule_error r)))
             | _ \<Rightarrow> Inr (Some (rule_error r))))
      | RegexNotMatch \<Rightarrow>
          (if falsy_text (rule_pattern r) then inputValidator rx rs args
           else (case v of
               Some (JStr s) \<Rightarrow> (case rx (the (rule_pattern r)) of
                   None \<Rightarrow> Inl ()
                 | Some f \<Rightarrow> if f s then Inr (Some (rule_error r)) else inputValidator rx rs args)
             | _ \<Rightarrow> inputValidator rx rs args))
      | Custom \<Rightarrow> inputValidator rx rs args)"

section \<open>The host\<close>

text \<open>
  The call into the main process answers with a value or rejects with a message; \<open>'w\<close> is the world that it
  changes. \<open>schemas\<close> is the call for the registered schema.
  \<open>type_error\<close> and \<open>syntax_error\<close> are the engine's messages for reading a property of null and for a text that is not JSON.
\<close>

datatype ipc_answer = Answer json | IpcThrows jstr

record jsenv =
  parse_json :: "jstr \<Rightarrow> json option"
  stringify :: "json \<Rightarrow> jstr"
  pretty :: "json \<Rightarrow> jstr"
  to_text :: "json \<Rightarrow> jstr"
  to_number :: "json \<Rightarrow> jsnum"
  type_error :: jstr
  syntax_error :: "jstr \<Rightarrow> jstr"

record 'w host = jsenv +
  ipc :: "jstr \<Rightarrow> tool_args \<Rightarrow> 'w \<Rightarrow> ipc_answer \<times> 'w"
  schemas :: "'w \<Rightarrow> ipc_answer \<times> 'w"
  regex :: regex_engine
  customs :: custom_table
  parse_args :: "jstr \<Rightarrow> tool_args option"

definition string_of :: "'a jsenv_scheme \<Rightarrow> json \<Rightarrow> jstr" where
  "string_of H j = (case j of JStr s \<Rightarrow> s | _ \<Rightarrow> to_text H j)"

text \<open>\<open>String(v || '')\<close>, and \<open>v || d\<close> put into a text.\<close>

definition text_or_empty :: "'a jsenv_scheme \<Rightarrow> json option \<Rightarrow> jstr" where
  "text_or_empty H v = (if json_truthy v then string_of H (the v) else [])"

definition text_or :: "'a jsenv_scheme \<Rightarrow> json option \<Rightarrow> jstr \<Rightarrow> jstr" where
  "text_or H v d = (if json_truthy v then string_of H (the v) else d)"

lemma text_or_empty_Str [simp]: "text_or_empty H (Some (JStr s)) = s"
  by (simp add: text_or_empty_def string_of_def)

section \<open>The check in the native evaluator\<close>

definition deep_chain :: "jstr \<Rightarrow> jstr \<Rightarrow> json" where
  "deep_chain tool k = JObj [(js ''version'', JStr (js ''1.0'')),
     (js ''root'', JObj [(js ''type'', JStr (js ''bs_condition'')), (js ''id'', JStr (js ''deep_'' @ tool @ js ''_'' @ k)),
        (js ''field_key'', JStr k), (js ''op'', JStr (js ''exists'')), (js ''value'', JStr (js ''true''))])]"

text \<open>
  One evaluation per argument. A text is parsed; anything that throws ends the check with success, a refusal
  ends it with an error.
\<close>

fun deepEvaluate :: "'w host \<Rightarrow> jstr \<Rightarrow> tool_args \<Rightarrow> 'w \<Rightarrow> jstr option \<times> 'w" where
  "deepEvaluate H tool [] w = (None, w)"
| "deepEvaluate H tool ((k, v) # rest) w =
     (case ipc H (js ''gate_evaluator'')
             [(js ''chain_json'', JStr (stringify H (deep_chain tool k))), (js ''field_key'', JStr k),
              (js ''field_value'', JStr (if v = JNull then [] else string_of H v))] w of
        (IpcThrows m, w') \<Rightarrow> (None, w')
      | (Answer a, w') \<Rightarrow>
          (case (case a of JStr s \<Rightarrow> parse_json H s | _ \<Rightarrow> Some a) of
             None \<Rightarrow> (None, w')
           | Some r \<Rightarrow>
               (if json_truthy (Some r) \<and> \<not> json_truthy (jfield (js ''passed'') r)
                then (Some ([0x005B, 0x0043, 0x002D, 0x6DF1, 0x5224, 0x005D, 0x0020, 0x5B57, 0x6BB5, 0x0020] @ k @ js '': '' @ text_or H (jfield (js ''error_message'') r) [0x6821, 0x9A8C, 0x5931, 0x8D25]), w')
                else deepEvaluate H tool rest w')))"

section \<open>The executor\<close>

record tool_call =
  tc_id :: jstr
  tc_name :: jstr
  tc_arguments :: jstr

record tool_result = ToolResult +
  tr_data :: "json option"

definition failure :: "jstr \<Rightarrow> tool_result" where
  "failure e = \<lparr>tr_success = False, tr_error = Some e, tr_data = None\<rparr>"

definition success_with :: "json \<Rightarrow> tool_result" where
  "success_with d = \<lparr>tr_success = True, tr_error = None, tr_data = Some d\<rparr>"

lemma result_simps [simp]:
  "tr_success (success_with d)" "\<not> tr_success (failure e)" "tr_error (failure e) = Some e"
  "tr_data (success_with d) = Some d" "tr_data (failure e) = None"
  by (simp_all add: success_with_def failure_def)

text \<open>A tool answers or throws.\<close>

datatype tool_outcome = Returned tool_result | Raised

type_synonym 'w tool = "tool_args \<Rightarrow> 'w \<Rightarrow> tool_outcome \<times> 'w"
type_synonym 'w toolbox = "(jstr \<times> 'w tool) list"
type_synonym rule_table = "(jstr \<times> pre_gate_rule list) list"

definition findTool :: "'w toolbox \<Rightarrow> jstr \<Rightarrow> 'w tool option" where
  "findTool tools n = map_of tools n"

definition executeToolCall :: "'w host \<Rightarrow> 'w toolbox \<Rightarrow> rule_table \<Rightarrow> tool_call \<Rightarrow> 'w \<Rightarrow> tool_outcome \<times> 'w" where
  "executeToolCall H tools rules tc w =
     (case findTool tools (tc_name tc) of
        None \<Rightarrow> (Returned (failure ([0x672A, 0x77E5, 0x5DE5, 0x5177, 0x003A, 0x0020] @ tc_name tc)), w)
      | Some t \<Rightarrow>
          (case parse_args H (tc_arguments tc) of
             None \<Rightarrow> (Returned (failure ([0x5DE5, 0x5177, 0x53C2, 0x6570, 0x0020, 0x004A, 0x0053, 0x004F, 0x004E, 0x0020, 0x89E3, 0x6790, 0x5931, 0x8D25, 0x003A, 0x0020] @ tc_arguments tc)), w)
           | Some args \<Rightarrow>
               (case evaluatePreGates (regex H) (customs H) (map_of rules (tc_name tc)) args of
                  Some e \<Rightarrow> (Returned (failure (js ''[Pre-Gate JS] '' @ e)), w)
                | None \<Rightarrow>
                    (case deepEvaluate H (tc_name tc) args w of
                       (Some e, w') \<Rightarrow> (Returned (failure e), w')
                     | (None, w') \<Rightarrow> t args w'))))"

definition MAX_TOOL_RETRIES :: nat where
  "MAX_TOOL_RETRIES = 3"

text \<open>The loop of \<open>executeWithRetry\<close>; an exception leaves it (\<open>None\<close>).\<close>

function retry_from :: "'w host \<Rightarrow> 'w toolbox \<Rightarrow> rule_table \<Rightarrow> tool_call \<Rightarrow> nat \<Rightarrow> tool_result \<Rightarrow> 'w
    \<Rightarrow> (tool_result \<times> nat) option \<times> 'w" where
  "retry_from H tools rules tc attempt last_result w =
     (if attempt \<le> MAX_TOOL_RETRIES
      then (case executeToolCall H tools rules tc w of
              (Raised, w') \<Rightarrow> (None, w')
            | (Returned r, w') \<Rightarrow>
                (if tr_success r then (Some (r, attempt), w')
                 else retry_from H tools rules tc (Suc attempt) r w'))
      else (Some (last_result, MAX_TOOL_RETRIES), w))"
  by pat_completeness auto
termination by (relation "measure (\<lambda>(H, tools, rules, tc, a, r, w). Suc MAX_TOOL_RETRIES - a)") auto

declare retry_from.simps [simp del]

definition executeWithRetry :: "'w host \<Rightarrow> 'w toolbox \<Rightarrow> rule_table \<Rightarrow> tool_call \<Rightarrow> 'w \<Rightarrow> (tool_result \<times> nat) option \<times> 'w" where
  "executeWithRetry H tools rules tc w = retry_from H tools rules tc 1 (failure [0x672A, 0x6267, 0x884C]) w"


section \<open>The tools\<close>

text \<open>The call of a tool into the main process: the answer, or the message of what is thrown.\<close>

definition call_host :: "'w host \<Rightarrow> jstr \<Rightarrow> tool_args \<Rightarrow> 'w \<Rightarrow> (json + jstr) \<times> 'w" where
  "call_host H tool args w =
     (case ipc H tool args w of
        (IpcThrows m, w') \<Rightarrow> (Inr m, w')
      | (Answer JNull, w') \<Rightarrow> (Inr (type_error H), w')
      | (Answer a, w') \<Rightarrow> (Inl a, w'))"

definition succeeded :: "json \<Rightarrow> bool" where
  "succeeded a = json_truthy (jfield (js ''success'') a)"

text \<open>\<open>typeof result === 'string' ? JSON.parse(result) : result\<close>.\<close>

definition parsed_result :: "'w host \<Rightarrow> json \<Rightarrow> json option + jstr" where
  "parsed_result H a =
     (case jfield (js ''result'') a of
        Some (JStr s) \<Rightarrow> (case parse_json H s of Some j \<Rightarrow> Inl (Some j) | None \<Rightarrow> Inr (syntax_error H s))
      | v \<Rightarrow> Inl v)"

definition opt_field :: "jstr \<Rightarrow> json option \<Rightarrow> (jstr \<times> json) list" where
  "opt_field k v = (case v of None \<Rightarrow> [] | Some j \<Rightarrow> [(k, j)])"

definition jnat :: "nat \<Rightarrow> json" where
  "jnat n = JNum (Fin (of_nat n))"

definition jlength :: "json option \<Rightarrow> json option" where
  "jlength v = (case v of
      Some (JStr s) \<Rightarrow> Some (jnat (length s)) | Some (JArr xs) \<Rightarrow> Some (jnat (length xs))
    | Some (JObj fs) \<Rightarrow> map_of fs (js ''length'') | _ \<Rightarrow> None)"

definition array_or_empty :: "json option \<Rightarrow> json list" where
  "array_or_empty v = (case v of Some (JArr xs) \<Rightarrow> xs | _ \<Rightarrow> [])"

subsection \<open>Values\<close>

definition write_config_value :: "'w host \<Rightarrow> 'w tool" where
  "write_config_value H args w =
     (let key = text_or_empty H (map_of args (js ''key'')); value = text_or_empty H (map_of args (js ''value'')) in
      if key = [] then (Returned (failure (js ''key '' @ [0x4E0D, 0x80FD, 0x4E3A, 0x7A7A])), w)
      else (case call_host H (js ''write_config_value'') [(js ''key'', JStr key), (js ''value'', JStr value)] w of
          (Inr m, w') \<Rightarrow> (Returned (failure ([0x5199, 0x5165, 0x914D, 0x7F6E, 0x65F6, 0x51FA, 0x9519, 0x003A, 0x0020] @ m)), w')
        | (Inl raw, w') \<Rightarrow>
            (if succeeded raw
             then (let warning = jfield (js ''warning'') raw;
                       message = [0x2705, 0x0020] @ key @ [0x0020, 0x5DF2, 0x6210, 0x529F, 0x8BBE, 0x7F6E, 0x4E3A, 0x0020, 0x0022] @ value @ [0x0022]
                         @ (if json_truthy warning then [0xFF08, 0x26A0, 0x0020] @ string_of H (the warning) @ [0xFF09] else [])
                   in (Returned (success_with (JObj ([(js ''written'', JObj [(js ''key'', JStr key), (js ''value'', JStr value)]),
                          (js ''value'', JStr value), (js ''key'', JStr key)] @ opt_field (js ''warning'') warning
                          @ [(js ''message'', JStr message)]))), w'))
             else (Returned (failure (text_or H (jfield (js ''result'') raw) [0x5199, 0x5165, 0x5931, 0x8D25])), w'))))"

text \<open>The enumeration of the field in the registered schema, when there is one; whatever throws leaves it out.\<close>

fun find_enum :: "jstr \<Rightarrow> json list \<Rightarrow> json option" where
  "find_enum key [] = None"
| "find_enum key (f # fs) =
     (if f = JNull then None
      else if jfield (js ''key'') f = Some (JStr key)
      then (let e = jfield (js ''enum'') f
            in if json_truthy e \<and> (case jlength e of Some (JNum n) \<Rightarrow> num_less (Fin 0) n | _ \<Rightarrow> False) then e else None)
      else find_enum key fs)"

definition enum_options :: "ipc_answer \<Rightarrow> jstr \<Rightarrow> json option" where
  "enum_options a key = (case a of
      Answer s \<Rightarrow> (case jfield (js ''fields'') s of Some (JArr fs) \<Rightarrow> find_enum key fs | _ \<Rightarrow> None)
    | IpcThrows m \<Rightarrow> None)"

definition read_config_value :: "'w host \<Rightarrow> 'w tool" where
  "read_config_value H args w =
     (let key = text_or_empty H (map_of args (js ''key'')) in
      if key = [] then (Returned (failure (js ''key '' @ [0x4E0D, 0x80FD, 0x4E3A, 0x7A7A])), w)
      else (case call_host H (js ''read_config_value'') [(js ''key'', JStr key)] w of
          (Inr m, w') \<Rightarrow> (Returned (failure ([0x8BFB, 0x53D6, 0x914D, 0x7F6E, 0x65F6, 0x51FA, 0x9519, 0x003A, 0x0020] @ m)), w')
        | (Inl a, w') \<Rightarrow>
            (if succeeded a
             then (let val = (case jfield (js ''result'') a of
                          Some JNull \<Rightarrow> None | None \<Rightarrow> Some (js ''undefined'') | Some j \<Rightarrow> Some (string_of H j));
                       isEmpty = (val = None \<or> val = Some []);
                       (sa, w2) = schemas H w';
                       message = (if isEmpty then [0x26A0, 0xFE0F, 0x0020, 0x914D, 0x7F6E, 0x5B57, 0x6BB5, 0x0020, 0x0022] @ key @ [0x0022, 0x0020, 0x672A, 0x8BBE, 0x7F6E, 0x503C, 0xFF0C, 0x5F53, 0x524D, 0x4E3A, 0x7A7A]
                                  else key @ js '' = '' @ [0x0022] @ the val @ [0x0022])
                   in (Returned (success_with (JObj ([(js ''key'', JStr key),
                          (js ''value'', case val of None \<Rightarrow> JNull | Some v \<Rightarrow> JStr v),
                          (js ''found'', JBool (val \<noteq> None))] @ opt_field (js ''enumOptions'') (enum_options sa key)
                          @ [(js ''message'', JStr message)]))), w2))
             else (Returned (failure (text_or H (jfield (js ''result'') a) [0x8BFB, 0x53D6, 0x5931, 0x8D25])), w'))))"

subsection \<open>Files\<close>

definition list_directory :: "'w host \<Rightarrow> 'w tool" where
  "list_directory H args w =
     (let path = text_or_empty H (map_of args (js ''path'')); err = (\<lambda>m. failure ([0x8BFB, 0x53D6, 0x76EE, 0x5F55, 0x65F6, 0x51FA, 0x9519, 0x003A, 0x0020] @ m)) in
      if path = [] then (Returned (failure (js ''path '' @ [0x4E0D, 0x80FD, 0x4E3A, 0x7A7A])), w)
      else (case call_host H (js ''list_directory'') [(js ''path'', JStr path)] w of
          (Inr m, w') \<Rightarrow> (Returned (err m), w')
        | (Inl a, w') \<Rightarrow>
            (if succeeded a
             then (case parsed_result H a of
                     Inr m \<Rightarrow> (Returned (err m), w')
                   | Inl d \<Rightarrow> (Returned (success_with (JObj ([(js ''path'', JStr path)] @ opt_field (js ''entries'') d
                        @ [(js ''count'', jnat (length (array_or_empty d)))]))), w'))
             else (Returned (failure (text_or H (jfield (js ''result'') a) [0x8BFB, 0x53D6, 0x76EE, 0x5F55, 0x5931, 0x8D25])), w'))))"

definition read_file :: "'w host \<Rightarrow> 'w tool" where
  "read_file H args w =
     (let path = text_or_empty H (map_of args (js ''path''));
          n = (case map_of args (js ''maxSize'') of None \<Rightarrow> NaN | Some j \<Rightarrow> to_number H j);
          maxSize = (if n = NaN \<or> n = Fin 0 then Fin 102400 else n);
          err = (\<lambda>m. failure ([0x8BFB, 0x53D6, 0x6587, 0x4EF6, 0x65F6, 0x51FA, 0x9519, 0x003A, 0x0020] @ m)) in
      if path = [] then (Returned (failure (js ''path '' @ [0x4E0D, 0x80FD, 0x4E3A, 0x7A7A])), w)
      else (case call_host H (js ''read_file'') [(js ''path'', JStr path), (js ''maxSize'', JNum maxSize)] w of
          (Inr m, w') \<Rightarrow> (Returned (err m), w')
        | (Inl a, w') \<Rightarrow>
            (if succeeded a
             then (case parsed_result H a of
                     Inr m \<Rightarrow> (Returned (err m), w')
                   | Inl d \<Rightarrow>
                       (if d = None \<or> d = Some JNull then (Returned (err (type_error H)), w')
                        else (let c = jfield (js ''content'') (the d); s = jfield (js ''size'') (the d); l = jlength c;
                                  size = (if json_truthy s then the s else if json_truthy l then the l else jnat 0)
                              in (Returned (success_with (JObj ([(js ''path'', JStr path)] @ opt_field (js ''content'') c
                                    @ [(js ''size'', size)]))), w'))))
             else (Returned (failure (text_or H (jfield (js ''result'') a) [0x8BFB, 0x53D6, 0x6587, 0x4EF6, 0x5931, 0x8D25])), w'))))"

definition search_content :: "'w host \<Rightarrow> 'w tool" where
  "search_content H args w =
     (let path = text_or_empty H (map_of args (js ''path'')); pattern = text_or_empty H (map_of args (js ''pattern''));
          filePattern = text_or_empty H (map_of args (js ''filePattern''));
          err = (\<lambda>m. failure ([0x641C, 0x7D22, 0x65F6, 0x51FA, 0x9519, 0x003A, 0x0020] @ m)) in
      if path = [] \<or> pattern = [] then (Returned (failure ([0x0070, 0x0061, 0x0074, 0x0068, 0x0020, 0x548C, 0x0020, 0x0070, 0x0061, 0x0074, 0x0074, 0x0065, 0x0072, 0x006E, 0x0020, 0x4E0D, 0x80FD, 0x4E3A, 0x7A7A])), w)
      else (case call_host H (js ''search_content'') ([(js ''path'', JStr path), (js ''pattern'', JStr pattern)]
              @ (if filePattern = [] then [] else [(js ''filePattern'', JStr filePattern)])) w of
          (Inr m, w') \<Rightarrow> (Returned (err m), w')
        | (Inl a, w') \<Rightarrow>
            (if succeeded a
             then (case parsed_result H a of
                     Inr m \<Rightarrow> (Returned (err m), w')
                   | Inl d \<Rightarrow> (Returned (success_with (JObj [(js ''path'', JStr path), (js ''pattern'', JStr pattern),
                        (js ''count'', jnat (length (array_or_empty d))), (js ''matches'', JArr (array_or_empty d))])), w'))
             else (Returned (failure (text_or H (jfield (js ''result'') a) [0x641C, 0x7D22, 0x5931, 0x8D25])), w'))))"

definition find_files :: "'w host \<Rightarrow> 'w tool" where
  "find_files H args w =
     (let path = text_or_empty H (map_of args (js ''path'')); pattern = text_or_empty H (map_of args (js ''pattern''));
          err = (\<lambda>m. failure ([0x67E5, 0x627E, 0x6587, 0x4EF6, 0x65F6, 0x51FA, 0x9519, 0x003A, 0x0020] @ m)) in
      if path = [] \<or> pattern = [] then (Returned (failure ([0x0070, 0x0061, 0x0074, 0x0068, 0x0020, 0x548C, 0x0020, 0x0070, 0x0061, 0x0074, 0x0074, 0x0065, 0x0072, 0x006E, 0x0020, 0x4E0D, 0x80FD, 0x4E3A, 0x7A7A])), w)
      else (case call_host H (js ''find_files'') [(js ''path'', JStr path), (js ''pattern'', JStr pattern)] w of
          (Inr m, w') \<Rightarrow> (Returned (err m), w')
        | (Inl a, w') \<Rightarrow>
            (if succeeded a
             then (case parsed_result H a of
                     Inr m \<Rightarrow> (Returned (err m), w')
                   | Inl d \<Rightarrow> (Returned (success_with (JObj [(js ''path'', JStr path), (js ''pattern'', JStr pattern),
                        (js ''count'', jnat (length (array_or_empty d))), (js ''files'', JArr (array_or_empty d))])), w'))
             else (Returned (failure (text_or H (jfield (js ''result'') a) [0x67E5, 0x627E, 0x5931, 0x8D25])), w'))))"

subsection \<open>Commands\<close>

definition ALLOWED_COMMANDS :: "jstr list" where
  "ALLOWED_COMMANDS = map js [''dir'', ''ls'', ''type'', ''cat'', ''tree'', ''stat'', ''echo'', ''findstr'', ''grep'', ''where'']"

text \<open>\<open>command.trim().split(/\\s+/)[0].toLowerCase()\<close>.\<close>

definition command_name :: "jstr \<Rightarrow> jstr" where
  "command_name c = ascii_lower (takeWhile (\<lambda>x. \<not> is_space x) (trim c))"

fun join_with :: "jstr \<Rightarrow> jstr list \<Rightarrow> jstr" where
  "join_with sep [] = []"
| "join_with sep [x] = x"
| "join_with sep (x # y # ys) = x @ sep @ join_with sep (y # ys)"

definition validateCommandAllowed :: "jstr \<Rightarrow> jstr option" where
  "validateCommandAllowed command =
     (if command_name command \<in> set ALLOWED_COMMANDS then None
      else Some ([0x547D, 0x4EE4, 0x0020, 0x0022] @ command_name command @ [0x0022, 0x0020, 0x4E0D, 0x5728, 0x767D, 0x540D, 0x5355, 0x4E2D, 0x3002, 0x5141, 0x8BB8, 0x7684, 0x547D, 0x4EE4, 0x003A, 0x0020] @ join_with (js '', '') ALLOWED_COMMANDS))"

text \<open>The data of a finished command: parsed, or the raw text when it is not JSON.\<close>

definition terminal_data :: "'w host \<Rightarrow> json \<Rightarrow> json option" where
  "terminal_data H a =
     (case jfield (js ''result'') a of
        Some (JStr s) \<Rightarrow> (case parse_json H s of Some j \<Rightarrow> Some j
            | None \<Rightarrow> Some (JObj [(js ''output'', JStr s), (js ''exitCode'', jnat 0)]))
      | v \<Rightarrow> v)"

definition terminal_error :: "'w host \<Rightarrow> json \<Rightarrow> jstr" where
  "terminal_error H a =
     (let msg = text_or H (jfield (js ''result'') a) [0x547D, 0x4EE4, 0x6267, 0x884C, 0x5931, 0x8D25] in
      case parse_json H msg of
        None \<Rightarrow> msg
      | Some JNull \<Rightarrow> msg
      | Some p \<Rightarrow> text_or H (jfield (js ''output'') p) (text_or H (jfield (js ''error'') p) msg))"

definition run_terminal :: "'w host \<Rightarrow> 'w tool" where
  "run_terminal H args w =
     (let command = text_or_empty H (map_of args (js ''command'')); cwd = text_or_empty H (map_of args (js ''cwd''));
          err = (\<lambda>m. failure ([0x547D, 0x4EE4, 0x6267, 0x884C, 0x65F6, 0x51FA, 0x9519, 0x003A, 0x0020] @ m)) in
      if command = [] \<or> cwd = [] then (Returned (failure ([0x0063, 0x006F, 0x006D, 0x006D, 0x0061, 0x006E, 0x0064, 0x0020, 0x548C, 0x0020, 0x0063, 0x0077, 0x0064, 0x0020, 0x4E0D, 0x80FD, 0x4E3A, 0x7A7A])), w)
      else (case validateCommandAllowed command of
          Some e \<Rightarrow> (Returned (failure ([0x005B, 0x5B89, 0x5168, 0x9650, 0x5236, 0x005D, 0x0020] @ e)), w)
        | None \<Rightarrow>
            (case call_host H (js ''run_terminal'') [(js ''command'', JStr command), (js ''cwd'', JStr cwd)] w of
               (Inr m, w') \<Rightarrow> (Returned (err m), w')
             | (Inl a, w') \<Rightarrow>
                 (if succeeded a
                  then (case terminal_data H a of
                          None \<Rightarrow> (Returned (err (type_error H)), w')
                        | Some JNull \<Rightarrow> (Returned (err (type_error H)), w')
                        | Some d \<Rightarrow>
                            (let out = jfield (js ''output'') d; code = jfield (js ''exitCode'') d
                             in (Returned (success_with (JObj [(js ''command'', JStr command), (js ''cwd'', JStr cwd),
                                   (js ''output'', if json_truthy out then the out else JStr (string_of H d)),
                                   (js ''exitCode'', case code of None \<Rightarrow> jnat 0 | Some JNull \<Rightarrow> jnat 0 | Some c \<Rightarrow> c)])), w')))
                  else (Returned (failure (terminal_error H a)), w')))))"

section \<open>The tables\<close>

definition rule_of :: "rule_type \<Rightarrow> jstr \<Rightarrow> jstr option \<Rightarrow> jstr \<Rightarrow> pre_gate_rule" where
  "rule_of k f p e = \<lparr>rule_kind = k, rule_field = f, rule_pattern = p, rule_evaluator = None, rule_error = e\<rparr>"

definition path_rules :: "pre_gate_rule list" where
  "path_rules =
     [rule_of RegexMatch (js ''path'') (Some [0x005E, 0x005B, 0x002F, 0x005D, 0x007C, 0x005E, 0x005B, 0x0041, 0x002D, 0x005A, 0x0061, 0x002D, 0x007A, 0x005D, 0x003A]) [0x0070, 0x0061, 0x0074, 0x0068, 0x0020, 0x5FC5, 0x987B, 0x662F, 0x7EDD, 0x5BF9, 0x8DEF, 0x5F84, 0xFF08, 0x5982, 0x0020, 0x0043, 0x003A, 0x005C, 0x0078, 0x0078, 0x0078, 0xFF09],
      rule_of RegexNotMatch (js ''path'') (Some [0x0028, 0x002F, 0x0070, 0x0061, 0x0074, 0x0068, 0x002F, 0x007C, 0x0070, 0x006C, 0x0061, 0x0063, 0x0065, 0x0068, 0x006F, 0x006C, 0x0064, 0x0065, 0x0072, 0x007C, 0x0065, 0x0078, 0x0061, 0x006D, 0x0070, 0x006C, 0x0065, 0x0029]) [0x8DEF, 0x5F84, 0x4F3C, 0x4E4E, 0x662F, 0x793A, 0x4F8B, 0x8DEF, 0x5F84, 0xFF0C, 0x8BF7, 0x63D0, 0x4F9B, 0x771F, 0x5B9E, 0x8DEF, 0x5F84]]"

definition path_not_empty :: pre_gate_rule where
  "path_not_empty = rule_of NotEmpty (js ''path'') None (js ''path '' @ [0x4E0D, 0x80FD, 0x4E3A, 0x7A7A])"

definition writeConfigValuePreGateRules :: "pre_gate_rule list" where
  "writeConfigValuePreGateRules =
     [rule_of RegexNotMatch (js ''value'') (Some [0x005E, 0x002D, 0x005C, 0x0064, 0x002B]) [0x503C, 0x4E0D, 0x80FD, 0x4E3A, 0x8D1F, 0x6570],
      rule_of NotEmpty (js ''key'') None (js ''key '' @ [0x4E0D, 0x80FD, 0x4E3A, 0x7A7A])]"

definition TOOL_PRE_GATE_RULES :: rule_table where
  "TOOL_PRE_GATE_RULES =
     [(js ''list_directory'', path_not_empty # path_rules),
      (js ''read_file'', path_not_empty # path_rules),
      (js ''search_content'', [path_not_empty, rule_of NotEmpty (js ''pattern'') None [0x641C, 0x7D22, 0x5173, 0x952E, 0x8BCD, 0x4E0D, 0x80FD, 0x4E3A, 0x7A7A]] @ path_rules),
      (js ''find_files'', [path_not_empty, rule_of NotEmpty (js ''pattern'') None [0x0067, 0x006C, 0x006F, 0x0062, 0x0020, 0x6A21, 0x5F0F, 0x4E0D, 0x80FD, 0x4E3A, 0x7A7A]] @ path_rules),
      (js ''run_terminal'', [rule_of NotEmpty (js ''command'') None [0x0063, 0x006F, 0x006D, 0x006D, 0x0061, 0x006E, 0x0064, 0x0020, 0x4E0D, 0x80FD, 0x4E3A, 0x7A7A],
         rule_of NotEmpty (js ''cwd'') None [0x5DE5, 0x4F5C, 0x76EE, 0x5F55, 0xFF08, 0x0063, 0x0077, 0x0064, 0xFF09, 0x4E0D, 0x80FD, 0x4E3A, 0x7A7A]]),
      (js ''write_config_value'', writeConfigValuePreGateRules),
      (js ''read_config_value'', [rule_of NotEmpty (js ''key'') None (js ''key '' @ [0x4E0D, 0x80FD, 0x4E3A, 0x7A7A])])]"

text \<open>The tools modelled here; the other tools of the table are a parameter.\<close>

section \<open>The two validators of the rules\<close>

text \<open>A rule that both validators understand: a pattern that compiles, no registered evaluator.\<close>

definition plain_rule :: "regex_engine \<Rightarrow> custom_table \<Rightarrow> pre_gate_rule \<Rightarrow> bool" where
  "plain_rule rx cs r \<longleftrightarrow>
     (rule_kind r \<in> {RegexMatch, RegexNotMatch} \<longrightarrow> \<not> falsy_text (rule_pattern r) \<and> rx (the (rule_pattern r)) \<noteq> None)
   \<and> (rule_kind r = Custom \<longrightarrow> getEvaluator rx cs r = None)"

definition rule_holds :: "regex_engine \<Rightarrow> tool_args \<Rightarrow> pre_gate_rule \<Rightarrow> bool" where
  "rule_holds rx args r \<longleftrightarrow>
     (case rule_kind r of
        NotEmpty \<Rightarrow> map_of args (rule_field r) \<notin> {None, Some JNull, Some (JStr [])}
      | RegexMatch \<Rightarrow> (\<exists>s f. map_of args (rule_field r) = Some (JStr s) \<and> rx (the (rule_pattern r)) = Some f \<and> f s)
      | RegexNotMatch \<Rightarrow> \<not> (\<exists>s f. map_of args (rule_field r) = Some (JStr s) \<and> rx (the (rule_pattern r)) = Some f \<and> f s)
      | Custom \<Rightarrow> True)"

lemma plain_evaluator:
  assumes "plain_rule rx cs r"
  shows "(case getEvaluator rx cs r of None \<Rightarrow> None | Some ev \<Rightarrow> ev (map_of args (rule_field r)) r)
    = (if rule_holds rx args r then None else Some (rule_error r))"
  using assms
  by (cases "rule_kind r")
    (auto simp: plain_rule_def getEvaluator_def rule_holds_def not_empty_def regex_match_def regex_not_match_def
      split: option.splits json.splits)

lemma evaluate_plain:
  "(\<forall>r\<in>set rs. plain_rule rx cs r) \<Longrightarrow>
   evaluate_rules rx cs rs args = map_option rule_error (find (\<lambda>r. \<not> rule_holds rx args r) rs)"
proof (induction rs)
  case (Cons r rs)
  then show ?case using plain_evaluator [of rx cs r args] by (auto split: option.splits if_splits)
qed simp

lemma validator_plain:
  "(\<forall>r\<in>set rs. plain_rule rx cs r) \<Longrightarrow>
   inputValidator rx rs args = Inr (map_option rule_error (find (\<lambda>r. \<not> rule_holds rx args r) rs))"
proof (induction rs)
  case (Cons r rs)
  then show ?case
    by (cases "rule_kind r") (auto simp: plain_rule_def rule_holds_def Let_def split: option.splits json.splits)
qed simp

lemma plain_rule_of [simp]:
  "plain_rule rx cs (rule_of k f p e) \<longleftrightarrow>
     (k \<in> {RegexMatch, RegexNotMatch} \<longrightarrow> \<not> falsy_text p \<and> rx (the p) \<noteq> None)"
  by (cases k) (simp_all add: plain_rule_def rule_of_def getEvaluator_def falsy_text_def)

lemma tool_rules_plain:
  assumes "rx [0x005E, 0x005B, 0x002F, 0x005D, 0x007C, 0x005E, 0x005B, 0x0041, 0x002D, 0x005A, 0x0061, 0x002D, 0x007A, 0x005D, 0x003A] \<noteq> None" "rx [0x0028, 0x002F, 0x0070, 0x0061, 0x0074, 0x0068, 0x002F, 0x007C, 0x0070, 0x006C, 0x0061, 0x0063, 0x0065, 0x0068, 0x006F, 0x006C, 0x0064, 0x0065, 0x0072, 0x007C, 0x0065, 0x0078, 0x0061, 0x006D, 0x0070, 0x006C, 0x0065, 0x0029] \<noteq> None" "rx [0x005E, 0x002D, 0x005C, 0x0064, 0x002B] \<noteq> None"
  shows "\<forall>(n, rs)\<in>set TOOL_PRE_GATE_RULES. \<forall>r\<in>set rs. plain_rule rx cs r"
  using assms
  by (simp add: TOOL_PRE_GATE_RULES_def path_not_empty_def writeConfigValuePreGateRules_def path_rules_def falsy_text_def)

text \<open>The two validators of the declarative rules agree: on rules whose patterns compile and that use no registered
  evaluator, which the rules of all tools are, the executor's check and the validator of the tool factory
  both return the error of the first rule that does not hold, or nothing when all rules hold.\<close>

theorem validators_agree:
  assumes "\<forall>r\<in>set rs. plain_rule rx cs r"
  shows "evaluatePreGates rx cs (Some rs) args = map_option rule_error (find (\<lambda>r. \<not> rule_holds rx args r) rs)
    \<and> inputValidator rx rs args = Inr (evaluatePreGates rx cs (Some rs) args)"
  using evaluate_plain [OF assms] validator_plain [OF assms] by (simp add: evaluatePreGates_def)

text \<open>An engine that knows one pattern, a minus sign and a digit at the start.\<close>

definition minus_engine :: regex_engine where
  "minus_engine p = Some (\<lambda>s. case s of c # d # _ \<Rightarrow> c = 0x2D \<and> is_digit d | _ \<Rightarrow> False)"

lemma validators_agree_witness:
  "inputValidator minus_engine writeConfigValuePreGateRules [(js ''value'', JStr (js ''-5''))]
     = Inr (evaluatePreGates minus_engine [] (Some writeConfigValuePreGateRules) [(js ''value'', JStr (js ''-5''))])"
  by (rule validators_agree [THEN conjunct2])
    (simp add: writeConfigValuePreGateRules_def falsy_text_def minus_engine_def)

section \<open>Numbers as values\<close>

text \<open>The check that a value is not negative sees texts only. A value that arrives as a number passes it, and is
  then written as the text that the check refuses; and the number zero, which is falsy, is written as the empty
  text, so it erases the value.\<close>

theorem numbers_pass_the_value_check:
  assumes "rx [0x005E, 0x002D, 0x005C, 0x0064, 0x002B] = Some f" "f (to_text H (JNum x))" "x \<noteq> Fin 0" "x \<noteq> NaN" "k \<noteq> []"
  shows "let args = (\<lambda>v. [(js ''key'', JStr k), (js ''value'', v)]);
             check = (\<lambda>v. evaluatePreGates rx cs (Some writeConfigValuePreGateRules) (args v))
    in check (JStr (to_text H (JNum x))) = Some [0x503C, 0x4E0D, 0x80FD, 0x4E3A, 0x8D1F, 0x6570] \<and> check (JNum x) = None
     \<and> write_config_value H (args (JNum x)) w = write_config_value H (args (JStr (to_text H (JNum x)))) w
     \<and> write_config_value H (args (JNum (Fin 0))) w = write_config_value H (args (JStr [])) w"
proof -
  let ?args = "\<lambda>v. [(js ''key'', JStr k), (js ''value'', v)]"
  have plain: "\<forall>r\<in>set writeConfigValuePreGateRules. plain_rule rx cs r"
    using assms(1) by (simp add: writeConfigValuePreGateRules_def falsy_text_def)
  have "evaluatePreGates rx cs (Some writeConfigValuePreGateRules) (?args v)
      = map_option rule_error (find (\<lambda>r. \<not> rule_holds rx (?args v) r) writeConfigValuePreGateRules)" for v
    using evaluate_plain [OF plain] by (simp add: evaluatePreGates_def)
  then have "evaluatePreGates rx cs (Some writeConfigValuePreGateRules) (?args (JStr (to_text H (JNum x)))) = Some [0x503C, 0x4E0D, 0x80FD, 0x4E3A, 0x8D1F, 0x6570]"
    "evaluatePreGates rx cs (Some writeConfigValuePreGateRules) (?args (JNum x)) = None"
    using assms by (simp_all add: writeConfigValuePreGateRules_def rule_of_def rule_holds_def)
  moreover have "text_or_empty H (Some (JNum x)) = to_text H (JNum x)" "text_or_empty H (Some (JNum (Fin 0))) = []"
    using assms by (simp_all add: text_or_empty_def json_truthy_def string_of_def)
  ultimately show ?thesis by (simp add: write_config_value_def)
qed

definition sample_host :: "unit host" where
  "sample_host = \<lparr>parse_json = (\<lambda>s. None), stringify = (\<lambda>j. []), pretty = (\<lambda>j. []), to_text = (\<lambda>j. js ''-5''), to_number = (\<lambda>j. NaN),
     type_error = [], syntax_error = (\<lambda>s. []),
     ipc = (\<lambda>t a w. (Answer (JObj [(js ''success'', JBool True)]), w)), schemas = (\<lambda>w. (Answer JNull, w)),
     regex = minus_engine, customs = [], parse_args = (\<lambda>s. None)\<rparr>"

lemma numbers_pass_the_value_check_witness:
  "evaluatePreGates minus_engine [] (Some writeConfigValuePreGateRules)
     [(js ''key'', JStr (js ''room'')), (js ''value'', JNum (Fin (- 5)))] = None
   \<and> write_config_value sample_host [(js ''key'', JStr (js ''room'')), (js ''value'', JNum (Fin (- 5)))] ()
     = write_config_value sample_host [(js ''key'', JStr (js ''room'')), (js ''value'', JStr (js ''-5''))] ()"
proof -
  have t: "to_text sample_host j = js ''-5''" for j by (simp add: sample_host_def)
  have "is_digit (of_char (CHR ''5'') :: 16 word)" by code_simp
  moreover have "(of_char (CHR ''-'') :: 16 word) = 0x2D" by code_simp
  ultimately have "(case js ''-5'' of c # d # _ \<Rightarrow> c = 0x2D \<and> is_digit d | _ \<Rightarrow> False)" by (simp add: js_def)
  then show ?thesis
    using numbers_pass_the_value_check [of minus_engine _ sample_host "Fin (- 5)" "js ''room''" "[]" "()"]
    by (simp add: minus_engine_def t)
qed

section \<open>Retries\<close>

text \<open>At most three attempts; the first success, or the last failure, is returned.\<close>

lemma retry_outcome:
  fixes H :: "'w host" and tools :: "'w toolbox" and rules :: rule_table and tc :: tool_call and w :: 'w
  defines "out \<equiv> \<lambda>i. fst (executeToolCall H tools rules tc (((\<lambda>w. snd (executeToolCall H tools rules tc w)) ^^ i) w))"
    and "world \<equiv> \<lambda>i. ((\<lambda>w. snd (executeToolCall H tools rules tc w)) ^^ i) w"
  shows "\<exists>i<3. (\<forall>j<i. \<exists>q. out j = Returned q \<and> \<not> tr_success q)
     \<and> (case out i of
          Raised \<Rightarrow> executeWithRetry H tools rules tc w = (None, world (Suc i))
        | Returned r \<Rightarrow> (tr_success r \<or> i = 2) \<and> executeWithRetry H tools rules tc w = (Some (r, Suc i), world (Suc i)))"
proof -
  define e where "e = executeToolCall H tools rules tc"
  have step: "retry_from H tools rules tc a l x =
      (if a \<le> 3 then (case e x of (Raised, w') \<Rightarrow> (None, w')
         | (Returned r, w') \<Rightarrow> if tr_success r then (Some (r, a), w') else retry_from H tools rules tc (Suc a) r w')
       else (Some (l, 3), x))" for a l x
    by (subst retry_from.simps) (simp add: e_def MAX_TOOL_RETRIES_def)
  obtain o1 w1 where e1: "e w = (o1, w1)" by force
  obtain o2 w2 where e2: "e w1 = (o2, w2)" by force
  obtain o3 w3 where e3: "e w2 = (o3, w3)" by force
  have outs: "out 0 = o1" "out (Suc 0) = o2" "out 2 = o3" "world (Suc 0) = w1" "world 2 = w2" "world 3 = w3"
    using e1 e2 e3 by (simp_all add: out_def world_def e_def [symmetric] numeral_2_eq_2 numeral_3_eq_3)
  have run: "executeWithRetry H tools rules tc w =
      (case o1 of Raised \<Rightarrow> (None, w1) | Returned r \<Rightarrow> if tr_success r then (Some (r, 1), w1) else
        (case o2 of Raised \<Rightarrow> (None, w2) | Returned r \<Rightarrow> if tr_success r then (Some (r, 2), w2) else
          (case o3 of Raised \<Rightarrow> (None, w3) | Returned r \<Rightarrow> (Some (r, 3), w3))))"
    unfolding executeWithRetry_def
    by (simp add: step e1 e2 e3 numeral_2_eq_2 numeral_3_eq_3 split: tool_outcome.splits)
  consider "o1 = Raised \<or> (\<exists>r. o1 = Returned r \<and> tr_success r)"
    | q where "o1 = Returned q" "\<not> tr_success q" "o2 = Raised \<or> (\<exists>r. o2 = Returned r \<and> tr_success r)"
    | q p where "o1 = Returned q" "\<not> tr_success q" "o2 = Returned p" "\<not> tr_success p"
    by (metis tool_outcome.exhaust)
  then show ?thesis
  proof cases
    case 1
    then show ?thesis by (intro exI [of _ 0]) (auto simp: outs run)
  next
    case 2
    then show ?thesis by (intro exI [of _ "Suc 0"]) (auto simp: outs run numeral_2_eq_2 [symmetric])
  next
    case 3
    have "\<forall>j<2. j = 0 \<or> j = Suc 0" by auto
    with 3 show ?thesis by (intro exI [of _ 2]) (auto simp: outs run numeral_3_eq_3 [symmetric] split: tool_outcome.splits)
  qed
qed

end
