(* ===== verification/GateChain.thy ===== *)
theory GateChain
  imports ToolExecution
begin

text \<open>
  Gate rules of the editor's assistant (\<open>app/editor/src/ai\<close>: \<open>tools/create_gate_chain.ts\<close>,
  \<open>tools/update_gate_rule.ts\<close>, \<open>tools/validate_config.ts\<close>, \<open>tools/create_schema_field.ts\<close>, \<open>validator.ts\<close>,
  \<open>GateFactoryBridge.ts\<close>): the check of a rule tree that arrives as JSON, its compilation to a flat chain of steps, the
  classification of rules, and the tools that register them. The main process is the parameter of \<open>ToolExecution\<close>; the call that
  registers a gate is the further parameter \<open>reg\<close>.
\<close>

section \<open>Rule trees\<close>

datatype gate_ast =
    Condition jstr jstr json
  | AndNode gate_ast gate_ast
  | OrNode gate_ast gate_ast
  | NotNode gate_ast
  | ThenNode gate_ast gate_ast
  | ActionNode jstr "json option"

lemma map_of_size [termination_simp]: "map_of fs k = Some v \<Longrightarrow> size v < size (JObj fs)"
  by (drule map_of_SomeD) (auto simp: size_list_estimation' less_Suc_eq_le intro: size_list_estimation')

definition text_field :: "(jstr \<times> json) list \<Rightarrow> jstr \<Rightarrow> jstr option" where
  "text_field fs k = (case map_of fs k of Some (JStr s) \<Rightarrow> if s = [] then None else Some s | _ \<Rightarrow> None)"

text \<open>The check of the structure: \<open>None\<close> when the tree is valid, otherwise the message.\<close>

function validateAST :: "json \<Rightarrow> jstr option" where
  "validateAST (JObj fs) =
     (case text_field fs (js ''type'') of
        None \<Rightarrow> Some [0x0041, 0x0053, 0x0054, 0x0020, 0x8282, 0x70B9, 0x7F3A, 0x5C11, 0x0020, 0x0074, 0x0079, 0x0070, 0x0065, 0x0020, 0x5B57, 0x6BB5]
      | Some t \<Rightarrow>
          (if t = js ''condition''
           then (if text_field fs (js ''field'') = None then Some [0x0063, 0x006F, 0x006E, 0x0064, 0x0069, 0x0074, 0x0069, 0x006F, 0x006E, 0x0020, 0x8282, 0x70B9, 0x7F3A, 0x5C11, 0x0020, 0x0066, 0x0069, 0x0065, 0x006C, 0x0064]
                 else if text_field fs (js ''op'') = None then Some [0x0063, 0x006F, 0x006E, 0x0064, 0x0069, 0x0074, 0x0069, 0x006F, 0x006E, 0x0020, 0x8282, 0x70B9, 0x7F3A, 0x5C11, 0x0020, 0x006F, 0x0070]
                 else if map_of fs (js ''value'') \<in> {None, Some JNull} then Some [0x0063, 0x006F, 0x006E, 0x0064, 0x0069, 0x0074, 0x0069, 0x006F, 0x006E, 0x0020, 0x8282, 0x70B9, 0x7F3A, 0x5C11, 0x0020, 0x0076, 0x0061, 0x006C, 0x0075, 0x0065]
                 else None)
           else if t = js ''and'' \<or> t = js ''or''
           then (case (map_of fs (js ''left''), map_of fs (js ''right'')) of
                   (Some l, Some r) \<Rightarrow>
                     (if json_truthy (Some l) \<and> json_truthy (Some r)
                      then (case validateAST l of Some e \<Rightarrow> Some e | None \<Rightarrow> validateAST r)
                      else Some (t @ [0x0020, 0x8282, 0x70B9, 0x7F3A, 0x5C11, 0x0020, 0x006C, 0x0065, 0x0066, 0x0074, 0x0020, 0x6216, 0x0020, 0x0072, 0x0069, 0x0067, 0x0068, 0x0074]))
                 | _ \<Rightarrow> Some (t @ [0x0020, 0x8282, 0x70B9, 0x7F3A, 0x5C11, 0x0020, 0x006C, 0x0065, 0x0066, 0x0074, 0x0020, 0x6216, 0x0020, 0x0072, 0x0069, 0x0067, 0x0068, 0x0074]))
           else if t = js ''not''
           then (case map_of fs (js ''node'') of
                   Some n \<Rightarrow> (if json_truthy (Some n) then validateAST n else Some [0x006E, 0x006F, 0x0074, 0x0020, 0x8282, 0x70B9, 0x7F3A, 0x5C11, 0x0020, 0x006E, 0x006F, 0x0064, 0x0065])
                 | None \<Rightarrow> Some [0x006E, 0x006F, 0x0074, 0x0020, 0x8282, 0x70B9, 0x7F3A, 0x5C11, 0x0020, 0x006E, 0x006F, 0x0064, 0x0065])
           else if t = js ''then''
           then (case map_of fs (js ''when'') of
                   Some w \<Rightarrow>
                     (if json_truthy (Some w)
                      then (case map_of fs (js ''do'') of
                              Some d \<Rightarrow>
                                (if json_truthy (Some d)
                                 then (case validateAST w of Some e \<Rightarrow> Some e | None \<Rightarrow> validateAST d)
                                 else Some [0x0074, 0x0068, 0x0065, 0x006E, 0x0020, 0x8282, 0x70B9, 0x7F3A, 0x5C11, 0x0020, 0x0064, 0x006F])
                            | None \<Rightarrow> Some [0x0074, 0x0068, 0x0065, 0x006E, 0x0020, 0x8282, 0x70B9, 0x7F3A, 0x5C11, 0x0020, 0x0064, 0x006F])
                      else Some [0x0074, 0x0068, 0x0065, 0x006E, 0x0020, 0x8282, 0x70B9, 0x7F3A, 0x5C11, 0x0020, 0x0077, 0x0068, 0x0065, 0x006E])
                 | None \<Rightarrow> Some [0x0074, 0x0068, 0x0065, 0x006E, 0x0020, 0x8282, 0x70B9, 0x7F3A, 0x5C11, 0x0020, 0x0077, 0x0068, 0x0065, 0x006E])
           else if t = js ''action''
           then (if text_field fs (js ''name'') = None then Some [0x0061, 0x0063, 0x0074, 0x0069, 0x006F, 0x006E, 0x0020, 0x8282, 0x70B9, 0x7F3A, 0x5C11, 0x0020, 0x006E, 0x0061, 0x006D, 0x0065] else None)
           else Some ([0x672A, 0x77E5, 0x0020, 0x0041, 0x0053, 0x0054, 0x0020, 0x8282, 0x70B9, 0x7C7B, 0x578B, 0x003A, 0x0020] @ t)))"
| "validateAST (JArr xs) = Some [0x0041, 0x0053, 0x0054, 0x0020, 0x8282, 0x70B9, 0x7F3A, 0x5C11, 0x0020, 0x0074, 0x0079, 0x0070, 0x0065, 0x0020, 0x5B57, 0x6BB5]"
| "validateAST JNull = Some [0x0041, 0x0053, 0x0054, 0x0020, 0x5FC5, 0x987B, 0x662F, 0x975E, 0x7A7A, 0x5BF9, 0x8C61]"
| "validateAST (JBool b) = Some [0x0041, 0x0053, 0x0054, 0x0020, 0x5FC5, 0x987B, 0x662F, 0x975E, 0x7A7A, 0x5BF9, 0x8C61]"
| "validateAST (JNum x) = Some [0x0041, 0x0053, 0x0054, 0x0020, 0x5FC5, 0x987B, 0x662F, 0x975E, 0x7A7A, 0x5BF9, 0x8C61]"
| "validateAST (JStr s) = Some [0x0041, 0x0053, 0x0054, 0x0020, 0x5FC5, 0x987B, 0x662F, 0x975E, 0x7A7A, 0x5BF9, 0x8C61]"
  by pat_completeness auto
termination by (relation "measure size") (auto dest: map_of_size map_of_size [OF sym])

text \<open>What a valid tree denotes: the fields that the compiler reads.\<close>

inductive denotes :: "json \<Rightarrow> gate_ast \<Rightarrow> bool" where
  condition: "\<lbrakk>text_field fs (js ''type'') = Some (js ''condition''); text_field fs (js ''field'') = Some f;
    text_field fs (js ''op'') = Some p; map_of fs (js ''value'') = Some v; v \<noteq> JNull\<rbrakk>
    \<Longrightarrow> denotes (JObj fs) (Condition f p v)"
| conj: "\<lbrakk>text_field fs (js ''type'') = Some (js ''and''); map_of fs (js ''left'') = Some l; map_of fs (js ''right'') = Some r;
    denotes l a; denotes r b\<rbrakk> \<Longrightarrow> denotes (JObj fs) (AndNode a b)"
| disj: "\<lbrakk>text_field fs (js ''type'') = Some (js ''or''); map_of fs (js ''left'') = Some l; map_of fs (js ''right'') = Some r;
    denotes l a; denotes r b\<rbrakk> \<Longrightarrow> denotes (JObj fs) (OrNode a b)"
| neg: "\<lbrakk>text_field fs (js ''type'') = Some (js ''not''); map_of fs (js ''node'') = Some n; denotes n a\<rbrakk>
    \<Longrightarrow> denotes (JObj fs) (NotNode a)"
| branch: "\<lbrakk>text_field fs (js ''type'') = Some (js ''then''); map_of fs (js ''when'') = Some w; map_of fs (js ''do'') = Some d;
    denotes w a; denotes d b\<rbrakk> \<Longrightarrow> denotes (JObj fs) (ThenNode a b)"
| act: "\<lbrakk>text_field fs (js ''type'') = Some (js ''action''); text_field fs (js ''name'') = Some n\<rbrakk>
    \<Longrightarrow> denotes (JObj fs) (ActionNode n (map_of fs (js ''value'')))"

inductive_cases denotes_ObjE: "denotes (JObj fs) t"
inductive_simps denotes_simps [simp]:
  "denotes (JArr xs) t" "denotes JNull t" "denotes (JBool b) t" "denotes (JNum x) t" "denotes (JStr s) t"

text \<open>The cast of the parsed text to a tree, which the code does after the check.\<close>

function as_ast :: "json \<Rightarrow> gate_ast option" where
  "as_ast (JObj fs) =
     (let child = (\<lambda>k. case map_of fs k of Some j \<Rightarrow> as_ast j | None \<Rightarrow> None);
          pair = (\<lambda>node k1 k2. case (child k1, child k2) of (Some a, Some b) \<Rightarrow> Some (node a b) | _ \<Rightarrow> None)
      in case text_field fs (js ''type'') of
           None \<Rightarrow> None
         | Some t \<Rightarrow>
             (if t = js ''condition''
              then (case (text_field fs (js ''field''), text_field fs (js ''op''), map_of fs (js ''value'')) of
                      (Some f, Some p, Some v) \<Rightarrow> if v = JNull then None else Some (Condition f p v)
                    | _ \<Rightarrow> None)
              else if t = js ''and'' then pair AndNode (js ''left'') (js ''right'')
              else if t = js ''or'' then pair OrNode (js ''left'') (js ''right'')
              else if t = js ''not'' then map_option NotNode (child (js ''node''))
              else if t = js ''then'' then pair ThenNode (js ''when'') (js ''do'')
              else if t = js ''action'' then map_option (\<lambda>n. ActionNode n (map_of fs (js ''value''))) (text_field fs (js ''name''))
              else None))"
| "as_ast (JArr xs) = None"
| "as_ast JNull = None"
| "as_ast (JBool b) = None"
| "as_ast (JNum x) = None"
| "as_ast (JStr s) = None"
  by pat_completeness auto
termination by (relation "measure size") (auto dest: map_of_size map_of_size [OF sym])

lemma denotes_truthy: "denotes j t \<Longrightarrow> json_truthy (Some j)"
  by (induction rule: denotes.induct) simp_all

lemma denotes_cast: "denotes j t \<Longrightarrow> as_ast j = Some t"
  by (induction rule: denotes.induct) (simp_all add: Let_def)

lemma denotes_valid: "denotes j t \<Longrightarrow> validateAST j = None"
  by (induction rule: denotes.induct) (simp_all add: denotes_truthy)

lemma valid_denotes: "validateAST j = None \<Longrightarrow> \<exists>t. denotes j t"
proof (induction j rule: validateAST.induct)
  case (1 fs)
  obtain t where t: "text_field fs (js ''type'') = Some t"
    using "1.prems" by (auto split: option.splits)
  consider "t = js ''condition''" | "t = js ''and'' \<or> t = js ''or''" | "t = js ''not''" | "t = js ''then''" | "t = js ''action''"
    using "1.prems" t by (auto split: if_splits)
  then show ?case
  proof cases
    case 1
    with "1.prems" t show ?thesis by (auto split: if_splits intro: denotes.condition)
  next
    case 2
    with "1.prems" t obtain l r where lr: "map_of fs (js ''left'') = Some l" "map_of fs (js ''right'') = Some r"
      "json_truthy (Some l)" "json_truthy (Some r)" "validateAST l = None" "validateAST r = None"
      by (auto split: if_splits option.splits)
    have "Ex (denotes l)" "Ex (denotes r)" using "1.IH"(1,2) t 2 lr by auto
    with lr t 2 show ?thesis by (auto intro: denotes.conj denotes.disj)
  next
    case 3
    with "1.prems" t obtain n where n: "map_of fs (js ''node'') = Some n" "json_truthy (Some n)" "validateAST n = None"
      by (auto split: if_splits option.splits)
    have "Ex (denotes n)" using "1.IH"(3) t 3 n by auto
    with n t 3 show ?thesis by (auto intro: denotes.neg)
  next
    case 4
    with "1.prems" t obtain w d where wd: "map_of fs (js ''when'') = Some w" "map_of fs (js ''do'') = Some d"
      "json_truthy (Some w)" "json_truthy (Some d)" "validateAST w = None" "validateAST d = None"
      by (auto split: if_splits option.splits)
    have "Ex (denotes w)" "Ex (denotes d)" using "1.IH"(4,5) t 4 wd by auto
    with wd t 4 show ?thesis by (auto intro: denotes.branch)
  next
    case 5
    with "1.prems" t show ?thesis by (auto split: if_splits intro: denotes.act)
  qed
qed simp_all

lemma valid_cast_denotes: "validateAST j = None \<Longrightarrow> as_ast j = Some t \<Longrightarrow> denotes j t"
  by (metis valid_denotes denotes_cast option.inject)

text \<open>The check accepts exactly the JSON that denotes a rule tree, and the cast that follows it yields that tree: an
  accepted tree is never cut short or read with a missing child.\<close>

theorem validation_is_the_grammar:
  "(validateAST j = None) = (\<exists>t. denotes j t) \<and> (denotes j t) = (validateAST j = None \<and> as_ast j = Some t)"
  using denotes_cast denotes_valid valid_denotes by (metis option.inject)

section \<open>The flat chain\<close>

record gate_step =
  step_type :: jstr
  description :: jstr
  step_field :: "jstr option"
  step_op :: "jstr option"
  step_value :: "json option"

definition marker :: "jstr \<Rightarrow> jstr \<Rightarrow> gate_step" where
  "marker t d = \<lparr>step_type = t, description = d, step_field = None, step_op = None, step_value = None\<rparr>"

abbreviation and_open :: gate_step where "and_open \<equiv> marker (js ''logic_and'') [0x0041, 0x004E, 0x0044, 0x0020, 0x5F00, 0x59CB, 0x0020, 0x2500, 0x2500, 0x0020, 0x5168, 0x90E8, 0x6761, 0x4EF6, 0x9700, 0x6EE1, 0x8DB3]"
abbreviation and_close :: gate_step where "and_close \<equiv> marker (js ''logic_and'') [0x0041, 0x004E, 0x0044, 0x0020, 0x7ED3, 0x675F]"
abbreviation or_open :: gate_step where "or_open \<equiv> marker (js ''logic_or'') [0x004F, 0x0052, 0x0020, 0x5F00, 0x59CB, 0x0020, 0x2500, 0x2500, 0x0020, 0x4EFB, 0x4E00, 0x6761, 0x4EF6, 0x6EE1, 0x8DB3, 0x5373, 0x53EF]"
abbreviation or_close :: gate_step where "or_close \<equiv> marker (js ''logic_or'') [0x004F, 0x0052, 0x0020, 0x7ED3, 0x675F]"
abbreviation not_mark :: gate_step where "not_mark \<equiv> marker (js ''logic_not'') [0x004E, 0x004F, 0x0054, 0x0020, 0x53D6, 0x53CD]"
abbreviation do_mark :: gate_step where "do_mark \<equiv> marker (js ''do_branch'') [0x2192, 0x0020, 0x6761, 0x4EF6, 0x6EE1, 0x8DB3, 0x65F6, 0x6267, 0x884C, 0x003A]"

definition condition_step :: "'a jsenv_scheme \<Rightarrow> jstr \<Rightarrow> jstr \<Rightarrow> json \<Rightarrow> gate_step" where
  "condition_step H f p v =
     \<lparr>step_type = js ''condition'', description = [0x5B57, 0x6BB5, 0x0020] @ f @ js '' '' @ p @ js '' '' @ string_of H v,
      step_field = Some f, step_op = Some p, step_value = Some v\<rparr>"

definition action_step :: "'a jsenv_scheme \<Rightarrow> jstr \<Rightarrow> json option \<Rightarrow> gate_step" where
  "action_step H n v =
     \<lparr>step_type = js ''action'',
      description = [0x6267, 0x884C, 0x64CD, 0x4F5C, 0x003A, 0x0020] @ n @ js '' = '' @ (case v of None \<Rightarrow> js ''undefined'' | Some j \<Rightarrow> string_of H j),
      step_field = Some n, step_op = None, step_value = v\<rparr>"

text \<open>The steps are pushed on a shared array.\<close>

fun compileAST :: "'a jsenv_scheme \<Rightarrow> gate_ast \<Rightarrow> gate_step list \<Rightarrow> gate_step list" where
  "compileAST H (Condition f p v) steps = steps @ [condition_step H f p v]"
| "compileAST H (AndNode l r) steps = compileAST H r (compileAST H l (steps @ [and_open])) @ [and_close]"
| "compileAST H (OrNode l r) steps = compileAST H r (compileAST H l (steps @ [or_open])) @ [or_close]"
| "compileAST H (NotNode n) steps = compileAST H n (steps @ [not_mark])"
| "compileAST H (ThenNode w d) steps = compileAST H d (compileAST H w steps @ [do_mark])"
| "compileAST H (ActionNode n v) steps = steps @ [action_step H n v]"

lemma compile_acc: "compileAST H t steps = steps @ compileAST H t []"
proof (induction t arbitrary: steps)
  case (AndNode l r)
  show ?case
    using AndNode(1) [of "steps @ [and_open]"] AndNode(1) [of "[and_open]"]
      AndNode(2) [of "steps @ and_open # compileAST H l []"] AndNode(2) [of "and_open # compileAST H l []"] by simp
next
  case (OrNode l r)
  show ?case
    using OrNode(1) [of "steps @ [or_open]"] OrNode(1) [of "[or_open]"]
      OrNode(2) [of "steps @ or_open # compileAST H l []"] OrNode(2) [of "or_open # compileAST H l []"] by simp
next
  case (NotNode t)
  show ?case using NotNode [of "steps @ [not_mark]"] NotNode [of "[not_mark]"] by simp
next
  case (ThenNode w d)
  show ?case
    using ThenNode(1) [of steps] ThenNode(2) [of "steps @ compileAST H w [] @ [do_mark]"]
      ThenNode(2) [of "compileAST H w [] @ [do_mark]"] by simp
qed simp_all

definition chain :: "'a jsenv_scheme \<Rightarrow> gate_ast \<Rightarrow> gate_step list" where
  "chain H t = compileAST H t []"

lemma chain_simps [simp]:
  "chain H (Condition f p v) = [condition_step H f p v]"
  "chain H (AndNode l r) = and_open # chain H l @ chain H r @ [and_close]"
  "chain H (OrNode l r) = or_open # chain H l @ chain H r @ [or_close]"
  "chain H (NotNode t) = not_mark # chain H t"
  "chain H (ThenNode w d) = chain H w @ do_mark # chain H d"
  "chain H (ActionNode n x) = [action_step H n x]"
  using compile_acc [of H r "and_open # compileAST H l []"] compile_acc [of H l "[and_open]"]
    compile_acc [of H r "or_open # compileAST H l []"] compile_acc [of H l "[or_open]"]
    compile_acc [of H t "[not_mark]"] compile_acc [of H d "compileAST H w [] @ [do_mark]"]
  by (simp_all add: chain_def)

subsection \<open>Reading a chain back\<close>

text \<open>
  A reader of the chain: trees without a branch are recovered from their markers, and at the top one branch. The fuel is the
  length of the chain, one unit per step.
\<close>

fun read_tree :: "nat \<Rightarrow> gate_step list \<Rightarrow> (gate_ast \<times> gate_step list) option" where
  "read_tree 0 ss = None"
| "read_tree (Suc n) [] = None"
| "read_tree (Suc n) (s # ss) =
     (let pair = (\<lambda>node close. case read_tree n ss of
              Some (l, ss1) \<Rightarrow> (case read_tree n ss1 of
                  Some (r, c # ss2) \<Rightarrow> if c = close then Some (node l r, ss2) else None
                | _ \<Rightarrow> None)
            | None \<Rightarrow> None)
      in if step_type s = js ''condition''
         then Some (Condition (the (step_field s)) (the (step_op s)) (the (step_value s)), ss)
         else if step_type s = js ''action'' then Some (ActionNode (the (step_field s)) (step_value s), ss)
         else if s = not_mark then (case read_tree n ss of Some (t, ss1) \<Rightarrow> Some (NotNode t, ss1) | None \<Rightarrow> None)
         else if s = and_open then pair AndNode and_close
         else if s = or_open then pair OrNode or_close
         else None)"

definition read_chain :: "gate_step list \<Rightarrow> gate_ast option" where
  "read_chain ss =
     (case read_tree (length ss) ss of
        Some (t, []) \<Rightarrow> Some t
      | Some (w, c # ss1) \<Rightarrow>
          (if c = do_mark then (case read_tree (length ss) ss1 of Some (d, []) \<Rightarrow> Some (ThenNode w d) | _ \<Rightarrow> None) else None)
      | None \<Rightarrow> None)"

fun branch_free :: "gate_ast \<Rightarrow> bool" where
  "branch_free (AndNode l r) \<longleftrightarrow> branch_free l \<and> branch_free r"
| "branch_free (OrNode l r) \<longleftrightarrow> branch_free l \<and> branch_free r"
| "branch_free (NotNode t) \<longleftrightarrow> branch_free t"
| "branch_free (ThenNode w d) \<longleftrightarrow> False"
| "branch_free _ \<longleftrightarrow> True"

definition plain_rule_tree :: "gate_ast \<Rightarrow> bool" where
  "plain_rule_tree t \<longleftrightarrow> branch_free t \<or> (\<exists>w d. t = ThenNode w d \<and> branch_free w \<and> branch_free d)"

lemma step_types [simp]:
  "step_type (marker t d) = t" "step_type (condition_step H f p v) = js ''condition''" "step_type (action_step H n x) = js ''action''"
  "step_field (condition_step H f p v) = Some f" "step_op (condition_step H f p v) = Some p" "step_value (condition_step H f p v) = Some v"
  "step_field (action_step H n x) = Some n" "step_value (action_step H n x) = x"
  by (simp_all add: marker_def condition_step_def action_step_def)

lemma markers_differ [simp]:
  "marker t d = marker t' d' \<longleftrightarrow> t = t' \<and> d = d'"
  by (simp add: marker_def)

lemma read_tree_chain:
  "branch_free t \<Longrightarrow> length (chain H t) \<le> n \<Longrightarrow> read_tree n (chain H t @ ss) = Some (t, ss)"
proof (induction t arbitrary: n ss)
  case (Condition f p v)
  then show ?case by (cases n) (simp_all add: Let_def)
next
  case (AndNode l r)
  then show ?case by (cases n) (simp_all add: Let_def)
next
  case (OrNode l r)
  then show ?case by (cases n) (simp_all add: Let_def)
next
  case (NotNode t)
  then show ?case by (cases n) (simp_all add: Let_def)
next
  case (ActionNode x v)
  then show ?case by (cases n) (simp_all add: Let_def)
qed simp

text \<open>The compiled chain keeps the rule: a reader that only sees the steps recovers every tree of conditions,
  conjunctions, disjunctions and negations, alone or as the condition and the consequence of one branch.\<close>

theorem chain_can_be_read_back:
  assumes "plain_rule_tree t"
  shows "read_chain (compileAST H t []) = Some t"
proof (cases "branch_free t")
  case True
  then show ?thesis using read_tree_chain [of t H _ "[]"] by (simp add: read_chain_def flip: chain_def)
next
  case False
  then obtain w d where t: "t = ThenNode w d" "branch_free w" "branch_free d" using assms by (auto simp: plain_rule_tree_def)
  have "read_tree (length (chain H t)) (chain H w @ do_mark # chain H d) = Some (w, do_mark # chain H d)"
    "read_tree (length (chain H t)) (chain H d @ []) = Some (d, [])"
    using t read_tree_chain [of d H "length (chain H t)" "[]"] by (simp_all add: read_tree_chain)
  then show ?thesis by (simp add: read_chain_def t(1) flip: chain_def)
qed

lemma chain_can_be_read_back_witness:
  "read_chain (compileAST sample_host (ThenNode (AndNode (Condition (js ''amount'') (js ''gt'') (JStr (js ''10000'')))
        (NotNode (Condition (js ''dept'') (js ''eq'') (JStr (js ''it''))))) (ActionNode (js ''approve'') None)) [])
   = Some (ThenNode (AndNode (Condition (js ''amount'') (js ''gt'') (JStr (js ''10000'')))
        (NotNode (Condition (js ''dept'') (js ''eq'') (JStr (js ''it''))))) (ActionNode (js ''approve'') None))"
  by (rule chain_can_be_read_back) (simp add: plain_rule_tree_def)

text \<open>A branch inside a tree is not kept: it has no marker at its start and a negation none at its end, so a negated branch and
  a branch on a negation compile to the same chain, and so do the two nestings of a branch in a branch.\<close>

theorem nested_branches_are_ambiguous:
  "compileAST H (NotNode (ThenNode w d)) [] = compileAST H (ThenNode (NotNode w) d) []
   \<and> compileAST H (ThenNode (ThenNode a b) c) [] = compileAST H (ThenNode a (ThenNode b c)) []"
  by (simp flip: chain_def)

end
