(* ===== verification/GateTools.thy ===== *)
theory GateTools
  imports GateChain JsNumber
begin

text \<open>
  The structural validators (\<open>validator.ts\<close>), the classification of gate rules (\<open>GateFactoryBridge.ts\<close>) and the tools that
  complete the list of \<open>tools/index.ts\<close>: gate chains, gate rules, schema fields, validation, templates, conversation.
  The call that registers a gate is the parameter \<open>reg\<close>.
\<close>

section \<open>Structural validation\<close>

record validation_error =
  ve_path :: jstr
  ve_message :: jstr
  ve_code :: "jstr option"

definition verr :: "jstr \<Rightarrow> jstr \<Rightarrow> jstr \<Rightarrow> validation_error" where
  "verr p m c = \<lparr>ve_path = p, ve_message = m, ve_code = Some c\<rparr>"

definition named_text :: "json \<Rightarrow> jstr \<Rightarrow> bool" where
  "named_text j k \<longleftrightarrow> (case jfield k j of Some (JStr s) \<Rightarrow> s \<noteq> [] | _ \<Rightarrow> False)"

definition is_object :: "json \<Rightarrow> bool" where
  "is_object j \<longleftrightarrow> (case j of JObj fs \<Rightarrow> True | JArr xs \<Rightarrow> True | _ \<Rightarrow> False)"

text \<open>A result is its list of errors; it is valid when there are none. Reading a property of null rejects: \<open>None\<close>.\<close>

type_synonym validation = "validation_error list option"

fun field_errors :: "nat \<Rightarrow> json list \<Rightarrow> validation" where
  "field_errors i [] = Some []"
| "field_errors i (f # fs) =
     (if f = JNull then None
      else map_option (\<lambda>es.
             (if named_text f (js ''key'') then []
              else [verr (js ''$.fields['' @ decimal i @ js ''].key'') [0x6BCF, 0x4E2A, 0x0020, 0x0066, 0x0069, 0x0065, 0x006C, 0x0064, 0x0020, 0x5FC5, 0x987B, 0x6709, 0x0020, 0x0073, 0x0074, 0x0072, 0x0069, 0x006E, 0x0067, 0x0020, 0x7C7B, 0x578B, 0x7684, 0x0020, 0x006B, 0x0065, 0x0079] (js ''REQUIRED_FIELD'')])
           @ (if named_text f (js ''widget'') then []
              else [verr (js ''$.fields['' @ decimal i @ js ''].widget'') [0x6BCF, 0x4E2A, 0x0020, 0x0066, 0x0069, 0x0065, 0x006C, 0x0064, 0x0020, 0x5FC5, 0x987B, 0x6709, 0x0020, 0x0073, 0x0074, 0x0072, 0x0069, 0x006E, 0x0067, 0x0020, 0x7C7B, 0x578B, 0x7684, 0x0020, 0x0077, 0x0069, 0x0064, 0x0067, 0x0065, 0x0074] (js ''REQUIRED_FIELD'')])
           @ es) (field_errors (Suc i) fs))"

definition validateBlessStarSchema :: "'a jsenv_scheme \<Rightarrow> jstr \<Rightarrow> validation" where
  "validateBlessStarSchema H jsonStr =
     (case parse_json H jsonStr of
        None \<Rightarrow> Some [verr (js ''$'') [0x004A, 0x0053, 0x004F, 0x004E, 0x0020, 0x8BED, 0x6CD5, 0x9519, 0x8BEF] (js ''PARSE_ERR'')]
      | Some j \<Rightarrow>
          (if \<not> is_object j then Some [verr (js ''$'') [0x6839, 0x8282, 0x70B9, 0x5FC5, 0x987B, 0x662F, 0x5BF9, 0x8C61] (js ''TYPE_ERR'')]
           else (let e1 = (case jfield (js ''version'') j of Some (JStr s) \<Rightarrow> []
                    | _ \<Rightarrow> [verr (js ''$.version'') [0x7F3A, 0x5C11, 0x0020, 0x0076, 0x0065, 0x0072, 0x0073, 0x0069, 0x006F, 0x006E, 0x0020, 0x5B57, 0x6BB5, 0x6216, 0x7C7B, 0x578B, 0x975E, 0x0020, 0x0073, 0x0074, 0x0072, 0x0069, 0x006E, 0x0067] (js ''REQUIRED_FIELD'')])
                 in case jfield (js ''fields'') j of
                      None \<Rightarrow> Some e1
                    | Some (JArr fs) \<Rightarrow> map_option (\<lambda>es. e1 @ es) (field_errors 0 fs)
                    | Some v \<Rightarrow> Some (e1 @ [verr (js ''$.fields'') [0x0066, 0x0069, 0x0065, 0x006C, 0x0064, 0x0073, 0x0020, 0x5FC5, 0x987B, 0x662F, 0x6570, 0x7EC4] (js ''TYPE_ERR'')]))))"

definition validateGateRule :: "'a jsenv_scheme \<Rightarrow> jstr \<Rightarrow> validation_error list" where
  "validateGateRule H jsonStr =
     (case parse_json H jsonStr of
        None \<Rightarrow> [verr (js ''$'') [0x0047, 0x0061, 0x0074, 0x0065, 0x0020, 0x89C4, 0x5219, 0x0020, 0x004A, 0x0053, 0x004F, 0x004E, 0x0020, 0x8BED, 0x6CD5, 0x9519, 0x8BEF] (js ''PARSE_ERR'')]
      | Some j \<Rightarrow>
          (if \<not> is_object j then [verr (js ''$'') [0x0047, 0x0061, 0x0074, 0x0065, 0x0020, 0x89C4, 0x5219, 0x6839, 0x8282, 0x70B9, 0x5FC5, 0x987B, 0x662F, 0x5BF9, 0x8C61] (js ''TYPE_ERR'')]
           else (if named_text j (js ''gate_id'') then [] else [verr (js ''$.gate_id'') [0x7F3A, 0x5C11, 0x0020, 0x0067, 0x0061, 0x0074, 0x0065, 0x005F, 0x0069, 0x0064, 0x0020, 0x5B57, 0x6BB5] (js ''REQUIRED_FIELD'')])
              @ (if named_text j (js ''scenario'') then [] else [verr (js ''$.scenario'') [0x7F3A, 0x5C11, 0x0020, 0x0073, 0x0063, 0x0065, 0x006E, 0x0061, 0x0072, 0x0069, 0x006F, 0x0020, 0x5B57, 0x6BB5] (js ''REQUIRED_FIELD'')])
              @ (case jfield (js ''do'') j of Some (JArr xs) \<Rightarrow> [] | _ \<Rightarrow> [verr (js ''$.do'') [0x0064, 0x006F, 0x0020, 0x5FC5, 0x987B, 0x662F, 0x6570, 0x7EC4] (js ''TYPE_ERR'')])))"

definition formatValidationErrors :: "validation_error list \<Rightarrow> jstr" where
  "formatValidationErrors es =
     join_with [0x0A] (map (\<lambda>e. js ''  ['' @ (if falsy_text (ve_code e) then js ''ERR'' else the (ve_code e)) @ js ''] ''
        @ ve_path e @ js '': '' @ ve_message e) es)"

section \<open>Classification of rules\<close>

datatype gate_layer = DefaultLayer | PolicyLayer | CustomLayer

record gate_rule_def =
  gr_field_key :: jstr
  gr_field_type :: "jstr option"
  gr_op :: "jstr option"
  gr_value :: "json option"
  gr_scenario :: "jstr option"
  gr_layer :: "gate_layer option"
  gr_ai_hint :: "jstr option"

definition GATE_FACTORIES :: "(jstr \<times> gate_layer) list" where
  "GATE_FACTORIES = [(js ''default'', DefaultLayer), (js ''policy'', PolicyLayer), (js ''custom'', CustomLayer)]"

definition gateFactoryByName :: "jstr \<Rightarrow> (jstr \<times> gate_layer) option" where
  "gateFactoryByName name = find (\<lambda>f. fst f = name) GATE_FACTORIES"

definition gateFactoryByLayer :: "gate_layer \<Rightarrow> (jstr \<times> gate_layer) option" where
  "gateFactoryByLayer layer = find (\<lambda>f. snd f = layer) GATE_FACTORIES"

definition THRESHOLD_KEYWORDS :: "jstr list" where
  "THRESHOLD_KEYWORDS = [[0x9608, 0x503C], js ''threshold'', [0x9650, 0x5236], js ''limit'', [0x4E0A, 0x9650], [0x4E0B, 0x9650], js ''max'', js ''min'']"
definition APPROVAL_KEYWORDS :: "jstr list" where
  "APPROVAL_KEYWORDS = [[0x5BA1, 0x6279], js ''approve'', js ''approval'', [0x5BA1, 0x6838]]"
definition ALERT_KEYWORDS :: "jstr list" where
  "ALERT_KEYWORDS = [[0x544A, 0x8B66], js ''alert'', js ''warn'', [0x63D0, 0x9192]]"
definition ENUM_CHECK_KEYWORDS :: "jstr list" where
  "ENUM_CHECK_KEYWORDS = [[0x679A, 0x4E3E], js ''enum'', [0x9009, 0x9879]]"
definition FORMAT_KEYWORDS :: "jstr list" where
  "FORMAT_KEYWORDS = [[0x683C, 0x5F0F], js ''format'', [0x6A21, 0x5F0F], js ''pattern'']"

definition keywordMatch :: "jstr \<Rightarrow> jstr list \<Rightarrow> bool" where
  "keywordMatch s ks \<longleftrightarrow> (\<exists>k\<in>set ks. str_includes (ascii_lower s) k)"

definition or_text :: "jstr option \<Rightarrow> jstr \<Rightarrow> jstr" where
  "or_text v d = (if falsy_text v then d else the v)"

definition inferSubCategory :: "gate_rule_def \<Rightarrow> jstr" where
  "inferSubCategory r =
     (let op = or_text (gr_op r) []; hint = or_text (gr_ai_hint r) [] in
      if op \<in> set (map js [''gt'', ''lt'', ''gte'', ''lte'', ''range'']) then js ''threshold''
      else if op \<in> set (map js [''eq'', ''ne'']) \<and> keywordMatch hint ENUM_CHECK_KEYWORDS then js ''enum_check''
      else if op \<in> set (map js [''eq'', ''ne'']) \<and> keywordMatch hint FORMAT_KEYWORDS then js ''format''
      else if op \<in> set (map js [''eq'', ''ne'']) then js ''format''
      else if op = js ''in'' then js ''enum_check''
      else if op = js ''match'' then js ''format''
      else if keywordMatch hint THRESHOLD_KEYWORDS then js ''threshold''
      else if keywordMatch hint APPROVAL_KEYWORDS then js ''approval''
      else if keywordMatch hint ALERT_KEYWORDS then js ''alert''
      else if keywordMatch hint ENUM_CHECK_KEYWORDS then js ''enum_check''
      else if keywordMatch hint FORMAT_KEYWORDS then js ''format''
      else js ''threshold'')"

fun layer_digit :: "gate_layer \<Rightarrow> nat" where
  "layer_digit DefaultLayer = 0" | "layer_digit PolicyLayer = 1" | "layer_digit CustomLayer = 2"

definition buildStableKey :: "gate_rule_def \<Rightarrow> jstr" where
  "buildStableKey r =
     or_text (gr_scenario r) (js ''default'') @ js '':'' @ or_text (Some (gr_field_key r)) (js ''*'') @ js '':''
     @ decimal (layer_digit (case gr_layer r of Some l \<Rightarrow> l | None \<Rightarrow> DefaultLayer)) @ js '':'' @ inferSubCategory r"

fun layer_type :: "gate_layer \<Rightarrow> jstr" where
  "layer_type DefaultLayer = js ''bs_condition''"
| "layer_type PolicyLayer = js ''bs_policy_attr''"
| "layer_type CustomLayer = js ''bs_custom_gate''"

definition json_or :: "json option \<Rightarrow> json \<Rightarrow> json" where
  "json_or v d = (if json_truthy v then the v else d)"

definition gateFactoryProduce :: "'a jsenv_scheme \<Rightarrow> jstr \<times> gate_layer \<Rightarrow> gate_rule_def \<Rightarrow> tool_result" where
  "gateFactoryProduce H factory r =
     (let key = buildStableKey r;
          gate = JObj [(js ''type'', JStr (layer_type (snd factory))), (js ''id'', JStr key), (js ''field_key'', JStr (gr_field_key r)),
            (js ''op'', JStr (or_text (gr_op r) (js ''eq''))), (js ''value'', json_or (gr_value r) (JStr [])),
            (js ''layer'', jnat (layer_digit (snd factory))), (js ''stable_key'', JStr key), (js ''sub_category'', JStr (inferSubCategory r)),
            (js ''domain'', JStr (or_text (gr_scenario r) (js ''default''))), (js ''entity'', JStr (or_text (Some (gr_field_key r)) (js ''*'')))];
          es = validateGateRule H (stringify H (JObj [(js ''gate_id'', JStr key),
            (js ''scenario'', JStr (or_text (gr_scenario r) (js ''production''))),
            (js ''do'', JArr [JObj [(js ''type'', JStr (layer_type (snd factory))), (js ''field'', JStr (gr_field_key r)),
               (js ''operator'', JStr (or_text (gr_op r) (js ''eq''))), (js ''value'', json_or (gr_value r) (JStr []))]])]))
      in if es \<noteq> [] then failure ([0x0047, 0x0061, 0x0074, 0x0065, 0x0020, 0x5DE5, 0x5382, 0x4EA7, 0x51FA, 0x6821, 0x9A8C, 0x5931, 0x8D25, 0x003A] @ [0x0A] @ formatValidationErrors es) else success_with gate)"

section \<open>Tools that register gates\<close>

type_synonym 'w gate_call = "jstr \<Rightarrow> jstr \<Rightarrow> 'w \<Rightarrow> ipc_answer \<times> 'w"

text \<open>The call of the registration: what it answers, or the message of what is thrown.\<close>

definition call_reg :: "'w host \<Rightarrow> 'w gate_call \<Rightarrow> jstr \<Rightarrow> json \<Rightarrow> 'w \<Rightarrow> (json + jstr) \<times> 'w" where
  "call_reg H reg kind rl w =
     (case reg kind (stringify H rl) w of
        (IpcThrows m, w') \<Rightarrow> (Inr m, w')
      | (Answer JNull, w') \<Rightarrow> (Inr (type_error H), w')
      | (Answer a, w') \<Rightarrow> (Inl a, w'))"

definition step_json :: "gate_step \<Rightarrow> json" where
  "step_json s = JObj ([(js ''type'', JStr (step_type s)), (js ''description'', JStr (description s))]
     @ opt_field (js ''field'') (map_option JStr (step_field s)) @ opt_field (js ''op'') (map_option JStr (step_op s))
     @ opt_field (js ''value'') (step_value s))"

text \<open>The condition that stands for the whole chain in the native calls: the first one, or defaults.\<close>

record first_condition =
  fc_field :: jstr
  fc_type :: jstr
  fc_op :: jstr
  fc_value :: json

definition first_condition_of :: "gate_step list \<Rightarrow> first_condition" where
  "first_condition_of steps =
     (let c = find (\<lambda>s. step_type s = js ''condition'') steps;
          field = (case c of Some s \<Rightarrow> step_field s | None \<Rightarrow> None);
          op = (case c of Some s \<Rightarrow> step_op s | None \<Rightarrow> None);
          v = (case c of Some s \<Rightarrow> step_value s | None \<Rightarrow> None)
      in \<lparr>fc_field = or_text field [], fc_type = or_text op (js ''string''), fc_op = or_text op (js ''eq''), fc_value = json_or v (JStr [])\<rparr>)"

definition chain_category :: "jstr \<Rightarrow> first_condition \<Rightarrow> jstr" where
  "chain_category gateId c = inferSubCategory \<lparr>gr_field_key = fc_field c, gr_field_type = Some (js ''string''), gr_op = Some (fc_op c),
     gr_value = Some (fc_value c), gr_scenario = None, gr_layer = None, gr_ai_hint = Some gateId\<rparr>"

text \<open>The two native calls; \<open>None\<close> when both were made, otherwise the message of the failure.\<close>

definition register_chain :: "'w host \<Rightarrow> jstr \<Rightarrow> jstr \<Rightarrow> first_condition \<Rightarrow> 'w \<Rightarrow> jstr option \<times> 'w" where
  "register_chain H gateId scenario c w =
     (let crash = (\<lambda>m. Some ([0x539F, 0x751F, 0x0020, 0x0047, 0x0061, 0x0074, 0x0065, 0x0020, 0x0066, 0x0061, 0x0063, 0x0074, 0x006F, 0x0072, 0x0079, 0x0020, 0x5F02, 0x5E38, 0x003A, 0x0020] @ m));
          refused = (\<lambda>r. Some ([0x539F, 0x751F, 0x0020, 0x0047, 0x0061, 0x0074, 0x0065, 0x0020, 0x0066, 0x0061, 0x0063, 0x0074, 0x006F, 0x0072, 0x0079, 0x0020, 0x5931, 0x8D25, 0x003A, 0x0020] @ text_or H (jfield (js ''error'') r) [0x672A, 0x77E5, 0x9519, 0x8BEF])) in
      case ipc H (js ''create_gate_chain'')
             [(js ''factory_type'', JStr (js ''custom'')), (js ''field_key'', JStr (fc_field c)), (js ''field_type'', JStr (fc_type c)),
              (js ''op'', JStr (fc_op c)), (js ''value'', fc_value c), (js ''scenario'', JStr scenario), (js ''layer'', jnat 2),
              (js ''ai_hint'', JStr gateId)] w of
        (IpcThrows m, w') \<Rightarrow> (crash m, w')
      | (Answer a, w') \<Rightarrow>
          (case (case a of JStr s \<Rightarrow> (case parse_json H s of Some j \<Rightarrow> Inr j | None \<Rightarrow> Inl (syntax_error H s)) | _ \<Rightarrow> Inr a) of
             Inl m \<Rightarrow> (crash m, w')
           | Inr r \<Rightarrow>
               (if \<not> json_truthy (Some r) \<or> \<not> succeeded r then (refused r, w')
                else (let sub = chain_category gateId c;
                          node = JObj [(js ''type'', JStr (js ''bs_custom_gate'')), (js ''id'', JStr gateId), (js ''field_key'', JStr (fc_field c)),
                            (js ''op'', JStr (fc_op c)), (js ''value'', fc_value c), (js ''layer'', jnat 2), (js ''sub_category'', JStr sub)]
                      in case ipc H (js ''gate_map_upsert'')
                                [(js ''stable_key'', JStr (scenario @ js '':'' @ gateId @ js '':'' @ sub)), (js ''node_json'', JStr (stringify H node))] w' of
                           (IpcThrows m, w2) \<Rightarrow> (crash m, w2)
                         | (Answer b, w2) \<Rightarrow> (None, w2)))))"

definition chain_data :: "'w host \<Rightarrow> jstr \<Rightarrow> jstr \<Rightarrow> json \<Rightarrow> gate_step list \<Rightarrow> json" where
  "chain_data H gateId scenario ast steps =
     (let sub = chain_category gateId (first_condition_of steps) in
      JObj [(js ''compiled'', JObj [(js ''steps'', JArr (map step_json steps)), (js ''astJson'', JStr (pretty H ast))]),
        (js ''gate_id'', JStr gateId), (js ''scenario'', JStr scenario), (js ''sub_category'', JStr sub),
        (js ''stable_key'', JStr (scenario @ js '':'' @ gateId @ js '':'' @ sub)),
        (js ''summary'', JStr (join_with [0x0020, 0x2192, 0x0020] (map description steps)))])"

definition remove_chain :: "'w host \<Rightarrow> 'w gate_call \<Rightarrow> jstr \<Rightarrow> 'w \<Rightarrow> tool_outcome \<times> 'w" where
  "remove_chain H reg gateId w =
     (case call_reg H reg (js ''custom'') (JObj [(js ''type'', JStr (js ''custom'')), (js ''gate_id'', JStr gateId), (js ''action'', JStr (js ''remove_rule''))]) w of
        (Inr m, w') \<Rightarrow> (Returned (failure ([0x0047, 0x0061, 0x0074, 0x0065, 0x0020, 0x94FE, 0x5220, 0x9664, 0x5F02, 0x5E38, 0x003A, 0x0020] @ m)), w')
      | (Inl r, w') \<Rightarrow>
          (if succeeded r
           then (Returned (success_with (JObj [(js ''gate_id'', JStr gateId), (js ''action'', JStr (js ''remove_rule'')), (js ''deleted'', JBool True)])), w')
           else (Returned (failure ([0x0047, 0x0061, 0x0074, 0x0065, 0x0020, 0x94FE, 0x5220, 0x9664, 0x5931, 0x8D25, 0x003A, 0x0020] @ text_or H (jfield (js ''error'') r) [0x672A, 0x77E5, 0x9519, 0x8BEF])), w')))"

definition create_gate_chain :: "'w host \<Rightarrow> 'w gate_call \<Rightarrow> 'w tool" where
  "create_gate_chain H reg args w =
     (let gateId = text_or_empty H (map_of args (js ''gate_id''));
          scenario = text_or H (map_of args (js ''scenario'')) (js ''production'');
          action = text_or H (map_of args (js ''action'')) (js ''add_rule'');
          astJson = text_or_empty H (map_of args (js ''ast_json''));
          fail = (\<lambda>m. (Returned (failure m), w))
      in if gateId = [] then fail [0x7F3A, 0x5C11, 0x0020, 0x0067, 0x0061, 0x0074, 0x0065, 0x005F, 0x0069, 0x0064, 0x0020, 0x53C2, 0x6570]
         else if action = js ''remove_rule'' then remove_chain H reg gateId w
         else if astJson = [] then fail [0x7F3A, 0x5C11, 0x0020, 0x0061, 0x0073, 0x0074, 0x005F, 0x006A, 0x0073, 0x006F, 0x006E, 0x0020, 0x53C2, 0x6570]
         else (case parse_json H astJson of
             None \<Rightarrow> fail ([0x0041, 0x0053, 0x0054, 0x0020, 0x004A, 0x0053, 0x004F, 0x004E, 0x0020, 0x8BED, 0x6CD5, 0x89E3, 0x6790, 0x5931, 0x8D25, 0x003A, 0x0020] @ take 100 astJson)
           | Some ast \<Rightarrow>
               (case validateAST ast of
                  Some e \<Rightarrow> fail ([0x0041, 0x0053, 0x0054, 0x0020, 0x6821, 0x9A8C, 0x5931, 0x8D25, 0x003A, 0x0020] @ e)
                | None \<Rightarrow>
                    (let steps = compileAST H (the (as_ast ast)) [] in
                     case register_chain H gateId scenario (first_condition_of steps) w of
                       (Some m, w') \<Rightarrow> (Returned (failure m), w')
                     | (None, w') \<Rightarrow> (Returned (success_with (chain_data H gateId scenario ast steps)), w')))))"

definition opt_text :: "'w host \<Rightarrow> json option \<Rightarrow> jstr option" where
  "opt_text H v = (if json_truthy v then Some (string_of H (the v)) else None)"

definition checked_rule :: "jstr \<Rightarrow> jstr \<Rightarrow> jstr \<Rightarrow> jstr \<Rightarrow> jstr \<Rightarrow> json" where
  "checked_rule g sc f p v = JObj [(js ''gate_id'', JStr g), (js ''scenario'', JStr sc),
     (js ''do'', JArr [JObj [(js ''type'', JStr (js ''meta_rule'')), (js ''field'', JStr f), (js ''operator'', JStr p), (js ''value'', JStr v)]])]"

definition update_gate_rule :: "'w host \<Rightarrow> 'w gate_call \<Rightarrow> 'w tool" where
  "update_gate_rule H reg args w =
     (let gate_id = text_or_empty H (map_of args (js ''gate_id''));
          scenario = text_or_empty H (map_of args (js ''scenario''));
          action = text_or_empty H (map_of args (js ''action''));
          field = opt_text H (map_of args (js ''field'')); operator = opt_text H (map_of args (js ''operator''));
          v = opt_text H (map_of args (js ''value''));
          gateJson = pretty H (JObj ([(js ''gate_id'', JStr gate_id), (js ''scenario'', JStr scenario), (js ''action'', JStr action)]
            @ opt_field (js ''field'') (map_option JStr field)
            @ opt_field (js ''condition'') (if falsy_text operator then None
                else Some (JObj ((js ''operator'', JStr (the operator)) # opt_field (js ''value'') (map_option JStr v))))));
          es = (if action = js ''remove_rule'' then []
                else validateGateRule H (stringify H (checked_rule gate_id scenario (or_text field (js ''target'')) (or_text operator (js ''eq'')) (or_text v []))));
          ok = Returned (success_with (JObj ([(js ''gateJson'', JStr gateJson), (js ''gate_id'', JStr gate_id), (js ''scenario'', JStr scenario),
            (js ''action'', JStr action)] @ opt_field (js ''field'') (map_option JStr field))));
          send = (\<lambda>rl what. case call_reg H reg (js ''policy'') rl w of
              (Inr m, w') \<Rightarrow> (Returned (failure ([0x0047, 0x0061, 0x0074, 0x0065, 0x0020, 0x6CE8, 0x518C, 0x5F02, 0x5E38, 0x003A, 0x0020] @ m)), w')
            | (Inl r, w') \<Rightarrow> (if succeeded r then (ok, w')
                else (Returned (failure (what @ text_or H (jfield (js ''error'') r) [0x672A, 0x77E5, 0x9519, 0x8BEF])), w')))
      in if es \<noteq> [] then (Returned (failure ([0x0047, 0x0061, 0x0074, 0x0065, 0x0020, 0x89C4, 0x5219, 0x672A, 0x80FD, 0x901A, 0x8FC7, 0x6821, 0x9A8C, 0xFF1A] @ [0x0A] @ formatValidationErrors es)), w)
         else if action = js ''remove_rule''
         then send (JObj [(js ''type'', JStr (js ''policy'')), (js ''gate_id'', JStr gate_id), (js ''action'', JStr (js ''remove_rule''))])
                [0x0047, 0x0061, 0x0074, 0x0065, 0x0020, 0x5220, 0x9664, 0x5931, 0x8D25, 0x003A, 0x0020]
         else if \<not> falsy_text field \<and> \<not> falsy_text operator
         then send (JObj [(js ''type'', JStr (js ''policy'')), (js ''gate_id'', JStr gate_id),
                  (js ''scenario'', JStr (or_text (Some scenario) (js ''production''))), (js ''action'', JStr (or_text (Some action) (js ''add_rule''))),
                  (js ''metadata_rules'', JArr [JObj [(js ''instr_name'', JStr gate_id), (js ''key'', JStr (the field)),
                     (js ''op'', JStr (the operator)), (js ''value'', JStr (or_text v []))]])])
                [0x0047, 0x0061, 0x0074, 0x0065, 0x0020, 0x6CE8, 0x518C, 0x5931, 0x8D25, 0x003A, 0x0020]
         else (ok, w))"

section \<open>The other tools\<close>

text \<open>\<open>/^[a-zA-Z_][a-zA-Z0-9_]*$/\<close>\<close>

definition identifier_start :: "16 word \<Rightarrow> bool" where
  "identifier_start c \<longleftrightarrow> (0x41 \<le> c \<and> c \<le> 0x5A) \<or> (0x61 \<le> c \<and> c \<le> 0x7A) \<or> c = 0x5F"

definition is_identifier :: "jstr \<Rightarrow> bool" where
  "is_identifier s \<longleftrightarrow> (case s of [] \<Rightarrow> False | c # cs \<Rightarrow> identifier_start c \<and> list_all (\<lambda>d. identifier_start d \<or> is_digit d) cs)"

definition create_schema_field :: "'w host \<Rightarrow> 'w tool" where
  "create_schema_field H args w =
     (let key = text_or_empty H (map_of args (js ''key''));
          widget = text_or_empty H (map_of args (js ''widget''));
          label = text_or_empty H (map_of args (js ''label''));
          required = (case map_of args (js ''required'') of None \<Rightarrow> JBool False | Some JNull \<Rightarrow> JBool False | Some v \<Rightarrow> v);
          optional = (\<lambda>k. let v = map_of args k in if json_truthy v then [(k, the v)] else []);
          base = [(js ''key'', JStr key), (js ''widget'', JStr widget), (js ''label'', JStr label)];
          fieldJson = pretty H (JObj (base @ [(js ''required'', required)] @ optional (js ''placeholder'')
            @ optional (js ''description'') @ optional (js ''default_value'')))
      in if \<not> is_identifier key
         then (Returned (failure ([0x5B57, 0x6BB5, 0x6807, 0x8BC6, 0x7B26, 0x0020, 0x0022] @ key @ [0x0022, 0x0020, 0x683C, 0x5F0F, 0x65E0, 0x6548, 0xFF0C, 0x987B, 0x4EE5, 0x5B57, 0x6BCD, 0x6216, 0x4E0B, 0x5212, 0x7EBF, 0x5F00, 0x5934, 0xFF0C, 0x4EC5, 0x542B, 0x5B57, 0x6BCD, 0x6570, 0x5B57, 0x4E0B, 0x5212, 0x7EBF])), w)
         else (case validateBlessStarSchema H (stringify H (JObj [(js ''version'', JStr (js ''1.0'')), (js ''title'', JStr [0x0053, 0x0063, 0x0068, 0x0065, 0x006D, 0x0061, 0x0020, 0x5B57, 0x6BB5]),
                      (js ''fields'', JArr [JObj base])])) of
             None \<Rightarrow> (Raised, w)
           | Some es \<Rightarrow>
               (if es \<noteq> [] then (Returned (failure ([0x5B57, 0x6BB5, 0x5B9A, 0x4E49, 0x672A, 0x80FD, 0x901A, 0x8FC7, 0x0020, 0x0053, 0x0063, 0x0068, 0x0065, 0x006D, 0x0061, 0x0020, 0x6821, 0x9A8C, 0xFF1A] @ [0x0A] @ formatValidationErrors es)), w)
                else (Returned (success_with (JObj [(js ''fieldJson'', JStr fieldJson), (js ''field'', JObj (base @ [(js ''required'', required)]))])), w))))"

definition validate_config :: "'w host \<Rightarrow> 'w tool" where
  "validate_config H args w =
     (let configJson = trim (text_or_empty H (map_of args (js ''config_json'')));
          mode = text_or H (map_of args (js ''mode'')) (js ''schema'')
      in if configJson = [] then (Returned (failure (js ''config_json '' @ [0x4E0D, 0x80FD, 0x4E3A, 0x7A7A])), w)
         else (case (if mode = js ''schema'' \<or> mode = js ''all'' then validateBlessStarSchema H configJson else Some []) of
             None \<Rightarrow> (Raised, w)
           | Some es \<Rightarrow>
               (let gs = (if mode = js ''gate'' \<or> mode = js ''all'' then validateGateRule H configJson else []);
                    all = (if es = [] then [] else [[0x0053, 0x0063, 0x0068, 0x0065, 0x006D, 0x0061, 0x0020, 0x6821, 0x9A8C, 0x5931, 0x8D25, 0xFF1A] @ [0x0A] @ formatValidationErrors es])
                        @ (if gs = [] then [] else [[0x0047, 0x0061, 0x0074, 0x0065, 0x0020, 0x6821, 0x9A8C, 0x5931, 0x8D25, 0xFF1A] @ [0x0A] @ formatValidationErrors gs])
                in if all \<noteq> []
                   then (Returned (failure ([0x914D, 0x7F6E, 0x6821, 0x9A8C, 0x672A, 0x901A, 0x8FC7, 0xFF1A] @ [0x0A] @ join_with ([0x0A] @ js ''---'' @ [0x0A]) all)), w)
                   else (Returned (success_with (JObj [(js ''valid'', JBool True), (js ''message'', JStr [0x914D, 0x7F6E, 0x6821, 0x9A8C, 0x901A, 0x8FC7, 0x0020, 0x2713]), (js ''mode'', JStr mode)])), w))))"

text \<open>\<open>Math.max(1, Math.min(20, Number(n) || 3))\<close>; the length of the array is the integer part.\<close>

definition field_count :: "'w host \<Rightarrow> json option \<Rightarrow> jsnum" where
  "field_count H v =
     (let n = (case v of None \<Rightarrow> NaN | Some j \<Rightarrow> to_number H j)
      in nmax (Fin 1) (nmin (Fin 20) (if n = NaN \<or> n = Fin 0 then Fin 3 else n)))"

definition array_length :: "jsnum \<Rightarrow> nat" where
  "array_length x = (case x of Fin q \<Rightarrow> nat \<lfloor>q\<rfloor> | _ \<Rightarrow> 0)"

definition generate_normalizer_template :: "'w host \<Rightarrow> 'w tool" where
  "generate_normalizer_template H args w =
     (let vendor = trim (text_or_empty H (map_of args (js ''vendor_name'')));
          version = text_or H (map_of args (js ''version'')) (js ''1.0'');
          mapping = map (\<lambda>i. JObj [(js ''source_field'', JStr (js ''source_field_'' @ decimal (Suc i))),
            (js ''target_field'', JStr (js ''target_field_'' @ decimal (Suc i))), (js ''type'', JStr (js ''string'')),
            (js ''transform'', JStr []), (js ''required'', JBool False)]) [0..<array_length (field_count H (map_of args (js ''field_count'')))];
          template = JObj [(js ''source_vendor'', JStr vendor), (js ''version'', JStr version), (js ''normalizer_id'', JStr (js ''normalizer_'' @ vendor)),
            (js ''description'', JStr (vendor @ [0x0020, 0x914D, 0x7F6E, 0x5F52, 0x4E00, 0x5316, 0x6A21, 0x677F])), (js ''mapping'', JArr mapping)]
      in if \<not> is_identifier vendor
         then (Returned (failure ([0x5382, 0x5546, 0x540D, 0x79F0, 0x0020, 0x0022] @ vendor @ [0x0022, 0x0020, 0x683C, 0x5F0F, 0x65E0, 0x6548, 0xFF0C, 0x987B, 0x4EE5, 0x5B57, 0x6BCD, 0x6216, 0x4E0B, 0x5212, 0x7EBF, 0x5F00, 0x5934, 0xFF0C, 0x4EC5, 0x542B, 0x5B57, 0x6BCD, 0x6570, 0x5B57, 0x4E0B, 0x5212, 0x7EBF])), w)
         else (Returned (success_with (JObj [(js ''template'', template), (js ''templateJson'', JStr (pretty H template)),
            (js ''instructions'', JStr ([0x8BF7, 0x5C06, 0x0020, 0x006D, 0x0061, 0x0070, 0x0070, 0x0069, 0x006E, 0x0067, 0x0020, 0x4E2D, 0x7684, 0x0020, 0x0073, 0x006F, 0x0075, 0x0072, 0x0063, 0x0065, 0x005F, 0x0066, 0x0069, 0x0065, 0x006C, 0x0064, 0x0020, 0x66FF, 0x6362, 0x4E3A] @ vendor @ [0x7684, 0x539F, 0x59CB, 0x5B57, 0x6BB5, 0x540D, 0xFF0C, 0x0074, 0x0061, 0x0072, 0x0067, 0x0065, 0x0074, 0x005F, 0x0066, 0x0069, 0x0065, 0x006C, 0x0064, 0x0020, 0x66FF, 0x6362, 0x4E3A, 0x76EE, 0x6807, 0x0020, 0x0053, 0x0063, 0x0068, 0x0065, 0x006D, 0x0061, 0x0020, 0x5B57, 0x6BB5, 0x540D]))])), w))"

definition chat :: "'w host \<Rightarrow> 'w tool" where
  "chat H args w = (Returned (success_with (JObj [(js ''reply'', JStr (text_or_empty H (map_of args (js ''reply''))))])), w)"

definition ask_user :: "'w host \<Rightarrow> 'w tool" where
  "ask_user H args w =
     (Returned (success_with (JObj ([(js ''awaiting'', JBool True), (js ''question'', JStr (text_or_empty H (map_of args (js ''question''))))]
        @ opt_field (js ''candidates'') (map_of args (js ''candidates''))
        @ [(js ''originalSubject'', JStr (text_or_empty H (map_of args (js ''original_subject'')))),
           (js ''fallbackMessage'', JStr (text_or_empty H (map_of args (js ''fallback_message''))))]))), w)"

definition list_configs :: "'w host \<Rightarrow> 'w tool" where
  "list_configs H args w =
     (let prefix = text_or_empty H (map_of args (js ''prefix'')) in
      case call_host H (js ''list_configs'') (if prefix = [] then [] else [(js ''prefix'', JStr prefix)]) w of
        (Inr m, w') \<Rightarrow> (Returned (failure ([0x8BFB, 0x53D6, 0x914D, 0x7F6E, 0x65F6, 0x51FA, 0x9519, 0x003A, 0x0020] @ m)), w')
      | (Inl a, w') \<Rightarrow>
          (if succeeded a
           then (case parsed_result H a of
                   Inr m \<Rightarrow> (Returned (failure ([0x8BFB, 0x53D6, 0x914D, 0x7F6E, 0x65F6, 0x51FA, 0x9519, 0x003A, 0x0020] @ m)), w')
                 | Inl d \<Rightarrow> (Returned \<lparr>tr_success = True, tr_error = None, tr_data = d\<rparr>, w'))
           else (Returned (failure (text_or H (jfield (js ''result'') a) [0x8BFB, 0x53D6, 0x914D, 0x7F6E, 0x5931, 0x8D25])), w')))"

definition read_diagnostics :: "'w host \<Rightarrow> 'w tool" where
  "read_diagnostics H args w =
     (let scope = text_or H (map_of args (js ''scope'')) (js ''all'');
          n = (case map_of args (js ''limit'') of None \<Rightarrow> NaN | Some j \<Rightarrow> to_number H j);
          limit = (if n = NaN \<or> n = Fin 0 then Fin 20 else n)
      in case call_host H (js ''read_diagnostics'') [(js ''scope'', JStr scope), (js ''limit'', JNum limit)] w of
           (Inr m, w') \<Rightarrow> (Returned (failure ([0x8BFB, 0x53D6, 0x8BCA, 0x65AD, 0x65F6, 0x51FA, 0x9519, 0x003A, 0x0020] @ m)), w')
         | (Inl a, w') \<Rightarrow>
             (if succeeded a
              then (case parsed_result H a of
                      Inr m \<Rightarrow> (Returned (failure ([0x8BFB, 0x53D6, 0x8BCA, 0x65AD, 0x65F6, 0x51FA, 0x9519, 0x003A, 0x0020] @ m)), w')
                    | Inl d \<Rightarrow>
                        (let ds = (case d of Some (JArr xs) \<Rightarrow> JArr xs
                               | Some j \<Rightarrow> json_or (jfield (js ''diagnostics'') j) (JArr []) | None \<Rightarrow> JArr [])
                         in (Returned (success_with (JObj ([(js ''scope'', JStr scope)] @ opt_field (js ''count'') (jlength (Some ds))
                              @ [(js ''diagnostics'', ds)]))), w')))
              else (Returned (failure (text_or H (jfield (js ''result'') a) [0x8BFB, 0x53D6, 0x8BCA, 0x65AD, 0x4FE1, 0x606F, 0x5931, 0x8D25])), w')))"

text \<open>The list of the tools, in its order.\<close>

definition FUNCTION_TOOLS :: "'w host \<Rightarrow> 'w gate_call \<Rightarrow> 'w toolbox" where
  "FUNCTION_TOOLS H reg =
     [(js ''create_schema_field'', create_schema_field H), (js ''create_gate_chain'', create_gate_chain H reg),
      (js ''update_gate_rule'', update_gate_rule H reg), (js ''validate_config'', validate_config H),
      (js ''generate_normalizer_template'', generate_normalizer_template H), (js ''chat'', chat H),
      (js ''write_config_value'', write_config_value H), (js ''read_config_value'', read_config_value H),
      (js ''list_directory'', list_directory H), (js ''read_file'', read_file H),
      (js ''search_content'', search_content H), (js ''find_files'', find_files H), (js ''run_terminal'', run_terminal H),
      (js ''read_diagnostics'', read_diagnostics H), (js ''list_configs'', list_configs H), (js ''ask_user'', ask_user H)]"

section \<open>What is registered\<close>

lemma first_condition_steps:
  "find (\<lambda>s. step_type s = js ''condition'') (compileAST H t []) = find (\<lambda>s. step_type s = js ''condition'') (chain H t)"
  by (simp add: chain_def)

text \<open>The first condition of a tree, in the order of its text.\<close>

fun leading_condition :: "gate_ast \<Rightarrow> (jstr \<times> jstr \<times> json) option" where
  "leading_condition (Condition f p v) = Some (f, p, v)"
| "leading_condition (AndNode l r) = (case leading_condition l of None \<Rightarrow> leading_condition r | c \<Rightarrow> c)"
| "leading_condition (OrNode l r) = (case leading_condition l of None \<Rightarrow> leading_condition r | c \<Rightarrow> c)"
| "leading_condition (NotNode t) = leading_condition t"
| "leading_condition (ThenNode w d) = (case leading_condition w of None \<Rightarrow> leading_condition d | c \<Rightarrow> c)"
| "leading_condition (ActionNode n v) = None"

lemma find_append: "find P (xs @ ys) = (case find P xs of None \<Rightarrow> find P ys | c \<Rightarrow> c)"
  by (induction xs) auto

lemma leading_step:
  "find (\<lambda>s. step_type s = js ''condition'') (chain H t) = map_option (\<lambda>(f, p, v). condition_step H f p v) (leading_condition t)"
  by (induction t) (simp_all add: find_append split: option.splits)

lemma first_condition_leading:
  "leading_condition t = leading_condition t' \<Longrightarrow> first_condition_of (compileAST H t []) = first_condition_of (compileAST H t' [])"
  by (simp add: first_condition_of_def first_condition_steps leading_step)

text \<open>C37: A gate chain is registered by its first condition alone: two rule trees that begin with the same
  condition, whatever connectives, further conditions, negations and actions they hold, make the same native calls, end in the
  same state, and are reported alike. The rest of the tree is in the answer to the model only.\<close>

theorem chain_registers_its_first_condition:
  assumes "parse_json H a1 = Some j1" "denotes j1 t1" "parse_json H a2 = Some j2" "denotes j2 t2"
    and "leading_condition t1 = leading_condition t2" "a1 \<noteq> []" "a2 \<noteq> []"
  shows "let call = (\<lambda>a. create_gate_chain H reg [(js ''gate_id'', JStr g), (js ''ast_json'', JStr a)] w)
    in snd (call a1) = snd (call a2) \<and> (\<exists>r1 r2. fst (call a1) = Returned r1 \<and> fst (call a2) = Returned r2
       \<and> tr_success r1 = tr_success r2 \<and> tr_error r1 = tr_error r2)"
proof -
  have v: "validateAST j1 = None" "as_ast j1 = Some t1" "validateAST j2 = None" "as_ast j2 = Some t2"
    using assms denotes_valid denotes_cast by auto
  show ?thesis
    using assms v first_condition_leading [OF assms(5), of H]
    by (simp add: create_gate_chain_def text_or_def Let_def success_with_def failure_def split: option.splits prod.splits)
qed

definition json_condition :: "string \<Rightarrow> string \<Rightarrow> string \<Rightarrow> json" where
  "json_condition f p v = JObj [(js ''type'', JStr (js ''condition'')), (js ''field'', JStr (js f)), (js ''op'', JStr (js p)), (js ''value'', JStr (js v))]"

definition two_trees :: "unit host" where
  "two_trees = sample_host\<lparr>parse_json := \<lambda>s. if s = js ''one'' then Some (json_condition ''amount'' ''gt'' ''10000'')
     else Some (JObj [(js ''type'', JStr (js ''and'')), (js ''left'', json_condition ''amount'' ''gt'' ''10000''),
                      (js ''right'', json_condition ''dept'' ''eq'' ''finance'')])\<rparr>"

lemma chain_registers_its_first_condition_witness:
  "let call = (\<lambda>a. create_gate_chain two_trees (\<lambda>g f w. (Answer JNull, w)) [(js ''gate_id'', JStr (js ''g'')), (js ''ast_json'', JStr (js a))] ())
   in \<exists>r1 r2. fst (call ''one'') = Returned r1 \<and> fst (call ''two'') = Returned r2 \<and> tr_success r1 = tr_success r2"
proof -
  let ?c = "Condition (js ''amount'') (js ''gt'') (JStr (js ''10000''))"
  let ?d = "Condition (js ''dept'') (js ''eq'') (JStr (js ''finance''))"
  have p: "parse_json two_trees (js ''one'') = Some (json_condition ''amount'' ''gt'' ''10000'')"
    "parse_json two_trees (js ''two'') = Some (JObj [(js ''type'', JStr (js ''and'')), (js ''left'', json_condition ''amount'' ''gt'' ''10000''),
                      (js ''right'', json_condition ''dept'' ''eq'' ''finance'')])"
    by (simp_all add: two_trees_def)
  have d: "denotes (json_condition ''amount'' ''gt'' ''10000'') ?c"
    "denotes (JObj [(js ''type'', JStr (js ''and'')), (js ''left'', json_condition ''amount'' ''gt'' ''10000''),
                      (js ''right'', json_condition ''dept'' ''eq'' ''finance'')]) (AndNode ?c ?d)"
    by (rule valid_cast_denotes; simp add: json_condition_def text_field_def Let_def)+
  show ?thesis
    using chain_registers_its_first_condition [OF p(1) d(1) p(2) d(2)  , of "\<lambda>g f w. (Answer JNull, w)" "js ''g''" "()"] by (auto simp: Let_def)
qed

section \<open>Tools that report success without an effect\<close>

lemma rule_check_passes:
  assumes "r = checked_rule g sc f p v" "parse_json H (stringify H r) = Some r" "g \<noteq> []" "sc \<noteq> []"
  shows "validateGateRule H (stringify H r) = []"
  using assms by (simp add: validateGateRule_def checked_rule_def is_object_def named_text_def jfield_def)

text \<open>A rule that is added or updated without a field or without an operator is reported as updated, and no call is made: nothing is
  registered. (The text of the rule that is checked is assumed to parse to what was written.)\<close>

theorem incomplete_rule_is_reported_as_updated:
  assumes "rl = checked_rule g sc (or_text (opt_text H (map_of args (js ''field''))) (js ''target''))
      (or_text (opt_text H (map_of args (js ''operator''))) (js ''eq'')) (or_text (opt_text H (map_of args (js ''value''))) [])"
    and "parse_json H (stringify H rl) = Some rl" "g \<noteq> []" "sc \<noteq> []" "act \<noteq> js ''remove_rule''"
    and "map_of args (js ''gate_id'') = Some (JStr g)" "map_of args (js ''scenario'') = Some (JStr sc)"
    and "map_of args (js ''action'') = Some (JStr act)"
    and "text_or_empty H (map_of args (js ''field'')) = [] \<or> text_or_empty H (map_of args (js ''operator'')) = []"
  shows "\<exists>r. update_gate_rule H reg args w = (Returned r, w) \<and> tr_success r"
proof -
  have "falsy_text (opt_text H (map_of args k)) = (text_or_empty H (map_of args k) = [])" for k
    by (simp add: opt_text_def text_or_empty_def falsy_text_def)
  then show ?thesis
    using assms(3-) rule_check_passes [OF assms(1-4)] by (auto simp: update_gate_rule_def Let_def assms(1))
qed

definition one_rule :: "unit host" where
  "one_rule = sample_host\<lparr>parse_json := \<lambda>s. Some (checked_rule (js ''g'') (js ''prod'') (js ''price'') (js ''eq'') (js ''5''))\<rparr>"

lemma incomplete_rule_is_reported_as_updated_witness:
  "\<exists>r. update_gate_rule one_rule (\<lambda>g f w. (Answer JNull, w)) [(js ''gate_id'', JStr (js ''g'')), (js ''scenario'', JStr (js ''prod'')), (js ''action'', JStr (js ''add_rule'')),
      (js ''field'', JStr (js ''price'')), (js ''value'', JStr (js ''5''))] () = (Returned r, ()) \<and> tr_success r"
  by (rule incomplete_rule_is_reported_as_updated [OF refl])
    (simp_all add: one_rule_def or_text_def opt_text_def falsy_text_def string_of_def text_or_empty_def)

text \<open>The validation tool checks what its mode names and nothing else: it succeeds exactly when the schema check (modes schema
  and all) and the rule check (modes gate and all) find no error; with any other mode every text that is not blank is valid.\<close>

theorem validation_modes:
  assumes "cfg = trim (text_or_empty H (map_of args (js ''config_json'')))" "cfg \<noteq> []"
    and "md = text_or H (map_of args (js ''mode'')) (js ''schema'')"
  shows "(\<exists>r. fst (validate_config H args w) = Returned r \<and> tr_success r)
    = ((md \<in> {js ''schema'', js ''all''} \<longrightarrow> validateBlessStarSchema H cfg = Some [])
     \<and> (md \<in> {js ''gate'', js ''all''} \<longrightarrow> validateGateRule H cfg = []))"
  using assms by (auto simp: validate_config_def Let_def split: option.splits)

lemma validation_modes_witness:
  "\<exists>r. fst (validate_config sample_host [(js ''config_json'', JStr (js '' {'')), (js ''mode'', JStr (js ''strict''))] ()) = Returned r \<and> tr_success r"
proof -
  have "trim (js '' {'') = js ''{''" by code_simp
  then show ?thesis
    using validation_modes [of "js ''{''" sample_host "[(js ''config_json'', JStr (js '' {'')), (js ''mode'', JStr (js ''strict''))]" "js ''strict''" "()"]
    by (simp add: text_or_def string_of_def)
qed

text \<open>A generated template has between one and twenty mappings, whatever the requested count converts to: a fraction, a negative number,
  an infinity or no number at all.\<close>

theorem template_size: "array_length (field_count H v) \<in> {1..20}"
proof -
  have "array_length (nmax (Fin 1) (nmin (Fin 20) x)) \<in> {1..20}" if "x \<noteq> NaN" for x
  proof (cases x)
    case (Fin q)
    have "nat \<lfloor>q\<rfloor> \<le> 20" if "q < 20" using that by linarith
    moreover have "1 \<le> nat \<lfloor>q\<rfloor>" if "1 \<le> q" using that by linarith
    ultimately show ?thesis using Fin by (auto simp: nmax_def nmin_def array_length_def not_less)
  qed (use that in \<open>simp_all add: nmax_def nmin_def array_length_def\<close>)
  then show ?thesis by (simp add: field_count_def Let_def)
qed

end
