(* ===== verification/EditorHost.thy ===== *)
theory EditorHost
  imports GateTools
begin

text \<open>
  The main process of the editor (\<open>app/editor/electron/main.ts\<close>): the application session, the batch commit, and
  the handler \<open>executeTool\<close> that serves the assistant's tools: values, gates, schema, directories, commands. The native
  addon, the file system and the shell are parameters; a call that throws yields its message on the left. The
  commands that were handed to the shell and the messages that were sent to the window are recorded in the state.
\<close>

section \<open>State and surroundings\<close>

record 'n main_state =
  native :: 'n
  appSession :: "int option"
  attachCtx :: "int option"
  window_open :: bool
  sent :: "(jstr \<times> jstr) list"
  executed :: "(jstr \<times> jstr) list"

datatype shell_result = Finished jstr | ShellFailed jstr jstr nat

record 'n addon =
  addon_loads :: "'n \<Rightarrow> jstr + unit"
  session_ok :: "int \<Rightarrow> 'n \<Rightarrow> bool"
  session_create :: "jstr \<Rightarrow> 'n \<Rightarrow> (jstr + int option) \<times> 'n"
  session_ctx :: "int \<Rightarrow> 'n \<Rightarrow> jstr + int"
  session_destroy :: "int \<Rightarrow> 'n \<Rightarrow> (jstr + unit) \<times> 'n"
  commit_batch :: "int option \<Rightarrow> jstr \<Rightarrow> 'n \<Rightarrow> (jstr + jstr option) \<times> 'n"
  persist_write :: "jstr \<Rightarrow> 'n \<Rightarrow> (jstr + unit) \<times> 'n"
  write_value :: "jstr \<Rightarrow> jstr \<Rightarrow> 'n \<Rightarrow> (jstr + unit) \<times> 'n"
  read_value :: "jstr \<Rightarrow> 'n \<Rightarrow> jstr + jstr option"
  schema_json :: "'n \<Rightarrow> jstr + jstr"
  register_field :: "jstr \<Rightarrow> nat \<Rightarrow> jstr \<Rightarrow> jstr \<Rightarrow> bool \<Rightarrow> 'n \<Rightarrow> (jstr + unit) \<times> 'n"
  register_gate :: "int option \<Rightarrow> jstr \<Rightarrow> jstr \<Rightarrow> 'n \<Rightarrow> (jstr + json) \<times> 'n"
  native_call :: "jstr \<Rightarrow> jstr list \<Rightarrow> 'n \<Rightarrow> (jstr + json) \<times> 'n"
  read_dir :: "jstr \<Rightarrow> 'n \<Rightarrow> (jstr \<times> bool \<times> nat) list option"
  exec_shell :: "jstr \<Rightarrow> jstr \<Rightarrow> 'n \<Rightarrow> shell_result \<times> 'n"
  path_resolve :: "jstr \<Rightarrow> jstr"
  manifest_path :: jstr
  project_root :: jstr
  workspace_root :: jstr

definition new_main :: "'n \<Rightarrow> 'n main_state" where
  "new_main n = \<lparr>native = n, appSession = None, attachCtx = None, window_open = False, sent = [], executed = []\<rparr>"

section \<open>The application session\<close>

text \<open>The handle is stored before its context is asked for, so a throw there leaves the handle behind.\<close>

definition ensureAppSession :: "'n addon \<Rightarrow> 'n main_state \<Rightarrow> bool \<times> 'n main_state" where
  "ensureAppSession N S =
     (if (case appSession S of None \<Rightarrow> False | Some h \<Rightarrow> session_ok N h (native S)) then (True, S)
      else (case session_create N (manifest_path N) (native S) of
          (Inl m, n) \<Rightarrow> (False, S\<lparr>native := n\<rparr>)
        | (Inr None, n) \<Rightarrow> (False, S\<lparr>native := n\<rparr>)
        | (Inr (Some h), n) \<Rightarrow>
            (case session_ctx N h n of
               Inl m \<Rightarrow> (False, S\<lparr>native := n, appSession := Some h\<rparr>)
             | Inr c \<Rightarrow> (True, S\<lparr>native := n, appSession := Some h, attachCtx := Some c\<rparr>))))"

definition destroyAppSession :: "'n addon \<Rightarrow> 'n main_state \<Rightarrow> 'n main_state" where
  "destroyAppSession N S =
     (case appSession S of
        None \<Rightarrow> S
      | Some h \<Rightarrow> S\<lparr>native := snd (session_destroy N h (native S)), appSession := None, attachCtx := None\<rparr>)"

definition jhandle :: "int option \<Rightarrow> json" where
  "jhandle h = (case h of None \<Rightarrow> JNull | Some i \<Rightarrow> JNum (Fin (of_int i)))"

definition appSessionCreate :: "'n addon \<Rightarrow> 'n main_state \<Rightarrow> json \<times> 'n main_state" where
  "appSessionCreate N S =
     (case addon_loads N (native S) of
        Inl m \<Rightarrow> (JObj [(js ''success'', JBool False), (js ''handle'', JNull)], S)
      | Inr _ \<Rightarrow> (let (ok, S1) = ensureAppSession N S in
          (if ok then JObj [(js ''success'', JBool True), (js ''handle'', jhandle (appSession S1))]
           else JObj [(js ''success'', JBool False), (js ''handle'', JNull)], S1)))"

definition appSessionDestroy :: "'n addon \<Rightarrow> 'n main_state \<Rightarrow> json \<times> 'n main_state" where
  "appSessionDestroy N S =
     (case addon_loads N (native S) of
        Inl m \<Rightarrow> (JObj [(js ''success'', JBool False)], S)
      | Inr _ \<Rightarrow> (JObj [(js ''success'', JBool True)], destroyAppSession N S))"

text \<open>A handler that needs a session asks for one only when there is no handle.\<close>

definition with_session :: "'n addon \<Rightarrow> 'n main_state \<Rightarrow> bool \<times> 'n main_state" where
  "with_session N S = (if appSession S = None then ensureAppSession N S else (True, S))"

definition commit_failure :: "jstr \<Rightarrow> json" where
  "commit_failure e = JObj [(js ''success'', JBool False), (js ''report'', JNull), (js ''error'', JStr e)]"

definition commitBatch :: "'n addon \<Rightarrow> jstr \<Rightarrow> 'n main_state \<Rightarrow> json \<times> 'n main_state" where
  "commitBatch N entries S =
     (case addon_loads N (native S) of
        Inl m \<Rightarrow> (commit_failure m, S)
      | Inr _ \<Rightarrow>
          (let (ok, S1) = with_session N S in
           if \<not> ok then (commit_failure [0x0041, 0x0070, 0x0070, 0x0053, 0x0065, 0x0073, 0x0073, 0x0069, 0x006F, 0x006E, 0x0020, 0x672A, 0x5C31, 0x7EEA], S1)
           else (case commit_batch N (appSession S1) entries (native S1) of
               (Inl m, n) \<Rightarrow> (commit_failure m, S1\<lparr>native := n\<rparr>)
             | (Inr r, n) \<Rightarrow>
                 (if falsy_text r then (commit_failure [0x0043, 0x006F, 0x006D, 0x006D, 0x0069, 0x0074, 0x0020, 0x8FD4, 0x56DE, 0x7A7A, 0x0020, 0x0052, 0x0065, 0x0070, 0x006F, 0x0072, 0x0074], S1\<lparr>native := n\<rparr>)
                  else (JObj [(js ''success'', JBool True), (js ''report'', JStr (the r))],
                        S1\<lparr>native := snd (persist_write N (manifest_path N) n)\<rparr>)))))"

definition registerGate :: "'n addon \<Rightarrow> jstr \<Rightarrow> jstr \<Rightarrow> 'n main_state \<Rightarrow> json \<times> 'n main_state" where
  "registerGate N gateType ruleJson S =
     (let fail = (\<lambda>m. JObj [(js ''success'', JBool False), (js ''error'', JStr m)]) in
      case addon_loads N (native S) of
        Inl m \<Rightarrow> (fail m, S)
      | Inr _ \<Rightarrow>
          (let (ok, S1) = with_session N S in
           if \<not> ok then (fail [0x0041, 0x0070, 0x0070, 0x0053, 0x0065, 0x0073, 0x0073, 0x0069, 0x006F, 0x006E, 0x0020, 0x672A, 0x5C31, 0x7EEA], S1)
           else (case register_gate N (appSession S1) gateType ruleJson (native S1) of
               (Inl m, n) \<Rightarrow> (fail m, S1\<lparr>native := n\<rparr>)
             | (Inr j, n) \<Rightarrow> (JObj [(js ''success'', j)], S1\<lparr>native := n\<rparr>))))"

section \<open>Schema\<close>

definition no_fields :: json where
  "no_fields = JObj [(js ''fields'', JArr [])]"

definition getRegisteredSchemas :: "'a jsenv_scheme \<Rightarrow> 'n addon \<Rightarrow> 'n main_state \<Rightarrow> json" where
  "getRegisteredSchemas E N S =
     (case (addon_loads N (native S), schema_json N (native S)) of
        (Inr _, Inr t) \<Rightarrow> (case parse_json E t of Some j \<Rightarrow> j | None \<Rightarrow> no_fields)
      | _ \<Rightarrow> no_fields)"

text \<open>\<open>schema.fields || []\<close>, when the schema can be read at all.\<close>

definition schema_fields :: "'a jsenv_scheme \<Rightarrow> 'n addon \<Rightarrow> 'n \<Rightarrow> jstr + json list" where
  "schema_fields E N n =
     (case schema_json N n of
        Inl m \<Rightarrow> Inl m
      | Inr t \<Rightarrow> (case parse_json E t of
            None \<Rightarrow> Inl (syntax_error E t)
          | Some JNull \<Rightarrow> Inl (type_error E)
          | Some j \<Rightarrow> (case jfield (js ''fields'') j of
                Some (JArr fs) \<Rightarrow> Inr fs
              | v \<Rightarrow> if json_truthy v then Inl (type_error E) else Inr [])))"

definition gate_entry :: "jstr \<Rightarrow> json" where
  "gate_entry k = JObj [(js ''gate_id'', JStr (js ''gate_'' @ map (\<lambda>c. if c = 0x2E then 0x5F else c) k)),
     (js ''scenario'', JStr (js ''default'')), (js ''field_key'', JStr k), (js ''op'', JStr (js ''exists'')),
     (js ''value'', JStr (js ''true'')), (js ''layer'', jnat 0)]"

definition getGateChain :: "'a jsenv_scheme \<Rightarrow> 'n addon \<Rightarrow> 'n main_state \<Rightarrow> json" where
  "getGateChain E N S =
     (let chain = (\<lambda>gs. JObj [(js ''version'', JStr (js ''1.0'')), (js ''gates'', JArr gs)]) in
      case (addon_loads N (native S), schema_fields E N (native S)) of
        (Inr _, Inr fs) \<Rightarrow>
          (let keyed = filter (\<lambda>f. json_truthy (jfield (js ''key'') f)) fs
           in if JNull \<in> set fs \<or> (\<exists>f\<in>set keyed. \<forall>k. jfield (js ''key'') f \<noteq> Some (JStr k)) then chain []
              else chain (map (\<lambda>f. case jfield (js ''key'') f of Some (JStr k) \<Rightarrow> gate_entry k | _ \<Rightarrow> JNull) keyed))
      | _ \<Rightarrow> chain [])"

definition path_error :: "jstr \<Rightarrow> jstr \<Rightarrow> json" where
  "path_error p m = JObj [(js ''path'', JStr p), (js ''message'', JStr m)]"

definition registered_keys :: "json list \<Rightarrow> json list" where
  "registered_keys fs = map (\<lambda>f. case jfield (js ''key'') f of Some k \<Rightarrow> k | None \<Rightarrow> JNull) fs"

text \<open>The structural check of a configuration document. \<open>instructions.paths\<close> is an object in a document; the keys of
  other values are not enumerated here.\<close>

definition validateConfig :: "'a jsenv_scheme \<Rightarrow> 'n addon \<Rightarrow> jstr \<Rightarrow> 'n main_state \<Rightarrow> bool \<times> json list" where
  "validateConfig E N configJson S =
     (case parse_json E configJson of
        None \<Rightarrow> (False, [path_error (js ''root'') (js ''Invalid JSON'')])
      | Some JNull \<Rightarrow> (False, [path_error (js ''root'') (js ''Invalid JSON'')])
      | Some p \<Rightarrow>
          (let paths = (case jfield (js ''instructions'') p of Some ins \<Rightarrow> jfield (js ''paths'') ins | None \<Rightarrow> None);
               e1 = (if json_truthy (jfield (js ''version'') p) then [] else [path_error (js ''version'') ([0x7F3A, 0x5C11, 0x0020, 0x0076, 0x0065, 0x0072, 0x0073, 0x0069, 0x006F, 0x006E, 0x0020, 0x5B57, 0x6BB5])]);
               e2 = (if json_truthy paths then [] else [path_error (js ''instructions.paths'') ([0x7F3A, 0x5C11, 0x0020, 0x0069, 0x006E, 0x0073, 0x0074, 0x0072, 0x0075, 0x0063, 0x0074, 0x0069, 0x006F, 0x006E, 0x0073, 0x002E, 0x0070, 0x0061, 0x0074, 0x0068, 0x0073])]);
               ks = (case paths of Some (JObj kvs) \<Rightarrow> map fst kvs | _ \<Rightarrow> []);
               e3 = (if \<not> json_truthy paths then []
                     else (case (addon_loads N (native S), schema_fields E N (native S)) of
                        (Inr _, Inr fs) \<Rightarrow>
                          (if JNull \<in> set fs then []
                           else map (\<lambda>k. path_error (js ''instructions.paths.'' @ k) ([0x5B57, 0x6BB5, 0x0020, 0x0022] @ k @ [0x0022, 0x0020, 0x672A, 0x5728, 0x0020, 0x0053, 0x0063, 0x0068, 0x0065, 0x006D, 0x0061, 0x0020, 0x4E2D, 0x6CE8, 0x518C]))
                                  (filter (\<lambda>k. JStr k \<notin> set (registered_keys fs)) ks))
                      | _ \<Rightarrow> []))
           in (e1 @ e2 @ e3 = [], e1 @ e2 @ e3)))"


section \<open>The tool handler\<close>

text \<open>Every case yields the message of what is thrown, or the answer.\<close>

type_synonym 'n tool_case = "'n main_state \<Rightarrow> (jstr + json) \<times> 'n main_state"

definition answer_ok :: "jstr \<Rightarrow> json" where
  "answer_ok r = JObj [(js ''success'', JBool True), (js ''result'', JStr r)]"

definition answer_fail :: "jstr \<Rightarrow> json" where
  "answer_fail r = JObj [(js ''success'', JBool False), (js ''result'', JStr r)]"

definition answer_error :: "jstr \<Rightarrow> json" where
  "answer_error m = JObj [(js ''success'', JBool False), (js ''error'', JStr m)]"

definition arg_or :: "tool_args \<Rightarrow> jstr \<Rightarrow> json \<Rightarrow> json" where
  "arg_or args k d = (if json_truthy (map_of args k) then the (map_of args k) else d)"

definition native_case :: "'n addon \<Rightarrow> jstr \<Rightarrow> jstr list \<Rightarrow> 'n tool_case" where
  "native_case N f xs S = (let (r, n) = native_call N f xs (native S) in (r, S\<lparr>native := n\<rparr>))"

definition create_gate_chain_case :: "'a jsenv_scheme \<Rightarrow> 'n addon \<Rightarrow> tool_args \<Rightarrow> 'n tool_case" where
  "create_gate_chain_case E N args =
     native_case N (js ''runGateFactoryProduce'')
       [string_of E (arg_or args (js ''factory_type'') (JStr (js ''default''))),
        stringify E (JObj [(js ''field_key'', arg_or args (js ''field_key'') (JStr [])),
          (js ''field_type'', arg_or args (js ''field_type'') (JStr (js ''string''))),
          (js ''op'', arg_or args (js ''op'') (JStr (js ''eq''))),
          (js ''value'', arg_or args (js ''value'') (JStr [])),
          (js ''scenario'', arg_or args (js ''scenario'') (JStr (js ''production''))),
          (js ''layer'', arg_or args (js ''layer'') (jnat 0)),
          (js ''ai_hint'', arg_or args (js ''ai_hint'') (JStr []))])]"

subsection \<open>Values\<close>

definition entries_text :: "'a jsenv_scheme \<Rightarrow> jstr \<Rightarrow> jstr \<Rightarrow> jstr" where
  "entries_text E key value = stringify E (JArr [JObj [(js ''key'', JStr key), (js ''value'', JStr value)]])"

text \<open>
  The value goes through the commit when there is a session and the commit reports; then it is written to
  memory and persisted, where a failure is ignored. Otherwise it goes to memory only, with a warning.
\<close>

definition store_value :: "'a jsenv_scheme \<Rightarrow> 'n addon \<Rightarrow> jstr \<Rightarrow> jstr
    \<Rightarrow> 'n main_state \<Rightarrow> (jstr + jstr option) \<times> 'n main_state" where
  "store_value E N key value S0 =
     (let memory = (\<lambda>warning S. case write_value N key value (native S) of
              (Inl m, n) \<Rightarrow> (Inl m, S\<lparr>native := n\<rparr>) | (Inr _, n) \<Rightarrow> (Inr warning, S\<lparr>native := n\<rparr>));
          (ok, S) = ensureAppSession N S0
      in if \<not> ok then memory (Some [0x0041, 0x0070, 0x0070, 0x0053, 0x0065, 0x0073, 0x0073, 0x0069, 0x006F, 0x006E, 0x0020, 0x672A, 0x5C31, 0x7EEA, 0xFF0C, 0x503C, 0x5DF2, 0x5199, 0x5165, 0x5185, 0x5B58, 0x4F46, 0x672A, 0x6301, 0x4E45, 0x5316, 0x5230, 0x78C1, 0x76D8, 0xFF0C, 0x91CD, 0x542F, 0x540E, 0x4F1A, 0x4E22, 0x5931]) S
         else (case commit_batch N (appSession S) (entries_text E key value) (native S) of
             (Inl m, n) \<Rightarrow> (Inl m, S\<lparr>native := n\<rparr>)
           | (Inr r, n) \<Rightarrow>
               (if falsy_text r
                then memory (Some [0x0057, 0x0041, 0x004C, 0x0020, 0x63D0, 0x4EA4, 0x8FD4, 0x56DE, 0x7A7A, 0x0020, 0x0052, 0x0065, 0x0070, 0x006F, 0x0072, 0x0074, 0xFF0C, 0x503C, 0x5DF2, 0x5199, 0x5165, 0x5185, 0x5B58, 0x4F46, 0x672A, 0x6301, 0x4E45, 0x5316, 0x5230, 0x78C1, 0x76D8, 0xFF0C, 0x91CD, 0x542F, 0x540E, 0x4F1A, 0x4E22, 0x5931]) (S\<lparr>native := n\<rparr>)
                else (case memory None (S\<lparr>native := n\<rparr>) of
                    (Inl m, S') \<Rightarrow> (Inl m, S')
                  | (Inr w, S') \<Rightarrow> (Inr w, S'\<lparr>native := snd (persist_write N (manifest_path N) (native S'))\<rparr>)))))"

definition send_changed :: "'a jsenv_scheme \<Rightarrow> jstr \<Rightarrow> jstr \<Rightarrow> 'n main_state \<Rightarrow> 'n main_state" where
  "send_changed E key value S =
     (if window_open S
      then S\<lparr>sent := sent S @ [(js ''config:changed'', stringify E (JObj [(js ''key'', JStr key), (js ''value'', JStr value)]))]\<rparr>
      else S)"

definition write_value_case :: "'a jsenv_scheme \<Rightarrow> 'n addon \<Rightarrow> tool_args \<Rightarrow> 'n tool_case" where
  "write_value_case E N args S =
     (let key = text_or_empty E (map_of args (js ''key'')); value = text_or_empty E (map_of args (js ''value'')) in
      if key = [] then (Inr (answer_fail (js ''key '' @ [0x4E0D, 0x80FD, 0x4E3A, 0x7A7A])), S)
      else (case store_value E N key value S of
          (Inl m, S1) \<Rightarrow> (Inl m, S1)
        | (Inr warning, S1) \<Rightarrow>
            (Inr (JObj ([(js ''success'', JBool True), (js ''result'', JStr value)]
               @ opt_field (js ''warning'') (map_option JStr warning))), send_changed E key value S1)))"

definition jtext :: "jstr option \<Rightarrow> json" where
  "jtext t = (case t of None \<Rightarrow> JNull | Some s \<Rightarrow> JStr s)"

definition read_value_case :: "'a jsenv_scheme \<Rightarrow> 'n addon \<Rightarrow> tool_args \<Rightarrow> 'n tool_case" where
  "read_value_case E N args S =
     (let key = text_or_empty E (map_of args (js ''key'')) in
      if key = [] then (Inr (answer_fail (js ''key '' @ [0x4E0D, 0x80FD, 0x4E3A, 0x7A7A])), S)
      else (case read_value N key (native S) of
          Inl m \<Rightarrow> (Inl m, S)
        | Inr v \<Rightarrow> (Inr (JObj [(js ''success'', JBool True), (js ''result'', jtext v)]), S)))"

text \<open>The list of the fields; a field whose key is no text makes the native read throw.\<close>

fun list_fields :: "'n addon \<Rightarrow> jstr \<Rightarrow> jstr \<Rightarrow> 'n \<Rightarrow> json list \<Rightarrow> jstr + json list" where
  "list_fields N te prefix n [] = Inr []"
| "list_fields N te prefix n (f # fs) =
     (case jfield (js ''key'') f of
        Some (JStr k) \<Rightarrow>
          (if prefix \<noteq> [] \<and> \<not> starts_with k prefix then list_fields N te prefix n fs
           else (case read_value N k n of
               Inl m \<Rightarrow> Inl m
             | Inr v \<Rightarrow> (case list_fields N te prefix n fs of
                   Inl m \<Rightarrow> Inl m
                 | Inr cs \<Rightarrow> (let t = jfield (js ''type_name'') f; d = jfield (js ''default_value'') f in
                     Inr (JObj [(js ''key'', JStr k), (js ''type'', if json_truthy t then the t else JStr (js ''string'')),
                       (js ''value'', jtext v), (js ''default'', if json_truthy d then the d else JStr [])] # cs)))))
      | _ \<Rightarrow> Inl te)"

definition list_configs_case :: "'a jsenv_scheme \<Rightarrow> 'n addon \<Rightarrow> tool_args \<Rightarrow> 'n tool_case" where
  "list_configs_case E N args S =
     (let fail = (\<lambda>m. (Inr (answer_fail ([0x8BFB, 0x53D6, 0x914D, 0x7F6E, 0x5217, 0x8868, 0x5931, 0x8D25, 0x003A, 0x0020] @ m)), S)) in
      case schema_fields E N (native S) of
        Inl m \<Rightarrow> fail m
      | Inr fs \<Rightarrow>
          (case list_fields N (type_error E) (text_or_empty E (map_of args (js ''prefix''))) (native S) fs of
             Inl m \<Rightarrow> fail m
           | Inr cs \<Rightarrow> (Inr (answer_ok (stringify E (JObj [(js ''count'', jnat (length cs)), (js ''configs'', JArr cs)]))), S)))"

subsection \<open>Schema and gate rules\<close>

definition field_type :: "jstr \<Rightarrow> nat" where
  "field_type widget = (if widget = js ''number'' then 0 else if widget = js ''checkbox'' then 4 else 2)"

definition create_field_case :: "'a jsenv_scheme \<Rightarrow> 'n addon \<Rightarrow> tool_args \<Rightarrow> 'n tool_case" where
  "create_field_case E N args S =
     (let key = text_or_empty E (map_of args (js ''key''));
          widget = string_of E (arg_or args (js ''widget'') (JStr (js ''input'')));
          label = text_or_empty E (map_of args (js ''label''));
          desc = text_or E (map_of args (js ''description'')) label;
          default = text_or_empty E (map_of args (js ''default_value''));
          ft = field_type widget
      in case register_field N key ft default desc (map_of args (js ''required'') = Some (JBool True)) (native S) of
           (Inl m, n) \<Rightarrow> (Inr (answer_fail ([0x0063, 0x0072, 0x0065, 0x0061, 0x0074, 0x0065, 0x005F, 0x0073, 0x0063, 0x0068, 0x0065, 0x006D, 0x0061, 0x005F, 0x0066, 0x0069, 0x0065, 0x006C, 0x0064, 0x0020, 0x5931, 0x8D25, 0x003A, 0x0020] @ m)), S\<lparr>native := n\<rparr>)
         | (Inr _, n) \<Rightarrow> (Inr (answer_ok (stringify E (JObj [(js ''key'', JStr key), (js ''widget'', JStr widget),
               (js ''fieldType'', jnat ft), (js ''registered'', JBool True)]))), S\<lparr>native := n\<rparr>))"

definition update_rule_case :: "'a jsenv_scheme \<Rightarrow> 'n addon \<Rightarrow> tool_args \<Rightarrow> 'n tool_case" where
  "update_rule_case E N args S =
     (let gateId = text_or_empty E (map_of args (js ''gate_id''));
          action = string_of E (arg_or args (js ''action'') (JStr (js ''add_rule'')));
          field = text_or_empty E (map_of args (js ''field''));
          operator = text_or_empty E (map_of args (js ''operator''));
          value = text_or_empty E (map_of args (js ''value''));
          entries = stringify E (JArr [JObj [(js ''key'', JStr (js ''gate.'' @ gateId @ js ''.'' @ field)),
             (js ''value'', JStr (stringify E (JObj [(js ''action'', JStr action), (js ''operator'', JStr operator), (js ''value'', JStr value)])))]])
      in if (case appSession S of None \<Rightarrow> False | Some h \<Rightarrow> 0 < h)
         then (case commit_batch N (appSession S) entries (native S) of
             (Inl m, n) \<Rightarrow> (Inr (answer_fail ([0x0075, 0x0070, 0x0064, 0x0061, 0x0074, 0x0065, 0x005F, 0x0067, 0x0061, 0x0074, 0x0065, 0x005F, 0x0072, 0x0075, 0x006C, 0x0065, 0x0020, 0x5931, 0x8D25, 0x003A, 0x0020] @ m)), S\<lparr>native := n\<rparr>)
           | (Inr r, n) \<Rightarrow> (Inr (answer_ok (if falsy_text r then [0x0047, 0x0061, 0x0074, 0x0065, 0x0020, 0x89C4, 0x5219, 0x5DF2, 0x66F4, 0x65B0, 0x003A, 0x0020] @ gateId else the r)), S\<lparr>native := n\<rparr>))
         else (Inr (answer_ok (stringify E (JObj [(js ''gateId'', JStr gateId), (js ''action'', JStr action),
                 (js ''field'', JStr field), (js ''note'', JStr [0x0041, 0x0070, 0x0070, 0x0053, 0x0065, 0x0073, 0x0073, 0x0069, 0x006F, 0x006E, 0x0020, 0x672A, 0x5C31, 0x7EEA, 0xFF0C, 0x89C4, 0x5219, 0x5DF2, 0x6807, 0x8BB0])]))), S))"

subsection \<open>Directories and commands\<close>

definition fake_path :: "jstr \<Rightarrow> bool" where
  "fake_path p =
     (let q = ascii_lower p
      in str_includes q (js ''/path/to/'') \<or> str_includes q [0x005C, 0x0070, 0x0061, 0x0074, 0x0068, 0x005C, 0x0074, 0x006F, 0x005C] \<or> starts_with q (js ''/path/'')
         \<or> str_includes q [0x005C, 0x0070, 0x0061, 0x0074, 0x0068, 0x005C] \<or> str_includes q (js ''placeholder'') \<or> str_includes q (js ''example''))"

definition list_directory_case :: "'a jsenv_scheme \<Rightarrow> 'n addon \<Rightarrow> tool_args \<Rightarrow> 'n tool_case" where
  "list_directory_case E N args S =
     (let dir = text_or_empty E (map_of args (js ''path'')) in
      if dir = [] then (Inr (answer_fail (js ''path '' @ [0x4E0D, 0x80FD, 0x4E3A, 0x7A7A])), S)
      else if fake_path dir then (Inr (answer_fail ([0x68C0, 0x6D4B, 0x5230, 0x8DEF, 0x5F84, 0x0020, 0x0022] @ dir @ [0x0022, 0x0020, 0x50CF, 0x662F, 0x793A, 0x4F8B, 0x8DEF, 0x5F84, 0xFF0C, 0x8BF7, 0x63D0, 0x4F9B, 0x771F, 0x5B9E, 0x8DEF, 0x5F84, 0x3002])), S)
      else (case read_dir N dir (native S) of
          None \<Rightarrow> (Inr (answer_fail ([0x76EE, 0x5F55, 0x4E0D, 0x5B58, 0x5728, 0x6216, 0x65E0, 0x6743, 0x9650, 0x8BBF, 0x95EE, 0x003A, 0x0020] @ dir)), S)
        | Some es \<Rightarrow> (Inr (answer_ok (stringify E (JArr (map (\<lambda>(name, d, size). JObj [(js ''name'', JStr name),
              (js ''isDirectory'', JBool d), (js ''size'', jnat size)]) es)))), S)))"

text \<open>The sandbox: the first word of the command, and the prefix of the resolved directory.\<close>

definition cwd_allowed :: "'n addon \<Rightarrow> jstr \<Rightarrow> bool" where
  "cwd_allowed N d \<longleftrightarrow> (\<exists>r\<in>set [ascii_lower (project_root N), ascii_lower (workspace_root N)]. starts_with (ascii_lower d) r)"

definition terminal_answer :: "'a jsenv_scheme \<Rightarrow> jstr \<Rightarrow> jstr \<Rightarrow> shell_result \<Rightarrow> json" where
  "terminal_answer E command cwd r =
     (let text = (\<lambda>output code. stringify E (JObj [(js ''command'', JStr command), (js ''cwd'', JStr cwd),
            (js ''output'', JStr output), (js ''exitCode'', jnat code)]))
      in case r of
           Finished out \<Rightarrow> answer_ok (text out 0)
         | ShellFailed err out status \<Rightarrow> answer_fail (text (if err \<noteq> [] then err else out) (if status = 0 then 1 else status)))"

definition run_terminal_case :: "'a jsenv_scheme \<Rightarrow> 'n addon \<Rightarrow> tool_args \<Rightarrow> 'n tool_case" where
  "run_terminal_case E N args S =
     (let command = text_or_empty E (map_of args (js ''command'')); cwd = text_or_empty E (map_of args (js ''cwd'')) in
      if command = [] then (Inr (answer_fail (js ''command '' @ [0x4E0D, 0x80FD, 0x4E3A, 0x7A7A])), S)
      else if cwd = [] then (Inr (answer_fail (js ''cwd '' @ [0x4E0D, 0x80FD, 0x4E3A, 0x7A7A])), S)
      else if command_name command \<notin> set ALLOWED_COMMANDS
      then (Inr (answer_fail ([0x547D, 0x4EE4, 0x0020, 0x0022] @ command_name command @ [0x0022, 0x0020, 0x4E0D, 0x5728, 0x767D, 0x540D, 0x5355, 0x4E2D, 0x3002, 0x5141, 0x8BB8, 0x003A, 0x0020] @ join_with (js '', '') ALLOWED_COMMANDS)), S)
      else if \<not> cwd_allowed N (path_resolve N cwd) then (Inr (answer_fail ([0x76EE, 0x5F55, 0x0020, 0x0022] @ cwd @ [0x0022, 0x0020, 0x4E0D, 0x5728, 0x6C99, 0x7BB1, 0x5141, 0x8BB8, 0x8303, 0x56F4, 0x5185])), S)
      else (let (r, n) = exec_shell N command (path_resolve N cwd) (native S)
            in (Inr (terminal_answer E command cwd r),
                S\<lparr>native := n, executed := executed S @ [(command, path_resolve N cwd)]\<rparr>)))"

definition execute_query_case :: "'a jsenv_scheme \<Rightarrow> 'n addon \<Rightarrow> tool_args \<Rightarrow> 'n tool_case" where
  "execute_query_case E N args S =
     (let key = text_or E (map_of args (js ''config_key'')) (text_or_empty E (map_of args (js ''key_pattern''))) in
      if key = [] then (Inr (answer_error (js ''execute_query: missing config_key'')), S)
      else (case native_case N (js ''executeQuery'') [key] S of
          (Inl m, S1) \<Rightarrow> (Inr (answer_error ([0x0065, 0x0078, 0x0065, 0x0063, 0x0075, 0x0074, 0x0065, 0x005F, 0x0071, 0x0075, 0x0065, 0x0072, 0x0079, 0x0020, 0x5931, 0x8D25, 0x003A, 0x0020] @ m)), S1)
        | (Inr r, S1) \<Rightarrow> (Inr (JObj [(js ''success'', JBool True), (js ''result'', r)]), S1)))"

subsection \<open>Dispatch\<close>

definition tool_case :: "'a jsenv_scheme \<Rightarrow> 'n addon \<Rightarrow> jstr \<Rightarrow> tool_args \<Rightarrow> 'n tool_case" where
  "tool_case E N tool args S =
     (let txt = (\<lambda>k. text_or_empty E (map_of args k)) in
      if tool = js ''create_gate_chain'' then create_gate_chain_case E N args S
      else if tool = js ''gate_evaluator''
      then native_case N (js ''runGateEvaluatorEvaluate'')
             [string_of E (arg_or args (js ''chain_json'') (JStr (js ''{}''))), txt (js ''field_key''), txt (js ''field_value'')] S
      else if tool = js ''gate_map_upsert''
      then native_case N (js ''runGateMapUpsert'') [txt (js ''stable_key''), string_of E (arg_or args (js ''node_json'') (JStr (js ''{}'')))] S
      else if tool = js ''gate_map_lookup'' then native_case N (js ''runGateMapLookup'') [txt (js ''stable_key'')] S
      else if tool = js ''named_pipe_notify''
      then native_case N (js ''shmNotifySend'')
             [string_of E (arg_or args (js ''pipe_name'') (JStr [0x005C, 0x005C, 0x002E, 0x005C, 0x0070, 0x0069, 0x0070, 0x0065, 0x005C, 0x0062, 0x006C, 0x0065, 0x0073, 0x0073, 0x0073, 0x0074, 0x0061, 0x0072, 0x005F, 0x006E, 0x006F, 0x0074, 0x0069, 0x0066, 0x0079])), txt (js ''message'')] S
      else if tool = js ''status_metrics'' then native_case N (js ''exportMetricsPrometheus'') [] S
      else if tool = js ''export_trace'' then native_case N (js ''exportTraceSpans'') [] S
      else if tool = js ''auth_verify_token'' then native_case N (js ''authVerifyToken'') [txt (js ''token'')] S
      else if tool = js ''write_config_value'' then write_value_case E N args S
      else if tool = js ''read_config_value'' then read_value_case E N args S
      else if tool = js ''list_configs'' then list_configs_case E N args S
      else if tool = js ''create_schema_field'' then create_field_case E N args S
      else if tool = js ''update_gate_rule'' then update_rule_case E N args S
      else if tool = js ''list_directory'' then list_directory_case E N args S
      else if tool = js ''run_terminal'' then run_terminal_case E N args S
      else if tool = js ''execute_query'' then execute_query_case E N args S
      else (Inr (answer_error ([0x672A, 0x77E5, 0x5DE5, 0x5177, 0x003A, 0x0020] @ tool)), S))"

definition executeTool :: "'a jsenv_scheme \<Rightarrow> 'n addon \<Rightarrow> jstr \<Rightarrow> tool_args \<Rightarrow> 'n main_state \<Rightarrow> json \<times> 'n main_state" where
  "executeTool E N tool args S =
     (case addon_loads N (native S) of
        Inl m \<Rightarrow> (answer_error m, S)
      | Inr _ \<Rightarrow> (case tool_case E N tool args S of
            (Inl m, S1) \<Rightarrow> (answer_error m, S1)
          | (Inr a, S1) \<Rightarrow> (a, S1)))"

text \<open>
  The two ways to call the handler: name and arguments, or one object with both. A name that is no text is none of
  the cases; it is passed on as its text.
\<close>

definition object_args :: "json option \<Rightarrow> tool_args" where
  "object_args v = (case v of Some (JObj fs) \<Rightarrow> fs | _ \<Rightarrow> [])"

definition executeTool_request :: "'a jsenv_scheme \<Rightarrow> 'n addon \<Rightarrow> json option \<Rightarrow> json option
    \<Rightarrow> 'n main_state \<Rightarrow> json \<times> 'n main_state" where
  "executeTool_request E N first_arg second_arg S =
     (case first_arg of
        Some (JStr tool) \<Rightarrow> executeTool E N tool (object_args second_arg) S
      | Some (JObj fs) \<Rightarrow>
          (case map_of fs (js ''tool'') of
             Some (JStr tool) \<Rightarrow> executeTool E N tool (object_args (map_of fs (js ''args''))) S
           | Some t \<Rightarrow> (case addon_loads N (native S) of
                 Inl m \<Rightarrow> (answer_error m, S) | Inr _ \<Rightarrow> (answer_error ([0x672A, 0x77E5, 0x5DE5, 0x5177, 0x003A, 0x0020] @ to_text E t), S))
           | None \<Rightarrow> (answer_error ([0x0065, 0x0078, 0x0065, 0x0063, 0x0075, 0x0074, 0x0065, 0x0054, 0x006F, 0x006F, 0x006C, 0x003A, 0x0020, 0x65E0, 0x6548, 0x53C2, 0x6570, 0x7C7B, 0x578B]), S))
      | _ \<Rightarrow> (answer_error ([0x0065, 0x0078, 0x0065, 0x0063, 0x0075, 0x0074, 0x0065, 0x0054, 0x006F, 0x006F, 0x006C, 0x003A, 0x0020, 0x65E0, 0x6548, 0x53C2, 0x6570, 0x7C7B, 0x578B]), S))"


section \<open>The assistant's host\<close>

text \<open>The preload script forwards the two calls of the tools to these handlers.\<close>

definition editor_host :: "jsenv \<Rightarrow> 'n addon \<Rightarrow> regex_engine \<Rightarrow> custom_table \<Rightarrow> (jstr \<Rightarrow> tool_args option)
    \<Rightarrow> 'n main_state host" where
  "editor_host E N rx cs pa =
     \<lparr>parse_json = parse_json E, stringify = stringify E, pretty = pretty E, to_text = to_text E, to_number = to_number E,
      type_error = type_error E, syntax_error = syntax_error E,
      ipc = (\<lambda>tool args S. let (j, S') = executeTool E N tool args S in (Answer j, S')),
      schemas = (\<lambda>S. (Answer (getRegisteredSchemas E N S), S)),
      regex = rx, customs = cs, parse_args = pa\<rparr>"

lemma editor_host_simps [simp]:
  "ipc (editor_host E N rx cs pa) tool args S = (let (j, S') = executeTool E N tool args S in (Answer j, S'))"
  "schemas (editor_host E N rx cs pa) S = (Answer (getRegisteredSchemas E N S), S)"
  "regex (editor_host E N rx cs pa) = rx" "customs (editor_host E N rx cs pa) = cs"
  "parse_args (editor_host E N rx cs pa) = pa"
  by (simp_all add: editor_host_def)

definition editor_gate :: "'n addon \<Rightarrow> 'n main_state gate_call" where
  "editor_gate N kind rl S = (let (j, S') = registerGate N kind rl S in (Answer j, S'))"

definition run_call :: "jsenv \<Rightarrow> 'n addon \<Rightarrow> regex_engine \<Rightarrow> custom_table \<Rightarrow> (jstr \<Rightarrow> tool_args option)
    \<Rightarrow> tool_call \<Rightarrow> 'n main_state \<Rightarrow> tool_outcome \<times> 'n main_state" where
  "run_call E N rx cs pa c S =
     executeToolCall (editor_host E N rx cs pa) (FUNCTION_TOOLS (editor_host E N rx cs pa) (editor_gate N)) TOOL_PRE_GATE_RULES c S"

section \<open>Commands that reach the shell\<close>

lemma native_case_frame [simp]: "executed (snd (native_case N f xs S)) = executed S"
  by (simp add: native_case_def split: prod.splits)

lemma ensure_frame [simp]: "executed (snd (ensureAppSession N S)) = executed S"
  by (simp add: ensureAppSession_def split: option.splits sum.splits prod.splits)

lemma store_frame: "executed (snd (store_value E N k v S)) = executed S"
proof -
  obtain ok S1 where e: "ensureAppSession N S = (ok, S1)" by force
  then have "executed S1 = executed S" using ensure_frame [of N S] by simp
  then show ?thesis
    by (simp add: store_value_def e Let_def split: sum.splits prod.splits)
qed

lemma send_frame [simp]: "executed (send_changed E k v S) = executed S"
  by (simp add: send_changed_def)

lemma write_frame [simp]: "executed (snd (write_value_case E N args S)) = executed S"
  using store_frame [of E N "text_or_empty E (map_of args (js ''key''))" "text_or_empty E (map_of args (js ''value''))" S]
  by (auto simp: write_value_case_def Let_def split: sum.splits prod.splits)

lemma value_frames [simp]:
  "executed (snd (read_value_case E N args S)) = executed S"
  "executed (snd (list_configs_case E N args S)) = executed S"
  "executed (snd (create_field_case E N args S)) = executed S"
  "executed (snd (update_rule_case E N args S)) = executed S"
  "executed (snd (list_directory_case E N args S)) = executed S"
  "executed (snd (create_gate_chain_case E N args S)) = executed S"
  by (simp_all add: read_value_case_def list_configs_case_def create_field_case_def update_rule_case_def
      list_directory_case_def create_gate_chain_case_def Let_def split: sum.splits prod.splits option.splits)

lemma native_case_frameD: "native_case N f xs S = (r, S') \<Longrightarrow> executed S' = executed S"
  using native_case_frame [of N f xs S] by (simp del: native_case_frame)

lemma query_frame [simp]: "executed (snd (execute_query_case E N args S)) = executed S"
  by (auto simp: execute_query_case_def Let_def split: sum.splits prod.splits dest: native_case_frameD)

text \<open>The condition on a recorded command.\<close>

definition sandboxed :: "'n addon \<Rightarrow> jstr \<times> jstr \<Rightarrow> bool" where
  "sandboxed N cd \<longleftrightarrow> command_name (fst cd) \<in> set ALLOWED_COMMANDS \<and> cwd_allowed N (snd cd)"

definition shell_ok :: "'n addon \<Rightarrow> 'n main_state \<Rightarrow> bool" where
  "shell_ok N S \<longleftrightarrow> (\<forall>cd\<in>set (executed S). sandboxed N cd)"

lemma terminal_shell_ok: "shell_ok N S \<Longrightarrow> shell_ok N (snd (run_terminal_case E N args S))"
  by (auto simp: run_terminal_case_def shell_ok_def sandboxed_def Let_def split: prod.splits)

lemma tool_case_ok: "shell_ok N S \<Longrightarrow> shell_ok N (snd (tool_case E N tool args S))"
  unfolding tool_case_def Let_def by (simp add: terminal_shell_ok) (simp add: shell_ok_def)

lemma executeTool_ok: "shell_ok N S \<Longrightarrow> shell_ok N (snd (executeTool E N tool args S))"
  using tool_case_ok [of N S E tool args] by (auto simp: executeTool_def split: sum.splits prod.splits)


datatype host_event =
    ToolRequest "json option" "json option"
  | CommitRequest jstr
  | GateRequest jstr jstr
  | SessionRequest
  | SessionEnd
  | WindowOpened
  | WindowClosed

fun host_step :: "jsenv \<Rightarrow> 'n addon \<Rightarrow> host_event \<Rightarrow> 'n main_state \<Rightarrow> 'n main_state" where
  "host_step E N (ToolRequest a b) S = snd (executeTool_request E N a b S)"
| "host_step E N (CommitRequest t) S = snd (commitBatch N t S)"
| "host_step E N (GateRequest g r) S = snd (registerGate N g r S)"
| "host_step E N SessionRequest S = snd (appSessionCreate N S)"
| "host_step E N SessionEnd S = snd (appSessionDestroy N S)"
| "host_step E N WindowOpened S = S\<lparr>window_open := True\<rparr>"
| "host_step E N WindowClosed S = S\<lparr>window_open := False\<rparr>"

lemma ensure_frameD: "ensureAppSession N S = (ok, S') \<Longrightarrow> executed S' = executed S"
  using ensure_frame [of N S] by (simp del: ensure_frame)

lemma session_frames [simp]:
  "executed (snd (commitBatch N t S)) = executed S"
  "executed (snd (registerGate N g r S)) = executed S"
  "executed (snd (appSessionCreate N S)) = executed S"
  "executed (snd (appSessionDestroy N S)) = executed S"
  by (auto simp: commitBatch_def registerGate_def appSessionCreate_def appSessionDestroy_def destroyAppSession_def with_session_def Let_def
      split: sum.splits prod.splits option.splits if_splits dest: ensure_frameD)

lemma host_step_ok: "shell_ok N S \<Longrightarrow> shell_ok N (host_step E N e S)"
proof (cases e)
  case (ToolRequest a b)
  assume ok: "shell_ok N S"
  with ToolRequest show ?thesis
    by (auto simp: executeTool_request_def intro: executeTool_ok split: option.splits json.splits sum.splits)
qed (auto simp: shell_ok_def)

interpretation host: event_closed "shell_ok N" "host_step E N"
  by unfold_locales (rule host_step_ok)

text \<open>A small instance: the native state is the table of the values, commits report, the shell prints nothing; the gate
  evaluator accepts, or throws.\<close>

definition sample_env :: jsenv where
  "sample_env = \<lparr>parse_json = \<lambda>_. None, stringify = \<lambda>_. js ''{}'', pretty = \<lambda>_. js ''{}'', to_text = \<lambda>_. js ''?'', to_number = \<lambda>_. NaN,
     type_error = js ''TypeError'', syntax_error = \<lambda>_. js ''SyntaxError''\<rparr>"

definition table_addon :: "bool \<Rightarrow> (jstr \<Rightarrow> jstr option) addon" where
  "table_addon accepts =
     \<lparr>addon_loads = \<lambda>_. Inr (), session_ok = \<lambda>_ _. True, session_create = \<lambda>_ n. (Inr (Some 1), n), session_ctx = \<lambda>_ _. Inr 1,
      session_destroy = \<lambda>_ n. (Inr (), n), commit_batch = \<lambda>_ _ n. (Inr (Some (js ''report'')), n),
      persist_write = \<lambda>_ n. (Inr (), n), write_value = \<lambda>k v n. (Inr (), n(k \<mapsto> v)), read_value = \<lambda>k n. Inr (n k),
      schema_json = \<lambda>_. Inr (js ''{}''), register_field = \<lambda>_ _ _ _ _ n. (Inr (), n), register_gate = \<lambda>_ _ _ n. (Inr JNull, n),
      native_call = \<lambda>_ _ n. (if accepts then Inr (JObj [(js ''passed'', JBool True)]) else Inl (js ''no evaluator''), n),
      read_dir = \<lambda>_ _. None, exec_shell = \<lambda>_ _ n. (Finished [], n), path_resolve = \<lambda>p. p,
      manifest_path = js ''m'', project_root = js ''/p'', workspace_root = js ''/w''\<rparr>"




subsection \<open>What the sandbox does not see\<close>

lemma command_name_first_word:
  assumes "w \<noteq> []" "\<forall>c\<in>set w. \<not> is_space c"
  shows "command_name (w @ 0x20 # r) = ascii_lower w"
proof -
  have sp: "is_space 0x20" by code_simp
  have lead: "dropWhile is_space (w @ 0x20 # r) = w @ 0x20 # r"
    using assms by (cases w) auto
  have tw: "takeWhile (\<lambda>x. \<not> is_space x) (w @ v) = w @ takeWhile (\<lambda>x. \<not> is_space x) v" for v
    using assms(2) by (intro takeWhile_append2) blast
  have last: "dropWhile is_space (rev w) = rev w"
    using assms by (cases w rule: rev_cases) auto
  show ?thesis
  proof (cases "\<forall>c\<in>set r. is_space c")
    case True
    then have "dropWhile is_space (rev r @ 0x20 # rev w) = rev w"
      using dropWhile_append2 [of "rev r" is_space "0x20 # rev w"] sp last by simp
    then have "trim (w @ 0x20 # r) = w"
      unfolding trim_def lead by simp
    then show ?thesis using assms(2) by (simp add: command_name_def takeWhile_eq_all_conv [THEN iffD2])
  next
    case False
    then have "\<exists>r'. trim (w @ 0x20 # r) = w @ 0x20 # r'"
      unfolding trim_def lead by (auto simp: dropWhile_append1)
    then obtain r' where "trim (w @ 0x20 # r) = w @ 0x20 # r'" by blast
    then show ?thesis using tw [of "0x20 # r'"] sp by (simp add: command_name_def)
  qed
qed

lemma echo_listed: "command_name (js ''echo'' @ 0x20 # r) \<in> set ALLOWED_COMMANDS"
proof -
  have "\<forall>c\<in>set (js ''echo''). \<not> is_space c" by code_simp
  moreover have "ascii_lower (js ''echo'') \<in> set ALLOWED_COMMANDS" by code_simp
  ultimately show ?thesis by (subst command_name_first_word) simp_all
qed

text \<open>The sandbox checks a word and a prefix, and the shell reads the whole text: whatever text follows the word
  echo, separators and further commands included, is handed to the shell as it is; and whatever
  directory has the project directory as the beginning of its name, one beside it included, is accepted.\<close>

theorem shell_gets_the_whole_text:
  assumes "addon_loads N (native S) = Inr ()" "cwd \<noteq> []" "path_resolve N cwd = project_root N @ extra"
  shows "executed (snd (executeTool E N (js ''run_terminal'')
           [(js ''command'', JStr (js ''echo'' @ 0x20 # t)), (js ''cwd'', JStr cwd)] S))
         = executed S @ [(js ''echo'' @ 0x20 # t, project_root N @ extra)]"
proof -
  have d: "cwd_allowed N (project_root N @ extra)"
    by (simp add: cwd_allowed_def starts_with_iff ascii_lower_def)
  have c: "tool_case E N (js ''run_terminal'') args S = run_terminal_case E N args S" for args
    by (simp add: tool_case_def Let_def)
  show ?thesis
    using assms echo_listed [of t] d by (simp add: executeTool_def c run_terminal_case_def Let_def split: prod.splits)
qed

lemma shell_gets_the_whole_text_witness:
  "executed (snd (executeTool sample_env (table_addon True) (js ''run_terminal'')
      [(js ''command'', JStr (js ''echo'' @ 0x20 # js ''&& rm -rf x'')), (js ''cwd'', JStr (js ''/p-other''))] (new_main Map.empty)))
   = [(js ''echo'' @ 0x20 # js ''&& rm -rf x'', js ''/p-other'')]"
proof -
  have p: "js ''/p-other'' = js ''/p'' @ js ''-other''" by (simp add: js_def)
  show ?thesis
    using shell_gets_the_whole_text [of "table_addon True" "new_main Map.empty" "js ''/p-other''" "js ''-other''" sample_env "js ''&& rm -rf x''"]
    by (simp add: table_addon_def new_main_def p)
qed


section \<open>Values\<close>

text \<open>What the handlers rely on in the addon: a value that was written is read back, persisting and evaluating gates
  change no value, and committing reports or returns nothing but does not throw.\<close>

definition evaluate_gate :: "'n addon \<Rightarrow> jstr list \<Rightarrow> 'n \<Rightarrow> (jstr + json) \<times> 'n" where
  "evaluate_gate N xs n = native_call N (js ''runGateEvaluatorEvaluate'') xs n"

definition value_store :: "'n addon \<Rightarrow> bool" where
  "value_store N \<longleftrightarrow>
     (\<forall>n. addon_loads N n = Inr ())
   \<and> (\<forall>k v n. fst (write_value N k v n) = Inr () \<and> read_value N k (snd (write_value N k v n)) = Inr (Some v))
   \<and> (\<forall>k p n. read_value N k (snd (persist_write N p n)) = read_value N k n)
   \<and> (\<forall>k xs n. read_value N k (snd (evaluate_gate N xs n)) = read_value N k n)
   \<and> (\<forall>h t n. \<exists>r. fst (commit_batch N h t n) = Inr r)"

definition gates_accept :: "'n addon \<Rightarrow> bool" where
  "gates_accept N \<longleftrightarrow> (\<forall>xs n. \<exists>fs. fst (evaluate_gate N xs n) = Inr (JObj fs) \<and> json_truthy (map_of fs (js ''passed'')))"

definition gate_args :: "'a jsenv_scheme \<Rightarrow> tool_args \<Rightarrow> jstr list" where
  "gate_args E args = [string_of E (arg_or args (js ''chain_json'') (JStr (js ''{}''))),
     text_or_empty E (map_of args (js ''field_key'')), text_or_empty E (map_of args (js ''field_value''))]"

lemma gate_request:
  "addon_loads N (native S) = Inr () \<Longrightarrow>
   executeTool E N (js ''gate_evaluator'') args S =
     (case evaluate_gate N (gate_args E args) (native S) of
        (Inl m, n) \<Rightarrow> (answer_error m, S\<lparr>native := n\<rparr>) | (Inr j, n) \<Rightarrow> (j, S\<lparr>native := n\<rparr>))"
  by (simp add: executeTool_def tool_case_def native_case_def evaluate_gate_def gate_args_def Let_def split: prod.splits sum.splits)

lemma deep_accepts:
  assumes N: "value_store N" "gates_accept N"
  shows "\<exists>S'. deepEvaluate (editor_host E N rx cs pa) tool args S = (None, S')
    \<and> (\<forall>k. read_value N k (native S') = read_value N k (native S))"
proof (induction args arbitrary: S)
  case (Cons kv args)
  obtain k v where kv: "kv = (k, v)" by force
  let ?H = "editor_host E N rx cs pa"
  let ?a = "[(js ''chain_json'', JStr (stringify ?H (deep_chain tool k))), (js ''field_key'', JStr k),
              (js ''field_value'', JStr (if v = JNull then [] else string_of ?H v))]"
  have "addon_loads N (native S) = Inr ()" using N(1) by (simp add: value_store_def)
  note x = gate_request [OF this, of E ?a]
  obtain fs n where g: "evaluate_gate N (gate_args E ?a) (native S) = (Inr (JObj fs), n)" "json_truthy (map_of fs (js ''passed''))"
    using N(2) unfolding gates_accept_def by (metis prod.collapse)
  have "read_value N q n = read_value N q (native S)" for q
    using N(1) g(1) unfolding value_store_def by (metis snd_conv)
  moreover obtain S' where "deepEvaluate ?H tool args (S\<lparr>native := n\<rparr>) = (None, S')"
      "\<forall>q. read_value N q (native S') = read_value N q n"
    using Cons.IH [of "S\<lparr>native := n\<rparr>"] by auto
  ultimately show ?case using g x by (simp add: kv jfield_def)
qed simp

lemma ensure_cases: "\<exists>ok S'. ensureAppSession N S = (ok, S')"
  by force

lemma store_then_read:
  assumes "value_store N"
  shows "\<exists>w S'. store_value E N k v S = (Inr w, S') \<and> read_value N k (native S') = Inr (Some v)"
proof -
  obtain ok S1 where e: "ensureAppSession N S = (ok, S1)" by force
  have w: "\<exists>n'. write_value N k v n = (Inr (), n') \<and> read_value N k n' = Inr (Some v)" for n
    using assms unfolding value_store_def by (metis prod.collapse)
  have p: "read_value N k (snd (persist_write N q n)) = read_value N k n" for q n
    using assms by (simp add: value_store_def)
  obtain r n1 where c: "commit_batch N (appSession S1) (entries_text E k v) (native S1) = (Inr r, n1)"
    using assms unfolding value_store_def by (metis prod.collapse)
  obtain n2 where n2: "write_value N k v (native S1) = (Inr (), n2)" "read_value N k n2 = Inr (Some v)" using w by blast
  obtain n3 where n3: "write_value N k v n1 = (Inr (), n3)" "read_value N k n3 = Inr (Some v)" using w by blast
  show ?thesis by (simp add: store_value_def e c n2 n3 p Let_def)
qed

lemma write_request:
  assumes "value_store N" "k \<noteq> []"
  shows "\<exists>fs S'. executeTool E N (js ''write_config_value'') [(js ''key'', JStr k), (js ''value'', JStr v)] S = (JObj fs, S')
    \<and> json_truthy (map_of fs (js ''success'')) \<and> read_value N k (native S') = Inr (Some v)"
proof -
  obtain w S1 where s: "store_value E N k v S = (Inr w, S1)" "read_value N k (native S1) = Inr (Some v)"
    using store_then_read [OF assms(1)] by blast
  have c: "tool_case E N (js ''write_config_value'') args S = write_value_case E N args S" for args
    by (simp add: tool_case_def Let_def)
  show ?thesis
    using assms s by (simp add: executeTool_def c write_value_case_def value_store_def send_changed_def Let_def)
qed

lemma read_request:
  assumes "value_store N" "k \<noteq> []" "read_value N k (native S) = Inr (Some v)"
  shows "executeTool E N (js ''read_config_value'') [(js ''key'', JStr k)] S
    = (JObj [(js ''success'', JBool True), (js ''result'', JStr v)], S)"
proof -
  have c: "tool_case E N (js ''read_config_value'') args S = read_value_case E N args S" for args
    by (simp add: tool_case_def Let_def)
  show ?thesis using assms by (simp add: executeTool_def c read_value_case_def value_store_def jtext_def)
qed


lemma tool_lookup [simp]:
  "findTool (FUNCTION_TOOLS H reg) (js ''write_config_value'') = Some (write_config_value H)"
  "findTool (FUNCTION_TOOLS H reg) (js ''read_config_value'') = Some (read_config_value H)"
  "findTool (FUNCTION_TOOLS H reg) (js ''read_file'') = Some (read_file H)"
  "findTool (FUNCTION_TOOLS H reg) (js ''search_content'') = Some (search_content H)"
  "findTool (FUNCTION_TOOLS H reg) (js ''find_files'') = Some (find_files H)"
  "findTool (FUNCTION_TOOLS H reg) (js ''read_diagnostics'') = Some (read_diagnostics H)"
  by (simp_all add: findTool_def FUNCTION_TOOLS_def)

lemma rule_lookup:
  "map_of TOOL_PRE_GATE_RULES (js ''write_config_value'') = Some writeConfigValuePreGateRules"
  "map_of TOOL_PRE_GATE_RULES (js ''read_config_value'') = Some [rule_of NotEmpty (js ''key'') None (js ''key '' @ [0x4E0D, 0x80FD, 0x4E3A, 0x7A7A])]"
  by (simp_all add: TOOL_PRE_GATE_RULES_def)

lemma write_rules_pass:
  assumes "rx [0x005E, 0x002D, 0x005C, 0x0064, 0x002B] = Some f" "\<not> f v" "k \<noteq> []"
  shows "evaluatePreGates rx cs (Some writeConfigValuePreGateRules) [(js ''key'', JStr k), (js ''value'', JStr v)] = None"
  using assms
  by (simp add: evaluatePreGates_def writeConfigValuePreGateRules_def rule_of_def getEvaluator_def regex_not_match_def not_empty_def falsy_text_def)

lemma read_rules_pass:
  "k \<noteq> [] \<Longrightarrow> evaluatePreGates rx cs (Some [rule_of NotEmpty (js ''key'') None e]) [(js ''key'', JStr k)] = None"
  by (simp add: evaluatePreGates_def rule_of_def getEvaluator_def not_empty_def)

lemma success_with_inject: "success_with a = success_with b \<longleftrightarrow> a = b"
  by (simp add: success_with_def)




section \<open>Tools that cannot succeed\<close>

lemma unknown_request:
  assumes "t \<in> {js ''read_file'', js ''search_content'', js ''find_files'', js ''read_diagnostics''}"
  shows "\<exists>m. executeTool E N t args S = (answer_error m, S)"
  using assms by (auto simp: executeTool_def tool_case_def Let_def split: sum.splits)

lemma answer_error_fails [simp]: "\<not> succeeded (answer_error m)"
  by (simp add: succeeded_def answer_error_def jfield_def)

lemma unknown_call:
  assumes "t \<in> {js ''read_file'', js ''search_content'', js ''find_files'', js ''read_diagnostics''}"
  shows "\<exists>m. call_host (editor_host E N rx cs pa) t args S = (Inl (answer_error m), S)"
proof -
  obtain m where "executeTool E N t args S = (answer_error m, S)" using unknown_request [OF assms] by blast
  then show ?thesis by (auto simp: call_host_def answer_error_def)
qed

text \<open>The file tools never succeed: the main process has no case for reading a file, searching the contents of files,
  finding files or reading diagnostics, so whatever the arguments, the state and the addon are, a call of one of these tools
  ends in a failure.\<close>

theorem file_tools_never_succeed:
  assumes "tc_name c \<in> {js ''read_file'', js ''search_content'', js ''find_files'', js ''read_diagnostics''}"
  shows "\<exists>r. fst (run_call E N rx cs pa c S) = Returned r \<and> \<not> tr_success r"
proof -
  let ?H = "editor_host E N rx cs pa"
  have body: "\<exists>r. fst (t args S') = Returned r \<and> \<not> tr_success r"
    if "t \<in> {read_file ?H, search_content ?H, find_files ?H, read_diagnostics ?H}" for t args S'
  proof -
    have fails: "\<exists>r. fst (read_file ?H args S') = Returned r \<and> \<not> tr_success r"
      "\<exists>r. fst (search_content ?H args S') = Returned r \<and> \<not> tr_success r"
      "\<exists>r. fst (find_files ?H args S') = Returned r \<and> \<not> tr_success r"
      "\<exists>r. fst (read_diagnostics ?H args S') = Returned r \<and> \<not> tr_success r"
      using unknown_call [of "js ''read_file''" E N rx cs pa] unknown_call [of "js ''search_content''" E N rx cs pa]
        unknown_call [of "js ''find_files''" E N rx cs pa] unknown_call [of "js ''read_diagnostics''" E N rx cs pa]
      by (auto simp: read_file_def search_content_def find_files_def read_diagnostics_def Let_def split: prod.splits sum.splits)
        (metis Inl_inject Inr_Inl_False answer_error_fails prod.inject)+
    with that show ?thesis by auto
  qed
  obtain t where t: "findTool (FUNCTION_TOOLS ?H (editor_gate N)) (tc_name c) = Some t" "t \<in> {read_file ?H, search_content ?H, find_files ?H, read_diagnostics ?H}"
    using assms by auto
  show ?thesis
    using t(1) body [OF t(2)]
    by (auto simp: run_call_def executeToolCall_def split: option.splits prod.splits)
qed

lemma file_tools_never_succeed_witness:
  "\<exists>r. fst (run_call sample_env (table_addon True) minus_engine [] (\<lambda>_. Some [(js ''path'', JStr (js ''/p/a.txt''))])
       \<lparr>tc_id = [], tc_name = js ''read_file'', tc_arguments = []\<rparr> (new_main Map.empty)) = Returned r \<and> \<not> tr_success r"
  by (rule file_tools_never_succeed) simp

text \<open>When the native evaluator throws, no tool with an argument runs, although the check is meant to be skipped then: the
  handler turns the exception into an answer without a verdict, which the check takes for a refusal. The call fails with the
  text of a refusal, and no command reaches the shell.\<close>

theorem native_failure_blocks_tools:
  assumes "\<And>xs n. \<exists>m. fst (evaluate_gate N xs n) = Inl m" and "addon_loads N (native S) = Inr ()"
    and "findTool (FUNCTION_TOOLS (editor_host E N rx cs pa) (editor_gate N)) (tc_name c) = Some t"
    and "pa (tc_arguments c) = Some ((k, v) # args)"
    and "evaluatePreGates rx cs (map_of TOOL_PRE_GATE_RULES (tc_name c)) ((k, v) # args) = None"
  shows "\<exists>S'. run_call E N rx cs pa c S = (Returned (failure ([0x005B, 0x0043, 0x002D, 0x6DF1, 0x5224, 0x005D, 0x0020, 0x5B57, 0x6BB5, 0x0020] @ k @ js '': '' @ [0x6821, 0x9A8C, 0x5931, 0x8D25])), S')
    \<and> executed S' = executed S"
proof -
  let ?H = "editor_host E N rx cs pa"
  let ?a = "[(js ''chain_json'', JStr (stringify ?H (deep_chain (tc_name c) k))), (js ''field_key'', JStr k),
              (js ''field_value'', JStr (if v = JNull then [] else string_of ?H v))]"
  obtain m n where g: "evaluate_gate N (gate_args E ?a) (native S) = (Inl m, n)"
    using assms(1) by (metis prod.collapse)
  have "deepEvaluate ?H (tc_name c) ((k, v) # args) S
      = (Some ([0x005B, 0x0043, 0x002D, 0x6DF1, 0x5224, 0x005D, 0x0020, 0x5B57, 0x6BB5, 0x0020] @ k @ js '': '' @ [0x6821, 0x9A8C, 0x5931, 0x8D25]), S\<lparr>native := n\<rparr>)"
    using g gate_request [OF assms(2), of E ?a] by (simp add: answer_error_def jfield_def text_or_def)
  then show ?thesis using assms(3-5) by (simp add: run_call_def executeToolCall_def)
qed

lemma native_failure_blocks_tools_witness:
  "\<exists>S'. run_call sample_env (table_addon False) minus_engine [] (\<lambda>_. Some [(js ''key'', JStr (js ''a.b''))])
       \<lparr>tc_id = [], tc_name = js ''read_config_value'', tc_arguments = []\<rparr> (new_main Map.empty)
     = (Returned (failure ([0x005B, 0x0043, 0x002D, 0x6DF1, 0x5224, 0x005D, 0x0020, 0x5B57, 0x6BB5, 0x0020] @ js ''key'' @ js '': '' @ [0x6821, 0x9A8C, 0x5931, 0x8D25])), S') \<and> executed S' = []"
proof -
  have "\<exists>S'. run_call sample_env (table_addon False) minus_engine [] (\<lambda>_. Some [(js ''key'', JStr (js ''a.b''))])
       \<lparr>tc_id = [], tc_name = js ''read_config_value'', tc_arguments = []\<rparr> (new_main Map.empty)
     = (Returned (failure ([0x005B, 0x0043, 0x002D, 0x6DF1, 0x5224, 0x005D, 0x0020, 0x5B57, 0x6BB5, 0x0020] @ js ''key'' @ js '': '' @ [0x6821, 0x9A8C, 0x5931, 0x8D25])), S')
     \<and> executed S' = executed (new_main (Map.empty :: jstr \<Rightarrow> jstr option))"
    by (rule native_failure_blocks_tools [where v = "JStr (js ''a.b'')" and args = "[]"
          and t = "read_config_value (editor_host sample_env (table_addon False) minus_engine [] (\<lambda>_. Some [(js ''key'', JStr (js ''a.b''))]))"])
      (simp_all add: evaluate_gate_def table_addon_def rule_lookup evaluatePreGates_def rule_of_def getEvaluator_def not_empty_def)
  then show ?thesis by (simp add: new_main_def)
qed

end
