(* ===== verification/ToolFormat.thy ===== *)
theory ToolFormat
  imports GateTools
begin

text \<open>
  Summaries of tool results: the templates of \<open>tools/toolFactory.ts\<close> with the schemas of the declared tools,
  \<open>context-manager/toolDeltaFormatter.ts\<close> and \<open>formatters/toolFormatter.ts\<close>. A template is filled by
  \<open>String.replace\<close> with a text as the pattern, so the replacement text is read for its dollar sequences.
\<close>

section \<open>Replacing the first occurrence\<close>

text \<open>The text before and after the first occurrence of a pattern.\<close>

fun split_first :: "jstr \<Rightarrow> jstr \<Rightarrow> (jstr \<times> jstr) option" where
  "split_first p [] = (if p = [] then Some ([], []) else None)"
| "split_first p (c # s) =
     (if starts_with (c # s) p then Some ([], drop (length p) (c # s))
      else map_option (\<lambda>(a, b). (c # a, b)) (split_first p s))"

text \<open>The dollar sequences of a replacement; there are no captures, so all others stay.\<close>

fun expand_dollars :: "jstr \<Rightarrow> jstr \<Rightarrow> jstr \<Rightarrow> jstr \<Rightarrow> jstr" where
  "expand_dollars m pre post (c # d # s) =
     (if c = 0x24 \<and> d = 0x24 then 0x24 # expand_dollars m pre post s
      else if c = 0x24 \<and> d = 0x26 then m @ expand_dollars m pre post s
      else if c = 0x24 \<and> d = 0x60 then pre @ expand_dollars m pre post s
      else if c = 0x24 \<and> d = 0x27 then post @ expand_dollars m pre post s
      else c # expand_dollars m pre post (d # s))"
| "expand_dollars m pre post s = s"

definition replace_first :: "jstr \<Rightarrow> jstr \<Rightarrow> jstr \<Rightarrow> jstr" where
  "replace_first s p r =
     (case split_first p s of None \<Rightarrow> s | Some (pre, post) \<Rightarrow> pre @ expand_dollars p pre post r @ post)"

section \<open>Templates\<close>

record result_schema =
  rs_fields :: "jstr list"
  rs_success :: jstr
  rs_empty :: "jstr option"
  rs_error :: "jstr option"

definition hole :: "jstr \<Rightarrow> jstr" where
  "hole n = 0x7B # n @ [0x7D]"

text \<open>The text of a value in a summary. An array is joined with \<open>Array.join\<close>, which leaves null out.\<close>

definition value_text :: "'a jsenv_scheme \<Rightarrow> json option \<Rightarrow> jstr" where
  "value_text H v =
     (case v of None \<Rightarrow> [] | Some JNull \<Rightarrow> []
      | Some (JArr xs) \<Rightarrow> join_with (js '', '') (map (\<lambda>x. if x = JNull then [] else string_of H x) xs)
      | Some j \<Rightarrow> string_of H j)"

fun fill_fields :: "'a jsenv_scheme \<Rightarrow> json \<Rightarrow> jstr list \<Rightarrow> jstr \<Rightarrow> jstr" where
  "fill_fields H d [] s = s"
| "fill_fields H d (f # fs) s = fill_fields H d fs (replace_first s (hole f) (value_text H (jfield f d)))"

definition fillTemplate :: "'a jsenv_scheme \<Rightarrow> jstr \<Rightarrow> json \<Rightarrow> result_schema \<Rightarrow> jstr" where
  "fillTemplate H tpl d sc = fill_fields H d (rs_fields sc) tpl"

definition deltaFormatter :: "'a jsenv_scheme \<Rightarrow> jstr \<Rightarrow> result_schema \<Rightarrow> json \<Rightarrow> jstr" where
  "deltaFormatter H name sc r =
     (if \<not> json_truthy (jfield (js ''success'') r)
      then replace_first (replace_first (or_text (rs_error sc) [0x274C, 0x0020, 0x007B, 0x0074, 0x006F, 0x006F, 0x006C, 0x004E, 0x0061, 0x006D, 0x0065, 0x007D, 0x003A, 0x0020, 0x007B, 0x0065, 0x0072, 0x0072, 0x006F, 0x0072, 0x007D]) (hole (js ''toolName'')) name)
             (hole (js ''error'')) (text_or H (jfield (js ''error'') r) [0x672A, 0x77E5, 0x9519, 0x8BEF])
      else (let d = json_or (jfield (js ''data'') r) r in
            if \<not> falsy_text (rs_empty sc) \<and> jfield (js ''entries'') d = Some (JArr [])
            then fillTemplate H (the (rs_empty sc)) d sc
            else fillTemplate H (rs_success sc) d sc))"

text \<open>The schemas of the declared tools.\<close>

definition TOOL_SCHEMAS :: "(jstr \<times> result_schema) list" where
  "TOOL_SCHEMAS =
     [(js ''write_config_value'', \<lparr>rs_fields = map js [''key'', ''value'', ''warning''], rs_success = [0x2705, 0x0020, 0x007B, 0x006B, 0x0065, 0x0079, 0x007D, 0x0020, 0x5DF2, 0x5199, 0x5165, 0x0020, 0x0022, 0x007B, 0x0076, 0x0061, 0x006C, 0x0075, 0x0065, 0x007D, 0x0022],
         rs_empty = None, rs_error = Some [0x274C, 0x0020, 0x0077, 0x0072, 0x0069, 0x0074, 0x0065, 0x005F, 0x0063, 0x006F, 0x006E, 0x0066, 0x0069, 0x0067, 0x005F, 0x0076, 0x0061, 0x006C, 0x0075, 0x0065, 0x003A, 0x0020, 0x007B, 0x0065, 0x0072, 0x0072, 0x006F, 0x0072, 0x007D]\<rparr>),
      (js ''read_config_value'', \<lparr>rs_fields = map js [''key'', ''value''], rs_success = js ''{key} = {value}'',
         rs_empty = Some [0x26A0, 0xFE0F, 0x0020, 0x007B, 0x006B, 0x0065, 0x0079, 0x007D, 0x0020, 0x672A, 0x8BBE, 0x7F6E, 0x503C], rs_error = Some [0x274C, 0x0020, 0x0072, 0x0065, 0x0061, 0x0064, 0x005F, 0x0063, 0x006F, 0x006E, 0x0066, 0x0069, 0x0067, 0x005F, 0x0076, 0x0061, 0x006C, 0x0075, 0x0065, 0x003A, 0x0020, 0x007B, 0x0065, 0x0072, 0x0072, 0x006F, 0x0072, 0x007D]\<rparr>),
      (js ''list_directory'', \<lparr>rs_fields = map js [''path'', ''count'', ''entries''], rs_success = [0xD83D, 0xDCC2, 0x0020, 0x007B, 0x0070, 0x0061, 0x0074, 0x0068, 0x007D, 0x0020, 0x0028, 0x007B, 0x0063, 0x006F, 0x0075, 0x006E, 0x0074, 0x007D, 0x0020, 0x9879, 0x0029],
         rs_empty = Some [0xD83D, 0xDCC2, 0x0020, 0x007B, 0x0070, 0x0061, 0x0074, 0x0068, 0x007D, 0x003A, 0x0020, 0x7A7A, 0x76EE, 0x5F55], rs_error = Some [0x274C, 0x0020, 0x006C, 0x0069, 0x0073, 0x0074, 0x005F, 0x0064, 0x0069, 0x0072, 0x0065, 0x0063, 0x0074, 0x006F, 0x0072, 0x0079, 0x003A, 0x0020, 0x007B, 0x0065, 0x0072, 0x0072, 0x006F, 0x0072, 0x007D]\<rparr>),
      (js ''read_file'', \<lparr>rs_fields = map js [''path'', ''size'', ''content''], rs_success = [0xD83D, 0xDCC4, 0x0020, 0x007B, 0x0070, 0x0061, 0x0074, 0x0068, 0x007D, 0x0020, 0xFF08, 0x007B, 0x0073, 0x0069, 0x007A, 0x0065, 0x007D, 0x0020, 0x5B57, 0x8282, 0xFF09],
         rs_empty = Some [0xD83D, 0xDCC4, 0x0020, 0x007B, 0x0070, 0x0061, 0x0074, 0x0068, 0x007D, 0x003A, 0x0020, 0x7A7A, 0x6587, 0x4EF6], rs_error = Some [0x274C, 0x0020, 0x0072, 0x0065, 0x0061, 0x0064, 0x005F, 0x0066, 0x0069, 0x006C, 0x0065, 0x003A, 0x0020, 0x007B, 0x0065, 0x0072, 0x0072, 0x006F, 0x0072, 0x007D]\<rparr>),
      (js ''search_content'', \<lparr>rs_fields = map js [''path'', ''pattern'', ''count'', ''matches''],
         rs_success = [0xD83D, 0xDD0D, 0x0020, 0x5728, 0x0020, 0x007B, 0x0070, 0x0061, 0x0074, 0x0068, 0x007D, 0x0020, 0x4E2D, 0x627E, 0x5230, 0x0020, 0x007B, 0x0063, 0x006F, 0x0075, 0x006E, 0x0074, 0x007D, 0x0020, 0x4E2A, 0x5305, 0x542B, 0x0020, 0x0022, 0x007B, 0x0070, 0x0061, 0x0074, 0x0074, 0x0065, 0x0072, 0x006E, 0x007D, 0x0022, 0x0020, 0x7684, 0x6587, 0x4EF6], rs_empty = Some [0xD83D, 0xDD0D, 0x0020, 0x5728, 0x0020, 0x007B, 0x0070, 0x0061, 0x0074, 0x0068, 0x007D, 0x0020, 0x4E2D, 0x672A, 0x627E, 0x5230, 0x5305, 0x542B, 0x0020, 0x0022, 0x007B, 0x0070, 0x0061, 0x0074, 0x0074, 0x0065, 0x0072, 0x006E, 0x007D, 0x0022, 0x0020, 0x7684, 0x6587, 0x4EF6],
         rs_error = Some [0x274C, 0x0020, 0x0073, 0x0065, 0x0061, 0x0072, 0x0063, 0x0068, 0x005F, 0x0063, 0x006F, 0x006E, 0x0074, 0x0065, 0x006E, 0x0074, 0x003A, 0x0020, 0x007B, 0x0065, 0x0072, 0x0072, 0x006F, 0x0072, 0x007D]\<rparr>),
      (js ''find_files'', \<lparr>rs_fields = map js [''path'', ''pattern'', ''count'', ''files''],
         rs_success = [0xD83D, 0xDCC1, 0x0020, 0x5728, 0x0020, 0x007B, 0x0070, 0x0061, 0x0074, 0x0068, 0x007D, 0x0020, 0x4E2D, 0x627E, 0x5230, 0x0020, 0x007B, 0x0063, 0x006F, 0x0075, 0x006E, 0x0074, 0x007D, 0x0020, 0x4E2A, 0x5339, 0x914D, 0x0020, 0x0022, 0x007B, 0x0070, 0x0061, 0x0074, 0x0074, 0x0065, 0x0072, 0x006E, 0x007D, 0x0022, 0x0020, 0x7684, 0x6587, 0x4EF6], rs_empty = Some [0xD83D, 0xDCC1, 0x0020, 0x5728, 0x0020, 0x007B, 0x0070, 0x0061, 0x0074, 0x0068, 0x007D, 0x0020, 0x4E2D, 0x672A, 0x627E, 0x5230, 0x5339, 0x914D, 0x0020, 0x0022, 0x007B, 0x0070, 0x0061, 0x0074, 0x0074, 0x0065, 0x0072, 0x006E, 0x007D, 0x0022, 0x0020, 0x7684, 0x6587, 0x4EF6],
         rs_error = Some [0x274C, 0x0020, 0x0066, 0x0069, 0x006E, 0x0064, 0x005F, 0x0066, 0x0069, 0x006C, 0x0065, 0x0073, 0x003A, 0x0020, 0x007B, 0x0065, 0x0072, 0x0072, 0x006F, 0x0072, 0x007D]\<rparr>),
      (js ''run_terminal'', \<lparr>rs_fields = map js [''command'', ''cwd'', ''output'', ''exitCode''],
         rs_success = [0xD83D, 0xDCBB, 0x0020, 0x005B, 0x007B, 0x0063, 0x0077, 0x0064, 0x007D, 0x005D, 0x0024, 0x0020, 0x007B, 0x0063, 0x006F, 0x006D, 0x006D, 0x0061, 0x006E, 0x0064, 0x007D, 0x0020, 0xFF08, 0x9000, 0x51FA, 0x7801, 0x003A, 0x0020, 0x007B, 0x0065, 0x0078, 0x0069, 0x0074, 0x0043, 0x006F, 0x0064, 0x0065, 0x007D, 0xFF09], rs_empty = None, rs_error = Some [0x274C, 0x0020, 0x0072, 0x0075, 0x006E, 0x005F, 0x0074, 0x0065, 0x0072, 0x006D, 0x0069, 0x006E, 0x0061, 0x006C, 0x003A, 0x0020, 0x007B, 0x0065, 0x0072, 0x0072, 0x006F, 0x0072, 0x007D]\<rparr>),
      (js ''chat'', \<lparr>rs_fields = map js [''reply''], rs_success = js ''{reply}'', rs_empty = None, rs_error = Some [0x274C, 0x0020, 0x0063, 0x0068, 0x0061, 0x0074, 0x003A, 0x0020, 0x007B, 0x0065, 0x0072, 0x0072, 0x006F, 0x0072, 0x007D]\<rparr>),
      (js ''read_diagnostics'', \<lparr>rs_fields = map js [''scope'', ''count'', ''diagnostics''], rs_success = [0xD83D, 0xDD0D, 0x0020, 0x8BCA, 0x65AD, 0x0020, 0x005B, 0x007B, 0x0073, 0x0063, 0x006F, 0x0070, 0x0065, 0x007D, 0x005D, 0x003A, 0x0020, 0x007B, 0x0063, 0x006F, 0x0075, 0x006E, 0x0074, 0x007D, 0x0020, 0x6761],
         rs_empty = Some [0xD83D, 0xDD0D, 0x0020, 0x8BCA, 0x65AD, 0x0020, 0x005B, 0x007B, 0x0073, 0x0063, 0x006F, 0x0070, 0x0065, 0x007D, 0x005D, 0x003A, 0x0020, 0x672A, 0x53D1, 0x73B0, 0x95EE, 0x9898], rs_error = Some [0x274C, 0x0020, 0x0072, 0x0065, 0x0061, 0x0064, 0x005F, 0x0064, 0x0069, 0x0061, 0x0067, 0x006E, 0x006F, 0x0073, 0x0074, 0x0069, 0x0063, 0x0073, 0x003A, 0x0020, 0x007B, 0x0065, 0x0072, 0x0072, 0x006F, 0x0072, 0x007D]\<rparr>),
      (js ''list_configs'', \<lparr>rs_fields = map js [''count'', ''configs''], rs_success = [0x5171, 0x0020, 0x007B, 0x0063, 0x006F, 0x0075, 0x006E, 0x0074, 0x007D, 0x0020, 0x4E2A, 0x914D, 0x7F6E, 0x5B57, 0x6BB5],
         rs_empty = Some [0x6682, 0x65E0, 0x5DF2, 0x58F0, 0x660E, 0x7684, 0x914D, 0x7F6E, 0x5B57, 0x6BB5], rs_error = Some [0x274C, 0x0020, 0x006C, 0x0069, 0x0073, 0x0074, 0x005F, 0x0063, 0x006F, 0x006E, 0x0066, 0x0069, 0x0067, 0x0073, 0x003A, 0x0020, 0x007B, 0x0065, 0x0072, 0x0072, 0x006F, 0x0072, 0x007D]\<rparr>)]"

section \<open>Filling is substitution\<close>

text \<open>A template as its literal pieces and its holes, and what it means to fill it.\<close>

datatype piece = Lit jstr | Hole jstr

definition piece_text :: "(jstr \<Rightarrow> jstr option) \<Rightarrow> piece \<Rightarrow> jstr" where
  "piece_text f p = (case p of Lit s \<Rightarrow> s | Hole n \<Rightarrow> (case f n of None \<Rightarrow> hole n | Some v \<Rightarrow> v))"

definition render :: "(jstr \<Rightarrow> jstr option) \<Rightarrow> piece list \<Rightarrow> jstr" where
  "render f ps = concat (map (piece_text f) ps)"

definition no_open :: "jstr \<Rightarrow> bool" where
  "no_open s \<longleftrightarrow> 0x7B \<notin> set s"

definition clean :: "(jstr \<Rightarrow> jstr option) \<Rightarrow> piece \<Rightarrow> bool" where
  "clean f p \<longleftrightarrow> (case p of Lit s \<Rightarrow> no_open s
     | Hole n \<Rightarrow> 0x7B \<notin> set n \<and> 0x7D \<notin> set n \<and> (case f n of None \<Rightarrow> True | Some v \<Rightarrow> no_open v))"

lemma hole_at: "0x7D \<notin> set n \<Longrightarrow> 0x7D \<notin> set m \<Longrightarrow> starts_with (hole m @ s) (hole n) \<longleftrightarrow> m = n"
proof -
  assume nm: "0x7D \<notin> set n" "0x7D \<notin> set m"
  have tw: "takeWhile (\<lambda>c. c \<noteq> 0x7D) (x @ 0x7D # y) = x" if "0x7D \<notin> set x" for x y :: jstr
    using that by (induction x) auto
  have "m = n" if "m @ 0x7D # s = n @ 0x7D # t" for t
    using tw [OF nm(2), of s] tw [OF nm(1), of t] that by simp
  then show ?thesis by (auto simp: starts_with_iff hole_def)
qed

lemma split_skip:
  "no_open u \<Longrightarrow> split_first (hole n) (u @ s) = map_option (\<lambda>(a, b). (u @ a, b)) (split_first (hole n) s)"
proof (induction u)
  case (Cons c u)
  then have "c \<noteq> 0x7B" "no_open u" by (auto simp: no_open_def)
  then show ?case using Cons.IH by (auto simp: hole_def option.map_comp comp_def split_beta)
next
  case Nil
  show ?case by (cases "split_first (hole n) s") auto
qed

lemma split_hole:
  assumes "0x7B \<notin> set m" "0x7D \<notin> set m" "0x7D \<notin> set n"
  shows "split_first (hole n) (hole m @ s) =
    (if m = n then Some ([], s) else map_option (\<lambda>(a, b). (hole m @ a, b)) (split_first (hole n) s))"
proof -
  have h: "hole m @ s = 0x7B # (m @ [0x7D]) @ s" by (simp add: hole_def)
  have "no_open (m @ [0x7D])" using assms(1) by (simp add: no_open_def)
  note skip = split_skip [OF this, of n s]
  show ?thesis
  proof (cases "m = n")
    case True
    then show ?thesis using hole_at [OF assms(3,2), of s] unfolding h by (simp add: hole_def)
  next
    case False
    have "split_first (hole n) (hole m @ s) = map_option (\<lambda>(a, b). (0x7B # a, b)) (split_first (hole n) ((m @ [0x7D]) @ s))"
      using hole_at [OF assms(3,2), of s] False unfolding h by simp
    then show ?thesis
      using False unfolding skip by (cases "split_first (hole n) s") (simp_all add: split_beta, simp_all add: hole_def)
  qed
qed

fun holes :: "piece list \<Rightarrow> jstr list" where
  "holes [] = []"
| "holes (Lit s # ps) = holes ps"
| "holes (Hole n # ps) = n # holes ps"

lemma render_simps [simp]:
  "render f [] = []" "render f (Lit s # ps) = s @ render f ps"
  "render f (Hole n # ps) = (case f n of None \<Rightarrow> hole n | Some v \<Rightarrow> v) @ render f ps"
  "render f (ps @ qs) = render f ps @ render f qs"
  by (simp_all add: render_def piece_text_def)

lemma render_cong: "(\<And>n. n \<in> set (holes ps) \<Longrightarrow> f n = g n) \<Longrightarrow> render f ps = render g ps"
  by (induction ps rule: holes.induct) simp_all

lemma split_render:
  assumes "list_all (clean f) ps" "f n = None" "0x7B \<notin> set n" "0x7D \<notin> set n"
  shows "if n \<in> set (holes ps)
    then \<exists>qs rs. ps = qs @ Hole n # rs \<and> n \<notin> set (holes qs) \<and> split_first (hole n) (render f ps) = Some (render f qs, render f rs)
    else split_first (hole n) (render f ps) = None"
  using assms(1)
proof (induction ps)
  case Nil
  then show ?case by (simp add: hole_def)
next
  case (Cons p ps)
  show ?case
  proof (cases p)
    case (Lit s)
    then have "no_open s" using Cons.prems by (simp add: clean_def)
    from split_skip [OF this, of n "render f ps"] Cons show ?thesis
      by (auto simp: Lit intro: exI [of _ "Lit s # qs" for qs])
        (metis append_Cons holes.simps(2) render_simps(2))
  next
    case (Hole m)
    have m: "0x7B \<notin> set m" "0x7D \<notin> set m" using Cons.prems by (simp_all add: Hole clean_def)
    show ?thesis
    proof (cases "f m")
      case None
      show ?thesis
      proof (cases "m = n")
        case True
        have "split_first (hole n) (render f (p # ps)) = Some (render f [], render f ps)"
          using split_hole [OF m assms(4), of "render f ps"] None by (simp add: Hole True)
        then have "\<exists>qs rs. p # ps = qs @ Hole n # rs \<and> n \<notin> set (holes qs) \<and> split_first (hole n) (render f (p # ps)) = Some (render f qs, render f rs)"
          by (intro exI [of _ "[]"] exI [of _ ps]) (simp add: Hole True)
        then show ?thesis by (simp only: Hole True holes.simps) simp
      next
        case False
        from split_hole [OF m assms(4), of "render f ps"] Cons None False show ?thesis
          by (auto simp: Hole) (metis append_Cons holes.simps(3) option.case(1) render_simps(3) set_ConsD)
      qed
    next
      case (Some v)
      then have "no_open v" "m \<noteq> n" using Cons.prems assms(2) by (auto simp: Hole clean_def)
      from split_skip [OF this(1), of n "render f ps"] Cons Some \<open>m \<noteq> n\<close> show ?thesis
        by (auto simp: Hole) (metis append_Cons holes.simps(3) option.case(2) render_simps(3) set_ConsD)
    qed
  qed
qed

lemma expand_plain: "0x24 \<notin> set r \<Longrightarrow> expand_dollars m pre post r = r"
  by (induction m pre post r rule: expand_dollars.induct) auto

lemma replace_render:
  assumes "list_all (clean f) ps" "f n = None" "0x7B \<notin> set n" "0x7D \<notin> set n" "distinct (holes ps)" "0x24 \<notin> set v"
  shows "replace_first (render f ps) (hole n) v = render (f(n \<mapsto> v)) ps"
proof (cases "n \<in> set (holes ps)")
  case True
  then obtain qs rs where q: "ps = qs @ Hole n # rs" "n \<notin> set (holes qs)"
    "split_first (hole n) (render f ps) = Some (render f qs, render f rs)"
    using split_render [OF assms(1-4)] by auto
  have app: "holes (xs @ ys) = holes xs @ holes ys" for xs ys by (induction xs rule: holes.induct) simp_all
  have "n \<notin> set (holes rs)" using assms(5) by (simp add: q(1) app)
  with q(2) have "render (f(n \<mapsto> v)) qs = render f qs" "render (f(n \<mapsto> v)) rs = render f rs"
    by (auto intro!: render_cong)
  then show ?thesis by (simp add: replace_first_def q(3) expand_plain [OF assms(6)]) (simp add: q(1))
next
  case False
  then have "split_first (hole n) (render f ps) = None" using split_render [OF assms(1-4)] by simp
  moreover have "render (f(n \<mapsto> v)) ps = render f ps" using False by (auto intro!: render_cong)
  ultimately show ?thesis by (simp add: replace_first_def)
qed

definition plain_text :: "jstr \<Rightarrow> bool" where
  "plain_text v \<longleftrightarrow> 0x7B \<notin> set v \<and> 0x24 \<notin> set v"

lemma fill_render:
  assumes "list_all (clean f) ps" "distinct (holes ps)" "distinct fs"
    and "\<And>n. n \<in> set fs \<Longrightarrow> f n = None \<and> 0x7B \<notin> set n \<and> 0x7D \<notin> set n \<and> plain_text (value_text H (jfield n d))"
  shows "fill_fields H d fs (render f ps) = render (\<lambda>n. if n \<in> set fs then Some (value_text H (jfield n d)) else f n) ps"
  using assms(1,3,4)
proof (induction fs arbitrary: f)
  case (Cons n fs)
  let ?v = "value_text H (jfield n d)"
  have n: "f n = None" "0x7B \<notin> set n" "0x7D \<notin> set n" "plain_text ?v" using Cons.prems(3) by simp_all
  have "clean (f(n \<mapsto> ?v)) p" if "clean f p" for p
    using that n by (auto simp: clean_def plain_text_def no_open_def split: piece.splits)
  then have cl: "list_all (clean (f(n \<mapsto> ?v))) ps" using Cons.prems(1) by (auto simp: list_all_iff)
  have "fill_fields H d fs (render (f(n \<mapsto> ?v)) ps)
      = render (\<lambda>m. if m \<in> set fs then Some (value_text H (jfield m d)) else (f(n \<mapsto> ?v)) m) ps"
    by (rule Cons.IH [OF cl]) (use Cons.prems in auto)
  moreover have "replace_first (render f ps) (hole n) ?v = render (f(n \<mapsto> ?v)) ps"
    using n by (intro replace_render Cons.prems(1) assms(2)) (simp_all add: plain_text_def)
  ultimately show ?case by simp (rule render_cong, auto)
qed simp

text \<open>Filling a template is simultaneous substitution: for a template whose holes are distinct, filling it field after field with texts that
  contain neither a dollar nor an opening brace gives the template with every hole of a field replaced by the field's text.\<close>

theorem filling_is_substitution:
  assumes "list_all (clean Map.empty) ps" "distinct (holes ps)" "distinct (rs_fields sc)"
    and "list_all (\<lambda>n. 0x7B \<notin> set n \<and> 0x7D \<notin> set n \<and> plain_text (value_text H (jfield n d))) (rs_fields sc)"
  shows "fillTemplate H (render Map.empty ps) d sc
    = render (\<lambda>n. if n \<in> set (rs_fields sc) then Some (value_text H (jfield n d)) else None) ps"
  using assms fill_render [of Map.empty ps "rs_fields sc" H d] by (simp add: fillTemplate_def list_all_iff)

definition list_pieces :: "piece list" where
  "list_pieces = [Lit [0xD83D, 0xDCC2, 0x0020], Hole (js ''path''), Lit (js '' (''), Hole (js ''count''), Lit [0x0020, 0x9879, 0x0029]]"

lemma list_template: "rs_success (the (map_of TOOL_SCHEMAS (js ''list_directory''))) = render Map.empty list_pieces"
  by (simp add: TOOL_SCHEMAS_def list_pieces_def hole_def) (simp add: js_def)

lemma filling_is_substitution_witness:
  "fillTemplate sample_host (rs_success (the (map_of TOOL_SCHEMAS (js ''list_directory''))))
     (JObj [(js ''path'', JStr (js ''/p'')), (js ''count'', JStr (js ''2''))])
     \<lparr>rs_fields = map js [''path'', ''count''], rs_success = [], rs_empty = None, rs_error = None\<rparr>
   = [0xD83D, 0xDCC2, 0x0020] @ js ''/p'' @ js '' ('' @ js ''2'' @ [0x0020, 0x9879, 0x0029]"
proof -
  have "fillTemplate sample_host (render Map.empty list_pieces)
     (JObj [(js ''path'', JStr (js ''/p'')), (js ''count'', JStr (js ''2''))])
     \<lparr>rs_fields = map js [''path'', ''count''], rs_success = [], rs_empty = None, rs_error = None\<rparr>
    = render (\<lambda>n. if n \<in> set (map js [''path'', ''count'']) then Some (value_text sample_host (jfield n
         (JObj [(js ''path'', JStr (js ''/p'')), (js ''count'', JStr (js ''2''))]))) else None) list_pieces"
    by (subst filling_is_substitution; code_simp)
  then show ?thesis unfolding list_template by (simp add: list_pieces_def value_text_def string_of_def jfield_def)
qed

definition write_pieces :: "piece list" where
  "write_pieces = [Lit [0x2705, 0x0020], Hole (js ''key''), Lit [0x0020, 0x5DF2, 0x5199, 0x5165, 0x0020, 0x0022], Hole (js ''value''), Lit [0x0022]]"

lemma write_schema:
  "the (map_of TOOL_SCHEMAS (js ''write_config_value'')) = \<lparr>rs_fields = map js [''key'', ''value'', ''warning''],
     rs_success = render Map.empty write_pieces, rs_empty = None, rs_error = Some [0x274C, 0x0020, 0x0077, 0x0072, 0x0069, 0x0074, 0x0065, 0x005F, 0x0063, 0x006F, 0x006E, 0x0066, 0x0069, 0x0067, 0x005F, 0x0076, 0x0061, 0x006C, 0x0075, 0x0065, 0x003A, 0x0020, 0x007B, 0x0065, 0x0072, 0x0072, 0x006F, 0x0072, 0x007D]\<rparr>"
  by (simp add: TOOL_SCHEMAS_def write_pieces_def hole_def) (simp add: js_def)

lemma field_names [simp]:
  "0x7B \<notin> set (js ''key'')" "0x7D \<notin> set (js ''key'')" "0x7B \<notin> set (js ''value'')" "0x7D \<notin> set (js ''value'')"
  "0x7B \<notin> set (js ''warning'')" "0x7D \<notin> set (js ''warning'')"
  by code_simp+

lemma write_pieces_clean: "list_all (clean Map.empty) write_pieces"
  by (simp add: write_pieces_def clean_def no_open_def)

text \<open>A dollar is not safe in a summary, and a value can be taken for a hole: two dollars are reported as one, and a key that is
  spelled like the hole of the value takes the value's place, for the tool that writes a configuration value.\<close>

theorem summaries_misreport:
  assumes "plain_text v"
  shows "let summary = (\<lambda>k v. deltaFormatter H (js ''write_config_value'') (the (map_of TOOL_SCHEMAS (js ''write_config_value'')))
           (JObj [(js ''success'', JBool True), (js ''data'', JObj [(js ''key'', JStr k), (js ''value'', JStr v)])]))
    in summary k (js ''$$'') = summary k (js ''$'')
     \<and> summary (js ''{value}'') v = [0x2705, 0x0020] @ v @ [0x0020, 0x5DF2, 0x5199, 0x5165, 0x0020, 0x0022] @ js ''{value}'' @ [0x0022]"
proof -
  let ?f = "\<lambda>k v. deltaFormatter H (js ''write_config_value'') (the (map_of TOOL_SCHEMAS (js ''write_config_value'')))
           (JObj [(js ''success'', JBool True), (js ''data'', JObj [(js ''key'', JStr k), (js ''value'', JStr v)])])"
  let ?r = "\<lambda>s n. replace_first s (hole (js n))"
  have run: "?f k v = ?r (?r (?r (render Map.empty write_pieces) ''key'' k) ''value'' v) ''warning'' []" for k v
    unfolding write_schema deltaFormatter_def
    by (simp add: jfield_def json_or_def fillTemplate_def value_text_def string_of_def falsy_text_def)
  have dollars: "js ''$$'' = [0x24, 0x24]" "js ''$'' = [0x24]" and h: "js ''{value}'' = hole (js ''value'')"
    by code_simp+
  have "expand_dollars m x y [0x24, 0x24] = expand_dollars m x y [0x24]" for m x y by simp
  then have "replace_first s p [0x24, 0x24] = replace_first s p [0x24]" for s p unfolding replace_first_def by presburger
  then have one: "?f k (js ''$$'') = ?f k (js ''$'')"
    unfolding run dollars by presburger
  let ?a = "[0x2705, 0x0020]" let ?b = "[0x0020, 0x5DF2, 0x5199, 0x5165, 0x0020, 0x0022]" let ?c = "[0x0022]"
  let ?v = "hole (js ''value'')"
  have a: "no_open ?a" "no_open ?b" "no_open ?c" by code_simp+
  have "?r (render Map.empty write_pieces) ''key'' ?v = render (Map.empty(js ''key'' \<mapsto> ?v)) write_pieces"
    by (rule replace_render [OF write_pieces_clean]) (simp_all add: write_pieces_def, code_simp)
  then have s1: "?r (render Map.empty write_pieces) ''key'' ?v = ?a @ ?v @ ?b @ ?v @ ?c"
    by (simp add: write_pieces_def)
  have "split_first ?v (?a @ ?v @ ?b @ ?v @ ?c) = Some (?a, ?b @ ?v @ ?c)"
    using split_skip [OF a(1), of "js ''value''" "?v @ ?b @ ?v @ ?c"] split_hole [of "js ''value''" "js ''value''" "?b @ ?v @ ?c"] by simp
  then have s2: "?r (?a @ ?v @ ?b @ ?v @ ?c) ''value'' v = render Map.empty [Lit (?a @ v @ ?b), Hole (js ''value''), Lit ?c]"
    using assms by (simp add: replace_first_def expand_plain plain_text_def)
  have "?r (render Map.empty [Lit (?a @ v @ ?b), Hole (js ''value''), Lit ?c]) ''warning'' []
      = render (Map.empty(js ''warning'' \<mapsto> [])) [Lit (?a @ v @ ?b), Hole (js ''value''), Lit ?c]"
    using assms a by (intro replace_render) (simp_all add: clean_def no_open_def plain_text_def)
  then have "?f (js ''{value}'') v = ?a @ v @ ?b @ js ''{value}'' @ ?c"
    unfolding run h s1 s2 by simp
  with one show ?thesis unfolding Let_def by blast
qed

lemma summaries_misreport_witness:
  "deltaFormatter sample_host (js ''write_config_value'') (the (map_of TOOL_SCHEMAS (js ''write_config_value'')))
     (JObj [(js ''success'', JBool True), (js ''data'', JObj [(js ''key'', JStr (js ''{value}'')), (js ''value'', JStr (js ''7''))])])
   = [0x2705, 0x0020] @ js ''7'' @ [0x0020, 0x5DF2, 0x5199, 0x5165, 0x0020, 0x0022] @ js ''{value}'' @ [0x0022]"
  using summaries_misreport [of "js ''7''" sample_host "[]"] by (simp add: Let_def) (simp add: plain_text_def js_def)

section \<open>The summary of a result\<close>

definition result_json :: "tool_result \<Rightarrow> json" where
  "result_json r = JObj ([(js ''success'', JBool (tr_success r))] @ opt_field (js ''data'') (tr_data r)
     @ opt_field (js ''error'') (map_option JStr (tr_error r)))"

text \<open>A property of a value that may be missing.\<close>

definition jopt :: "jstr \<Rightarrow> json option \<Rightarrow> json option" where
  "jopt k v = (case v of None \<Rightarrow> None | Some j \<Rightarrow> jfield k j)"

definition jor :: "json option \<Rightarrow> json option \<Rightarrow> json option" where
  "jor a b = (if json_truthy a then a else b)"

definition extract_key :: "json option \<Rightarrow> json option" where
  "extract_key v =
     (if \<not> json_truthy v then None
      else if json_truthy (jopt (js ''key'') v) then jopt (js ''key'') v
      else if json_truthy (jopt (js ''field_key'') v) then jopt (js ''field_key'') v else None)"

definition extractFirstError :: "'a jsenv_scheme \<Rightarrow> json \<Rightarrow> jstr option" where
  "extractFirstError H r =
     (if json_truthy (jfield (js ''error'') r) then Some (take 80 (string_of H (the (jfield (js ''error'') r))))
      else case jfield (js ''errors'') r of
          Some (JArr (first # _)) \<Rightarrow>
            (if first = JNull then None
             else Some (take 80 (text_or H (jor (jfield (js ''message'') first) (jfield (js ''error'') first)) (stringify H first))))
        | Some (JStr (c # _)) \<Rightarrow> Some (take 80 (stringify H (JStr [c])))
        | _ \<Rightarrow> (if json_truthy (jfield (js ''message'') r) then Some (take 80 (string_of H (the (jfield (js ''message'') r))))
                else Some [0x914D, 0x7F6E, 0x4E0D, 0x7B26, 0x5408, 0x89C4, 0x8303]))"

definition created_field :: "'a jsenv_scheme \<Rightarrow> json \<Rightarrow> jstr" where
  "created_field H r =
     (if jfield (js ''success'') r = Some (JBool False) then [0x274C, 0x0020, 0x521B, 0x5EFA, 0x5B57, 0x6BB5, 0x5931, 0x8D25, 0x003A, 0x0020] @ text_or H (jfield (js ''error'') r) [0x672A, 0x77E5, 0x9519, 0x8BEF]
      else (let d = jfield (js ''data'') r;
                f = jor (jopt (js ''field'') d) (jor (jfield (js ''field'') r) (jor d (Some r)));
                key = jor (extract_key f) (extract_key (Some r))
            in if json_truthy key
               then [0x2705, 0x0020, 0x5DF2, 0x521B, 0x5EFA, 0x5B57, 0x6BB5, 0x003A, 0x0020] @ string_of H (the key) @ js '' ('' @ text_or H (jor (jopt (js ''type'') f) (jopt (js ''field_type'') f)) (js ''str'')
                      @ js '', '' @ (if json_truthy (jopt (js ''required'') f) then js ''required'' else js ''optional'')
                      @ js '', widget='' @ text_or H (jopt (js ''widget'') f) (js ''input'') @ js '')''
               else [0x2705, 0x0020, 0x521B, 0x5EFA, 0x5B57, 0x6BB5, 0x6210, 0x529F]))"

definition generated_template :: "'a jsenv_scheme \<Rightarrow> json \<Rightarrow> jstr" where
  "generated_template H r =
     (if jfield (js ''success'') r = Some (JBool False) then [0x274C, 0x0020, 0x751F, 0x6210, 0x5931, 0x8D25, 0x003A, 0x0020] @ text_or H (jfield (js ''error'') r) [0x672A, 0x77E5, 0x9519, 0x8BEF]
      else (let d = jor (jfield (js ''data'') r) (Some r);
                t = jopt (js ''template'') d;
                name = jor (jopt (js ''source_vendor'') t) (jor (jopt (js ''name'') t) (jopt (js ''name'') d));
                n = (if json_truthy (jopt (js ''mapping'') d) then jlength (jopt (js ''mapping'') d)
                     else if json_truthy (jopt (js ''mapping'') t) then jlength (jopt (js ''mapping'') t) else Some (jnat 0))
            in [0x2705, 0x0020, 0x5DF2, 0x751F, 0x6210, 0x5F52, 0x4E00, 0x5316, 0x6A21, 0x677F, 0x003A, 0x0020] @ text_or_empty H name
               @ (if json_truthy n then [0xFF0C] @ string_of H (the n) @ [0x0020, 0x4E2A, 0x6620, 0x5C04] else [])))"

text \<open>The branches for the tools that have no formatter of their own (those of the declared tools are not reached); \<open>None\<close> when reading the first error throws.\<close>

definition legacy_delta :: "'a jsenv_scheme \<Rightarrow> jstr \<Rightarrow> json \<Rightarrow> jstr option" where
  "legacy_delta H tool r =
     (let ok = jfield (js ''success'') r; err = text_or H (jfield (js ''error'') r) [0x672A, 0x77E5, 0x9519, 0x8BEF] in
      if tool = js ''create_schema_field'' then Some (created_field H r)
      else if tool = js ''update_gate_rule''
      then (if \<not> json_truthy ok \<and> ok \<noteq> None then Some ([0x274C, 0x0020, 0x66F4, 0x65B0, 0x0020, 0x0047, 0x0061, 0x0074, 0x0065, 0x0020, 0x5931, 0x8D25, 0x003A, 0x0020] @ err)
            else Some ([0x2705, 0x0020, 0x5DF2, 0x66F4, 0x65B0, 0x0020, 0x0047, 0x0061, 0x0074, 0x0065, 0x0020, 0x89C4, 0x5219, 0x003A, 0x0020] @ text_or_empty H (jor (jfield (js ''gate_id'') r) (jopt (js ''gate_id'') (jfield (js ''data'') r)))))
      else if tool = js ''validate_config''
      then (if json_truthy ok \<or> json_truthy (jfield (js ''valid'') r)
            then Some ([0x2705, 0x0020, 0x6821, 0x9A8C, 0x901A, 0x8FC7, 0xFF0C] @ (case jlength (jfield (js ''errors'') r) of None \<Rightarrow> js ''0'' | Some n \<Rightarrow> string_of H n) @ [0x0020, 0x4E2A, 0x9519, 0x8BEF])
            else map_option (\<lambda>e. [0x274C, 0x0020, 0x6821, 0x9A8C, 0x5931, 0x8D25, 0x003A, 0x0020] @ e) (extractFirstError H r))
      else if tool = js ''generate_normalizer_template'' then Some (generated_template H r)
      else if json_truthy ok then Some [0x2705, 0x0020, 0x64CD, 0x4F5C, 0x6210, 0x529F]
      else if ok = Some (JBool False) then Some ([0x274C, 0x0020, 0x64CD, 0x4F5C, 0x5931, 0x8D25, 0x003A, 0x0020] @ err)
      else Some [0x2705, 0x0020, 0x64CD, 0x4F5C, 0x6210, 0x529F])"

definition buildToolDelta :: "'a jsenv_scheme \<Rightarrow> jstr \<Rightarrow> json \<Rightarrow> jstr option" where
  "buildToolDelta H tool r =
     (if r = JNull then Some [0x274C, 0x0020, 0x64CD, 0x4F5C, 0x5931, 0x8D25, 0xFF1A, 0x7A7A, 0x7ED3, 0x679C]
      else case map_of TOOL_SCHEMAS tool of
          Some sc \<Rightarrow> Some (deltaFormatter H tool sc r)
        | None \<Rightarrow> legacy_delta H tool r)"

section \<open>The lines of a result\<close>

definition TOOL_LABELS :: "(jstr \<times> jstr) list" where
  "TOOL_LABELS =
     [(js ''write_config_value'', [0x8BBE, 0x7F6E, 0x914D, 0x7F6E]), (js ''read_config_value'', [0x8BFB, 0x53D6, 0x914D, 0x7F6E]), (js ''list_configs'', [0x5217, 0x51FA, 0x914D, 0x7F6E]),
      (js ''create_schema_field'', [0x521B, 0x5EFA, 0x0020, 0x0053, 0x0063, 0x0068, 0x0065, 0x006D, 0x0061, 0x0020, 0x5B57, 0x6BB5]), (js ''create_gate_chain'', [0x521B, 0x5EFA, 0x0020, 0x0047, 0x0061, 0x0074, 0x0065, 0x0020, 0x89C4, 0x5219, 0x94FE]), (js ''update_gate_rule'', [0x66F4, 0x65B0, 0x0020, 0x0047, 0x0061, 0x0074, 0x0065, 0x0020, 0x89C4, 0x5219]),
      (js ''validate_config'', [0x6821, 0x9A8C, 0x914D, 0x7F6E]), (js ''generate_normalizer_template'', [0x751F, 0x6210, 0x5F52, 0x4E00, 0x5316, 0x6A21, 0x677F]), (js ''list_directory'', [0x5217, 0x51FA, 0x76EE, 0x5F55]),
      (js ''read_file'', [0x8BFB, 0x53D6, 0x6587, 0x4EF6]), (js ''search_content'', [0x641C, 0x7D22, 0x5185, 0x5BB9]), (js ''find_files'', [0x67E5, 0x627E, 0x6587, 0x4EF6]), (js ''run_terminal'', [0x7EC8, 0x7AEF, 0x547D, 0x4EE4]),
      (js ''read_diagnostics'', [0x8BCA, 0x65AD, 0x4FE1, 0x606F]), (js ''chat'', [0x5BF9, 0x8BDD])]"

definition toolLabel :: "jstr \<Rightarrow> jstr" where
  "toolLabel n = or_text (map_of TOOL_LABELS n) n"

text \<open>Reading a property of a null element throws: \<open>None\<close>.\<close>

definition dir_line :: "'a jsenv_scheme \<Rightarrow> json \<Rightarrow> jstr option" where
  "dir_line H item =
     (case item of
        JStr s \<Rightarrow> Some s
      | JNull \<Rightarrow> None
      | _ \<Rightarrow> (if json_truthy (jfield (js ''name'') item)
             then Some ((if jfield (js ''type'') item = Some (JStr (js ''dir'')) then [0xD83D, 0xDCC1] else [0xD83D, 0xDCC4]) @ js '' '' @ string_of H (the (jfield (js ''name'') item)))
             else Some (stringify H item)))"

definition formatDirLines :: "'a jsenv_scheme \<Rightarrow> json \<Rightarrow> jstr list option" where
  "formatDirLines H d =
     (case d of
        JArr [] \<Rightarrow> Some [[0x0028, 0x76EE, 0x5F55, 0x4E3A, 0x7A7A, 0x0029]]
      | JArr xs \<Rightarrow> those (map (dir_line H) xs)
      | JStr s \<Rightarrow> Some [s]
      | _ \<Rightarrow> Some [pretty H d])"

definition config_line :: "'a jsenv_scheme \<Rightarrow> (jstr \<times> jstr) list \<Rightarrow> json \<Rightarrow> jstr option" where
  "config_line H labels c =
     (if c = JNull then None
      else (let key = text_or_empty H (jfield (js ''key'') c);
                label = or_text (map_of labels key) (or_text (Some (last (split_at 0x2E key))) key);
                val = (case jfield (js ''value'') c of None \<Rightarrow> None | Some JNull \<Rightarrow> None | Some j \<Rightarrow> Some (string_of H j))
            in Some (label @ [0xFF1A] @ key @ (if falsy_text val then [0x0020, 0x672A, 0x8BBE, 0x7F6E] else js '' = '' @ the val))))"

definition resultLines :: "'a jsenv_scheme \<Rightarrow> (jstr \<times> jstr) list \<Rightarrow> jstr \<Rightarrow> tool_result \<Rightarrow> jstr list option" where
  "resultLines H labels tool r =
     (if \<not> tr_success r \<or> \<not> json_truthy (tr_data r) then Some [or_text (tr_error r) [0x64CD, 0x4F5C, 0x5931, 0x8D25]]
      else (let d = the (tr_data r) in
            if tool = js ''list_directory'' then formatDirLines H d
            else if tool = js ''list_configs''
            then (case jfield (js ''configs'') d of Some (JArr cs) \<Rightarrow> those (map (config_line H labels) cs) | _ \<Rightarrow> Some [pretty H d])
            else case d of
                JArr xs \<Rightarrow> Some (map (\<lambda>x. case x of JStr s \<Rightarrow> s | _ \<Rightarrow> stringify H x) xs)
              | JStr s \<Rightarrow> Some (filter (\<lambda>l. l \<noteq> []) (split_at 0x0A s))
              | _ \<Rightarrow> Some [pretty H d]))"

text \<open>A listed directory is never shown as lines: the tool answers with an object around the entries, and the formatter looks for an
  array, so every successful listing is shown as one line of JSON.\<close>

theorem directory_listing_is_json:
  assumes "fst (list_directory H args w) = Returned r" "tr_success r"
  shows "\<exists>p rest. tr_data r = Some (JObj ((js ''path'', p) # rest)) \<and> resultLines H labels (js ''list_directory'') r = Some [pretty H (the (tr_data r))]"
proof -
  from assms have "\<exists>p rest. tr_data r = Some (JObj ((js ''path'', p) # rest))"
    by (auto simp: list_directory_def Let_def split: if_splits sum.splits prod.splits)
  with assms(2) show ?thesis by (auto simp: resultLines_def formatDirLines_def)
qed

definition dir_host :: "unit host" where
  "dir_host = sample_host\<lparr>ipc := \<lambda>t a w. (Answer (JObj [(js ''success'', JBool True), (js ''result'', JArr [])]), w)\<rparr>"

lemma directory_listing_is_json_witness:
  "\<exists>r. fst (list_directory dir_host [(js ''path'', JStr (js ''/p''))] ()) = Returned r
     \<and> resultLines dir_host [] (js ''list_directory'') r = Some [pretty dir_host (the (tr_data r))]"
proof -
  let ?r = "success_with (JObj [(js ''path'', JStr (js ''/p'')), (js ''entries'', JArr []), (js ''count'', jnat 0)])"
  have "fst (list_directory dir_host [(js ''path'', JStr (js ''/p''))] ()) = Returned ?r"
    by (simp add: list_directory_def dir_host_def call_host_def succeeded_def parsed_result_def jfield_def opt_field_def array_or_empty_def Let_def)
  with directory_listing_is_json [OF this, of "[]"] show ?thesis by auto
qed

end
