(* ===== verification/Evidence.thy ===== *)
theory Evidence
  imports ToolFormat
begin

text \<open>
  The evidence chain of the editor's assistant (\<open>context-manager/executionTrace.ts\<close>, \<open>pipeline/stage-execute.ts\<close>): the trace of
  tool calls with its identifiers, the registry of records with its hash, the matching of plan steps against the
  registry, the check of the claims in a text, and the stage that runs tool calls and fills all of these. The clock is a
  parameter that reads the world.
\<close>

section \<open>The trace\<close>

record trace_node =
  node_id :: jstr
  node_tool :: jstr
  node_summary :: jstr
  node_deps :: "jstr list"

record tool_record =
  rec_id :: jstr
  rec_tool :: jstr
  rec_hash :: jstr
  rec_ok :: bool
  rec_time :: int

record evidence =
  trace_round :: nat
  trace_nodes :: "trace_node list"
  records :: "(jstr, tool_record) jmap"

definition no_evidence :: evidence where
  "no_evidence = \<lparr>trace_round = 0, trace_nodes = [], records = []\<rparr>"

text \<open>\<open>parts.map((p) => p[0]).join('')\<close>: an empty part has no first character and is joined as nothing.\<close>

definition toolNameToShort :: "jstr \<Rightarrow> jstr" where
  "toolNameToShort name =
     (let parts = split_at 0x5F name
      in if 2 \<le> length parts then concat (map (take 1) parts) else take 3 name)"

definition pad2 :: "nat \<Rightarrow> jstr" where
  "pad2 n = (let d = decimal n in replicate (2 - length d) 0x30 @ d)"

definition trace_id :: "jstr \<Rightarrow> nat \<Rightarrow> jstr" where
  "trace_id tool n = js ''call_'' @ toolNameToShort tool @ 0x5F # pad2 n"

definition newRound :: "evidence \<Rightarrow> evidence" where
  "newRound E = E\<lparr>trace_round := Suc (trace_round E)\<rparr>"

definition addNode :: "jstr option \<Rightarrow> jstr \<Rightarrow> jstr \<Rightarrow> jstr list option \<Rightarrow> evidence \<Rightarrow> trace_node \<times> evidence" where
  "addNode given tool summary deps E =
     (let node = \<lparr>node_id = (if falsy_text given then trace_id tool (length (trace_nodes E) + 1) else the given),
                  node_tool = tool, node_summary = summary, node_deps = (case deps of None \<Rightarrow> [] | Some ds \<Rightarrow> ds)\<rparr>
      in (node, E\<lparr>trace_nodes := trace_nodes E @ [node]\<rparr>))"

definition serialize_trace :: "evidence \<Rightarrow> jstr" where
  "serialize_trace E =
     (if trace_nodes E = [] then []
      else join_with [0x0A] ([0x5DE5, 0x5177, 0x6267, 0x884C, 0x8F68, 0x8FF9, 0x003A] # map (\<lambda>n. js ''  ['' @ node_id n @ js ''] '' @ node_tool n @ [0x0020, 0x2192, 0x0020] @ node_summary n
             @ (if node_deps n = [] then [] else [0x0020, 0x0028, 0x4F9D, 0x8D56, 0x003A, 0x0020] @ join_with (js '', '') (node_deps n) @ js '')'')) (trace_nodes E)))"

text \<open>\<open>slice(-10 * maxKeep)\<close>; for zero that is \<open>slice(0)\<close>, which keeps everything.\<close>

definition reset_trace :: "nat \<Rightarrow> evidence \<Rightarrow> evidence" where
  "reset_trace maxKeep E =
     (if maxKeep < trace_round E
      then E\<lparr>trace_nodes := (if maxKeep = 0 then trace_nodes E
                             else drop (length (trace_nodes E) - 10 * maxKeep) (trace_nodes E))\<rparr>
      else E)"

section \<open>The registry\<close>

text \<open>The hash: a polynomial in 32-bit arithmetic, whose absolute value is written in base 16.\<close>

definition hash_step :: "32 word \<Rightarrow> 16 word \<Rightarrow> 32 word" where
  "hash_step h c = push_bit 5 h - h + ucast c"

definition hash_word :: "jstr \<Rightarrow> 32 word" where
  "hash_word s = foldl hash_step 0 s"

definition hex_digit :: "nat \<Rightarrow> 16 word" where
  "hex_digit d = (if d < 10 then 0x30 + of_nat d else 0x57 + of_nat d)"

fun hex :: "nat \<Rightarrow> jstr" where
  "hex n = (if n < 16 then [hex_digit n] else hex (n div 16) @ [hex_digit (n mod 16)])"

declare hex.simps [simp del]

definition sha256 :: "jstr \<Rightarrow> jstr" where
  "sha256 s = take 8 (hex (nat \<bar>sint (hash_word s)\<bar>))"

definition record_call :: "jstr \<Rightarrow> jstr \<Rightarrow> jstr \<Rightarrow> bool \<Rightarrow> int \<Rightarrow> evidence \<Rightarrow> evidence" where
  "record_call i tool out ok t E =
     E\<lparr>records := mput i \<lparr>rec_id = i, rec_tool = tool, rec_hash = sha256 out, rec_ok = ok, rec_time = t\<rparr> (records E)\<rparr>"

definition findByCallId :: "evidence \<Rightarrow> jstr \<Rightarrow> tool_record option" where
  "findByCallId E i = mget (records E) i"

definition verifyOutput :: "evidence \<Rightarrow> jstr \<Rightarrow> jstr \<Rightarrow> bool" where
  "verifyOutput E i claimed =
     (case findByCallId E i of None \<Rightarrow> False | Some r \<Rightarrow> rec_hash r = take 8 (sha256 claimed))"

definition reset_records :: "evidence \<Rightarrow> evidence" where
  "reset_records E = E\<lparr>records := []\<rparr>"

subsection \<open>Claims in a text\<close>

definition id_unit :: "16 word \<Rightarrow> bool" where
  "id_unit c \<longleftrightarrow> (0x61 \<le> c \<and> c \<le> 0x7A) \<or> is_digit c \<or> c = 0x5F"

text \<open>\<open>/\\[(call_[a-z0-9_]+)\\]/g\<close>: the closing bracket is not in the class, so the longest run decides.\<close>

function extractCallIds :: "jstr \<Rightarrow> jstr list" where
  "extractCallIds [] = []"
| "extractCallIds (c # s) =
     (if c = 0x5B \<and> starts_with s (js ''call_'')
      then (let body = takeWhile id_unit (drop 5 s); rest = drop (5 + length body) s
            in if body \<noteq> [] \<and> rest \<noteq> [] \<and> hd rest = 0x5D
               then (js ''call_'' @ body) # extractCallIds (tl rest) else extractCallIds s)
      else extractCallIds s)"
  by pat_completeness auto
termination by (relation "measure length") (auto simp: less_Suc_eq_le)

definition tool_claims :: "jstr list" where
  "tool_claims = [[0x5DF2, 0x5217, 0x51FA], [0x5DF2, 0x8BFB, 0x53D6], [0x5DF2, 0x521B, 0x5EFA], [0x5DF2, 0x66F4, 0x65B0], [0x5DF2, 0x5199, 0x5165], [0x5DF2, 0x751F, 0x6210]]"

datatype verification = Verified | NoReceipt | MissingReceipt jstr

definition verifyAIClaims :: "evidence \<Rightarrow> jstr \<Rightarrow> verification" where
  "verifyAIClaims E t =
     (let ids = extractCallIds t in
      if (\<exists>m\<in>set tool_claims. str_includes t m) \<and> ids = [] then NoReceipt
      else case find (\<lambda>i. findByCallId E i = None) ids of Some i \<Rightarrow> MissingReceipt i | None \<Rightarrow> Verified)"

definition fabrication_markers :: "jstr list" where
  "fabrication_markers = [[0x5DF2, 0x4FEE, 0x6539], [0x5DF2, 0x5199, 0x5165], [0x5DF2, 0x5B8C, 0x6210], [0x5DF2, 0x521B, 0x5EFA], [0x5DF2, 0x66F4, 0x65B0], [0x5DF2, 0x5220, 0x9664], [0x5DF2, 0x8BBE, 0x7F6E], [0x5DF2, 0x751F, 0x6210], [0x5DF2, 0x8BFB, 0x53D6]]"

text \<open>The leftmost marker of a text.\<close>

fun first_marker :: "jstr \<Rightarrow> jstr option" where
  "first_marker [] = None"
| "first_marker (c # s) =
     (case find (starts_with (c # s)) fabrication_markers of Some m \<Rightarrow> Some m | None \<Rightarrow> first_marker s)"

definition checkFabricationRisk :: "jstr \<Rightarrow> 'p list option \<Rightarrow> nat \<Rightarrow> jstr option" where
  "checkFabricationRisk content steps executed =
     (case first_marker content of
        None \<Rightarrow> None
      | Some m \<Rightarrow>
          (if 0 < executed \<or> (case steps of None \<Rightarrow> False | Some ss \<Rightarrow> ss \<noteq> []) then None
           else Some ([0x26A0, 0xFE0F, 0x0020, 0x0041, 0x0049, 0x0020, 0x58F0, 0x79F0, 0x0022] @ m @ [0x0022, 0x4F46, 0x672A, 0x8C03, 0x7528, 0x4EFB, 0x4F55, 0x5DE5, 0x5177, 0x3001, 0x672A, 0x5236, 0x5B9A, 0x8BA1, 0x5212, 0x3002, 0x8FD9, 0x53EF, 0x80FD, 0x662F, 0x4E00, 0x6B21, 0x865A, 0x5047, 0x6267, 0x884C, 0x3002, 0x8BF7, 0x91CD, 0x65B0, 0x63D0, 0x95EE, 0x6216, 0x6307, 0x5B9A, 0x5177, 0x4F53, 0x64CD, 0x4F5C, 0x3002])))"

section \<open>Matching plan steps\<close>

datatype evidence_status = Pending | Matched | Unmatched

record plan_step =
  ps_text :: jstr
  ps_done :: bool
  ps_call :: "jstr option"
  ps_calls :: "jstr list option"
  ps_status :: "evidence_status option"

definition succeeded_call :: "evidence \<Rightarrow> jstr \<Rightarrow> bool" where
  "succeeded_call E i = (case findByCallId E i of None \<Rightarrow> False | Some r \<Rightarrow> rec_ok r)"

text \<open>The verdict on a finished step.\<close>

definition step_matches :: "evidence \<Rightarrow> plan_step \<Rightarrow> bool" where
  "step_matches E p =
     (if starts_with (ps_text p) (js ''[CHAT]'') then True
      else case ps_calls p of
          Some (i # is) \<Rightarrow> list_all (succeeded_call E) (i # is)
        | _ \<Rightarrow> (if falsy_text (ps_call p) then False else succeeded_call E (the (ps_call p))))"

definition settle_step :: "evidence \<Rightarrow> plan_step \<Rightarrow> plan_step" where
  "settle_step E p = (if ps_done p then p\<lparr>ps_status := Some (if step_matches E p then Matched else Unmatched)\<rparr> else p)"

record verify_result =
  allMatched :: bool
  unmatchedSteps :: "plan_step list"
  summaryValid :: bool

definition roundVerify :: "evidence \<Rightarrow> plan_step list \<Rightarrow> jstr \<Rightarrow> verify_result \<times> plan_step list" where
  "roundVerify E steps summary =
     (let unmatched = map (settle_step E) (filter (\<lambda>p. ps_done p \<and> \<not> step_matches E p) steps)
      in (\<lparr>allMatched = (unmatched = []), unmatchedSteps = unmatched,
           summaryValid = (summary = [] \<or> verifyAIClaims E summary = Verified)\<rparr>, map (settle_step E) steps))"

section \<open>The execution stage\<close>

record tool_card =
  card_id :: jstr
  card_tool :: jstr
  card_ok :: bool
  card_lines :: "jstr list"

record 'w stage_env =
  stage_host :: "'w host"
  stage_tools :: "'w toolbox"
  stage_rules :: rule_table
  stage_labels :: "(jstr \<times> jstr) list"
  stage_clock :: "'w \<Rightarrow> int"

record 'w stage_state =
  world :: 'w
  evid :: evidence
  results :: "tool_result list"
  cards :: "tool_card list"

definition layer_name :: "gate_layer \<Rightarrow> jstr" where
  "layer_name l = (case l of DefaultLayer \<Rightarrow> js ''default'' | PolicyLayer \<Rightarrow> js ''policy'' | CustomLayer \<Rightarrow> js ''custom'')"

definition output_summary :: "jstr \<Rightarrow> tool_result \<Rightarrow> jstr" where
  "output_summary tool r =
     (if tr_success r then [0x2705, 0x0020] @ toolLabel tool @ [0x0020, 0x6210, 0x529F] else [0x274C, 0x0020] @ toolLabel tool @ js '': '' @ or_text (tr_error r) [0x5931, 0x8D25])"

text \<open>One call: execution, trace node, record, card. \<open>False\<close> when the call or the rendering of its result throws.\<close>

definition run_one :: "'w stage_env \<Rightarrow> tool_call \<Rightarrow> 'w stage_state \<Rightarrow> bool \<times> 'w stage_state" where
  "run_one V c S =
     (case executeToolCall (stage_host V) (stage_tools V) (stage_rules V) c (world S) of
        (Raised, w) \<Rightarrow> (False, S\<lparr>world := w\<rparr>)
      | (Returned r, w) \<Rightarrow>
          (let tool = tc_name c;
               out = output_summary tool r;
               (node, E) = addNode None tool out (Some []) (newRound (evid S));
               E1 = record_call (node_id node) tool out (tr_success r) (stage_clock V w) E;
               S1 = S\<lparr>world := w, evid := E1, results := results S @ [r]\<rparr>
           in case resultLines (stage_host V) (stage_labels V) tool r of
                None \<Rightarrow> (False, S1)
              | Some ls \<Rightarrow>
                  (True, S1\<lparr>cards := cards S1 @ [\<lparr>card_id = node_id node, card_tool = tool, card_ok = tr_success r,
                     card_lines = (case gateFactoryByName tool of None \<Rightarrow> ls | Some f \<Rightarrow> (js ''['' @ layer_name (snd f) @ js '']'') # ls)\<rparr>]\<rparr>)))"

fun run_calls :: "'w stage_env \<Rightarrow> tool_call list \<Rightarrow> 'w stage_state \<Rightarrow> bool \<times> 'w stage_state" where
  "run_calls V [] S = (True, S)"
| "run_calls V (c # cs) S = (case run_one V c S of (True, S1) \<Rightarrow> run_calls V cs S1 | (False, S1) \<Rightarrow> (False, S1))"

definition card_ref :: "tool_card list \<Rightarrow> nat \<Rightarrow> jstr option" where
  "card_ref cs i = (if i < length cs then Some (card_id (cs ! i)) else None)"

text \<open>The plan steps receive their evidence: from the ranges, or by position from the identifiers of the calls.\<close>

definition attach_ranges :: "tool_card list \<Rightarrow> nat list list \<Rightarrow> plan_step list \<Rightarrow> plan_step list" where
  "attach_ranges cs ranges steps =
     map (\<lambda>(i, p). if i < length ranges \<and> ranges ! i \<noteq> []
          then p\<lparr>ps_done := True, ps_call := card_ref cs (last (ranges ! i)),
                 ps_calls := Some (filter (\<lambda>x. x \<noteq> []) (List.map_filter (card_ref cs) (ranges ! i)))\<rparr>
          else p) (enumerate 0 steps)"

definition attach_positions :: "tool_call list \<Rightarrow> plan_step list \<Rightarrow> plan_step list" where
  "attach_positions calls steps =
     map (\<lambda>(i, p). if i < length calls then p\<lparr>ps_done := True, ps_call := Some (tc_id (calls ! i))\<rparr> else p) (enumerate 0 steps)"

record execution_result =
  toolResults :: "tool_result list"
  toolCards :: "tool_card list"
  allToolSuccess :: bool
  toolDelta :: "jstr option"
  verifyResult :: verify_result
  fabricationWarning :: "jstr option"

text \<open>The stage: its result and the plan steps as they are left, or \<open>None\<close> when it rejects.\<close>

definition executeStage :: "'w stage_env \<Rightarrow> tool_call list \<Rightarrow> plan_step list \<Rightarrow> nat list list \<Rightarrow> bool \<Rightarrow> jstr \<Rightarrow> evidence \<Rightarrow> 'w
    \<Rightarrow> (execution_result \<times> plan_step list) option \<times> evidence \<times> 'w" where
  "executeStage V calls steps ranges isUA content E w =
     (let (ok, S) = run_calls V calls \<lparr>world = w, evid = E, results = [], cards = []\<rparr>;
          delta = (if calls = [] \<or> results S = [] then Some None
                   else map_option Some (buildToolDelta (stage_host V) (tc_name (last calls)) (result_json (last (results S)))))
      in if \<not> ok then (None, evid S, world S)
         else (case delta of
             None \<Rightarrow> (None, evid S, world S)
           | Some d \<Rightarrow>
               (let attached = (if isUA then attach_ranges (cards S) ranges steps else attach_positions calls steps);
                    (v, settled) = roundVerify (evid S) attached content
                in (Some (\<lparr>toolResults = results S, toolCards = cards S, allToolSuccess = list_all tr_success (results S),
                      toolDelta = d, verifyResult = v,
                      fabricationWarning = checkFabricationRisk content (Some attached) (length calls)\<rparr>, settled), evid S, world S))))"

section \<open>From triples to tool calls\<close>

record action_meta =
  domainPrefix :: "jstr option"
  configType :: "jstr option"

record action_item =
  subject :: jstr
  operation :: jstr
  item_value :: "jstr option"
  item_condition :: "jstr option"
  item_meta :: "action_meta option"

definition put_arg :: "jstr \<Rightarrow> jstr \<Rightarrow> tool_args \<Rightarrow> tool_args" where
  "put_arg k v args = mput k (JStr v) args"

definition triplet_args :: "(jstr \<times> jstr) list option \<Rightarrow> action_item \<Rightarrow> jstr \<Rightarrow> tool_args" where
  "triplet_args keys item tn =
     (let a0 = (case item_value item of None \<Rightarrow> [] | Some v \<Rightarrow> put_arg (js ''value'') v []);
          a1 = (case item_condition item of None \<Rightarrow> a0 | Some c \<Rightarrow> put_arg (js ''condition'') c a0);
          key = (case keys of None \<Rightarrow> None | Some m \<Rightarrow> map_of m (subject item));
          a2 = (if falsy_text key then a1 else put_arg (js ''key'') (the key) a1);
          prefix = (case item_meta item of None \<Rightarrow> None | Some m \<Rightarrow> domainPrefix m);
          a3 = (if tn = js ''list_configs'' \<and> \<not> falsy_text prefix then mdel (js ''value'') (put_arg (js ''prefix'') (the prefix) a2) else a2)
      in if tn = js ''list_directory'' \<and> (case item_meta item of None \<Rightarrow> False | Some m \<Rightarrow> configType m = Some (js ''file''))
         then mdel (js ''value'') (if falsy_text (item_value item) then a3 else put_arg (js ''path'') (the (item_value item)) a3)
         else a3)"

text \<open>The identifiers hold the time and a random part: the function \<open>fresh\<close> of the operation and the position.\<close>

fun map_items :: "('a jsenv_scheme) \<Rightarrow> (jstr \<Rightarrow> nat \<Rightarrow> jstr) \<Rightarrow> (jstr \<times> jstr) list option \<Rightarrow> action_item list
    \<Rightarrow> tool_call list \<Rightarrow> nat list list \<Rightarrow> tool_call list \<times> nat list list" where
  "map_items H fresh keys [] calls ranges = (calls, ranges)"
| "map_items H fresh keys (item # items) calls ranges =
     (let new = map (\<lambda>(i, tn). \<lparr>tc_id = js ''call_ua_'' @ operation item @ 0x5F # fresh (operation item) i, tc_name = tn,
                tc_arguments = stringify H (JObj (triplet_args keys item tn))\<rparr>) (enumerate (length calls) (operationToTools (operation item)))
      in map_items H fresh keys items (calls @ new) (ranges @ [[length calls..<length calls + length new]]))"

definition mapTripletsToToolCalls :: "('a jsenv_scheme) \<Rightarrow> (jstr \<Rightarrow> nat \<Rightarrow> jstr) \<Rightarrow> action_item list \<Rightarrow> (jstr \<times> jstr) list option
    \<Rightarrow> tool_call list \<times> nat list list" where
  "mapTripletsToToolCalls H fresh items keys = map_items H fresh keys items [] []"

section \<open>Identifiers\<close>

definition digits_value :: "jstr \<Rightarrow> nat" where
  "digits_value s = foldl (\<lambda>a c. 10 * a + (unat c - 48)) 0 s"

lemma digits_value_decimal: "digits_value (decimal n) = n"
proof (induction n rule: decimal.induct)
  case (1 n)
  show ?case
  proof (cases "n < 10")
    case True
    then show ?thesis using digit_unit [OF True] by (simp add: digits_value_def decimal.simps [of n])
  next
    case False
    have "n mod 10 < 10" by simp
    with False 1 digit_unit [OF this] show ?thesis by (simp add: digits_value_def decimal.simps [of n])
  qed
qed

lemma digits_value_pad: "digits_value (pad2 n) = n"
proof -
  have "foldl (\<lambda>a c. 10 * a + (unat c - 48)) 0 (replicate k (0x30 :: 16 word)) = 0" for k :: nat
    by (induction k) (simp_all add: replicate_append_same [symmetric] del: replicate_append_same)
  then have "digits_value (replicate k 0x30 @ s) = digits_value s" for k s by (simp add: digits_value_def)
  then show ?thesis by (simp add: pad2_def Let_def digits_value_decimal)
qed

lemma split_parts: "p \<in> set (split_at d s) \<Longrightarrow> d \<notin> set p"
  by (induction s arbitrary: p) (auto split: list.splits if_splits)

lemma split_single: "length (split_at d s) < 2 \<Longrightarrow> d \<notin> set s"
proof -
  have "length (split_at d s) = Suc (length (filter ((=) d) s))"
    by (induction s) (auto split: list.splits)
  then show "length (split_at d s) < 2 \<Longrightarrow> d \<notin> set s" by (auto simp: filter_empty_conv)
qed

lemma short_no_underscore: "0x5F \<notin> set (toolNameToShort name)"
proof (cases "2 \<le> length (split_at 0x5F name)")
  case True
  have "0x5F \<notin> set (take 1 p)" if "p \<in> set (split_at 0x5F name)" for p
    using split_parts [OF that] by (auto dest: in_set_takeD)
  with True show ?thesis by (auto simp: toolNameToShort_def)
next
  case False
  then have "0x5F \<notin> set name" by (intro split_single) simp
  with False show ?thesis by (auto simp: toolNameToShort_def dest: in_set_takeD)
qed

text \<open>The number of a generated identifier determines it among the identifiers of a trace.\<close>

lemma trace_id_number:
  assumes "trace_id t m = trace_id u n"
  shows "m = n"
proof -
  have dw: "dropWhile (\<lambda>c. c \<noteq> 0x5F) (toolNameToShort x @ 0x5F # y) = 0x5F # y" for x y
    using short_no_underscore [of x] by (subst dropWhile_append2) auto
  from assms have "toolNameToShort t @ 0x5F # pad2 m = toolNameToShort u @ 0x5F # pad2 n" by (simp add: trace_id_def)
  then have "0x5F # pad2 m = 0x5F # pad2 n" using dw [of t "pad2 m"] dw [of u "pad2 n"] by simp
  then show ?thesis using digits_value_pad by (metis list.inject)
qed

section \<open>What a run of calls leaves\<close>

lemma run_one_ok:
  assumes "run_one V c S = (True, S')"
  shows "\<exists>r ls. fst (executeToolCall (stage_host V) (stage_tools V) (stage_rules V) c (world S)) = Returned r
    \<and> world S' = snd (executeToolCall (stage_host V) (stage_tools V) (stage_rules V) c (world S))
    \<and> results S' = results S @ [r]
    \<and> cards S' = cards S @ [\<lparr>card_id = trace_id (tc_name c) (Suc (length (trace_nodes (evid S)))), card_tool = tc_name c, card_ok = tr_success r, card_lines = ls\<rparr>]
    \<and> length (trace_nodes (evid S')) = Suc (length (trace_nodes (evid S)))
    \<and> (\<forall>i. succeeded_call (evid S') i =
        (if i = trace_id (tc_name c) (Suc (length (trace_nodes (evid S)))) then tr_success r else succeeded_call (evid S) i))"
  using assms
  by (auto simp: run_one_def addNode_def newRound_def record_call_def falsy_text_def succeeded_call_def findByCallId_def Let_def
      split: prod.splits tool_outcome.splits option.splits)

definition run_ids :: "nat \<Rightarrow> tool_call list \<Rightarrow> jstr list" where
  "run_ids n cs = map (\<lambda>(i, c). trace_id (tc_name c) (Suc i)) (enumerate n cs)"

lemma run_ids_simps [simp]: "run_ids n [] = []" "run_ids n (c # cs) = trace_id (tc_name c) (Suc n) # run_ids (Suc n) cs"
  by (simp_all add: run_ids_def)

lemma length_run_ids [simp]: "length (run_ids n cs) = length cs"
  by (simp add: run_ids_def)

lemma run_ids_number: "i \<in> set (run_ids n cs) \<Longrightarrow> \<exists>t m. i = trace_id t m \<and> n < m"
proof (induction cs arbitrary: n)
  case (Cons c cs)
  then show ?case using less_trans [of n "Suc n"] by fastforce
qed simp

lemma run_ids_distinct: "distinct (run_ids n cs)"
proof (induction cs arbitrary: n)
  case (Cons c cs)
  have "trace_id (tc_name c) (Suc n) \<notin> set (run_ids (Suc n) cs)"
    using run_ids_number trace_id_number by fastforce
  with Cons show ?case by simp
qed simp

lemma stage_calls_ok:
  assumes "run_calls V cs S = (True, S')"
  shows "\<exists>rs. results S' = results S @ rs \<and> length rs = length cs
    \<and> map card_id (cards S') = map card_id (cards S) @ run_ids (length (trace_nodes (evid S))) cs
    \<and> (\<forall>i. succeeded_call (evid S') i =
        (case map_of (zip (run_ids (length (trace_nodes (evid S))) cs) rs) i of Some r \<Rightarrow> tr_success r | None \<Rightarrow> succeeded_call (evid S) i))"
  using assms
proof (induction cs arbitrary: S)
  case Nil
  then show ?case by simp
next
  case (Cons c cs)
  obtain S1 where S1: "run_one V c S = (True, S1)" "run_calls V cs S1 = (True, S')"
    using Cons.prems by (auto split: prod.splits bool.splits)
  let ?n = "length (trace_nodes (evid S))"
  obtain r ls where one: "results S1 = results S @ [r]" "map card_id (cards S1) = map card_id (cards S) @ [trace_id (tc_name c) (Suc ?n)]"
    "length (trace_nodes (evid S1)) = Suc ?n"
    "\<forall>i. succeeded_call (evid S1) i = (if i = trace_id (tc_name c) (Suc ?n) then tr_success r else succeeded_call (evid S) i)"
    using run_one_ok [OF S1(1)] by fastforce
  obtain rs where rest: "results S' = results S1 @ rs" "length rs = length cs"
    "map card_id (cards S') = map card_id (cards S1) @ run_ids (Suc ?n) cs"
    "\<forall>i. succeeded_call (evid S') i = (case map_of (zip (run_ids (Suc ?n) cs) rs) i of Some r \<Rightarrow> tr_success r | None \<Rightarrow> succeeded_call (evid S1) i)"
    using Cons.IH [OF S1(2)] one(3) by auto
  have "map_of (zip (run_ids (Suc ?n) cs) rs) (trace_id (tc_name c) (Suc ?n)) = None"
    using run_ids_distinct [of ?n "c # cs"] rest(2) by (simp add: map_of_zip_is_None)
  then show ?case
    using one rest by (intro exI [of _ "r # rs"]) (auto split: option.splits)
qed

lemma run_calls_matched:
  assumes "run_calls V cs S = (True, S')" "results S = []" "cards S = []"
  shows "length (results S') = length cs" "length (cards S') = length cs"
    "k < length cs \<Longrightarrow> succeeded_call (evid S') (card_id (cards S' ! k)) = tr_success (results S' ! k)"
proof -
  let ?ids = "run_ids (length (trace_nodes (evid S))) cs"
  obtain rs where rs: "results S' = rs" "length rs = length cs" "map card_id (cards S') = ?ids"
    "\<forall>i. succeeded_call (evid S') i = (case map_of (zip ?ids rs) i of Some r \<Rightarrow> tr_success r | None \<Rightarrow> succeeded_call (evid S) i)"
    using stage_calls_ok [OF assms(1)] assms(2,3) by auto
  show len: "length (results S') = length cs" "length (cards S') = length cs"
    using rs(1,2) arg_cong [OF rs(3), of length] by simp_all
  assume k: "k < length cs"
  have "map_of (zip ?ids rs) (?ids ! k) = Some (rs ! k)"
    using k rs(2) run_ids_distinct by (intro map_of_zip_nth) simp_all
  moreover have "card_id (cards S' ! k) = ?ids ! k" using rs(3) k len by (metis nth_map)
  ultimately show "succeeded_call (evid S') (card_id (cards S' ! k)) = tr_success (results S' ! k)"
    using rs by simp
qed

lemma stage_cases:
  assumes "executeStage V calls steps ranges isUA content E w = (Some (R, settled), E', w')"
  shows "\<exists>S. run_calls V calls \<lparr>world = w, evid = E, results = [], cards = []\<rparr> = (True, S) \<and> E' = evid S \<and> w' = world S
    \<and> toolResults R = results S \<and> allToolSuccess R = list_all tr_success (results S)
    \<and> settled = map (settle_step (evid S)) (if isUA then attach_ranges (cards S) ranges steps else attach_positions calls steps)
    \<and> verifyResult R = fst (roundVerify (evid S) (if isUA then attach_ranges (cards S) ranges steps else attach_positions calls steps) content)"
  using assms
  by (auto simp: executeStage_def roundVerify_def Let_def split: prod.splits bool.splits if_splits option.splits)

lemma attach_ranges_nth:
  assumes "i < length steps" "i < length ranges" "ranges ! i \<noteq> []" "\<And>k. k \<in> set (ranges ! i) \<Longrightarrow> k < length cs \<and> card_id (cs ! k) \<noteq> []"
  shows "attach_ranges cs ranges steps ! i = (steps ! i)\<lparr>ps_done := True, ps_call := Some (card_id (cs ! last (ranges ! i))),
      ps_calls := Some (map (\<lambda>k. card_id (cs ! k)) (ranges ! i))\<rparr>"
proof -
  have "List.map_filter (card_ref cs) ks = map (\<lambda>k. card_id (cs ! k)) ks \<and> filter (\<lambda>x. x \<noteq> []) (map (\<lambda>k. card_id (cs ! k)) ks) = map (\<lambda>k. card_id (cs ! k)) ks"
    if "\<And>k. k \<in> set ks \<Longrightarrow> k < length cs \<and> card_id (cs ! k) \<noteq> []" for ks
    using that by (induction ks) (simp_all add: List.map_filter_simps card_ref_def)
  moreover have "last (ranges ! i) \<in> set (ranges ! i)" using assms(3) by simp
  ultimately show ?thesis
    using assms by (simp add: attach_ranges_def nth_enumerate_eq card_ref_def)
qed

lemma trace_id_nonempty [simp]: "trace_id t n \<noteq> []"
  by (simp add: trace_id_def)

lemma run_cards_nonempty:
  assumes "run_calls V cs S = (True, S')" "cards S = []" "k < length cs"
  shows "card_id (cards S' ! k) \<noteq> []"
proof -
  have "map card_id (cards S') = run_ids (length (trace_nodes (evid S))) cs"
    using stage_calls_ok [OF assms(1)] assms(2) by auto
  moreover then have "length (cards S') = length cs" by (metis length_map length_run_ids)
  ultimately have "card_id (cards S' ! k) = run_ids (length (trace_nodes (evid S))) cs ! k"
    using assms(3) by (metis nth_map)
  then show ?thesis using assms(3) by (simp add: run_ids_def nth_enumerate_eq)
qed

subsection \<open>The ranges of the mapped calls\<close>

lemma map_items_ranges:
  assumes "map_items H fresh keys items calls ranges = (calls', ranges')"
  shows "\<exists>new rs. calls' = calls @ new \<and> ranges' = ranges @ rs \<and> length rs = length items
    \<and> (\<forall>i<length items. length (rs ! i) = length (operationToTools (operation (items ! i)))
        \<and> (\<forall>k\<in>set (rs ! i). length calls \<le> k \<and> k < length calls')
        \<and> map (\<lambda>k. tc_name (calls' ! k)) (rs ! i) = operationToTools (operation (items ! i)))"
  using assms
proof (induction items arbitrary: calls ranges)
  case (Cons item items)
  let ?ts = "operationToTools (operation item)"
  define new where "new = map (\<lambda>(i, tn). \<lparr>tc_id = js ''call_ua_'' @ operation item @ 0x5F # fresh (operation item) i, tc_name = tn,
                tc_arguments = stringify H (JObj (triplet_args keys item tn))\<rparr>) (enumerate (length calls) ?ts)"
  have nl: "length new = length ?ts" by (simp add: new_def)
  have m: "map_items H fresh keys items (calls @ new) (ranges @ [[length calls..<length calls + length new]]) = (calls', ranges')"
    using Cons.prems by (simp add: new_def Let_def)
  then obtain n2 rs where r: "calls' = (calls @ new) @ n2" "ranges' = (ranges @ [[length calls..<length calls + length new]]) @ rs"
    "length rs = length items"
    "\<forall>i<length items. length (rs ! i) = length (operationToTools (operation (items ! i)))
        \<and> (\<forall>k\<in>set (rs ! i). length (calls @ new) \<le> k \<and> k < length calls')
        \<and> map (\<lambda>k. tc_name (calls' ! k)) (rs ! i) = operationToTools (operation (items ! i))"
    using Cons.IH [OF m] by blast
  have "map (\<lambda>k. tc_name (calls' ! k)) [length calls..<length calls + length new] = ?ts"
    by (rule nth_equalityI) (simp_all add: r(1) nth_append nl, simp add: new_def nth_enumerate_eq)
  then have first: "length [length calls..<length calls + length new] = length ?ts
      \<and> (\<forall>k\<in>set [length calls..<length calls + length new]. length calls \<le> k \<and> k < length calls')
      \<and> map (\<lambda>k. tc_name (calls' ! k)) [length calls..<length calls + length new] = ?ts"
    using nl r(1) by auto
  show ?case
  proof (intro exI conjI allI impI)
    show "calls' = calls @ (new @ n2)" "ranges' = ranges @ ([length calls..<length calls + length new] # rs)"
      "length ([length calls..<length calls + length new] # rs) = length (item # items)"
      using r by simp_all
    fix i assume i: "i < length (item # items)"
    show "length (([length calls..<length calls + length new] # rs) ! i) = length (operationToTools (operation ((item # items) ! i)))"
      "\<forall>k\<in>set (([length calls..<length calls + length new] # rs) ! i). length calls \<le> k \<and> k < length calls'"
      "map (\<lambda>k. tc_name (calls' ! k)) (([length calls..<length calls + length new] # rs) ! i) = operationToTools (operation ((item # items) ! i))"
      using first r(4) i by (cases i; fastforce)+
  qed
qed simp

text \<open>C25: Evidence from the mapped items: when the stage runs the calls of the items, the step of an item that has tools is marked as
  matched exactly when all the tools of its own operation succeeded, whatever was in the registry before and whatever the other
  calls did; a step that is marked as a chat is matched.\<close>

theorem mapped_steps_match_their_tools:
  assumes "mapTripletsToToolCalls H fresh items keys = (calls, ranges)"
    and "executeStage V calls steps ranges True content E w = (Some (R, settled), E', w')"
    and "i < length items" "i < length steps" "operationToTools (operation (items ! i)) \<noteq> []"
  shows "map (\<lambda>k. tc_name (calls ! k)) (ranges ! i) = operationToTools (operation (items ! i))
    \<and> ps_status (settled ! i) = Some (if starts_with (ps_text (steps ! i)) (js ''[CHAT]'') \<or> list_all (\<lambda>k. tr_success (toolResults R ! k)) (ranges ! i)
        then Matched else Unmatched)"
proof -
  have m: "length ranges = length items" "map (\<lambda>k. tc_name (calls ! k)) (ranges ! i) = operationToTools (operation (items ! i))"
    "\<And>k. k \<in> set (ranges ! i) \<Longrightarrow> k < length calls"
    using map_items_ranges [OF assms(1) [unfolded mapTripletsToToolCalls_def]] assms(3) by auto
  then have ne: "ranges ! i \<noteq> []" using assms(5) by auto
  obtain S where S: "run_calls V calls \<lparr>world = w, evid = E, results = [], cards = []\<rparr> = (True, S)" "toolResults R = results S"
    "settled = map (settle_step (evid S)) (attach_ranges (cards S) ranges steps)"
    using stage_cases [OF assms(2)] by auto
  note run = run_calls_matched [OF S(1)] and ids = run_cards_nonempty [OF S(1)]
  have a: "attach_ranges (cards S) ranges steps ! i = (steps ! i)\<lparr>ps_done := True, ps_call := Some (card_id (cards S ! last (ranges ! i))),
      ps_calls := Some (map (\<lambda>k. card_id (cards S ! k)) (ranges ! i))\<rparr>"
    using m ne assms(3,4) run(2) ids by (intro attach_ranges_nth) auto
  have "list_all (succeeded_call (evid S)) (map (\<lambda>k. card_id (cards S ! k)) (ranges ! i)) = list_all (\<lambda>k. tr_success (results S ! k)) (ranges ! i)"
    using run(3) m(3) by (auto simp: list_all_iff)
  moreover obtain k ks where "ranges ! i = k # ks" using ne by (cases "ranges ! i") auto
  moreover have "length (attach_ranges (cards S) ranges steps) = length steps" by (simp add: attach_ranges_def)
  ultimately show ?thesis
    using assms(4) m(2) by (simp add: S a settle_step_def step_matches_def)
qed

definition generated :: "jstr \<Rightarrow> bool" where
  "generated i \<longleftrightarrow> starts_with i (js ''call_'')"

definition only_generated :: "evidence \<Rightarrow> bool" where
  "only_generated E \<longleftrightarrow> list_all generated (mkeys (records E))"

lemma generated_trace_id: "generated (trace_id t n)"
  by (auto simp: generated_def trace_id_def starts_with_iff)

lemma unrecorded: "only_generated E \<Longrightarrow> \<not> generated i \<Longrightarrow> \<not> succeeded_call E i"
  by (auto simp: only_generated_def succeeded_call_def findByCallId_def mkeys_def list_all_iff split: option.splits)
    (metis map_of_SomeD fst_conv)

lemma run_one_generated: "run_one V c S = (b, S') \<Longrightarrow> only_generated (evid S) \<Longrightarrow> only_generated (evid S')"
  by (auto simp: run_one_def addNode_def newRound_def record_call_def falsy_text_def Let_def only_generated_def mkeys_mput generated_trace_id
      list_all_iff split: prod.splits tool_outcome.splits option.splits if_splits)

lemma run_calls_generated: "run_calls V cs S = (b, S') \<Longrightarrow> only_generated (evid S) \<Longrightarrow> only_generated (evid S')"
  by (induction cs arbitrary: S) (auto split: prod.splits bool.splits dest: run_one_generated)

text \<open>A stage with one tool that always succeeds.\<close>

definition sample_stage :: "unit stage_env" where
  "sample_stage =
     \<lparr>stage_host = sample_host\<lparr>parse_args := \<lambda>s. Some []\<rparr>,
      stage_tools = [(js ''read_config_value'', \<lambda>args w. (Returned (success_with (JBool True)), w))], stage_rules = [],
      stage_labels = [], stage_clock = \<lambda>w. 0\<rparr>"

lemma sample_run:
  assumes "tc_name c = js ''read_config_value''"
  shows "\<exists>R settled E'. executeStage sample_stage [c] steps ranges isUA content E () = (Some (R, settled), E', ())
    \<and> toolResults R = [success_with (JBool True)] \<and> allToolSuccess R"
proof -
  have t: "findTool (stage_tools sample_stage) (js ''read_config_value'') = Some (\<lambda>args w. (Returned (success_with (JBool True)), w))"
    by (simp add: sample_stage_def findTool_def)
  have "executeToolCall (stage_host sample_stage) (stage_tools sample_stage) (stage_rules sample_stage) c () = (Returned (success_with (JBool True)), ())"
    using assms t by (simp add: executeToolCall_def) (simp add: sample_stage_def evaluatePreGates_def)
  moreover have "resultLines H ls (js ''read_config_value'') (success_with (JBool True)) = Some [pretty H (JBool True)]" for H :: "unit host" and ls
    by (simp add: resultLines_def)
  ultimately obtain S where "run_calls sample_stage [c] \<lparr>world = (), evid = E, results = [], cards = []\<rparr> = (True, S)"
      "results S = [success_with (JBool True)]" "world S = ()"
    using assms by (auto simp: run_one_def addNode_def Let_def)
  moreover have "buildToolDelta H (js ''read_config_value'') j \<noteq> None" if "j \<noteq> JNull" for H :: "unit host" and j
    using that by (simp add: buildToolDelta_def TOOL_SCHEMAS_def)
  then obtain d where "buildToolDelta (stage_host sample_stage) (js ''read_config_value'') (result_json (success_with (JBool True))) = Some d"
    by (metis not_Some_eq result_json_def json.distinct(9))
  ultimately show ?thesis using assms by (simp add: executeStage_def Let_def split: prod.splits)
qed

definition sample_item :: action_item where
  "sample_item = \<lparr>subject = js ''s'', operation = js ''READ'', item_value = None, item_condition = None, item_meta = None\<rparr>"

definition sample_step :: plan_step where
  "sample_step = \<lparr>ps_text = js ''read'', ps_done = False, ps_call = None, ps_calls = None, ps_status = None\<rparr>"

lemma mapped_steps_match_their_tools_witness:
  "\<exists>R settled E'. executeStage sample_stage (fst (mapTripletsToToolCalls sample_host (\<lambda>_ _. js ''x'') [sample_item] None)) [sample_step]
      (snd (mapTripletsToToolCalls sample_host (\<lambda>_ _. js ''x'') [sample_item] None)) True [] no_evidence () = (Some (R, settled), E', ())
    \<and> ps_status (settled ! 0) = Some Matched"
proof -
  let ?m = "mapTripletsToToolCalls sample_host (\<lambda>_ _. js ''x'') [sample_item] None"
  have ops: "operationToTools (operation sample_item) = [js ''read_config_value'']"
    by (simp add: sample_item_def tools_of_query_ops)
  then obtain c where c: "?m = ([c], [[0]])" "tc_name c = js ''read_config_value''"
    by (simp add: mapTripletsToToolCalls_def Let_def)
  obtain R settled E' where x: "executeStage sample_stage [c] [sample_step] [[0]] True [] no_evidence () = (Some (R, settled), E', ())"
    "toolResults R = [success_with (JBool True)]"
    using sample_run [OF c(2), of "[sample_step]" "[[0]]" True "[]" no_evidence] by blast
  have "ps_status (settled ! 0) = Some Matched"
    using mapped_steps_match_their_tools [OF c(1) x(1), of 0] ops x(2) by simp
  then show ?thesis using x(1) by (simp add: c(1))
qed

text \<open>The fallback path has no evidence: plan steps are matched there by the identifiers of the calls, and the registry holds
  generated ones. When neither the calls nor the earlier records collide, every step of a call is marked as unmatched and the round as
  not balanced, even when every tool succeeded.\<close>

theorem fallback_steps_never_match:
  assumes "executeStage V calls steps ranges False content E w = (Some (R, settled), E', w')"
    and "only_generated E" "list_all (\<lambda>c. \<not> generated (tc_id c)) calls" "calls \<noteq> []" "length steps = length calls"
    and "list_all (\<lambda>p. \<not> starts_with (ps_text p) (js ''[CHAT]'') \<and> ps_calls p = None) steps"
  shows "list_all (\<lambda>p. ps_status p = Some Unmatched) settled \<and> \<not> allMatched (verifyResult R) \<and> only_generated E'"
proof -
  obtain S where S: "run_calls V calls \<lparr>world = w, evid = E, results = [], cards = []\<rparr> = (True, S)" "E' = evid S"
    "settled = map (settle_step (evid S)) (attach_positions calls steps)"
    "verifyResult R = fst (roundVerify (evid S) (attach_positions calls steps) content)"
    using stage_cases [OF assms(1)] by auto
  have g: "only_generated (evid S)" using run_calls_generated [OF S(1)] assms(2) by simp
  have att: "ps_done p \<and> \<not> step_matches (evid S) p" if p: "p \<in> set (attach_positions calls steps)" for p
  proof -
    obtain i where i: "i < length calls" "p = (steps ! i)\<lparr>ps_done := True, ps_call := Some (tc_id (calls ! i))\<rparr>"
      using p assms(5) by (auto simp: attach_positions_def in_set_enumerate_eq)
    moreover have "\<not> starts_with (ps_text (steps ! i)) (js ''[CHAT]'')" "ps_calls (steps ! i) = None" "\<not> generated (tc_id (calls ! i))"
      using assms(3,5,6) i(1) by (auto simp: list_all_length)
    ultimately show ?thesis using unrecorded [OF g] by (simp add: step_matches_def)
  qed
  have "length (attach_positions calls steps) = length steps" by (simp add: attach_positions_def)
  then have ne: "attach_positions calls steps \<noteq> []" using assms(4,5) by auto
  have "filter (\<lambda>p. ps_done p \<and> \<not> step_matches (evid S) p) (attach_positions calls steps) = attach_positions calls steps"
    using att by (auto simp: filter_id_conv)
  then have "\<not> allMatched (verifyResult R)" using ne by (simp add: S(4) roundVerify_def Let_def)
  moreover have "list_all (\<lambda>p. ps_status p = Some Unmatched) settled"
    using att by (auto simp: S(3) list_all_iff settle_step_def)
  ultimately show ?thesis using g S(2) by simp
qed

lemma fallback_steps_never_match_witness:
  "\<exists>R settled E'. executeStage sample_stage [\<lparr>tc_id = js ''cmd_0'', tc_name = js ''read_config_value'', tc_arguments = []\<rparr>] [sample_step]
      [[0, 0]] False [] no_evidence () = (Some (R, settled), E', ())
    \<and> allToolSuccess R \<and> \<not> allMatched (verifyResult R)"
proof -
  let ?c = "\<lparr>tc_id = js ''cmd_0'', tc_name = js ''read_config_value'', tc_arguments = []\<rparr>"
  obtain R settled E' where x: "executeStage sample_stage [?c] [sample_step] [[0, 0]] False [] no_evidence () = (Some (R, settled), E', ())"
    "allToolSuccess R"
    using sample_run [of ?c "[sample_step]" "[[0, 0]]" False "[]" no_evidence] by auto
  have h: "only_generated no_evidence" "list_all (\<lambda>c. \<not> generated (tc_id c)) [?c]"
    "list_all (\<lambda>p. \<not> starts_with (ps_text p) (js ''[CHAT]'') \<and> ps_calls p = None) [sample_step]"
    by (simp_all add: only_generated_def no_evidence_def mkeys_def generated_def sample_step_def js_def)
  from fallback_steps_never_match [OF x(1) h(1,2) _ _ h(3)] x show ?thesis by auto
qed

section \<open>All calls are executed\<close>

definition call_of :: "'w stage_env \<Rightarrow> tool_call \<Rightarrow> 'w \<Rightarrow> tool_outcome \<times> 'w" where
  "call_of V c w = executeToolCall (stage_host V) (stage_tools V) (stage_rules V) c w"

definition world_after :: "'w stage_env \<Rightarrow> tool_call list \<Rightarrow> 'w \<Rightarrow> 'w" where
  "world_after V cs w = fold (\<lambda>c w. snd (call_of V c w)) cs w"

lemma run_calls_worlds:
  "run_calls V cs S = (True, S') \<Longrightarrow> world S' = world_after V cs (world S)
    \<and> (\<exists>rs. results S' = results S @ rs \<and> length rs = length cs
        \<and> (\<forall>k<length cs. fst (call_of V (cs ! k) (world_after V (take k cs) (world S))) = Returned (rs ! k)))"
proof (induction cs arbitrary: S)
  case (Cons c cs)
  obtain S1 where S1: "run_one V c S = (True, S1)" "run_calls V cs S1 = (True, S')"
    using Cons.prems by (auto split: prod.splits bool.splits)
  obtain r where one: "fst (call_of V c (world S)) = Returned r" "world S1 = snd (call_of V c (world S))" "results S1 = results S @ [r]"
    using run_one_ok [OF S1(1)] unfolding call_of_def by blast
  obtain rs where rest: "world S' = world_after V cs (world S1)" "results S' = results S1 @ rs" "length rs = length cs"
    "\<forall>k<length cs. fst (call_of V (cs ! k) (world_after V (take k cs) (world S1))) = Returned (rs ! k)"
    using Cons.IH [OF S1(2)] by blast
  have "fst (call_of V ((c # cs) ! k) (world_after V (take k (c # cs)) (world S))) = Returned ((r # rs) ! k)" if "k < length (c # cs)" for k
    using that rest(4) one by (cases k) (simp_all add: world_after_def)
  then show ?case using rest one by (intro conjI exI [of _ "r # rs"]) (simp_all add: world_after_def)
qed (simp add: world_after_def)

text \<open>A stage that completes has executed every call, in order, each in the state that the ones before it left, also after a
  failure; its results are theirs, and it reports success exactly when all of them succeeded.\<close>

theorem stage_executes_every_call:
  assumes "executeStage V calls steps ranges isUA content E w = (Some (R, settled), E', w')"
  shows "w' = world_after V calls w \<and> length (toolResults R) = length calls
    \<and> list_all (\<lambda>k. fst (call_of V (calls ! k) (world_after V (take k calls) w)) = Returned (toolResults R ! k)) [0..<length calls]
    \<and> allToolSuccess R = list_all tr_success (toolResults R)"
proof -
  obtain S where S: "run_calls V calls \<lparr>world = w, evid = E, results = [], cards = []\<rparr> = (True, S)" "w' = world S"
    "toolResults R = results S" "allToolSuccess R = list_all tr_success (results S)"
    using stage_cases [OF assms] by blast
  from run_calls_worlds [OF S(1)] S show ?thesis by (auto simp: list_all_iff)
qed

lemma stage_executes_every_call_witness:
  "\<exists>R settled E'. executeStage sample_stage [\<lparr>tc_id = js ''cmd_0'', tc_name = js ''read_config_value'', tc_arguments = []\<rparr>] []
      [] False [] no_evidence () = (Some (R, settled), E', ()) \<and> length (toolResults R) = 1"
proof -
  obtain R settled E' where x: "executeStage sample_stage [\<lparr>tc_id = js ''cmd_0'', tc_name = js ''read_config_value'', tc_arguments = []\<rparr>] []
      [] False [] no_evidence () = (Some (R, settled), E', ())"
    using sample_run [of "\<lparr>tc_id = js ''cmd_0'', tc_name = js ''read_config_value'', tc_arguments = []\<rparr>"] by fastforce
  from stage_executes_every_call [OF x] x show ?thesis by auto
qed

section \<open>The hash\<close>

text \<open>The polynomial that the hash stands for.\<close>

definition poly31 :: "jstr \<Rightarrow> nat" where
  "poly31 s = foldl (\<lambda>h c. 31 * h + unat c) 0 s"

lemma hash_step_poly: "hash_step (of_nat h) c = of_nat (31 * h + unat c)"
proof -
  have "push_bit 5 w - w = 31 * w" for w :: "32 word" by (simp add: push_bit_eq_mult)
  then show ?thesis by (simp add: hash_step_def)
qed

lemma hash_word_poly: "hash_word s = of_nat (poly31 s)"
proof -
  have "foldl hash_step (of_nat h) s = of_nat (foldl (\<lambda>h c. 31 * h + unat c) h s)" for h
    by (induction s arbitrary: h) (simp_all add: hash_step_poly del: of_nat_add of_nat_mult)
  from this [of 0] show ?thesis by (simp add: hash_word_def poly31_def)
qed

lemma hex_length: "n < 16 ^ Suc k \<Longrightarrow> length (hex n) \<le> Suc k"
proof (induction k arbitrary: n)
  case (Suc k)
  then have "n div 16 < 16 ^ Suc k" by (simp add: less_mult_imp_div_less mult.commute)
  with Suc.IH [of "n div 16"] show ?case by (simp add: hex.simps [of n])
qed (simp add: hex.simps)

lemma hash_fits: "nat \<bar>sint (h :: 32 word)\<bar> < 16 ^ 8"
  using sint_greater_eq [of h] sint_less [of h] by simp

text \<open>The hash of a text is its polynomial to the base 31, taken as a signed number of 32 bits without its sign, in at most eight
  digits, so cutting it to eight digits changes nothing.\<close>

theorem hash_is_polynomial:
  "sha256 s = hex (nat \<bar>signed_take_bit 31 (int (poly31 s))\<bar>) \<and> length (sha256 s) \<le> 8 \<and> take 8 (sha256 s) = sha256 s"
proof -
  have "sint (hash_word s) = signed_take_bit 31 (int (poly31 s))"
    by (simp add: hash_word_poly signed_of_nat)
  moreover have "length (hex (nat \<bar>sint (hash_word s)\<bar>)) \<le> Suc 7"
    using hash_fits [of "hash_word s"] by (intro hex_length) simp
  ultimately show ?thesis by (simp add: sha256_def)
qed

text \<open>The verification of an output misses changes: the texts with the letters Aa and BB in the same place have the
  same hash, so a recorded output verifies a different one.\<close>

theorem changed_output_verifies:
  "verifyOutput (record_call i tool (u @ js ''Aa'' @ v) ok t E) i (u @ js ''BB'' @ v)"
proof -
  have letters: "js ''Aa'' = [0x41, 0x61]" "js ''BB'' = [0x42, 0x42]" by code_simp+
  have "poly31 (u @ js ''Aa'' @ v) = poly31 (u @ js ''BB'' @ v)"
    by (simp add: poly31_def letters)
  then have "sha256 (u @ js ''Aa'' @ v) = sha256 (u @ js ''BB'' @ v)"
    by (simp add: sha256_def hash_word_poly)
  then show ?thesis by (simp add: verifyOutput_def findByCallId_def record_call_def) (simp add: sha256_def)
qed

end
