(* ===== verification/TextIndex.thy ===== *)
theory TextIndex
  imports JsNumber "HOL-Library.Multiset"
begin

text \<open>
  What the lookups of the editor's assistant share: the stable sort by falling score, the words and pairs of characters
  that a text is cut into, and the inverted index of \<open>context-manager/fieldRetriever.ts\<close>. Lower-casing a text is
  the parameter \<open>low\<close>.
\<close>

section \<open>Sorting by score\<close>

text \<open>
  \<open>sort((a, b) => b.score - a.score)\<close>: the sort of the language is stable, and for scores that are numbers the sign of
  the difference is the order of the scores, infinite ones included.
\<close>

fun insert_score :: "('a \<Rightarrow> jsnum) \<Rightarrow> 'a \<Rightarrow> 'a list \<Rightarrow> 'a list" where
  "insert_score f x [] = [x]"
| "insert_score f x (y # ys) = (if num_less (f y) (f x) then x # y # ys else y # insert_score f x ys)"

definition sort_scores :: "('a \<Rightarrow> jsnum) \<Rightarrow> 'a list \<Rightarrow> 'a list" where
  "sort_scores f xs = fold (insert_score f) xs []"

definition ranked :: "('a \<Rightarrow> jsnum) \<Rightarrow> 'a list \<Rightarrow> bool" where
  "ranked f xs \<longleftrightarrow> sorted_wrt (\<lambda>x y. \<not> num_less (f x) (f y)) xs"

lemma num_less_trans: "num_less x y \<Longrightarrow> num_less y z \<Longrightarrow> num_less x z"
  by (cases x; cases y; cases z) auto

lemma num_less_asym: "num_less x y \<Longrightarrow> \<not> num_less y x"
  by (cases x; cases y) auto

lemma set_insert_score [simp]: "set (insert_score f x ys) = insert x (set ys)"
  by (induction ys) auto

lemma mset_insert_score [simp]: "mset (insert_score f x ys) = add_mset x (mset ys)"
  by (induction ys) auto

lemma num_less_irrefl [simp]: "\<not> num_less x x"
  by (cases x) auto

lemma ranked_insert_score: "ranked f ys \<Longrightarrow> ranked f (insert_score f x ys)"
proof (induction ys)
  case (Cons y ys)
  have high: "\<not> num_less (f x) (f z)" if "num_less (f y) (f x)" "\<not> num_less (f y) (f z)" for z
    using that num_less_trans by blast
  show ?case
  proof (cases "num_less (f y) (f x)")
    case True
    with Cons.prems show ?thesis using high num_less_asym [OF True] by (simp add: ranked_def)
  next
    case False
    with Cons show ?thesis by (simp add: ranked_def)
  qed
qed (simp add: ranked_def)

lemma sort_scores_step: "sort_scores f (xs @ [x]) = insert_score f x (sort_scores f xs)"
  by (simp add: sort_scores_def)

lemma mset_sort_scores [simp]: "mset (sort_scores f xs) = mset xs"
  by (induction xs rule: rev_induct) (simp_all add: sort_scores_step, simp add: sort_scores_def)

lemma set_sort_scores [simp]: "set (sort_scores f xs) = set xs"
  using mset_sort_scores [of f xs] by (metis set_mset_mset)

lemma length_sort_scores [simp]: "length (sort_scores f xs) = length xs"
  using mset_sort_scores [of f xs] by (metis size_mset)

lemma sort_scores_ranked: "ranked f (sort_scores f xs)"
proof (induction xs rule: rev_induct)
  case (snoc x xs)
  then show ?case by (simp add: sort_scores_step ranked_insert_score)
qed (simp add: sort_scores_def ranked_def)

text \<open>Equal scores keep their order.\<close>

lemma insert_score_stable:
  "ranked f ys \<Longrightarrow> filter (\<lambda>y. f y = c) (insert_score f x ys) = filter (\<lambda>y. f y = c) ys @ (if f x = c then [x] else [])"
proof (induction ys)
  case (Cons y ys)
  show ?case
  proof (cases "num_less (f y) (f x) \<and> f x = c")
    case True
    with Cons.prems have "f z \<noteq> c" if "z \<in> set (y # ys)" for z
      using that by (auto simp: ranked_def)
    with True show ?thesis by (auto simp: filter_empty_conv)
  next
    case False
    with Cons show ?thesis by (auto simp: ranked_def)
  qed
qed simp

lemma sort_scores_stable: "filter (\<lambda>x. f x = c) (sort_scores f xs) = filter (\<lambda>x. f x = c) xs"
proof (induction xs rule: rev_induct)
  case (snoc x xs)
  then show ?case by (simp add: sort_scores_step insert_score_stable sort_scores_ranked)
qed (simp add: sort_scores_def)

text \<open>Sorting a sorted list changes nothing, and sorting commutes with selecting.\<close>

lemma insert_score_last: "\<forall>y\<in>set ys. \<not> num_less (f y) (f x) \<Longrightarrow> insert_score f x ys = ys @ [x]"
  by (induction ys) auto

lemma sort_scores_id: "ranked f xs \<Longrightarrow> sort_scores f xs = xs"
proof (induction xs rule: rev_induct)
  case (snoc x xs)
  then show ?case by (simp add: sort_scores_step insert_score_last ranked_def sorted_wrt_append)
qed (simp add: sort_scores_def)

lemma filter_insert_score:
  assumes "ranked f ys" "\<forall>y\<in>set ys. f y \<noteq> NaN"
  shows "filter P (insert_score f x ys) = (if P x then insert_score f x (filter P ys) else filter P ys)"
  using assms
proof (induction ys)
  case (Cons y ys)
  show ?case
  proof (cases "num_less (f y) (f x)")
    case True
    then have "num_less (f z) (f x)" if "z \<in> set ys" for z
      using Cons.prems that by (cases "f z"; cases "f y"; cases "f x") (auto simp: ranked_def dest!: bspec)
    then have "\<forall>z\<in>set (filter P ys). num_less (f z) (f x)" by simp
    then have "insert_score f x (filter P ys) = x # filter P ys" by (cases "filter P ys") simp_all
    with True show ?thesis by auto
  next
    case False
    with Cons show ?thesis by (simp add: ranked_def)
  qed
qed simp

lemma filter_sort_scores:
  "\<forall>x\<in>set xs. f x \<noteq> NaN \<Longrightarrow> filter P (sort_scores f xs) = sort_scores f (filter P xs)"
proof (induction xs rule: rev_induct)
  case (snoc x xs)
  then show ?case by (simp add: sort_scores_step filter_insert_score sort_scores_ranked)
qed (simp add: sort_scores_def)

lemma ranked_filter: "ranked f xs \<Longrightarrow> ranked f (filter P xs)"
  by (simp add: ranked_def sorted_wrt_filter)

text \<open>What a cut at the front of the sorted list leaves out scores no more than what it keeps.\<close>

lemma ranked_take_drop:
  "ranked f xs \<Longrightarrow> x \<in> set (take k xs) \<Longrightarrow> y \<in> set (drop k xs) \<Longrightarrow> \<not> num_less (f x) (f y)"
  unfolding ranked_def by (metis append_take_drop_id sorted_wrt_append)

lemma ranked_take: "ranked f xs \<Longrightarrow> ranked f (take k xs)"
  by (simp add: ranked_def sorted_wrt_take)

lemma ranked_map: "ranked f (map g xs) \<longleftrightarrow> ranked (f \<circ> g) xs"
  by (simp add: ranked_def sorted_wrt_map)

section \<open>Words and pairs\<close>

definition is_letter :: "16 word \<Rightarrow> bool" where
  "is_letter c \<longleftrightarrow> 0x61 \<le> c \<and> c \<le> 0x7A"

definition is_han :: "16 word \<Rightarrow> bool" where
  "is_han c \<longleftrightarrow> 0x4E00 \<le> c \<and> c \<le> 0x9FFF"

text \<open>The matches of \<open>/[a-z][a-z0-9]*/g\<close>.\<close>

function words :: "jstr \<Rightarrow> jstr list" where
  "words [] = []"
| "words (c # s) =
     (if is_letter c then (c # takeWhile (\<lambda>x. is_letter x \<or> is_digit x) s) # words (dropWhile (\<lambda>x. is_letter x \<or> is_digit x) s)
      else words s)"
  by pat_completeness auto
termination by (relation "measure length") (auto simp: less_Suc_eq_le length_dropWhile_le)

definition long_words :: "jstr \<Rightarrow> jstr list" where
  "long_words s = filter (\<lambda>t. 2 \<le> length t) (words s)"

text \<open>Neighbours in the sequence of Chinese characters; what stands between two of them in the text is skipped.\<close>

fun pairs :: "jstr \<Rightarrow> jstr list" where
  "pairs (c # d # s) = [c, d] # pairs (d # s)"
| "pairs s = []"

text \<open>The first occurrences, in order: the enumeration of a set that was filled from the list.\<close>

fun firsts :: "'a list \<Rightarrow> 'a list" where
  "firsts [] = []"
| "firsts (x # xs) = x # filter (\<lambda>y. y \<noteq> x) (firsts xs)"

lemma set_firsts [simp]: "set (firsts xs) = set xs"
  by (induction xs) auto

lemma distinct_firsts [simp]: "distinct (firsts xs)"
  by (induction xs) auto

text \<open>The characters of a text, as a spread gives them: a pair of surrogates is one.\<close>

fun characters :: "jstr \<Rightarrow> jstr list" where
  "characters (c # d # s) =
     (if 0xD800 \<le> c \<and> c \<le> 0xDBFF \<and> 0xDC00 \<le> d \<and> d \<le> 0xDFFF then [c, d] # characters s else [c] # characters (d # s))"
| "characters [c] = [[c]]"
| "characters [] = []"

section \<open>Comparison of a keyword with a text\<close>

definition kw_matches :: "jstr \<Rightarrow> jstr \<Rightarrow> bool" where
  "kw_matches kw inp \<longleftrightarrow> kw = inp \<or> str_includes kw inp \<or> str_includes inp kw"

lemma str_includes_refl [simp]: "str_includes s s"
  unfolding str_includes_iff by (metis append_Nil append_Nil2)

lemma str_includes_Nil [simp]: "str_includes s []"
  unfolding str_includes_iff by (metis append_Nil)

text \<open>The empty keyword matches every text.\<close>

lemma kw_matches_simps [simp]: "kw_matches s s" "kw_matches [] s" "kw_matches s []"
  by (simp_all add: kw_matches_def)

section \<open>The inverted index\<close>

type_synonym inverted_index = "(jstr, jstr list) jmap"

definition jnum_nat :: "nat \<Rightarrow> jsnum" where
  "jnum_nat n = num (of_nat n)"

definition hit_score :: "jstr \<Rightarrow> jstr \<Rightarrow> jsnum" where
  "hit_score lowerKw lowerIntent = (if lowerKw = lowerIntent then Fin 100 else nmax (jnum_nat (length lowerKw)) (Fin 1))"

definition add_score :: "jsnum \<Rightarrow> jstr \<Rightarrow> (jstr, jsnum) jmap \<Rightarrow> (jstr, jsnum) jmap" where
  "add_score s tool m = mput tool (nadd (case mget m tool of None \<Rightarrow> Fin 0 | Some e \<Rightarrow> e) s) m"

definition index_scores :: "(jstr \<Rightarrow> jstr) \<Rightarrow> inverted_index \<Rightarrow> jstr \<Rightarrow> (jstr, jsnum) jmap" where
  "index_scores low index inp =
     fold (\<lambda>(kw, tools) m. if kw_matches (low kw) inp then fold (add_score (hit_score (low kw) inp)) tools m else m) index []"

definition scoredRetrieve :: "(jstr \<Rightarrow> jstr) \<Rightarrow> inverted_index \<Rightarrow> jstr \<Rightarrow> nat \<Rightarrow> (jstr \<times> jsnum) list" where
  "scoredRetrieve low index intent maxResults =
     (if intent = [] then [] else take maxResults (sort_scores snd (index_scores low index (trim (low intent)))))"

definition retrieveFields :: "(jstr \<Rightarrow> jstr) \<Rightarrow> inverted_index \<Rightarrow> jstr \<Rightarrow> nat \<Rightarrow> jstr list" where
  "retrieveFields low index intent maxResults = map fst (scoredRetrieve low index intent maxResults)"

end
