(* ===== verification/SkillRouter.thy ===== *)
theory SkillRouter
  imports TextIndex ToolExecution
begin

text \<open>
  The skills of the editor's assistant (\<open>context-manager/skillRouter.ts\<close>): the table of skills, the parser of slash
  commands, the matching of phrases, the decision which clauses are executed directly, and the older table of
  routes that can be registered at run time. Lower-casing is the parameter \<open>low\<close>.
\<close>

section \<open>The table\<close>

datatype match_strategy = Exact | Includes

datatype skill_source = Generic | Business

record skill_def =
  skill_id :: jstr
  executor :: "jstr list"
  exactCommands :: "jstr list"
  nlKeywords :: "(jstr \<times> match_strategy) list"
  skill_intent :: jstr
  skill_description :: jstr
  skill_source :: skill_source
  approvalRequired :: bool

definition UNIFIED_SKILLS :: "skill_def list" where
  "UNIFIED_SKILLS =
    [\<lparr>skill_id = js ''skill:list_all_config'', executor = [js ''list_configs''], exactCommands = [js ''/list'', js ''/ls''],
      nlKeywords = [([0x5217, 0x51FA, 0x6240, 0x6709, 0x914D, 0x7F6E], Exact), ([0x5217, 0x51FA, 0x6240, 0x6709, 0x5B57, 0x6BB5], Exact), ([0x5217, 0x51FA, 0x6240, 0x6709, 0x53C2, 0x6570], Exact), ([0x5217, 0x51FA, 0x6240, 0x6709, 0x9879], Exact),
        ([0x6709, 0x54EA, 0x4E9B, 0x914D, 0x7F6E], Includes), ([0x6709, 0x54EA, 0x4E9B, 0x5B57, 0x6BB5], Includes), ([0x6709, 0x54EA, 0x4E9B, 0x53C2, 0x6570], Includes), ([0x6709, 0x54EA, 0x4E9B, 0x9879], Includes)],
      skill_intent = js ''QUERY_LIST'', skill_description = [0x5217, 0x51FA, 0x6240, 0x6709, 0x914D, 0x7F6E, 0x9879], skill_source = Generic, approvalRequired = False\<rparr>,
     \<lparr>skill_id = js ''skill:read_config'', executor = [js ''read_config_value''], exactCommands = [js ''/read''], nlKeywords = [],
      skill_intent = js ''QUERY_SINGLE'', skill_description = [0x67E5, 0x770B, 0x914D, 0x7F6E, 0x503C], skill_source = Generic, approvalRequired = False\<rparr>,
     \<lparr>skill_id = js ''skill:write_config'', executor = [js ''read_config_value'', js ''write_config_value''],
      exactCommands = [js ''/write'', js ''/set''], nlKeywords = [],
      skill_intent = js ''MODIFY'', skill_description = [0x4FEE, 0x6539, 0x914D, 0x7F6E, 0x503C], skill_source = Generic, approvalRequired = True\<rparr>,
     \<lparr>skill_id = js ''skill:search_config'', executor = [js ''search_content''], exactCommands = [js ''/search''], nlKeywords = [],
      skill_intent = js ''ACTION'', skill_description = [0x641C, 0x7D22, 0x914D, 0x7F6E], skill_source = Generic, approvalRequired = False\<rparr>,
     \<lparr>skill_id = js ''skill:create_config'', executor = [js ''create_schema_field'', js ''validate_config''],
      exactCommands = [js ''/createconfig''], nlKeywords = [],
      skill_intent = js ''ACTION'', skill_description = [0x521B, 0x5EFA, 0x914D, 0x7F6E, 0x5B57, 0x6BB5], skill_source = Generic, approvalRequired = False\<rparr>,
     \<lparr>skill_id = js ''skill:create_rule'', executor = [js ''update_gate_rule''], exactCommands = [js ''/createrule''], nlKeywords = [],
      skill_intent = js ''ACTION'', skill_description = [0x521B, 0x5EFA, 0x0020, 0x0047, 0x0061, 0x0074, 0x0065, 0x0020, 0x89C4, 0x5219], skill_source = Generic, approvalRequired = False\<rparr>]"

section \<open>Commands\<close>

record parsed_command =
  pc_matched :: bool
  pc_command :: jstr
  pc_intent :: jstr
  pc_rest :: jstr
  pc_value :: "jstr option"
  pc_description :: jstr

definition no_command :: parsed_command where
  "no_command = \<lparr>pc_matched = False, pc_command = [], pc_intent = [], pc_rest = [], pc_value = None, pc_description = []\<rparr>"

text \<open>The position of the last blank.\<close>

definition last_blank :: "jstr \<Rightarrow> nat option" where
  "last_blank s = (let r = takeWhile (\<lambda>c. c \<noteq> 0x20) (rev s) in if length r = length s then None else Some (length s - Suc (length r)))"

definition split_value :: "jstr \<Rightarrow> jstr option \<times> jstr" where
  "split_value restPart =
     (case last_blank restPart of
        Some n \<Rightarrow> (if 0 < n then (Some (trim (drop (Suc n) restPart)), trim (take n restPart)) else (None, restPart))
      | None \<Rightarrow> (None, restPart))"

definition skill_of_command :: "jstr \<Rightarrow> skill_def option" where
  "skill_of_command cmd = find (\<lambda>s. (0x2F # cmd) \<in> set (exactCommands s)) UNIFIED_SKILLS"

definition parseCommand :: "jstr \<Rightarrow> parsed_command" where
  "parseCommand inp =
     (if inp = [] \<or> hd inp \<noteq> 0x2F then no_command
      else (let trimmed = trim inp;
                cmd = drop 1 (takeWhile (\<lambda>c. c \<noteq> 0x20) trimmed);
                restPart = trim (drop 1 (dropWhile (\<lambda>c. c \<noteq> 0x20) trimmed))
            in case skill_of_command cmd of
                 None \<Rightarrow> no_command
               | Some s \<Rightarrow>
                   (let (v, r) = (if skill_intent s = js ''MODIFY'' \<and> restPart \<noteq> [] then split_value restPart else (None, restPart))
                    in \<lparr>pc_matched = True, pc_command = cmd, pc_intent = skill_intent s, pc_rest = r, pc_value = v,
                        pc_description = skill_description s\<rparr>)))"

section \<open>Phrases\<close>

record registration =
  reg_id :: jstr
  reg_keywords :: "(jstr \<times> match_strategy) list"
  toolChain :: "jstr list"
  targetConfigKey :: "jstr option"
  reg_description :: jstr
  reg_source :: skill_source

definition registration_of :: "skill_def \<Rightarrow> registration" where
  "registration_of s = \<lparr>reg_id = skill_id s, reg_keywords = nlKeywords s, toolChain = executor s, targetConfigKey = None,
     reg_description = skill_description s, reg_source = skill_source s\<rparr>"

definition getAllNaturalLangSkills :: "registration list" where
  "getAllNaturalLangSkills = map registration_of (filter (\<lambda>s. nlKeywords s \<noteq> []) UNIFIED_SKILLS)"

definition getSkillRegistration :: "jstr \<Rightarrow> registration option" where
  "getSkillRegistration i =
     (case find (\<lambda>s. skill_id s = i) UNIFIED_SKILLS of
        None \<Rightarrow> None
      | Some s \<Rightarrow> if nlKeywords s = [] then None else Some (registration_of s))"

record nl_match =
  nl_reg :: registration
  matchedKeyword :: jstr
  confidence :: jsnum

definition keyword_hits :: "(jstr \<Rightarrow> jstr) \<Rightarrow> jstr \<Rightarrow> jstr \<times> match_strategy \<Rightarrow> bool" where
  "keyword_hits low lower kw = (case kw of (t, Exact) \<Rightarrow> lower = low t | (t, Includes) \<Rightarrow> str_includes lower (low t))"

definition strategy_confidence :: "match_strategy \<Rightarrow> jsnum" where
  "strategy_confidence m = (case m of Exact \<Rightarrow> num (9 / 10) | Includes \<Rightarrow> num (6 / 10))"

fun match_registrations :: "(jstr \<Rightarrow> jstr) \<Rightarrow> jstr \<Rightarrow> registration list \<Rightarrow> nl_match option" where
  "match_registrations low lower [] = None"
| "match_registrations low lower (r # rs) =
     (case find (keyword_hits low lower) (reg_keywords r) of
        Some kw \<Rightarrow> Some \<lparr>nl_reg = r, matchedKeyword = fst kw, confidence = strategy_confidence (snd kw)\<rparr>
      | None \<Rightarrow> match_registrations low lower rs)"

definition matchNaturalLanguage :: "(jstr \<Rightarrow> jstr) \<Rightarrow> jstr \<Rightarrow> nl_match option" where
  "matchNaturalLanguage low inp = (if inp = [] then None else match_registrations low (low (trim inp)) getAllNaturalLangSkills)"

section \<open>Direct execution or retrieval\<close>

record direct_execution =
  de_clause :: jstr
  de_skill :: jstr
  de_keyword :: jstr
  de_confidence :: jsnum
  de_tools :: "jstr list"
  de_target :: "jstr option"

datatype retrieval_reason = NoSkill | SkillLowConfidence

record route_decision =
  directExecutions :: "direct_execution list"
  retrievalQueries :: "(jstr \<times> retrieval_reason) list"

text \<open>The candidates of a clause cover it when their keys lie in at most two domains.\<close>

definition key_domain :: "jstr \<Rightarrow> jstr" where
  "key_domain k = join_with [0x2E] (take 2 (split_at 0x2E k))"

definition covered_by_config :: "(jstr, jstr list) jmap option \<Rightarrow> jstr \<Rightarrow> bool" where
  "covered_by_config cands clause =
     (case cands of None \<Rightarrow> False | Some m \<Rightarrow>
        (case mget m clause of None \<Rightarrow> False | Some ks \<Rightarrow> ks \<noteq> [] \<and> length (firsts (map key_domain ks)) \<le> 2))"

definition route_clause :: "(jstr \<Rightarrow> jstr) \<Rightarrow> jsnum \<Rightarrow> (jstr, jstr list) jmap option \<Rightarrow> jstr \<Rightarrow> route_decision \<Rightarrow> route_decision" where
  "route_clause low threshold cands clause D =
     (case matchNaturalLanguage low clause of
        None \<Rightarrow> D\<lparr>retrievalQueries := retrievalQueries D @ [(clause, NoSkill)]\<rparr>
      | Some m \<Rightarrow>
          (if num_less (confidence m) threshold \<and> \<not> covered_by_config cands clause
           then D\<lparr>retrievalQueries := retrievalQueries D @ [(clause, SkillLowConfidence)]\<rparr>
           else D\<lparr>directExecutions := directExecutions D @
                   [\<lparr>de_clause = clause, de_skill = reg_id (nl_reg m), de_keyword = matchedKeyword m, de_confidence = confidence m,
                     de_tools = toolChain (nl_reg m), de_target = targetConfigKey (nl_reg m)\<rparr>]\<rparr>))"

definition buildRouteDecision :: "(jstr \<Rightarrow> jstr) \<Rightarrow> jsnum \<Rightarrow> jstr list \<Rightarrow> (jstr, jstr list) jmap option \<Rightarrow> route_decision" where
  "buildRouteDecision low threshold clauses cands =
     fold (route_clause low threshold cands) clauses \<lparr>directExecutions = [], retrievalQueries = []\<rparr>"

definition reason_text :: "retrieval_reason \<Rightarrow> jstr" where
  "reason_text r = (case r of NoSkill \<Rightarrow> js ''no_skill'' | SkillLowConfidence \<Rightarrow> js ''skill_low_confidence'')"

definition formatRouteDecision :: "'a jsenv_scheme \<Rightarrow> route_decision \<Rightarrow> jstr" where
  "formatRouteDecision H D = join_with [0x0A]
     ([js ''RouteDecision:'']
      @ (if directExecutions D = [] then [] else [0x0020, 0x0020, 0x26A1, 0x0020, 0x0064, 0x0069, 0x0072, 0x0065, 0x0063, 0x0074, 0x0045, 0x0078, 0x0065, 0x0063, 0x0075, 0x0074, 0x0069, 0x006F, 0x006E, 0x0073, 0x003A] # map (\<lambda>d. js ''    ['' @ de_skill d @ [0x005D, 0x0020, 0x0022] @ de_clause d
            @ [0x0022, 0x0020, 0x2192, 0x0020] @ join_with [0x0020, 0x2192, 0x0020] (de_tools d) @ js '' (conf='' @ to_text H (JNum (de_confidence d)) @ js '')'') (directExecutions D))
      @ (if retrievalQueries D = [] then [] else [0x0020, 0x0020, 0xD83D, 0xDD0D, 0x0020, 0x0072, 0x0065, 0x0074, 0x0072, 0x0069, 0x0065, 0x0076, 0x0061, 0x006C, 0x0051, 0x0075, 0x0065, 0x0072, 0x0069, 0x0065, 0x0073, 0x003A]
            # map (\<lambda>(c, r). [0x0020, 0x0020, 0x0020, 0x0020, 0x0022] @ c @ [0x0022, 0x0020, 0x0072, 0x0065, 0x0061, 0x0073, 0x006F, 0x006E, 0x003D] @ reason_text r) (retrievalQueries D)))"

section \<open>Registered routes\<close>

record skill_route =
  sr_prefix :: jstr
  sr_description :: jstr
  sr_tools :: "jstr list"
  sr_priority :: jsnum
  sr_approval :: bool

text \<open>Replaces the route of the same prefix in its place, or adds the route at the end.\<close>

fun registerSkill :: "skill_route \<Rightarrow> skill_route list \<Rightarrow> skill_route list" where
  "registerSkill r [] = [r]"
| "registerSkill r (q # qs) = (if sr_prefix q = sr_prefix r then r # qs else q # registerSkill r qs)"

definition better_route :: "jstr \<Rightarrow> skill_route \<Rightarrow> skill_route option \<Rightarrow> skill_route option" where
  "better_route trimmed r best =
     (if starts_with trimmed (sr_prefix r) \<and> (case best of None \<Rightarrow> True | Some b \<Rightarrow> num_less (sr_priority b) (sr_priority r))
      then Some r else best)"

definition matchSkill :: "skill_route list \<Rightarrow> jstr \<Rightarrow> (skill_route \<times> jstr option) option" where
  "matchSkill routes inp =
     (if inp = [] \<or> hd inp \<noteq> 0x2F then None
      else map_option (\<lambda>r. (r, let p = trim (drop (length (sr_prefix r)) (trim inp)) in if p = [] then None else Some p))
             (fold (better_route (trim inp)) routes None))"

definition derivePrimaryOperation :: "jstr list \<Rightarrow> jstr" where
  "derivePrimaryOperation tools =
     (case find (\<lambda>t. t \<noteq> js ''read_config_value'' \<and> t \<noteq> js ''validate_config'') tools of
        None \<Rightarrow> js ''READ''
      | Some p \<Rightarrow> (if p = [] then js ''READ'' else case map_of TOOL_TO_OPERATION p of Some q \<Rightarrow> q | None \<Rightarrow> js ''READ''))"

definition collectL0Hint :: "skill_route list \<Rightarrow> jstr \<Rightarrow> (jstr \<times> jstr) option" where
  "collectL0Hint routes inp =
     map_option (\<lambda>(r, p). (derivePrimaryOperation (sr_tools r), sr_description r)) (matchSkill routes inp)"

text \<open>The help text sorts the table itself: the routes are left in the new order.\<close>

definition getSkillHelpText :: "skill_route list \<Rightarrow> jstr \<times> skill_route list" where
  "getSkillHelpText routes =
     (let sorted = sort_scores sr_priority routes
      in (join_with [0x0A] (map (\<lambda>s. js ''  '' @ sr_prefix s @ [0x0020, 0x2014, 0x0020] @ sr_description s @ (if sr_approval s then [0x0020, 0x26A0, 0xFE0F, 0x0020, 0x9700, 0x786E, 0x8BA4] else [])) sorted), sorted))"

section \<open>The help text does not change which route is taken\<close>

lemma best_route_is_first:
  "fold (better_route t) routes None
     = (case sort_scores sr_priority (filter (\<lambda>r. starts_with t (sr_prefix r)) routes) of [] \<Rightarrow> None | r # _ \<Rightarrow> Some r)"
proof (induction routes rule: rev_induct)
  case (snoc r routes)
  show ?case
  proof (cases "starts_with t (sr_prefix r)")
    case True
    with snoc show ?thesis
      by (cases "sort_scores sr_priority (filter (\<lambda>r. starts_with t (sr_prefix r)) routes)")
        (simp_all add: sort_scores_step better_route_def)
  next
    case False
    with snoc show ?thesis by (simp add: better_route_def)
  qed
qed (simp add: sort_scores_def)

text \<open>The help text reorders the table of routes in place. With priorities that are numbers, the stable sort leaves the choice of
  a route for every input as it was: the first of the routes with the highest priority among those whose prefix the
  input has.\<close>

theorem help_text_keeps_matching:
  assumes "\<forall>r\<in>set routes. sr_priority r \<noteq> NaN"
  shows "matchSkill (snd (getSkillHelpText routes)) inp = matchSkill routes inp"
proof -
  let ?P = "\<lambda>r. starts_with (trim inp) (sr_prefix r)"
  have "filter ?P (sort_scores sr_priority routes) = sort_scores sr_priority (filter ?P routes)"
    using assms by (rule filter_sort_scores)
  then have "sort_scores sr_priority (filter ?P (sort_scores sr_priority routes)) = sort_scores sr_priority (filter ?P routes)"
    by (simp add: sort_scores_id sort_scores_ranked)
  then show ?thesis by (simp add: matchSkill_def getSkillHelpText_def best_route_is_first Let_def)
qed

definition sample_routes :: "skill_route list" where
  "sample_routes = [\<lparr>sr_prefix = js ''/a'', sr_description = [], sr_tools = [], sr_priority = Fin 1, sr_approval = False\<rparr>,
     \<lparr>sr_prefix = js ''/ab'', sr_description = [], sr_tools = [], sr_priority = Fin 2, sr_approval = False\<rparr>]"

lemma help_text_keeps_matching_witness:
  "matchSkill (snd (getSkillHelpText sample_routes)) (js ''/abc'') = matchSkill sample_routes (js ''/abc'')"
  by (rule help_text_keeps_matching) (simp add: sample_routes_def)

section \<open>Commands read back\<close>

definition trimmed :: "jstr \<Rightarrow> bool" where
  "trimmed s \<longleftrightarrow> s \<noteq> [] \<and> \<not> is_space (hd s) \<and> \<not> is_space (last s)"

lemma trim_trimmed: "trimmed s \<Longrightarrow> trim s = s"
proof -
  assume s: "trimmed s"
  then have "dropWhile is_space s = s" by (cases s) (auto simp: trimmed_def)
  moreover have "dropWhile is_space (rev s) = rev s"
    using s by (cases "rev s") (auto simp: trimmed_def hd_rev [symmetric])
  ultimately show ?thesis by (simp add: trim_def)
qed

lemma trimmed_append: "trimmed s \<Longrightarrow> trimmed t \<Longrightarrow> trimmed (s @ u @ t)"
  by (auto simp: trimmed_def)

lemma last_blank_append: "0x20 \<notin> set v \<Longrightarrow> last_blank (n @ 0x20 # v) = Some (length n)"
proof -
  assume "0x20 \<notin> set v"
  then have "takeWhile (\<lambda>c. c \<noteq> 0x20) (rev v @ 0x20 # rev n) = rev v" by (subst takeWhile_append2) auto
  then show ?thesis by (simp add: last_blank_def)
qed

lemma is_space_blank [simp]: "is_space 0x20"
  by (simp add: is_space_def)

lemma write_skill: "skill_of_command (js ''write'') = Some (UNIFIED_SKILLS ! 2)"
  by code_simp

text \<open>Writing a command and parsing it gives back its parts: the value is what follows the last blank, so the name of a setting
  may contain blanks and the value may not.\<close>

theorem write_command_roundtrip:
  assumes "trimmed name" "trimmed v" "0x20 \<notin> set v"
  shows "parseCommand (js ''/write '' @ name @ 0x20 # v)
    = \<lparr>pc_matched = True, pc_command = js ''write'', pc_intent = js ''MODIFY'', pc_rest = name, pc_value = Some v, pc_description = [0x4FEE, 0x6539, 0x914D, 0x7F6E, 0x503C]\<rparr>"
proof -
  have w: "js ''/write '' = 0x2F # js ''write'' @ [0x20]" by code_simp
  have sp: "0x20 \<notin> set (js ''write'')" "\<not> is_space (0x2F :: 16 word)" by code_simp+
  have "trimmed (js ''/write '' @ name @ 0x20 # v)"
    using assms sp(2) by (auto simp: trimmed_def w)
  then have t: "trim (js ''/write '' @ name @ 0x20 # v) = js ''/write '' @ name @ 0x20 # v" by (rule trim_trimmed)
  have tw: "takeWhile (\<lambda>c. c \<noteq> 0x20) (js ''write'' @ 0x20 # r) = js ''write''"
    "dropWhile (\<lambda>c. c \<noteq> 0x20) (js ''write'' @ 0x20 # r) = 0x20 # r" for r
    using sp by (subst takeWhile_append2 dropWhile_append2, auto)+
  have "trimmed (name @ [0x20] @ v)" using assms by (intro trimmed_append)
  then have r: "trim (name @ 0x20 # v) = name @ 0x20 # v" using trim_trimmed by simp
  have "split_value (name @ 0x20 # v) = (Some v, name)"
    using assms by (simp add: split_value_def last_blank_append trim_trimmed) (simp add: trimmed_def)
  then show ?thesis
    using write_skill unfolding parseCommand_def t by (simp add: w tw r Let_def) (simp add: UNIFIED_SKILLS_def trimmed_def)
qed

lemma write_command_roundtrip_witness:
  "parseCommand (js ''/write room number 10041'')
    = \<lparr>pc_matched = True, pc_command = js ''write'', pc_intent = js ''MODIFY'', pc_rest = js ''room number'', pc_value = Some (js ''10041''),
       pc_description = [0x4FEE, 0x6539, 0x914D, 0x7F6E, 0x503C]\<rparr>"
proof -
  have "trimmed (js ''room number'')" "trimmed (js ''10041'')" "0x20 \<notin> set (js ''10041'')" by code_simp+
  from write_command_roundtrip [OF this] show ?thesis by (simp add: js_def)
qed

section \<open>Phrases lead to listing only\<close>

lemma match_is_listing: "matchNaturalLanguage low inp = Some m \<Longrightarrow> toolChain (nl_reg m) = [js ''list_configs''] \<and> targetConfigKey (nl_reg m) = None"
proof -
  have regs: "getAllNaturalLangSkills = [registration_of (hd UNIFIED_SKILLS)]"
    by (simp add: getAllNaturalLangSkills_def UNIFIED_SKILLS_def)
  assume "matchNaturalLanguage low inp = Some m"
  then show ?thesis
    by (auto simp: matchNaturalLanguage_def regs registration_of_def UNIFIED_SKILLS_def split: if_splits option.splits)
qed

definition executed :: "(jstr \<Rightarrow> jstr) \<Rightarrow> jsnum \<Rightarrow> (jstr, jstr list) jmap option \<Rightarrow> jstr \<Rightarrow> direct_execution option" where
  "executed low threshold cands clause =
     (case matchNaturalLanguage low clause of
        None \<Rightarrow> None
      | Some m \<Rightarrow> (if num_less (confidence m) threshold \<and> \<not> covered_by_config cands clause then None
           else Some \<lparr>de_clause = clause, de_skill = reg_id (nl_reg m), de_keyword = matchedKeyword m, de_confidence = confidence m,
                  de_tools = toolChain (nl_reg m), de_target = targetConfigKey (nl_reg m)\<rparr>))"

lemma route_fold:
  "directExecutions (fold (route_clause low th cands) cs D) = directExecutions D @ List.map_filter (executed low th cands) cs
   \<and> map fst (retrievalQueries (fold (route_clause low th cands) cs D))
      = map fst (retrievalQueries D) @ filter (\<lambda>c. executed low th cands c = None) cs"
proof (induction cs arbitrary: D)
  case (Cons c cs)
  then show ?case by (auto simp: route_clause_def executed_def List.map_filter_simps split: option.splits)
qed (simp add: List.map_filter_simps)

text \<open>The decision splits the clauses: each is executed directly or retrieved, in the order of the text; and whatever the threshold
  and the candidates, a phrase only ever lists the settings.\<close>

theorem phrases_only_list:
  "let D = buildRouteDecision low th clauses cands in
     mset (map de_clause (directExecutions D)) + mset (map fst (retrievalQueries D)) = mset clauses
   \<and> map fst (retrievalQueries D) = filter (\<lambda>c. executed low th cands c = None) clauses
   \<and> list_all (\<lambda>d. de_tools d = [js ''list_configs''] \<and> de_target d = None) (directExecutions D)"
proof -
  have "list_all (\<lambda>d. de_tools d = [js ''list_configs''] \<and> de_target d = None) (List.map_filter (executed low th cands) clauses)"
    using match_is_listing by (fastforce simp: executed_def List.map_filter_def list_all_iff split: option.splits if_splits)
  moreover have "mset (map de_clause (List.map_filter (executed low th cands) cs)) + mset (filter (\<lambda>c. executed low th cands c = None) cs) = mset cs"
    for cs by (induction cs) (auto simp: List.map_filter_simps executed_def split: option.splits)
  ultimately show ?thesis by (simp add: buildRouteDecision_def route_fold Let_def del: mset_map mset_filter)
qed

end
