(* ===== verification/AdaptiveIndex.thy ===== *)
theory AdaptiveIndex
  imports SkillRouter
begin

text \<open>
  The index that learns routes from what the user confirms (\<open>context-manager/adaptiveIndex.ts\<close>): three layers of
  entries, loading with the migration of the first version, saving, the query over all layers, and the learning
  operations. The text in the browser's storage is the structured value that it stands for: an index of either version
  with finite numbers, or a text that cannot be used. The clock is read once per operation; lower-casing (\<open>low\<close>) and
  the binary logarithm (\<open>log2\<close>) are parameters.
\<close>

section \<open>Entries\<close>

datatype target_type = ConfigTarget | ConceptTarget | SkillTarget

datatype index_source = BaselineSource | PersonalSource | GroupSource | SuggestedSource

record route_entry =
  re_keyword :: jstr
  re_type :: target_type
  re_target :: jstr
  re_source :: index_source
  re_freq :: jsnum
  re_last :: jsnum
  re_weight :: jsnum

type_synonym layer = "(jstr, route_entry) jmap"

record index_data =
  personalProfile :: layer
  groupProfile :: layer
  baseline :: layer

text \<open>An entry of the first version: every field may be missing and may hold any value.\<close>

record old_entry =
  o_keyword :: "json option"
  o_config_key :: "json option"
  o_source :: "index_source option"
  o_freq :: "json option"
  o_last :: "json option"
  o_weight :: "json option"

type_synonym old_layer = "(jstr, old_entry) jmap"

datatype stored_index =
    Unusable
  | FirstVersion "old_layer option" "old_layer option" "old_layer option"
  | SecondVersion "layer option" "layer option" "layer option"

record adaptive =
  index :: "index_data option"
  storage :: "stored_index option"
  writable :: bool
  baseline_kw :: "(jstr, jstr list) jmap"
  semantic_types :: "(jstr, jstr) jmap"

fun type_name :: "target_type \<Rightarrow> jstr" where
  "type_name ConfigTarget = js ''config''"
| "type_name ConceptTarget = js ''concept''"
| "type_name SkillTarget = js ''skill''"

fun source_weight :: "index_source \<Rightarrow> jsnum" where
  "source_weight PersonalSource = num (15 / 10)"
| "source_weight BaselineSource = num (12 / 10)"
| "source_weight GroupSource = Fin 1"
| "source_weight SuggestedSource = num (7 / 10)"

definition entry_key :: "jstr \<Rightarrow> target_type \<Rightarrow> jstr \<Rightarrow> jstr" where
  "entry_key kw ty target = kw @ js ''::'' @ type_name ty @ js ''::'' @ target"

definition getSemanticType :: "adaptive \<Rightarrow> jstr \<Rightarrow> jstr" where
  "getSemanticType A k = (case mget (semantic_types A) k of None \<Rightarrow> js ''config_value'' | Some t \<Rightarrow> if t = [] then js ''config_value'' else t)"

section \<open>Scores\<close>

definition hoursSince :: "jsnum \<Rightarrow> jsnum \<Rightarrow> jsnum" where
  "hoursSince now ts = nmax (Fin 0) (ndiv (nsub now ts) (Fin 3600000))"

definition recencyBoost :: "(jsnum \<Rightarrow> jsnum) \<Rightarrow> jsnum \<Rightarrow> jsnum \<Rightarrow> jsnum" where
  "recencyBoost log2 now lastHit =
     (let h = hoursSince now lastHit in if num_less h (Fin 1) then Fin 2 else nadd (Fin 1) (ndiv (Fin 1) (log2 (nadd (Fin 1) h))))"

definition entryScore :: "(jsnum \<Rightarrow> jsnum) \<Rightarrow> jsnum \<Rightarrow> route_entry \<Rightarrow> jsnum" where
  "entryScore log2 now e = nmul (nmul (re_freq e) (recencyBoost log2 now (re_last e))) (re_weight e)"

definition makeEntry :: "jsnum \<Rightarrow> jstr \<Rightarrow> jstr \<Rightarrow> target_type \<Rightarrow> index_source \<Rightarrow> route_entry" where
  "makeEntry now kw target ty src =
     \<lparr>re_keyword = kw, re_type = ty, re_target = target, re_source = src, re_freq = Fin 1, re_last = now, re_weight = source_weight src\<rparr>"

section \<open>The baseline\<close>

definition syncBaselineFromRegistry :: "(jstr, jstr) jmap option \<Rightarrow> (jstr, jstr list) jmap option \<Rightarrow> adaptive \<Rightarrow> adaptive" where
  "syncBaselineFromRegistry types kws A =
     A\<lparr>semantic_types := (case types of None \<Rightarrow> semantic_types A | Some m \<Rightarrow> fold (\<lambda>(k, t). mput k t) m (semantic_types A)),
       baseline_kw := (case kws of None \<Rightarrow> baseline_kw A
         | Some m \<Rightarrow> fold (\<lambda>(k, ks) b. if mhas b k then b else mput k ks b) m (baseline_kw A))\<rparr>"

definition factory_entry :: "target_type \<Rightarrow> jstr \<Rightarrow> jstr \<Rightarrow> route_entry" where
  "factory_entry ty kw target =
     \<lparr>re_keyword = kw, re_type = ty, re_target = target, re_source = BaselineSource, re_freq = Fin 0, re_last = Fin 0,
      re_weight = source_weight BaselineSource\<rparr>"

definition put_factory :: "target_type \<Rightarrow> jstr \<Rightarrow> jstr \<Rightarrow> layer \<Rightarrow> layer" where
  "put_factory ty kw target = mput (entry_key kw ty target) (factory_entry ty kw target)"

definition initBaseline :: "(jstr, jstr list) jmap \<Rightarrow> layer" where
  "initBaseline kws =
     fold (\<lambda>r. fold (\<lambda>(t, m). put_factory SkillTarget t (reg_id r)) (reg_keywords r)) getAllNaturalLangSkills
       (fold (\<lambda>(kw, ks). fold (put_factory ConfigTarget kw) ks) kws [])"

text \<open>The stored counts of the entries that the factory table still has.\<close>

definition merge_baseline :: "layer \<Rightarrow> layer \<Rightarrow> layer" where
  "merge_baseline stored fresh =
     fold (\<lambda>(k, e) b. case mget b k of None \<Rightarrow> b | Some f \<Rightarrow> mput k (f\<lparr>re_freq := re_freq e, re_last := re_last e\<rparr>) b) stored fresh"

section \<open>Loading and saving\<close>

definition nullish :: "json option \<Rightarrow> bool" where
  "nullish v \<longleftrightarrow> v = None \<or> v = Some JNull"

definition number_or :: "'a jsenv_scheme \<Rightarrow> json option \<Rightarrow> jsnum \<Rightarrow> jsnum" where
  "number_or H v d = (if nullish v then d else to_number H (the v))"

definition text_or_nothing :: "'a jsenv_scheme \<Rightarrow> json option \<Rightarrow> jstr" where
  "text_or_nothing H v = (if nullish v then [] else string_of H (the v))"

definition migrate_entry :: "'a jsenv_scheme \<Rightarrow> old_entry \<Rightarrow> route_entry" where
  "migrate_entry H e =
     \<lparr>re_keyword = text_or_nothing H (o_keyword e), re_type = ConfigTarget, re_target = text_or_nothing H (o_config_key e),
      re_source = (case o_source e of None \<Rightarrow> BaselineSource | Some s \<Rightarrow> s), re_freq = number_or H (o_freq e) (Fin 0),
      re_last = number_or H (o_last e) (Fin 0), re_weight = number_or H (o_weight e) (source_weight BaselineSource)\<rparr>"

definition migrate_layer :: "'a jsenv_scheme \<Rightarrow> old_layer option \<Rightarrow> layer" where
  "migrate_layer H l =
     (case l of None \<Rightarrow> []
      | Some es \<Rightarrow> fold (\<lambda>(k, e). let n = migrate_entry H e in mput (entry_key (re_keyword n) (re_type n) (re_target n)) n) es [])"

definition saveIndex :: "adaptive \<Rightarrow> adaptive" where
  "saveIndex A =
     (case index A of None \<Rightarrow> A
      | Some d \<Rightarrow> if writable A then A\<lparr>storage := Some (SecondVersion (Some (personalProfile d)) (Some (groupProfile d)) (Some (baseline d)))\<rparr> else A)"

definition fresh_index :: "adaptive \<Rightarrow> index_data" where
  "fresh_index A = \<lparr>personalProfile = [], groupProfile = [], baseline = initBaseline (baseline_kw A)\<rparr>"

definition or_empty :: "layer option \<Rightarrow> layer" where
  "or_empty l = (case l of None \<Rightarrow> [] | Some m \<Rightarrow> m)"

text \<open>A second version without a baseline throws in the enumeration of its entries, and everything stored is given up.\<close>

definition loadIndex :: "'a jsenv_scheme \<Rightarrow> adaptive \<Rightarrow> index_data \<times> adaptive" where
  "loadIndex H A =
     (case index A of
        Some d \<Rightarrow> (d, A)
      | None \<Rightarrow>
          (let base = initBaseline (baseline_kw A) in
           case storage A of
             Some (FirstVersion p g b) \<Rightarrow>
               (let d = \<lparr>personalProfile = migrate_layer H p, groupProfile = migrate_layer H g,
                         baseline = merge_baseline (migrate_layer H b) base\<rparr>
                in (d, saveIndex (A\<lparr>index := Some d\<rparr>)))
           | Some (SecondVersion p g (Some b)) \<Rightarrow>
               (let d = \<lparr>personalProfile = or_empty p, groupProfile = or_empty g, baseline = merge_baseline b base\<rparr>
                in (d, A\<lparr>index := Some d\<rparr>))
           | _ \<Rightarrow> (fresh_index A, A\<lparr>index := Some (fresh_index A)\<rparr>)))"

section \<open>Queries\<close>

record route_hit =
  hit_type :: target_type
  hit_target :: jstr
  hit_keyword :: jstr
  hit_score :: jsnum
  hit_freq :: jsnum
  hit_source :: index_source

definition hit_of :: "(jsnum \<Rightarrow> jsnum) \<Rightarrow> jsnum \<Rightarrow> route_entry \<Rightarrow> route_hit" where
  "hit_of log2 now e = \<lparr>hit_type = re_type e, hit_target = re_target e, hit_keyword = re_keyword e, hit_score = entryScore log2 now e,
     hit_freq = re_freq e, hit_source = re_source e\<rparr>"

definition all_entries :: "index_data \<Rightarrow> route_entry list" where
  "all_entries d = mvals (personalProfile d) @ mvals (groupProfile d) @ mvals (baseline d)"

definition queryAllLayers :: "'a jsenv_scheme \<Rightarrow> (jstr \<Rightarrow> jstr) \<Rightarrow> (jsnum \<Rightarrow> jsnum) \<Rightarrow> jsnum \<Rightarrow> jstr \<Rightarrow> adaptive \<Rightarrow> route_hit list \<times> adaptive" where
  "queryAllLayers H low log2 now userInput A =
     (let (d, A') = loadIndex H A; inp = trim (low userInput)
      in (if inp = [] then []
          else sort_scores hit_score (map (hit_of log2 now) (filter (\<lambda>e. kw_matches (low (re_keyword e)) inp) (all_entries d))), A'))"

definition resolveRoute :: "route_hit list \<Rightarrow> route_hit list \<times> route_hit option \<times> route_hit option" where
  "resolveRoute hits =
     (filter (\<lambda>h. hit_type h = ConfigTarget) hits, find (\<lambda>h. hit_type h = ConceptTarget) hits, find (\<lambda>h. hit_type h = SkillTarget) hits)"

section \<open>Learning\<close>

definition touch :: "jsnum \<Rightarrow> route_entry \<Rightarrow> route_entry" where
  "touch now e = e\<lparr>re_freq := nadd (re_freq e) (Fin 1), re_last := now\<rparr>"

definition learn :: "jsnum \<Rightarrow> jstr \<Rightarrow> target_type \<Rightarrow> jstr \<Rightarrow> index_source \<Rightarrow> layer \<Rightarrow> layer" where
  "learn now kw ty target src l =
     (let k = entry_key kw ty target in
      mput k (case mget l k of Some e \<Rightarrow> touch now e | None \<Rightarrow> makeEntry now kw target ty src) l)"

definition confirmRoute :: "'a jsenv_scheme \<Rightarrow> jsnum \<Rightarrow> jstr \<Rightarrow> target_type \<Rightarrow> jstr \<Rightarrow> bool \<Rightarrow> adaptive \<Rightarrow> adaptive" where
  "confirmRoute H now userInput ty target in_baseline A =
     (let (d, A') = loadIndex H A
      in saveIndex (A'\<lparr>index := Some
           (if in_baseline then d\<lparr>baseline := learn now userInput ty target BaselineSource (baseline d)\<rparr>
            else d\<lparr>personalProfile := learn now userInput ty target PersonalSource (personalProfile d)\<rparr>)\<rparr>))"

definition count_config :: "jstr \<Rightarrow> route_entry \<Rightarrow> route_entry" where
  "count_config key e =
     (if re_type e = ConfigTarget \<and> re_target e = key then e\<lparr>re_freq := nmin (nadd (re_freq e) (Fin 1)) (Fin 100)\<rparr> else e)"

definition confirmMatch :: "'a jsenv_scheme \<Rightarrow> jsnum \<Rightarrow> jstr \<Rightarrow> jstr \<Rightarrow> adaptive \<Rightarrow> adaptive" where
  "confirmMatch H now userInput key A =
     (let (d, A') = loadIndex H A
      in saveIndex (A'\<lparr>index := Some (d\<lparr>personalProfile := learn now userInput ConfigTarget key PersonalSource (personalProfile d),
           baseline := map (\<lambda>(k, e). (k, count_config key e)) (baseline d)\<rparr>)\<rparr>))"

definition confirmConcept :: "'a jsenv_scheme \<Rightarrow> jsnum \<Rightarrow> jstr \<Rightarrow> jstr \<Rightarrow> adaptive \<Rightarrow> adaptive" where
  "confirmConcept H now userInput concept A = confirmRoute H now userInput ConceptTarget concept False A"

definition hit_by :: "(jstr \<Rightarrow> jstr) \<Rightarrow> jstr \<Rightarrow> jstr \<Rightarrow> route_entry \<Rightarrow> bool" where
  "hit_by low inp key e \<longleftrightarrow>
     re_type e = ConfigTarget \<and> re_target e = key \<and> (low (re_keyword e) = inp \<or> str_includes (low (re_keyword e)) inp)"

text \<open>The first entry that the test selects is counted.\<close>

fun touch_first :: "jsnum \<Rightarrow> (route_entry \<Rightarrow> bool) \<Rightarrow> layer \<Rightarrow> layer option" where
  "touch_first now P [] = None"
| "touch_first now P ((k, e) # es) = (if P e then Some ((k, touch now e) # es) else map_option ((#) (k, e)) (touch_first now P es))"

definition recordHit :: "'a jsenv_scheme \<Rightarrow> (jstr \<Rightarrow> jstr) \<Rightarrow> jsnum \<Rightarrow> jstr \<Rightarrow> jstr \<Rightarrow> adaptive \<Rightarrow> adaptive" where
  "recordHit H low now userInput key A =
     (let (d, A') = loadIndex H A; P = hit_by low (trim (low userInput)) key
      in case touch_first now P (personalProfile d) of
           Some l \<Rightarrow> saveIndex (A'\<lparr>index := Some (d\<lparr>personalProfile := l\<rparr>)\<rparr>)
         | None \<Rightarrow> (case touch_first now P (baseline d) of
               Some l \<Rightarrow> saveIndex (A'\<lparr>index := Some (d\<lparr>baseline := l\<rparr>)\<rparr>)
             | None \<Rightarrow> A'))"

definition seed :: "jsnum \<Rightarrow> jstr \<times> jstr \<Rightarrow> layer \<Rightarrow> layer" where
  "seed now s l =
     (let k = entry_key (fst s) ConceptTarget (snd s)
      in if mhas l k then l else mput k (makeEntry now (fst s) (snd s) ConceptTarget BaselineSource) l)"

definition seedConceptKeywords :: "'a jsenv_scheme \<Rightarrow> jsnum \<Rightarrow> (jstr \<times> jstr) list \<Rightarrow> adaptive \<Rightarrow> adaptive" where
  "seedConceptKeywords H now seeds A =
     (let (d, A') = loadIndex H A; l = fold (seed now) seeds (baseline d); A2 = A'\<lparr>index := Some (d\<lparr>baseline := l\<rparr>)\<rparr>
      in if length l = length (baseline d) then A2 else saveIndex A2)"

section \<open>Diagnostics\<close>

record index_stats =
  baselineCount :: nat
  personalCount :: nat
  groupCount :: nat
  topPersonal :: "(jstr \<times> jstr \<times> jsnum) list"

definition getIndexStats :: "'a jsenv_scheme \<Rightarrow> adaptive \<Rightarrow> index_stats \<times> adaptive" where
  "getIndexStats H A =
     (let (d, A') = loadIndex H A
      in (\<lparr>baselineCount = length (baseline d), personalCount = length (personalProfile d), groupCount = length (groupProfile d),
           topPersonal = map (\<lambda>e. (re_keyword e, re_target e, re_freq e)) (take 10 (sort_scores re_freq (mvals (personalProfile d))))\<rparr>, A'))"

definition getConfigLabelMap :: "(jstr, jstr list) jmap \<Rightarrow> (jstr, jstr) jmap" where
  "getConfigLabelMap kws =
     fold (\<lambda>(kw, ks). fold (\<lambda>k m. if falsy_text (mget m k) then mput k kw m else m) ks) kws []"

section \<open>The invariant of the index\<close>

definition layer_ok :: "rat \<Rightarrow> layer \<Rightarrow> bool" where
  "layer_ok lo l \<longleftrightarrow> mwf l \<and>
     list_all (\<lambda>(k, e). k = entry_key (re_keyword e) (re_type e) (re_target e) \<and> in_range lo 9007199254740992 (re_freq e)) l"

definition stored_ok :: "stored_index option \<Rightarrow> bool" where
  "stored_ok s = (case s of
       Some (FirstVersion p g b) \<Rightarrow> False
     | Some (SecondVersion p g b) \<Rightarrow> layer_ok 1 (or_empty p) \<and> layer_ok 0 (or_empty g) \<and> layer_ok 0 (or_empty b)
     | _ \<Rightarrow> True)"

definition data_ok :: "index_data \<Rightarrow> bool" where
  "data_ok d \<longleftrightarrow> layer_ok 1 (personalProfile d) \<and> layer_ok 0 (groupProfile d) \<and> layer_ok 0 (baseline d)"

definition index_ok :: "adaptive \<Rightarrow> bool" where
  "index_ok A \<longleftrightarrow> (case index A of None \<Rightarrow> True | Some d \<Rightarrow> data_ok d) \<and> stored_ok (storage A)"

lemma layer_ok_Nil [simp]: "layer_ok lo []"
  by (simp add: layer_ok_def)

lemma set_mput: "set (mput k v m) \<subseteq> insert (k, v) (set m)"
  by (induction m) auto

lemma layer_ok_put:
  "layer_ok lo l \<Longrightarrow> k = entry_key (re_keyword e) (re_type e) (re_target e) \<Longrightarrow> in_range lo 9007199254740992 (re_freq e)
   \<Longrightarrow> layer_ok lo (mput k e l)"
  using set_mput [of k e l] by (fastforce simp: layer_ok_def list_all_iff)

lemma layer_ok_get:
  "layer_ok lo l \<Longrightarrow> mget l k = Some e \<Longrightarrow> k = entry_key (re_keyword e) (re_type e) (re_target e) \<and> in_range lo 9007199254740992 (re_freq e)"
  by (auto simp: layer_ok_def list_all_iff dest!: map_of_SomeD)

text \<open>Counting up stays in the range: at the top the sum is rounded back.\<close>

lemma dbl_top: "dbl 9007199254740993 = 9007199254740992"
proof -
  have "binade 9007199254740993 = 53" by (intro binade_eq) simp_all
  then have u: "ulp 9007199254740993 = 2" by (simp add: ulp_def)
  have f: "\<lfloor>(9007199254740993 / 2 :: rat)\<rfloor> = 4503599627370496" by (simp add: floor_eq_iff)
  have "rne (9007199254740993 / 2) = 4503599627370496" by (simp add: rne_def f Let_def)
  with u show ?thesis by (simp add: dbl_def)
qed

lemma count_up:
  assumes "in_range a 9007199254740992 x" "0 \<le> a" "dbl a = a"
  shows "in_range a 9007199254740992 (nadd x (Fin 1))"
proof -
  obtain v where v: "x = Fin v" "a \<le> v" "v \<le> 9007199254740992" using assms(1) by (auto elim!: in_rangeE)
  then have hi: "dbl (v + 1) \<le> 9007199254740992" using dbl_mono [of "v + 1" 9007199254740993] dbl_top by simp
  have lo: "a \<le> dbl (v + 1)" using v assms by (intro dbl_ge) auto
  have "num (v + 1) = Fin (dbl (v + 1))" using hi lo assms(2) by (intro num_Fin finite_limit_gt) simp
  with v hi lo show ?thesis by simp
qed

lemma layer_ok_put_factory: "layer_ok 0 l \<Longrightarrow> layer_ok 0 (put_factory ty kw t l)"
  by (simp add: put_factory_def factory_entry_def layer_ok_put)

lemma fold_inv: "P s \<Longrightarrow> (\<And>x s. x \<in> set xs \<Longrightarrow> P s \<Longrightarrow> P (f x s)) \<Longrightarrow> P (fold f xs s)"
  by (induction xs arbitrary: s) auto

lemma initBaseline_ok: "layer_ok 0 (initBaseline kws)"
  unfolding initBaseline_def
  by (intro fold_inv [where P = "layer_ok 0"]; auto intro!: fold_inv [where P = "layer_ok 0"] layer_ok_put_factory)

lemma merge_baseline_ok:
  assumes "layer_ok 0 stored" "layer_ok 0 fresh"
  shows "layer_ok 0 (merge_baseline stored fresh)"
  unfolding merge_baseline_def
proof (rule fold_inv [where P = "layer_ok 0"])
  fix x s assume x: "x \<in> set stored" "layer_ok 0 s"
  obtain k e where ke: "x = (k, e)" by force
  then have "in_range 0 9007199254740992 (re_freq e)" using x(1) assms(1) by (auto simp: layer_ok_def list_all_iff)
  then have "layer_ok 0 (mput k (f\<lparr>re_freq := re_freq e, re_last := re_last e\<rparr>) s)" if "mget s k = Some f" for f
    using layer_ok_get [OF x(2) that] by (intro layer_ok_put [OF x(2)]) simp_all
  then show "layer_ok 0 ((\<lambda>(k, e) b. case mget b k of None \<Rightarrow> b | Some f \<Rightarrow> mput k (f\<lparr>re_freq := re_freq e, re_last := re_last e\<rparr>) b) x s)"
    using x(2) by (simp add: ke split: option.split)
qed (rule assms(2))

lemma saveIndex_ok: "index_ok A \<Longrightarrow> index_ok (saveIndex A)"
  by (auto simp: index_ok_def saveIndex_def stored_ok_def or_empty_def data_ok_def split: option.splits)

lemma loadIndex_ok:
  assumes "index_ok A" "loadIndex H A = (d, A')"
  shows "data_ok d \<and> index_ok A'"
proof (cases "index A")
  case (Some e)
  with assms show ?thesis by (auto simp: loadIndex_def index_ok_def)
next
  case None
  have fresh: "data_ok (fresh_index A)" using initBaseline_ok by (simp add: data_ok_def fresh_index_def)
  show ?thesis
  proof (cases "\<exists>p g b. storage A = Some (SecondVersion p g (Some b))")
    case True
    then obtain p g b where st: "storage A = Some (SecondVersion p g (Some b))" by blast
    with assms(1) have ok: "layer_ok 1 (or_empty p)" "layer_ok 0 (or_empty g)" "layer_ok 0 b"
      by (auto simp: index_ok_def stored_ok_def or_empty_def)
    have "data_ok \<lparr>personalProfile = or_empty p, groupProfile = or_empty g, baseline = merge_baseline b (initBaseline (baseline_kw A))\<rparr>"
      using ok merge_baseline_ok [OF ok(3) initBaseline_ok] by (simp add: data_ok_def)
    with assms None st show ?thesis by (auto simp: loadIndex_def index_ok_def Let_def)
  next
    case False
    then have "loadIndex H A = (fresh_index A, A\<lparr>index := Some (fresh_index A)\<rparr>)"
      using assms(1) None by (auto simp: loadIndex_def index_ok_def stored_ok_def Let_def split: option.splits stored_index.splits)
    with assms fresh show ?thesis by (auto simp: index_ok_def)
  qed
qed

lemma learn_ok:
  assumes "layer_ok a l" "a = 0 \<or> a = 1"
  shows "layer_ok a (learn now kw ty t src l)"
proof -
  have "dbl a = a" "0 \<le> a" "a \<le> 1" using assms(2) by auto
  then show ?thesis
    using assms(1) layer_ok_get [OF assms(1)] unfolding learn_def Let_def
    by (intro layer_ok_put) (auto simp: touch_def makeEntry_def count_up split: option.splits)
qed

lemma layer_ok_map:
  assumes "layer_ok a l" "\<And>e. in_range a 9007199254740992 (re_freq e) \<Longrightarrow> in_range a 9007199254740992 (re_freq (f e))"
    and "\<And>e. re_keyword (f e) = re_keyword e" "\<And>e. re_type (f e) = re_type e" "\<And>e. re_target (f e) = re_target e"
  shows "layer_ok a (map (\<lambda>(k, e). (k, f e)) l)"
proof -
  have "mwf (map (\<lambda>(k, e). (k, f e)) l)" using assms(1) by (simp add: layer_ok_def mwf_def mkeys_def comp_def case_prod_beta)
  then show ?thesis using assms by (fastforce simp: layer_ok_def list_all_iff)
qed

lemma count_config_ok: "layer_ok 0 l \<Longrightarrow> layer_ok 0 (map (\<lambda>(k, e). (k, count_config key e)) l)"
proof (rule layer_ok_map)
  fix e :: route_entry assume r: "in_range 0 9007199254740992 (re_freq e)"
  then have "in_range 0 9007199254740992 (nadd (re_freq e) (Fin 1))" by (rule count_up) simp_all
  with r show "in_range 0 9007199254740992 (re_freq (count_config key e))"
    by (auto simp: count_config_def nmin_def elim!: in_rangeE)
qed (simp_all add: count_config_def)

lemma touch_first_map:
  "touch_first now P l = Some l' \<Longrightarrow> \<exists>i<length l. l' = l[i := (fst (l ! i), touch now (snd (l ! i)))]"
proof (induction l arbitrary: l')
  case (Cons x l)
  obtain k e where x: "x = (k, e)" by force
  show ?case
  proof (cases "P e")
    case True
    then show ?thesis using Cons.prems x by (intro exI [of _ 0]) auto
  next
    case False
    then obtain m where m: "touch_first now P l = Some m" "l' = (k, e) # m" using Cons.prems x by auto
    obtain i where "i < length l" "m = l[i := (fst (l ! i), touch now (snd (l ! i)))]" using Cons.IH [OF m(1)] by blast
    then show ?thesis using m x by (intro exI [of _ "Suc i"]) auto
  qed
qed simp

lemma touch_first_ok:
  assumes "layer_ok a l" "touch_first now P l = Some l'" "a = 0 \<or> a = 1"
  shows "layer_ok a l'"
proof -
  obtain i where i: "i < length l" "l' = l[i := (fst (l ! i), touch now (snd (l ! i)))]" using touch_first_map [OF assms(2)] by blast
  let ?x = "l ! i"
  have "map fst l' = map fst l" using i by (simp add: map_update list_update_same_conv)
  then have w: "mwf l'" using assms(1) by (simp add: layer_ok_def mwf_def mkeys_def)
  have x: "fst ?x = entry_key (re_keyword (snd ?x)) (re_type (snd ?x)) (re_target (snd ?x))" "in_range a 9007199254740992 (re_freq (snd ?x))"
    using assms(1) i(1) by (auto simp: layer_ok_def list_all_length case_prod_beta)
  have "in_range a 9007199254740992 (nadd (re_freq (snd ?x)) (Fin 1))" using x(2) assms(3) by (intro count_up) auto
  moreover have "\<forall>(k, e)\<in>set l. k = entry_key (re_keyword e) (re_type e) (re_target e) \<and> in_range a 9007199254740992 (re_freq e)"
    using assms(1) by (simp add: layer_ok_def list_all_iff)
  moreover have "set l' \<subseteq> insert (fst ?x, touch now (snd ?x)) (set l)" unfolding i(2) by (rule set_update_subset_insert)
  ultimately have "\<forall>(k, e)\<in>set l'. k = entry_key (re_keyword e) (re_type e) (re_target e) \<and> in_range a 9007199254740992 (re_freq e)"
    using x(1) by (auto simp: touch_def)
  with w show ?thesis by (simp add: layer_ok_def list_all_iff)
qed

lemma seeds_ok: "layer_ok 0 l \<Longrightarrow> layer_ok 0 (fold (seed now) ss l)"
  by (rule fold_inv) (auto simp: seed_def makeEntry_def Let_def intro: layer_ok_put)

datatype index_event =
    Confirm jstr target_type jstr bool
  | ConfirmConfig jstr jstr
  | Hit jstr jstr
  | Seeds "(jstr \<times> jstr) list"
  | Query jstr
  | Stats
  | Sync "(jstr, jstr) jmap option" "(jstr, jstr list) jmap option"
  | Restart

fun index_step :: "'a jsenv_scheme \<Rightarrow> (jstr \<Rightarrow> jstr) \<Rightarrow> (jsnum \<Rightarrow> jsnum) \<Rightarrow> jsnum \<times> index_event \<Rightarrow> adaptive \<Rightarrow> adaptive" where
  "index_step H low log2 (t, Confirm u ty i b) A = confirmRoute H t u ty i b A"
| "index_step H low log2 (t, ConfirmConfig u k) A = confirmMatch H t u k A"
| "index_step H low log2 (t, Hit u k) A = recordHit H low t u k A"
| "index_step H low log2 (t, Seeds ss) A = seedConceptKeywords H t ss A"
| "index_step H low log2 (t, Query u) A = snd (queryAllLayers H low log2 t u A)"
| "index_step H low log2 (t, Stats) A = snd (getIndexStats H A)"
| "index_step H low log2 (t, Sync a b) A = syncBaselineFromRegistry a b A"
| "index_step H low log2 (t, Restart) A = A\<lparr>index := None\<rparr>"

lemma index_ok_update: "index_ok A \<Longrightarrow> data_ok d \<Longrightarrow> index_ok (A\<lparr>index := Some d\<rparr>)"
  by (simp add: index_ok_def)

lemma index_step_ok: "index_ok A \<Longrightarrow> index_ok (index_step H low log2 e A)"
proof -
  assume A: "index_ok A"
  obtain d A' where l: "loadIndex H A = (d, A')" by force
  from loadIndex_ok [OF A l] have d: "data_ok d" "index_ok A'" by simp_all
  then have ls: "layer_ok 1 (personalProfile d)" "layer_ok 0 (groupProfile d)" "layer_ok 0 (baseline d)" by (simp_all add: data_ok_def)
  have put: "index_ok (saveIndex (A'\<lparr>index := Some d'\<rparr>))" "index_ok (A'\<lparr>index := Some d'\<rparr>)" if "data_ok d'" for d'
    using that d(2) by (simp_all add: saveIndex_ok index_ok_update)
  obtain t v where e: "e = (t, v)" by force
  show ?thesis
  proof (cases v)
    case (Hit u k)
    let ?P = "hit_by low (trim (low u)) k"
    have "data_ok (d\<lparr>personalProfile := p\<rparr>)" if "touch_first t ?P (personalProfile d) = Some p" for p
      using touch_first_ok [OF ls(1) that] ls by (simp add: data_ok_def)
    moreover have "data_ok (d\<lparr>baseline := p\<rparr>)" if "touch_first t ?P (baseline d) = Some p" for p
      using touch_first_ok [OF ls(3) that] ls by (simp add: data_ok_def)
    ultimately show ?thesis using Hit e l put(1) d(2) by (simp add: recordHit_def Let_def split: option.splits)
  next
    case (Confirm u ty i b)
    have "data_ok (d\<lparr>baseline := learn t u ty i BaselineSource (baseline d)\<rparr>)"
      "data_ok (d\<lparr>personalProfile := learn t u ty i PersonalSource (personalProfile d)\<rparr>)"
      using ls learn_ok by (simp_all add: data_ok_def)
    with Confirm e l put(1) show ?thesis by (simp add: confirmRoute_def)
  next
    case (ConfirmConfig u k)
    have "data_ok (d\<lparr>personalProfile := learn t u ConfigTarget k PersonalSource (personalProfile d), baseline := map (\<lambda>(k', e). (k', count_config k e)) (baseline d)\<rparr>)"
      using ls learn_ok count_config_ok by (simp add: data_ok_def)
    with ConfirmConfig e l put(1) show ?thesis by (simp add: confirmMatch_def)
  next
    case (Seeds ss)
    have "data_ok (d\<lparr>baseline := fold (seed t) ss (baseline d)\<rparr>)" using ls seeds_ok by (simp add: data_ok_def)
    with Seeds e l put show ?thesis by (simp add: seedConceptKeywords_def Let_def)
  qed (use e l d(2) A in \<open>simp_all add: queryAllLayers_def getIndexStats_def index_ok_def syncBaselineFromRegistry_def Let_def\<close>)
qed

interpretation adaptive: event_closed index_ok "index_step H low log2"
  by unfold_locales (rule index_step_ok)

definition no_index :: adaptive where
  "no_index = \<lparr>index = None, storage = None, writable = True, baseline_kw = [], semantic_types = []\<rparr>"

text \<open>Whatever is learned, counted, seeded, queried and restarted: the layers keep one entry per key, every entry lies under the key that
  its parts make, the counts of the personal layer stay between 1 and the largest exact integer, and those of the others
  between 0 and it.\<close>

theorem index_stays_ok:
  assumes "index_ok A"
  shows "index_ok (fold (index_step H low log2) es A)"
  using assms by (rule adaptive.run_ok)

lemma index_stays_ok_witness:
  "index_ok (fold (index_step sample_host (\<lambda>s. s) (\<lambda>x. x))
     [(Fin 5, Confirm (js ''room'') ConceptTarget (js ''live'') False), (Fin 6, Restart), (Fin 7, Hit (js ''room'') (js ''a.b''))] no_index)"
  by (rule index_stays_ok) (simp add: index_ok_def no_index_def stored_ok_def)

section \<open>What is confirmed is found again\<close>

lemma trim_included: "str_includes s (trim s)"
proof -
  obtain u where u: "s = u @ dropWhile is_space s" by (metis takeWhile_dropWhile_id)
  obtain v where "rev (dropWhile is_space s) = v @ dropWhile is_space (rev (dropWhile is_space s))" by (metis takeWhile_dropWhile_id)
  then have "dropWhile is_space s = trim s @ rev v" by (metis trim_def rev_append rev_rev_ident)
  with u show ?thesis unfolding str_includes_iff by metis
qed

lemma own_keyword_matches: "kw_matches (low u) (trim (low u))"
  using trim_included by (simp add: kw_matches_def)

lemma colon: "js ''::'' = [0x3A, 0x3A]"
  by code_simp

lemma type_name_no_colon: "0x3A \<notin> set (type_name ty)"
proof -
  have "0x3A \<notin> set (js ''config'')" "0x3A \<notin> set (js ''concept'')" "0x3A \<notin> set (js ''skill'')" by code_simp+
  then show ?thesis by (cases ty) simp_all
qed

lemma type_name_inject: "type_name a = type_name b \<longleftrightarrow> a = b"
  by (cases a; cases b) simp_all

text \<open>Without colons in the keywords and the types, a key determines its parts.\<close>

lemma before_colon: "c \<notin> set u \<Longrightarrow> takeWhile (\<lambda>x. x \<noteq> c) (u @ c # r) = u \<and> dropWhile (\<lambda>x. x \<noteq> c) (u @ c # r) = c # r"
  by (induction u) auto

lemma entry_key_inject:
  assumes "entry_key u ty t = entry_key v ty' t'" "0x3A \<notin> set u" "0x3A \<notin> set v"
  shows "u = v \<and> ty = ty' \<and> t = t'"
proof -
  have eq: "u @ 0x3A # 0x3A # type_name ty @ 0x3A # 0x3A # t = v @ 0x3A # 0x3A # type_name ty' @ 0x3A # 0x3A # t'"
    using assms(1) by (simp add: entry_key_def colon)
  have u: "u = v" using before_colon [OF assms(2)] before_colon [OF assms(3)] eq by metis
  with eq have eq2: "type_name ty @ 0x3A # 0x3A # t = type_name ty' @ 0x3A # 0x3A # t'" by simp
  then have "type_name ty = type_name ty'" using before_colon [OF type_name_no_colon] by metis
  with u eq2 show ?thesis by (simp add: type_name_inject)
qed

lemma loadIndex_loaded: "loadIndex H (A\<lparr>index := Some d\<rparr>) = (d, A\<lparr>index := Some d\<rparr>)"
  by (simp add: loadIndex_def)

lemma save_load:
  assumes "index A = Some d"
  shows "loadIndex H (saveIndex A) = (d, saveIndex A)"
    and "writable A \<Longrightarrow> personalProfile (fst (loadIndex H (saveIndex A\<lparr>index := None\<rparr>))) = personalProfile d
      \<and> groupProfile (fst (loadIndex H (saveIndex A\<lparr>index := None\<rparr>))) = groupProfile d
      \<and> baseline (fst (loadIndex H (saveIndex A\<lparr>index := None\<rparr>))) = merge_baseline (baseline d) (initBaseline (baseline_kw A))"
  using assms by (simp_all add: saveIndex_def loadIndex_def or_empty_def Let_def)

lemma loadIndex_writable [simp]: "writable (snd (loadIndex H A)) = writable A"
  by (simp add: loadIndex_def saveIndex_def Let_def split: option.splits stored_index.splits)



section \<open>What the baseline learns about concepts is lost\<close>

lemma merge_types:
  "\<forall>e\<in>set (mvals fresh). Q (re_type e) \<Longrightarrow> \<forall>e\<in>set (mvals (merge_baseline stored fresh)). Q (re_type e)"
  unfolding merge_baseline_def
proof (rule fold_inv [where P = "\<lambda>l. \<forall>e\<in>set (mvals l). Q (re_type e)"])
  fix x :: "jstr \<times> route_entry" and s :: layer
  assume s: "\<forall>e\<in>set (mvals s). Q (re_type e)"
  obtain k e where x: "x = (k, e)" by force
  have "\<forall>e\<in>set (mvals (mput k (f\<lparr>re_freq := a, re_last := b\<rparr>) s)). Q (re_type e)" if "mget s k = Some f" for f a b
    using s that set_mput [of k "f\<lparr>re_freq := a, re_last := b\<rparr>" s] by (force simp: mvals_def dest: map_of_SomeD)
  with s x show "\<forall>e\<in>set (mvals ((case x of (k, e) \<Rightarrow> \<lambda>b. case mget b k of None \<Rightarrow> b
      | Some f \<Rightarrow> mput k (f\<lparr>re_freq := re_freq e, re_last := re_last e\<rparr>) b) s)). Q (re_type e)"
    by (simp split: option.split)
qed

definition concept_free :: "layer \<Rightarrow> bool" where
  "concept_free l \<longleftrightarrow> (\<forall>e\<in>set (mvals l). re_type e \<noteq> ConceptTarget)"

lemma concept_free_factory: "concept_free l \<Longrightarrow> ty \<noteq> ConceptTarget \<Longrightarrow> concept_free (put_factory ty kw t l)"
  using set_mput [of "entry_key kw ty t" "factory_entry ty kw t" l]
  by (auto simp: concept_free_def put_factory_def factory_entry_def mvals_def)

lemma concept_free_Nil [simp]: "concept_free []"
  by (simp add: concept_free_def mvals_def)

lemma factory_types: "concept_free (initBaseline kws)"
  unfolding initBaseline_def
  by (intro fold_inv [where P = concept_free]; auto intro!: fold_inv [where P = concept_free] concept_free_factory)

text \<open>A seeded concept is in the baseline with the count one, so that it is taken for a confirmed one at once; and a restart drops it from
  the baseline again, whatever was counted there, since only the keys of the factory table are read back.\<close>

theorem seeded_concepts_count_and_are_lost:
  assumes "writable A" "mget (baseline (fst (loadIndex H A))) (entry_key kw ConceptTarget c) = None"
  shows "let A1 = seedConceptKeywords H now [(kw, c)] A in
     map_option re_freq (mget (baseline (fst (loadIndex H A1))) (entry_key kw ConceptTarget c)) = Some (Fin 1)
   \<and> filter (\<lambda>e. re_type e = ConceptTarget) (mvals (baseline (fst (loadIndex H (A1\<lparr>index := None\<rparr>))))) = []"
proof -
  obtain d A' where l: "loadIndex H A = (d, A')" by force
  let ?b = "mput (entry_key kw ConceptTarget c) (makeEntry now kw c ConceptTarget BaselineSource) (baseline d)"
  have new: "seed now (kw, c) (baseline d) = ?b"
    using assms(2) by (simp add: seed_def l mhas_iff)
  have "length ?b \<noteq> length (baseline d)" using assms(2) by (simp add: mput_fresh l)
  then have A1: "seedConceptKeywords H now [(kw, c)] A = saveIndex (A'\<lparr>index := Some (d\<lparr>baseline := ?b\<rparr>)\<rparr>)"
    by (simp add: seedConceptKeywords_def l new Let_def)
  have w: "writable A'" using assms(1) loadIndex_writable [of H A] by (simp add: l)
  let ?A = "A'\<lparr>index := Some (d\<lparr>baseline := ?b\<rparr>)\<rparr>"
  have "map_option re_freq (mget (baseline (fst (loadIndex H (saveIndex ?A)))) (entry_key kw ConceptTarget c)) = Some (Fin 1)"
    using save_load(1) [of ?A "d\<lparr>baseline := ?b\<rparr>" H] by (simp add: makeEntry_def)
  moreover have "\<forall>e\<in>set (mvals (baseline (fst (loadIndex H (saveIndex ?A\<lparr>index := None\<rparr>))))). re_type e \<noteq> ConceptTarget"
    using save_load(2) [of ?A "d\<lparr>baseline := ?b\<rparr>" H] w merge_types [of _ "\<lambda>ty. ty \<noteq> ConceptTarget", OF factory_types [unfolded concept_free_def]] by simp
  ultimately show ?thesis by (simp add: A1 Let_def filter_empty_conv)
qed

lemma seeded_concepts_count_and_are_lost_witness:
  "filter (\<lambda>e. re_type e = ConceptTarget)
     (mvals (baseline (fst (loadIndex sample_host ((seedConceptKeywords sample_host (Fin 1) [(js ''gate'', js ''c1'')] no_index)\<lparr>index := None\<rparr>))))) = []"
proof -
  have "mget (initBaseline []) (entry_key (js ''gate'') ConceptTarget (js ''c1'')) = None"
    by (simp add: initBaseline_def getAllNaturalLangSkills_def UNIFIED_SKILLS_def registration_of_def put_factory_def entry_key_def js_def)
  then have "mget (baseline (fst (loadIndex sample_host no_index))) (entry_key (js ''gate'') ConceptTarget (js ''c1'')) = None"
    by (simp add: loadIndex_def no_index_def fresh_index_def Let_def)
  from seeded_concepts_count_and_are_lost [OF _ this] show ?thesis by (simp add: Let_def no_index_def)
qed

section \<open>The order of the hits\<close>

text \<open>The hits are the entries of the three layers whose keyword matches, by falling score; the layers decide the order only among
  equal scores.\<close>

theorem hits_are_ranked_by_score:
  assumes "trim (low u) \<noteq> []"
  shows "let hits = fst (queryAllLayers H low log2 now u A);
             entries = filter (\<lambda>e. kw_matches (low (re_keyword e)) (trim (low u))) (all_entries (fst (loadIndex H A)))
    in mset hits = mset (map (hit_of log2 now) entries) \<and> ranked hit_score hits
     \<and> filter (\<lambda>h. hit_score h = s) hits = filter (\<lambda>h. hit_score h = s) (map (hit_of log2 now) entries)"
  using assms by (simp add: queryAllLayers_def Let_def sort_scores_ranked sort_scores_stable split: prod.split)

lemma hits_are_ranked_by_score_witness:
  "ranked hit_score (fst (queryAllLayers sample_host (\<lambda>s. s) (\<lambda>x. x) (Fin 9) (js ''room'') no_index))"
proof -
  have "trim (js ''room'') \<noteq> []" by code_simp
  then show ?thesis using hits_are_ranked_by_score [of "\<lambda>s. s" "js ''room''"] unfolding Let_def by blast
qed

end
