(* ===== verification/IndexShards.thy ===== *)
theory IndexShards
  imports TextIndex ToolExecution
begin

text \<open>
  The index of domains and the selection of the shards that a prompt gets (\<open>context-manager/indexShardLoader.ts\<close>): the
  builtin table, domains derived from the registered schema, the merge with the shards of the business adapters, the
  selection by words, by overlap of tokens and by embeddings. Lower-casing (\<open>low\<close>), the square root and the embedding
  function are parameters; the registered shards are an argument.
\<close>

section \<open>Domains\<close>

record domain_shard =
  domainName :: jstr
  ds_keywords :: "jstr list"
  domainDescription :: jstr
  fieldSemantics :: "jstr option"
  constraintKnowledge :: "jstr option"

definition BUILTIN_DOMAINS :: "domain_shard list" where
  "BUILTIN_DOMAINS =
    [\<lparr>domainName = js ''connection'', ds_keywords = [[0x8FDE, 0x63A5], js ''connection'', js ''connect'', js ''host'', js ''port'', [0x5730, 0x5740], [0x7AEF, 0x53E3], js ''hostname''],
      domainDescription = [0x8FDE, 0x63A5, 0x914D, 0x7F6E, 0xFF1A, 0x4E3B, 0x673A, 0x3001, 0x7AEF, 0x53E3, 0x3001, 0x8D85, 0x65F6, 0x3001, 0x8FDE, 0x63A5, 0x6C60], fieldSemantics = Some (js ''connection: host/port/timeout/pool''),
      constraintKnowledge = Some (js ''host required; port range 1-65535; timeout >= 1000'')\<rparr>,
     \<lparr>domainName = js ''security'', ds_keywords = [[0x5B89, 0x5168], js ''security'', js ''ssl'', js ''tls'', [0x8BA4, 0x8BC1], js ''auth'', [0x5BC6, 0x7801], js ''password'', [0x5BC6, 0x94A5], js ''key''],
      domainDescription = [0x5B89, 0x5168, 0x914D, 0x7F6E, 0xFF1A, 0x0053, 0x0053, 0x004C, 0x002F, 0x0054, 0x004C, 0x0053, 0x3001, 0x8BA4, 0x8BC1, 0x3001, 0x5BC6, 0x94A5, 0x3001, 0x5BC6, 0x7801], fieldSemantics = Some (js ''security: ssl_enabled/cert_path/key_path/auth_type''),
      constraintKnowledge = Some (js ''ssl_enabled bool; cert_path required if ssl_enabled'')\<rparr>,
     \<lparr>domainName = js ''logging'', ds_keywords = [[0x65E5, 0x5FD7], js ''log'', js ''logging'', js ''log_level'', js ''trace'', js ''debug''],
      domainDescription = [0x65E5, 0x5FD7, 0x914D, 0x7F6E, 0xFF1A, 0x65E5, 0x5FD7, 0x7EA7, 0x522B, 0x3001, 0x8F93, 0x51FA, 0x8DEF, 0x5F84, 0x3001, 0x683C, 0x5F0F], fieldSemantics = Some (js ''logging: log_level/log_path/log_format/max_size''),
      constraintKnowledge = Some (js ''log_level in (debug,info,warn,error); max_size <= 100MB'')\<rparr>,
     \<lparr>domainName = js ''room'', ds_keywords = [[0x623F, 0x95F4], js ''room'', js ''live'', [0x76F4, 0x64AD], js ''live'', js ''danmaku'', [0x5F39, 0x5E55], js ''gift'', [0x793C, 0x7269]],
      domainDescription = [0x76F4, 0x64AD, 0x623F, 0x95F4, 0x914D, 0x7F6E, 0xFF1A, 0x623F, 0x95F4, 0x53F7, 0x3001, 0x5F39, 0x5E55, 0x8BBE, 0x7F6E, 0x3001, 0x793C, 0x7269, 0x914D, 0x7F6E], fieldSemantics = Some (js ''room: room_id/room_name/announcement/danmaku_settings/gift_settings''),
      constraintKnowledge = Some (js ''room_id required; danmaku_settings object'')\<rparr>,
     \<lparr>domainName = js ''payment'', ds_keywords = [[0x652F, 0x4ED8], js ''payment'', [0x91D1, 0x989D], js ''amount'', js ''price'', [0x4EF7, 0x683C], [0x6536, 0x8D39], js ''fee''],
      domainDescription = [0x652F, 0x4ED8, 0x914D, 0x7F6E, 0xFF1A, 0x91D1, 0x989D, 0x3001, 0x8D39, 0x7387, 0x3001, 0x652F, 0x4ED8, 0x6E20, 0x9053], fieldSemantics = Some (js ''payment: amount/currency/fee_rate/channel/min_amount/max_amount''),
      constraintKnowledge = Some (js ''fee_rate 0-1; min_amount >= 0; max_amount > min_amount'')\<rparr>,
     \<lparr>domainName = js ''database'', ds_keywords = [[0x6570, 0x636E, 0x5E93], js ''database'', js ''db'', js ''mysql'', js ''redis'', js ''sql'', [0x5B58, 0x50A8], js ''storage''],
      domainDescription = [0x6570, 0x636E, 0x5E93, 0x914D, 0x7F6E, 0xFF1A, 0x8FDE, 0x63A5, 0x5B57, 0x7B26, 0x4E32, 0x3001, 0x8FDE, 0x63A5, 0x6C60, 0x3001, 0x8D85, 0x65F6], fieldSemantics = Some (js ''database: db_type/db_host/db_port/db_name/pool_size/timeout''),
      constraintKnowledge = Some (js ''db_type in (mysql,postgresql,redis); pool_size >= 1'')\<rparr>,
     \<lparr>domainName = js ''models'', ds_keywords = [[0x6A21, 0x578B], js ''models'', js ''model'', js ''template'', [0x6A21, 0x677F], [0x914D, 0x7F6E], js ''config''],
      domainDescription = [0x6A21, 0x578B, 0x002F, 0x914D, 0x7F6E, 0x6587, 0x4EF6, 0x7BA1, 0x7406], fieldSemantics = Some (js ''models: model_name/version/file_path/format''),
      constraintKnowledge = Some (js ''model_name required; format in (json,yaml,toml)'')\<rparr>,
     \<lparr>domainName = js ''gate'', ds_keywords = [[0x89C4, 0x5219], js ''gate'', js ''rule'', [0x6821, 0x9A8C], js ''validate'', [0x7EA6, 0x675F], js ''constraint''],
      domainDescription = [0x0047, 0x0061, 0x0074, 0x0065, 0x0020, 0x89C4, 0x5219, 0x914D, 0x7F6E, 0xFF1A, 0x6821, 0x9A8C, 0x89C4, 0x5219, 0x3001, 0x6761, 0x4EF6, 0x3001, 0x8868, 0x8FBE, 0x5F0F], fieldSemantics = Some (js ''gate: gate_id/gate_type/condition/expression/action''),
      constraintKnowledge = Some (js ''gate_id unique; expression valid syntax'')\<rparr>]"

record shard_state =
  builtin_domains :: "domain_shard list"
  dynamic_domains :: "domain_shard list option"
  embeddings :: "(jstr, jsnum list) jmap option"
  embedder :: "(jstr \<Rightarrow> jsnum list option) option"

definition new_shards :: shard_state where
  "new_shards = \<lparr>builtin_domains = BUILTIN_DOMAINS, dynamic_domains = None, embeddings = None, embedder = None\<rparr>"

section \<open>Domains from the schema\<close>

text \<open>\<open>split(/\\s+/)\<close>.\<close>

function split_spaces :: "jstr \<Rightarrow> jstr list" where
  "split_spaces [] = [[]]"
| "split_spaces (c # s) =
     (if is_space c then [] # split_spaces (dropWhile is_space s)
      else (case split_spaces s of [] \<Rightarrow> [[c]] | w # ws \<Rightarrow> (c # w) # ws))"
  by pat_completeness auto
termination by (relation "measure length") (auto simp: less_Suc_eq_le length_dropWhile_le)

record field_group =
  group_keys :: "jstr list"
  group_descriptions :: "jstr list"

definition key_prefix :: "jstr \<Rightarrow> jstr" where
  "key_prefix k = (let parts = split_at 0x2E k in if 3 \<le> length parts then join_with [0x2E] (take 2 parts) else hd parts)"

text \<open>
  The groups of the fields; \<open>None\<close> when it throws: an element is null, or a key or description that is truthy is no text. (The
  second throws later, when the description is split, and nothing has been changed by then.)
\<close>

fun group_fields :: "json list \<Rightarrow> (jstr, field_group) jmap \<Rightarrow> (jstr, field_group) jmap option" where
  "group_fields [] m = Some m"
| "group_fields (f # fs) m =
     (if f = JNull then None
      else if \<not> json_truthy (jfield (js ''key'') f) then group_fields fs m
      else (case the (jfield (js ''key'') f) of
          JStr k \<Rightarrow>
            (let p = key_prefix k;
                 g = (case mget m p of None \<Rightarrow> \<lparr>group_keys = [], group_descriptions = []\<rparr> | Some g \<Rightarrow> g);
                 d = jfield (js ''description'') f
             in if \<not> json_truthy d then group_fields fs (mput p (g\<lparr>group_keys := group_keys g @ [k]\<rparr>) m)
                else (case the d of
                    JStr t \<Rightarrow> group_fields fs (mput p (g\<lparr>group_keys := group_keys g @ [k], group_descriptions := group_descriptions g @ [t]\<rparr>) m)
                  | _ \<Rightarrow> None))
        | _ \<Rightarrow> None))"

definition dots_to_dashes :: "jstr \<Rightarrow> jstr" where
  "dots_to_dashes s = map (\<lambda>c. if c = 0x2E then 0x2D else c) s"

definition domain_of_group :: "jstr \<times> field_group \<Rightarrow> domain_shard" where
  "domain_of_group x =
     (case x of (p, g) \<Rightarrow>
       \<lparr>domainName = dots_to_dashes p,
        ds_keywords = firsts (filter (\<lambda>k. 1 < length k) (p # split_at 0x2E p @ concat (map split_spaces (group_descriptions g)))),
        domainDescription = p @ [0x0020, 0x914D, 0x7F6E, 0x7EC4, 0xFF1A] @ (let t = join_with [0xFF1B] (group_descriptions g) in if t = [] then [0x65E0, 0x63CF, 0x8FF0] else t),
        fieldSemantics = Some (join_with (js '', '') (group_keys g)),
        constraintKnowledge = Some (p @ [0x0020, 0x5B57, 0x6BB5, 0x6570, 0xFF1A] @ decimal (length (group_keys g)))\<rparr>)"

definition deriveDomainsFromSchema :: "json \<Rightarrow> domain_shard list option" where
  "deriveDomainsFromSchema sch =
     (if \<not> json_truthy (Some sch) then Some []
      else (case jfield (js ''fields'') sch of
          Some (JArr fs) \<Rightarrow> map_option (map domain_of_group) (group_fields fs [])
        | _ \<Rightarrow> Some []))"

text \<open>The answer of the call, or its rejection.\<close>

definition initDynamicDomains :: "json option \<Rightarrow> shard_state \<Rightarrow> shard_state" where
  "initDynamicDomains sch S =
     (case sch of None \<Rightarrow> S
      | Some j \<Rightarrow> (case deriveDomainsFromSchema j of
            Some (d # ds) \<Rightarrow> S\<lparr>dynamic_domains := Some (d # ds)\<rparr>
          | _ \<Rightarrow> S))"

fun put_shard :: "domain_shard \<Rightarrow> domain_shard list \<Rightarrow> domain_shard list" where
  "put_shard d [] = [d]"
| "put_shard d (e # es) = (if domainName e = domainName d then d # es else e # put_shard d es)"

text \<open>The cached dynamic list is extended itself; of the builtin table a copy is.\<close>

definition getAllDomains :: "domain_shard list option \<Rightarrow> shard_state \<Rightarrow> domain_shard list \<times> shard_state" where
  "getAllDomains registered S =
     (let merge = fold put_shard (case registered of None \<Rightarrow> [] | Some ds \<Rightarrow> ds)
      in case dynamic_domains S of
           Some (d # ds) \<Rightarrow> (merge (d # ds), S\<lparr>dynamic_domains := Some (merge (d # ds))\<rparr>)
         | _ \<Rightarrow> (merge (builtin_domains S), S))"

definition registerDomain :: "domain_shard \<Rightarrow> shard_state \<Rightarrow> shard_state" where
  "registerDomain d S =
     (case dynamic_domains S of
        Some ds \<Rightarrow> S\<lparr>dynamic_domains := Some (put_shard d ds)\<rparr>
      | None \<Rightarrow> S\<lparr>builtin_domains := put_shard d (builtin_domains S)\<rparr>)"

section \<open>Selection\<close>

record shard_result =
  domainKnowledge :: jstr
  sr_fields :: jstr
  sr_constraints :: jstr
  matchedCount :: nat
  totalDomains :: nat
  compressionRatio :: jsnum

definition opt_length :: "jstr option \<Rightarrow> nat" where
  "opt_length s = (case s of None \<Rightarrow> 0 | Some t \<Rightarrow> length t)"

definition shard_size :: "domain_shard \<Rightarrow> nat" where
  "shard_size d = length (domainDescription d) + opt_length (fieldSemantics d) + opt_length (constraintKnowledge d)"

definition total_size :: "domain_shard list \<Rightarrow> nat" where
  "total_size ds = sum_list (map shard_size ds)"

definition join_present :: "jstr option list \<Rightarrow> jstr" where
  "join_present xs = join_with [0x0A] (filter (\<lambda>t. t \<noteq> []) (map (\<lambda>x. case x of None \<Rightarrow> [] | Some t \<Rightarrow> t) xs))"

definition buildShardResult :: "domain_shard list \<Rightarrow> domain_shard list \<Rightarrow> shard_result" where
  "buildShardResult hits all =
     \<lparr>domainKnowledge = join_with [0x0A] (map domainDescription hits),
      sr_fields = join_present (map fieldSemantics hits), sr_constraints = join_present (map constraintKnowledge hits),
      matchedCount = length hits, totalDomains = length all,
      compressionRatio = (if 0 < total_size all then nsub (Fin 1) (ndiv (jnum_nat (total_size hits)) (jnum_nat (total_size all))) else Fin 1)\<rparr>"

definition nothing_selected :: "domain_shard list \<Rightarrow> shard_result" where
  "nothing_selected all = \<lparr>domainKnowledge = [], sr_fields = [], sr_constraints = [], matchedCount = 0, totalDomains = length all,
     compressionRatio = Fin 1\<rparr>"

definition keyword_selects :: "(jstr \<Rightarrow> jstr) \<Rightarrow> jstr \<Rightarrow> domain_shard \<Rightarrow> bool" where
  "keyword_selects low intent d \<longleftrightarrow> list_ex (\<lambda>kw. str_includes (low intent) (low kw)) (ds_keywords d)"

definition selectIndexShards :: "(jstr \<Rightarrow> jstr) \<Rightarrow> jstr \<Rightarrow> domain_shard list \<Rightarrow> shard_result" where
  "selectIndexShards low intent ds =
     (if trim intent = [] then nothing_selected ds else buildShardResult (filter (keyword_selects low intent) ds) ds)"

definition domain_text :: "domain_shard \<Rightarrow> jstr" where
  "domain_text d = join_with [0x20] (ds_keywords d @ [domainDescription d, case fieldSemantics d of None \<Rightarrow> [] | Some t \<Rightarrow> t,
     case constraintKnowledge d of None \<Rightarrow> [] | Some t \<Rightarrow> t])"

definition tokenize :: "(jstr \<Rightarrow> jstr) \<Rightarrow> jstr \<Rightarrow> jstr list" where
  "tokenize low t = (let hans = filter is_han t in firsts (long_words (low t) @ pairs hans @ map (\<lambda>c. [c]) hans))"

definition jaccard :: "jstr list \<Rightarrow> jstr list \<Rightarrow> jsnum" where
  "jaccard q t = (if t = [] then Fin 0
     else ndiv (jnum_nat (length (filter (\<lambda>x. x \<in> set t) q))) (jnum_nat (length (firsts (q @ t)))))"

fun dot :: "jsnum list \<Rightarrow> jsnum list \<Rightarrow> jsnum \<Rightarrow> jsnum" where
  "dot (x # xs) (y # ys) a = dot xs ys (nadd a (nmul x y))"
| "dot xs ys a = a"

definition cosineSimilarity :: "(jsnum \<Rightarrow> jsnum) \<Rightarrow> jsnum list \<Rightarrow> jsnum list \<Rightarrow> jsnum" where
  "cosineSimilarity sqroot a b =
     (if a = [] \<or> b = [] \<or> length a \<noteq> length b then Fin 0
      else (let denom = nmul (sqroot (dot a a (Fin 0))) (sqroot (dot b b (Fin 0))) in
            if denom = Fin 0 then Fin 0 else ndiv (dot a b (Fin 0)) denom))"

definition initEmbeddingCache :: "(jstr \<Rightarrow> jsnum list option) \<Rightarrow> domain_shard list \<Rightarrow> shard_state \<Rightarrow> shard_state" where
  "initEmbeddingCache emb ds S =
     S\<lparr>embedder := Some emb,
       embeddings := Some (fold (\<lambda>d m. mput (domainName d)
          (if trim (domain_text d) = [] then [] else case emb (domain_text d) of None \<Rightarrow> [] | Some v \<Rightarrow> v) m) ds [])\<rparr>"

definition clearEmbeddingCache :: "shard_state \<Rightarrow> shard_state" where
  "clearEmbeddingCache S = S\<lparr>embedder := None, embeddings := None\<rparr>"

definition tryEmbeddingRank :: "(jsnum \<Rightarrow> jsnum) \<Rightarrow> jstr \<Rightarrow> domain_shard list \<Rightarrow> shard_state \<Rightarrow> jsnum list option" where
  "tryEmbeddingRank sqroot intent ds S =
     (case (embeddings S, embedder S) of
        (Some cache, Some emb) \<Rightarrow>
          (case emb intent of
             Some (x # q) \<Rightarrow> Some (map (\<lambda>d. case mget cache (domainName d) of
                 Some (y # v) \<Rightarrow> cosineSimilarity sqroot (x # q) (y # v) | _ \<Rightarrow> Fin 0) ds)
           | _ \<Rightarrow> None)
      | _ \<Rightarrow> None)"

text \<open>The domains that reach the threshold, by falling score.\<close>

definition over_threshold :: "jsnum \<Rightarrow> (domain_shard \<times> jsnum) list \<Rightarrow> domain_shard list" where
  "over_threshold th scored = map fst (sort_scores snd (filter (\<lambda>(d, s). num_le th s) scored))"

definition selectIndexShardsSemantic :: "(jstr \<Rightarrow> jstr) \<Rightarrow> (jsnum \<Rightarrow> jsnum) \<Rightarrow> jsnum \<Rightarrow> jsnum \<Rightarrow> jstr \<Rightarrow> domain_shard list \<Rightarrow> shard_state \<Rightarrow> shard_result" where
  "selectIndexShardsSemantic low sqroot jaccardTh cosineTh intent ds S =
     (if trim intent = [] then nothing_selected ds
      else if tokenize low intent = [] then selectIndexShards low intent ds
      else (let overlap = over_threshold jaccardTh (map (\<lambda>d. (d, jaccard (tokenize low intent) (tokenize low (domain_text d)))) ds) in
        if overlap \<noteq> [] then buildShardResult overlap ds
        else (case tryEmbeddingRank sqroot intent ds S of
            Some scores \<Rightarrow> (let near = over_threshold cosineTh (zip ds scores) in
               if near \<noteq> [] then buildShardResult near ds else selectIndexShards low intent ds)
          | None \<Rightarrow> selectIndexShards low intent ds)))"

section \<open>From the result\<close>

definition word_unit :: "16 word \<Rightarrow> bool" where
  "word_unit c \<longleftrightarrow> is_letter c \<or> is_upper c \<or> is_digit c \<or> c = 0x5F \<or> c = 0x2E"

definition extractDomainKeyPrefixes :: "shard_result \<Rightarrow> jstr list" where
  "extractDomainKeyPrefixes r =
     (if sr_fields r = [] then []
      else firsts (List.map_filter (\<lambda>part. let w = takeWhile word_unit part in
               if w = [] then None else Some (join_with [0x2E] (take 2 (split_at 0x2E w)))) (split_at 0x7C (sr_fields r))))"

record compact_index =
  ci_fields :: jstr
  ci_domain :: jstr
  ci_constraints :: jstr

definition shardResultToCompactIndex :: "shard_result \<Rightarrow> compact_index option" where
  "shardResultToCompactIndex r =
     (if matchedCount r = 0 then None
      else Some \<lparr>ci_fields = sr_fields r, ci_domain = domainKnowledge r, ci_constraints = sr_constraints r\<rparr>)"

section \<open>Bounds of the selection\<close>

lemma size_mono: "mset hits \<subseteq># mset all \<Longrightarrow> total_size hits \<le> total_size all"
proof -
  assume "mset hits \<subseteq># mset all"
  then obtain r where "mset all = mset hits + r" by (auto simp: mset_subset_eq_exists_conv)
  then have "(\<Sum>x\<in>#mset all. shard_size x) = (\<Sum>x\<in>#mset hits. shard_size x) + (\<Sum>x\<in>#r. shard_size x)" by simp
  then show ?thesis by (simp add: total_size_def sum_mset_sum_list [symmetric] flip: mset_map)
qed

lemma ratio_unit:
  assumes "a \<le> b" "0 < b" "b \<le> 2 ^ 53"
  shows "in_range 0 1 (nsub (Fin 1) (ndiv (jnum_nat a) (jnum_nat b)))"
proof -
  have n: "jnum_nat k = Fin (of_nat k)" if "k \<le> 2 ^ 53" for k
    using that num_int [of "int k"] by (simp add: jnum_nat_def)
  have q: "in_range 0 1 (ndiv (jnum_nat a) (jnum_nat b))"
    using assms by (simp add: n ndiv_def) (intro num_range; simp add: divide_le_eq_1)
  then obtain v where v: "ndiv (jnum_nat a) (jnum_nat b) = Fin v" "0 \<le> v" "v \<le> 1" by (auto elim: in_rangeE)
  then have "in_range 0 1 (num (1 + - v))" by (intro num_range) simp_all
  with v show ?thesis by (simp add: nsub_def)
qed

definition selection_ok :: "domain_shard list \<Rightarrow> shard_result \<Rightarrow> bool" where
  "selection_ok all r \<longleftrightarrow> matchedCount r \<le> totalDomains r \<and> totalDomains r = length all \<and> in_range 0 1 (compressionRatio r)
     \<and> (matchedCount r = 0 \<longrightarrow> domainKnowledge r = [] \<and> sr_fields r = [] \<and> sr_constraints r = [])"

lemma buildShardResult_ok:
  assumes "mset hits \<subseteq># mset all" "total_size all \<le> 2 ^ 53"
  shows "selection_ok all (buildShardResult hits all)"
  using size_mset_mono [OF assms(1)] ratio_unit [OF size_mono [OF assms(1)] _ assms(2)]
  by (auto simp: selection_ok_def buildShardResult_def join_present_def)

lemma nothing_ok: "selection_ok ds (nothing_selected ds)"
  by (simp add: selection_ok_def nothing_selected_def)

lemma select_ok: "total_size ds \<le> 2 ^ 53 \<Longrightarrow> selection_ok ds (selectIndexShards low intent ds)"
  using buildShardResult_ok [of "filter (keyword_selects low intent) ds" ds] nothing_ok
  by (simp add: selectIndexShards_def multiset_filter_subset)

lemma over_threshold_subset:
  assumes "map fst scored = ds"
  shows "mset (over_threshold th scored) \<subseteq># mset ds"
proof -
  have "image_mset fst (mset (filter (\<lambda>(d, s). num_le th s) scored)) \<subseteq># image_mset fst (mset scored)"
    by (intro image_mset_subseteq_mono) (simp add: multiset_filter_subset)
  then show ?thesis using assms by (auto simp: over_threshold_def)
qed

lemma rank_length: "tryEmbeddingRank sqroot intent ds S = Some scores \<Longrightarrow> length scores = length ds"
  by (auto simp: tryEmbeddingRank_def split: option.splits list.splits)

text \<open>Whichever of the ways selects: no more domains are matched than there are, the compression lies between 0 and 1, and when nothing
  is matched nothing is put into the prompt.\<close>

theorem selection_within_bounds:
  assumes "total_size ds \<le> 2 ^ 53"
  shows "selection_ok ds (selectIndexShardsSemantic low sqroot jth cth intent ds S)"
proof -
  let ?J = "over_threshold jth (map (\<lambda>d. (d, jaccard (tokenize low intent) (tokenize low (domain_text d)))) ds)"
  have j: "selection_ok ds (buildShardResult ?J ds)"
    by (intro buildShardResult_ok over_threshold_subset assms) (simp add: comp_def)
  have c: "selection_ok ds (buildShardResult (over_threshold cth (zip ds scores)) ds)" if "length scores = length ds" for scores
    using that by (intro buildShardResult_ok over_threshold_subset assms) simp
  show ?thesis
    using j c rank_length nothing_ok select_ok [OF assms] by (auto simp: selectIndexShardsSemantic_def Let_def split: option.split)
qed

lemma selection_within_bounds_witness:
  "selection_ok BUILTIN_DOMAINS (selectIndexShardsSemantic (\<lambda>s. s) (\<lambda>x. x) (num (15 / 100)) (num (1 / 2)) (js ''room'') BUILTIN_DOMAINS new_shards)"
  by (rule selection_within_bounds) (simp add: total_size_def shard_size_def opt_length_def BUILTIN_DOMAINS_def js_def)

section \<open>Registered shards\<close>

lemma put_shard_names: "map domainName (put_shard d ds) = (if domainName d \<in> domainName ` set ds then map domainName ds else map domainName ds @ [domainName d])"
  by (induction ds) auto

lemma put_shard_mem: "d \<in> set (put_shard d ds)"
  by (induction ds) auto

lemma put_shard_keeps: "e \<in> set ds \<Longrightarrow> domainName e \<noteq> domainName d \<Longrightarrow> e \<in> set (put_shard d ds)"
  by (induction ds) auto

lemma merge_keeps: "e \<in> set ds \<Longrightarrow> domainName e \<notin> domainName ` set rs \<Longrightarrow> e \<in> set (fold put_shard rs ds)"
  by (induction rs arbitrary: ds) (auto simp: put_shard_keeps)

lemma merge_members: "distinct (map domainName rs) \<Longrightarrow> d \<in> set rs \<Longrightarrow> d \<in> set (fold put_shard rs ds)"
  by (induction rs arbitrary: ds) (auto simp: merge_keeps put_shard_mem)

lemma put_shard_id: "distinct (map domainName ds) \<Longrightarrow> d \<in> set ds \<Longrightarrow> put_shard d ds = ds"
  by (induction ds) (auto simp: rev_image_eqI)

lemma merge_distinct: "distinct (map domainName ds) \<Longrightarrow> distinct (map domainName (fold put_shard rs ds))"
  by (induction rs arbitrary: ds) (auto simp: put_shard_names)

lemma merge_idem:
  assumes "distinct (map domainName ds)" "distinct (map domainName rs)"
  shows "fold put_shard rs (fold put_shard rs ds) = fold put_shard rs ds"
proof -
  have "fold put_shard qs (fold put_shard rs ds) = fold put_shard rs ds" if "set qs \<subseteq> set rs" for qs
    using that by (induction qs) (auto simp: put_shard_id merge_members merge_distinct assms)
  then show ?thesis by simp
qed

text \<open>Every registered shard is in effect, whatever the builtin or derived table holds under its name; the names stay distinct; and asking
  again, which extends the cached list in place, gives the same list.\<close>

theorem registered_shards_win:
  assumes "distinct (map domainName rs)" "distinct (map domainName (builtin_domains S))"
    and "list_all (\<lambda>ds. distinct (map domainName ds)) (case dynamic_domains S of None \<Rightarrow> [] | Some ds \<Rightarrow> [ds])"
  shows "let (ds, S') = getAllDomains (Some rs) S in
     set rs \<subseteq> set ds \<and> distinct (map domainName ds) \<and> getAllDomains (Some rs) S' = (ds, S')"
proof (cases "\<exists>d ds. dynamic_domains S = Some (d # ds)")
  case True
  then obtain d ds where S: "dynamic_domains S = Some (d # ds)" by blast
  let ?m = "fold put_shard rs (d # ds)"
  have "distinct (map domainName (d # ds))" using assms(3) by (simp add: S)
  then have m: "set rs \<subseteq> set ?m" "distinct (map domainName ?m)" "fold put_shard rs ?m = ?m"
    using merge_members [OF assms(1)] merge_distinct merge_idem assms(1) by blast+
  moreover have "d \<in> set ?m \<or> rs \<noteq> []" by (cases rs) auto
  then have "?m \<noteq> []" using m(1) by auto
  then obtain x xs where "?m = x # xs" by (cases ?m) auto
  ultimately show ?thesis by (simp add: getAllDomains_def S Let_def)
next
  case False
  let ?m = "fold put_shard rs (builtin_domains S)"
  have g: "getAllDomains (Some rs) S = (?m, S)"
    using False by (auto simp: getAllDomains_def Let_def split: option.split list.split)
  moreover have "set rs \<subseteq> set ?m" "distinct (map domainName ?m)"
    using merge_members [OF assms(1)] merge_distinct [OF assms(2)] by blast+
  ultimately show ?thesis by simp
qed

definition my_room :: domain_shard where
  "my_room = \<lparr>domainName = js ''room'', ds_keywords = [js ''r''], domainDescription = [], fieldSemantics = None, constraintKnowledge = None\<rparr>"

lemma registered_shards_win_witness:
  "set [my_room] \<subseteq> set (fst (getAllDomains (Some [my_room]) new_shards))"
proof -
  have "distinct (map domainName (builtin_domains new_shards))" by (simp add: new_shards_def BUILTIN_DOMAINS_def)
  then have "let (ds, S') = getAllDomains (Some [my_room]) new_shards in
      set [my_room] \<subseteq> set ds \<and> distinct (map domainName ds) \<and> getAllDomains (Some [my_room]) S' = (ds, S')"
    by (intro registered_shards_win) (simp_all add: new_shards_def)
  then show ?thesis unfolding Let_def by (auto split: prod.splits)
qed

section \<open>Prefixes of the selected domains\<close>

lemma in_join_with: "c \<notin> set sep \<Longrightarrow> \<forall>x\<in>set xs. c \<notin> set x \<Longrightarrow> c \<notin> set (join_with sep xs)"
  by (induction sep xs rule: join_with.induct) auto

text \<open>The shards are joined with line breaks and cut at bars, so of several domains only the first gives a prefix.\<close>

theorem only_the_first_prefix:
  assumes "\<forall>d\<in>set hits. \<forall>t. fieldSemantics d = Some t \<longrightarrow> 0x7C \<notin> set t"
  shows "length (extractDomainKeyPrefixes (buildShardResult hits all)) \<le> 1"
proof -
  have "0x7C \<notin> set (join_present (map fieldSemantics hits))"
    unfolding join_present_def using assms by (intro in_join_with) (auto split: option.splits)
  then show ?thesis by (simp add: extractDomainKeyPrefixes_def buildShardResult_def split_at_no_sep List.map_filter_simps Let_def)
qed

end
