(* ===== verification/Retriever.thy ===== *)
theory Retriever
  imports AdaptiveIndex IndexShards
begin

text \<open>
  The retrieval of candidates for a request (\<open>pipeline/retriever.ts\<close>): the corpus with its scores, the merge with the
  inverted index, the grouping by domain, the texts for the prompt, the retrieval per clause, and the aliases that the
  user confirms. Logarithms, lower-casing and the two-digit form of a number are parameters, as are the registered index
  and shards. Tables are enumerated in the order of insertion, and no token is the name of a property of the object
  prototype (\<open>constructor\<close>). Parallel calls are made in their order.
\<close>

section \<open>State\<close>

record candidate =
  configKey :: jstr
  cand_label :: jstr
  aiHint :: jstr
  valueType :: jstr
  currentValue :: jstr
  enumOptions :: "jstr list option"
  score :: jsnum
  domains :: "jstr list"

record document_entry =
  doc_text :: jstr
  doc_key :: jstr

datatype stored_aliases = BadAliases | Aliases "(jstr, jstr) jmap"

record retriever =
  LABEL_TO_KEY :: "(jstr, jstr) jmap"
  AI_HINTS :: "(jstr, jstr) jmap"
  KEY_LABELS :: "(jstr, jstr) jmap"
  documentCorpus :: "document_entry list"
  avgDocLength :: jsnum
  idfCache :: "(jstr, jsnum) jmap"
  configToDomainMap :: "(jstr, jstr list) jmap option"
  schemaTypeCache :: "(jstr, jstr) jmap option"
  alias_store :: "stored_aliases option"
  shards :: shard_state
  learned :: adaptive

record 'w retriever_env =
  rt_host :: "'w host"
  low :: "jstr \<Rightarrow> jstr"
  ln_fn :: "jsnum \<Rightarrow> jsnum"
  to_fixed2 :: "jsnum \<Rightarrow> jstr"
  inv_index :: inverted_index
  registered_shards :: "domain_shard list option"

text \<open>\<open>table[k] || d\<close>.\<close>

definition look_or :: "(jstr, jstr) jmap \<Rightarrow> jstr \<Rightarrow> jstr \<Rightarrow> jstr" where
  "look_or m k d = (if falsy_text (mget m k) then d else the (mget m k))"

section \<open>Domains of the keys\<close>

definition domain_hits :: "(jstr \<Rightarrow> jstr) \<Rightarrow> jstr \<Rightarrow> jstr \<Rightarrow> domain_shard \<Rightarrow> bool" where
  "domain_hits lw key label d \<longleftrightarrow> list_ex (\<lambda>kw. str_includes (lw key) (lw kw) \<or> str_includes (lw label) (lw kw)) (ds_keywords d)"

definition buildConfigToDomainMap :: "'w retriever_env \<Rightarrow> retriever \<Rightarrow> (jstr, jstr list) jmap \<times> retriever" where
  "buildConfigToDomainMap V R =
     (case configToDomainMap R of
        Some m \<Rightarrow> (m, R)
      | None \<Rightarrow>
          (let (ds, S) = getAllDomains (registered_shards V) (shards R);
               m = fold (\<lambda>(k, l) m. let hits = map domainName (filter (domain_hits (low V) k l) ds) in if hits = [] then m else mput k hits m)
                     (KEY_LABELS R) []
           in (m, R\<lparr>configToDomainMap := Some m, shards := S\<rparr>)))"

section \<open>The corpus\<close>

definition tokenizeForBM25 :: "(jstr \<Rightarrow> jstr) \<Rightarrow> jstr \<Rightarrow> jstr list" where
  "tokenizeForBM25 lw t = long_words (lw t) @ pairs (filter is_han (lw t))"

definition join_nonempty :: "jstr list \<Rightarrow> jstr" where
  "join_nonempty xs = join_with [0x20] (filter (\<lambda>x. x \<noteq> []) xs)"

definition related_keywords :: "inverted_index \<Rightarrow> jstr \<Rightarrow> jstr list" where
  "related_keywords idx key =
     map fst (filter (\<lambda>(kw, tools). key \<in> set tools \<or> str_includes key kw \<or> str_includes kw key) idx)"

definition key_document :: "inverted_index \<Rightarrow> retriever \<Rightarrow> jstr \<times> jstr \<Rightarrow> document_entry" where
  "key_document idx R x =
     (case x of (label, key) \<Rightarrow>
       \<lparr>doc_text = join_nonempty ([look_or (KEY_LABELS R) key label, label, key, look_or (AI_HINTS R) key []] @ related_keywords idx key), doc_key = key\<rparr>)"

text \<open>The first label of every key.\<close>

fun first_labels :: "(jstr \<times> jstr) list \<Rightarrow> jstr list \<Rightarrow> (jstr \<times> jstr) list" where
  "first_labels [] seen = []"
| "first_labels ((l, k) # xs) seen = (if k \<in> set seen then first_labels xs seen else (l, k) # first_labels xs (k # seen))"

definition profile_document :: "retriever \<Rightarrow> route_entry \<Rightarrow> document_entry" where
  "profile_document R e = \<lparr>doc_text = join_nonempty [re_keyword e, re_target e, look_or (AI_HINTS R) (re_target e) []], doc_key = re_target e\<rparr>"

definition count_terms :: "jstr list \<Rightarrow> (jstr, nat) jmap \<Rightarrow> (jstr, nat) jmap" where
  "count_terms ts m = fold (\<lambda>t m. mput t (Suc (case mget m t of None \<Rightarrow> 0 | Some n \<Rightarrow> n)) m) ts m"

definition idf_value :: "(jsnum \<Rightarrow> jsnum) \<Rightarrow> nat \<Rightarrow> nat \<Rightarrow> jsnum" where
  "idf_value ln_f n f =
     ln_f (nadd (Fin 1) (ndiv (nadd (nsub (jnum_nat n) (jnum_nat f)) (Fin (1 / 2))) (nadd (jnum_nat f) (Fin (1 / 2)))))"

definition buildCorpus :: "'w retriever_env \<Rightarrow> retriever \<Rightarrow> retriever" where
  "buildCorpus V R =
     (let R1 = snd (buildConfigToDomainMap V R);
          (d, L) = loadIndex (rt_host V) (learned R1);
          docs = map (key_document (inv_index V) R1) (first_labels (LABEL_TO_KEY R1) [])
                 @ map (profile_document R1) (filter (\<lambda>e. re_target e \<noteq> []) (mvals (personalProfile d)));
          df = fold (\<lambda>x. count_terms (firsts (tokenizeForBM25 (low V) (doc_text x)))) docs []
      in R1\<lparr>learned := L, documentCorpus := docs,
            avgDocLength := (if docs = [] then Fin 1 else ndiv (jnum_nat (sum_list (map (length \<circ> doc_text) docs))) (jnum_nat (length docs))),
            idfCache := map (\<lambda>(t, f). (t, idf_value (ln_fn V) (length docs) f)) df\<rparr>)"

section \<open>Scores\<close>

definition number_or_zero :: "jsnum option \<Rightarrow> jsnum" where
  "number_or_zero x = (case x of None \<Rightarrow> Fin 0 | Some n \<Rightarrow> if n = NaN then Fin 0 else n)"

definition term_score :: "retriever \<Rightarrow> (jstr, nat) jmap \<Rightarrow> nat \<Rightarrow> jstr \<Rightarrow> jsnum" where
  "term_score R tf docLen t =
     (let idf = number_or_zero (mget (idfCache R) t);
          freq = jnum_nat (case mget tf t of None \<Rightarrow> 0 | Some n \<Rightarrow> n)
      in ndiv (nmul idf (nmul freq (nadd (Fin (3 / 2)) (Fin 1))))
           (nadd freq (nmul (Fin (3 / 2)) (nadd (nsub (Fin 1) (Fin (3 / 4))) (ndiv (nmul (Fin (3 / 4)) (jnum_nat docLen)) (avgDocLength R))))))"

definition bm25Score :: "(jstr \<Rightarrow> jstr) \<Rightarrow> retriever \<Rightarrow> jstr \<Rightarrow> document_entry \<Rightarrow> jsnum" where
  "bm25Score lw R query doc =
     (let qs = tokenizeForBM25 lw query; ts = tokenizeForBM25 lw (doc_text doc); tf = count_terms ts []
      in fold (\<lambda>t s. nadd s (term_score R tf (length ts) t)) qs (Fin 0))"

definition ends_with :: "jstr \<Rightarrow> string \<Rightarrow> bool" where
  "ends_with s e \<longleftrightarrow> (let t = js e in length t \<le> length s \<and> drop (length s - length t) s = t)"

definition file_key :: "jstr \<Rightarrow> bool" where
  "file_key k \<longleftrightarrow> ends_with k ''_path'' \<or> ends_with k ''_directory'' \<or> ends_with k ''_file''"

definition inferValueType :: "retriever \<Rightarrow> jstr \<Rightarrow> jstr" where
  "inferValueType R k =
     (case (case schemaTypeCache R of None \<Rightarrow> None | Some m \<Rightarrow> mget m k) of
        Some t \<Rightarrow> t
      | None \<Rightarrow>
          (if file_key k then js ''file''
           else if ends_with k ''_id'' then js ''string''
           else if ends_with k ''_count'' \<or> ends_with k ''_num'' \<or> ends_with k ''_size'' then js ''number''
           else if ends_with k ''_enabled'' \<or> ends_with k ''_on'' then js ''boolean''
           else js ''string''))"

definition candidate_of :: "retriever \<Rightarrow> (jstr, jstr list) jmap \<Rightarrow> jstr \<Rightarrow> jstr \<Rightarrow> jsnum \<Rightarrow> candidate" where
  "candidate_of R dm key label s =
     \<lparr>configKey = key, cand_label = label, aiHint = look_or (AI_HINTS R) key [], valueType = inferValueType R key, currentValue = [],
      enumOptions = None, score = s, domains = (case mget dm key of None \<Rightarrow> [] | Some ds \<Rightarrow> ds)\<rparr>"

definition bm25Rank :: "'w retriever_env \<Rightarrow> jstr \<Rightarrow> nat \<Rightarrow> retriever \<Rightarrow> candidate list \<times> retriever" where
  "bm25Rank V query topK R =
     (if documentCorpus R = [] then ([], R)
      else (let (dm, R1) = buildConfigToDomainMap V R
            in (take topK (sort_scores score (map (\<lambda>x. candidate_of R1 dm (doc_key x) (look_or (KEY_LABELS R1) (doc_key x) [])
                   (bm25Score (low V) R1 query x)) (documentCorpus R1))), R1)))"

section \<open>Types from the schema\<close>

text \<open>The fields up to the first one that throws; types are texts.\<close>

fun schema_types :: "json list \<Rightarrow> (jstr, jstr) jmap \<Rightarrow> (jstr, jstr) jmap" where
  "schema_types [] m = m"
| "schema_types (f # fs) m =
     (if f = JNull then m
      else (let key = jfield (js ''key'') f;
                ty = (case jfield (js ''type'') f of Some (JStr t) \<Rightarrow> (if t = [] then js ''string'' else t) | _ \<Rightarrow> js ''string'')
            in if \<not> json_truthy key then schema_types fs m
               else (case the key of
                   JStr k \<Rightarrow> schema_types fs (mput k (if json_truthy (jfield (js ''enum'') f) then js ''enum''
                               else if ty = js ''string'' \<and> file_key k then js ''file'' else ty) m)
                 | _ \<Rightarrow> if ty = js ''string'' then m else schema_types fs m)))"

definition loadSchemaTypes :: "'w host \<Rightarrow> retriever \<Rightarrow> 'w \<Rightarrow> retriever \<times> 'w" where
  "loadSchemaTypes H R w =
     (case schemaTypeCache R of
        Some m \<Rightarrow> (R, w)
      | None \<Rightarrow>
          (case schemas H w of
             (IpcThrows e, w') \<Rightarrow> (R\<lparr>schemaTypeCache := Some []\<rparr>, w')
           | (Answer a, w') \<Rightarrow>
               (R\<lparr>schemaTypeCache := Some (case jfield (js ''fields'') a of Some (JArr fs) \<Rightarrow> schema_types fs [] | _ \<Rightarrow> [])\<rparr>, w')))"

definition resetSchemaTypeCache :: "retriever \<Rightarrow> retriever" where
  "resetSchemaTypeCache R = R\<lparr>schemaTypeCache := None\<rparr>"

section \<open>Groups\<close>

datatype group_hint = ListHint | SingleHint | EnumHint

definition enum_questions :: "jstr list" where
  "enum_questions = [[0x54EA, 0x51E0, 0x6863], [0x53EF, 0x9009, 0x8303, 0x56F4], [0x53EF, 0x9009, 0x503C], [0x6709, 0x54EA, 0x4E9B, 0x9009, 0x9879], [0x652F, 0x6301, 0x4EC0, 0x4E48]]"

definition primary_domain :: "candidate \<Rightarrow> jstr" where
  "primary_domain c = (case domains c of [] \<Rightarrow> js ''__unmatched'' | d # _ \<Rightarrow> d)"

definition group_candidates :: "candidate list \<Rightarrow> (jstr, candidate list) jmap" where
  "group_candidates cs =
     fold (\<lambda>c m. mput (primary_domain c) ((case mget m (primary_domain c) of None \<Rightarrow> [] | Some xs \<Rightarrow> xs) @ [c]) m) cs []"

definition has_enum :: "candidate \<Rightarrow> bool" where
  "has_enum c \<longleftrightarrow> (case enumOptions c of None \<Rightarrow> False | Some os \<Rightarrow> os \<noteq> [])"

definition groupByDomain :: "candidate list \<Rightarrow> jstr \<Rightarrow> group_hint option \<times> (jstr, candidate list) jmap" where
  "groupByDomain cs userInput =
     (let g = group_candidates cs; largest = fold max (map length (mvals g)) 0
      in (if list_ex has_enum cs \<and> list_ex (str_includes userInput) enum_questions then Some EnumHint
          else if 2 \<le> length g \<and> largest < 3 then Some ListHint
          else if length g = 1 \<and> 3 \<le> length cs then Some ListHint
          else if num_le (num (6 / 10)) (ndiv (jnum_nat largest) (jnum_nat (length cs))) then Some SingleHint
          else None, g))"

section \<open>Texts for the prompt\<close>

definition value_part :: "candidate \<Rightarrow> jstr" where
  "value_part c = (if currentValue c = [] then [] else [0xFF0C, 0x5F53, 0x524D, 0x503C, 0xFF1A] @ currentValue c)"

definition enum_part :: "candidate \<Rightarrow> jstr" where
  "enum_part c = (case enumOptions c of None \<Rightarrow> [] | Some os \<Rightarrow> [0xFF0C, 0x53EF, 0x9009, 0x503C, 0xFF1A] @ join_with (js '' / '') os)"

definition candidate_line :: "jstr \<Rightarrow> nat \<times> candidate \<Rightarrow> jstr" where
  "candidate_line note x =
     (case x of (i, c) \<Rightarrow> decimal (i + 1) @ js ''. '' @ cand_label c @ [0xFF08] @ configKey c @ [0xFF09, 0x7C7B, 0x578B, 0xFF1A] @ valueType c
        @ value_part c @ enum_part c @ note @ [0x0A] @ [0x0020, 0x0020, 0x0020, 0x63CF, 0x8FF0, 0xFF1A] @ (if aiHint c = [] then [0x65E0] else aiHint c))"

definition buildInjectedContext :: "candidate list \<Rightarrow> jstr" where
  "buildInjectedContext cs = join_with [0x0A] (map (candidate_line []) (enumerate 0 cs))"

section \<open>The retrieval\<close>

definition readCurrentValue :: "'w host \<Rightarrow> jstr \<Rightarrow> 'w \<Rightarrow> jstr \<times> 'w" where
  "readCurrentValue H key w =
     (case ipc H (js ''read_config_value'') [(js ''key'', JStr key)] w of
        (IpcThrows e, w') \<Rightarrow> ([], w')
      | (Answer a, w') \<Rightarrow>
          (let r = jfield (js ''result'') a; v = jfield (js ''value'') a
           in (if \<not> nullish r then string_of H (the r) else if \<not> nullish v then string_of H (the v) else [], w')))"

fun read_values :: "'w host \<Rightarrow> candidate list \<Rightarrow> 'w \<Rightarrow> candidate list \<times> 'w" where
  "read_values H [] w = ([], w)"
| "read_values H (c # cs) w =
     (let (v, w1) = readCurrentValue H (configKey c) w; (rest, w2) = read_values H cs w1
      in (c\<lparr>currentValue := v\<rparr> # rest, w2))"

definition merge_bm25 :: "(jstr \<times> jsnum) list \<Rightarrow> candidate list \<Rightarrow> (jstr, candidate) jmap" where
  "merge_bm25 inverted cs =
     fold (\<lambda>c m. mput (configKey c)
        (c\<lparr>score := nadd (score c) (if num_less (Fin 0) (number_or_zero (mget inverted (configKey c))) then nmul (score c) (num (1 / 10)) else Fin 0)\<rparr>) m) cs []"

definition merge_inverted :: "retriever \<Rightarrow> (jstr, jstr list) jmap \<Rightarrow> (jstr \<times> jsnum) list \<Rightarrow> (jstr, candidate) jmap \<Rightarrow> (jstr, candidate) jmap" where
  "merge_inverted R dm inverted m =
     fold (\<lambda>(k, s) m. if mhas m k then m else mput k (candidate_of R dm k (look_or (KEY_LABELS R) k k) (nmul s (Fin (1 / 2)))) m) inverted m"

record retrieve_result =
  candidates :: "candidate list"
  injectedContext :: jstr
  groupHint :: "group_hint option"
  groupedCandidates :: "(jstr, candidate list) jmap"

definition nothing_found :: retrieve_result where
  "nothing_found = \<lparr>candidates = [], injectedContext = [], groupHint = None, groupedCandidates = []\<rparr>"

definition retrieveTopKCandidates :: "'w retriever_env \<Rightarrow> jstr \<Rightarrow> nat \<Rightarrow> retriever \<Rightarrow> 'w \<Rightarrow> retrieve_result \<times> retriever \<times> 'w" where
  "retrieveTopKCandidates V userInput topK R w =
     (if trim userInput = [] then (nothing_found, R, w)
      else (let (R0, w0) = loadSchemaTypes (rt_host V) R w;
                R1 = (if documentCorpus R0 = [] then buildCorpus V R0 else R0);
                inverted = scoredRetrieve (low V) (inv_index V) userInput (topK * 2);
                (ranked, R2) = bm25Rank V userInput (topK * 2) R1;
                (dm, R3) = buildConfigToDomainMap V R2;
                merged = merge_inverted R3 dm inverted (merge_bm25 inverted ranked);
                (cs, w1) = read_values (rt_host V) (take topK (sort_scores score (mvals merged))) w0;
                (hint, groups) = groupByDomain cs userInput
            in (\<lparr>candidates = cs, injectedContext = buildInjectedContext cs, groupHint = hint, groupedCandidates = groups\<rparr>, R3, w1)))"

record clause_result =
  cr_clause :: jstr
  cr_candidates :: "candidate list"
  cr_context :: jstr

definition clause_context :: "(jsnum \<Rightarrow> jstr) \<Rightarrow> jstr \<Rightarrow> candidate list \<Rightarrow> jstr" where
  "clause_context fixed clause cs =
     (if cs = [] then [0x3010, 0x5B50, 0x53E5, 0x003A, 0x0020] @ clause @ [0x3011, 0x65E0, 0x5339, 0x914D]
      else [0x3010, 0x5B50, 0x53E5, 0x003A, 0x0020] @ clause @ [0x3011] @ [0x0A] @ join_with [0x0A] (map (\<lambda>(i, c). decimal (i + 1) @ js ''. '' @ cand_label c @ [0xFF08]
             @ configKey c @ [0xFF09, 0x5F97, 0x5206, 0xFF1A] @ fixed (score c)) (enumerate 0 cs)))"

fun retrieve_clauses :: "'w retriever_env \<Rightarrow> nat \<Rightarrow> jstr list \<Rightarrow> retriever \<Rightarrow> 'w \<Rightarrow> clause_result list \<times> retriever \<times> 'w" where
  "retrieve_clauses V topK [] R w = ([], R, w)"
| "retrieve_clauses V topK (c # cs) R w =
     (let (r, R1, w1) = retrieveTopKCandidates V c topK R w; (rs, R2, w2) = retrieve_clauses V topK cs R1 w1
      in (\<lparr>cr_clause = c, cr_candidates = candidates r, cr_context = clause_context (to_fixed2 V) c (candidates r)\<rparr> # rs, R2, w2))"

record per_clause_result =
  clauseResults :: "clause_result list"
  combinedCandidates :: "candidate list"
  combinedInjectedContext :: jstr
  pc_groupHint :: "group_hint option"
  pc_grouped :: "(jstr, candidate list) jmap"

definition hit_note :: "clause_result list \<Rightarrow> candidate \<Rightarrow> jstr" where
  "hit_note rs c =
     (let hits = map (\<lambda>r. [0x22] @ cr_clause r @ [0x22]) (filter (\<lambda>r. list_ex (\<lambda>x. configKey x = configKey c) (cr_candidates r)) rs)
      in if hits = [] then [] else [0xFF08, 0x547D, 0x4E2D, 0xFF1A] @ join_with [0x3001] hits @ [0xFF09])"

definition hint_text :: "group_hint \<Rightarrow> jstr" where
  "hint_text h = (case h of ListHint \<Rightarrow> js ''list'' | SingleHint \<Rightarrow> js ''single'' | EnumHint \<Rightarrow> js ''enum'')"

definition combined_context :: "clause_result list \<Rightarrow> retrieve_result \<Rightarrow> jstr" where
  "combined_context rs r =
     (let notes = map cr_context (filter (\<lambda>x. cr_candidates x \<noteq> []) rs);
          ls = map (\<lambda>(i, c). candidate_line (hit_note rs c) (i, c)) (enumerate 0 (candidates r));
          hint = (case groupHint r of None \<Rightarrow> []
                  | Some h \<Rightarrow> [0x0023, 0x0023, 0x0020, 0x68C0, 0x7D22, 0x5C42, 0x63D0, 0x793A] @ [0x0A] @ js ''groupHint='' @ hint_text h @ [0xFF08, 0x7CFB, 0x7EDF, 0x68C0, 0x6D4B, 0x5230, 0x7528, 0x6237, 0x8BE2, 0x95EE, 0x610F, 0x56FE, 0x7C7B, 0x578B, 0xFF0C, 0x8BF7, 0x6309, 0x786C, 0x89C4, 0x5219, 0x4F18, 0x5148, 0x91C7, 0x7528, 0x6B64, 0x63D0, 0x793A, 0xFF09] @ [0x0A])
      in if ls = [] then hint
         else hint @ [0x0023, 0x0023, 0x0020, 0x5019, 0x9009, 0x914D, 0x7F6E, 0x9879] @ [0x0A] @ join_with [0x0A] ls @ [0x0A, 0x0A] @ [0x0023, 0x0023, 0x0020, 0x9010, 0x5B50, 0x53E5, 0x68C0, 0x7D22, 0x8BE6, 0x60C5] @ [0x0A] @ join_with [0x0A, 0x0A] notes)"

text \<open>The clauses are retrieved at the same time; the model runs them one after the other.\<close>

definition retrievePerClause :: "'w retriever_env \<Rightarrow> jstr \<Rightarrow> nat \<Rightarrow> retriever \<Rightarrow> 'w \<Rightarrow> per_clause_result \<times> retriever \<times> 'w" where
  "retrievePerClause V userInput topK R w =
     (let clauses = splitUserIntent userInput;
          (rs, R1, w1) = retrieve_clauses V topK (if clauses = [] then [userInput] else clauses) R w;
          (r, R2, w2) = retrieveTopKCandidates V userInput topK R1 w1
      in (\<lparr>clauseResults = rs, combinedCandidates = candidates r, combinedInjectedContext = combined_context rs r,
           pc_groupHint = groupHint r, pc_grouped = groupedCandidates r\<rparr>, R2, w2))"

definition resetRetrieverCache :: "retriever \<Rightarrow> retriever" where
  "resetRetrieverCache R = R\<lparr>documentCorpus := [], avgDocLength := Fin 0, idfCache := [], configToDomainMap := None\<rparr>"

section \<open>Aliases\<close>

definition loadAliasesFromStorage :: "retriever \<Rightarrow> retriever" where
  "loadAliasesFromStorage R =
     (case alias_store R of
        Some (Aliases m) \<Rightarrow>
          R\<lparr>LABEL_TO_KEY := fold (\<lambda>(a, k) t. if falsy_text (mget t a) \<and> k \<noteq> [] then mput a k t else t) m (LABEL_TO_KEY R)\<rparr>
      | _ \<Rightarrow> R)"

definition alias_note :: "jstr \<Rightarrow> jstr" where
  "alias_note a = [0xFF08, 0x522B, 0x540D, 0xFF1A] @ a @ [0xFF09]"

text \<open>The storage of the browser is writable for both modules or for none.\<close>

definition retriever_confirmMatch :: "'w retriever_env \<Rightarrow> jsnum \<Rightarrow> jstr \<Rightarrow> jstr \<Rightarrow> retriever \<Rightarrow> retriever" where
  "retriever_confirmMatch V now a key R =
     (let hint = mget (AI_HINTS R) key;
          hints = (if (case hint of None \<Rightarrow> False | Some t \<Rightarrow> str_includes t (alias_note a)) then AI_HINTS R
                   else mput key (look_or (AI_HINTS R) key [] @ alias_note a) (AI_HINTS R));
          store = (if writable (learned R)
                   then (case alias_store R of
                        None \<Rightarrow> Some (Aliases [(a, key)])
                      | Some BadAliases \<Rightarrow> Some BadAliases
                      | Some (Aliases m) \<Rightarrow> Some (Aliases (mput a key m)))
                   else alias_store R)
      in resetRetrieverCache (R\<lparr>LABEL_TO_KEY := mput a key (LABEL_TO_KEY R), AI_HINTS := hints,
           learned := confirmMatch (rt_host V) now a key (learned R), alias_store := store\<rparr>))"

definition getValueTypeFromCandidates :: "candidate list \<Rightarrow> jstr \<Rightarrow> jstr option" where
  "getValueTypeFromCandidates cs key = map_option valueType (find (\<lambda>c. configKey c = key) cs)"

section \<open>Bounds of the retrieval\<close>

definition keyed :: "(jstr, candidate) jmap \<Rightarrow> bool" where
  "keyed m \<longleftrightarrow> mwf m \<and> list_all (\<lambda>(k, c). configKey c = k \<and> enumOptions c = None) m"

lemma keyed_Nil [simp]: "keyed []"
  by (simp add: keyed_def)

lemma keyed_mput: "keyed m \<Longrightarrow> configKey c = k \<Longrightarrow> enumOptions c = None \<Longrightarrow> keyed (mput k c m)"
  using set_mput [of k c m] by (fastforce simp: keyed_def list_all_iff)

lemma keyed_distinct: "keyed m \<Longrightarrow> distinct (map configKey (mvals m))"
proof -
  assume m: "keyed m"
  then have "map configKey (mvals m) = mkeys m" by (auto simp: keyed_def mvals_def mkeys_def list_all_iff)
  with m show ?thesis by (simp add: keyed_def mwf_def mkeys_def)
qed

lemma merge_bm25_keyed:
  assumes "\<forall>c\<in>set cs. enumOptions c = None"
  shows "keyed (merge_bm25 ix cs)"
  unfolding merge_bm25_def by (rule fold_inv) (use assms in \<open>auto intro!: keyed_mput\<close>)

lemma merge_inverted_keyed: "keyed m \<Longrightarrow> keyed (merge_inverted R dm ix m)"
  unfolding merge_inverted_def by (rule fold_inv) (auto intro!: keyed_mput simp: candidate_of_def)

lemma read_values_same:
  "read_values H cs w = (ds, w') \<Longrightarrow> map configKey ds = map configKey cs \<and> map score ds = map score cs \<and> map enumOptions ds = map enumOptions cs"
  by (induction cs arbitrary: ds w w') (auto split: prod.splits)

lemma bm25Rank_no_enum: "bm25Rank V q k R = (cs, R') \<Longrightarrow> \<forall>c\<in>set cs. enumOptions c = None"
  by (auto simp: bm25Rank_def candidate_of_def Let_def split: if_splits prod.splits dest!: in_set_takeD)

lemma ranked_scores: "map score xs = map score ys \<Longrightarrow> ranked score xs = ranked score ys"
  using ranked_map [of "\<lambda>x. x" score xs] ranked_map [of "\<lambda>x. x" score ys] by (simp add: comp_def)

lemma retrieve_cases:
  assumes "retrieveTopKCandidates V u topK R w = (r, R', w')" "trim u \<noteq> []"
  obtains m w0 where "keyed m" "read_values (rt_host V) (take topK (sort_scores score (mvals m))) w0 = (candidates r, w')"
    "groupHint r = fst (groupByDomain (candidates r) u)" "groupedCandidates r = snd (groupByDomain (candidates r) u)"
proof -
  obtain R0 w0 where s0: "loadSchemaTypes (rt_host V) R w = (R0, w0)" by force
  define R1 where "R1 = (if documentCorpus R0 = [] then buildCorpus V R0 else R0)"
  define ix where "ix = scoredRetrieve (low V) (inv_index V) u (topK * 2)"
  obtain cs R2 where s1: "bm25Rank V u (topK * 2) R1 = (cs, R2)" by force
  obtain dm R3 where s2: "buildConfigToDomainMap V R2 = (dm, R3)" by force
  define m where "m = merge_inverted R3 dm ix (merge_bm25 ix cs)"
  obtain ds w1 where s3: "read_values (rt_host V) (take topK (sort_scores score (mvals m))) w0 = (ds, w1)" by force
  obtain hint groups where s4: "groupByDomain ds u = (hint, groups)" by force
  have "r = \<lparr>candidates = ds, injectedContext = buildInjectedContext ds, groupHint = hint, groupedCandidates = groups\<rparr> \<and> w' = w1"
    using assms s0 s1 s2 s3 s4 by (auto simp: retrieveTopKCandidates_def Let_def R1_def ix_def m_def)
  moreover have "keyed m"
    unfolding m_def by (intro merge_inverted_keyed merge_bm25_keyed bm25Rank_no_enum [OF s1])
  ultimately show ?thesis using that [of m w0] s3 s4 by simp
qed

lemma kept_keys:
  assumes "keyed m" "read_values H (take k (sort_scores score (mvals m))) w0 = (cs, w')"
  shows "distinct (map configKey cs)"
proof -
  have "mset (map configKey (sort_scores score (mvals m))) = mset (map configKey (mvals m))" by simp
  then have "distinct (map configKey (sort_scores score (mvals m)))"
    using keyed_distinct [OF assms(1)] by (metis mset_eq_imp_distinct_iff)
  then have "distinct (map configKey (take k (sort_scores score (mvals m))))" by (metis distinct_take take_map)
  then show ?thesis using read_values_same [OF assms(2)] by simp
qed

text \<open>A retrieval gives at most the wanted number of candidates, each key once, by falling score.\<close>

theorem retrieval_is_ranked:
  "let cs = candidates (fst (retrieveTopKCandidates V u topK R w)) in
     length cs \<le> topK \<and> distinct (map configKey cs) \<and> ranked score cs"
proof (cases "trim u = []")
  case True
  then show ?thesis by (simp add: retrieveTopKCandidates_def nothing_found_def ranked_def)
next
  case False
  obtain r R' w' where res: "retrieveTopKCandidates V u topK R w = (r, R', w')" by (metis prod_cases3)
  obtain m w0 where m: "keyed m" "read_values (rt_host V) (take topK (sort_scores score (mvals m))) w0 = (candidates r, w')"
    by (rule retrieve_cases [OF res False])
  let ?s = "take topK (sort_scores score (mvals m))"
  have same: "map configKey (candidates r) = map configKey ?s" "map score (candidates r) = map score ?s"
    using read_values_same [OF m(2)] by simp_all
  then have "length (candidates r) = length ?s" by (metis length_map)
  moreover have "ranked score (candidates r)" using ranked_scores [OF same(2)] sort_scores_ranked ranked_take by blast
  ultimately show ?thesis using kept_keys [OF m] by (simp add: res)
qed

section \<open>Groups of the candidates\<close>

lemma group_step:
  "mget (fold (\<lambda>c m. mput (primary_domain c) ((case mget m (primary_domain c) of None \<Rightarrow> [] | Some xs \<Rightarrow> xs) @ [c]) m) cs m) d
     = (let old = mget m d; new = filter (\<lambda>c. primary_domain c = d) cs in
        if new = [] then old else Some ((case old of None \<Rightarrow> [] | Some xs \<Rightarrow> xs) @ new))"
  by (induction cs arbitrary: m) (auto simp: Let_def split: option.splits)

text \<open>The groups split the candidates by their first domain, in the order of the candidates.\<close>

lemma group_candidates_get:
  "mget (group_candidates cs) d = (let g = filter (\<lambda>c. primary_domain c = d) cs in if g = [] then None else Some g)"
  using group_step [of cs "[]" d] by (simp add: group_candidates_def Let_def)

text \<open>The groups that come with a retrieval split its candidates by their first domain; and since no candidate of a retrieval has options,
  the hint for enumerations is never given, whatever the user asks.\<close>

theorem groups_split_candidates:
  "let r = fst (retrieveTopKCandidates V u topK R w) in
     mget (groupedCandidates r) d
       = (let g = filter (\<lambda>c. primary_domain c = d) (candidates r) in if g = [] then None else Some g)
   \<and> groupHint r \<noteq> Some EnumHint"
proof (cases "trim u = []")
  case True
  then show ?thesis by (simp add: retrieveTopKCandidates_def nothing_found_def)
next
  case False
  obtain r R' w' where res: "retrieveTopKCandidates V u topK R w = (r, R', w')" by (metis prod_cases3)
  obtain m w0 where m: "keyed m" "read_values (rt_host V) (take topK (sort_scores score (mvals m))) w0 = (candidates r, w')"
    "groupHint r = fst (groupByDomain (candidates r) u)" "groupedCandidates r = snd (groupByDomain (candidates r) u)"
    by (rule retrieve_cases [OF res False])
  have "enumOptions c = None" if "c \<in> set (take topK (sort_scores score (mvals m)))" for c
    using m(1) in_set_takeD [OF that] by (auto simp: keyed_def list_all_iff mvals_def)
  then have "set (map enumOptions (candidates r)) \<subseteq> {None}" using read_values_same [OF m(2)] by auto
  then have "\<not> list_ex has_enum (candidates r)" by (auto simp: list_ex_iff has_enum_def)
  then show ?thesis using m(3,4) by (simp add: res groupByDomain_def group_candidates_get Let_def)
qed

section \<open>Documents of one key\<close>

definition boosted :: "(jstr \<times> jsnum) list \<Rightarrow> candidate \<Rightarrow> candidate" where
  "boosted ix c = c\<lparr>score := nadd (score c) (if num_less (Fin 0) (number_or_zero (mget ix (configKey c))) then nmul (score c) (num (1 / 10)) else Fin 0)\<rparr>"

lemma merge_last:
  "mget (merge_bm25 ix cs) k = (case filter (\<lambda>c. configKey c = k) cs of [] \<Rightarrow> None | x # xs \<Rightarrow> Some (boosted ix (last (x # xs))))"
proof (induction cs rule: rev_induct)
  case (snoc c cs)
  have "merge_bm25 ix (cs @ [c]) = mput (configKey c) (boosted ix c) (merge_bm25 ix cs)"
    by (simp add: merge_bm25_def boosted_def)
  then show ?case using snoc by (auto split: list.splits)
qed (simp add: merge_bm25_def)

text \<open>The extra documents that the learned entries add for a key never raise its score: of the documents of a key among the ranked ones,
  the merge keeps the last, whose score is the lowest.\<close>

theorem lowest_document_counts:
  assumes "ranked score cs" "mget (merge_bm25 ix cs) k = Some c"
  shows "\<exists>d. d \<in> set cs \<and> configKey d = k \<and> c = boosted ix d
    \<and> list_all (\<lambda>e. configKey e = k \<longrightarrow> \<not> num_less (score e) (score d)) cs"
proof -
  let ?f = "filter (\<lambda>c. configKey c = k) cs"
  have f: "?f \<noteq> []" "c = boosted ix (last ?f)" using assms(2) by (auto simp: merge_last split: list.splits)
  have r: "ranked score ?f" using assms(1) by (rule ranked_filter)
  have "\<not> num_less (score e) (score (last ?f))" if "e \<in> set ?f" for e
  proof -
    have "?f = butlast ?f @ [last ?f]" using f(1) by simp
    with r have "ranked score (butlast ?f @ [last ?f])" by metis
    moreover have "e \<in> set (butlast ?f) \<or> e = last ?f" using that f(1) by (metis Un_iff append_butlast_last_id empty_iff insert_iff list.set(1,2) set_append)
    ultimately show ?thesis by (auto simp: ranked_def sorted_wrt_append)
  qed
  moreover have "last ?f \<in> set ?f" using f(1) by (rule last_in_set)
  ultimately show ?thesis using f(2) by (intro exI [of _ "last ?f"]) (auto simp: list_all_iff)
qed

definition room_candidate :: "jsnum \<Rightarrow> candidate" where
  "room_candidate s = \<lparr>configKey = js ''room'', cand_label = [], aiHint = [], valueType = [], currentValue = [], enumOptions = None,
     score = s, domains = []\<rparr>"

lemma lowest_document_counts_witness:
  "\<exists>c. mget (merge_bm25 [] [room_candidate (Fin 3), room_candidate (Fin 1)]) (js ''room'') = Some c
    \<and> (\<exists>d. configKey d = js ''room'' \<and> c = boosted [] d \<and> \<not> num_less (Fin 1) (score d))"
proof -
  have r: "ranked score [room_candidate (Fin 3), room_candidate (Fin 1)]" by (simp add: ranked_def room_candidate_def)
  have "mget (merge_bm25 [] [room_candidate (Fin 3), room_candidate (Fin 1)]) (js ''room'') = Some (boosted [] (room_candidate (Fin 1)))"
    by (simp add: merge_last) (simp add: room_candidate_def)
  from lowest_document_counts [OF r this] this show ?thesis by (auto simp: room_candidate_def)
qed

section \<open>Aliases survive a restart\<close>

definition restarted :: "(jstr, jstr) jmap \<Rightarrow> retriever \<Rightarrow> retriever" where
  "restarted labels R = loadAliasesFromStorage (resetRetrieverCache (R\<lparr>LABEL_TO_KEY := labels, schemaTypeCache := None\<rparr>))"

lemma alias_fold:
  "mwf m \<Longrightarrow> mget (fold (\<lambda>(a, k) t. if falsy_text (mget t a) \<and> k \<noteq> [] then mput a k t else t) m t) a
     = (case mget m a of Some k \<Rightarrow> if falsy_text (mget t a) \<and> k \<noteq> [] then Some k else mget t a | None \<Rightarrow> mget t a)"
proof (induction m arbitrary: t)
  case (Cons x m)
  obtain b k where x: "x = (b, k)" by force
  have "mwf m" "mget m b = None" using Cons.prems by (auto simp: x mwf_def mkeys_def map_of_eq_None_iff)
  then show ?case using Cons.IH by (auto simp: x split: option.splits)
qed simp

text \<open>An alias that the user confirmed leads to its key at once, and again after a restart whose registered labels do not use it.\<close>

theorem alias_survives_restart:
  assumes "writable (learned R)" "key \<noteq> []" "falsy_text (mget labels a)"
    and "case alias_store R of None \<Rightarrow> True | Some BadAliases \<Rightarrow> False | Some (Aliases m) \<Rightarrow> mwf m"
  shows "let R1 = retriever_confirmMatch V now a key R in
     mget (LABEL_TO_KEY R1) a = Some key \<and> mget (LABEL_TO_KEY (restarted labels R1)) a = Some key \<and> documentCorpus R1 = []"
proof -
  let ?R1 = "retriever_confirmMatch V now a key R"
  obtain m where m: "alias_store ?R1 = Some (Aliases m)" "mwf m" "mget m a = Some key"
    using assms(1,4)
    by (auto simp: retriever_confirmMatch_def resetRetrieverCache_def Let_def mwf_def [of "[(_, _)]"] mkeys_def split: option.splits stored_aliases.splits)
  have "mget (LABEL_TO_KEY (restarted labels ?R1)) a = Some key"
    using m alias_fold [OF m(2), of labels a] assms(2,3)
    by (simp add: restarted_def loadAliasesFromStorage_def resetRetrieverCache_def)
  then show ?thesis by (simp add: retriever_confirmMatch_def resetRetrieverCache_def Let_def)
qed

definition no_retriever :: retriever where
  "no_retriever = \<lparr>LABEL_TO_KEY = [], AI_HINTS = [], KEY_LABELS = [], documentCorpus = [], avgDocLength = Fin 0, idfCache = [],
     configToDomainMap = None, schemaTypeCache = None, alias_store = None, shards = new_shards, learned = no_index\<rparr>"

definition sample_retrieval :: "unit retriever_env" where
  "sample_retrieval = \<lparr>rt_host = sample_host, low = (\<lambda>s. s), ln_fn = (\<lambda>x. x), to_fixed2 = (\<lambda>x. []), inv_index = [], registered_shards = None\<rparr>"

lemma alias_survives_restart_witness:
  "mget (LABEL_TO_KEY (restarted [] (retriever_confirmMatch sample_retrieval (Fin 1) (js ''r'') (js ''room'') no_retriever))) (js ''r'') = Some (js ''room'')"
  using alias_survives_restart [of no_retriever "js ''room''" "[]" "js ''r''" sample_retrieval "Fin 1"]
  by (simp add: no_retriever_def no_index_def falsy_text_def Let_def)

end
