(* ===== verification/CommandGate.thy ===== *)
theory CommandGate
  imports Evidence Retriever
begin

text \<open>
  What happens to a slash command and to a phrase of a skill: the resolution of a parameter
  (\<open>context-manager/skillRouter.ts\<close>), the command gate and the direct execution at the head of the pipeline
  (\<open>pipeline/pipelineManager.ts\<close>), the text of the results (\<open>formatters/toolFormatter.ts\<close>), and the executor of skill
  workflows (\<open>context-manager/skillWorkflow.ts\<close>).
\<close>

section \<open>Candidates of a lookup\<close>

text \<open>What the commands rely on: a lookup gives few candidates and each key once.\<close>

locale bounded_lookup =
  fixes lookup :: "'s \<Rightarrow> jstr \<Rightarrow> candidate list"
    and bound :: nat
  assumes few: "length (lookup s q) \<le> bound"
    and keys_once: "distinct (map configKey (lookup s q))"
begin

lemma exact_is_unique: "c \<in> set (lookup s q) \<Longrightarrow> find (\<lambda>x. configKey x = configKey c) (lookup s q) = Some c"
proof -
  have "find (\<lambda>x. configKey x = configKey c) xs = Some c" if "c \<in> set xs" "distinct (map configKey xs)" for xs
    using that by (induction xs) (auto simp: rev_image_eqI)
  then show "c \<in> set (lookup s q) \<Longrightarrow> find (\<lambda>x. configKey x = configKey c) (lookup s q) = Some c" using keys_once by blast
qed

lemma choices_bounded: "length (filter P (lookup s q)) \<le> bound \<and> distinct (map configKey (filter P (lookup s q)))"
  using few [of s q] keys_once [of s q] order.trans [OF length_filter_le, of "lookup s q" bound P] by (simp add: distinct_map_filter)

end

definition per_clause_lookup :: "'w retriever_env \<times> retriever \<times> 'w \<Rightarrow> jstr \<Rightarrow> candidate list" where
  "per_clause_lookup s q = (case s of (V, R, w) \<Rightarrow> combinedCandidates (fst (retrievePerClause V q 5 R w)))"

interpretation retrieved: bounded_lookup per_clause_lookup 5
proof unfold_locales
  fix s :: "'w retriever_env \<times> retriever \<times> 'w" and q
  obtain V R w where s: "s = (V, R, w)" by (metis prod_cases3)
  obtain rs R1 w1 where cl: "retrieve_clauses V 5 (if splitUserIntent q = [] then [q] else splitUserIntent q) R w = (rs, R1, w1)"
    by (metis prod_cases3)
  have c: "per_clause_lookup s q = candidates (fst (retrieveTopKCandidates V q 5 R1 w1))"
    by (simp add: s per_clause_lookup_def retrievePerClause_def cl Let_def split: prod.split)
  show "length (per_clause_lookup s q) \<le> 5" "distinct (map configKey (per_clause_lookup s q))"
    using retrieval_is_ranked [of V q 5 R1 w1] by (simp_all add: c Let_def)
qed

section \<open>Parameters of a command\<close>

record param_candidate =
  pc_key :: jstr
  pc_label :: jstr
  pc_type :: "jstr option"

record resolved_param =
  found :: bool
  rp_candidates :: "param_candidate list"
  from_label :: bool

definition resolveParam :: "'w retriever_env \<Rightarrow> jstr \<Rightarrow> retriever \<Rightarrow> 'w \<Rightarrow> resolved_param \<times> retriever \<times> 'w" where
  "resolveParam V rest R w =
     (if rest = [] then (\<lparr>found = False, rp_candidates = [], from_label = True\<rparr>, R, w)
      else (let exactKey = mget (LABEL_TO_KEY R) rest; has_exact = \<not> falsy_text exactKey;
                (r, R1, w1) = retrievePerClause V rest 5 R w; cs = combinedCandidates r
            in (if cs \<noteq> []
                then (case (if has_exact then find (\<lambda>c. configKey c = the exactKey) cs else None) of
                    Some c \<Rightarrow> \<lparr>found = True, rp_candidates = [\<lparr>pc_key = the exactKey, pc_label = rest, pc_type = Some (valueType c)\<rparr>], from_label = True\<rparr>
                  | None \<Rightarrow> \<lparr>found = True, rp_candidates = map (\<lambda>c. \<lparr>pc_key = configKey c,
                        pc_label = (if cand_label c = [] then configKey c else cand_label c), pc_type = Some (valueType c)\<rparr>) cs, from_label = False\<rparr>)
                else if has_exact then \<lparr>found = True, rp_candidates = [\<lparr>pc_key = the exactKey, pc_label = rest, pc_type = None\<rparr>], from_label = True\<rparr>
                else \<lparr>found = False, rp_candidates = [], from_label = False\<rparr>, R1, w1)))"

section \<open>The command gate\<close>

record 'w command_env =
  ce_stage :: "'w stage_env"
  ce_retriever :: "'w retriever_env"

definition result_text :: "'a jsenv_scheme \<Rightarrow> tool_call \<times> tool_result \<Rightarrow> jstr" where
  "result_text H x =
     (case x of (c, r) \<Rightarrow>
       if tr_success r
       then [0x2705, 0x0020] @ toolLabel (tc_name c) @ js '': ''
            @ (case tr_data r of None \<Rightarrow> js ''undefined'' | Some (JStr s) \<Rightarrow> s | Some j \<Rightarrow> stringify H j)
       else [0x274C, 0x0020] @ toolLabel (tc_name c) @ js '': '' @ or_text (tr_error r) [0x5931, 0x8D25])"

definition toolResultsText :: "'a jsenv_scheme \<Rightarrow> tool_call list \<Rightarrow> tool_result list \<Rightarrow> jstr" where
  "toolResultsText H calls rs = join_with [0x0A] (map (result_text H) (zip calls rs))"

definition new_step :: "jstr \<Rightarrow> plan_step" where
  "new_step t = \<lparr>ps_text = t, ps_done = False, ps_call = None, ps_calls = None, ps_status = None\<rparr>"

definition call :: "'a jsenv_scheme \<Rightarrow> jstr \<Rightarrow> jstr \<Rightarrow> tool_args \<Rightarrow> tool_call" where
  "call H i tool args = \<lparr>tc_id = i, tc_name = tool, tc_arguments = stringify H (JObj args)\<rparr>"

text \<open>The calls and steps for a command with one target.\<close>

definition command_calls :: "'a jsenv_scheme \<Rightarrow> parsed_command \<Rightarrow> param_candidate \<Rightarrow> tool_call list \<times> plan_step list" where
  "command_calls H p target =
     (if pc_intent p = js ''MODIFY'' \<and> \<not> falsy_text (pc_value p)
      then ([call H (js ''cmd_read_0'') (js ''read_config_value'') [(js ''key'', JStr (pc_key target))],
             call H (js ''cmd_write_0'') (js ''write_config_value'') [(js ''key'', JStr (pc_key target)), (js ''value'', JStr (the (pc_value p)))]],
            [new_step ([0x8BFB, 0x53D6] @ pc_label target), new_step ([0x8BBE, 0x7F6E] @ pc_label target @ [0x4E3A] @ the (pc_value p))])
      else (let browse = routeQueryByValueType (Some (pc_intent p)) (pc_type target) True = js ''BROWSE_DIR''
            in ([call H (js ''cmd_0'') (if browse then js ''list_directory'' else js ''read_config_value'')
                   [(if browse then js ''path'' else js ''key'', JStr (pc_key target))]],
                [new_step ([0x6267, 0x884C] @ pc_command p @ [0x20] @ pc_label target)])))"

text \<open>What the pipeline does with an input: not a command, a reply, or a rejection of the stage.\<close>

datatype gate_reply = NoCommand | Reply jstr | Rejected

definition run_and_reply :: "'w stage_env \<Rightarrow> tool_call list \<Rightarrow> plan_step list \<Rightarrow> nat list list \<Rightarrow> jstr \<Rightarrow> evidence \<Rightarrow> 'w
    \<Rightarrow> gate_reply \<times> evidence \<times> 'w" where
  "run_and_reply V calls steps ranges fallback E w =
     (case executeStage V calls steps ranges False [] E w of
        (None, E', w') \<Rightarrow> (Rejected, E', w')
      | (Some (r, settled), E', w') \<Rightarrow>
          (let t = trim (toolResultsText (stage_host V) calls (toolResults r)) in (Reply (if t = [] then fallback else t), E', w')))"

definition compatible :: "parsed_command \<Rightarrow> resolved_param \<Rightarrow> param_candidate list" where
  "compatible p r = filter (\<lambda>c. isIntentCompatibleWithValueType (Some (pc_intent p)) (pc_type c)) (rp_candidates r)"

definition choice_lines :: "param_candidate list \<Rightarrow> jstr list" where
  "choice_lines cs = map (\<lambda>(i, c). decimal (i + 1) @ [0xFF0C] @ pc_label c) (enumerate 0 cs)"

definition command_gate :: "'w command_env \<Rightarrow> jstr \<Rightarrow> retriever \<Rightarrow> evidence \<Rightarrow> 'w \<Rightarrow> gate_reply \<times> retriever \<times> evidence \<times> 'w" where
  "command_gate C inp R E w =
     (let p = parseCommand inp; V = ce_stage C; H = stage_host V in
      if \<not> pc_matched p then (NoCommand, R, E, w)
      else if pc_rest p = [] \<and> pc_intent p = js ''QUERY_LIST''
      then (let (a, E', w') = run_and_reply V [\<lparr>tc_id = js ''cmd_list_all'', tc_name = js ''list_configs'', tc_arguments = js ''{}''\<rparr>]
                [new_step [0x5217, 0x51FA, 0x6240, 0x6709, 0x914D, 0x7F6E]] [[0, 0]] [0x2705, 0x0020, 0x5DF2, 0x5217, 0x51FA, 0x6240, 0x6709, 0x914D, 0x7F6E, 0x9879, 0x3002] E w in (a, R, E', w'))
      else if pc_rest p = []
      then (Reply ([0x8BF7, 0x8F93, 0x5165, 0x8981] @ pc_description p @ [0x7684, 0x914D, 0x7F6E, 0x9879, 0x540D, 0x79F0, 0x3002] @ [0x0A] @ [0x683C, 0x5F0F, 0xFF1A, 0x002F] @ pc_command p @ [0x0020, 0x003C, 0x914D, 0x7F6E, 0x540D, 0x003E]), R, E, w)
      else if pc_intent p = js ''MODIFY'' \<and> falsy_text (pc_value p)
      then (Reply ([0x8BF7, 0x6307, 0x5B9A, 0x503C, 0xFF0C, 0x683C, 0x5F0F, 0xFF1A, 0x002F] @ pc_command p @ [0x0020, 0x003C, 0x914D, 0x7F6E, 0x540D, 0x003E, 0x0020, 0x003C, 0x503C, 0x003E]), R, E, w)
      else (let (r, R1, w1) = resolveParam (ce_retriever C) (pc_rest p) R w; cs = compatible p r in
        if \<not> found r \<or> rp_candidates r = []
        then (Reply ([0x300C] @ pc_rest p @ [0x300D, 0x5728, 0x5F53, 0x524D, 0x6CE8, 0x518C, 0x8868, 0x4E2D, 0x4E0D, 0x5B58, 0x5728, 0xFF0C, 0x5982, 0x679C, 0x60F3, 0x8981, 0x67E5, 0x770B, 0x5F53, 0x524D, 0x6CE8, 0x518C, 0x8868, 0x4E2D, 0x6CE8, 0x518C, 0x7684, 0x6240, 0x6709, 0x914D, 0x7F6E, 0xFF0C, 0x8BF7, 0x8F93, 0x5165, 0x0027, 0x002F, 0x006C, 0x0069, 0x0073, 0x0074, 0x0027]), R1, E, w1)
        else (case cs of
            [] \<Rightarrow> (Reply ([0x300C] @ pc_rest p @ [0x300D, 0x4E0D, 0x652F, 0x6301, 0x0020] @ (if pc_intent p = js ''QUERY_LIST'' then js ''LIST''
                       else if pc_intent p = js ''QUERY_SINGLE'' then js ''READ'' else [0x4FEE, 0x6539]) @ [0x0020, 0x64CD, 0x4F5C]), R1, E, w1)
          | [target] \<Rightarrow>
              (let (calls, steps) = command_calls H p target;
                   (a, E', w') = run_and_reply V calls steps [[0, length calls - 1]] [0x2705, 0x0020, 0x5DF2, 0x5B8C, 0x6210, 0x3002] E w1
               in (a, R1, E', w'))
          | _ \<Rightarrow> (Reply ([0x300C] @ pc_rest p @ [0x300D, 0x6307, 0x7684, 0x662F, 0x4EE5, 0x4E0B, 0x54EA, 0x9879, 0xFF1F] @ [0x0A] @ join_with [0x0A] (choice_lines cs)), R1, E, w1))))"

section \<open>Direct execution of phrases\<close>

definition direct_args :: "direct_execution \<Rightarrow> jstr \<Rightarrow> tool_args" where
  "direct_args d tool =
     (if falsy_text (de_target d) then []
      else (js ''key'', JStr (the (de_target d))) # (if tool = js ''list_directory'' then [(js ''path'', JStr (the (de_target d)))] else []))"

fun direct_calls :: "'a jsenv_scheme \<Rightarrow> direct_execution list \<Rightarrow> nat \<Rightarrow> tool_call list \<times> nat list list" where
  "direct_calls H [] n = ([], [])"
| "direct_calls H (d # ds) n =
     (let cs = map (\<lambda>(i, t). call H (js ''tool_'' @ decimal i) t (direct_args d t)) (enumerate n (de_tools d));
          (rest, ranges) = direct_calls H ds (n + length cs)
      in (cs @ rest, [n, n + length cs - 1] # ranges))"

definition direct_reply :: "'a jsenv_scheme \<Rightarrow> direct_execution list \<Rightarrow> tool_call list \<Rightarrow> tool_result list \<Rightarrow> jstr" where
  "direct_reply H ds calls rs =
     (let names = map de_skill ds;
          ls = (if js ''skill:list_all_config'' \<in> set names then [[0x2705, 0x0020, 0x5DF2, 0x5217, 0x51FA, 0x6240, 0x6709, 0x914D, 0x7F6E, 0x9879, 0x3002]] else [])
             @ (if js ''skill:list_model_dir'' \<in> set names then [[0x2705, 0x0020, 0x5DF2, 0x5217, 0x51FA, 0x6A21, 0x578B, 0x76EE, 0x5F55, 0x4E0B, 0x7684, 0x6587, 0x4EF6, 0x3002]] else []);
          ls' = (if ls = [] then characters (toolResultsText H calls rs) else ls);
          t = trim (join_with [0x0A] ls')
      in if t = [] then [0x2705, 0x0020, 0x5DF2, 0x5B8C, 0x6210, 0x3002] else t)"

text \<open>The branch is taken when every clause is executed directly; otherwise the pipeline goes on.\<close>

definition direct_gate :: "'w stage_env \<Rightarrow> (jstr \<Rightarrow> jstr) \<Rightarrow> jsnum \<Rightarrow> jstr list \<Rightarrow> evidence \<Rightarrow> 'w \<Rightarrow> gate_reply \<times> evidence \<times> 'w" where
  "direct_gate V lw threshold clauses E w =
     (let D = buildRouteDecision lw threshold clauses None; ds = directExecutions D in
      if clauses = [] \<or> length ds \<noteq> length clauses then (NoCommand, E, w)
      else (let (calls, ranges) = direct_calls (stage_host V) ds 0 in
            case executeStage V calls (map (\<lambda>d. new_step (de_clause d)) ds) ranges False [] E w of
              (None, E', w') \<Rightarrow> (Rejected, E', w')
            | (Some (r, settled), E', w') \<Rightarrow> (Reply (direct_reply (stage_host V) ds calls (toolResults r)), E', w')))"

section \<open>Skill workflows\<close>

record workflow_step =
  ws_tool :: jstr
  ws_success :: bool
  ws_result :: tool_result
  ws_call :: jstr

record workflow_result =
  wf_matched :: bool
  wf_name :: "jstr option"
  wf_approval :: bool
  wf_steps :: "workflow_step list"
  wf_all :: bool
  wf_summary :: jstr

definition regex_word :: "16 word \<Rightarrow> bool" where
  "regex_word c \<longleftrightarrow> is_letter c \<or> is_upper c \<or> is_digit c \<or> c = 0x5F"

text \<open>The matches of \<open>/(\\w+)\\s*=\\s*(\\S+)/g\<close>; a run of word characters that no value follows is passed over.\<close>

function parse_params :: "jstr \<Rightarrow> (jstr \<times> jstr) list" where
  "parse_params [] = []"
| "parse_params (c # s) =
     (if regex_word c
      then (let name = c # takeWhile regex_word s; after = dropWhile is_space (dropWhile regex_word s)
            in (case after of
                  [] \<Rightarrow> []
                | e # t \<Rightarrow>
                    (let v = takeWhile (\<lambda>x. \<not> is_space x) (dropWhile is_space t)
                     in if e = 0x3D \<and> v \<noteq> [] then (name, v) # parse_params (dropWhile (\<lambda>x. \<not> is_space x) (dropWhile is_space t))
                        else parse_params (dropWhile regex_word s))))
      else parse_params s)"
  by pat_completeness auto
termination
proof (relation "measure length")
  fix c :: "16 word" and s after e t v
  assume "after = dropWhile is_space (dropWhile regex_word s)" "after = e # t"
  then have "Suc (length t) \<le> length s"
    by (metis length_Cons length_dropWhile_le order.trans)
  then show "(dropWhile (\<lambda>x. \<not> is_space x) (dropWhile is_space t), c # s) \<in> measure length"
    using order.trans [OF length_dropWhile_le length_dropWhile_le, of "\<lambda>x. \<not> is_space x" is_space t] by simp
qed (auto simp: less_Suc_eq_le length_dropWhile_le)

definition params_args :: "jstr option \<Rightarrow> tool_args" where
  "params_args p = (case p of None \<Rightarrow> [] | Some s \<Rightarrow> fold (\<lambda>(k, v). put_arg k v) (parse_params s) [])"

definition failed_step :: "jstr \<Rightarrow> jstr \<Rightarrow> workflow_step" where
  "failed_step tool e = \<lparr>ws_tool = tool, ws_success = False, ws_result = failure e, ws_call = []\<rparr>"

text \<open>The loop over the tools; \<open>None\<close> when a tool throws.\<close>

fun run_chain :: "'w stage_env \<Rightarrow> tool_args \<Rightarrow> jstr list \<Rightarrow> workflow_step list \<Rightarrow> evidence \<Rightarrow> 'w
    \<Rightarrow> (workflow_step list \<times> bool) option \<times> evidence \<times> 'w" where
  "run_chain V args [] steps E w = (Some (steps, True), E, w)"
| "run_chain V args (t # ts) steps E w =
     (case findTool (stage_tools V) t of
        None \<Rightarrow> (Some (steps @ [failed_step t ([0x672A, 0x77E5, 0x5DE5, 0x5177, 0x003A, 0x0020] @ t)], False), E, w)
      | Some f \<Rightarrow>
          (case evaluatePreGates (regex (stage_host V)) (customs (stage_host V)) (map_of (stage_rules V) t) args of
             Some e \<Rightarrow> (Some (steps @ [failed_step t (js ''[Pre-Gate] '' @ e)], False), E, w)
           | None \<Rightarrow>
               (case f args w of
                  (Raised, w') \<Rightarrow> (None, E, w')
                | (Returned r, w') \<Rightarrow>
                    (let out = (if tr_success r then [0x2705, 0x0020] @ t @ [0x0020, 0x6210, 0x529F] else [0x274C, 0x0020] @ t @ js '': '' @ or_text (tr_error r) [0x5931, 0x8D25]);
                         (node, E1) = addNode None t out (Some (if steps = [] then [] else [ws_call (last steps)])) E;
                         E2 = record_call (node_id node) t out (tr_success r) (stage_clock V w') E1;
                         s = \<lparr>ws_tool = t, ws_success = tr_success r, ws_result = r, ws_call = node_id node\<rparr>
                     in if tr_success r then run_chain V args ts (steps @ [s]) E2 w' else (Some (steps @ [s], False), E2, w')))))"

definition buildWorkflowSummary :: "jstr \<Rightarrow> workflow_step list \<Rightarrow> bool \<Rightarrow> jstr" where
  "buildWorkflowSummary name steps ok =
     join_with [0x0A] ([[0xD83D, 0xDD27, 0x0020, 0x0053, 0x006B, 0x0069, 0x006C, 0x006C, 0x003A, 0x0020] @ name]
       @ concat (map (\<lambda>s. ([0x0020, 0x0020] @ (if ws_success s then [0x2705] else [0x274C]) @ [0x20] @ ws_tool s @ js '' ('' @ (if ws_call s = [] then [0x672A, 0x6267, 0x884C] else ws_call s) @ js '')'')
             # (if \<not> ws_success s \<and> \<not> falsy_text (tr_error (ws_result s)) then [[0x0020, 0x0020, 0x0020, 0x0020, 0x9519, 0x8BEF, 0x003A, 0x0020] @ the (tr_error (ws_result s))] else [])) steps)
       @ [if ok then [0xD83C, 0xDF89, 0x0020, 0x0053, 0x006B, 0x0069, 0x006C, 0x006C, 0x0020] @ name @ [0x0020, 0x5168, 0x90E8, 0x6B65, 0x9AA4, 0x6267, 0x884C, 0x6210, 0x529F] else [0x26A0, 0xFE0F, 0x0020, 0x0053, 0x006B, 0x0069, 0x006C, 0x006C, 0x0020] @ name @ [0x0020, 0x6267, 0x884C, 0x5931, 0x8D25, 0xFF0C, 0x8BF7, 0x91CD, 0x8BD5]])"

record workflow_route =
  wr_prefix :: jstr
  wr_tools :: "jstr list"
  wr_approval :: bool
  wr_params :: "jstr option"

text \<open>The route of an input: a registered one with its parameters, or the skill of a command without any.\<close>

definition workflow_route_of :: "skill_route list \<Rightarrow> jstr \<Rightarrow> workflow_route option" where
  "workflow_route_of routes inp =
     (case matchSkill routes inp of
        Some (r, p) \<Rightarrow> Some \<lparr>wr_prefix = sr_prefix r, wr_tools = sr_tools r, wr_approval = sr_approval r, wr_params = p\<rparr>
      | None \<Rightarrow>
          (let p = parseCommand inp in
           if \<not> pc_matched p then None
           else map_option (\<lambda>s. \<lparr>wr_prefix = 0x2F # pc_command p, wr_tools = executor s, wr_approval = approvalRequired s, wr_params = None\<rparr>)
                  (skill_of_command (pc_command p))))"

definition executeSkillWorkflow :: "'w stage_env \<Rightarrow> skill_route list \<Rightarrow> jstr \<Rightarrow> bool \<Rightarrow> evidence \<Rightarrow> 'w \<Rightarrow> workflow_result option \<times> evidence \<times> 'w" where
  "executeSkillWorkflow V routes inp granted E w =
     (case workflow_route_of routes inp of
        None \<Rightarrow> (Some \<lparr>wf_matched = False, wf_name = None, wf_approval = False, wf_steps = [], wf_all = False, wf_summary = []\<rparr>, E, w)
      | Some r \<Rightarrow>
          (if wr_approval r \<and> \<not> granted
           then (Some \<lparr>wf_matched = True, wf_name = Some (wr_prefix r), wf_approval = True, wf_steps = [], wf_all = False,
                   wf_summary = [0x26A0, 0xFE0F, 0x0020, 0x0053, 0x006B, 0x0069, 0x006C, 0x006C, 0x0020] @ wr_prefix r @ [0x0020, 0x9700, 0x8981, 0x7528, 0x6237, 0x786E, 0x8BA4, 0x540E, 0x624D, 0x80FD, 0x6267, 0x884C, 0x3002]\<rparr>, E, w)
           else (case run_chain V (params_args (wr_params r)) (wr_tools r) [] (newRound E) w of
               (None, E', w') \<Rightarrow> (None, E', w')
             | (Some (steps, ok), E', w') \<Rightarrow>
                 (Some \<lparr>wf_matched = True, wf_name = Some (wr_prefix r), wf_approval = wr_approval r, wf_steps = steps, wf_all = ok,
                    wf_summary = buildWorkflowSummary (wr_prefix r) steps ok\<rparr>, E', w'))))"

section \<open>A write command, from the text to the calls\<close>


definition one_document :: retriever where
  "one_document = no_retriever\<lparr>LABEL_TO_KEY := [(js ''room'', js ''k'')], documentCorpus := [\<lparr>doc_text = [], doc_key = js ''k''\<rparr>],
     schemaTypeCache := Some [], configToDomainMap := Some []\<rparr>"

definition sample_command_env :: "unit command_env" where
  "sample_command_env = \<lparr>ce_stage = sample_stage, ce_retriever = sample_retrieval\<rparr>"

lemma one_document_found:
  assumes "trim u \<noteq> []"
  shows "\<exists>r. retrieveTopKCandidates sample_retrieval u 5 one_document () = (r, one_document, ()) \<and> configKey ` set (candidates r) = {js ''k''}"
proof -
  have ix: "scoredRetrieve lw [] u n = []" for lw n by (simp add: scoredRetrieve_def index_scores_def sort_scores_def)
  show ?thesis using assms
    by (auto simp: retrieveTopKCandidates_def loadSchemaTypes_def one_document_def no_retriever_def bm25Rank_def buildConfigToDomainMap_def
      sample_retrieval_def ix merge_bm25_def merge_inverted_def sort_scores_def mvals_def Let_def candidate_of_def split: prod.split)
qed


section \<open>Listing a directory\<close>

text \<open>A listing command on a setting whose type is a directory gives the key of the setting as the path, and the checks of the arguments
  refuse every text that is no absolute path: the call fails, whatever the setting holds, and nothing is called.\<close>

theorem directory_command_is_refused:
  fixes H :: "'w host"
  assumes "pc_intent p = js ''QUERY_LIST''" "pc_type target = Some (js ''directory'')" "pc_key target \<noteq> []"
    and "regex H [0x005E, 0x005B, 0x002F, 0x005D, 0x007C, 0x005E, 0x005B, 0x0041, 0x002D, 0x005A, 0x0061, 0x002D, 0x007A, 0x005D, 0x003A] = Some f"
    and "\<not> f (pc_key target)" "parse_args H (stringify H (JObj [(js ''path'', JStr (pc_key target))])) = Some [(js ''path'', JStr (pc_key target))]"
  shows "list_all (\<lambda>c. \<exists>e. executeToolCall H tools TOOL_PRE_GATE_RULES c w = (Returned (failure e), w)) (fst (command_calls H p target))"
proof -
  have "js ''QUERY_LIST'' \<noteq> js ''MODIFY''" by simp
  then have c: "fst (command_calls H p target) = [call H (js ''cmd_0'') (js ''list_directory'') [(js ''path'', JStr (pc_key target))]]"
    using assms(1,2) by (simp add: command_calls_def routeQueryByValueType_def Let_def)
  have "\<exists>e. evaluatePreGates (regex H) (customs H) (map_of TOOL_PRE_GATE_RULES (js ''list_directory'')) [(js ''path'', JStr (pc_key target))] = Some e"
    using assms(3-5)
    by (simp add: evaluatePreGates_def TOOL_PRE_GATE_RULES_def path_not_empty_def path_rules_def rule_of_def getEvaluator_def not_empty_def
        regex_match_def falsy_text_def)
  then show ?thesis using assms(6) by (auto simp: c call_def executeToolCall_def split: option.split)
qed

definition directory_host :: "unit host" where
  "directory_host = sample_host\<lparr>parse_args := \<lambda>s. Some [(js ''path'', JStr (js ''a.b''))]\<rparr>"

lemma directory_command_is_refused_witness:
  "list_all (\<lambda>c. \<exists>e. executeToolCall directory_host [(js ''list_directory'', list_directory directory_host)] TOOL_PRE_GATE_RULES c () = (Returned (failure e), ()))
     (fst (command_calls directory_host (no_command\<lparr>pc_intent := js ''QUERY_LIST''\<rparr>)
        \<lparr>pc_key = js ''a.b'', pc_label = [], pc_type = Some (js ''directory'')\<rparr>))"
proof -
  have "(of_char (CHR ''a'') :: 16 word) \<noteq> 0x2D" by code_simp
  then show ?thesis
    by (intro directory_command_is_refused [where f = "\<lambda>s. case s of c # d # _ \<Rightarrow> c = 0x2D \<and> is_digit d | _ \<Rightarrow> False"])
      (simp_all add: directory_host_def sample_host_def minus_engine_def js_def)
qed

section \<open>What a phrase is answered\<close>

lemma listing_skill: "matchNaturalLanguage lw inp = Some m \<Longrightarrow> reg_id (nl_reg m) = js ''skill:list_all_config''"
proof -
  have regs: "getAllNaturalLangSkills = [registration_of (hd UNIFIED_SKILLS)]"
    by (simp add: getAllNaturalLangSkills_def UNIFIED_SKILLS_def)
  assume "matchNaturalLanguage lw inp = Some m"
  then show ?thesis
    by (auto simp: matchNaturalLanguage_def regs registration_of_def UNIFIED_SKILLS_def split: if_splits option.splits)
qed

text \<open>The answer to phrases that are executed directly is one fixed sentence, that the settings have been listed; it shows no result, and it is the same
  when the listing failed.\<close>

theorem phrase_reply_is_fixed:
  fixes V :: "'w stage_env"
  assumes "direct_gate V lw th clauses E w = (Reply t, E', w')"
  shows "t = [0x2705, 0x0020, 0x5DF2, 0x5217, 0x51FA, 0x6240, 0x6709, 0x914D, 0x7F6E, 0x9879, 0x3002]"
proof -
  let ?ds = "directExecutions (buildRouteDecision lw th clauses None)"
  have ds: "?ds \<noteq> []" "?ds = List.map_filter (executed lw th None) clauses"
    using assms by (auto simp: direct_gate_def Let_def buildRouteDecision_def route_fold split: if_splits)
  have "de_skill d = js ''skill:list_all_config''" if "executed lw th None c = Some d" for c d
    using that listing_skill [of lw c] by (auto simp: executed_def split: option.splits if_splits)
  then have all: "\<forall>d\<in>set ?ds. de_skill d = js ''skill:list_all_config''"
    unfolding ds(2) by (fastforce simp: List.map_filter_def)
  with ds(1) have "js ''skill:list_all_config'' \<in> set (map de_skill ?ds)" by (cases ?ds) auto
  moreover have "js ''skill:list_model_dir'' \<notin> set (map de_skill ?ds)" using all by auto
  moreover have "trim [0x2705, 0x0020, 0x5DF2, 0x5217, 0x51FA, 0x6240, 0x6709, 0x914D, 0x7F6E, 0x9879, 0x3002] = [0x2705, 0x0020, 0x5DF2, 0x5217, 0x51FA, 0x6240, 0x6709, 0x914D, 0x7F6E, 0x9879, 0x3002]" by code_simp
  ultimately have "direct_reply H ?ds calls rs = [0x2705, 0x0020, 0x5DF2, 0x5217, 0x51FA, 0x6240, 0x6709, 0x914D, 0x7F6E, 0x9879, 0x3002]" for H :: "'w host" and calls rs
    by (simp add: direct_reply_def Let_def)
  with assms show ?thesis by (auto simp: direct_gate_def Let_def split: if_splits prod.splits option.splits)
qed

section \<open>Workflows\<close>

text \<open>What a run of the chain adds to its steps.\<close>

definition chain_run :: "jstr list \<Rightarrow> workflow_step list \<Rightarrow> bool \<Rightarrow> bool" where
  "chain_run ts new ok \<longleftrightarrow> map ws_tool new = take (length new) ts \<and> list_all ws_success (butlast new)
     \<and> ok = (length new = length ts \<and> list_all ws_success new) \<and> (ok \<or> (new \<noteq> [] \<and> \<not> ws_success (last new)))"

lemma chain_run_Nil [simp]: "chain_run [] [] True"
  by (simp add: chain_run_def)

lemma chain_run_fails: "ws_tool s = t \<Longrightarrow> \<not> ws_success s \<Longrightarrow> chain_run (t # ts) [s] False"
  by (simp add: chain_run_def)

lemma chain_run_Cons: "chain_run ts new ok \<Longrightarrow> ws_tool s = t \<Longrightarrow> ws_success s \<Longrightarrow> chain_run (t # ts) (s # new) ok"
  by (cases new) (auto simp: chain_run_def)

lemma run_chain_steps:
  "run_chain V args ts pre E w = (Some (steps, ok), E', w') \<Longrightarrow> \<exists>new. steps = pre @ new \<and> chain_run ts new ok"
proof (induction ts arbitrary: pre E w)
  case (Cons t ts)
  show ?case
  proof (cases "\<exists>f r w1. findTool (stage_tools V) t = Some f
      \<and> evaluatePreGates (regex (stage_host V)) (customs (stage_host V)) (map_of (stage_rules V) t) args = None
      \<and> f args w = (Returned r, w1) \<and> tr_success r")
    case True
    then obtain f r w1 where f: "findTool (stage_tools V) t = Some f"
      "evaluatePreGates (regex (stage_host V)) (customs (stage_host V)) (map_of (stage_rules V) t) args = None"
      "f args w = (Returned r, w1)" "tr_success r" by blast
    with Cons.prems obtain s E1 where s: "run_chain V args ts (pre @ [s]) E1 w1 = (Some (steps, ok), E', w')" "ws_tool s = t" "ws_success s"
      by (auto simp: Let_def split: prod.splits)
    from Cons.IH [OF s(1)] obtain new where "steps = (pre @ [s]) @ new" "chain_run ts new ok" by blast
    with s(2,3) show ?thesis by (intro exI [of _ "s # new"]) (simp add: chain_run_Cons)
  next
    case False
    with Cons.prems have "\<exists>s. steps = pre @ [s] \<and> ok = False \<and> ws_tool s = t \<and> \<not> ws_success s"
      by (auto simp: failed_step_def Let_def split: option.splits prod.splits tool_outcome.splits if_splits)
    then show ?thesis using chain_run_fails by blast
  qed
qed auto

text \<open>A workflow runs the tools of its chain in order, up to the first that fails; it succeeds exactly when all of them ran and
  succeeded.\<close>

theorem workflow_stops_at_first_failure:
  assumes "executeSkillWorkflow V routes inp granted E w = (Some r, E', w')"
    and "workflow_route_of routes inp = Some q" "\<not> wr_approval q \<or> granted"
  shows "map ws_tool (wf_steps r) = take (length (wf_steps r)) (wr_tools q)
    \<and> list_all ws_success (butlast (wf_steps r))
    \<and> wf_all r = (length (wf_steps r) = length (wr_tools q) \<and> list_all ws_success (wf_steps r))"
proof -
  have n: "\<not> (wr_approval q \<and> \<not> granted)" using assms(3) by blast
  from assms(1) obtain steps ok where run: "run_chain V (params_args (wr_params q)) (wr_tools q) [] (newRound E) w = (Some (steps, ok), E', w')"
    "wf_steps r = steps" "wf_all r = ok"
    unfolding executeSkillWorkflow_def assms(2) option.case if_not_P [OF n] by (auto split: prod.splits option.splits)
  from run_chain_steps [OF run(1)] have "chain_run (wr_tools q) steps ok" by simp
  with run(2,3) show ?thesis by (simp add: chain_run_def)
qed

text \<open>The commands of the table reach a workflow without their parameters, so the first check of the write workflow, that the key is
  not empty, always refuses: with or without the approval nothing is called and nothing is written.\<close>

theorem write_workflow_is_refused:
  assumes "stage_rules V = TOOL_PRE_GATE_RULES" "matchSkill routes inp = None" "pc_matched (parseCommand inp)"
    and "pc_intent (parseCommand inp) = js ''MODIFY''"
  shows "\<exists>r E'. executeSkillWorkflow V routes inp granted E w = (Some r, E', w) \<and> wf_matched r \<and> \<not> wf_all r"
proof -
  let ?p = "parseCommand inp"
  obtain s where s: "skill_of_command (pc_command ?p) = Some s" "pc_intent ?p = skill_intent s"
    using assms(3) by (auto simp: parseCommand_def no_command_def Let_def split: if_splits option.splits prod.splits)
  have "s \<in> set UNIFIED_SKILLS" using s(1) by (auto simp: skill_of_command_def find_Some_iff)
  moreover have "\<forall>q\<in>set UNIFIED_SKILLS. skill_intent q = js ''MODIFY'' \<longrightarrow> executor q = [js ''read_config_value'', js ''write_config_value'']"
    by (simp add: UNIFIED_SKILLS_def)
  ultimately have ex: "executor s = [js ''read_config_value'', js ''write_config_value'']" using s(2) assms(4) by simp
  have r: "workflow_route_of routes inp = Some \<lparr>wr_prefix = 0x2F # pc_command ?p, wr_tools = [js ''read_config_value'', js ''write_config_value''],
      wr_approval = approvalRequired s, wr_params = None\<rparr>"
    using assms(2,3) s(1) ex by (simp add: workflow_route_of_def Let_def)
  have "evaluatePreGates rx cs (map_of TOOL_PRE_GATE_RULES (js ''read_config_value'')) [] = Some (js ''key '' @ [0x4E0D, 0x80FD, 0x4E3A, 0x7A7A])"
    for rx cs by (simp add: evaluatePreGates_def TOOL_PRE_GATE_RULES_def rule_of_def getEvaluator_def not_empty_def)
  then show ?thesis
    by (simp add: executeSkillWorkflow_def r params_args_def assms(1) split: option.split)
qed

lemma no_routes: "matchSkill [] inp = None"
  by (simp add: matchSkill_def)

lemma workflow_stops_at_first_failure_witness:
  "\<exists>r E'. executeSkillWorkflow sample_stage [] (js ''/read room'') True no_evidence () = (Some r, E', ())
    \<and> map ws_tool (wf_steps r) = [js ''read_config_value''] \<and> wf_all r"
proof -
  have p: "pc_matched (parseCommand (js ''/read room''))" "skill_of_command (pc_command (parseCommand (js ''/read room''))) = Some (UNIFIED_SKILLS ! 1)"
    by code_simp+
  then have r: "\<exists>n. workflow_route_of [] (js ''/read room'') = Some \<lparr>wr_prefix = n, wr_tools = [js ''read_config_value''], wr_approval = False, wr_params = None\<rparr>"
    by (simp add: workflow_route_of_def no_routes Let_def) (simp add: UNIFIED_SKILLS_def)
  have t: "findTool (stage_tools sample_stage) (js ''read_config_value'') = Some (\<lambda>args w. (Returned (success_with (JBool True)), w))"
    by (simp add: sample_stage_def findTool_def)
  have g: "stage_rules sample_stage = []" by (simp add: sample_stage_def)
  obtain q where q: "workflow_route_of [] (js ''/read room'') = Some q" "wr_tools q = [js ''read_config_value'']" "\<not> wr_approval q \<or> True"
    using r by auto
  have "\<exists>x E'. executeSkillWorkflow sample_stage [] (js ''/read room'') True no_evidence () = (Some x, E', ()) \<and> wf_steps x \<noteq> [] \<and> wf_all x"
    by (simp add: executeSkillWorkflow_def q(1,2) t g evaluatePreGates_def Let_def addNode_def split: prod.split)
  then obtain x E' where x: "executeSkillWorkflow sample_stage [] (js ''/read room'') True no_evidence () = (Some x, E', ())" "wf_steps x \<noteq> []" "wf_all x"
    by blast
  from workflow_stops_at_first_failure [OF x(1) q(1,3)] x(2,3) q(2) have "map ws_tool (wf_steps x) = [js ''read_config_value'']" by auto
  with x show ?thesis by auto
qed

lemma write_workflow_is_refused_witness:
  "\<exists>r E'. executeSkillWorkflow (sample_stage\<lparr>stage_rules := TOOL_PRE_GATE_RULES\<rparr>) [] (js ''/write room 5'') True no_evidence () = (Some r, E', ())
    \<and> \<not> wf_all r"
proof -
  have "pc_matched (parseCommand (js ''/write room 5''))" "pc_intent (parseCommand (js ''/write room 5'')) = js ''MODIFY''" by code_simp+
  from write_workflow_is_refused [where V = "sample_stage\<lparr>stage_rules := TOOL_PRE_GATE_RULES\<rparr>" and routes = "[]" and granted = True
      and E = no_evidence and w = "()", OF _ _ this]
  show ?thesis by (auto simp: no_routes)
qed

end
