(* ===== verification/ContextBudget.thy ===== *)
theory ContextBudget
  imports IndexShards
begin

text \<open>
  What a request to the model is made of: the messages (\<open>context-manager/contextBuilder.ts\<close>), the estimate of their
  tokens and the reduction of the index (\<open>context-manager/tokenBudget.ts\<close>), and the collector of the user's
  corrections (\<open>context-manager/feedbackCollector.ts\<close>).
\<close>

section \<open>Tokens\<close>

definition CHARS_PER_TOKEN_BASE :: nat where "CHARS_PER_TOKEN_BASE = 4"
definition CHARS_PER_TOKEN_CJK :: nat where "CHARS_PER_TOKEN_CJK = 2"
definition BUDGET_TOTAL :: nat where "BUDGET_TOTAL = 4096"

definition is_cjk :: "16 word \<Rightarrow> bool" where
  "is_cjk c \<longleftrightarrow> (0x4E00 \<le> c \<and> c \<le> 0x9FFF) \<or> (0x3400 \<le> c \<and> c \<le> 0x4DBF) \<or> (0xF900 \<le> c \<and> c \<le> 0xFAFF)"

text \<open>The quotients are exact in doubles for every length that a text can have.\<close>

definition estimateTokens :: "jstr \<Rightarrow> nat" where
  "estimateTokens t =
     (let cs = characters t; cjk = length (filter (list_ex is_cjk) cs); other = length (filter (\<lambda>c. \<not> list_ex is_cjk c) cs)
      in nat \<lceil>of_nat cjk / of_nat CHARS_PER_TOKEN_CJK + of_nat other / of_nat CHARS_PER_TOKEN_BASE :: rat\<rceil>)"

record token_estimate =
  tokens :: nat
  overBudget :: bool
  excessTokens :: nat

definition index_tokens :: "compact_index option \<Rightarrow> nat" where
  "index_tokens ci =
     (case ci of None \<Rightarrow> 0
      | Some c \<Rightarrow> (if ci_fields c = [] then 0 else estimateTokens (ci_fields c)) + (if ci_domain c = [] then 0 else estimateTokens (ci_domain c))
           + (if ci_constraints c = [] then 0 else estimateTokens (ci_constraints c)))"

definition estimateContextTokens :: "jstr \<Rightarrow> jstr \<Rightarrow> compact_index option \<Rightarrow> jstr option \<Rightarrow> token_estimate" where
  "estimateContextTokens systemPrompt userInput ci toolDelta =
     (let total = estimateTokens systemPrompt + estimateTokens userInput + index_tokens ci
            + (if falsy_text toolDelta then 0 else estimateTokens (the toolDelta));
          over = BUDGET_TOTAL < total
      in \<lparr>tokens = total, overBudget = over, excessTokens = (if over then total - BUDGET_TOTAL else 0)\<rparr>)"

section \<open>Reduction\<close>

record degradation =
  dg_index :: "compact_index option"
  disableCPath :: bool
  dg_reason :: jstr

definition truncated :: "jstr \<Rightarrow> jstr" where
  "truncated s = join_with [0x0A] (take 20 (split_at 0x0A s)) @ [0x0A] @ js ''... (truncated)''"

definition reason_of :: "jstr list \<Rightarrow> jstr" where
  "reason_of steps = join_with [0x0020, 0x2192, 0x0020] steps"

text \<open>The three reductions in their order; each gives the new index and its name, or nothing when it does not apply.\<close>

definition drop_constraints :: "compact_index \<Rightarrow> (compact_index \<times> jstr) option" where
  "drop_constraints c = (if ci_constraints c = [] then None else Some (c\<lparr>ci_constraints := []\<rparr>, [0x79FB, 0x9664, 0x0020, 0x0063, 0x006F, 0x006E, 0x0073, 0x0074, 0x0072, 0x0061, 0x0069, 0x006E, 0x0074, 0x005F, 0x006B, 0x006E, 0x006F, 0x0077, 0x006C, 0x0065, 0x0064, 0x0067, 0x0065]))"

definition cut_fields :: "compact_index \<Rightarrow> (compact_index \<times> jstr) option" where
  "cut_fields c = (if ci_fields c \<noteq> [] \<and> 20 < length (split_at 0x0A (ci_fields c))
     then Some (c\<lparr>ci_fields := truncated (ci_fields c)\<rparr>, [0x622A, 0x65AD, 0x0020, 0x0066, 0x0069, 0x0065, 0x006C, 0x0064, 0x005F, 0x0073, 0x0065, 0x006D, 0x0061, 0x006E, 0x0074, 0x0069, 0x0063, 0x0073, 0x0020, 0x81F3, 0x0020, 0x0032, 0x0030, 0x0020, 0x884C]) else None)"

definition drop_domain :: "compact_index \<Rightarrow> (compact_index \<times> jstr) option" where
  "drop_domain c = (if ci_domain c = [] then None else Some (c\<lparr>ci_domain := []\<rparr>, [0x79FB, 0x9664, 0x0020, 0x0064, 0x006F, 0x006D, 0x0061, 0x0069, 0x006E, 0x005F, 0x006B, 0x006E, 0x006F, 0x0077, 0x006C, 0x0065, 0x0064, 0x0067, 0x0065]))"

fun degrade_steps :: "(compact_index \<Rightarrow> bool) \<Rightarrow> (compact_index \<Rightarrow> (compact_index \<times> jstr) option) list \<Rightarrow> compact_index \<Rightarrow> jstr list \<Rightarrow> degradation" where
  "degrade_steps over [] c names =
     \<lparr>dg_index = Some c, disableCPath = True, dg_reason = reason_of (names @ [[0x7981, 0x7528, 0x0020, 0x0043, 0x0020, 0x8DEF, 0x5F84, 0xFF08, 0x004C, 0x004C, 0x004D, 0x0020, 0x5B57, 0x6BB5, 0x9009, 0x62E9, 0x5668, 0xFF09]])\<rparr>"
| "degrade_steps over (f # fs) c names =
     (case f c of
        None \<Rightarrow> degrade_steps over fs c names
      | Some (d, n) \<Rightarrow>
          (if over d then degrade_steps over fs d (names @ [n])
           else \<lparr>dg_index = Some d, disableCPath = False, dg_reason = reason_of (names @ [n])\<rparr>))"

definition degradeIfOverBudget :: "jstr \<Rightarrow> jstr \<Rightarrow> compact_index option \<Rightarrow> jstr option \<Rightarrow> degradation" where
  "degradeIfOverBudget systemPrompt userInput ci toolDelta =
     (case ci of
        None \<Rightarrow> \<lparr>dg_index = None, disableCPath = False, dg_reason = [0x65E0, 0x0020, 0x0063, 0x006F, 0x006D, 0x0070, 0x0061, 0x0063, 0x0074, 0x0020, 0x7D22, 0x5F15]\<rparr>
      | Some c \<Rightarrow>
          (let over = (\<lambda>d. overBudget (estimateContextTokens systemPrompt userInput (Some d) toolDelta))
           in if \<not> over c then \<lparr>dg_index = Some c, disableCPath = False, dg_reason = [0x9884, 0x7B97, 0x5145, 0x8DB3, 0xFF0C, 0x65E0, 0x9700, 0x964D, 0x7EA7]\<rparr>
              else degrade_steps over [drop_constraints, cut_fields, drop_domain] c []))"

section \<open>Messages\<close>

record message =
  role :: jstr
  msg_text :: "jstr option"
  tool_call_id :: "jstr option"

record tool_def =
  td_name :: jstr
  td_description :: jstr
  td_properties :: "jstr list option"

definition tool_line :: "tool_def \<Rightarrow> jstr" where
  "tool_line t = js ''- '' @ td_name t @ js '': '' @ td_description t @ [0xFF08, 0x53C2, 0x6570, 0x003A, 0x0020]
     @ join_with (js '', '') (case td_properties t of None \<Rightarrow> [] | Some ps \<Rightarrow> ps) @ [0xFF09]"

definition index_parts :: "compact_index \<Rightarrow> jstr list" where
  "index_parts c = filter (\<lambda>t. t \<noteq> []) [ci_fields c, ci_domain c, ci_constraints c]"

definition system_content :: "jstr \<Rightarrow> tool_def list \<Rightarrow> compact_index option \<Rightarrow> jstr" where
  "system_content prompt tools ci =
     prompt @ (if tools = [] then [] else [0x0A, 0x0A] @ [0x0023, 0x0023, 0x0020, 0x53EF, 0x7528, 0x5DE5, 0x5177] @ [0x0A] @ join_with [0x0A] (map tool_line tools))
     @ (case ci of None \<Rightarrow> []
        | Some c \<Rightarrow> (if index_parts c = [] then []
             else [0x0A, 0x0A] @ js ''=== Agent Skill Index ==='' @ [0x0A] @ join_with [0x0A] (index_parts c)))"

definition plain_message :: "jstr \<Rightarrow> jstr \<Rightarrow> message" where
  "plain_message r t = \<lparr>role = r, msg_text = Some t, tool_call_id = None\<rparr>"

definition text_or_blank :: "jstr option \<Rightarrow> jstr" where
  "text_or_blank t = (case t of None \<Rightarrow> [] | Some s \<Rightarrow> s)"

text \<open>A history message is copied with its role and text only.\<close>

definition history_message :: "message \<Rightarrow> message option" where
  "history_message m =
     (if role m = js ''system'' then None
      else if role m = js ''tool''
      then Some (plain_message (if falsy_text (tool_call_id m) then js ''user'' else js ''tool'') (text_or_blank (msg_text m)))
      else Some (plain_message (role m) (text_or_blank (msg_text m))))"

definition buildContext :: "jstr \<Rightarrow> jstr \<Rightarrow> tool_def list \<Rightarrow> compact_index option \<Rightarrow> jstr option \<Rightarrow> message list \<Rightarrow> message list" where
  "buildContext userInput prompt tools ci lastDelta history =
     [plain_message (js ''system'') (system_content prompt tools ci)]
     @ List.map_filter history_message (drop (length history - 10) history)
     @ (case lastDelta of None \<Rightarrow> [] | Some d \<Rightarrow> [plain_message (js ''user'') ([0x005B, 0x4E0A, 0x8F6E, 0x5DE5, 0x5177, 0x7ED3, 0x679C, 0x005D, 0x0020] @ d)])
     @ [plain_message (js ''user'') userInput]"

section \<open>Corrections\<close>

definition MAX_RECORDS :: nat where "MAX_RECORDS = 1000"

text \<open>A record is the object it is; the stored text stands for a list of objects, or cannot be parsed.\<close>

datatype stored_records = BadRecords | Records "json list"

record collector =
  fb_records :: "json list"
  fb_loaded :: bool
  fb_storage :: "stored_records option"
  fb_writable :: bool

definition ensureLoaded :: "collector \<Rightarrow> collector" where
  "ensureLoaded F =
     (if fb_loaded F then F
      else F\<lparr>fb_loaded := True,
             fb_records := (case fb_storage F of None \<Rightarrow> fb_records F | Some BadRecords \<Rightarrow> [] | Some (Records rs) \<Rightarrow> rs)\<rparr>)"

definition persist :: "collector \<Rightarrow> collector" where
  "persist F =
     (let rs = drop (length (fb_records F) - MAX_RECORDS) (fb_records F)
      in F\<lparr>fb_records := rs, fb_storage := (if fb_writable F then Some (Records rs) else fb_storage F)\<rparr>)"

definition record_feedback :: "(jstr \<times> json) list \<Rightarrow> jstr \<Rightarrow> jsnum \<Rightarrow> collector \<Rightarrow> json \<times> collector" where
  "record_feedback feedback i now F =
     (let F1 = ensureLoaded F;
          r = JObj (mput (js ''timestamp'') (JNum now) (mput (js ''id'') (JStr i) feedback))
      in (r, persist (F1\<lparr>fb_records := fb_records F1 @ [r]\<rparr>)))"

definition getAll :: "collector \<Rightarrow> json list \<times> collector" where
  "getAll F = (let F1 = ensureLoaded F in (fb_records F1, F1))"

definition clear_feedback :: "collector \<Rightarrow> collector" where
  "clear_feedback F = persist (F\<lparr>fb_records := []\<rparr>)"

definition exportJSONL :: "'a jsenv_scheme \<Rightarrow> collector \<Rightarrow> jstr \<times> collector" where
  "exportJSONL H F = (let F1 = ensureLoaded F in (join_with [0x0A] (map (stringify H) (fb_records F1)), F1))"

definition valid_record :: "json \<Rightarrow> bool" where
  "valid_record r \<longleftrightarrow> r \<noteq> JNull \<and> json_truthy (jfield (js ''id'') r) \<and> jfield (js ''intent'') r \<noteq> None"

definition read_line :: "'a jsenv_scheme \<Rightarrow> jstr \<Rightarrow> json option" where
  "read_line H l = (case parse_json H l of None \<Rightarrow> None | Some r \<Rightarrow> if valid_record r then Some r else None)"

definition importJSONL :: "'a jsenv_scheme \<Rightarrow> jstr \<Rightarrow> collector \<Rightarrow> nat \<times> collector" where
  "importJSONL H t F =
     (let rs = List.map_filter (read_line H) (split_at 0x0A (trim t))
      in (length rs, persist (F\<lparr>fb_records := fb_records F @ rs\<rparr>)))"

record feedback_stats =
  fs_total :: nat
  byType :: "(jstr, nat) jmap"
  topIntents :: "(jstr \<times> nat) list"
  lastUpdated :: json

definition property_key :: "'a jsenv_scheme \<Rightarrow> json option \<Rightarrow> jstr" where
  "property_key H v = (case v of None \<Rightarrow> js ''undefined'' | Some j \<Rightarrow> string_of H j)"

definition bump :: "jstr \<Rightarrow> (jstr, nat) jmap \<Rightarrow> (jstr, nat) jmap" where
  "bump k m = mput k (Suc (case mget m k of None \<Rightarrow> 0 | Some n \<Rightarrow> n)) m"

definition feedback_types :: "jstr list" where
  "feedback_types = map js [''translation_incorrect'', ''format_wrong'', ''missing_info'', ''gate_missed'', ''tool_wrong'', ''other'']"

definition getStats :: "'a jsenv_scheme \<Rightarrow> jsnum \<Rightarrow> collector \<Rightarrow> feedback_stats \<times> collector" where
  "getStats H now F =
     (let F1 = ensureLoaded F; rs = fb_records F1;
          intents = fold (\<lambda>r. bump (property_key H (jfield (js ''intent'') r))) rs []
      in (\<lparr>fs_total = length rs,
           byType = fold (\<lambda>r. bump (property_key H (jfield (js ''type'') r))) rs (map (\<lambda>t. (t, 0)) feedback_types),
           topIntents = take 10 (sort_scores (jnum_nat \<circ> snd) intents),
           lastUpdated = (if rs = [] then JNum now else case jfield (js ''timestamp'') (last rs) of None \<Rightarrow> JNull | Some t \<Rightarrow> t)\<rparr>, F1))"

section \<open>Lemmas\<close>

lemma characters_plain:
  "\<forall>c\<in>set t. \<not> (0xD800 \<le> c \<and> c \<le> 0xDBFF) \<Longrightarrow> characters t = map (\<lambda>c. [c]) t"
  by (induction t rule: characters.induct) auto

lemma plain_tokens: "estimateTokens (replicate n 0x61) = nat \<lceil>of_nat n / 4 :: rat\<rceil>"
  by (simp add: estimateTokens_def characters_plain Let_def is_cjk_def filter_map o_def CHARS_PER_TOKEN_BASE_def)

lemma split_join:
  "xs \<noteq> [] \<Longrightarrow> \<forall>x\<in>set xs. d \<notin> set x \<Longrightarrow> split_at d (join_with [d] xs) = xs"
proof (induction xs rule: induct_list012)
  case (3 x y ys)
  have "split_at d (x @ d # t) = x # split_at d t" if "d \<notin> set x" for x t
    using that by (induction x) auto
  with 3 show ?case by simp
qed (auto simp: split_at_no_sep)

lemma split_pieces: "x \<in> set (split_at d s) \<Longrightarrow> d \<notin> set x"
proof (induction s arbitrary: x)
  case (Cons c s)
  then show ?case by (cases "split_at d s") (auto split: if_splits)
qed simp

lemma hd_join: "xs \<noteq> [] \<Longrightarrow> hd xs \<noteq> [] \<Longrightarrow> join_with sep xs \<noteq> [] \<and> hd (join_with sep xs) = hd (hd xs)"
  by (cases xs rule: remdups_adj.cases) auto

lemma join_nonempty: "xs \<noteq> [] \<Longrightarrow> last xs \<noteq> [] \<Longrightarrow> join_with sep xs \<noteq> []"
  by (induction xs rule: induct_list012) auto

lemma last_join: "xs \<noteq> [] \<Longrightarrow> last xs \<noteq> [] \<Longrightarrow> last (join_with sep xs) = last (last xs)"
  by (induction xs rule: induct_list012) (auto simp: join_nonempty)

lemma trim_id: "s \<noteq> [] \<Longrightarrow> \<not> is_space (hd s) \<Longrightarrow> \<not> is_space (last s) \<Longrightarrow> trim s = s"
proof -
  have "dropWhile P xs = xs" if "xs \<noteq> []" "\<not> P (hd xs)" for P and xs :: jstr
    using that by (cases xs) auto
  then show "s \<noteq> [] \<Longrightarrow> \<not> is_space (hd s) \<Longrightarrow> \<not> is_space (last s) \<Longrightarrow> trim s = s"
    by (simp add: trim_def hd_rev)
qed

section \<open>Reduction of the index\<close>

definition reduced_from :: "compact_index \<Rightarrow> compact_index \<Rightarrow> bool" where
  "reduced_from c d \<longleftrightarrow> ci_fields d \<in> {ci_fields c, truncated (ci_fields c)}
     \<and> ci_domain d \<in> {ci_domain c, []} \<and> ci_constraints d \<in> {ci_constraints c, []}"

lemma truncated_lines: "length (split_at 0x0A (truncated s)) \<le> 21"
proof -
  let ?ls = "take 20 (split_at 0x0A s)"
  have "truncated s = join_with [0x0A] (?ls @ [js ''... (truncated)''])"
  proof -
    have "join_with sep (xs @ [z]) = join_with sep xs @ sep @ z" if "xs \<noteq> []" for sep xs z
      using that by (induction xs rule: induct_list012) auto
    from this [of ?ls] show ?thesis by (simp add: truncated_def)
  qed
  moreover have "\<forall>x\<in>set (?ls @ [js ''... (truncated)'']). 0x0A \<notin> set x"
    using split_pieces [of _ "0x0A" s] in_set_takeD [of _ 20 "split_at 0x0A s"] by (auto simp: js_def)
  ultimately have "split_at 0x0A (truncated s) = ?ls @ [js ''... (truncated)'']"
    using split_join [of "?ls @ [js ''... (truncated)'']" "0x0A"] by simp
  then show ?thesis by simp
qed

text \<open>The reduction only ever empties the constraints or the domain knowledge or cuts the fields; the field selector is switched off
  exactly when what is left is still over the budget, and then the domain knowledge and the constraints are gone and at most
  21 lines of fields are left.\<close>

theorem reduction_outcome:
  "\<exists>d. dg_index (degradeIfOverBudget p u (Some c) t) = Some d \<and> reduced_from c d
     \<and> disableCPath (degradeIfOverBudget p u (Some c) t) = overBudget (estimateContextTokens p u (Some d) t)
     \<and> (disableCPath (degradeIfOverBudget p u (Some c) t) \<longrightarrow>
          ci_domain d = [] \<and> ci_constraints d = [] \<and> length (split_at 0x0A (ci_fields d)) \<le> 21)"
proof -
  define over where "over = (\<lambda>d. overBudget (estimateContextTokens p u (Some d) t))"
  note defs = degradeIfOverBudget_def over_def [symmetric] Let_def drop_constraints_def cut_fields_def drop_domain_def reduced_from_def
  have same: "c\<lparr>ci_constraints := []\<rparr> = c" if "ci_constraints c = []" using that by (cases c) simp
  have same': "d\<lparr>ci_domain := []\<rparr> = d" if "ci_domain d = []" for d :: compact_index using that by (cases d) simp
  show ?thesis
    using truncated_lines [of "ci_fields c"]
    by (auto simp: defs same same' fun_cong [OF over_def, symmetric])
qed

lemma long_input: "16384 < n \<Longrightarrow> overBudget (estimateContextTokens p (replicate n 0x61) i t)"
proof -
  assume n: "16384 < n"
  then have "(4096::rat) < of_nat n / 4" by simp
  then have "4096 < nat \<lceil>of_nat n / 4 :: rat\<rceil>" by linarith
  then show ?thesis by (simp add: estimateContextTokens_def plain_tokens Let_def BUDGET_TOTAL_def)
qed

text \<open>Twenty thousand letters of input are five thousand tokens: nothing in the index helps.\<close>

lemma reduction_outcome_witness:
  "\<exists>d. dg_index (degradeIfOverBudget [] (replicate 20000 0x61) (Some \<lparr>ci_fields = js ''a'', ci_domain = js ''b'', ci_constraints = js ''c''\<rparr>) None) = Some d
     \<and> disableCPath (degradeIfOverBudget [] (replicate 20000 0x61) (Some \<lparr>ci_fields = js ''a'', ci_domain = js ''b'', ci_constraints = js ''c''\<rparr>) None)
     \<and> ci_domain d = [] \<and> ci_constraints d = []"
proof -
  let ?c = "\<lparr>ci_fields = js ''a'', ci_domain = js ''b'', ci_constraints = js ''c''\<rparr>"
  obtain d where d: "dg_index (degradeIfOverBudget [] (replicate 20000 0x61) (Some ?c) None) = Some d"
    "disableCPath (degradeIfOverBudget [] (replicate 20000 0x61) (Some ?c) None) = overBudget (estimateContextTokens [] (replicate 20000 0x61) (Some d) None)"
    "disableCPath (degradeIfOverBudget [] (replicate 20000 0x61) (Some ?c) None) \<longrightarrow> ci_domain d = [] \<and> ci_constraints d = []"
    using reduction_outcome [of "[]" "replicate 20000 0x61" ?c None] by blast
  have "overBudget (estimateContextTokens [] (replicate 20000 0x61) (Some d) None)" by (rule long_input) simp
  with d show ?thesis by (intro exI [of _ d]) (simp only: simp_thms)
qed

section \<open>Messages of a request\<close>

text \<open>A request starts with the system message and ends with the user's input; between them come at most ten messages of the history, none
  with the system role, and the note on the last tool; no message of the request carries the id of a tool call, although
  a message of the history keeps the role of a tool exactly when it has one.\<close>

theorem request_shape:
  "\<exists>ms. buildContext u p tools ci d hist = [plain_message (js ''system'') (system_content p tools ci)] @ ms @ [plain_message (js ''user'') u]
     \<and> length ms \<le> 11
     \<and> list_all (\<lambda>m. role m \<noteq> js ''system'' \<and> tool_call_id m = None) ms
     \<and> (length (filter (\<lambda>m. role m = js ''tool'') ms)
        = length (filter (\<lambda>m. role m = js ''tool'' \<and> \<not> falsy_text (tool_call_id m)) (drop (length hist - 10) hist)))"
proof -
  let ?h = "drop (length hist - 10) hist"
  let ?n = "case d of None \<Rightarrow> [] | Some x \<Rightarrow> [plain_message (js ''user'') ([0x005B, 0x4E0A, 0x8F6E, 0x5DE5, 0x5177, 0x7ED3, 0x679C, 0x005D, 0x0020] @ x)]"
  have short: "length (List.map_filter f xs) \<le> length xs" for f :: "message \<Rightarrow> message option" and xs
    by (induction xs) (auto simp: List.map_filter_simps split: option.split)
  have roles: "list_all (\<lambda>m. role m \<noteq> js ''system'' \<and> tool_call_id m = None) (List.map_filter history_message hs)" for hs
    by (induction hs) (auto simp: List.map_filter_simps history_message_def plain_message_def js_def)
  have tools: "length (filter (\<lambda>m. role m = js ''tool'') (List.map_filter history_message hs))
      = length (filter (\<lambda>m. role m = js ''tool'' \<and> \<not> falsy_text (tool_call_id m)) hs)" for hs
    by (induction hs) (auto simp: List.map_filter_simps history_message_def plain_message_def js_def)
  have "length (List.map_filter history_message ?h @ ?n) \<le> 11"
    using short [of history_message ?h] by (auto split: option.split)
  with roles [of ?h] tools [of ?h] show ?thesis
    by (intro exI [of _ "List.map_filter history_message ?h @ ?n"])
      (auto simp: buildContext_def plain_message_def js_def split: option.split)
qed

section \<open>The collector over time\<close>

definition new_collector :: "stored_records option \<Rightarrow> bool \<Rightarrow> collector" where
  "new_collector st w = \<lparr>fb_records = [], fb_loaded = False, fb_storage = st, fb_writable = w\<rparr>"

definition restart_collector :: "collector \<Rightarrow> collector" where
  "restart_collector F = new_collector (fb_storage F) (fb_writable F)"

datatype fb_event = Report "(jstr \<times> json) list" jstr jsnum | Import jstr | ClearAll | ListAll | Export | Restart | StorageFull bool

fun fb_step :: "'a jsenv_scheme \<Rightarrow> fb_event \<Rightarrow> collector \<Rightarrow> collector" where
  "fb_step H (Report f i t) F = snd (record_feedback f i t F)"
| "fb_step H (Import t) F = snd (importJSONL H t F)"
| "fb_step H ClearAll F = clear_feedback F"
| "fb_step H ListAll F = snd (getAll F)"
| "fb_step H Export F = snd (exportJSONL H F)"
| "fb_step H Restart F = restart_collector F"
| "fb_step H (StorageFull b) F = F\<lparr>fb_writable := \<not> b\<rparr>"

definition fb_ok :: "collector \<Rightarrow> bool" where
  "fb_ok F \<longleftrightarrow> length (fb_records F) \<le> MAX_RECORDS
     \<and> (case fb_storage F of Some (Records rs) \<Rightarrow> length rs \<le> MAX_RECORDS | _ \<Rightarrow> True)"

lemma persist_ok: "(case fb_storage F of Some (Records rs) \<Rightarrow> length rs \<le> MAX_RECORDS | _ \<Rightarrow> True) \<Longrightarrow> fb_ok (persist F)"
  by (simp add: fb_ok_def persist_def Let_def)

lemma loaded_ok: "fb_ok F \<Longrightarrow> fb_ok (ensureLoaded F)"
  by (auto simp: fb_ok_def ensureLoaded_def split: option.splits stored_records.splits)

lemma fb_step_ok: "fb_ok F \<Longrightarrow> fb_ok (fb_step H e F)"
  using loaded_ok [of F]
  by (cases e) (auto simp: record_feedback_def importJSONL_def clear_feedback_def getAll_def exportJSONL_def restart_collector_def
      new_collector_def Let_def fb_ok_def intro!: persist_ok [unfolded fb_ok_def])

interpretation feedback: event_closed fb_ok "fb_step H"
  by unfold_locales (rule fb_step_ok)

lemma loaded_idem [simp]: "fb_loaded F \<Longrightarrow> ensureLoaded F = F"
  by (simp add: ensureLoaded_def)

lemma loaded_loaded [simp]: "fb_loaded (ensureLoaded F)"
  by (simp add: ensureLoaded_def)

lemma persist_simps [simp]:
  "fb_records (persist F) = drop (length (fb_records F) - MAX_RECORDS) (fb_records F)"
  "fb_loaded (persist F) = fb_loaded F" "fb_writable (persist F) = fb_writable F"
  "fb_writable F \<Longrightarrow> fb_storage (persist F) = Some (Records (drop (length (fb_records F) - MAX_RECORDS) (fb_records F)))"
  by (simp_all add: persist_def Let_def)

text \<open>A record and texts for the examples.\<close>

definition one_record :: json where
  "one_record = JObj [(js ''id'', JStr (js ''fb_1'')), (js ''intent'', JStr (js ''QUERY''))]"

definition one_line :: jsenv where
  "one_line = \<lparr>parse_json = (\<lambda>s. if s = js ''{1}'' then Some one_record else None), stringify = (\<lambda>j. js ''{1}''),
     pretty = (\<lambda>j. []), to_text = (\<lambda>j. []), to_number = (\<lambda>j. NaN), type_error = [], syntax_error = (\<lambda>s. [])\<rparr>"

text \<open>Whatever is reported, imported, cleared and restarted, starting without stored records: at most a thousand records are held and stored; and
  while the storage takes writes, a reported correction is the last of the records, before and after a restart, and the older
  ones are still there as far as there is room.\<close>

theorem reports_survive_restart:
  assumes "F = fold (fb_step H) es (new_collector None w)" "fb_writable F"
  shows "length (fst (getAll F)) \<le> MAX_RECORDS
    \<and> fst (getAll (restart_collector (snd (record_feedback f i t F)))) = fst (getAll (snd (record_feedback f i t F)))
    \<and> fst (getAll (snd (record_feedback f i t F)))
      = drop (Suc (length (fst (getAll F))) - MAX_RECORDS) (fst (getAll F)) @ [fst (record_feedback f i t F)]"
proof (intro conjI)
  have "fb_ok (new_collector None w)" by (simp add: fb_ok_def new_collector_def)
  from loaded_ok [OF feedback.run_ok [OF this]] assms(1) have ok: "fb_ok (ensureLoaded F)" by simp
  have w: "fb_writable (ensureLoaded F)" using assms(2) by (simp add: ensureLoaded_def)
  show bound: "length (fst (getAll F)) \<le> MAX_RECORDS" using ok by (simp add: getAll_def fb_ok_def Let_def)
  show "fst (getAll (restart_collector (snd (record_feedback f i t F)))) = fst (getAll (snd (record_feedback f i t F)))"
    using w by (simp add: getAll_def record_feedback_def Let_def restart_collector_def new_collector_def)
      (simp add: ensureLoaded_def)
  show "fst (getAll (snd (record_feedback f i t F)))
      = drop (Suc (length (fst (getAll F))) - MAX_RECORDS) (fst (getAll F)) @ [fst (record_feedback f i t F)]"
    using bound by (simp add: getAll_def record_feedback_def Let_def MAX_RECORDS_def)
qed

lemma reports_survive_restart_witness:
  "length (fst (getAll (snd (record_feedback [] (js ''fb_1'') (Fin 1) (new_collector None True))))) \<le> MAX_RECORDS"
proof -
  let ?F = "snd (record_feedback [] (js ''fb_1'') (Fin 1) (new_collector None True))"
  have "?F = fold (fb_step one_line) [Report [] (js ''fb_1'') (Fin 1)] (new_collector None True)" "fb_writable ?F"
    by (simp_all add: record_feedback_def Let_def ensureLoaded_def new_collector_def)
  from reports_survive_restart [OF this] show ?thesis by blast
qed

section \<open>Lines of records\<close>

text \<open>What is relied on of the text of a record: one line without blanks at its ends, and reading it gives the record.\<close>

definition line_record :: "'a jsenv_scheme \<Rightarrow> json \<Rightarrow> bool" where
  "line_record H r \<longleftrightarrow> valid_record r \<and> parse_json H (stringify H r) = Some r \<and> 0x0A \<notin> set (stringify H r)
     \<and> stringify H r \<noteq> [] \<and> \<not> is_space (hd (stringify H r)) \<and> \<not> is_space (last (stringify H r))"

text \<open>Importing the exported text into a collector that has loaded appends the exported records and counts them; into one that has
  not loaded yet it replaces what is stored, and the stored records are lost.\<close>

theorem import_of_export:
  assumes "\<forall>r\<in>set (fst (getAll F)). line_record H r" "fst (getAll F) \<noteq> []" "fb_writable G"
    and "length (fb_records G) + length (fst (getAll F)) \<le> MAX_RECORDS"
  shows "fst (importJSONL H (fst (exportJSONL H F)) G) = length (fst (getAll F))
    \<and> fst (getAll (restart_collector (snd (importJSONL H (fst (exportJSONL H F)) G)))) = fb_records G @ fst (getAll F)"
proof (intro conjI)
  define rs where "rs = fst (getAll F)"
  let ?ls = "map (stringify H) rs"
  have lines: "\<forall>r\<in>set rs. line_record H r" "rs \<noteq> []" using assms(1,2) by (simp_all add: rs_def)
  have e: "fst (exportJSONL H F) = join_with [0x0A] ?ls" by (simp add: exportJSONL_def rs_def getAll_def Let_def)
  have hl: "hd ?ls \<noteq> []" "\<not> is_space (hd (hd ?ls))" "last ?ls \<noteq> []" "\<not> is_space (last (last ?ls))"
    using lines by (auto simp: hd_map last_map line_record_def)
  have "trim (join_with [0x0A] ?ls) = join_with [0x0A] ?ls"
    using hl lines(2) by (intro trim_id) (simp_all add: hd_join last_join)
  moreover have "split_at 0x0A (join_with [0x0A] ?ls) = ?ls"
    using lines by (intro split_join) (auto simp: line_record_def)
  moreover have "List.map_filter (read_line H) (map (stringify H) xs) = xs" if "\<forall>r\<in>set xs. line_record H r" for xs
    using that by (induction xs) (auto simp: List.map_filter_simps read_line_def line_record_def)
  ultimately have i: "importJSONL H (fst (exportJSONL H F)) G = (length rs, persist (G\<lparr>fb_records := fb_records G @ rs\<rparr>))"
    using lines(1) by (simp add: importJSONL_def e)
  show "fst (importJSONL H (fst (exportJSONL H F)) G) = length (fst (getAll F))" by (simp add: i rs_def)
  have "length (fb_records G @ rs) - MAX_RECORDS = 0" using assms(4) by (simp add: rs_def)
  then show "fst (getAll (restart_collector (snd (importJSONL H (fst (exportJSONL H F)) G)))) = fb_records G @ fst (getAll F)"
    using assms(3) by (simp add: i getAll_def Let_def restart_collector_def new_collector_def rs_def [symmetric])
      (simp add: ensureLoaded_def rs_def getAll_def Let_def)
qed

lemma import_of_export_witness:
  "let F = (new_collector (Some (Records [one_record])) True); old = (new_collector (Some (Records [JObj [], JNull])) True)
   in fst (importJSONL one_line (fst (exportJSONL one_line F)) old) = 1
      \<and> fst (getAll old) = [JObj [], JNull]
      \<and> fst (getAll (restart_collector (snd (importJSONL one_line (fst (exportJSONL one_line F)) old)))) = [one_record]"
proof -
  let ?F = "new_collector (Some (Records [one_record])) True" and ?G = "new_collector (Some (Records [JObj [], JNull])) True"
  have F: "fst (getAll ?F) = [one_record]" and G: "fst (getAll ?G) = [JObj [], JNull]" "fb_records ?G = []" "fb_writable ?G"
    by (simp_all add: getAll_def Let_def ensureLoaded_def new_collector_def)
  have "line_record one_line one_record"
    by (simp add: line_record_def one_line_def one_record_def valid_record_def js_def is_space_def line_terminators_def jfield_def json_truthy_def)
  then show ?thesis
    using import_of_export [of ?F one_line ?G] by (simp add: F G MAX_RECORDS_def)
qed

end
