(* ===== verification/ByteText.thy ===== *)
theory ByteText
  imports JsNumber
begin

text \<open>
  Bytes and texts: reading little-endian numbers out of a buffer with the runtime's range check, UTF-8 as
  \<open>Buffer.from\<close> writes and \<open>buffer.toString\<close> reads it (each maximal broken piece becomes U+FFFD), and the product of two
  integers reduced to 32 bits as \<open>(a * b) >>> 0\<close> computes it: rounded to a double first.
\<close>

type_synonym bytes = "8 word list"

section \<open>Reading\<close>

datatype read_error = OutOfRange | NotAString

type_synonym 'a read = "read_error + 'a"

fun andThen :: "'e + 'a \<Rightarrow> ('a \<Rightarrow> 'e + 'b) \<Rightarrow> 'e + 'b" where
  "andThen (Inl e) f = Inl e"
| "andThen (Inr x) f = f x"

lemma andThen_Inr: "andThen x f = Inr y \<longleftrightarrow> (\<exists>z. x = Inr z \<and> f z = Inr y)"
  by (cases x) auto

fun little_endian :: "bytes \<Rightarrow> nat" where
  "little_endian [] = 0"
| "little_endian (b # bs) = unat b + 256 * little_endian bs"

definition slice :: "bytes \<Rightarrow> nat \<Rightarrow> nat \<Rightarrow> bytes" where
  "slice buf off n = take n (drop off buf)"

definition read_uint :: "nat \<Rightarrow> bytes \<Rightarrow> int \<Rightarrow> nat read" where
  "read_uint n buf off =
     (if off < 0 \<or> int (length buf) < off + int n then Inl OutOfRange else Inr (little_endian (slice buf (nat off) n)))"

fun le_bytes :: "nat \<Rightarrow> nat \<Rightarrow> bytes" where
  "le_bytes 0 x = []"
| "le_bytes (Suc n) x = of_nat (x mod 256) # le_bytes n (x div 256)"

lemma length_le_bytes [simp]: "length (le_bytes n x) = n"
  by (induction n arbitrary: x) auto

lemma little_endian_le_bytes: "x < 256 ^ n \<Longrightarrow> little_endian (le_bytes n x) = x"
proof (induction n arbitrary: x)
  case (Suc n)
  have "x div 256 < 256 ^ n" using Suc.prems by (simp add: less_mult_imp_div_less mult.commute)
  with Suc.IH show ?case by (simp add: unat_of_nat)
qed simp

lemma slice_append: "slice (xs @ ys @ zs) (length xs) (length ys) = ys"
  by (simp add: slice_def)

lemma read_uint_le_bytes:
  "x < 256 ^ n \<Longrightarrow> read_uint n (xs @ le_bytes n x @ zs) (int (length xs)) = Inr x"
  using slice_append [of xs "le_bytes n x" zs] by (simp add: read_uint_def little_endian_le_bytes)

lemma read_uint_total: "0 \<le> off \<Longrightarrow> off + int n \<le> int (length buf) \<Longrightarrow> \<exists>x. read_uint n buf off = Inr x"
  by (simp add: read_uint_def)

section \<open>UTF-8\<close>

definition is_high :: "16 word \<Rightarrow> bool" where "is_high c \<longleftrightarrow> 0xD800 \<le> unat c \<and> unat c \<le> 0xDBFF"
definition is_low :: "16 word \<Rightarrow> bool" where "is_low c \<longleftrightarrow> 0xDC00 \<le> unat c \<and> unat c \<le> 0xDFFF"

definition byte :: "nat \<Rightarrow> 8 word" where "byte n = of_nat n"
definition unit :: "nat \<Rightarrow> 16 word" where "unit n = of_nat n"

definition replacement :: "16 word" where "replacement = 0xFFFD"

text \<open>A pair of surrogates is one code point; a surrogate alone is written as U+FFFD.\<close>

definition encode3 :: "nat \<Rightarrow> bytes" where
  "encode3 n = [byte (0xE0 + n div 4096), byte (0x80 + n div 64 mod 64), byte (0x80 + n mod 64)]"

definition encode4 :: "nat \<Rightarrow> bytes" where
  "encode4 n = [byte (0xF0 + n div 262144), byte (0x80 + n div 4096 mod 64), byte (0x80 + n div 64 mod 64), byte (0x80 + n mod 64)]"

definition surrogate_point :: "16 word \<Rightarrow> 16 word \<Rightarrow> nat" where
  "surrogate_point c d = 0x10000 + (unat c - 0xD800) * 1024 + (unat d - 0xDC00)"

fun utf8_encode :: "jstr \<Rightarrow> bytes" where
  "utf8_encode [] = []"
| "utf8_encode (c # cs) =
     (if unat c < 0x80 then byte (unat c) # utf8_encode cs
      else if unat c < 0x800 then byte (0xC0 + unat c div 64) # byte (0x80 + unat c mod 64) # utf8_encode cs
      else if is_high c then
        (case cs of d # ds \<Rightarrow> if is_low d then encode4 (surrogate_point c d) @ utf8_encode ds else encode3 0xFFFD @ utf8_encode cs
         | [] \<Rightarrow> encode3 0xFFFD)
      else if is_low c then encode3 0xFFFD @ utf8_encode cs
      else encode3 (unat c) @ utf8_encode cs)"

definition byte_in :: "nat \<Rightarrow> nat \<Rightarrow> 8 word \<Rightarrow> bool" where
  "byte_in a b x \<longleftrightarrow> a \<le> unat x \<and> unat x \<le> b"

definition point_units :: "nat \<Rightarrow> jstr" where
  "point_units n = (if n < 0x10000 then [unit n] else [unit (0xD800 + (n - 0x10000) div 1024), unit (0xDC00 + (n - 0x10000) mod 1024)])"

fun utf8_decode :: "bytes \<Rightarrow> jstr" where
  "utf8_decode [] = []"
| "utf8_decode (b # bs) =
     (let n = unat b in
      if n < 0x80 then unit n # utf8_decode bs
      else if byte_in 0xC2 0xDF b then
        (case bs of [] \<Rightarrow> [replacement]
         | c # cs \<Rightarrow> if byte_in 0x80 0xBF c then unit ((n - 0xC0) * 64 + (unat c - 0x80)) # utf8_decode cs
                     else replacement # utf8_decode bs)
      else if byte_in 0xE0 0xEF b then
        (case bs of [] \<Rightarrow> [replacement]
         | c # cs \<Rightarrow>
             if \<not> byte_in (if n = 0xE0 then 0xA0 else 0x80) (if n = 0xED then 0x9F else 0xBF) c then replacement # utf8_decode bs
             else (case cs of [] \<Rightarrow> [replacement]
                   | d # ds \<Rightarrow> if byte_in 0x80 0xBF d
                       then unit ((n - 0xE0) * 4096 + (unat c - 0x80) * 64 + (unat d - 0x80)) # utf8_decode ds
                       else replacement # utf8_decode cs))
      else if byte_in 0xF0 0xF4 b then
        (case bs of [] \<Rightarrow> [replacement]
         | c # cs \<Rightarrow>
             if \<not> byte_in (if n = 0xF0 then 0x90 else 0x80) (if n = 0xF4 then 0x8F else 0xBF) c then replacement # utf8_decode bs
             else (case cs of [] \<Rightarrow> [replacement]
                   | d # ds \<Rightarrow>
                       if \<not> byte_in 0x80 0xBF d then replacement # utf8_decode cs
                       else (case ds of [] \<Rightarrow> [replacement]
                             | e # es \<Rightarrow> if byte_in 0x80 0xBF e
                                 then point_units ((n - 0xF0) * 262144 + (unat c - 0x80) * 4096 + (unat d - 0x80) * 64 + (unat e - 0x80)) @ utf8_decode es
                                 else replacement # utf8_decode ds)))
      else replacement # utf8_decode bs)"

text \<open>Texts without a lone surrogate.\<close>

fun well_formed :: "jstr \<Rightarrow> bool" where
  "well_formed [] = True"
| "well_formed (c # cs) =
     (if is_high c then (case cs of d # ds \<Rightarrow> is_low d \<and> well_formed ds | [] \<Rightarrow> False)
      else \<not> is_low c \<and> well_formed cs)"

lemma unat_byte [simp]: "n < 256 \<Longrightarrow> unat (byte n) = n"
  by (simp add: byte_def unat_of_nat)

lemma unit_unat [simp]: "unit (unat c) = c"
  by (simp add: unit_def)

lemma unit_lt: "unat (c :: 16 word) < 65536"
  using unsigned_less [of c] by simp

declare utf8_decode.simps(2) [simp del]

lemma decode1: "n < 128 \<Longrightarrow> utf8_decode (byte n # bs) = unit n # utf8_decode bs"
  by (simp add: utf8_decode.simps(2) Let_def)

lemma decode2_step:
  assumes "2 \<le> a" "a < 32" "b < 64"
  shows "utf8_decode (byte (0xC0 + a) # byte (0x80 + b) # bs) = unit (a * 64 + b) # utf8_decode bs"
proof -
  have "unat (byte (0xC0 + a)) = 0xC0 + a" "unat (byte (0x80 + b)) = 0x80 + b" using assms by simp_all
  then show ?thesis using assms by (simp add: utf8_decode.simps(2) byte_in_def)
qed

lemma decode3_step:
  assumes "a < 16" "b < 64" "c < 64" "a = 0 \<Longrightarrow> 32 \<le> b" "a = 13 \<Longrightarrow> b < 32"
  shows "utf8_decode (byte (0xE0 + a) # byte (0x80 + b) # byte (0x80 + c) # bs) = unit (a * 4096 + b * 64 + c) # utf8_decode bs"
proof -
  define x y z where "x = byte (0xE0 + a)" and "y = byte (0x80 + b)" and "z = byte (0x80 + c)"
  have u: "unat x = 0xE0 + a" "unat y = 0x80 + b" "unat z = 0x80 + c" using assms(1-3) by (simp_all add: x_def y_def z_def)
  have "\<not> unat x < 0x80" "\<not> byte_in 0xC2 0xDF x" "byte_in 0xE0 0xEF x" "byte_in 0x80 0xBF z"
    "byte_in (if unat x = 0xE0 then 0xA0 else 0x80) (if unat x = 0xED then 0x9F else 0xBF) y"
    using assms by (auto simp: byte_in_def u)
  then have "utf8_decode (x # y # z # bs) = unit ((unat x - 0xE0) * 4096 + (unat y - 0x80) * 64 + (unat z - 0x80)) # utf8_decode bs"
    by (simp only: utf8_decode.simps(2) [of x] Let_def list.case if_False if_True not_True_eq_False)
  then show ?thesis by (simp add: u x_def [symmetric] y_def [symmetric] z_def [symmetric])
qed

lemma decode4_step:
  assumes "a < 5" "b < 64" "c < 64" "d < 64" "a = 0 \<Longrightarrow> 16 \<le> b" "a = 4 \<Longrightarrow> b < 16"
  shows "utf8_decode (byte (0xF0 + a) # byte (0x80 + b) # byte (0x80 + c) # byte (0x80 + d) # bs)
    = point_units (a * 262144 + b * 4096 + c * 64 + d) @ utf8_decode bs"
proof -
  define x y z w where "x = byte (0xF0 + a)" and "y = byte (0x80 + b)" and "z = byte (0x80 + c)" and "w = byte (0x80 + d)"
  have u: "unat x = 0xF0 + a" "unat y = 0x80 + b" "unat z = 0x80 + c" "unat w = 0x80 + d"
    using assms(1-4) by (simp_all add: x_def y_def z_def w_def)
  have "\<not> unat x < 0x80" "\<not> byte_in 0xC2 0xDF x" "\<not> byte_in 0xE0 0xEF x" "byte_in 0xF0 0xF4 x" "byte_in 0x80 0xBF z" "byte_in 0x80 0xBF w"
    "byte_in (if unat x = 0xF0 then 0x90 else 0x80) (if unat x = 0xF4 then 0x8F else 0xBF) y"
    using assms by (auto simp: byte_in_def u)
  then have "utf8_decode (x # y # z # w # bs)
      = point_units ((unat x - 0xF0) * 262144 + (unat y - 0x80) * 4096 + (unat z - 0x80) * 64 + (unat w - 0x80)) @ utf8_decode bs"
    by (simp only: utf8_decode.simps(2) [of x] Let_def list.case if_False if_True not_True_eq_False)
  then show ?thesis by (simp add: u x_def [symmetric] y_def [symmetric] z_def [symmetric] w_def [symmetric])
qed

lemma decode2:
  assumes "128 \<le> n" "n < 2048"
  shows "utf8_decode (byte (0xC0 + n div 64) # byte (0x80 + n mod 64) # bs) = unit n # utf8_decode bs"
proof -
  have "n div 64 < 32" "2 \<le> n div 64" using assms by (auto simp: less_mult_imp_div_less)
  from decode2_step [OF this(2,1), of "n mod 64" bs] show ?thesis by simp
qed

lemma decode3:
  assumes "2048 \<le> n" "n < 65536" "\<not> (0xD800 \<le> n \<and> n \<le> 0xDFFF)"
  shows "utf8_decode (encode3 n @ bs) = unit n # utf8_decode bs"
proof -
  define a b c where "a = n div 4096" and "b = n div 64 mod 64" and "c = n mod 64"
  have a: "a = n div 64 div 64" by (simp add: a_def flip: div_mult2_eq)
  have "a * 64 + b = n div 64" unfolding a b_def by (rule div_mult_mod_eq)
  then have n: "a * 4096 + b * 64 + c = n" using div_mult_mod_eq [of n 64] unfolding c_def by linarith
  have r: "a < 16" "b < 64" "c < 64" using assms(2) by (auto simp: a_def b_def c_def)
  have e: "encode3 n = [byte (0xE0 + a), byte (0x80 + b), byte (0x80 + c)]" by (simp add: encode3_def a_def b_def c_def)
  have "32 \<le> b" if "a = 0" using that assms(1) n r by linarith
  moreover have "b < 32" if "a = 13" using that assms(3) n r by linarith
  ultimately show ?thesis using decode3_step [OF r, of bs] by (simp add: e n)
qed

lemma decode4:
  assumes "0x10000 \<le> n" "n < 0x110000"
  shows "utf8_decode (encode4 n @ bs) = point_units n @ utf8_decode bs"
proof -
  define a b c d where "a = n div 262144" and "b = n div 4096 mod 64" and "c = n div 64 mod 64" and "d = n mod 64"
  have a: "a = n div 64 div 64 div 64" and b: "b = n div 64 div 64 mod 64" by (simp_all add: a_def b_def flip: div_mult2_eq)
  have "a * 64 + b = n div 64 div 64" unfolding a b by (rule div_mult_mod_eq)
  then have "a * 4096 + b * 64 + c = n div 64" using div_mult_mod_eq [of "n div 64" 64] unfolding c_def by linarith
  then have n: "a * 262144 + b * 4096 + c * 64 + d = n" using div_mult_mod_eq [of n 64] unfolding d_def by linarith
  have r: "a < 5" "b < 64" "c < 64" "d < 64" using assms(2) by (auto simp: a_def b_def c_def d_def)
  have e: "encode4 n = [byte (0xF0 + a), byte (0x80 + b), byte (0x80 + c), byte (0x80 + d)]"
    by (simp add: encode4_def a_def b_def c_def d_def)
  have "16 \<le> b" if "a = 0" using that assms(1) n r by linarith
  moreover have "b < 16" if "a = 4" using that assms(2) n r by linarith
  ultimately show ?thesis using decode4_step [OF r, of bs] by (simp add: e n)
qed

lemma surrogate_pair:
  assumes "is_high c" "is_low d"
  shows "0x10000 \<le> surrogate_point c d" "surrogate_point c d < 0x110000" "point_units (surrogate_point c d) = [c, d]"
proof -
  define x y where "x = unat c - 0xD800" and "y = unat d - 0xDC00"
  have c: "unat c = 0xD800 + x" "x < 1024" and d: "unat d = 0xDC00 + y" "y < 1024"
    using assms by (auto simp: is_high_def is_low_def x_def y_def)
  have u: "unit (0xD800 + x) = c" "unit (0xDC00 + y) = d" by (metis c(1) unit_unat, metis d(1) unit_unat)
  show "0x10000 \<le> surrogate_point c d" "surrogate_point c d < 0x110000"
    using c d by (auto simp: surrogate_point_def)
  show "point_units (surrogate_point c d) = [c, d]"
    using c d u by (simp add: point_units_def surrogate_point_def)
qed

lemma utf8_round_trip: "well_formed s \<Longrightarrow> utf8_decode (utf8_encode s @ bs) = s @ utf8_decode bs"
proof (induction s rule: utf8_encode.induct)
  case (2 c cs)
  show ?case
  proof (cases "unat c < 0x800")
    case True
    then have "\<not> is_high c" "\<not> is_low c" by (auto simp: is_high_def is_low_def)
    with 2 True show ?thesis by (cases "unat c < 0x80") (simp_all add: decode1 decode2)
  next
    case False
    show ?thesis
    proof (cases "is_high c")
      case True
      with 2(7) obtain d ds where cs: "cs = d # ds" "is_low d" "well_formed ds" by (auto split: list.splits)
      with 2 False True show ?thesis
        by (simp add: decode4 surrogate_pair)
    next
      case not_high: False
      with 2(7) have "\<not> is_low c" "well_formed cs" by simp_all
      with 2 False not_high unit_lt [of c] show ?thesis
        by (auto simp: decode3 is_high_def is_low_def)
    qed
  qed
qed simp

section \<open>Products of 32-bit integers\<close>

fun uint32 :: "jsnum \<Rightarrow> 32 word" where
  "uint32 (Fin x) = word_of_int (if 0 \<le> x then \<lfloor>x\<rfloor> else \<lceil>x\<rceil>)"
| "uint32 _ = 0"

definition mul32 :: "32 word \<Rightarrow> nat \<Rightarrow> 32 word" where
  "mul32 h p = uint32 (nmul (Fin (of_nat (unat h))) (Fin (of_nat p)))"

definition mul_add32 :: "32 word \<Rightarrow> nat \<Rightarrow> nat \<Rightarrow> 32 word" where
  "mul_add32 h p q = uint32 (nadd (nmul (Fin (of_nat (unat h))) (Fin (of_nat p))) (Fin (of_nat q)))"

text \<open>Rounding of a natural number to 53 bits, computed on naturals.\<close>

function excess_bits :: "nat \<Rightarrow> nat" where
  "excess_bits n = (if n < 9007199254740992 then 0 else Suc (excess_bits (n div 2)))"
  by auto
termination by (relation "measure id") auto

declare excess_bits.simps [simp del]

definition round_div :: "nat \<Rightarrow> nat \<Rightarrow> nat" where
  "round_div n s = (let q = n div 2 ^ s; r = n mod 2 ^ s in
     if 2 * r < 2 ^ s then q else if 2 ^ s < 2 * r then q + 1 else if even q then q else q + 1)"

definition round53 :: "nat \<Rightarrow> nat" where
  "round53 n = (let s = excess_bits n in round_div n s * 2 ^ s)"

lemma excess_bits_range: "excess_bits n = Suc s \<Longrightarrow> 2 ^ (53 + s) \<le> n \<and> n < 2 ^ (54 + s)"
proof (induction s arbitrary: n)
  case 0
  then have "\<not> n < 9007199254740992" "excess_bits (n div 2) = 0" by (simp_all add: excess_bits.simps [of n] split: if_splits)
  then have "n div 2 < 9007199254740992" by (simp add: excess_bits.simps [of "n div 2"] split: if_splits)
  with \<open>\<not> _\<close> show ?case by simp
next
  case (Suc s)
  then have "excess_bits (n div 2) = Suc s" by (simp add: excess_bits.simps [of n] split: if_splits)
  from Suc.IH [OF this] have "2 ^ (53 + s) \<le> n div 2" "n div 2 < 2 ^ (54 + s)" by simp_all
  then show ?case by (simp add: less_eq_div_iff_mult_less_eq div_less_iff_less_mult power_add)
qed

lemma excess_bits_0: "excess_bits n = 0 \<longleftrightarrow> n < 9007199254740992"
  by (simp add: excess_bits.simps [of n])

lemma rne_round_div: "rne (of_nat n / 2 ^ s) = int (round_div n s)"
proof -
  have n: "n = n div 2 ^ s * 2 ^ s + n mod 2 ^ s" by (rule div_mult_mod_eq [symmetric])
  define q r where "q = n div 2 ^ s" and "r = n mod 2 ^ s"
  have r: "r < 2 ^ s" by (simp add: r_def)
  have v: "(of_nat n / 2 ^ s :: rat) = of_nat q + of_nat r / 2 ^ s"
  proof -
    have "(of_nat n :: rat) = of_nat q * 2 ^ s + of_nat r"
      using n unfolding q_def [symmetric] r_def [symmetric] by (metis of_nat_add of_nat_mult of_nat_power of_nat_numeral)
    then show ?thesis by (simp add: add_divide_distrib)
  qed
  have frac: "0 \<le> (of_nat r / 2 ^ s :: rat)" "(of_nat r / 2 ^ s :: rat) < 1"
    using r by (simp_all add: divide_less_eq)
  have fl: "\<lfloor>of_nat n / 2 ^ s :: rat\<rfloor> = int q" using frac unfolding v by (simp add: floor_eq_iff)
  have d: "of_nat n / 2 ^ s - of_int (int q) = (of_nat r / 2 ^ s :: rat)" by (simp add: v)
  have half: "(of_nat r / 2 ^ s :: rat) < 1/2 \<longleftrightarrow> 2 * r < 2 ^ s" "1/2 < (of_nat r / 2 ^ s :: rat) \<longleftrightarrow> 2 ^ s < 2 * r"
    by (simp_all add: field_simps) (metis of_nat_less_iff of_nat_mult of_nat_numeral of_nat_power mult.commute)+
  show ?thesis
    unfolding rne_def round_div_def Let_def fl d half q_def [symmetric] r_def [symmetric] by simp
qed

lemma dbl_round53: "dbl (of_nat n) = of_nat (round53 n)"
proof (cases "excess_bits n")
  case 0
  then have "n \<le> 2 ^ 53" by (simp add: excess_bits_0)
  then show ?thesis using 0 by (simp add: dbl_of_nat round53_def round_div_def)
next
  case (Suc s)
  from excess_bits_range [OF Suc] have b: "2 ^ (53 + s) \<le> n" "n < 2 ^ (54 + s)" by simp_all
  have bq: "(2::rat) ^ (53 + s) \<le> of_nat n" "of_nat n < (2::rat) ^ (54 + s)"
    using b by (metis of_nat_le_iff of_nat_numeral of_nat_power, metis of_nat_less_iff of_nat_numeral of_nat_power)
  have p: "(2::rat) powi (53 + int s) = 2 ^ (53 + s)" "(2::rat) powi (53 + int s + 1) = 2 ^ (54 + s)"
    by (simp_all add: power_int_add power_add)
  have "binade (of_nat n) = 53 + int s" using bq by (intro binade_eq) (simp_all only: p)
  then have u: "ulp (of_nat n) = 2 ^ Suc s" by (simp add: ulp_def power_int_add)
  have "n \<noteq> 0" using b(1) by (cases n) auto
  then show ?thesis
    using rne_round_div [of n "Suc s"] by (simp add: dbl_def u round53_def Suc Let_def del: power_Suc)
qed

lemma num_round53:
  assumes "n < 2 ^ 70"
  shows "num (of_nat n) = Fin (of_nat (round53 n))"
proof -
  have "round53 (2 ^ 70) = 2 ^ 70" by (simp add: round53_def round_div_def excess_bits.simps)
  then have "dbl (2 ^ 70) = 2 ^ 70" using dbl_round53 [of "2 ^ 70"] by simp
  moreover have "(of_nat n :: rat) \<le> 2 ^ 70" using assms by (metis less_imp_le of_nat_le_iff of_nat_numeral of_nat_power)
  ultimately have "dbl (of_nat n) \<le> 2 ^ 70" by (intro dbl_le)
  moreover have "(2::rat) ^ 70 < finite_limit" unfolding finite_limit_def by (intro power_strict_increasing) simp_all
  moreover have "0 \<le> dbl (of_nat n)" by (intro dbl_nonneg) simp
  ultimately show ?thesis using finite_limit_pos by (subst num_Fin) (simp_all add: dbl_round53)
qed

lemma round53_lt: "n < 2 ^ 64 \<Longrightarrow> round53 n \<le> 2 ^ 64"
proof -
  assume n: "n < 2 ^ 64"
  have "round53 (2 ^ 64) = 2 ^ 64" by (simp add: round53_def round_div_def excess_bits.simps)
  then have "dbl (2 ^ 64) = 2 ^ 64" using dbl_round53 [of "2 ^ 64"] by simp
  moreover have "(of_nat n :: rat) \<le> 2 ^ 64" using n by (metis less_imp_le of_nat_le_iff of_nat_numeral of_nat_power)
  ultimately have "dbl (of_nat n) \<le> 2 ^ 64" by (intro dbl_le)
  then show ?thesis by (simp add: dbl_round53)
qed

lemma mul32_eval: "p < 2 ^ 32 \<Longrightarrow> mul32 h p = of_nat (round53 (unat h * p))"
proof -
  assume p: "p < 2 ^ 32"
  have "unat h < 2 ^ 32" using unsigned_less [of h] by simp
  then have "unat h * p < 2 ^ 64" using p mult_strict_mono [of "unat h" "2 ^ 32" p "2 ^ 32"] by simp
  then have "num (of_nat (unat h) * of_nat p) = Fin (of_nat (round53 (unat h * p)))"
    using num_round53 [of "unat h * p"] by simp
  then show ?thesis by (simp add: mul32_def nmul_def)
qed

lemma mul_add32_eval:
  assumes "p < 2 ^ 32" "q < 2 ^ 32"
  shows "mul_add32 h p q = of_nat (round53 (round53 (unat h * p) + q))"
proof -
  have "unat h < 2 ^ 32" using unsigned_less [of h] by simp
  then have b: "unat h * p < 2 ^ 64" using assms(1) mult_strict_mono [of "unat h" "2 ^ 32" p "2 ^ 32"] by simp
  then have m: "num (of_nat (unat h) * of_nat p) = Fin (of_nat (round53 (unat h * p)))"
    using num_round53 [of "unat h * p"] by simp
  have "round53 (unat h * p) + q < 2 ^ 70" using round53_lt [OF b] assms(2) by simp
  then have "num (of_nat (round53 (unat h * p)) + of_nat q) = Fin (of_nat (round53 (round53 (unat h * p) + q)))"
    using num_round53 [of "round53 (unat h * p) + q"] by simp
  with m show ?thesis by (simp add: mul_add32_def nmul_def)
qed

text \<open>Below \<open>2 ^ 53\<close> the product is the one of machine words.\<close>

lemma mul32_exact: "p < 2 ^ 32 \<Longrightarrow> unat h * p < 2 ^ 53 \<Longrightarrow> mul32 h p = h * of_nat p"
  by (simp add: mul32_eval round53_def excess_bits.simps round_div_def)

end
