(* ===== verification/SchemaReader.thy ===== *)
theory SchemaReader
  imports ByteText ToolExecution
begin

unbundle bit_operations_syntax

text \<open>
  The schema area of the shared memory: how the SDK writes it (\<open>app/sdk/src/config_declare.cpp\<close>,
  \<open>app/sdk/include/bs/app/sdk/shm/shm_manager.h\<close>) and how the editor reads it
  (\<open>app/editor/src/shm/schema_reader.ts\<close>): the declarations as JSON text, a hash table of 4096 slots with
  linear probing, the records, a page table and a tree of names. Offsets of the header are natural numbers; a read outside of
  the buffer throws \<open>OutOfRange\<close>. A search over a cyclic chain of siblings does not return (\<open>None\<close>).
\<close>

section \<open>Layout\<close>

definition HASH_SLOT_SIZE :: nat where [simp]: "HASH_SLOT_SIZE = 8"
definition HASH_SLOT_COUNT :: nat where "HASH_SLOT_COUNT = 4096"
definition HASH_INDEX_SIZE :: nat where "HASH_INDEX_SIZE = HASH_SLOT_COUNT * HASH_SLOT_SIZE"
definition FIELD_RECORD_HEADER_SIZE :: nat where [simp]: "FIELD_RECORD_HEADER_SIZE = 8"
definition PAGE_ENTRY_SIZE :: nat where [simp]: "PAGE_ENTRY_SIZE = 8"
definition FIELDS_PER_PAGE :: nat where "FIELDS_PER_PAGE = 64"
definition TRIE_NODE_SIZE :: nat where [simp]: "TRIE_NODE_SIZE = 41"

text \<open>A declaration read from the JSON text has whatever values stand there.\<close>

record field_decl =
  fd_key :: "json option"
  fd_type :: nat
  fd_default :: json
  fd_description :: json
  fd_required :: bool

record trie_node =
  node_name :: jstr
  firstChildOff :: nat
  nextSiblingOff :: nat
  firstFieldOff :: nat

section \<open>Hash\<close>

definition PRIME32_1 :: nat where "PRIME32_1 = 2654435761"
definition PRIME32_2 :: nat where "PRIME32_2 = 2246822519"
definition PRIME32_3 :: nat where "PRIME32_3 = 3266489917"
definition PRIME32_4 :: nat where "PRIME32_4 = 668265263"
definition PRIME32_5 :: nat where "PRIME32_5 = 374761393"

definition rotl :: "nat \<Rightarrow> 32 word \<Rightarrow> 32 word" where
  "rotl k x = push_bit k x OR drop_bit (32 - k) x"

text \<open>The two programs differ in their products only: \<open>mul h p\<close> and \<open>mul_add h p q\<close>.\<close>

fun hash_tail :: "(32 word \<Rightarrow> nat \<Rightarrow> 32 word) \<Rightarrow> bytes \<Rightarrow> 32 word \<Rightarrow> 32 word" where
  "hash_tail mul [] h = h"
| "hash_tail mul (b # bs) h = hash_tail mul bs (mul (rotl 11 (h XOR of_nat (unat b * PRIME32_5))) PRIME32_1)"

fun hash_words :: "(32 word \<Rightarrow> nat \<Rightarrow> 32 word) \<Rightarrow> (32 word \<Rightarrow> nat \<Rightarrow> nat \<Rightarrow> 32 word) \<Rightarrow> bytes \<Rightarrow> 32 word \<Rightarrow> 32 word" where
  "hash_words mul mul_add (a # b # c # d # bs) h =
     (let v = mul (rotl 13 (mul (of_nat (little_endian [a, b, c, d])) PRIME32_2)) PRIME32_1
      in hash_words mul mul_add bs (mul_add (rotl 19 (h XOR v)) PRIME32_1 PRIME32_4))"
| "hash_words mul mul_add bs h = hash_tail mul bs h"

definition hash_finish :: "(32 word \<Rightarrow> nat \<Rightarrow> 32 word) \<Rightarrow> nat \<Rightarrow> 32 word \<Rightarrow> 32 word" where
  "hash_finish mul len h =
     (let h1 = h XOR of_nat len; h2 = mul (h1 XOR drop_bit 15 h1) PRIME32_2; h3 = mul (h2 XOR drop_bit 13 h2) PRIME32_3
      in h3 XOR drop_bit 16 h3)"

definition xxhash32 :: "bytes \<Rightarrow> 32 word" where
  "xxhash32 data = hash_finish mul32 (length data) (hash_words mul32 mul_add32 data (of_nat PRIME32_5))"

definition bs_xxhash32 :: "bytes \<Rightarrow> 32 word" where
  "bs_xxhash32 data =
     hash_finish (\<lambda>h p. h * of_nat p) (length data)
       (hash_words (\<lambda>h p. h * of_nat p) (\<lambda>h p q. h * of_nat p + of_nat q) data (of_nat PRIME32_5))"

section \<open>The writer\<close>

record field_entry =
  d_key :: bytes
  d_default :: bytes
  d_description :: bytes
  d_type :: nat
  d_required :: bool

definition field_record :: "field_entry \<Rightarrow> bytes" where
  "field_record d =
     le_bytes 2 (length (d_key d)) @ le_bytes 2 (length (d_default d)) @ le_bytes 2 (length (d_description d))
     @ le_bytes 1 (d_type d) @ le_bytes 1 (if d_required d then 1 else 0)
     @ d_key d @ d_default d @ d_description d"

type_synonym hash_table = "(nat \<times> nat) list"

fun insert_probe :: "nat \<Rightarrow> nat \<Rightarrow> nat \<Rightarrow> nat \<Rightarrow> hash_table \<Rightarrow> hash_table" where
  "insert_probe 0 idx h off T = T"
| "insert_probe (Suc n) idx h off T =
     (if fst (T ! idx) = 0 then T[idx := (h, off)] else insert_probe n ((idx + 1) mod HASH_SLOT_COUNT) h off T)"

text \<open>The hash of the keys is an argument here; the SDK's is put in below.\<close>

definition hash_index_insert :: "(bytes \<Rightarrow> 32 word) \<Rightarrow> bytes \<Rightarrow> nat \<Rightarrow> hash_table \<Rightarrow> hash_table" where
  "hash_index_insert hash key off T =
     (let h = unat (hash key) in insert_probe HASH_SLOT_COUNT (h mod HASH_SLOT_COUNT) h off T)"

text \<open>Records as long as they fit; each is entered in the table under its offset.\<close>

fun write_fields :: "(bytes \<Rightarrow> 32 word) \<Rightarrow> nat \<Rightarrow> field_entry list \<Rightarrow> bytes \<Rightarrow> hash_table \<Rightarrow> bytes \<times> hash_table" where
  "write_fields hash space [] out T = (out, T)"
| "write_fields hash space (d # ds) out T =
     (if space < length out + length (field_record d) then (out, T)
      else write_fields hash space ds (out @ field_record d) (hash_index_insert hash (d_key d) (length out) T))"

definition table_bytes :: "hash_table \<Rightarrow> bytes" where
  "table_bytes T = concat (map (\<lambda>(h, off). le_bytes 4 h @ le_bytes 4 off) T)"

definition align8 :: "nat \<Rightarrow> nat" where
  "align8 n = (n + 7) div 8 * 8"

text \<open>The area starts out as zeros; the text ends with a zero byte.\<close>

definition json_part :: "nat \<Rightarrow> bytes \<Rightarrow> bytes" where
  "json_part capacity text =
     (let t = (if text = [] then [] else take (if length text < capacity then length text else capacity - 1) text @ [0])
      in t @ replicate (align8 (length t) - length t) 0)"

record schema_area =
  area_bytes :: bytes
  hash_table_offset :: nat
  field_data_offset :: nat
  page_table_offset :: nat
  page_count :: nat

text \<open>Every page of the table stands for all records.\<close>

definition write_schema_by :: "(bytes \<Rightarrow> 32 word) \<Rightarrow> nat \<Rightarrow> bytes \<Rightarrow> field_entry list \<Rightarrow> schema_area" where
  "write_schema_by hash capacity text ds =
     (let j = json_part capacity text; fo = length j + HASH_INDEX_SIZE;
          (out, T) = write_fields hash (capacity - fo) ds [] (replicate HASH_SLOT_COUNT (0, 0));
          pages = (length ds + FIELDS_PER_PAGE - 1) div FIELDS_PER_PAGE
      in \<lparr>area_bytes = j @ table_bytes T @ out @ concat (replicate pages (le_bytes 4 fo @ le_bytes 4 (length out))),
          hash_table_offset = length j, field_data_offset = fo,
          page_table_offset = fo + length out, page_count = pages\<rparr>)"

definition write_schema_to_shm_fields :: "nat \<Rightarrow> bytes \<Rightarrow> field_entry list \<Rightarrow> schema_area" where
  "write_schema_to_shm_fields = write_schema_by bs_xxhash32"

section \<open>Records and lookup\<close>

definition text_at :: "bytes \<Rightarrow> int \<Rightarrow> nat \<Rightarrow> jstr" where
  "text_at buf pos n = utf8_decode (slice buf (nat pos) n)"

definition decodeFieldRecord :: "bytes \<Rightarrow> int \<Rightarrow> field_decl option read" where
  "decodeFieldRecord buf off =
     (if int (length buf) < off + int FIELD_RECORD_HEADER_SIZE then Inr None
      else andThen (read_uint 2 buf off) (\<lambda>keyLen.
           andThen (read_uint 2 buf (off + 2)) (\<lambda>defaultLen.
           andThen (read_uint 2 buf (off + 4)) (\<lambda>descLen.
           andThen (read_uint 1 buf (off + 6)) (\<lambda>type.
           andThen (read_uint 1 buf (off + 7)) (\<lambda>required.
             let pos = off + int FIELD_RECORD_HEADER_SIZE
             in if int (length buf) < pos + int keyLen + int defaultLen + int descLen then Inr None
                else Inr (Some \<lparr>fd_key = Some (JStr (text_at buf pos keyLen)), fd_type = type,
                     fd_default = JStr (text_at buf (pos + int keyLen) defaultLen),
                     fd_description = JStr (text_at buf (pos + int keyLen + int defaultLen) descLen),
                     fd_required = (required \<noteq> 0)\<rparr>)))))))"

fun probe :: "bytes \<Rightarrow> nat \<Rightarrow> nat \<Rightarrow> jstr \<Rightarrow> nat \<Rightarrow> nat \<Rightarrow> nat \<Rightarrow> field_decl option read" where
  "probe buf hto fdo key h 0 idx = Inr None"
| "probe buf hto fdo key h (Suc n) idx =
     (let slotOff = int hto + int (idx * HASH_SLOT_SIZE)
      in if int (length buf) < slotOff + int HASH_SLOT_SIZE then Inr None
         else andThen (read_uint 4 buf slotOff) (\<lambda>hashLow.
              andThen (read_uint 4 buf (slotOff + 4)) (\<lambda>dataOff.
                if hashLow = 0 \<and> dataOff = 0 then Inr None
                else if hashLow = h
                then andThen (decodeFieldRecord buf (int fdo + int dataOff)) (\<lambda>field.
                  if (case field of Some f \<Rightarrow> fd_key f = Some (JStr key) | None \<Rightarrow> False) then Inr field
                  else probe buf hto fdo key h n ((idx + 1) mod HASH_SLOT_COUNT))
                else probe buf hto fdo key h n ((idx + 1) mod HASH_SLOT_COUNT))))"

record schema_reader =
  buffer :: bytes
  hashTableOffset :: nat
  fieldDataOffset :: nat
  jsonCache :: "field_decl list option"
  loadedPages :: "(nat, bytes) jmap"
  pageTableOffset :: nat
  pageCount :: nat
  trieRootOffset :: nat

definition lookup_hashed :: "schema_reader \<Rightarrow> jstr \<Rightarrow> field_decl option read" where
  "lookup_hashed R key =
     (let h = unat (xxhash32 (utf8_encode key))
      in probe (buffer R) (hashTableOffset R) (fieldDataOffset R) key h HASH_SLOT_COUNT (h mod HASH_SLOT_COUNT))"

definition lookup :: "schema_reader \<Rightarrow> jstr \<Rightarrow> field_decl option read" where
  "lookup R key = andThen (lookup_hashed R key) (\<lambda>result. if result \<noteq> None then Inr result else lookup_hashed R key)"

section \<open>The text\<close>

primrec brace_before :: "bytes \<Rightarrow> nat \<Rightarrow> nat option" where
  "brace_before buf 0 = None"
| "brace_before buf (Suc i) = (if buf ! i = 0x7D then Some (Suc i) else brace_before buf i)"

definition detectJsonEnd :: "bytes \<Rightarrow> nat" where
  "detectJsonEnd buf =
     (case brace_before buf (min (length buf) (1024 * 1024)) of None \<Rightarrow> 0
      | Some i \<Rightarrow> i + length (takeWhile (\<lambda>b. b \<le> 0x20) (drop i buf)))"

definition parseFieldType :: "json option \<Rightarrow> nat" where
  "parseFieldType t =
     (if t = Some (JStr (js ''int32'')) then 0 else if t = Some (JStr (js ''int64'')) then 1
      else if t = Some (JStr (js ''string'')) then 2 else if t = Some (JStr (js ''double'')) then 3
      else if t = Some (JStr (js ''bool'')) then 4 else 2)"

definition or_empty :: "json option \<Rightarrow> json" where
  "or_empty v = (case v of None \<Rightarrow> JStr [] | Some JNull \<Rightarrow> JStr [] | Some j \<Rightarrow> j)"

definition json_field :: "json \<Rightarrow> field_decl" where
  "json_field f = \<lparr>fd_key = jfield (js ''key'') f, fd_type = parseFieldType (jfield (js ''type'') f),
     fd_default = or_empty (jfield (js ''default'') f), fd_description = or_empty (jfield (js ''description'') f),
     fd_required = json_truthy (jfield (js ''required'') f)\<rparr>"

definition string_length :: "json \<Rightarrow> nat" where
  "string_length j = (case j of JStr s \<Rightarrow> length s | _ \<Rightarrow> 0)"

text \<open>What the loops add to the offset: the lengths of the texts, in code units.\<close>

definition units_of :: "field_decl \<Rightarrow> nat" where
  "units_of f = (case fd_key f of Some k \<Rightarrow> string_length k | None \<Rightarrow> 0) + string_length (fd_default f) + string_length (fd_description f)"

function scan_records :: "bytes \<Rightarrow> nat \<Rightarrow> field_decl list read" where
  "scan_records buf off =
     (if off + FIELD_RECORD_HEADER_SIZE \<le> length buf then
        (case decodeFieldRecord buf (int off) of
           Inl e \<Rightarrow> Inl e
         | Inr None \<Rightarrow> Inr []
         | Inr (Some f) \<Rightarrow>
             (case scan_records buf (off + FIELD_RECORD_HEADER_SIZE + units_of f) of Inl e \<Rightarrow> Inl e | Inr fs \<Rightarrow> Inr (f # fs)))
      else Inr [])"
  by pat_completeness auto
termination by (relation "measure (\<lambda>(buf, off). length buf - off)") auto

declare scan_records.simps [simp del]

definition scanAllBinary :: "schema_reader \<Rightarrow> field_decl list read \<times> schema_reader" where
  "scanAllBinary R =
     (case scan_records (buffer R) (fieldDataOffset R) of
        Inl e \<Rightarrow> (Inl e, R)
      | Inr fs \<Rightarrow> (Inr fs, R\<lparr>jsonCache := Some fs\<rparr>))"

definition getAllFields :: "(jstr \<Rightarrow> json option) \<Rightarrow> schema_reader \<Rightarrow> field_decl list read \<times> schema_reader" where
  "getAllFields parse R =
     (case jsonCache R of
        Some fs \<Rightarrow> (Inr fs, R)
      | None \<Rightarrow>
          (let n = detectJsonEnd (buffer R)
           in if n = 0 then (Inr [], R)
              else (case parse (text_at (buffer R) 0 n) of
                  Some j \<Rightarrow> (case jfield (js ''fields'') j of
                      Some (JArr xs) \<Rightarrow>
                        (if JNull \<in> set xs then scanAllBinary R
                         else (let fs = map json_field xs in (Inr fs, R\<lparr>jsonCache := Some fs\<rparr>)))
                    | _ \<Rightarrow> scanAllBinary R)
                | None \<Rightarrow> scanAllBinary R)))"

fun keep_prefix :: "jstr \<Rightarrow> field_decl list \<Rightarrow> field_decl list read" where
  "keep_prefix p [] = Inr []"
| "keep_prefix p (f # fs) =
     (case fd_key f of
        Some (JStr k) \<Rightarrow> (case keep_prefix p fs of Inl e \<Rightarrow> Inl e | Inr gs \<Rightarrow> Inr (if starts_with k p then f # gs else gs))
      | _ \<Rightarrow> Inl NotAString)"

definition linear_query :: "(jstr \<Rightarrow> json option) \<Rightarrow> jstr \<Rightarrow> schema_reader \<Rightarrow> field_decl list read \<times> schema_reader" where
  "linear_query parse prefix R = (let (r, R1) = getAllFields parse R in (andThen r (keep_prefix prefix), R1))"

section \<open>Pages\<close>

definition getPageEntry :: "schema_reader \<Rightarrow> nat \<Rightarrow> (nat \<times> nat) option read" where
  "getPageEntry R p =
     (let pos = int (pageTableOffset R + p * PAGE_ENTRY_SIZE)
      in if int (length (buffer R)) < pos + int PAGE_ENTRY_SIZE then Inr None
         else andThen (read_uint 4 (buffer R) pos) (\<lambda>off.
              andThen (read_uint 4 (buffer R) (pos + 4)) (\<lambda>len. Inr (Some (off, len)))))"

definition ensurePageLoaded :: "schema_reader \<Rightarrow> nat \<Rightarrow> bool read \<times> schema_reader" where
  "ensurePageLoaded R p =
     (if mget (loadedPages R) p \<noteq> None then (Inr True, R)
      else if pageTableOffset R = 0 \<or> pageCount R = 0 then (Inr False, R)
      else (case getPageEntry R p of
          Inl e \<Rightarrow> (Inl e, R)
        | Inr None \<Rightarrow> (Inr False, R)
        | Inr (Some (off, len)) \<Rightarrow>
            (if length (buffer R) < off + len then (Inr False, R)
             else (Inr True, R\<lparr>loadedPages := mput p (slice (buffer R) off len) (loadedPages R)\<rparr>))))"

definition record_size :: "bytes \<Rightarrow> nat \<Rightarrow> nat" where
  "record_size page off = FIELD_RECORD_HEADER_SIZE + little_endian (slice page off 2) + little_endian (slice page (off + 2) 2)
     + little_endian (slice page (off + 4) 2)"

fun nth_record :: "bytes \<Rightarrow> nat \<Rightarrow> nat \<Rightarrow> nat option" where
  "nth_record page 0 off = (if off + FIELD_RECORD_HEADER_SIZE \<le> length page then Some off else None)"
| "nth_record page (Suc k) off =
     (if off + FIELD_RECORD_HEADER_SIZE \<le> length page then nth_record page k (off + record_size page off) else None)"

definition getFieldByIndex :: "nat \<Rightarrow> schema_reader \<Rightarrow> field_decl option read \<times> schema_reader" where
  "getFieldByIndex i R =
     (let p = i div FIELDS_PER_PAGE; (ok, R1) = ensurePageLoaded R p
      in (case ok of
            Inl e \<Rightarrow> Inl e
          | Inr False \<Rightarrow> Inr None
          | Inr True \<Rightarrow>
              (case mget (loadedPages R1) p of None \<Rightarrow> Inr None
               | Some page \<Rightarrow>
                   (case nth_record page (i mod FIELDS_PER_PAGE) 0 of None \<Rightarrow> Inr None
                    | Some off \<Rightarrow> andThen (getPageEntry R1 p) (\<lambda>entry. case entry of None \<Rightarrow> Inr None
                        | Some (poff, _) \<Rightarrow> decodeFieldRecord (buffer R1) (int (fieldDataOffset R1 + (poff + off)))))), R1))"

section \<open>The tree of names\<close>

definition decodeTrieNode :: "bytes \<Rightarrow> int \<Rightarrow> trie_node option read" where
  "decodeTrieNode buf off =
     (if int (length buf) < off + int TRIE_NODE_SIZE then Inr None
      else andThen (read_uint 1 buf off) (\<lambda>nameLen.
        if nameLen < 1 \<or> 31 < nameLen then Inr None
        else andThen (read_uint 4 buf (off + 32)) (\<lambda>child.
             andThen (read_uint 4 buf (off + 36)) (\<lambda>sibling.
             andThen (read_uint 4 buf (off + 40)) (\<lambda>field.
               Inr (Some \<lparr>node_name = text_at buf (off + 1) nameLen, firstChildOff = child, nextSiblingOff = sibling, firstFieldOff = field\<rparr>))))))"

partial_function (option) find_sibling :: "bytes \<Rightarrow> (trie_node \<Rightarrow> bool) \<Rightarrow> nat \<Rightarrow> trie_node option read option" where
  "find_sibling buf P off =
     (if off = 0 then Some (Inr None)
      else (case decodeTrieNode buf (int off) of
          Inl e \<Rightarrow> Some (Inl e)
        | Inr None \<Rightarrow> Some (Inr None)
        | Inr (Some child) \<Rightarrow> if P child then Some (Inr (Some child)) else find_sibling buf P (nextSiblingOff child)))"

definition find_child :: "(trie_node \<Rightarrow> bool) \<Rightarrow> bytes \<Rightarrow> int \<Rightarrow> trie_node option read option" where
  "find_child P buf parentOff =
     (case decodeTrieNode buf parentOff of
        Inl e \<Rightarrow> Some (Inl e)
      | Inr None \<Rightarrow> Some (Inr None)
      | Inr (Some parent) \<Rightarrow> find_sibling buf P (firstChildOff parent))"

definition trieFindChild :: "bytes \<Rightarrow> int \<Rightarrow> jstr \<Rightarrow> trie_node option read option" where
  "trieFindChild buf off name = find_child (\<lambda>c. node_name c = name) buf off"

definition trieFindChildPrefix :: "bytes \<Rightarrow> int \<Rightarrow> jstr \<Rightarrow> trie_node option read option" where
  "trieFindChildPrefix buf off prefix =
     find_child (\<lambda>c. starts_with prefix (node_name c) \<or> starts_with (node_name c) prefix) buf off"

function own_fields :: "bytes \<Rightarrow> nat \<Rightarrow> nat \<Rightarrow> field_decl list read" where
  "own_fields buf fdo off =
     (if off = 0 then Inr []
      else (case decodeFieldRecord buf (int (fdo + off)) of
          Inl e \<Rightarrow> Inl e
        | Inr None \<Rightarrow> Inr []
        | Inr (Some f) \<Rightarrow>
            (case own_fields buf fdo (off + FIELD_RECORD_HEADER_SIZE + units_of f) of Inl e \<Rightarrow> Inl e | Inr fs \<Rightarrow> Inr (f # fs))))"
  by pat_completeness auto
termination
  by (relation "measure (\<lambda>(buf, fdo, off). length buf - (fdo + off))") (auto simp: decodeFieldRecord_def split: if_splits)

declare own_fields.simps [simp del]

partial_function (option) collectFieldsFromTrie :: "bytes \<Rightarrow> nat \<Rightarrow> int \<Rightarrow> field_decl list read option" where
  "collectFieldsFromTrie buf fdo off =
     (case decodeTrieNode buf off of
        Inl e \<Rightarrow> Some (Inl e)
      | Inr None \<Rightarrow> Some (Inr [])
      | Inr (Some node) \<Rightarrow>
          (case own_fields buf fdo (firstFieldOff node) of
             Inl e \<Rightarrow> Some (Inl e)
           | Inr own \<Rightarrow>
               Option.bind (if firstChildOff node = 0 then Some (Inr []) else collectFieldsFromTrie buf fdo (int (firstChildOff node)))
                 (\<lambda>c. case c of Inl e \<Rightarrow> Some (Inl e)
                    | Inr below \<Rightarrow>
                        Option.bind (if nextSiblingOff node = 0 then Some (Inr []) else collectFieldsFromTrie buf fdo (int (nextSiblingOff node)))
                          (\<lambda>s. case s of Inl e \<Rightarrow> Some (Inl e) | Inr beside \<Rightarrow> Some (Inr (own @ below @ beside))))))"

text \<open>\<open>buffer.indexOf(text, from)\<close>, -1 when there is none.\<close>

definition index_of_text :: "bytes \<Rightarrow> jstr \<Rightarrow> nat \<Rightarrow> int" where
  "index_of_text buf t from =
     (let pat = utf8_encode t
      in case List.find (\<lambda>i. take (length pat) (drop i buf) = pat) [from..<Suc (length buf) - length pat] of
           None \<Rightarrow> -1 | Some i \<Rightarrow> int i)"

fun walk :: "(jstr \<Rightarrow> json option) \<Rightarrow> jstr \<Rightarrow> jstr list \<Rightarrow> int \<Rightarrow> schema_reader \<Rightarrow> (field_decl list read \<times> schema_reader) option" where
  "walk parse prefix [] cur R = Some (Inr [], R)"
| "walk parse prefix [part] cur R =
     Option.bind (trieFindChildPrefix (buffer R) cur part) (\<lambda>m. case m of
        Inl e \<Rightarrow> Some (Inl e, R)
      | Inr (Some _) \<Rightarrow>
          (case read_uint 4 (buffer R) cur of
             Inl e \<Rightarrow> Some (Inl e, R)
           | Inr _ \<Rightarrow>
               Option.bind (collectFieldsFromTrie (buffer R) (fieldDataOffset R) cur) (\<lambda>fs. Some (andThen fs (keep_prefix prefix), R)))
      | Inr None \<Rightarrow> Some (linear_query parse prefix R))"
| "walk parse prefix (part # q # rest) cur R =
     Option.bind (trieFindChild (buffer R) cur part) (\<lambda>m. case m of
        Inl e \<Rightarrow> Some (Inl e, R)
      | Inr None \<Rightarrow> Some (Inr [], R)
      | Inr (Some child) \<Rightarrow>
          (let next = index_of_text (buffer R) (node_name child) (trieRootOffset R) - 1
           in case decodeTrieNode (buffer R) next of
                Inl e \<Rightarrow> Some (Inl e, R)
              | Inr None \<Rightarrow> Some (Inr [], R)
              | Inr (Some _) \<Rightarrow> walk parse prefix (q # rest) next R))"

definition prefixQuery :: "(jstr \<Rightarrow> json option) \<Rightarrow> jstr \<Rightarrow> schema_reader \<Rightarrow> (field_decl list read \<times> schema_reader) option" where
  "prefixQuery parse prefix R =
     (if trieRootOffset R = 0 then Some (linear_query parse prefix R)
      else walk parse prefix (split_at 0x2E prefix) (int (trieRootOffset R)) R)"

section \<open>Construction\<close>

definition new_reader :: "bytes \<Rightarrow> nat \<Rightarrow> nat \<Rightarrow> nat \<Rightarrow> nat option \<Rightarrow> nat option \<Rightarrow> schema_reader" where
  "new_reader buf pto pc trie hto fdo =
     (let h = (case hto of Some h \<Rightarrow> h | None \<Rightarrow> detectJsonEnd buf)
      in \<lparr>buffer = buf, hashTableOffset = h, fieldDataOffset = (case fdo of Some f \<Rightarrow> f | None \<Rightarrow> h + HASH_INDEX_SIZE),
          jsonCache = None, loadedPages = [], pageTableOffset = pto, pageCount = pc, trieRootOffset = trie\<rparr>)"

datatype schema_data = NoData | InBytes bytes | InText jstr

definition createSchemaReader :: "schema_data \<Rightarrow> nat option \<Rightarrow> nat option \<Rightarrow> nat option \<Rightarrow> schema_reader option" where
  "createSchemaReader data pto pc trie =
     (if data = NoData \<or> data = InText [] then None
      else (let buf = (case data of InBytes b \<Rightarrow> b | InText t \<Rightarrow> utf8_encode t | NoData \<Rightarrow> [])
            in Some (case (pto, pc) of
                 (Some p, Some n) \<Rightarrow> new_reader buf p n (case trie of Some r \<Rightarrow> r | None \<Rightarrow> 0) None None
               | _ \<Rightarrow> new_reader buf 0 0 0 None None)))"


section \<open>Positions\<close>

abbreviation pos_of :: "nat \<Rightarrow> nat \<Rightarrow> nat" where
  "pos_of h i \<equiv> (h + i) mod HASH_SLOT_COUNT"

lemma slots_pos: "0 < HASH_SLOT_COUNT" by (simp add: HASH_SLOT_COUNT_def)

lemma pos_of_lt [simp]: "pos_of h i < HASH_SLOT_COUNT" using slots_pos by simp

lemma pos_of_cases:
  assumes "i < HASH_SLOT_COUNT"
  shows "pos_of h i = (if h mod HASH_SLOT_COUNT + i < HASH_SLOT_COUNT then h mod HASH_SLOT_COUNT + i
    else h mod HASH_SLOT_COUNT + i - HASH_SLOT_COUNT)"
proof -
  let ?a = "h mod HASH_SLOT_COUNT"
  have p: "pos_of h i = (?a + i) mod HASH_SLOT_COUNT" by (rule mod_add_left_eq [symmetric])
  have lt: "?a + i - HASH_SLOT_COUNT < HASH_SLOT_COUNT" using assms slots_pos mod_less_divisor [OF slots_pos, of h] by linarith
  show ?thesis
  proof (cases "?a + i < HASH_SLOT_COUNT")
    case False
    then have "(?a + i) mod HASH_SLOT_COUNT = (?a + i - HASH_SLOT_COUNT) mod HASH_SLOT_COUNT" by (intro le_mod_geq) simp
    with False lt show ?thesis by (simp only: p if_False mod_less)
  qed (simp only: p if_True mod_less)
qed

lemma pos_of_inj: "i < HASH_SLOT_COUNT \<Longrightarrow> j < HASH_SLOT_COUNT \<Longrightarrow> pos_of h i = pos_of h j \<Longrightarrow> i = j"
  using mod_less_divisor [OF slots_pos, of h] pos_of_cases [of i h] pos_of_cases [of j h] by (auto split: if_splits)

lemma pos_of_onto:
  assumes "k < HASH_SLOT_COUNT"
  shows "\<exists>i<HASH_SLOT_COUNT. pos_of h i = k"
proof -
  let ?S = "{..<HASH_SLOT_COUNT}"
  have "pos_of h ` ?S \<subseteq> ?S" by (intro image_subsetI) (simp only: lessThan_iff pos_of_lt)
  moreover have "inj_on (pos_of h) ?S" by (intro inj_onI, rule pos_of_inj) (simp_all only: lessThan_iff)
  ultimately have "pos_of h ` ?S = ?S" by (intro endo_inj_surj finite_lessThan)
  then have "k \<in> pos_of h ` ?S" using assms by (simp only: lessThan_iff)
  then show ?thesis by (elim imageE) (intro exI conjI, simp_all only: lessThan_iff)
qed

section \<open>Insertion\<close>

definition free :: "hash_table \<Rightarrow> nat \<Rightarrow> bool" where
  "free T k \<longleftrightarrow> fst (T ! k) = 0"

lemma insert_probe_first:
  assumes "i + n = HASH_SLOT_COUNT" "i \<le> j" "j < HASH_SLOT_COUNT" "free T (pos_of h j)" "\<And>m. i \<le> m \<Longrightarrow> m < j \<Longrightarrow> \<not> free T (pos_of h m)"
  shows "insert_probe n (pos_of h i) h off T = T[pos_of h j := (h, off)]"
  using assms
proof (induction n arbitrary: i)
  case (Suc n)
  show ?case
  proof (cases "i = j")
    case True
    with Suc.prems show ?thesis by (simp add: free_def)
  next
    case False
    then have "\<not> free T (pos_of h i)" using Suc.prems by auto
    then have "insert_probe (Suc n) (pos_of h i) h off T = insert_probe n (pos_of h (Suc i)) h off T"
      by (simp add: free_def mod_Suc_eq)
    also have "\<dots> = T[pos_of h j := (h, off)]" using Suc.prems False by (intro Suc.IH) auto
    finally show ?thesis .
  qed
qed simp

text \<open>Every entry stands at the first place of its probe sequence that was free, and nothing else does.\<close>

definition holds :: "hash_table \<Rightarrow> nat \<Rightarrow> nat \<Rightarrow> bool" where
  "holds T h off \<longleftrightarrow> (\<exists>j<HASH_SLOT_COUNT. T ! pos_of h j = (h, off) \<and> (\<forall>m<j. \<not> free T (pos_of h m)))"

definition table_ok :: "hash_table \<Rightarrow> (nat \<times> nat) list \<Rightarrow> bool" where
  "table_ok T es \<longleftrightarrow> length T = HASH_SLOT_COUNT
     \<and> (\<forall>(h, off)\<in>set es. h \<noteq> 0 \<and> holds T h off)
     \<and> (\<forall>k<HASH_SLOT_COUNT. if free T k then T ! k = (0, 0) else T ! k \<in> set es)
     \<and> card {k. k < HASH_SLOT_COUNT \<and> \<not> free T k} = length es"

lemma empty_table_ok: "table_ok (replicate HASH_SLOT_COUNT (0, 0)) []"
  by (simp add: table_ok_def free_def)

lemma insert_ok:
  assumes T: "table_ok T es" and room: "length es < HASH_SLOT_COUNT" and h: "h \<noteq> 0"
  shows "table_ok (insert_probe HASH_SLOT_COUNT (h mod HASH_SLOT_COUNT) h off T) (es @ [(h, off)])"
proof -
  let ?N = HASH_SLOT_COUNT
  have "\<exists>k<?N. free T k"
  proof (rule ccontr)
    assume "\<not> (\<exists>k<?N. free T k)"
    then have "{k. k < ?N \<and> \<not> free T k} = {..<?N}" by auto
    then show False using T room by (simp add: table_ok_def)
  qed
  then obtain k where k: "k < ?N" "free T k" by blast
  from pos_of_onto [OF k(1), of h] k(2) obtain i where "i < ?N \<and> free T (pos_of h i)" by blast
  then obtain j where j: "j < ?N" "free T (pos_of h j)" "\<And>m. m < j \<Longrightarrow> \<not> free T (pos_of h m)"
    using exists_least_iff [of "\<lambda>i. i < ?N \<and> free T (pos_of h i)"] by (metis (no_types, lifting) order.strict_trans)
  define p where "p = pos_of h j"
  have p: "p < ?N" "free T p" "length T = ?N" using j T by (simp_all add: p_def table_ok_def)
  have ins: "insert_probe ?N (h mod ?N) h off T = T[p := (h, off)]"
    using insert_probe_first [of 0 ?N j T h off] j by (simp add: p_def)
  have nf: "free (T[p := (h, off)]) k \<longleftrightarrow> free T k \<and> k \<noteq> p" if "k < ?N" for k
    using that p h by (cases "k = p") (simp_all add: free_def)
  have keep: "holds (T[p := (h, off)]) h' off'" if "holds T h' off'" "h' \<noteq> 0" for h' off'
  proof -
    from that(1) obtain i where i: "i < ?N" "T ! pos_of h' i = (h', off')" "\<forall>m<i. \<not> free T (pos_of h' m)"
      by (auto simp: holds_def)
    have "pos_of h' i \<noteq> p" using i(2) p(2) that(2) by (auto simp: free_def)
    then show ?thesis using i nf unfolding holds_def by (intro exI [of _ i]) (auto simp: nth_list_update_neq)
  qed
  have new: "holds (T[p := (h, off)]) h off"
    using j p nf unfolding holds_def by (intro exI [of _ j]) (auto simp: p_def)
  have "{k. k < ?N \<and> \<not> free (T[p := (h, off)]) k} = insert p {k. k < ?N \<and> \<not> free T k}"
    using nf p by auto
  then have c: "card {k. k < ?N \<and> \<not> free (T[p := (h, off)]) k} = Suc (card {k. k < ?N \<and> \<not> free T k})"
    using p(2) by simp
  have slot: "if free (T[p := (h, off)]) k then T[p := (h, off)] ! k = (0, 0) else T[p := (h, off)] ! k \<in> set (es @ [(h, off)])"
    if "k < ?N" for k
    using T that p nf [OF that] unfolding table_ok_def by (cases "k = p") (auto split: if_splits)
  have "\<forall>(h', off')\<in>set (es @ [(h, off)]). h' \<noteq> 0 \<and> holds (T[p := (h, off)]) h' off'"
    using T keep new h unfolding table_ok_def by auto
  moreover have "card {k. k < ?N \<and> \<not> free (T[p := (h, off)]) k} = length (es @ [(h, off)])" using T c by (simp add: table_ok_def)
  moreover have "length (T[p := (h, off)]) = ?N" using p(3) by (simp only: length_list_update)
  ultimately show ?thesis unfolding ins table_ok_def using slot by (intro conjI) (assumption | intro allI impI | erule slot)+
qed

section \<open>What is written is what is read\<close>

definition field_of :: "field_entry \<Rightarrow> field_decl" where
  "field_of d = \<lparr>fd_key = Some (JStr (utf8_decode (d_key d))), fd_type = d_type d, fd_default = JStr (utf8_decode (d_default d)),
     fd_description = JStr (utf8_decode (d_description d)), fd_required = d_required d\<rparr>"

definition entry_ok :: "field_entry \<Rightarrow> bool" where
  "entry_ok d \<longleftrightarrow> length (d_key d) < 65536 \<and> length (d_default d) < 65536 \<and> length (d_description d) < 65536 \<and> d_type d < 256"

lemma read_uint_at:
  assumes "off = int (length xs)" "x < 256 ^ n"
  shows "read_uint n (xs @ le_bytes n x @ zs) off = Inr x"
  using read_uint_le_bytes [OF assms(2)] assms(1) by simp

lemma text_at_part: "off = int (length xs) \<Longrightarrow> n = length ys \<Longrightarrow> text_at (xs @ ys @ zs) off n = utf8_decode ys"
  by (simp add: text_at_def slice_append)

lemma length_field_record: "length (field_record d) = 8 + length (d_key d) + length (d_default d) + length (d_description d)"
  by (simp add: field_record_def)

lemma decode_field_record:
  assumes d: "entry_ok d"
  shows "decodeFieldRecord (xs @ field_record d @ zs) (int (length xs)) = Inr (Some (field_of d))"
proof -
  let ?b = "xs @ field_record d @ zs" and ?o = "int (length xs)"
  note parts = field_record_def append_assoc
  have r: "read_uint 2 ?b ?o = Inr (length (d_key d))"
    using d unfolding parts by (intro read_uint_at) (simp_all add: entry_ok_def)
  have r2: "read_uint 2 ?b (?o + 2) = Inr (length (d_default d))"
    using d read_uint_at [of "?o + 2" "xs @ le_bytes 2 (length (d_key d))" "length (d_default d)" 2]
    unfolding parts by (simp add: entry_ok_def)
  have r4: "read_uint 2 ?b (?o + 4) = Inr (length (d_description d))"
    using d read_uint_at [of "?o + 4" "xs @ le_bytes 2 (length (d_key d)) @ le_bytes 2 (length (d_default d))" "length (d_description d)" 2]
    unfolding parts by (simp add: entry_ok_def)
  have r6: "read_uint 1 ?b (?o + 6) = Inr (d_type d)"
    using d read_uint_at [of "?o + 6" "xs @ le_bytes 2 (length (d_key d)) @ le_bytes 2 (length (d_default d)) @ le_bytes 2 (length (d_description d))"
      "d_type d" 1] unfolding parts by (simp add: entry_ok_def)
  have r7: "read_uint 1 ?b (?o + 7) = Inr (if d_required d then 1 else 0)"
    using read_uint_at [of "?o + 7" "xs @ le_bytes 2 (length (d_key d)) @ le_bytes 2 (length (d_default d)) @ le_bytes 2 (length (d_description d)) @ le_bytes 1 (d_type d)"
      "if d_required d then 1 else 0" 1] unfolding parts by simp
  define hd8 where "hd8 = le_bytes 2 (length (d_key d)) @ le_bytes 2 (length (d_default d)) @ le_bytes 2 (length (d_description d))
     @ le_bytes 1 (d_type d) @ le_bytes 1 (if d_required d then 1 else 0)"
  have b: "?b = (xs @ hd8) @ d_key d @ d_default d @ d_description d @ zs" "length hd8 = 8" by (simp_all add: parts hd8_def)
  have t: "text_at ?b (?o + 8) (length (d_key d)) = utf8_decode (d_key d)"
    "text_at ?b (?o + 8 + int (length (d_key d))) (length (d_default d)) = utf8_decode (d_default d)"
    "text_at ?b (?o + 8 + int (length (d_key d)) + int (length (d_default d))) (length (d_description d)) = utf8_decode (d_description d)"
    using text_at_part [of "?o + 8" "xs @ hd8" "length (d_key d)" "d_key d" "d_default d @ d_description d @ zs"]
      text_at_part [of "?o + 8 + int (length (d_key d))" "(xs @ hd8) @ d_key d" "length (d_default d)" "d_default d" "d_description d @ zs"]
      text_at_part [of "?o + 8 + int (length (d_key d)) + int (length (d_default d))" "(xs @ hd8) @ d_key d @ d_default d" "length (d_description d)" "d_description d" zs]
    unfolding b(1) by (simp_all add: b(2))
  have l: "\<not> int (length ?b) < ?o + int FIELD_RECORD_HEADER_SIZE"
    "\<not> int (length ?b) < ?o + int FIELD_RECORD_HEADER_SIZE + int (length (d_key d)) + int (length (d_default d)) + int (length (d_description d))"
    by (simp_all add: length_field_record)
  show ?thesis
    unfolding decodeFieldRecord_def if_not_P [OF l(1)] r r2 r4 r6 r7 andThen.simps Let_def if_not_P [OF l(2)]
    using t by (simp add: field_of_def)
qed

lemma length_table_bytes: "length (table_bytes T) = 8 * length T"
  by (induction T) (auto simp: table_bytes_def)

lemma read_slot:
  assumes k: "k < length T" and small: "\<forall>(h, off)\<in>set T. h < 2 ^ 32 \<and> off < 2 ^ 32"
  shows "read_uint 4 (xs @ table_bytes T @ zs) (int (length xs) + int (k * 8)) = Inr (fst (T ! k))"
    and "read_uint 4 (xs @ table_bytes T @ zs) (int (length xs) + int (k * 8) + 4) = Inr (snd (T ! k))"
proof -
  obtain h off where e: "T ! k = (h, off)" by force
  have "T = take k T @ (h, off) # drop (Suc k) T" using id_take_nth_drop [OF k] by (simp add: e)
  then have "table_bytes T = table_bytes (take k T) @ (le_bytes 4 h @ le_bytes 4 off) @ table_bytes (drop (Suc k) T)"
    by (metis (no_types, lifting) table_bytes_def map_append concat_append list.simps(9) concat.simps(2) case_prod_conv)
  then have b: "xs @ table_bytes T @ zs = (xs @ table_bytes (take k T)) @ le_bytes 4 h @ le_bytes 4 off @ table_bytes (drop (Suc k) T) @ zs"
    by simp
  have l: "length (table_bytes (take k T)) = k * 8" using k by (simp add: length_table_bytes min_def)
  have s: "h < 256 ^ 4" "off < 256 ^ 4" using small nth_mem [OF k] by (auto simp: e)
  show "read_uint 4 (xs @ table_bytes T @ zs) (int (length xs) + int (k * 8)) = Inr (fst (T ! k))"
    unfolding b e using s(1) l by (subst read_uint_at) simp_all
  show "read_uint 4 (xs @ table_bytes T @ zs) (int (length xs) + int (k * 8) + 4) = Inr (snd (T ! k))"
    unfolding b e using s(2) l read_uint_at [of "int (length xs) + int (k * 8) + 4" "(xs @ table_bytes (take k T)) @ le_bytes 4 h" off 4]
    by simp
qed

definition slots_read :: "bytes \<Rightarrow> nat \<Rightarrow> hash_table \<Rightarrow> bool" where
  "slots_read buf hto T \<longleftrightarrow> (\<forall>k<HASH_SLOT_COUNT. hto + k * 8 + 8 \<le> length buf
     \<and> read_uint 4 buf (int hto + int (k * 8)) = Inr (fst (T ! k)) \<and> read_uint 4 buf (int hto + int (k * 8) + 4) = Inr (snd (T ! k)))"

definition answers :: "bytes \<Rightarrow> nat \<Rightarrow> jstr \<Rightarrow> nat \<Rightarrow> field_decl option \<Rightarrow> bool" where
  "answers buf fdo key off f \<longleftrightarrow> decodeFieldRecord buf (int fdo + int off) = Inr f \<and> f \<noteq> None \<and> fd_key (the f) = Some (JStr key)"

definition passes :: "bytes \<Rightarrow> nat \<Rightarrow> jstr \<Rightarrow> nat \<Rightarrow> nat \<times> nat \<Rightarrow> bool" where
  "passes buf fdo key h s \<longleftrightarrow> s \<noteq> (0, 0)
     \<and> (fst s = h \<longrightarrow> (\<exists>f. decodeFieldRecord buf (int fdo + int (snd s)) = Inr f \<and> (f = None \<or> fd_key (the f) \<noteq> Some (JStr key))))"

lemma probe_step:
  assumes "slots_read buf hto T" "k < HASH_SLOT_COUNT"
  shows "T ! k = (0, 0) \<Longrightarrow> probe buf hto fdo key h (Suc n) k = Inr None"
    and "passes buf fdo key h (T ! k) \<Longrightarrow> probe buf hto fdo key h (Suc n) k = probe buf hto fdo key h n (Suc k mod HASH_SLOT_COUNT)"
    and "T ! k = (h, off) \<Longrightarrow> (h, off) \<noteq> (0, 0) \<Longrightarrow> answers buf fdo key off f \<Longrightarrow> probe buf hto fdo key h (Suc n) k = Inr f"
proof -
  have s: "\<not> int (length buf) < int hto + int (k * HASH_SLOT_SIZE) + int HASH_SLOT_SIZE"
    "read_uint 4 buf (int hto + int (k * 8)) = Inr (fst (T ! k))" "read_uint 4 buf (int hto + int (k * 8) + 4) = Inr (snd (T ! k))"
    using assms unfolding slots_read_def by fastforce+
  note step = probe.simps(2) Let_def if_not_P [OF s(1)]
  show "T ! k = (0, 0) \<Longrightarrow> probe buf hto fdo key h (Suc n) k = Inr None"
    using s(2,3) unfolding step by simp
  show "passes buf fdo key h (T ! k) \<Longrightarrow> probe buf hto fdo key h (Suc n) k = probe buf hto fdo key h n (Suc k mod HASH_SLOT_COUNT)"
    using s(2,3) unfolding step by (cases "T ! k") (auto simp: passes_def split: option.splits)
  show "T ! k = (h, off) \<Longrightarrow> (h, off) \<noteq> (0, 0) \<Longrightarrow> answers buf fdo key off f \<Longrightarrow> probe buf hto fdo key h (Suc n) k = Inr f"
    using s(2,3) unfolding step by (auto simp: answers_def)
qed

lemma probe_hit:
  assumes "slots_read buf hto T" "i + n = HASH_SLOT_COUNT" "i \<le> j" "j < HASH_SLOT_COUNT"
    and "T ! pos_of h j = (h, off)" "(h, off) \<noteq> (0, 0)" "answers buf fdo key off f"
    and "\<And>m. i \<le> m \<Longrightarrow> m < j \<Longrightarrow> passes buf fdo key h (T ! pos_of h m)"
  shows "probe buf hto fdo key h n (pos_of h i) = Inr f"
  using assms
proof (induction n arbitrary: i)
  case (Suc n)
  show ?case
  proof (cases "i = j")
    case True
    show ?thesis by (rule probe_step(3) [OF Suc.prems(1) pos_of_lt _ Suc.prems(6,7)]) (use True Suc.prems(5) in simp)
  next
    case False
    then have "passes buf fdo key h (T ! pos_of h i)" using Suc.prems by auto
    then have "probe buf hto fdo key h (Suc n) (pos_of h i) = probe buf hto fdo key h n (Suc (pos_of h i) mod HASH_SLOT_COUNT)"
      by (rule probe_step(2) [OF Suc.prems(1) pos_of_lt])
    also have "\<dots> = probe buf hto fdo key h n (pos_of h (Suc i))" by (simp only: mod_Suc_eq add_Suc_right)
    also have "\<dots> = Inr f" using Suc.prems False by (intro Suc.IH) auto
    finally show ?thesis .
  qed
qed simp

lemma probe_miss:
  assumes "slots_read buf hto T" "\<And>k. k < HASH_SLOT_COUNT \<Longrightarrow> T ! k = (0, 0) \<or> passes buf fdo key h (T ! k)" "k < HASH_SLOT_COUNT"
  shows "probe buf hto fdo key h n k = Inr None"
  using assms(3)
proof (induction n arbitrary: k)
  case (Suc n)
  have "Suc k mod HASH_SLOT_COUNT < HASH_SLOT_COUNT" using slots_pos by simp
  then show ?case using assms(2) [OF Suc.prems] probe_step [OF assms(1) Suc.prems] Suc.IH by metis
qed simp

lemma lookup_twice: "lookup R key = lookup_hashed R key"
  unfolding lookup_def by (cases "lookup_hashed R key") auto

text \<open>The entries of a list of records, written one behind the other.\<close>

fun entries :: "(bytes \<Rightarrow> 32 word) \<Rightarrow> nat \<Rightarrow> field_entry list \<Rightarrow> (nat \<times> nat) list" where
  "entries hash n [] = []"
| "entries hash n (d # ds) = (unat (hash (d_key d)), n) # entries hash (n + length (field_record d)) ds"

lemma entries_at:
  "(h, off) \<in> set (entries hash n ds) \<longleftrightarrow>
     (\<exists>us d vs. ds = us @ d # vs \<and> h = unat (hash (d_key d)) \<and> off = n + length (concat (map field_record us)))"
proof (induction ds arbitrary: n)
  case (Cons e ds)
  let ?P = "\<lambda>n us d. h = unat (hash (d_key d)) \<and> off = n + length (concat (map field_record us))"
  have "(\<exists>us d vs. e # ds = us @ d # vs \<and> ?P n us d)
      \<longleftrightarrow> ?P n [] e \<or> (\<exists>us d vs. ds = us @ d # vs \<and> ?P n (e # us) d)"
    by (subst Cons_eq_append_conv) blast
  moreover have "?P n (e # us) d \<longleftrightarrow> ?P (n + length (field_record e)) us d" for us d by (simp add: add.assoc)
  ultimately show ?case by (simp add: Cons.IH add.assoc)
qed simp

lemma write_fields_ok:
  assumes "table_ok T es" "length es + length ds \<le> HASH_SLOT_COUNT" "\<forall>d\<in>set ds. hash (d_key d) \<noteq> 0"
    and "length out + length (concat (map field_record ds)) \<le> space"
  shows "\<exists>T'. write_fields hash space ds out T = (out @ concat (map field_record ds), T') \<and> table_ok T' (es @ entries hash (length out) ds)"
  using assms
proof (induction ds arbitrary: out T es)
  case (Cons d ds)
  let ?T = "hash_index_insert hash (d_key d) (length out) T"
  have "table_ok ?T (es @ [(unat (hash (d_key d)), length out)])"
    unfolding hash_index_insert_def Let_def using Cons.prems by (intro insert_ok) (auto simp: unat_eq_0)
  from Cons.IH [OF this, of "out @ field_record d"] Cons.prems show ?case by auto
qed simp

definition keys_ok :: "(bytes \<Rightarrow> 32 word) \<Rightarrow> field_entry list \<Rightarrow> bool" where
  "keys_ok hash ds \<longleftrightarrow> distinct (map d_key ds) \<and> length ds \<le> HASH_SLOT_COUNT
     \<and> (\<forall>d\<in>set ds. entry_ok d \<and> hash (d_key d) \<noteq> 0 \<and> (\<exists>t. well_formed t \<and> d_key d = utf8_encode t))"

text \<open>What the writer leaves in the area, when everything fits: a table that is read slot by slot and records that decode.\<close>

lemma written_area:
  assumes A: "A = write_schema_by hash capacity text ds" and ok: "keys_ok hash ds"
    and fits: "field_data_offset A + length (concat (map field_record ds)) \<le> capacity" and cap: "capacity < 2 ^ 32"
  shows "\<exists>T. table_ok T (entries hash 0 ds) \<and> slots_read (area_bytes A) (hash_table_offset A) T
    \<and> (\<forall>us d vs. ds = us @ d # vs \<longrightarrow>
         decodeFieldRecord (area_bytes A) (int (field_data_offset A) + int (length (concat (map field_record us)))) = Inr (Some (field_of d)))"
proof -
  define j where "j = json_part capacity text"
  let ?out = "concat (map field_record ds)" and ?es = "entries hash 0 ds"
  have fo: "field_data_offset A = length j + HASH_INDEX_SIZE" "hash_table_offset A = length j"
    by (simp_all add: A write_schema_by_def j_def Let_def split: prod.split)
  have "length ?out \<le> capacity - (length j + HASH_INDEX_SIZE)" using fits fo by simp
  then obtain T where w: "write_fields hash (capacity - (length j + HASH_INDEX_SIZE)) ds [] (replicate HASH_SLOT_COUNT (0, 0)) = (?out, T)"
    and T: "table_ok T ?es"
    using write_fields_ok [OF empty_table_ok, of ds hash "[]"] ok by (auto simp: keys_ok_def)
  define rest where "rest = concat (replicate ((length ds + FIELDS_PER_PAGE - 1) div FIELDS_PER_PAGE)
    (le_bytes 4 (length j + HASH_INDEX_SIZE) @ le_bytes 4 (length ?out)))"
  have buf: "area_bytes A = j @ table_bytes T @ ?out @ rest"
    using w by (simp add: A write_schema_by_def j_def [symmetric] Let_def rest_def)
  have lT: "length T = HASH_SLOT_COUNT" using T by (simp add: table_ok_def)
  have entry: "decodeFieldRecord (area_bytes A) (int (field_data_offset A) + int (length (concat (map field_record us)))) = Inr (Some (field_of d))"
    if d: "ds = us @ d # vs" for us d vs
  proof -
    have "area_bytes A = (j @ table_bytes T @ concat (map field_record us)) @ field_record d @ (concat (map field_record vs) @ rest)"
      by (simp add: buf d)
    moreover have "int (field_data_offset A) + int (length (concat (map field_record us))) = int (length (j @ table_bytes T @ concat (map field_record us)))"
      by (simp add: fo length_table_bytes lT HASH_INDEX_SIZE_def)
    moreover have "entry_ok d" using ok d by (simp add: keys_ok_def)
    ultimately show ?thesis by (simp only: decode_field_record)
  qed
  have small: "\<forall>(h, off)\<in>set T. h < 2 ^ 32 \<and> off < 2 ^ 32"
  proof clarify
    fix h off
    assume "(h, off) \<in> set T"
    then obtain k where "k < HASH_SLOT_COUNT" "T ! k = (h, off)" using lT by (metis in_set_conv_nth)
    then have "(h, off) = (0, 0) \<or> (h, off) \<in> set ?es" using T by (auto simp: table_ok_def split: if_splits)
    then show "h < 2 ^ 32 \<and> off < 2 ^ 32"
    proof
      assume "(h, off) \<in> set ?es"
      then obtain us d vs where "ds = us @ d # vs" "h = unat (hash (d_key d))" "off = length (concat (map field_record us))"
        by (auto simp: entries_at)
      moreover from this have "off \<le> length ?out" by simp
      ultimately show ?thesis using fits cap unsigned_less [of "hash (d_key d)"] by simp
    qed simp
  qed
  have "slots_read (area_bytes A) (hash_table_offset A) T"
    unfolding slots_read_def
  proof (intro allI impI conjI)
    fix k assume k: "k < HASH_SLOT_COUNT"
    then show "hash_table_offset A + k * 8 + 8 \<le> length (area_bytes A)" by (simp add: buf fo length_table_bytes lT)
    show "read_uint 4 (area_bytes A) (int (hash_table_offset A) + int (k * 8)) = Inr (fst (T ! k))"
      "read_uint 4 (area_bytes A) (int (hash_table_offset A) + int (k * 8) + 4) = Inr (snd (T ! k))"
      using read_slot [OF _ small, of k j "?out @ rest"] k lT unfolding buf fo by simp_all
  qed
  with T entry show ?thesis by blast
qed

text \<open>C3: Reading back what was written, with the offsets the writer used: a lookup never throws, and finds exactly the declaration whose key it asks
  for, provided that the hash the writer used for it is the reader's; a declaration entered under another hash is not found.\<close>

theorem lookup_of_written:
  assumes A: "A = write_schema_by hash capacity text ds" and ok: "keys_ok hash ds"
    and fits: "field_data_offset A + length (concat (map field_record ds)) \<le> capacity" "capacity < 2 ^ 32"
    and R: "buffer R = area_bytes A" "hashTableOffset R = hash_table_offset A" "fieldDataOffset R = field_data_offset A"
    and k: "well_formed k"
  shows "lookup R k = Inr (map_option field_of (List.find (\<lambda>d. d_key d = utf8_encode k \<and> hash (d_key d) = xxhash32 (d_key d)) ds))"
proof -
  let ?h = "unat (xxhash32 (utf8_encode k))" and ?N = HASH_SLOT_COUNT
  obtain T where T: "table_ok T (entries hash 0 ds)" and sr: "slots_read (area_bytes A) (hash_table_offset A) T"
    and dec: "\<And>us d vs. ds = us @ d # vs \<Longrightarrow>
         decodeFieldRecord (area_bytes A) (int (field_data_offset A) + int (length (concat (map field_record us)))) = Inr (Some (field_of d))"
    using written_area [OF A ok fits] by blast
  let ?pass = "\<lambda>i. passes (area_bytes A) (field_data_offset A) k ?h (T ! i)"
  have key: "fd_key (field_of d) = Some (JStr k) \<Longrightarrow> d_key d = utf8_encode k" if "d \<in> set ds" for d
    using that ok utf8_round_trip [of _ "[]"] by (fastforce simp: keys_ok_def field_of_def)
  have slot: "?pass i \<or> (\<exists>d\<in>set ds. \<exists>off. T ! i = (?h, off) \<and> (?h, off) \<noteq> (0, 0) \<and> d_key d = utf8_encode k \<and> hash (d_key d) = xxhash32 (d_key d)
        \<and> answers (area_bytes A) (field_data_offset A) k off (Some (field_of d)))"
    if "i < ?N" "\<not> free T i" for i
  proof -
    obtain h off where e: "T ! i = (h, off)" by force
    then have mem: "(h, off) \<in> set (entries hash 0 ds)" using T that by (auto simp: table_ok_def)
    have nz: "h \<noteq> 0" using that(2) e by (simp add: free_def)
    from mem dec obtain d where d: "d \<in> set ds" "h = unat (hash (d_key d))"
      "decodeFieldRecord (area_bytes A) (int (field_data_offset A) + int off) = Inr (Some (field_of d))" by (fastforce simp: entries_at)
    show ?thesis
    proof (cases "h = ?h \<and> fd_key (field_of d) = Some (JStr k)")
      case True
      then have k: "d_key d = utf8_encode k" and "unat (hash (d_key d)) = ?h" using key [OF d(1)] d(2) by simp_all
      then have "hash (d_key d) = xxhash32 (d_key d)" by (simp add: word_unat_eq_iff)
      with k d True nz show ?thesis by (intro disjI2 bexI [of _ d] exI [of _ off]) (simp_all add: e answers_def)
    next
      case False
      with d(3) nz show ?thesis by (auto simp: passes_def e)
    qed
  qed
  show ?thesis
  proof (cases "List.find (\<lambda>d. d_key d = utf8_encode k \<and> hash (d_key d) = xxhash32 (d_key d)) ds")
    case None
    then have none: "\<not> (\<exists>d\<in>set ds. d_key d = utf8_encode k \<and> hash (d_key d) = xxhash32 (d_key d))" by (auto simp: find_None_iff)
    have "T ! i = (0, 0) \<or> ?pass i" if "i < ?N" for i
      using slot [OF that] none T that by (cases "free T i") (auto simp: table_ok_def)
    from probe_miss [OF sr this] show ?thesis
      by (simp add: None lookup_twice lookup_hashed_def R Let_def slots_pos)
  next
    case (Some d)
    then have d: "d \<in> set ds" "d_key d = utf8_encode k" "hash (d_key d) = xxhash32 (d_key d)" by (auto simp: find_Some_iff)
    have only: "d' = d" if "d' \<in> set ds" "d_key d' = utf8_encode k" for d'
      using that d ok by (auto simp: keys_ok_def distinct_map inj_on_def)
    from split_list [OF d(1)] obtain us vs where ds: "ds = us @ d # vs" by blast
    let ?off = "length (concat (map field_record us))"
    have mem: "(?h, ?off) \<in> set (entries hash 0 ds)" unfolding entries_at using ds d by (intro exI [of _ us] exI [of _ d] exI [of _ vs]) simp
    with T have nz: "?h \<noteq> 0" and "holds T ?h ?off" by (auto simp: table_ok_def)
    then obtain j where j: "j < ?N" "T ! pos_of ?h j = (?h, ?off)" "\<forall>m<j. \<not> free T (pos_of ?h m)" unfolding holds_def by blast
    define i where "i = (LEAST m. \<not> ?pass (pos_of ?h m))"
    have "fd_key (field_of d) = Some (JStr k)" using utf8_round_trip [OF k, of "[]"] by (simp add: field_of_def d(2))
    then have notpass: "\<not> ?pass (pos_of ?h j)" using dec [OF ds] by (simp add: passes_def j(2))
    then have i: "i \<le> j" "\<not> ?pass (pos_of ?h i)" unfolding i_def by (rule Least_le, rule LeastI)
    have before: "?pass (pos_of ?h m)" if "m < i" for m using not_less_Least [OF that [unfolded i_def]] by blast
    have "\<not> free T (pos_of ?h i)" using i(1) j nz by (cases "i = j") (auto simp: free_def)
    from slot [OF pos_of_lt this] i(2) obtain d' off where d': "d' \<in> set ds" "T ! pos_of ?h i = (?h, off)" "(?h, off) \<noteq> (0, 0)"
      "d_key d' = utf8_encode k" "answers (area_bytes A) (field_data_offset A) k off (Some (field_of d'))" by blast
    have "probe (area_bytes A) (hash_table_offset A) (field_data_offset A) k ?h ?N (pos_of ?h 0) = Inr (Some (field_of d'))"
      by (rule probe_hit [OF sr _ _ _ d'(2,3,5)]) (use i(1) j(1) before in auto)
    then show ?thesis using only [OF d'(1,4)] by (simp add: Some lookup_twice lookup_hashed_def R Let_def)
  qed
qed

text \<open>One declaration, \<open>a\<close>: found when the writer uses the reader's hash, lost when it uses its own.\<close>

lemma excess_bits_numeral: "excess_bits (numeral k) = (if (numeral k :: nat) < 9007199254740992 then 0 else Suc (excess_bits (numeral k div 2)))"
  by (rule excess_bits.simps)

lemma mul32_numeral: "(numeral p :: nat) < 2 ^ 32 \<Longrightarrow> mul32 (numeral h) (numeral p) = of_nat (round53 (unat (numeral h :: 32 word) * numeral p))"
  by (rule mul32_eval)

lemma reader_steps:
  "(374761393 :: 32 word) XOR of_nat (unat (0x61 :: 8 word) * 374761393) = 1626025376"
  "rotl 11 1626025376 = 1500316423"
  "mul32 1500316423 2654435761 = 1397646848"
  "(1397646848 :: 32 word) XOR 1 = 1397646849"
  "(1397646849 :: 32 word) XOR drop_bit 15 1397646849 = 1397670045"
  "mul32 1397670045 2246822519 = 1052142080"
  "(1052142080 :: 32 word) XOR drop_bit 13 1052142080 = 1052221363"
  "mul32 1052221363 3266489917 = 1891809280"
  "(1891809280 :: 32 word) XOR drop_bit 16 1891809280 = 1891813570"
  by (simp_all add: rotl_def mul32_numeral round53_def round_div_def excess_bits_numeral)

lemma writer_steps:
  "(374761393 :: 32 word) XOR of_nat (unat (0x61 :: 8 word) * 374761393) = 1626025376"
  "rotl 11 1626025376 = 1500316423"
  "(1500316423 :: 32 word) * 2654435761 = 1397647063"
  "(1397647063 :: 32 word) XOR 1 = 1397647062"
  "(1397647062 :: 32 word) XOR drop_bit 15 1397647062 = 1397669962"
  "(1397669962 :: 32 word) * 2246822519 = 3544434278"
  "(3544434278 :: 32 word) XOR drop_bit 13 3544434278 = 3544538232"
  "(3544538232 :: 32 word) * 3266489917 = 3083901080"
  "(3083901080 :: 32 word) XOR drop_bit 16 3083901080 = 3083874120"
  by (simp_all add: rotl_def mul32_numeral round53_def round_div_def excess_bits_numeral)

lemmas hash_defs = hash_finish_def hash_words.simps hash_tail.simps PRIME32_1_def PRIME32_2_def PRIME32_3_def PRIME32_4_def PRIME32_5_def Let_def
  of_nat_numeral

lemma one_byte: "of_nat (length [0x61 :: 8 word]) = (1 :: 32 word)"
  by simp

lemma hashes_of_a: "xxhash32 [0x61] = 1891813570" "bs_xxhash32 [0x61] = 3083874120"
  by (simp_all only: xxhash32_def bs_xxhash32_def hash_defs one_byte reader_steps writer_steps)

definition field_a :: field_entry where
  "field_a = \<lparr>d_key = [0x61], d_default = [], d_description = [], d_type = 2, d_required = True\<rparr>"

lemma lookup_of_written_witness:
  "let A = write_schema_by xxhash32 40000 [] [field_a]; B = write_schema_to_shm_fields 40000 [] [field_a]
   in lookup (new_reader (area_bytes A) 0 0 0 (Some (hash_table_offset A)) (Some (field_data_offset A))) (js ''a'') = Inr (Some (field_of field_a))
      \<and> lookup (new_reader (area_bytes B) 0 0 0 (Some (hash_table_offset B)) (Some (field_data_offset B))) (js ''a'') = Inr None"
proof -
  have u: "well_formed (js ''a'')" "utf8_encode (js ''a'') = [0x61]"
    by (simp_all add: js_def is_high_def is_low_def byte_def)
  have k: "keys_ok hash [field_a]" if "hash [0x61] \<noteq> 0" for hash
    using that u by (auto simp: keys_ok_def entry_ok_def field_a_def HASH_SLOT_COUNT_def intro: exI [of _ "js ''a''"])
  have j: "json_part 40000 [] = []" by (simp add: json_part_def align8_def)
  have f: "field_data_offset (write_schema_by hash 40000 [] [field_a]) + length (concat (map field_record [field_a])) \<le> 40000" for hash
    by (simp add: write_schema_by_def j length_field_record field_a_def HASH_INDEX_SIZE_def HASH_SLOT_COUNT_def Let_def split: prod.split)
  let ?A = "write_schema_by xxhash32 40000 [] [field_a]" and ?B = "write_schema_by bs_xxhash32 40000 [] [field_a]"
  have a: "xxhash32 [0x61] \<noteq> 0" "bs_xxhash32 [0x61] \<noteq> 0" "bs_xxhash32 [0x61] \<noteq> xxhash32 [0x61]" by (simp_all add: hashes_of_a)
  let ?R = "\<lambda>A. new_reader (area_bytes A) 0 0 0 (Some (hash_table_offset A)) (Some (field_data_offset A))"
  have r: "buffer (?R A) = area_bytes A" "hashTableOffset (?R A) = hash_table_offset A" "fieldDataOffset (?R A) = field_data_offset A" for A
    by (simp_all add: new_reader_def)
  have ka: "d_key field_a = [0x61]" by (simp add: field_a_def)
  have "lookup (?R ?A) (js ''a'') = Inr (Some (field_of field_a))"
    using lookup_of_written [OF refl k [of xxhash32, OF a(1)] f [of xxhash32] _ r [of ?A] u(1)] by (simp add: u(2) ka)
  moreover have "lookup (?R ?B) (js ''a'') = Inr None"
    using lookup_of_written [OF refl k [of bs_xxhash32, OF a(2)] f [of bs_xxhash32] _ r [of ?B] u(1)] a(3) by (simp add: u(2) ka)
  ultimately show ?thesis by (simp only: write_schema_to_shm_fields_def Let_def simp_thms)
qed

section \<open>Errors and bounds\<close>

lemma decode_total:
  assumes "0 \<le> off"
  shows "\<exists>f. decodeFieldRecord buf off = Inr f"
proof (cases "int (length buf) < off + 8")
  case False
  with assms have "\<exists>x. read_uint n buf (off + int i) = Inr x" if "i + n \<le> 8" for n i
    using that by (intro read_uint_total) auto
  from this [of 0 2] this [of 2 2] this [of 4 2] this [of 6 1] this [of 7 1]
  obtain a b c d e where "read_uint 2 buf off = Inr a" "read_uint 2 buf (off + 2) = Inr b" "read_uint 2 buf (off + 4) = Inr c"
    "read_uint 1 buf (off + 6) = Inr d" "read_uint 1 buf (off + 7) = Inr e" by auto
  then show ?thesis by (simp add: decodeFieldRecord_def Let_def)
qed (simp add: decodeFieldRecord_def)

lemma probe_total: "\<exists>f. probe buf hto fdo key h n idx = Inr f \<and> (\<forall>g. f = Some g \<longrightarrow> fd_key g = Some (JStr key))"
proof (induction n arbitrary: idx)
  case (Suc n)
  show ?case
  proof (cases "int (length buf) < int hto + int (idx * 8) + 8")
    case False
    then obtain a b where r: "read_uint 4 buf (int hto + int (idx * 8)) = Inr a" "read_uint 4 buf (int hto + int (idx * 8) + 4) = Inr b"
      using read_uint_total [of "int hto + int (idx * 8)" 4 buf] read_uint_total [of "int hto + int (idx * 8) + 4" 4 buf] by auto
    obtain f where "decodeFieldRecord buf (int fdo + int b) = Inr f" using decode_total [of "int fdo + int b" buf] by auto
    with r False Suc [of "(idx + 1) mod HASH_SLOT_COUNT"] show ?thesis by (auto simp: Let_def split: option.split)
  qed simp
qed simp

text \<open>Whatever the bytes of the buffer and wherever the offsets point, a lookup ends without an exception, after at most 4096 slots, and what it
  returns has the key that was asked for.\<close>

theorem lookup_total: "\<exists>f. lookup R k = Inr f \<and> (\<forall>g. f = Some g \<longrightarrow> fd_key g = Some (JStr k))"
  unfolding lookup_twice lookup_hashed_def Let_def by (rule probe_total)

lemma lookup_total_witness:
  "\<exists>f. lookup (new_reader [0x7D] 0 0 0 None None) (js ''a'') = Inr f \<and> (\<forall>g. f = Some g \<longrightarrow> fd_key g = Some (JStr (js ''a'')))"
  by (rule lookup_total)

text \<open>A node of the tree is taken to have 41 bytes but 44 are read: reading one throws exactly when its name is valid and the buffer
  ends inside its last three bytes.\<close>

theorem node_reading:
  assumes "off < length buf"
  shows "decodeTrieNode buf (int off) = Inl OutOfRange \<longleftrightarrow>
    off + 41 \<le> length buf \<and> length buf < off + 44 \<and> 1 \<le> unat (buf ! off) \<and> unat (buf ! off) \<le> 31"
proof -
  have n: "read_uint 1 buf (int off) = Inr (unat (buf ! off))"
    using assms by (simp add: read_uint_def slice_def flip: Cons_nth_drop_Suc)
  show ?thesis
  proof (cases "off + 41 \<le> length buf")
    case True
    have "\<exists>x. read_uint 4 buf (int off + 32) = Inr x" "\<exists>x. read_uint 4 buf (int off + 36) = Inr x"
      using True by (auto intro!: read_uint_total)
    then obtain a b where ab: "read_uint 4 buf (int off + 32) = Inr a" "read_uint 4 buf (int off + 36) = Inr b" by auto
    show ?thesis
    proof (cases "length buf < off + 44")
      case short: True
      then have "read_uint 4 buf (int off + 40) = Inl OutOfRange" by (simp add: read_uint_def)
      with True short show ?thesis by (auto simp: decodeTrieNode_def n [unfolded One_nat_def] ab)
    next
      case False
      then obtain c where "read_uint 4 buf (int off + 40) = Inr c" using read_uint_total [of "int off + 40" 4 buf] by auto
      with True False show ?thesis by (auto simp: decodeTrieNode_def n [unfolded One_nat_def] ab)
    qed
  qed (simp add: decodeTrieNode_def)
qed

lemma node_reading_witness: "decodeTrieNode (1 # replicate 40 0) (int 0) = Inl OutOfRange"
  by (subst node_reading) simp_all

lemma keep_prefix_sound: "keep_prefix p fs = Inr gs \<Longrightarrow> \<forall>f\<in>set gs. \<exists>k. fd_key f = Some (JStr k) \<and> starts_with k p"
  by (induction p fs arbitrary: gs rule: keep_prefix.induct) (auto split: option.splits json.splits sum.splits if_splits)

lemma linear_query_sound:
  "linear_query parse p R = (Inr gs, R') \<Longrightarrow> f \<in> set gs \<Longrightarrow> \<exists>k. fd_key f = Some (JStr k) \<and> starts_with k p"
  using keep_prefix_sound [of p] by (auto simp: linear_query_def andThen_Inr split: prod.splits)

lemma walk_sound:
  "walk parse p parts cur R = Some (Inr gs, R') \<Longrightarrow> f \<in> set gs \<Longrightarrow> \<exists>k. fd_key f = Some (JStr k) \<and> starts_with k p"
proof (induction parse p parts cur R rule: walk.induct)
  case (2 parse p part cur R)
  from 2(1) obtain m :: "trie_node option read" where m: "(case m of Inl e \<Rightarrow> Some (Inl e, R)
      | Inr (Some _) \<Rightarrow> (case read_uint 4 (buffer R) cur of Inl e \<Rightarrow> Some (Inl e, R)
           | Inr _ \<Rightarrow> Option.bind (collectFieldsFromTrie (buffer R) (fieldDataOffset R) cur) (\<lambda>fs. Some (andThen fs (keep_prefix p), R)))
      | Inr None \<Rightarrow> Some (linear_query parse p R)) = Some (Inr gs, R')"
    by (auto simp only: walk.simps bind_eq_Some_conv)
  show ?case
  proof (cases "m = Inr None")
    case True
    with m show ?thesis using linear_query_sound [OF _ 2(2)] by simp
  next
    case False
    with m obtain fs where "keep_prefix p fs = Inr gs"
      by (cases m) (auto simp: bind_eq_Some_conv andThen_Inr split: option.splits sum.splits)
    from keep_prefix_sound [OF this] 2(2) show ?thesis by blast
  qed
next
  case (3 parse p part q rest cur R)
  from 3(2) obtain m where m: "trieFindChild (buffer R) cur part = Some m" by (auto simp only: walk.simps bind_eq_Some_conv)
  show ?case
  proof (cases "\<exists>child n. m = Inr (Some child) \<and> decodeTrieNode (buffer R) (index_of_text (buffer R) (node_name child) (trieRootOffset R) - 1) = Inr (Some n)")
    case True
    then obtain child n where c: "m = Inr (Some child)"
      "decodeTrieNode (buffer R) (index_of_text (buffer R) (node_name child) (trieRootOffset R) - 1) = Inr (Some n)" by blast
    with 3(2) m have "walk parse p (q # rest) (index_of_text (buffer R) (node_name child) (trieRootOffset R) - 1) R = Some (Inr gs, R')"
      by (simp add: Let_def)
    with 3(1) [OF m c(1) refl refl c(2) refl] 3(3) show ?thesis by blast
  next
    case False
    with 3(2) m have "gs = []" by (auto simp: Let_def split: sum.splits option.splits)
    with 3(3) show ?thesis by simp
  qed
qed simp

text \<open>Whatever a query for a prefix returns, by the tree or by the list, has a key with that prefix.\<close>

theorem prefix_query_sound:
  assumes "prefixQuery parse p R = Some (Inr gs, R')" "f \<in> set gs"
  shows "\<exists>k. fd_key f = Some (JStr k) \<and> starts_with k p"
  using assms walk_sound linear_query_sound by (fastforce simp: prefixQuery_def split: if_splits)

lemma prefix_query_sound_witness:
  "\<exists>R' f gs. prefixQuery (\<lambda>s. None) (js ''a'') (new_reader [] 0 0 0 (Some 0) None\<lparr>jsonCache := Some [field_of field_a]\<rparr>) = Some (Inr gs, R')
     \<and> f \<in> set gs \<and> (\<exists>k. fd_key f = Some (JStr k) \<and> starts_with k (js ''a''))"
proof -
  let ?R = "new_reader [] 0 0 0 (Some 0) None\<lparr>jsonCache := Some [field_of field_a]\<rparr>"
  have q: "prefixQuery (\<lambda>s. None) (js ''a'') ?R = Some (Inr [field_of field_a], ?R)"
    by (simp add: prefixQuery_def linear_query_def getAllFields_def new_reader_def field_of_def field_a_def js_def
        utf8_decode.simps(2) unit_def Let_def)
  then show ?thesis using prefix_query_sound [OF q, of "field_of field_a"] by auto
qed

section \<open>Reading all records\<close>

definition plain_text :: "bytes \<Rightarrow> bool" where
  "plain_text bs \<longleftrightarrow> (\<forall>b\<in>set bs. unat b < 128)"

lemma plain_decode: "plain_text bs \<Longrightarrow> length (utf8_decode bs) = length bs"
  by (induction bs) (simp_all add: plain_text_def utf8_decode.simps(2))

definition plain_entry :: "field_entry \<Rightarrow> bool" where
  "plain_entry d \<longleftrightarrow> plain_text (d_key d) \<and> plain_text (d_default d) \<and> plain_text (d_description d)"

lemma units_plain: "plain_entry d \<Longrightarrow> 8 + units_of (field_of d) = length (field_record d)"
  by (simp add: plain_entry_def units_of_def field_of_def string_length_def plain_decode length_field_record)

text \<open>Records of ASCII texts, written one behind the other up to the end of the buffer, are all read back by the scan, in their order.\<close>

theorem scan_of_records:
  assumes "\<forall>d\<in>set ds. entry_ok d \<and> plain_entry d"
  shows "scan_records (xs @ concat (map field_record ds)) (length xs) = Inr (map field_of ds)"
  using assms
proof (induction ds arbitrary: xs)
  case Nil
  then show ?case by (simp add: scan_records.simps)
next
  case (Cons d ds)
  let ?b = "xs @ field_record d @ concat (map field_record ds)"
  have d: "decodeFieldRecord ?b (int (length xs)) = Inr (Some (field_of d))"
    using Cons.prems by (intro decode_field_record) simp
  have n: "length xs + 8 + units_of (field_of d) = length xs + length (field_record d)" "8 \<le> length (field_record d)"
    using Cons.prems units_plain [of d] by (simp_all add: length_field_record)
  have "scan_records ?b (length xs) =
      (case scan_records ?b (length (xs @ field_record d)) of Inl e \<Rightarrow> Inl e | Inr fs \<Rightarrow> Inr (field_of d # fs))"
    using n(2) by (subst scan_records.simps) (simp add: d n(1))
  also have "\<dots> = Inr (map field_of (d # ds))"
    using Cons.IH [of "xs @ field_record d"] Cons.prems by simp
  finally show ?case by simp
qed

text \<open>A text outside of ASCII has fewer code units than bytes: the scan goes on inside the record and loses the rest.\<close>

definition accented :: field_entry where
  "accented = field_a\<lparr>d_description := [0xC3, 0xA9]\<rparr>"

lemma scan_stops_after_accent:
  "scan_records (field_record accented @ field_record field_a) 0 = Inr [field_of accented]"
  "decodeFieldRecord (field_record accented @ field_record field_a) 11 = Inr (Some (field_of field_a))"
proof -
  let ?b = "field_record accented @ field_record field_a"
  have b: "?b = [1, 0, 0, 0, 2, 0, 2, 1, 0x61, 0xC3, 0xA9, 1, 0, 0, 0, 0, 0, 2, 1, 0x61]"
    by (simp add: field_record_def accented_def field_a_def numeral_2_eq_2)
  have e: "entry_ok accented" "entry_ok field_a" by (simp_all add: entry_ok_def accented_def field_a_def)
  have u: "units_of (field_of accented) = 2"
    by (simp add: units_of_def field_of_def accented_def field_a_def string_length_def utf8_decode.simps(2) byte_in_def)
  have "decodeFieldRecord ?b 0 = Inr (Some (field_of accented))" using decode_field_record [OF e(1), of "[]"] by simp
  moreover have "decodeFieldRecord ?b 10 = Inr None"
    unfolding b by (simp add: decodeFieldRecord_def read_uint_def slice_def numeral_2_eq_2 Let_def)
  ultimately show "scan_records ?b 0 = Inr [field_of accented]"
    by (subst scan_records.simps, simp add: u length_field_record) (subst scan_records.simps, simp)
  show "decodeFieldRecord ?b 11 = Inr (Some (field_of field_a))"
    using decode_field_record [OF e(2), of "field_record accented" "[]"] by (simp add: length_field_record accented_def field_a_def)
qed

lemma scan_of_records_witness:
  "scan_records ([] @ concat (map field_record [field_a, field_a])) (length ([] :: bytes)) = Inr (map field_of [field_a, field_a])"
  by (rule scan_of_records) (simp add: entry_ok_def plain_entry_def plain_text_def field_a_def)

section \<open>Offsets that do not fit together\<close>

lemma area_layout:
  assumes "A = write_schema_by hash capacity text ds"
  shows "\<exists>T out. area_bytes A = json_part capacity text @ table_bytes T @ out
       @ concat (replicate (page_count A) (le_bytes 4 (field_data_offset A) @ le_bytes 4 (length out)))
     \<and> length T = HASH_SLOT_COUNT \<and> page_table_offset A = field_data_offset A + length out
     \<and> field_data_offset A = length (json_part capacity text) + HASH_INDEX_SIZE \<and> hash_table_offset A = length (json_part capacity text)"
proof -
  have len: "length (snd (write_fields hash space ds out T)) = length T" for space out T
  proof (induction ds arbitrary: out T)
    case (Cons d ds)
    have "length (insert_probe n i h off T) = length T" for n i h off T
      by (induction n i h off T rule: insert_probe.induct) auto
    with Cons show ?case by (simp add: hash_index_insert_def Let_def)
  qed simp
  let ?w = "write_fields hash (capacity - (length (json_part capacity text) + HASH_INDEX_SIZE)) ds [] (replicate HASH_SLOT_COUNT (0, 0))"
  show ?thesis
    using len [of "capacity - (length (json_part capacity text) + HASH_INDEX_SIZE)" "[]" "replicate HASH_SLOT_COUNT (0, 0)"]
    by (intro exI [of _ "snd ?w"] exI [of _ "fst ?w"]) (simp add: assms write_schema_by_def Let_def split: prod.split)
qed

text \<open>The pages of the writer start at an offset of the whole area, and the reader adds it to the start of the records once more: as long
  as the area ends before twice that start, no declaration is found by its index.\<close>

theorem pages_are_unreadable:
  assumes A: "A = write_schema_to_shm_fields capacity text ds" and small: "length (area_bytes A) < 2 * field_data_offset A + 8"
    and cap: "length (area_bytes A) < 2 ^ 32"
    and R: "buffer R = area_bytes A" "fieldDataOffset R = field_data_offset A" "pageTableOffset R = page_table_offset A" "loadedPages R = []"
  shows "fst (getFieldByIndex i R) = Inr None"
proof -
  from A have "A = write_schema_by bs_xxhash32 capacity text ds" by (simp add: write_schema_to_shm_fields_def)
  from area_layout [OF this] obtain T out where area: "area_bytes A = json_part capacity text @ table_bytes T @ out
       @ concat (replicate (page_count A) (le_bytes 4 (field_data_offset A) @ le_bytes 4 (length out)))"
    and l: "length T = HASH_SLOT_COUNT" "page_table_offset A = field_data_offset A + length out"
      "field_data_offset A = length (json_part capacity text) + HASH_INDEX_SIZE" by blast
  let ?e = "le_bytes 4 (field_data_offset A) @ le_bytes 4 (length out)" and ?pre = "json_part capacity text @ table_bytes T @ out"
  have pre: "length ?pre = page_table_offset A" using l by (simp add: length_table_bytes HASH_INDEX_SIZE_def)
  have pages: "length (concat (replicate n ?e)) = 8 * n" for n by (induction n) auto
  have entry: "getPageEntry S p = Inr None \<or> getPageEntry S p = Inr (Some (field_data_offset A, length out))"
    if S: "buffer S = area_bytes A" "pageTableOffset S = page_table_offset A" for S p
  proof (cases "p < page_count A")
    case True
    then have "replicate (page_count A) ?e = replicate p ?e @ ?e # replicate (page_count A - p - 1) ?e"
      by (metis Suc_diff_Suc diff_diff_left le_add_diff_inverse less_imp_le plus_1_eq_Suc add.commute replicate_Suc replicate_add)
    then have b: "area_bytes A = (?pre @ concat (replicate p ?e)) @ le_bytes 4 (field_data_offset A) @ le_bytes 4 (length out)
        @ concat (replicate (page_count A - p - 1) ?e)" using area by simp
    have q: "int (page_table_offset A + p * PAGE_ENTRY_SIZE) = int (length (?pre @ concat (replicate p ?e)))"
      using pre pages [of p] by simp
    have s: "field_data_offset A < 256 ^ 4" "length out < 256 ^ 4"
      using cap area l by (simp_all add: length_table_bytes HASH_INDEX_SIZE_def)
    have r1: "read_uint 4 (area_bytes A) (int (page_table_offset A + p * PAGE_ENTRY_SIZE)) = Inr (field_data_offset A)"
      unfolding q b by (rule read_uint_at [OF refl s(1)])
    have r2: "read_uint 4 (area_bytes A) (int (page_table_offset A + p * PAGE_ENTRY_SIZE) + 4) = Inr (length out)"
      using read_uint_at [of "int (page_table_offset A + p * PAGE_ENTRY_SIZE) + 4"
          "(?pre @ concat (replicate p ?e)) @ le_bytes 4 (field_data_offset A)", OF _ s(2)] unfolding q b by simp
    show ?thesis unfolding getPageEntry_def S Let_def r1 r2 by simp
  next
    case False
    then have "int (length (area_bytes A)) < int (page_table_offset A + p * PAGE_ENTRY_SIZE) + int PAGE_ENTRY_SIZE"
      using area pre pages [of "page_count A"] by simp
    then show ?thesis by (simp add: getPageEntry_def S Let_def)
  qed
  have far: "decodeFieldRecord (area_bytes A) (int (field_data_offset A + (field_data_offset A + off))) = Inr None" for off
    using small by (simp add: decodeFieldRecord_def)
  show ?thesis
  proof (cases "ensurePageLoaded R (i div FIELDS_PER_PAGE)")
    case (Pair ok S)
    then have S: "buffer S = area_bytes A" "pageTableOffset S = page_table_offset A" "fieldDataOffset S = field_data_offset A"
      and ok: "\<nexists>e. ok = Inl e"
      using entry [OF R(1,3), of "i div FIELDS_PER_PAGE"] R by (auto simp: ensurePageLoaded_def split: if_splits)
    show ?thesis
      using entry [OF S(1,2), of "i div FIELDS_PER_PAGE"] ok far
      by (auto simp: getFieldByIndex_def Pair Let_def S split: sum.split bool.split option.split)
  qed
qed

lemma pages_are_unreadable_witness:
  "let A = write_schema_to_shm_fields 40000 [] [] in
   fst (getFieldByIndex 0 (new_reader (area_bytes A) (page_table_offset A) 1 0 (Some (hash_table_offset A)) (Some (field_data_offset A)))) = Inr None"
proof -
  let ?A = "write_schema_to_shm_fields 40000 [] []"
  have a: "length (area_bytes ?A) = 32768" "field_data_offset ?A = 32768"
    by (simp_all add: write_schema_to_shm_fields_def write_schema_by_def json_part_def align8_def length_table_bytes HASH_INDEX_SIZE_def
        HASH_SLOT_COUNT_def FIELDS_PER_PAGE_def Let_def)
  show ?thesis unfolding Let_def by (rule pages_are_unreadable [OF refl]) (simp_all add: a new_reader_def)
qed

lemma brace_before_last:
  "n \<le> m \<Longrightarrow> 0 < n \<Longrightarrow> buf ! (n - 1) = 0x7D \<Longrightarrow> \<forall>i. n \<le> i \<and> i < m \<longrightarrow> buf ! i \<noteq> 0x7D \<Longrightarrow> brace_before buf m = Some n"
proof (induction m)
  case (Suc m)
  then show ?case by (cases "n = Suc m") auto
qed simp

text \<open>The end of the text is sought by its last brace and the blanks after it, and zero bytes count as blanks: when the first slot of the
  written table is empty, a reader made without the offset of the table takes it to start at least one slot too late.\<close>

theorem detected_table_is_shifted:
  assumes A: "A = write_schema_to_shm_fields capacity (u @ [0x7D]) ds" and cap: "length u + 1 < capacity"
    and size: "length (area_bytes A) \<le> 1048576" and brace: "0x7D \<notin> set (drop (length u + 1) (area_bytes A))"
    and free: "slice (area_bytes A) (hash_table_offset A) 8 = replicate 8 0"
  shows "\<exists>R. createSchemaReader (InBytes (area_bytes A)) pto pc trie = Some R \<and> hash_table_offset A + 8 \<le> hashTableOffset R"
proof -
  let ?t = "u @ [0x7D]" and ?b = "area_bytes A"
  from A have "A = write_schema_by bs_xxhash32 capacity ?t ds" by (simp add: write_schema_to_shm_fields_def)
  from area_layout [OF this] obtain z where b: "?b = json_part capacity ?t @ z" and h: "hash_table_offset A = length (json_part capacity ?t)"
    by auto
  obtain k where j: "json_part capacity ?t = ?t @ replicate k 0" using cap by (simp add: json_part_def Let_def) (metis replicate_Suc)
  have hk: "hash_table_offset A = length u + 1 + k" by (simp add: h j)
  have z: "take 8 z = replicate 8 0" using free by (simp add: slice_def b h)
  have nb: "?b ! i \<noteq> 0x7D" if "length u + 1 \<le> i" "i < length ?b" for i
  proof -
    have "drop (length u + 1) ?b ! (i - (length u + 1)) \<in> set (drop (length u + 1) ?b)" using that by (intro nth_mem) simp
    then show ?thesis using that brace by auto
  qed
  have "brace_before ?b (length ?b) = Some (length u + 1)"
    using nb by (intro brace_before_last) (auto simp: b j nth_append)
  moreover have "hash_table_offset A + 8 \<le> length u + 1 + length (takeWhile (\<lambda>x. x \<le> 0x20) (drop (length u + 1) ?b))"
  proof -
    have "drop (length u + 1) ?b = replicate (k + 8) 0 @ drop 8 z"
      using append_take_drop_id [of 8 z] by (simp add: b j z replicate_add)
    then show ?thesis by (simp add: hk takeWhile_append)
  qed
  ultimately have "hash_table_offset A + 8 \<le> detectJsonEnd ?b" using size by (simp add: detectJsonEnd_def min_def)
  then show ?thesis by (auto simp: createSchemaReader_def new_reader_def Let_def split: option.split)
qed

lemma empty_table_bytes: "table_bytes (replicate n (0, 0)) = replicate (8 * n) 0"
proof (induction n)
  case (Suc n)
  have "le_bytes m 0 = replicate m 0" for m by (induction m) simp_all
  then have "le_bytes 4 0 @ le_bytes 4 0 = replicate 8 0" using replicate_add [of 4 4 "0 :: 8 word"] by simp
  moreover have "table_bytes (replicate (Suc n) (0, 0)) = (le_bytes 4 0 @ le_bytes 4 0) @ table_bytes (replicate n (0, 0))"
    by (simp add: table_bytes_def)
  ultimately show ?case using Suc by (simp only: mult_Suc_right replicate_add)
qed (simp add: table_bytes_def)

lemma detected_table_is_shifted_witness:
  "let A = write_schema_to_shm_fields 40000 ([0x7B] @ [0x7D]) [] in
   \<exists>R. createSchemaReader (InBytes (area_bytes A)) None None None = Some R \<and> hash_table_offset A + 8 \<le> hashTableOffset R"
proof -
  let ?A = "write_schema_to_shm_fields 40000 ([0x7B] @ [0x7D]) []"
  have r: "0 # replicate 5 (0 :: 8 word) @ replicate 32768 0 = replicate 32774 0"
    using replicate_add [of 6 32768 "0 :: 8 word"] replicate_Suc [of 5 "0 :: 8 word"] by simp
  have a: "area_bytes ?A = [0x7B, 0x7D] @ replicate 32774 0" "hash_table_offset ?A = 8"
    by (simp_all add: write_schema_to_shm_fields_def write_schema_by_def json_part_def align8_def empty_table_bytes HASH_INDEX_SIZE_def
        HASH_SLOT_COUNT_def FIELDS_PER_PAGE_def Let_def r)
  show ?thesis
    unfolding Let_def by (rule detected_table_is_shifted [OF refl]) (simp_all add: a [simplified] slice_def drop_Cons')
qed

end
