(* ===== verification/McpBridge.thy ===== *)
theory McpBridge
  imports RequestTable
begin

text \<open>
  The bridge to an external tool server (\<open>llm-service/mcp-bridge.ts\<close>): the child process it forks, its status, the calls of
  tools with their promises and timers, the refresh of the tool list, reconnection. Children are numbered and keep their
  listeners; every await is split: the state after it is reached by a later event (a message, an exit, a timer). A call of a
  tool is numbered, and its number names its promise and its timer.
\<close>

section \<open>State\<close>

datatype mcp_status = DISCONNECTED | CONNECTING | CONNECTED | ERROR_STATUS

datatype mcp_error = NotConnectedMcp | CallTimeout jstr | ReadyTimeout | ListTimeout | ForkFailed

datatype parent_message = CallTool jstr json jstr | ListTools | Shutdown

datatype child_message = ToolList "json list" | ToolResult jstr json | ChildError json | Ready | OtherMessage

text \<open>Waiters and handlers are the listeners added later, by number; exit waiters are the calls of \<open>disconnect\<close>.\<close>

record child =
  alive :: bool
  channel :: bool
  killed :: bool
  ready_waiters :: "nat list"
  list_handlers :: "nat list"
  exit_waiters :: nat

definition new_child :: child where
  "new_child = \<lparr>alive = True, channel = True, killed = False, ready_waiters = [], list_handlers = [], exit_waiters = 0\<rparr>"

record mcp =
  process :: "nat option"
  children :: "child list"
  mcp_stat :: mcp_status
  tools :: "json list"
  pendingRequests :: "(jstr, nat) jmap"
  call_promises :: "nat \<Rightarrow> (json, mcp_error) promise"
  call_timers :: "(nat \<times> jstr \<times> jstr) list"
  next_call :: nat
  requestCounter :: nat
  wait_promises :: "nat \<Rightarrow> (json, mcp_error) promise"
  ready_timers :: "nat list"
  list_timers :: "nat list"
  next_wait :: nat
  kill_timers :: nat
  reconnecting :: bool
  sent_messages :: "(nat \<times> parent_message) list"
  status_log :: "mcp_status list"

definition new_mcp :: mcp where
  "new_mcp = \<lparr>process = None, children = [], mcp_stat = DISCONNECTED, tools = [], pendingRequests = [],
     call_promises = (\<lambda>_. Unsettled), call_timers = [], next_call = 0, requestCounter = 0,
     wait_promises = (\<lambda>_. Unsettled), ready_timers = [], list_timers = [], next_wait = 0, kill_timers = 0,
     reconnecting = False, sent_messages = [], status_log = []\<rparr>"

definition setStatus :: "mcp_status \<Rightarrow> mcp \<Rightarrow> mcp" where
  "setStatus s B = B\<lparr>mcp_stat := s, status_log := status_log B @ [s]\<rparr>"

definition on_child :: "nat \<Rightarrow> (child \<Rightarrow> child) \<Rightarrow> mcp \<Rightarrow> mcp" where
  "on_child c f B = B\<lparr>children := (children B)[c := f (children B ! c)]\<rparr>"

definition on_process :: "(child \<Rightarrow> child) \<Rightarrow> mcp \<Rightarrow> mcp" where
  "on_process f B = (case process B of None \<Rightarrow> B | Some c \<Rightarrow> on_child c f B)"

definition sendToChild :: "parent_message \<Rightarrow> mcp \<Rightarrow> mcp" where
  "sendToChild m B =
     (case process B of None \<Rightarrow> B
      | Some c \<Rightarrow> if channel (children B ! c) then B\<lparr>sent_messages := sent_messages B @ [(c, m)]\<rparr> else B)"

section \<open>Calls\<close>

definition callTool :: "jstr \<Rightarrow> json \<Rightarrow> jstr \<Rightarrow> mcp \<Rightarrow> (mcp_error + nat) \<times> mcp" where
  "callTool name args callId0 B =
     (if mcp_stat B \<noteq> CONNECTED \<or> process B = None then (Inl NotConnectedMcp, B)
      else (let c = (if callId0 = [] then Suc (requestCounter B) else requestCounter B);
                callId = (if callId0 = [] then js ''call_'' @ decimal c else callId0);
                r = next_call B;
                B1 = B\<lparr>requestCounter := c, next_call := Suc r, call_timers := call_timers B @ [(r, callId, name)],
                       pendingRequests := mput callId r (pendingRequests B)\<rparr>
            in (Inr r, sendToChild (CallTool name args callId) B1)))"

definition finish_call :: "nat \<Rightarrow> jstr \<Rightarrow> (json, mcp_error) promise \<Rightarrow> mcp \<Rightarrow> mcp" where
  "finish_call r i p B = B\<lparr>call_timers := filter (\<lambda>(j, _). j \<noteq> r) (call_timers B),
     pendingRequests := mdel i (pendingRequests B), call_promises := settle r p (call_promises B)\<rparr>"

definition call_timeout :: "nat \<Rightarrow> mcp \<Rightarrow> mcp" where
  "call_timeout r B =
     (case map_of (call_timers B) r of None \<Rightarrow> B | Some (i, name) \<Rightarrow> finish_call r i (Rejected (CallTimeout name)) B)"

section \<open>Tool list and readiness\<close>

definition refreshTools :: "mcp \<Rightarrow> (mcp_error + nat) \<times> mcp" where
  "refreshTools B =
     (if mcp_stat B \<noteq> CONNECTED \<or> process B = None then (Inl NotConnectedMcp, B)
      else (let w = next_wait B;
                B1 = on_process (\<lambda>c. c\<lparr>list_handlers := list_handlers c @ [w]\<rparr>)
                       (B\<lparr>next_wait := Suc w, list_timers := list_timers B @ [w]\<rparr>)
            in (Inr w, sendToChild ListTools B1)))"

definition waitForReady :: "mcp \<Rightarrow> mcp" where
  "waitForReady B =
     (let w = next_wait B
      in on_process (\<lambda>c. c\<lparr>ready_waiters := ready_waiters c @ [w]\<rparr>) (B\<lparr>next_wait := Suc w, ready_timers := ready_timers B @ [w]\<rparr>))"

text \<open>The listeners remove themselves from the current process, which need not be the child that called them.\<close>

definition ready_listener :: "nat \<Rightarrow> mcp \<Rightarrow> mcp" where
  "ready_listener w B =
     (on_process (\<lambda>c. c\<lparr>ready_waiters := removeAll w (ready_waiters c)\<rparr>) (B\<lparr>ready_timers := removeAll w (ready_timers B)\<rparr>))
       \<lparr>wait_promises := settle w (Resolved JNull) (wait_promises B)\<rparr>"

definition list_listener :: "json list \<Rightarrow> nat \<Rightarrow> mcp \<Rightarrow> mcp" where
  "list_listener ts w B =
     (on_process (\<lambda>c. c\<lparr>list_handlers := removeAll w (list_handlers c)\<rparr>) (B\<lparr>list_timers := removeAll w (list_timers B)\<rparr>))
       \<lparr>tools := ts, wait_promises := settle w (Resolved (JArr ts)) (wait_promises B)\<rparr>"

definition handleChildMessage :: "child_message \<Rightarrow> mcp \<Rightarrow> mcp" where
  "handleChildMessage m B =
     (case m of
        Ready \<Rightarrow> snd (refreshTools (setStatus CONNECTED B))
      | ToolResult i v \<Rightarrow>
          (case mget (pendingRequests B) i of None \<Rightarrow> B | Some r \<Rightarrow> finish_call r i (Resolved v) B)
      | _ \<Rightarrow> B)"

text \<open>The listeners of the child at the time of the message, in the order in which they were added.\<close>

definition child_sends :: "nat \<Rightarrow> child_message \<Rightarrow> mcp \<Rightarrow> mcp" where
  "child_sends c m B =
     (let ch = children B ! c; B1 = handleChildMessage m B
      in case m of
           Ready \<Rightarrow> fold ready_listener (ready_waiters ch) B1
         | ToolList ts \<Rightarrow> fold (list_listener ts) (list_handlers ch) B1
         | _ \<Rightarrow> B1)"

definition ready_timeout :: "nat \<Rightarrow> mcp \<Rightarrow> mcp" where
  "ready_timeout w B =
     setStatus ERROR_STATUS (B\<lparr>ready_timers := removeAll w (ready_timers B), wait_promises := settle w (Rejected ReadyTimeout) (wait_promises B)\<rparr>)"

definition list_timeout :: "nat \<Rightarrow> mcp \<Rightarrow> mcp" where
  "list_timeout w B =
     B\<lparr>list_timers := removeAll w (list_timers B), wait_promises := settle w (Rejected ListTimeout) (wait_promises B)\<rparr>"

section \<open>Connection\<close>

text \<open>\<open>fork_ok\<close>: whether the process could be started.\<close>

definition connect :: "bool \<Rightarrow> mcp \<Rightarrow> mcp" where
  "connect fork_ok B =
     (if mcp_stat B = CONNECTED then B
      else (let B1 = setStatus CONNECTING B
            in if \<not> fork_ok then setStatus ERROR_STATUS B1
               else waitForReady (B1\<lparr>process := Some (length (children B1)), children := children B1 @ [new_child]\<rparr>)))"

definition disconnected :: "mcp \<Rightarrow> mcp" where
  "disconnected B = setStatus DISCONNECTED (B\<lparr>tools := []\<rparr>)"

definition disconnect :: "mcp \<Rightarrow> mcp" where
  "disconnect B =
     (let B1 = B\<lparr>reconnecting := False\<rparr>
      in case process B1 of
           None \<Rightarrow> disconnected B1
         | Some c \<Rightarrow>
             (let B2 = sendToChild Shutdown B1
              in (on_child c (\<lambda>ch. ch\<lparr>exit_waiters := Suc (exit_waiters ch)\<rparr>) B2)\<lparr>kill_timers := Suc (kill_timers B2)\<rparr>))"

text \<open>The exit of a child: the listener set at its start, then the waiting calls of \<open>disconnect\<close>.\<close>

definition child_exits :: "nat \<Rightarrow> mcp \<Rightarrow> mcp" where
  "child_exits c B =
     (let n = exit_waiters (children B ! c);
          B1 = (setStatus DISCONNECTED (on_child c (\<lambda>ch. ch\<lparr>alive := False, channel := False, exit_waiters := 0\<rparr>) B))\<lparr>process := None\<rparr>
      in ((\<lambda>B. disconnected (B\<lparr>process := None\<rparr>)) ^^ n) B1)"

definition child_fails :: "mcp \<Rightarrow> mcp" where
  "child_fails B = setStatus ERROR_STATUS B"

text \<open>The timer that \<open>disconnect\<close> sets and never clears.\<close>

definition kill_timeout :: "mcp \<Rightarrow> mcp" where
  "kill_timeout B =
     (let B1 = B\<lparr>kill_timers := kill_timers B - 1\<rparr>
      in case process B1 of None \<Rightarrow> B1
         | Some c \<Rightarrow> if killed (children B1 ! c) then B1 else on_child c (\<lambda>ch. ch\<lparr>killed := True\<rparr>) B1)"

definition enableAutoReconnect :: "mcp \<Rightarrow> mcp" where
  "enableAutoReconnect B = B\<lparr>reconnecting := True\<rparr>"

definition disableAutoReconnect :: "mcp \<Rightarrow> mcp" where
  "disableAutoReconnect B = B\<lparr>reconnecting := False\<rparr>"

definition reconnect_tick :: "bool \<Rightarrow> mcp \<Rightarrow> mcp" where
  "reconnect_tick fork_ok B =
     (if reconnecting B \<and> mcp_stat B \<in> {DISCONNECTED, ERROR_STATUS} then connect fork_ok B else B)"

section \<open>Steps\<close>

datatype mcp_event =
    Connect bool | Disconnect | Call jstr json jstr | Refresh | Enable | Disable | Tick bool
  | Sends nat child_message | Exits nat | Fails nat | CallTimer nat | ReadyTimer nat | ListTimer nat | KillTimer

text \<open>Only a living child acts, and only an armed timer fires.\<close>

fun enabled :: "mcp_event \<Rightarrow> mcp \<Rightarrow> bool" where
  "enabled (Sends c m) B \<longleftrightarrow> c < length (children B) \<and> alive (children B ! c)"
| "enabled (Exits c) B \<longleftrightarrow> c < length (children B) \<and> alive (children B ! c)"
| "enabled (Fails c) B \<longleftrightarrow> c < length (children B)"
| "enabled (CallTimer r) B \<longleftrightarrow> r \<in> fst ` set (call_timers B)"
| "enabled (ReadyTimer w) B \<longleftrightarrow> w \<in> set (ready_timers B)"
| "enabled (ListTimer w) B \<longleftrightarrow> w \<in> set (list_timers B)"
| "enabled KillTimer B \<longleftrightarrow> 0 < kill_timers B"
| "enabled _ B \<longleftrightarrow> True"

fun mcp_do :: "mcp_event \<Rightarrow> mcp \<Rightarrow> mcp" where
  "mcp_do (Connect ok) B = connect ok B"
| "mcp_do Disconnect B = disconnect B"
| "mcp_do (Call t a i) B = snd (callTool t a i B)"
| "mcp_do Refresh B = snd (refreshTools B)"
| "mcp_do Enable B = enableAutoReconnect B"
| "mcp_do Disable B = disableAutoReconnect B"
| "mcp_do (Tick ok) B = reconnect_tick ok B"
| "mcp_do (Sends c m) B = child_sends c m B"
| "mcp_do (Exits c) B = child_exits c B"
| "mcp_do (Fails c) B = child_fails B"
| "mcp_do (CallTimer r) B = call_timeout r B"
| "mcp_do (ReadyTimer w) B = ready_timeout w B"
| "mcp_do (ListTimer w) B = list_timeout w B"
| "mcp_do KillTimer B = kill_timeout B"

inductive mcp_step :: "mcp \<Rightarrow> mcp \<Rightarrow> bool" where
  mcp_step: "enabled e B \<Longrightarrow> mcp_step B (mcp_do e B)"

inductive mcp_reach :: "mcp \<Rightarrow> bool" where
  mcp_new: "mcp_reach new_mcp"
| mcp_next: "mcp_reach B \<Longrightarrow> mcp_step B B' \<Longrightarrow> mcp_reach B'"

section \<open>Messages of the model service\<close>

definition request_of_call :: "(jstr \<Rightarrow> json option) \<Rightarrow> jstr \<times> jstr \<times> jstr \<Rightarrow> (jstr \<times> json \<times> jstr) option" where
  "request_of_call parse c = (case c of (i, name, args) \<Rightarrow> (case parse args of None \<Rightarrow> None | Some a \<Rightarrow> Some (name, a, i)))"

text \<open>One text that is no JSON makes the whole conversion throw.\<close>

definition mcpToolCallsToRequests :: "(jstr \<Rightarrow> json option) \<Rightarrow> (jstr \<times> jstr \<times> jstr) list \<Rightarrow> (jstr \<times> json \<times> jstr) list option" where
  "mcpToolCallsToRequests parse cs =
     (let rs = map (request_of_call parse) cs in if None \<in> set rs then None else Some (map the rs))"

section \<open>The table of calls\<close>

definition unsettled_calls :: "mcp \<Rightarrow> nat set" where
  "unsettled_calls B = {r. r < next_call B \<and> call_promises B r = Unsettled}"

definition armed_calls :: "mcp \<Rightarrow> nat list" where
  "armed_calls B = map fst (call_timers B)"

definition mcp_inv :: "mcp \<Rightarrow> bool" where
  "mcp_inv B \<longleftrightarrow> table_inv (pendingRequests B) (call_promises B) (call_timers B) (next_call B)"

text \<open>What the other operations leave alone.\<close>

definition call_table :: "mcp \<Rightarrow> (jstr, nat) jmap \<times> (nat \<Rightarrow> (json, mcp_error) promise) \<times> (nat \<times> jstr \<times> jstr) list \<times> nat" where
  "call_table B = (pendingRequests B, call_promises B, call_timers B, next_call B)"

lemma same_table: "call_table B' = call_table B \<Longrightarrow> mcp_inv B \<Longrightarrow> mcp_inv B'"
  by (simp add: mcp_inv_def call_table_def)

named_theorems table_kept

lemma parts_keep_table [table_kept]:
  "call_table (setStatus s B) = call_table B" "call_table (on_child c f B) = call_table B"
  "call_table (on_process f B) = call_table B" "call_table (sendToChild m B) = call_table B"
  by (simp_all add: setStatus_def on_child_def on_process_def sendToChild_def call_table_def split: option.split)

lemma updates_keep_table [table_kept]:
  "call_table (B\<lparr>process := p\<rparr>) = call_table B" "call_table (B\<lparr>children := cs\<rparr>) = call_table B"
  "call_table (B\<lparr>tools := ts\<rparr>) = call_table B" "call_table (B\<lparr>wait_promises := w\<rparr>) = call_table B"
  "call_table (B\<lparr>ready_timers := rt\<rparr>) = call_table B" "call_table (B\<lparr>list_timers := lt\<rparr>) = call_table B"
  "call_table (B\<lparr>next_wait := n\<rparr>) = call_table B" "call_table (B\<lparr>kill_timers := k\<rparr>) = call_table B"
  "call_table (B\<lparr>reconnecting := b\<rparr>) = call_table B"
  by (simp_all add: call_table_def)

lemma listeners_keep_table [table_kept]:
  "call_table (ready_listener w B) = call_table B" "call_table (list_listener ts w B) = call_table B"
  "call_table (fold ready_listener ws B) = call_table B" "call_table (fold (list_listener ts) ws B) = call_table B"
proof -
  show r: "call_table (ready_listener w B) = call_table B" for w B by (simp add: ready_listener_def table_kept)
  show l: "call_table (list_listener ts w B) = call_table B" for w B by (simp add: list_listener_def table_kept)
  show "call_table (fold ready_listener ws B) = call_table B" by (induction ws arbitrary: B) (simp_all add: r)
  show "call_table (fold (list_listener ts) ws B) = call_table B" by (induction ws arbitrary: B) (simp_all add: l)
qed

lemma operations_keep_table [table_kept]:
  "call_table (snd (refreshTools B)) = call_table B" "call_table (connect ok B) = call_table B"
  "call_table (disconnect B) = call_table B" "call_table (child_exits c B) = call_table B"
  "call_table (kill_timeout B) = call_table B"
proof -
  show "call_table (snd (refreshTools B)) = call_table B" by (simp add: refreshTools_def Let_def table_kept)
  show "call_table (connect ok B) = call_table B" by (simp add: connect_def waitForReady_def Let_def table_kept)
  show "call_table (disconnect B) = call_table B"
    by (simp add: disconnect_def disconnected_def Let_def table_kept split: option.split)
  have "call_table (((\<lambda>B. disconnected (B\<lparr>process := None\<rparr>)) ^^ n) B) = call_table B" for n B
    by (induction n) (simp_all add: disconnected_def table_kept)
  then show "call_table (child_exits c B) = call_table B" by (simp add: child_exits_def Let_def table_kept)
  show "call_table (kill_timeout B) = call_table B" by (simp add: kill_timeout_def Let_def table_kept split: option.split)
qed

lemma finish_call_inv:
  "mcp_inv B \<Longrightarrow> (r, i, t) \<in> set (call_timers B) \<Longrightarrow> p \<noteq> Unsettled \<Longrightarrow> mcp_inv (finish_call r i p B)"
  unfolding mcp_inv_def by (auto simp: finish_call_def dest: table_inv_close)

lemma finish_call_simps [simp]:
  "armed_calls (finish_call r i p B) = removeAll r (armed_calls B)"
  "p \<noteq> Unsettled \<Longrightarrow> unsettled_calls (finish_call r i p B) = unsettled_calls B - {r}"
  by (simp add: armed_calls_def finish_call_def removeAll_filter_not_eq filter_map o_def case_prod_beta' eq_commute)
    (auto simp: unsettled_calls_def finish_call_def settle_def)

lemma call_timeout_finish:
  assumes "mcp_inv B" "r \<in> set (armed_calls B)"
  obtains i t where "(r, i, t) \<in> set (call_timers B)" "call_timeout r B = finish_call r i (Rejected (CallTimeout t)) B"
proof -
  from assms(2) obtain i t where mem: "(r, i, t) \<in> set (call_timers B)" by (auto simp: armed_calls_def)
  with table_inv_timer [OF assms(1) [unfolded mcp_inv_def]] have "map_of (call_timers B) r = Some (i, t)" by blast
  then show ?thesis using that [OF mem] by (simp add: call_timeout_def)
qed

interpretation mcp: request_table unsettled_calls armed_calls call_timeout mcp_inv
proof unfold_locales
  fix B r
  show "mcp_inv B \<Longrightarrow> unsettled_calls B \<subseteq> set (armed_calls B)"
    by (auto simp: mcp_inv_def table_inv_def unsettled_calls_def armed_calls_def)
  show "mcp_inv B \<Longrightarrow> distinct (armed_calls B)" by (simp add: mcp_inv_def table_inv_def armed_calls_def)
  assume *: "mcp_inv B" "r \<in> set (armed_calls B)"
  show "unsettled_calls (call_timeout r B) = unsettled_calls B - {r}" by (rule call_timeout_finish [OF *]) simp
  show "armed_calls (call_timeout r B) = removeAll r (armed_calls B)" by (rule call_timeout_finish [OF *]) simp
  show "mcp_inv (call_timeout r B)" by (rule call_timeout_finish [OF *]) (simp add: finish_call_inv [OF *(1)])
qed

lemma callTool_inv:
  assumes "mcp_inv B"
  shows "mcp_inv (snd (callTool t a i B))"
proof (cases "mcp_stat B \<noteq> CONNECTED \<or> process B = None")
  case False
  then show ?thesis
    using assms by (auto simp: callTool_def Let_def mcp_inv_def sendToChild_def intro!: table_inv_open split: option.split)
qed (use assms in \<open>simp add: callTool_def\<close>)

lemma child_sends_inv:
  assumes "mcp_inv B"
  shows "mcp_inv (child_sends c m B)"
proof (cases m)
  case (ToolResult i v)
  show ?thesis
  proof (cases "mget (pendingRequests B) i")
    case (Some r)
    then obtain t where "(r, i, t) \<in> set (call_timers B)" using table_inv_entry assms by (fastforce simp: mcp_inv_def)
    with Some ToolResult show ?thesis by (simp add: child_sends_def handleChildMessage_def finish_call_inv [OF assms])
  qed (use assms ToolResult in \<open>simp add: child_sends_def handleChildMessage_def\<close>)
next
  case Ready
  show ?thesis by (rule same_table [OF _ assms]) (simp add: child_sends_def handleChildMessage_def Ready Let_def table_kept)
next
  case (ToolList ts)
  show ?thesis by (rule same_table [OF _ assms]) (simp add: child_sends_def handleChildMessage_def ToolList Let_def table_kept)
qed (use assms in \<open>simp_all add: child_sends_def handleChildMessage_def\<close>)

lemma mcp_do_inv:
  assumes "mcp_inv B" "enabled e B"
  shows "mcp_inv (mcp_do e B)"
proof (cases e)
  case (CallTimer r)
  then have "r \<in> set (armed_calls B)" using assms(2) by (simp add: armed_calls_def)
  with CallTimer assms(1) show ?thesis by (simp add: mcp.fire_inv)
qed (use assms(1) in \<open>simp_all add: callTool_inv child_sends_inv same_table [OF _ assms(1)] enableAutoReconnect_def disableAutoReconnect_def
    reconnect_tick_def child_fails_def ready_timeout_def list_timeout_def table_kept\<close>)

lemma mcp_reach_inv: "mcp_reach B \<Longrightarrow> mcp_inv B"
proof (induction rule: mcp_reach.induct)
  case mcp_new
  show ?case by (simp add: mcp_inv_def new_mcp_def table_inv_empty)
next
  case (mcp_next B B')
  then show ?case by (auto simp: mcp_do_inv elim!: mcp_step.cases)
qed

text \<open>C6: However calls, messages, exits, reconnections and timers interleave: every call of a tool that is still open has an armed timer of its own,
  and the timers alone settle all of them; but the exit of the server settles none, so its callers wait for the full timeout.\<close>

theorem every_tool_call_settles:
  assumes "mcp_reach B"
  shows "unsettled_calls B \<subseteq> set (armed_calls B)
    \<and> unsettled_calls (fold call_timeout (armed_calls B) B) = {}
    \<and> unsettled_calls (child_exits c B) = unsettled_calls B"
proof (intro conjI)
  note inv = mcp_reach_inv [OF assms]
  show "unsettled_calls B \<subseteq> set (armed_calls B)" by (rule mcp.tracked [OF inv])
  show "unsettled_calls (fold call_timeout (armed_calls B) B) = {}" using mcp.drain [OF inv] by blast
  show "unsettled_calls (child_exits c B) = unsettled_calls B"
    using operations_keep_table(4) [of c B] by (simp add: call_table_def unsettled_calls_def)
qed

lemma exit_continuations:
  "mcp_stat B = DISCONNECTED \<Longrightarrow> process B = None \<Longrightarrow>
   mcp_stat (((\<lambda>B. disconnected (B\<lparr>process := None\<rparr>)) ^^ n) B) = DISCONNECTED
   \<and> process (((\<lambda>B. disconnected (B\<lparr>process := None\<rparr>)) ^^ n) B) = None
   \<and> children (((\<lambda>B. disconnected (B\<lparr>process := None\<rparr>)) ^^ n) B) = children B
   \<and> kill_timers (((\<lambda>B. disconnected (B\<lparr>process := None\<rparr>)) ^^ n) B) = kill_timers B"
  by (induction n) (simp_all add: disconnected_def setStatus_def)

lemma child_exits_state:
  "mcp_stat (child_exits c B) = DISCONNECTED" "process (child_exits c B) = None" "kill_timers (child_exits c B) = kill_timers B"
  "length (children (child_exits c B)) = length (children B)"
  "d \<noteq> c \<Longrightarrow> children (child_exits c B) ! d = children B ! d"
proof -
  let ?B = "(setStatus DISCONNECTED (on_child c (\<lambda>ch. ch\<lparr>alive := False, channel := False, exit_waiters := 0\<rparr>) B))\<lparr>process := None\<rparr>"
  from exit_continuations [of ?B "exit_waiters (children B ! c)"]
  show "mcp_stat (child_exits c B) = DISCONNECTED" "process (child_exits c B) = None" "kill_timers (child_exits c B) = kill_timers B"
    "length (children (child_exits c B)) = length (children B)"
    "d \<noteq> c \<Longrightarrow> children (child_exits c B) ! d = children B ! d"
    by (simp_all add: child_exits_def Let_def setStatus_def on_child_def)
qed

lemma connect_ready:
  assumes "mcp_stat B \<noteq> CONNECTED"
  shows "let B' = child_sends (length (children B)) Ready (connect True B); n = length (children B)
    in mcp_stat B' = CONNECTED \<and> process B' = Some n \<and> length (children B') = Suc n \<and> \<not> killed (children B' ! n) \<and> kill_timers B' = kill_timers B"
  using assms
  by (simp add: Let_def connect_def setStatus_def waitForReady_def on_process_def on_child_def new_child_def child_sends_def
      handleChildMessage_def refreshTools_def sendToChild_def ready_listener_def)

text \<open>C33: The timer that a disconnection sets is never cleared and looks at whatever process there is when it fires: after a
  disconnection, the exit of the server and a new connection it kills the new server.\<close>

theorem stale_kill_timer:
  assumes "process B = Some c" "c < length (children B)" "alive (children B ! c)"
    and "B' = fold mcp_do [Disconnect, Exits c, Connect True, Sends (length (children B)) Ready] B"
  shows "mcp_stat B' = CONNECTED \<and> process B' = Some (length (children B)) \<and> \<not> killed (children B' ! length (children B))
    \<and> enabled KillTimer B' \<and> killed (children (mcp_do KillTimer B') ! length (children B))"
proof -
  let ?E = "child_exits c (disconnect B)"
  have d: "length (children (disconnect B)) = length (children B)" "0 < kill_timers (disconnect B)"
    using assms(1) by (simp_all add: disconnect_def sendToChild_def on_child_def Let_def)
  then have e: "length (children ?E) = length (children B)" "mcp_stat ?E \<noteq> CONNECTED" "0 < kill_timers ?E"
    by (simp_all add: child_exits_state)
  have "B' = child_sends (length (children ?E)) Ready (connect True ?E)" by (simp add: assms(4) e(1))
  with connect_ready [OF e(2)] e(1,3) show ?thesis by (simp add: Let_def kill_timeout_def on_child_def)
qed

lemma stale_kill_timer_witness:
  "let B = fold mcp_do [Connect True, Sends 0 Ready] new_mcp; B' = fold mcp_do [Disconnect, Exits 0, Connect True, Sends 1 Ready] B
   in mcp_stat B' = CONNECTED \<and> killed (children (mcp_do KillTimer B') ! 1)"
proof -
  let ?B = "fold mcp_do [Connect True, Sends 0 Ready] new_mcp"
  have "process ?B = Some 0" "length (children ?B) = Suc 0" "alive (children ?B ! 0)"
    by (simp_all add: connect_def setStatus_def waitForReady_def on_process_def on_child_def new_child_def child_sends_def new_mcp_def
        handleChildMessage_def refreshTools_def sendToChild_def ready_listener_def Let_def)
  note b = this
  have "0 < length (children ?B)" using b(2) by simp
  from stale_kill_timer [OF b(1) this b(3) refl] show ?thesis unfolding b(2) Let_def One_nat_def by blast
qed

lemma every_tool_call_settles_witness:
  "unsettled_calls (fold call_timeout (armed_calls (snd (callTool (js ''t'') JNull [] (fold mcp_do [Connect True, Sends 0 Ready] new_mcp))))
     (snd (callTool (js ''t'') JNull [] (fold mcp_do [Connect True, Sends 0 Ready] new_mcp)))) = {}"
proof -
  have "mcp_reach (mcp_do e B)" if "mcp_reach B" "enabled e B" for e B using that by (blast intro: mcp_next mcp_step)
  note step = this
  have "mcp_reach (mcp_do (Connect True) new_mcp)" by (rule step [OF mcp_new]) simp
  moreover have "enabled (Sends 0 Ready) (mcp_do (Connect True) new_mcp)"
    by (simp add: connect_def setStatus_def waitForReady_def on_process_def on_child_def new_child_def new_mcp_def Let_def)
  ultimately have "mcp_reach (mcp_do (Sends 0 Ready) (mcp_do (Connect True) new_mcp))" by (rule step)
  from every_tool_call_settles [OF step [OF this, of "Call (js ''t'') JNull []"]] show ?thesis by simp
qed

text \<open>The identifier of a call is taken from the caller and not checked: when it is still in use, the answer goes to the later call only; and
  when the timer of the earlier one comes first, the answer goes to neither.\<close>

theorem reused_call_id:
  assumes "mcp_inv B" "mcp_stat B = CONNECTED" "process B = Some p" "i \<noteq> []"
    and "B2 = snd (callTool s b i (snd (callTool t a i B)))"
  shows "call_promises (handleChildMessage (ToolResult i v) B2) (next_call B) = Unsettled
    \<and> call_promises (handleChildMessage (ToolResult i v) B2) (Suc (next_call B)) = Resolved v
    \<and> handleChildMessage (ToolResult i v) (call_timeout (next_call B) B2) = call_timeout (next_call B) B2
    \<and> call_promises (call_timeout (next_call B) B2) (Suc (next_call B)) = Unsettled"
proof (intro conjI)
  let ?n = "next_call B"
  have fresh: "call_promises B ?n = Unsettled" "call_promises B (Suc ?n) = Unsettled" "\<forall>x\<in>set (call_timers B). fst x \<noteq> ?n" "mwf (pendingRequests B)"
    using assms(1) by (auto simp: mcp_inv_def table_inv_def)
  have B2: "pendingRequests B2 = mput i (Suc ?n) (mput i ?n (pendingRequests B))" "call_promises B2 = call_promises B"
    "call_timers B2 = call_timers B @ [(?n, i, t), (Suc ?n, i, s)]"
    using assms(2-5) by (simp_all add: callTool_def sendToChild_def Let_def)
  have m: "map_of (call_timers B2) ?n = Some (i, t)"
    using fresh(3) by (fastforce simp: B2(3) map_add_def split: option.split dest: map_of_SomeD)
  show "call_promises (handleChildMessage (ToolResult i v) B2) ?n = Unsettled"
    "call_promises (handleChildMessage (ToolResult i v) B2) (Suc ?n) = Resolved v"
    using fresh by (simp_all add: handleChildMessage_def B2 finish_call_def settle_def)
  show "handleChildMessage (ToolResult i v) (call_timeout ?n B2) = call_timeout ?n B2"
    by (simp add: handleChildMessage_def call_timeout_def m finish_call_def)
  show "call_promises (call_timeout ?n B2) (Suc ?n) = Unsettled"
    using fresh by (simp add: call_timeout_def m finish_call_def B2(2) settle_def)
qed

lemma reused_call_id_witness:
  "let B = new_mcp\<lparr>mcp_stat := CONNECTED, process := Some 0, children := [new_child]\<rparr>;
       B2 = snd (callTool (js ''t'') JNull (js ''x'') (snd (callTool (js ''t'') JNull (js ''x'') B)))
   in call_promises (handleChildMessage (ToolResult (js ''x'') JNull) B2) 0 = Unsettled
      \<and> call_promises (handleChildMessage (ToolResult (js ''x'') JNull) B2) 1 = Resolved JNull"
proof -
  let ?B = "new_mcp\<lparr>mcp_stat := CONNECTED, process := Some 0, children := [new_child]\<rparr>"
  have "mcp_inv ?B" by (simp add: mcp_inv_def new_mcp_def table_inv_empty)
  with reused_call_id [OF _ _ _ _ refl, where B = ?B and p = 0 and i = "js ''x''" and s = "js ''t''" and t = "js ''t''" and a = JNull and b = JNull and v = JNull]
  show ?thesis by (simp add: js_def new_mcp_def)
qed

end
