(* ===== verification/EngineClient.thy ===== *)
theory EngineClient
  imports EditorBridge ToolExecution
begin

text \<open>
  The livestyle editor's client of the engine (\<open>livestyle-editor/src/services/engineClient.ts\<close>) over the transport to the
  page (\<open>livestyle-engine/src/bridge/transport/PostMessageTransport.ts\<close>): connection with retries, requests with timers,
  the debounced write of a configuration, and the write that validates first. The messages are those of the bridge
  (\<open>EditorBridge\<close>); JSON texts are parameters.
\<close>

section \<open>Transport\<close>

datatype transport_status = Disconnected | Connecting | TConnected | Reconnecting

record transport =
  tr_status :: transport_status
  retryCount :: nat
  maxRetries :: nat
  connect_timeouts :: nat
  reconnectTimer :: bool
  listening :: bool
  posted :: "jstr list"
  status_events :: "transport_status list"

definition new_transport :: "nat \<Rightarrow> transport" where
  "new_transport retries = \<lparr>tr_status = Disconnected, retryCount = 0, maxRetries = retries, connect_timeouts = 0,
     reconnectTimer = False, listening = False, posted = [], status_events = []\<rparr>"

definition set_status :: "transport_status \<Rightarrow> transport \<Rightarrow> transport" where
  "set_status s T = T\<lparr>tr_status := s, status_events := status_events T @ [s]\<rparr>"

definition tr_connect :: "transport \<Rightarrow> transport" where
  "tr_connect T =
     (if tr_status T = TConnected then T
      else (set_status Connecting T)\<lparr>listening := True, connect_timeouts := Suc (connect_timeouts T)\<rparr>)"

definition tr_send :: "jstr \<Rightarrow> transport \<Rightarrow> transport" where
  "tr_send m T = (if tr_status T \<noteq> TConnected then T else T\<lparr>posted := posted T @ [m]\<rparr>)"

definition tr_disconnect :: "transport \<Rightarrow> transport" where
  "tr_disconnect T = (set_status Disconnected T)\<lparr>listening := False, reconnectTimer := False\<rparr>"

definition confirmConnected :: "transport \<Rightarrow> transport" where
  "confirmConnected T = set_status TConnected (T\<lparr>retryCount := 0\<rparr>)"

definition handleConnectionError :: "transport \<Rightarrow> transport" where
  "handleConnectionError T =
     (if retryCount T < maxRetries T
      then (set_status Reconnecting (T\<lparr>retryCount := Suc (retryCount T)\<rparr>))\<lparr>reconnectTimer := True\<rparr>
      else set_status Disconnected T)"

definition connect_timeout :: "transport \<Rightarrow> transport" where
  "connect_timeout T =
     (let T1 = T\<lparr>connect_timeouts := connect_timeouts T - 1\<rparr>
      in if tr_status T1 = Connecting then handleConnectionError T1 else T1)"

definition reconnect_timeout :: "transport \<Rightarrow> transport" where
  "reconnect_timeout T = tr_connect (T\<lparr>reconnectTimer := False\<rparr>)"

text \<open>What the page posts: the origin is checked by the caller; a text is handed on, or confirms the connection.\<close>

definition tr_incoming :: "jstr \<Rightarrow> transport \<Rightarrow> jstr option \<times> transport" where
  "tr_incoming d T =
     (if \<not> listening T then (None, T)
      else if d = js ''__LIVESTYLE_CONNECTED__'' then (None, confirmConnected T)
      else (Some d, T))"

section \<open>Client\<close>

datatype client_error = ClientTimeout jstr

record engine_client =
  link :: transport
  ec_pending :: "(jstr, nat) jmap"
  ec_promises :: "nat \<Rightarrow> (json, client_error) promise"
  ec_timers :: "(nat \<times> jstr \<times> jstr) list"
  ec_next :: nat
  ec_counter :: nat
  debounced :: "(jstr \<times> json) option"
  validating :: "(nat \<times> jstr \<times> json) list"
  asked :: "(nat \<times> json) list"
  writes :: "(jstr \<times> json) list"
  pushes :: "(jstr \<times> json) list"
  handled :: "(jstr \<times> json) list"

definition new_client :: engine_client where
  "new_client = \<lparr>link = new_transport 3, ec_pending = [], ec_promises = (\<lambda>_. Unsettled), ec_timers = [], ec_next = 0, ec_counter = 0,
     debounced = None, validating = [], asked = [], writes = [], pushes = [], handled = []\<rparr>"

text \<open>\<open>asked\<close>, \<open>writes\<close> and \<open>pushes\<close> record the validations asked for and the configurations sent after one and by the debounced
  write. \<open>H\<close> reads and writes JSON texts; \<open>now\<close> and \<open>ts\<close> are the two readings of the clock in a message.\<close>

definition ec_send :: "'a jsenv_scheme \<Rightarrow> bridge_message \<Rightarrow> engine_client \<Rightarrow> engine_client" where
  "ec_send H m C = C\<lparr>link := tr_send (serialize (stringify H) m) (link C)\<rparr>"

definition ec_sendAndWait :: "'a jsenv_scheme \<Rightarrow> bridge_message \<Rightarrow> engine_client \<Rightarrow> nat \<times> engine_client" where
  "ec_sendAndWait H m C =
     (let r = ec_next C
      in (r, ec_send H m (C\<lparr>ec_next := Suc r, ec_timers := ec_timers C @ [(r, msg_id m, msg_typ m)],
                           ec_pending := mput (msg_id m) r (ec_pending C)\<rparr>)))"

definition ec_request :: "'a jsenv_scheme \<Rightarrow> msg_type \<Rightarrow> json \<Rightarrow> nat \<Rightarrow> nat \<Rightarrow> engine_client \<Rightarrow> nat \<times> engine_client" where
  "ec_request H ty payload now ts C =
     (let (m, c) = buildEditorMessage ty payload now ts (ec_counter C)
      in ec_sendAndWait H m (C\<lparr>ec_counter := c\<rparr>))"

definition config_payload :: "jstr \<Rightarrow> json \<Rightarrow> json" where
  "config_payload i props = JObj [(js ''componentId'', JStr i), (js ''props'', props)]"

text \<open>The debounced write: one timer for all components.\<close>

definition ec_setComponentConfig :: "jstr \<Rightarrow> json \<Rightarrow> engine_client \<Rightarrow> engine_client" where
  "ec_setComponentConfig i props C = C\<lparr>debounced := Some (i, props)\<rparr>"

definition debounce_fires :: "'a jsenv_scheme \<Rightarrow> nat \<Rightarrow> nat \<Rightarrow> engine_client \<Rightarrow> engine_client" where
  "debounce_fires H now ts C =
     (case debounced C of
        None \<Rightarrow> C
      | Some (i, props) \<Rightarrow>
          (let (m, c) = buildEditorMessage SET_COMPONENT_CONFIG (config_payload i props) now ts (ec_counter C)
           in ec_send H m (C\<lparr>ec_counter := c, debounced := None, pushes := pushes C @ [(i, props)]\<rparr>)))"

text \<open>The write that validates first: the request for the validation, and what follows its answer.\<close>

definition setComponentConfigImmediate :: "'a jsenv_scheme \<Rightarrow> jstr \<Rightarrow> json \<Rightarrow> nat \<Rightarrow> nat \<Rightarrow> engine_client \<Rightarrow> engine_client" where
  "setComponentConfigImmediate H i props now ts C =
     (let (r, C1) = ec_request H VALIDATE_CONFIG (JObj [(js ''config'', props)]) now ts C
      in C1\<lparr>validating := validating C1 @ [(r, i, props)], asked := asked C1 @ [(r, props)]\<rparr>)"

definition validation_passed :: "json \<Rightarrow> bool" where
  "validation_passed v \<longleftrightarrow> json_truthy (jfield (js ''success'') v)
     \<and> \<not> (json_truthy (jfield (js ''data'') v) \<and> (case jfield (js ''data'') v of Some d \<Rightarrow> jfield (js ''valid'') d = Some (JBool False) | None \<Rightarrow> False))"

definition after_validation :: "'a jsenv_scheme \<Rightarrow> nat \<Rightarrow> nat \<Rightarrow> nat \<Rightarrow> engine_client \<Rightarrow> engine_client" where
  "after_validation H r now ts C =
     (case (map_of (validating C) r, ec_promises C r) of
        (Some (i, props), Resolved v) \<Rightarrow>
          (let C1 = C\<lparr>validating := filter (\<lambda>(q, _). q \<noteq> r) (validating C)\<rparr>
           in if validation_passed v
              then snd (ec_request H SET_COMPONENT_CONFIG (config_payload i props) now ts (C1\<lparr>writes := writes C1 @ [(i, props)]\<rparr>))
              else C1)
      | (Some _, Rejected _) \<Rightarrow> C\<lparr>validating := filter (\<lambda>(q, _). q \<noteq> r) (validating C)\<rparr>
      | _ \<Rightarrow> C)"

definition ec_finish :: "nat \<Rightarrow> jstr \<Rightarrow> (json, client_error) promise \<Rightarrow> engine_client \<Rightarrow> engine_client" where
  "ec_finish r i p C = C\<lparr>ec_timers := filter (\<lambda>(j, _). j \<noteq> r) (ec_timers C),
     ec_pending := mdel i (ec_pending C), ec_promises := settle r p (ec_promises C)\<rparr>"

definition ec_timeout :: "nat \<Rightarrow> engine_client \<Rightarrow> engine_client" where
  "ec_timeout r C =
     (case map_of (ec_timers C) r of None \<Rightarrow> C | Some (i, typ) \<Rightarrow> ec_finish r i (Rejected (ClientTimeout typ)) C)"

definition ec_incoming :: "'a jsenv_scheme \<Rightarrow> jstr \<Rightarrow> engine_client \<Rightarrow> engine_client" where
  "ec_incoming H raw C =
     (case deserialize (parse_json H) raw of
        None \<Rightarrow> C
      | Some m \<Rightarrow>
          (case (if msg_direction m = direction_str ENGINE_TO_EDITOR then mget (ec_pending C) (msg_id m) else None) of
             Some r \<Rightarrow> ec_finish r (msg_id m) (Resolved (msg_payload m)) C
           | None \<Rightarrow> C\<lparr>handled := handled C @ [(msg_typ m, msg_payload m)]\<rparr>))"

definition page_posts :: "'a jsenv_scheme \<Rightarrow> jstr \<Rightarrow> engine_client \<Rightarrow> engine_client" where
  "page_posts H d C =
     (let (text, T) = tr_incoming d (link C); C1 = C\<lparr>link := T\<rparr>
      in case text of None \<Rightarrow> C1 | Some raw \<Rightarrow> ec_incoming H raw C1)"

datatype client_event =
    Connect | Disconnect | Confirmed | ConnectTimer | ReconnectTimer | Posted jstr | Ask msg_type json nat nat
  | SetConfig jstr json | Debounce nat nat | SetNow jstr json nat nat | Validated nat nat nat | RequestTimer nat

fun client_do :: "'a jsenv_scheme \<Rightarrow> client_event \<Rightarrow> engine_client \<Rightarrow> engine_client" where
  "client_do H Connect C = C\<lparr>link := tr_connect (link C)\<rparr>"
| "client_do H Disconnect C = C\<lparr>link := tr_disconnect (link C)\<rparr>"
| "client_do H Confirmed C = C\<lparr>link := confirmConnected (link C)\<rparr>"
| "client_do H ConnectTimer C = (if 0 < connect_timeouts (link C) then C\<lparr>link := connect_timeout (link C)\<rparr> else C)"
| "client_do H ReconnectTimer C = (if reconnectTimer (link C) then C\<lparr>link := reconnect_timeout (link C)\<rparr> else C)"
| "client_do H (Posted d) C = page_posts H d C"
| "client_do H (Ask ty p now ts) C = (if ty = SET_COMPONENT_CONFIG then C else snd (ec_request H ty p now ts C))"
| "client_do H (SetConfig i p) C = ec_setComponentConfig i p C"
| "client_do H (Debounce now ts) C = debounce_fires H now ts C"
| "client_do H (SetNow i p now ts) C = setComponentConfigImmediate H i p now ts C"
| "client_do H (Validated r now ts) C = after_validation H r now ts C"
| "client_do H (RequestTimer r) C = ec_timeout r C"

section \<open>Requests\<close>

definition ec_unsettled :: "engine_client \<Rightarrow> nat set" where
  "ec_unsettled C = {r. r < ec_next C \<and> ec_promises C r = Unsettled}"

definition ec_armed :: "engine_client \<Rightarrow> nat list" where
  "ec_armed C = map fst (ec_timers C)"

definition ec_inv :: "engine_client \<Rightarrow> bool" where
  "ec_inv C \<longleftrightarrow> table_inv (ec_pending C) (ec_promises C) (ec_timers C) (ec_next C)"

lemma ec_finish_inv: "ec_inv C \<Longrightarrow> (r, i, t) \<in> set (ec_timers C) \<Longrightarrow> p \<noteq> Unsettled \<Longrightarrow> ec_inv (ec_finish r i p C)"
  unfolding ec_inv_def by (auto simp: ec_finish_def dest: table_inv_close)

lemma ec_finish_simps [simp]:
  "ec_armed (ec_finish r i p C) = removeAll r (ec_armed C)"
  "p \<noteq> Unsettled \<Longrightarrow> ec_unsettled (ec_finish r i p C) = ec_unsettled C - {r}"
  by (simp add: ec_armed_def ec_finish_def removeAll_filter_not_eq filter_map o_def case_prod_beta' eq_commute)
    (auto simp: ec_unsettled_def ec_finish_def settle_def)

lemma ec_timeout_finish:
  assumes "ec_inv C" "r \<in> set (ec_armed C)"
  obtains i t where "(r, i, t) \<in> set (ec_timers C)" "ec_timeout r C = ec_finish r i (Rejected (ClientTimeout t)) C"
proof -
  from assms(2) obtain i t where mem: "(r, i, t) \<in> set (ec_timers C)" by (auto simp: ec_armed_def)
  with table_inv_timer [OF assms(1) [unfolded ec_inv_def]] have "map_of (ec_timers C) r = Some (i, t)" by blast
  then show ?thesis using that [OF mem] by (simp add: ec_timeout_def)
qed

interpretation ec: request_table ec_unsettled ec_armed ec_timeout ec_inv
proof unfold_locales
  fix C r
  show "ec_inv C \<Longrightarrow> ec_unsettled C \<subseteq> set (ec_armed C)"
    by (auto simp: ec_inv_def table_inv_def ec_unsettled_def ec_armed_def)
  show "ec_inv C \<Longrightarrow> distinct (ec_armed C)" by (simp add: ec_inv_def table_inv_def ec_armed_def)
  assume *: "ec_inv C" "r \<in> set (ec_armed C)"
  show "ec_unsettled (ec_timeout r C) = ec_unsettled C - {r}" by (rule ec_timeout_finish [OF *]) simp
  show "ec_armed (ec_timeout r C) = removeAll r (ec_armed C)" by (rule ec_timeout_finish [OF *]) simp
  show "ec_inv (ec_timeout r C)" by (rule ec_timeout_finish [OF *]) (simp add: ec_finish_inv [OF *(1)])
qed

lemma ec_request_parts:
  "ec_promises (snd (ec_request H ty p now ts C)) = ec_promises C" "ec_next (snd (ec_request H ty p now ts C)) = Suc (ec_next C)"
  "validating (snd (ec_request H ty p now ts C)) = validating C" "asked (snd (ec_request H ty p now ts C)) = asked C"
  "writes (snd (ec_request H ty p now ts C)) = writes C" "pushes (snd (ec_request H ty p now ts C)) = pushes C"
  "fst (ec_request H ty p now ts C) = ec_next C"
  by (simp_all add: ec_request_def ec_sendAndWait_def ec_send_def Let_def split: prod.split)

lemma ec_request_inv: "ec_inv C \<Longrightarrow> ec_inv (snd (ec_request H ty p now ts C))"
  unfolding ec_inv_def
  by (simp add: ec_request_def ec_sendAndWait_def ec_send_def Let_def table_inv_open split: prod.split)

text \<open>A configuration is written only after its own validation was answered with success.\<close>

definition write_ok :: "engine_client \<Rightarrow> bool" where
  "write_ok C \<longleftrightarrow> (\<forall>(r, i, p)\<in>set (validating C). (r, p) \<in> set (asked C))
     \<and> (\<forall>(i, p)\<in>set (writes C). \<exists>r v. (r, p) \<in> set (asked C) \<and> ec_promises C r = Resolved v \<and> validation_passed v)"

definition client_ok :: "engine_client \<Rightarrow> bool" where
  "client_ok C \<longleftrightarrow> ec_inv C \<and> write_ok C"

lemma settle_keeps: "ps r = Resolved v \<Longrightarrow> settle q x ps r = Resolved v"
  by (cases "r = q") (simp_all add: settle_def)

lemma write_ok_mono:
  assumes "write_ok C" "set (validating C') \<subseteq> set (validating C)" "set (asked C) \<subseteq> set (asked C')" "writes C' = writes C"
    and "\<And>r v. ec_promises C r = Resolved v \<Longrightarrow> ec_promises C' r = Resolved v"
  shows "write_ok C'"
  using assms unfolding write_ok_def by (fastforce split: prod.splits)

lemma finish_write_ok: "write_ok C \<Longrightarrow> write_ok (ec_finish r i p C)"
  by (erule write_ok_mono) (simp_all add: ec_finish_def settle_keeps)

lemma request_write_ok: "write_ok C \<Longrightarrow> write_ok (snd (ec_request H ty p now ts C))"
  by (erule write_ok_mono) (simp_all add: ec_request_parts)

lemma ec_timeout_ok: "client_ok C \<Longrightarrow> client_ok (ec_timeout r C)"
proof (cases "r \<in> set (ec_armed C)")
  case True
  assume C: "client_ok C"
  then have inv: "ec_inv C" by (simp add: client_ok_def)
  show ?thesis using ec.fire_inv [OF inv True] C
    by (rule_tac ec_timeout_finish [OF inv True]) (simp add: client_ok_def finish_write_ok)
next
  case False
  then have "map_of (ec_timers C) r = None" by (simp add: ec_armed_def map_of_eq_None_iff)
  then show "client_ok C \<Longrightarrow> ?thesis" by (simp add: ec_timeout_def)
qed

lemma ec_incoming_ok: "client_ok C \<Longrightarrow> client_ok (ec_incoming H raw C)"
proof (cases "deserialize (parse_json H) raw")
  case (Some m)
  assume C: "client_ok C"
  show ?thesis
  proof (cases "if msg_direction m = direction_str ENGINE_TO_EDITOR then mget (ec_pending C) (msg_id m) else None")
    case None
    with C Some show ?thesis by (simp add: ec_incoming_def client_ok_def ec_inv_def write_ok_def)
  next
    case found: (Some r)
    then have "mget (ec_pending C) (msg_id m) = Some r" by (simp split: if_splits)
    then obtain t where "(r, msg_id m, t) \<in> set (ec_timers C)"
      using C table_inv_entry by (fastforce simp: client_ok_def ec_inv_def)
    then have "client_ok (ec_finish r (msg_id m) (Resolved (msg_payload m)) C)"
      using C by (simp add: client_ok_def ec_finish_inv finish_write_ok)
    moreover have "ec_incoming H raw C = ec_finish r (msg_id m) (Resolved (msg_payload m)) C"
      by (simp only: ec_incoming_def Some found option.case)
    ultimately show ?thesis by simp
  qed
qed (simp add: ec_incoming_def)

lemma client_ok_link: "client_ok (C\<lparr>link := T\<rparr>) = client_ok C"
  by (simp add: client_ok_def ec_inv_def write_ok_def)

lemma after_validation_ok:
  assumes "client_ok C"
  shows "client_ok (after_validation H r now ts C)"
proof (cases "map_of (validating C) r")
  case (Some e)
  obtain i p where e: "e = (i, p)" by force
  have mem: "(r, i, p) \<in> set (validating C)" using Some e by (simp add: map_of_SomeD)
  then have a: "(r, p) \<in> set (asked C)" using assms by (auto simp: client_ok_def write_ok_def)
  let ?C1 = "C\<lparr>validating := filter (\<lambda>(q, _). q \<noteq> r) (validating C)\<rparr>"
  have ok1: "client_ok ?C1" using assms write_ok_mono [of C ?C1] by (auto simp: client_ok_def ec_inv_def)
  show ?thesis
  proof (cases "ec_promises C r")
    case (Resolved v)
    show ?thesis
    proof (cases "validation_passed v")
      case True
      let ?C2 = "?C1\<lparr>writes := writes ?C1 @ [(i, p)]\<rparr>"
      have "client_ok ?C2" using ok1 a Resolved True by (auto simp: client_ok_def ec_inv_def write_ok_def)
      then have "client_ok (snd (ec_request H SET_COMPONENT_CONFIG (config_payload i p) now ts ?C2))"
        by (simp add: client_ok_def ec_request_inv request_write_ok)
      with True Some e Resolved show ?thesis by (simp add: after_validation_def Let_def)
    qed (use ok1 Some e Resolved in \<open>simp add: after_validation_def Let_def\<close>)
  qed (use ok1 assms Some e in \<open>simp_all add: after_validation_def\<close>)
qed (use assms in \<open>simp add: after_validation_def\<close>)

lemma client_do_ok: "client_ok C \<Longrightarrow> client_ok (client_do H e C)"
proof (cases e)
  case (Posted d)
  assume C: "client_ok C"
  show ?thesis using C ec_incoming_ok [of "C\<lparr>link := T\<rparr>" H for T]
    by (auto simp: Posted page_posts_def Let_def client_ok_link split: prod.split option.split)
next
  case (Debounce now ts)
  assume "client_ok C"
  then show ?thesis
    by (auto simp: Debounce debounce_fires_def ec_send_def client_ok_def ec_inv_def write_ok_def Let_def split: option.split prod.split)
next
  case (SetNow i p now ts)
  assume C: "client_ok C"
  let ?R = "ec_request H VALIDATE_CONFIG (JObj [(js ''config'', p)]) now ts C"
  have "client_ok (snd ?R)" using C by (simp add: client_ok_def ec_request_inv request_write_ok)
  then show ?thesis
    by (cases ?R) (auto simp: SetNow setComponentConfigImmediate_def client_ok_def ec_inv_def write_ok_def; fastforce)
next
  case (Ask ty p now ts)
  then show "client_ok C \<Longrightarrow> ?thesis" by (simp add: client_ok_def ec_request_inv request_write_ok)
next
  case (SetConfig i p)
  then show "client_ok C \<Longrightarrow> ?thesis" by (simp add: ec_setComponentConfig_def client_ok_def ec_inv_def write_ok_def)
qed (simp_all add: client_ok_link after_validation_ok ec_timeout_ok)

interpretation client: event_closed client_ok "client_do H"
  by unfold_locales (rule client_do_ok)

lemma new_client_ok: "client_ok new_client"
  by (simp add: client_ok_def ec_inv_def write_ok_def new_client_def table_inv_empty)


text \<open>The debounced write keeps one pending configuration for all components: a second write to another component within the
  interval replaces the first, which is never sent.\<close>

theorem debounce_loses_writes:
  "let C' = fold (client_do H) [SetConfig i p, SetConfig j q, Debounce now ts, Debounce now' ts'] C
   in pushes C' = pushes C @ [(j, q)] \<and> debounced C' = None"
  by (simp add: ec_setComponentConfig_def debounce_fires_def ec_send_def Let_def split: prod.split)

section \<open>Giving up\<close>

definition failed_round :: "transport \<Rightarrow> transport" where
  "failed_round T = reconnect_timeout (connect_timeout T)"

lemma failed_rounds:
  assumes "tr_status T = Connecting" "retryCount T + k \<le> maxRetries T"
  shows "tr_status ((failed_round ^^ k) T) = Connecting \<and> retryCount ((failed_round ^^ k) T) = retryCount T + k
    \<and> maxRetries ((failed_round ^^ k) T) = maxRetries T"
  using assms(2)
proof (induction k)
  case (Suc k)
  then show ?case
    by (simp add: failed_round_def reconnect_timeout_def connect_timeout_def handleConnectionError_def tr_connect_def set_status_def Let_def)
qed (use assms(1) in simp)

text \<open>C34: When the page never answers, a connection is given up after the retries, in the disconnected state; and the count is not set back: the
  next connection that the user asks for is given up at its first timeout, without a retry.\<close>

theorem connection_gives_up:
  assumes "tr_status T \<noteq> TConnected" "retryCount T \<le> maxRetries T"
    and "G = connect_timeout ((failed_round ^^ (maxRetries T - retryCount T)) (tr_connect T))"
  shows "tr_status G = Disconnected \<and> retryCount G = maxRetries G
    \<and> tr_status (connect_timeout (tr_connect G)) = Disconnected \<and> \<not> reconnectTimer (connect_timeout (tr_connect (tr_disconnect G)))"
proof -
  have c: "tr_status (tr_connect T) = Connecting" "retryCount (tr_connect T) = retryCount T" "maxRetries (tr_connect T) = maxRetries T"
    using assms(1) by (simp_all add: tr_connect_def set_status_def)
  from failed_rounds [OF c(1), of "maxRetries T - retryCount T"] assms(2) c(2,3)
  show ?thesis
    by (simp add: assms(3) connect_timeout_def handleConnectionError_def tr_connect_def tr_disconnect_def set_status_def Let_def)
qed

lemma connection_gives_up_witness:
  "let G = connect_timeout ((failed_round ^^ (maxRetries (new_transport 3) - retryCount (new_transport 3))) (tr_connect (new_transport 3)))
   in tr_status G = Disconnected \<and> tr_status (connect_timeout (tr_connect G)) = Disconnected"
  using connection_gives_up [OF _ _ refl, of "new_transport 3"] unfolding Let_def by (simp add: new_transport_def)

definition good_answer :: json where
  "good_answer = JObj [(js ''success'', JBool True)]"

text \<open>A host whose only readable text is the positive answer to the first request, made at time 0.\<close>

definition answer_json :: json where
  "answer_json = JObj [(js ''id'', JStr (js ''msg_'' @ decimal 0 @ js ''_'' @ decimal 1)), (js ''type'', JStr (js ''pong'')),
     (js ''direction'', JStr (direction_str ENGINE_TO_EDITOR)), (js ''payload'', good_answer), (js ''timestamp'', JNum (Fin 0))]"

definition answering :: jsenv where
  "answering = \<lparr>parse_json = (\<lambda>s. Some answer_json), stringify = (\<lambda>j. []), pretty = (\<lambda>j. []), to_text = (\<lambda>j. []), to_number = (\<lambda>j. NaN),
     type_error = [], syntax_error = (\<lambda>s. [])\<rparr>"


end
