(* ===== verification/NarrativeStore.thy ===== *)
theory NarrativeStore
  imports TextIndex ByteText "HOL-Library.List_Lexorder" "HOL-Library.Sublist"
begin

text \<open>
  The storage of the narrative system (\<open>livedesign/src/llm-service/narrative/types.ts\<close>,
  \<open>storage/sqlite-store.ts\<close>): observations, metrics, hypotheses and profiles, the interface that the schedulers
  use, its implementation on a database and the one on arrays. A table is the list of its rows in the order of
  insertion. The database engine is a parameter where its documentation leaves it free: the order of rows with equal
  sort keys, and whether a statement goes through. As documented, NaN is bound as \<open>NULL\<close>, which the columns
  refuse. Times are whole milliseconds; the days of retention are a whole number. Texts are well-formed UTF-16.
\<close>

section \<open>Records\<close>

record observation =
  obs_id :: nat
  obs_session :: jstr
  obs_user :: jstr
  obs_content :: jstr
  obs_emotion :: jstr
  obs_intensity :: jsnum
  obs_valence :: jsnum
  obs_arousal :: jsnum
  obs_dominance :: jsnum
  obs_significant :: bool
  obs_time :: int

record create_observation =
  new_session :: jstr
  new_content :: jstr
  new_emotion :: jstr
  new_intensity :: jsnum
  new_valence :: jsnum
  new_arousal :: jsnum
  new_dominance :: jsnum

datatype metric_type = EmotionalTrajectory | ThemeDensityMetric | InteractionMetric

record metric =
  met_id :: nat
  met_user :: jstr
  met_type :: metric_type
  met_name :: jstr
  met_value :: jsnum
  met_window :: nat
  met_start :: int
  met_end :: int
  met_time :: int

record hypothesis =
  hyp_id :: nat
  hyp_user :: jstr
  hyp_version :: jstr
  hyp_domain :: jstr
  hyp_text :: jstr
  hyp_evidence :: jstr
  hyp_confidence :: jsnum
  hyp_refs :: "jsnum list"
  hyp_time :: int

datatype trend = Rising | Falling | Stable

record profile =
  prof_version :: jstr
  prof_user :: jstr
  prof_hypotheses :: "hypothesis list"
  prof_attributes :: "(jstr, jsnum list) jmap"
  prof_merged :: int
  prof_trends :: "(jstr, trend) jmap"

record store_stats =
  total_observations :: nat
  total_metrics :: nat
  total_hypotheses :: nat
  total_snapshots :: nat

record narrative_config =
  quantifySchedule :: jstr
  reflectSchedule :: jstr
  minObservations :: nat
  significantThreshold :: jsnum
  trajectoryNames :: "jstr list"
  retentionDays :: int
  patternSensitivity :: jsnum

definition DEFAULT_NARRATIVE_CONFIG :: narrative_config where
  "DEFAULT_NARRATIVE_CONFIG = \<lparr>quantifySchedule = js ''0 */6 * * *'', reflectSchedule = js ''0 2 * * 0'',
     minObservations = 20, significantThreshold = num (7/10),
     trajectoryNames = [js ''self_efficacy'', js ''emotional_expression'', js ''self_acceptance''],
     retentionDays = 365, patternSensitivity = num (3/10)\<rparr>"

text \<open>The record that an insertion makes of its parameters. The numbers \<open>id\<close> are the store's.\<close>

definition observation_of :: "nat \<Rightarrow> create_observation \<Rightarrow> jstr \<Rightarrow> bool \<Rightarrow> int \<Rightarrow> observation" where
  "observation_of i p u sig now = \<lparr>obs_id = i, obs_session = new_session p, obs_user = u, obs_content = new_content p,
     obs_emotion = new_emotion p, obs_intensity = new_intensity p, obs_valence = new_valence p,
     obs_arousal = new_arousal p, obs_dominance = new_dominance p, obs_significant = sig, obs_time = now\<rparr>"

section \<open>The interface\<close>

text \<open>Every call may throw (\<open>None\<close>). The clock is read inside \<open>insertObservation\<close> and \<open>cleanOldObservations\<close>.\<close>

record 's INarrativeStore =
  insertObservation :: "create_observation \<Rightarrow> jstr \<Rightarrow> bool \<Rightarrow> int \<Rightarrow> 's \<Rightarrow> (nat \<times> 's) option"
  getRecentObservations :: "jstr \<Rightarrow> nat \<Rightarrow> nat \<Rightarrow> 's \<Rightarrow> observation list option"
  getObservationsByTimeRange :: "jstr \<Rightarrow> int \<Rightarrow> int \<Rightarrow> 's \<Rightarrow> observation list option"
  countObservations :: "jstr \<Rightarrow> 's \<Rightarrow> nat option"
  insertMetric :: "metric \<Rightarrow> 's \<Rightarrow> (nat \<times> 's) option"
  getRecentMetrics :: "jstr \<Rightarrow> metric_type option \<Rightarrow> nat \<Rightarrow> 's \<Rightarrow> metric list option"
  insertHypothesis :: "hypothesis \<Rightarrow> 's \<Rightarrow> (nat \<times> 's) option"
  getHypothesesByVersion :: "jstr \<Rightarrow> jstr \<Rightarrow> 's \<Rightarrow> hypothesis list option"
  getAllVersions :: "jstr \<Rightarrow> 's \<Rightarrow> jstr list option"
  getHypothesesByConfidence :: "jstr \<Rightarrow> jsnum \<Rightarrow> 's \<Rightarrow> hypothesis list option"
  saveProfileSnapshot :: "profile \<Rightarrow> 's \<Rightarrow> (nat \<times> 's) option"
  getLatestProfile :: "jstr \<Rightarrow> 's \<Rightarrow> profile option option"
  deleteUserRows :: "jstr \<Rightarrow> 's \<Rightarrow> 's option"
  cleanOldObservations :: "int \<Rightarrow> int \<Rightarrow> 's \<Rightarrow> (nat \<times> 's) option"
  store_getStats :: "'s \<Rightarrow> store_stats option"
  close_store :: "'s \<Rightarrow> 's"

definition day_ms :: int where "day_ms = 86400000"

section \<open>The implementation on arrays\<close>

record memory_store =
  mem_observations :: "observation list"
  mem_metrics :: "metric list"
  mem_hypotheses :: "hypothesis list"
  mem_profiles :: "profile list"
  mem_next :: nat

definition new_memory_store :: memory_store where
  "new_memory_store = \<lparr>mem_observations = [], mem_metrics = [], mem_hypotheses = [], mem_profiles = [], mem_next = 1\<rparr>"

definition mem_insertObservation :: "create_observation \<Rightarrow> jstr \<Rightarrow> bool \<Rightarrow> int \<Rightarrow> memory_store \<Rightarrow> nat \<times> memory_store" where
  "mem_insertObservation p u sig now m =
     (mem_next m, m\<lparr>mem_observations := observation_of (mem_next m) p u sig now # mem_observations m, mem_next := Suc (mem_next m)\<rparr>)"

definition mem_getRecentObservations :: "jstr \<Rightarrow> nat \<Rightarrow> nat \<Rightarrow> memory_store \<Rightarrow> observation list" where
  "mem_getRecentObservations u n k m = take n (drop k (filter (\<lambda>x. obs_user x = u) (mem_observations m)))"

definition mem_getObservationsByTimeRange :: "jstr \<Rightarrow> int \<Rightarrow> int \<Rightarrow> memory_store \<Rightarrow> observation list" where
  "mem_getObservationsByTimeRange u t1 t2 m =
     sort_key obs_time (filter (\<lambda>x. obs_user x = u \<and> t1 \<le> obs_time x \<and> obs_time x \<le> t2) (mem_observations m))"

definition mem_countObservations :: "jstr \<Rightarrow> memory_store \<Rightarrow> nat" where
  "mem_countObservations u m = length (filter (\<lambda>x. obs_user x = u) (mem_observations m))"

definition mem_insertMetric :: "metric \<Rightarrow> memory_store \<Rightarrow> nat \<times> memory_store" where
  "mem_insertMetric x m = (mem_next m, m\<lparr>mem_metrics := x\<lparr>met_id := mem_next m\<rparr> # mem_metrics m, mem_next := Suc (mem_next m)\<rparr>)"

definition has_type :: "metric_type option \<Rightarrow> metric \<Rightarrow> bool" where
  "has_type t x = (case t of None \<Rightarrow> True | Some ty \<Rightarrow> met_type x = ty)"

definition mem_getRecentMetrics :: "jstr \<Rightarrow> metric_type option \<Rightarrow> nat \<Rightarrow> memory_store \<Rightarrow> metric list" where
  "mem_getRecentMetrics u t n m = take n (filter (has_type t) (filter (\<lambda>x. met_user x = u) (mem_metrics m)))"

definition mem_insertHypothesis :: "hypothesis \<Rightarrow> memory_store \<Rightarrow> nat \<times> memory_store" where
  "mem_insertHypothesis x m =
     (mem_next m, m\<lparr>mem_hypotheses := x\<lparr>hyp_id := mem_next m\<rparr> # mem_hypotheses m, mem_next := Suc (mem_next m)\<rparr>)"

definition mem_getHypothesesByVersion :: "jstr \<Rightarrow> jstr \<Rightarrow> memory_store \<Rightarrow> hypothesis list" where
  "mem_getHypothesesByVersion u v m = filter (\<lambda>x. hyp_user x = u \<and> hyp_version x = v) (mem_hypotheses m)"

definition mem_getAllVersions :: "jstr \<Rightarrow> memory_store \<Rightarrow> jstr list" where
  "mem_getAllVersions u m = firsts (map hyp_version (filter (\<lambda>x. hyp_user x = u) (mem_hypotheses m)))"

definition mem_getHypothesesByConfidence :: "jstr \<Rightarrow> jsnum \<Rightarrow> memory_store \<Rightarrow> hypothesis list" where
  "mem_getHypothesesByConfidence u c m = filter (\<lambda>x. hyp_user x = u \<and> num_le c (hyp_confidence x)) (mem_hypotheses m)"

text \<open>The snapshot itself gets no number, but one is used up.\<close>

definition mem_saveProfileSnapshot :: "profile \<Rightarrow> memory_store \<Rightarrow> nat \<times> memory_store" where
  "mem_saveProfileSnapshot p m = (mem_next m, m\<lparr>mem_profiles := mem_profiles m @ [p], mem_next := Suc (mem_next m)\<rparr>)"

fun latest :: "profile \<Rightarrow> profile list \<Rightarrow> profile" where
  "latest a [] = a"
| "latest a (p # ps) = latest (if prof_merged a < prof_merged p then p else a) ps"

definition mem_getLatestProfile :: "jstr \<Rightarrow> memory_store \<Rightarrow> profile option" where
  "mem_getLatestProfile u m =
     (case filter (\<lambda>p. prof_user p = u) (mem_profiles m) of [] \<Rightarrow> None | p # ps \<Rightarrow> Some (latest p (p # ps)))"

definition mem_deleteUserData :: "jstr \<Rightarrow> memory_store \<Rightarrow> memory_store" where
  "mem_deleteUserData u m = m\<lparr>mem_observations := filter (\<lambda>x. obs_user x \<noteq> u) (mem_observations m),
     mem_metrics := filter (\<lambda>x. met_user x \<noteq> u) (mem_metrics m),
     mem_hypotheses := filter (\<lambda>x. hyp_user x \<noteq> u) (mem_hypotheses m),
     mem_profiles := filter (\<lambda>x. prof_user x \<noteq> u) (mem_profiles m)\<rparr>"

definition mem_cleanOldObservations :: "int \<Rightarrow> int \<Rightarrow> memory_store \<Rightarrow> nat \<times> memory_store" where
  "mem_cleanOldObservations days now m =
     (let kept = filter (\<lambda>x. now - days * day_ms \<le> obs_time x) (mem_observations m)
      in (length (mem_observations m) - length kept, m\<lparr>mem_observations := kept\<rparr>))"

definition mem_getStats :: "memory_store \<Rightarrow> store_stats" where
  "mem_getStats m = \<lparr>total_observations = length (mem_observations m), total_metrics = length (mem_metrics m),
     total_hypotheses = length (mem_hypotheses m), total_snapshots = length (mem_profiles m)\<rparr>"

definition MemoryStore :: "memory_store INarrativeStore" where
  "MemoryStore = \<lparr>insertObservation = (\<lambda>p u sig now m. Some (mem_insertObservation p u sig now m)),
     getRecentObservations = (\<lambda>u n k m. Some (mem_getRecentObservations u n k m)),
     getObservationsByTimeRange = (\<lambda>u t1 t2 m. Some (mem_getObservationsByTimeRange u t1 t2 m)),
     countObservations = (\<lambda>u m. Some (mem_countObservations u m)),
     insertMetric = (\<lambda>x m. Some (mem_insertMetric x m)),
     getRecentMetrics = (\<lambda>u t n m. Some (mem_getRecentMetrics u t n m)),
     insertHypothesis = (\<lambda>x m. Some (mem_insertHypothesis x m)),
     getHypothesesByVersion = (\<lambda>u v m. Some (mem_getHypothesesByVersion u v m)),
     getAllVersions = (\<lambda>u m. Some (mem_getAllVersions u m)),
     getHypothesesByConfidence = (\<lambda>u c m. Some (mem_getHypothesesByConfidence u c m)),
     saveProfileSnapshot = (\<lambda>p m. Some (mem_saveProfileSnapshot p m)),
     getLatestProfile = (\<lambda>u m. Some (mem_getLatestProfile u m)),
     deleteUserRows = (\<lambda>u m. Some (mem_deleteUserData u m)),
     cleanOldObservations = (\<lambda>days now m. Some (mem_cleanOldObservations days now m)),
     store_getStats = (\<lambda>m. Some (mem_getStats m)),
     close_store = (\<lambda>m. m)\<rparr>"

section \<open>The implementation on a database\<close>

record sql_engine =
  arrange_asc :: "int list \<Rightarrow> nat list"
  arrange_desc :: "int list \<Rightarrow> nat list"

text \<open>The documented behaviour of \<open>ORDER BY\<close>: the rows are permuted so that the column is sorted.\<close>

definition arranges :: "(int \<Rightarrow> int \<Rightarrow> bool) \<Rightarrow> (int list \<Rightarrow> nat list) \<Rightarrow> bool" where
  "arranges P f \<longleftrightarrow> (\<forall>ks. mset (f ks) = mset [0..<length ks] \<and> sorted_wrt P (map ((!) ks) (f ks)))"

definition sorts_rows :: "sql_engine \<Rightarrow> bool" where
  "sorts_rows E \<longleftrightarrow> arranges (\<le>) (arrange_asc E) \<and> arranges (\<ge>) (arrange_desc E)"

definition order_by :: "(int list \<Rightarrow> nat list) \<Rightarrow> ('r \<Rightarrow> int) \<Rightarrow> 'r list \<Rightarrow> 'r list" where
  "order_by f k rs = map ((!) rs) (f (map k rs))"

text \<open>
  The four tables, the last number each has given out (\<open>AUTOINCREMENT\<close> does not use one again), whether the connection is
  open, and whether the engine refuses statements (a full disk, a lock).
\<close>

record sql_store =
  observations :: "observation list"
  quantitative_metrics :: "metric list"
  reflective_hypotheses :: "hypothesis list"
  profile_snapshots :: "profile list"
  last_observation :: nat
  last_metric :: nat
  last_hypothesis :: nat
  last_snapshot :: nat
  db_open :: bool
  db_refuses :: bool

definition new_sql_store :: sql_store where
  "new_sql_store = \<lparr>observations = [], quantitative_metrics = [], reflective_hypotheses = [], profile_snapshots = [],
     last_observation = 0, last_metric = 0, last_hypothesis = 0, last_snapshot = 0, db_open = True, db_refuses = False\<rparr>"

definition statement :: "sql_store \<Rightarrow> 'a \<Rightarrow> 'a option" where
  "statement q r = (if db_open q \<and> \<not> db_refuses q then Some r else None)"

definition insert_row :: "jsnum list \<Rightarrow> sql_store \<Rightarrow> 'a \<Rightarrow> 'a option" where
  "insert_row reals q r = (if NaN \<in> set reals then None else statement q r)"

text \<open>A number in a JSON text: what is not finite is written \<open>null\<close>, for which NaN stands here.\<close>

fun json_number :: "jsnum \<Rightarrow> jsnum" where
  "json_number (Fin v) = Fin v"
| "json_number x = NaN"

definition json_refs :: "hypothesis \<Rightarrow> hypothesis" where
  "json_refs h = h\<lparr>hyp_refs := map json_number (hyp_refs h)\<rparr>"

definition json_profile :: "profile \<Rightarrow> profile" where
  "json_profile p = p\<lparr>prof_hypotheses := map (\<lambda>h. (json_refs h)\<lparr>hyp_confidence := json_number (hyp_confidence h)\<rparr>) (prof_hypotheses p),
     prof_attributes := map (\<lambda>(a, vs). (a, map json_number vs)) (prof_attributes p)\<rparr>"

definition sql_insertObservation :: "create_observation \<Rightarrow> jstr \<Rightarrow> bool \<Rightarrow> int \<Rightarrow> sql_store \<Rightarrow> (nat \<times> sql_store) option" where
  "sql_insertObservation p u sig now q =
     insert_row [new_intensity p, new_valence p, new_arousal p, new_dominance p] q
       (Suc (last_observation q), q\<lparr>observations := observations q @ [observation_of (Suc (last_observation q)) p u sig now],
          last_observation := Suc (last_observation q)\<rparr>)"

definition sql_getRecentObservations :: "sql_engine \<Rightarrow> jstr \<Rightarrow> nat \<Rightarrow> nat \<Rightarrow> sql_store \<Rightarrow> observation list option" where
  "sql_getRecentObservations E u n k q =
     statement q (take n (drop k (order_by (arrange_desc E) obs_time (filter (\<lambda>x. obs_user x = u) (observations q)))))"

definition sql_getObservationsByTimeRange :: "sql_engine \<Rightarrow> jstr \<Rightarrow> int \<Rightarrow> int \<Rightarrow> sql_store \<Rightarrow> observation list option" where
  "sql_getObservationsByTimeRange E u t1 t2 q =
     statement q (order_by (arrange_asc E) obs_time
       (filter (\<lambda>x. obs_user x = u \<and> t1 \<le> obs_time x \<and> obs_time x \<le> t2) (observations q)))"

definition sql_countObservations :: "jstr \<Rightarrow> sql_store \<Rightarrow> nat option" where
  "sql_countObservations u q = statement q (length (filter (\<lambda>x. obs_user x = u) (observations q)))"

definition sql_insertMetric :: "metric \<Rightarrow> sql_store \<Rightarrow> (nat \<times> sql_store) option" where
  "sql_insertMetric x q = insert_row [met_value x] q
     (Suc (last_metric q), q\<lparr>quantitative_metrics := quantitative_metrics q @ [x\<lparr>met_id := Suc (last_metric q)\<rparr>],
        last_metric := Suc (last_metric q)\<rparr>)"

definition sql_getRecentMetrics :: "sql_engine \<Rightarrow> jstr \<Rightarrow> metric_type option \<Rightarrow> nat \<Rightarrow> sql_store \<Rightarrow> metric list option" where
  "sql_getRecentMetrics E u t n q =
     statement q (take n (order_by (arrange_desc E) met_time (filter (\<lambda>x. met_user x = u \<and> has_type t x) (quantitative_metrics q))))"

definition sql_insertHypothesis :: "hypothesis \<Rightarrow> sql_store \<Rightarrow> (nat \<times> sql_store) option" where
  "sql_insertHypothesis x q = insert_row [hyp_confidence x] q
     (Suc (last_hypothesis q), q\<lparr>reflective_hypotheses := reflective_hypotheses q @ [x\<lparr>hyp_id := Suc (last_hypothesis q)\<rparr>],
        last_hypothesis := Suc (last_hypothesis q)\<rparr>)"

definition sql_getHypothesesByVersion :: "sql_engine \<Rightarrow> jstr \<Rightarrow> jstr \<Rightarrow> sql_store \<Rightarrow> hypothesis list option" where
  "sql_getHypothesesByVersion E u v q = statement q (map json_refs
     (order_by (arrange_asc E) hyp_time (filter (\<lambda>x. hyp_user x = u \<and> hyp_version x = v) (reflective_hypotheses q))))"

text \<open>Texts are compared by their bytes.\<close>

definition sql_getAllVersions :: "jstr \<Rightarrow> sql_store \<Rightarrow> jstr list option" where
  "sql_getAllVersions u q = statement q
     (rev (sort_key utf8_encode (firsts (map hyp_version (filter (\<lambda>x. hyp_user x = u) (reflective_hypotheses q))))))"

definition sql_getHypothesesByConfidence :: "sql_engine \<Rightarrow> jstr \<Rightarrow> jsnum \<Rightarrow> sql_store \<Rightarrow> hypothesis list option" where
  "sql_getHypothesesByConfidence E u c q = statement q (map json_refs
     (order_by (arrange_desc E) hyp_time (filter (\<lambda>x. hyp_user x = u \<and> num_le c (hyp_confidence x)) (reflective_hypotheses q))))"

definition sql_saveProfileSnapshot :: "profile \<Rightarrow> sql_store \<Rightarrow> (nat \<times> sql_store) option" where
  "sql_saveProfileSnapshot p q = statement q
     (Suc (last_snapshot q), q\<lparr>profile_snapshots := profile_snapshots q @ [p], last_snapshot := Suc (last_snapshot q)\<rparr>)"

definition sql_getLatestProfile :: "sql_engine \<Rightarrow> jstr \<Rightarrow> sql_store \<Rightarrow> profile option option" where
  "sql_getLatestProfile E u q = statement q
     (case order_by (arrange_desc E) prof_merged (filter (\<lambda>p. prof_user p = u) (profile_snapshots q)) of
        [] \<Rightarrow> None | p # ps \<Rightarrow> Some (json_profile p))"

text \<open>The four deletions are one transaction.\<close>

definition sql_deleteUserData :: "jstr \<Rightarrow> sql_store \<Rightarrow> sql_store option" where
  "sql_deleteUserData u q = statement q (q\<lparr>observations := filter (\<lambda>x. obs_user x \<noteq> u) (observations q),
     quantitative_metrics := filter (\<lambda>x. met_user x \<noteq> u) (quantitative_metrics q),
     reflective_hypotheses := filter (\<lambda>x. hyp_user x \<noteq> u) (reflective_hypotheses q),
     profile_snapshots := filter (\<lambda>x. prof_user x \<noteq> u) (profile_snapshots q)\<rparr>)"

definition sql_cleanOldObservations :: "int \<Rightarrow> int \<Rightarrow> sql_store \<Rightarrow> (nat \<times> sql_store) option" where
  "sql_cleanOldObservations days now q =
     (let old = (\<lambda>x. obs_time x < now - days * day_ms)
      in statement q (length (filter old (observations q)), q\<lparr>observations := filter (Not \<circ> old) (observations q)\<rparr>))"

definition sql_getStats :: "sql_store \<Rightarrow> store_stats option" where
  "sql_getStats q = statement q \<lparr>total_observations = length (observations q), total_metrics = length (quantitative_metrics q),
     total_hypotheses = length (reflective_hypotheses q), total_snapshots = length (profile_snapshots q)\<rparr>"

definition sql_close :: "sql_store \<Rightarrow> sql_store" where
  "sql_close q = (if db_open q then q\<lparr>db_open := False\<rparr> else q)"

definition NarrativeStore :: "sql_engine \<Rightarrow> sql_store INarrativeStore" where
  "NarrativeStore E = \<lparr>insertObservation = sql_insertObservation, getRecentObservations = sql_getRecentObservations E,
     getObservationsByTimeRange = sql_getObservationsByTimeRange E, countObservations = sql_countObservations,
     insertMetric = sql_insertMetric, getRecentMetrics = sql_getRecentMetrics E, insertHypothesis = sql_insertHypothesis,
     getHypothesesByVersion = sql_getHypothesesByVersion E, getAllVersions = sql_getAllVersions,
     getHypothesesByConfidence = sql_getHypothesesByConfidence E, saveProfileSnapshot = sql_saveProfileSnapshot,
     getLatestProfile = sql_getLatestProfile E, deleteUserRows = sql_deleteUserData,
     cleanOldObservations = sql_cleanOldObservations, store_getStats = sql_getStats, close_store = sql_close\<rparr>"

text \<open>What an operation of the interface is on each store.\<close>

lemma memory_ops [simp]:
  "insertObservation MemoryStore = (\<lambda>p u sig now m. Some (mem_insertObservation p u sig now m))"
  "getRecentObservations MemoryStore = (\<lambda>u n k m. Some (mem_getRecentObservations u n k m))"
  "getObservationsByTimeRange MemoryStore = (\<lambda>u t1 t2 m. Some (mem_getObservationsByTimeRange u t1 t2 m))"
  "countObservations MemoryStore = (\<lambda>u m. Some (mem_countObservations u m))"
  "insertMetric MemoryStore = (\<lambda>x m. Some (mem_insertMetric x m))"
  "getRecentMetrics MemoryStore = (\<lambda>u t n m. Some (mem_getRecentMetrics u t n m))"
  "insertHypothesis MemoryStore = (\<lambda>x m. Some (mem_insertHypothesis x m))"
  "getHypothesesByVersion MemoryStore = (\<lambda>u v m. Some (mem_getHypothesesByVersion u v m))"
  "getAllVersions MemoryStore = (\<lambda>u m. Some (mem_getAllVersions u m))"
  "getHypothesesByConfidence MemoryStore = (\<lambda>u c m. Some (mem_getHypothesesByConfidence u c m))"
  "saveProfileSnapshot MemoryStore = (\<lambda>p m. Some (mem_saveProfileSnapshot p m))"
  "getLatestProfile MemoryStore = (\<lambda>u m. Some (mem_getLatestProfile u m))"
  "deleteUserRows MemoryStore = (\<lambda>u m. Some (mem_deleteUserData u m))"
  "cleanOldObservations MemoryStore = (\<lambda>days now m. Some (mem_cleanOldObservations days now m))"
  "store_getStats MemoryStore = (\<lambda>m. Some (mem_getStats m))"
  "close_store MemoryStore = (\<lambda>m. m)"
  by (simp_all add: MemoryStore_def)

lemma sql_ops [simp]:
  "insertObservation (NarrativeStore E) = sql_insertObservation"
  "getRecentObservations (NarrativeStore E) = sql_getRecentObservations E"
  "getObservationsByTimeRange (NarrativeStore E) = sql_getObservationsByTimeRange E"
  "countObservations (NarrativeStore E) = sql_countObservations"
  "insertMetric (NarrativeStore E) = sql_insertMetric"
  "getRecentMetrics (NarrativeStore E) = sql_getRecentMetrics E"
  "insertHypothesis (NarrativeStore E) = sql_insertHypothesis"
  "getHypothesesByVersion (NarrativeStore E) = sql_getHypothesesByVersion E"
  "getAllVersions (NarrativeStore E) = sql_getAllVersions"
  "getHypothesesByConfidence (NarrativeStore E) = sql_getHypothesesByConfidence E"
  "saveProfileSnapshot (NarrativeStore E) = sql_saveProfileSnapshot"
  "getLatestProfile (NarrativeStore E) = sql_getLatestProfile E"
  "deleteUserRows (NarrativeStore E) = sql_deleteUserData"
  "cleanOldObservations (NarrativeStore E) = sql_cleanOldObservations"
  "store_getStats (NarrativeStore E) = sql_getStats"
  "close_store (NarrativeStore E) = sql_close"
  by (simp_all add: NarrativeStore_def)

section \<open>The order of selected rows\<close>

lemma order_by_mset:
  assumes "arranges P f"
  shows "mset (order_by f k rs) = mset rs"
proof -
  have "mset (order_by f k rs) = image_mset ((!) rs) (mset [0..<length rs])"
    using assms by (simp only: order_by_def arranges_def mset_map length_map)
  also have "\<dots> = mset rs" by (metis map_nth mset_map)
  finally show ?thesis .
qed

lemma order_by_set: "arranges P f \<Longrightarrow> set (order_by f k rs) = set rs"
  by (metis order_by_mset set_mset_mset)

lemma order_by_sorted:
  assumes "arranges P f"
  shows "sorted_wrt P (map k (order_by f k rs))"
proof -
  have "set (f (map k rs)) = {0..<length rs}"
    using assms by (metis arranges_def atLeastLessThan_upt length_map set_mset_mset)
  then have "map k (order_by f k rs) = map ((!) (map k rs)) (f (map k rs))"
    by (auto simp: order_by_def)
  then show ?thesis using assms by (simp add: arranges_def)
qed

lemma inj_on_rising: "sorted_wrt (<) (map k rs) \<Longrightarrow> inj_on k (set rs)" for k :: "'r \<Rightarrow> int"
  by (metis distinct_map strict_sorted_iff)

lemma order_asc_rising:
  assumes "arranges (\<le>) f" and "sorted_wrt (<) (map k rs)"
  shows "order_by f k rs = rs"
proof -
  have "sort_key k rs = order_by f k rs"
    using order_by_mset [OF assms(1), of k rs] order_by_sorted [OF assms(1), of k rs] inj_on_rising [OF assms(2)]
    by (intro sort_key_inj_key_eq) simp_all
  moreover have "sort_key k rs = rs"
    using assms(2) inj_on_rising [OF assms(2)] by (intro sort_key_inj_key_eq) (simp_all add: strict_sorted_imp_sorted)
  ultimately show ?thesis by simp
qed

lemma order_desc_rising:
  assumes "arranges (\<ge>) f" and "sorted_wrt (<) (map k rs)"
  shows "order_by f k rs = rev rs"
proof -
  have "sorted (map k (rev (order_by f k rs)))"
    using order_by_sorted [OF assms(1), of k rs] by (simp add: rev_map sorted_wrt_rev flip: rev_map)
  then have "sort_key k rs = rev (order_by f k rs)"
    using order_by_mset [OF assms(1), of k rs] inj_on_rising [OF assms(2)] by (intro sort_key_inj_key_eq) simp_all
  moreover have "sort_key k rs = rs"
    using assms(2) inj_on_rising [OF assms(2)] by (intro sort_key_inj_key_eq) (simp_all add: strict_sorted_imp_sorted)
  ultimately show ?thesis by (metis rev_rev_ident)
qed

lemma rising_filter: "sorted_wrt (<) (map k rs) \<Longrightarrow> sorted_wrt (<) (map k (filter P rs))" for k :: "'r \<Rightarrow> int"
  by (induction rs) auto

text \<open>An engine that keeps equal keys in the order of insertion.\<close>

definition stable_engine :: sql_engine where
  "stable_engine = \<lparr>arrange_asc = (\<lambda>ks. sort_key ((!) ks) [0..<length ks]),
     arrange_desc = (\<lambda>ks. sort_key (\<lambda>i. - (ks ! i)) [0..<length ks])\<rparr>"

lemma stable_engine_sorts: "sorts_rows stable_engine"
proof -
  have "sorted (map ((!) ks) (sort_key ((!) ks) [0..<length ks]))" for ks :: "int list" by simp
  moreover have "sorted_wrt (\<ge>) (map ((!) ks) (sort_key (\<lambda>i. - (ks ! i)) [0..<length ks]))" for ks :: "int list"
    using sorted_sort_key [of "\<lambda>i. - (ks ! i)" "[0..<length ks]"] by (simp add: sorted_map sorted_wrt_map)
  ultimately show ?thesis by (simp add: sorts_rows_def arranges_def stable_engine_def)
qed

section \<open>Both stores answer alike\<close>

datatype store_op =
    PutObservation create_observation jstr bool int
  | PutMetric metric
  | PutHypothesis hypothesis
  | PutProfile profile
  | Forget jstr
  | Expire int int

fun apply_op :: "'s INarrativeStore \<Rightarrow> store_op \<Rightarrow> 's \<Rightarrow> 's option" where
  "apply_op S (PutObservation p u sig now) s = map_option snd (insertObservation S p u sig now s)"
| "apply_op S (PutMetric x) s = map_option snd (insertMetric S x s)"
| "apply_op S (PutHypothesis h) s = map_option snd (insertHypothesis S h s)"
| "apply_op S (PutProfile p) s = map_option snd (saveProfileSnapshot S p s)"
| "apply_op S (Forget u) s = deleteUserRows S u s"
| "apply_op S (Expire days now) s = map_option snd (cleanOldObservations S days now s)"

fun apply_ops :: "'s INarrativeStore \<Rightarrow> store_op list \<Rightarrow> 's \<Rightarrow> 's option" where
  "apply_ops S [] s = Some s"
| "apply_ops S (x # xs) s = (case apply_op S x s of None \<Rightarrow> None | Some s' \<Rightarrow> apply_ops S xs s')"

text \<open>The numbers that an operation binds to columns are none of them NaN.\<close>

fun bindable :: "store_op \<Rightarrow> bool" where
  "bindable (PutObservation p u sig now) \<longleftrightarrow> NaN \<notin> {new_intensity p, new_valence p, new_arousal p, new_dominance p}"
| "bindable (PutMetric x) \<longleftrightarrow> met_value x \<noteq> NaN"
| "bindable (PutHypothesis h) \<longleftrightarrow> hyp_confidence h \<noteq> NaN"
| "bindable _ \<longleftrightarrow> True"

text \<open>The times at which rows enter each of the four tables.\<close>

fun obs_times where
  "obs_times (PutObservation p u sig now) = [now]"
| "obs_times _ = []"

fun met_times where
  "met_times (PutMetric x) = [met_time x]"
| "met_times _ = []"

fun hyp_times where
  "hyp_times (PutHypothesis h) = [hyp_time h]"
| "hyp_times _ = []"

fun prof_times where
  "prof_times (PutProfile p) = [prof_merged p]"
| "prof_times _ = []"

definition clock_rises :: "store_op list \<Rightarrow> bool" where
  "clock_rises xs \<longleftrightarrow> (\<forall>f\<in>{obs_times, met_times, hyp_times, prof_times}. sorted_wrt (<) (concat (map f xs)))"

text \<open>Records without the numbers that the stores give out.\<close>

definition obs_plain :: "observation \<Rightarrow> observation" where "obs_plain x = x\<lparr>obs_id := 0\<rparr>"
definition met_plain :: "metric \<Rightarrow> metric" where "met_plain x = x\<lparr>met_id := 0\<rparr>"
definition hyp_plain :: "hypothesis \<Rightarrow> hypothesis" where "hyp_plain x = x\<lparr>hyp_id := 0\<rparr>"

lemmas plain_defs = obs_plain_def met_plain_def hyp_plain_def

lemma plain_sel [simp]:
  "obs_user (obs_plain x) = obs_user x" "obs_time (obs_plain x) = obs_time x"
  "met_user (met_plain y) = met_user y" "met_time (met_plain y) = met_time y" "has_type t (met_plain y) = has_type t y"
  "hyp_user (hyp_plain z) = hyp_user z" "hyp_time (hyp_plain z) = hyp_time z" "hyp_version (hyp_plain z) = hyp_version z"
  "hyp_confidence (hyp_plain z) = hyp_confidence z"
  by (simp_all add: plain_defs has_type_def split: option.split)

definition agree :: "sql_store \<Rightarrow> memory_store \<Rightarrow> bool" where
  "agree q m \<longleftrightarrow> map obs_plain (mem_observations m) = rev (map obs_plain (observations q))
     \<and> map met_plain (mem_metrics m) = rev (map met_plain (quantitative_metrics q))
     \<and> map hyp_plain (mem_hypotheses m) = rev (map hyp_plain (reflective_hypotheses q))
     \<and> mem_profiles m = profile_snapshots q \<and> db_open q \<and> \<not> db_refuses q"

definition table_times :: "store_op list \<Rightarrow> sql_store \<Rightarrow> bool" where
  "table_times xs q \<longleftrightarrow> subseq (map obs_time (observations q)) (concat (map obs_times xs))
     \<and> subseq (map met_time (quantitative_metrics q)) (concat (map met_times xs))
     \<and> subseq (map hyp_time (reflective_hypotheses q)) (concat (map hyp_times xs))
     \<and> subseq (map prof_merged (profile_snapshots q)) (concat (map prof_times xs))"

lemmas store_defs = statement_def insert_row_def sql_insertObservation_def sql_insertMetric_def
  sql_insertHypothesis_def sql_saveProfileSnapshot_def sql_deleteUserData_def sql_cleanOldObservations_def
  mem_insertObservation_def mem_insertMetric_def mem_insertHypothesis_def mem_saveProfileSnapshot_def
  mem_deleteUserData_def mem_cleanOldObservations_def Let_def

lemma filter_plain: "(\<And>x. P (g x) \<longleftrightarrow> P x) \<Longrightarrow> map g (filter P xs) = filter P (map g xs)"
  by (simp add: filter_map o_def)

lemma filter_agree:
  "map g xs = rev (map g ys) \<Longrightarrow> (\<And>x. P (g x) \<longleftrightarrow> P x) \<Longrightarrow> map g (filter P xs) = rev (map g (filter P ys))"
  by (simp add: filter_plain rev_filter)

lemma agree_step:
  assumes "agree q m" and "bindable x"
  shows "\<exists>q' m'. apply_op (NarrativeStore E) x q = Some q' \<and> apply_op MemoryStore x m = Some m' \<and> agree q' m'"
  using assms
  by (cases x) (auto simp: store_defs agree_def observation_of_def plain_defs not_less o_def
    intro!: filter_agree [unfolded plain_defs])

lemma times_step:
  assumes "table_times xs q" and "apply_op (NarrativeStore E) x q = Some q'"
  shows "table_times (xs @ [x]) q'"
proof -
  have f: "subseq (map k (filter P rs)) ts" if "subseq (map k rs) ts" for k :: "'r \<Rightarrow> int" and P rs ts
    using that by (rule subseq_order.trans [OF subseq_map [OF subseq_filter_left]])
  show ?thesis using assms
    by (cases x) (auto simp: store_defs table_times_def observation_of_def intro: f list_emb_append2 split: if_splits)
qed

lemma agree_run:
  assumes "\<forall>x\<in>set xs. bindable x" and "agree q m"
  shows "\<exists>q' m'. apply_ops (NarrativeStore E) xs q = Some q' \<and> apply_ops MemoryStore xs m = Some m' \<and> agree q' m'"
  using assms
proof (induction xs arbitrary: q m)
  case (Cons x xs)
  obtain q' m' where "apply_op (NarrativeStore E) x q = Some q'" "apply_op MemoryStore x m = Some m'" "agree q' m'"
    using agree_step [OF Cons.prems(2), of x E] Cons.prems(1) by auto
  with Cons show ?case by auto
qed simp

lemma times_run: "table_times ys q \<Longrightarrow> apply_ops (NarrativeStore E) xs q = Some q' \<Longrightarrow> table_times (ys @ xs) q'"
proof (induction xs arbitrary: ys q)
  case (Cons x xs)
  from Cons.prems(2) obtain q1 where q1: "apply_op (NarrativeStore E) x q = Some q1" "apply_ops (NarrativeStore E) xs q1 = Some q'"
    by (auto split: option.splits)
  show ?case using Cons.IH [OF times_step [OF Cons.prems(1) q1(1)] q1(2)] by simp
qed simp

text \<open>What the tables look like after a run under a rising clock.\<close>

definition rising_tables :: "sql_store \<Rightarrow> bool" where
  "rising_tables q \<longleftrightarrow> sorted_wrt (<) (map obs_time (observations q)) \<and> sorted_wrt (<) (map met_time (quantitative_metrics q))
     \<and> sorted_wrt (<) (map hyp_time (reflective_hypotheses q)) \<and> sorted_wrt (<) (map prof_merged (profile_snapshots q))"

lemma subseq_members: "subseq xs ys \<Longrightarrow> x \<in> set xs \<Longrightarrow> x \<in> set ys"
  by (erule (1) list_emb_set) simp

lemma sorted_wrt_subseq: "subseq xs ys \<Longrightarrow> sorted_wrt P ys \<Longrightarrow> sorted_wrt P xs"
  by (induction rule: list_emb.induct) (auto dest: subseq_members)

lemma rising_run:
  assumes "clock_rises xs" and "apply_ops (NarrativeStore E) xs new_sql_store = Some q"
  shows "rising_tables q"
  using times_run [of "[]" new_sql_store E xs q] assms
  by (simp add: table_times_def new_sql_store_def rising_tables_def clock_rises_def) (blast intro: sorted_wrt_subseq)

lemma latest_rising: "sorted_wrt (<) (map prof_merged (p # ps)) \<Longrightarrow> latest p ps = last (p # ps)"
  by (induction ps arbitrary: p) auto

lemma sort_key_falling:
  fixes k :: "'r \<Rightarrow> int"
  assumes "sorted_wrt (<) (map k (rev xs))"
  shows "sort_key k xs = rev xs"
  using inj_on_rising [OF assms] assms by (intro sort_key_inj_key_eq) (simp_all add: strict_sorted_imp_sorted)

lemma agree_times:
  "agree q m \<Longrightarrow> map obs_time (mem_observations m) = rev (map obs_time (observations q))"
proof -
  assume "agree q m"
  then have "map obs_time (map obs_plain (mem_observations m)) = map obs_time (rev (map obs_plain (observations q)))"
    by (simp add: agree_def)
  then show ?thesis by (simp add: rev_map o_def)
qed

lemma recent_agree:
  "sorts_rows E \<Longrightarrow> agree q m \<Longrightarrow> rising_tables q \<Longrightarrow>
   map_option (map obs_plain) (sql_getRecentObservations E u n k q) = Some (map obs_plain (mem_getRecentObservations u n k m))"
  using filter_agree [of obs_plain "mem_observations m" "observations q" "\<lambda>x. obs_user x = u"]
  by (simp add: agree_def sql_getRecentObservations_def mem_getRecentObservations_def statement_def rising_tables_def
      sorts_rows_def order_desc_rising rising_filter rev_map flip: take_map drop_map)

lemma range_agree:
  assumes "sorts_rows E" and a: "agree q m" and r: "rising_tables q"
  shows "map_option (map obs_plain) (sql_getObservationsByTimeRange E u t1 t2 q)
    = Some (map obs_plain (mem_getObservationsByTimeRange u t1 t2 m))"
proof -
  let ?P = "\<lambda>x. obs_user x = u \<and> t1 \<le> obs_time x \<and> obs_time x \<le> t2"
  have f: "map obs_plain (filter ?P (mem_observations m)) = rev (map obs_plain (filter ?P (observations q)))"
    using a by (intro filter_agree) (simp_all add: agree_def)
  have "sorted_wrt (<) (map obs_time (rev (mem_observations m)))"
    using r agree_times [OF a] by (simp add: rising_tables_def flip: rev_map)
  then have "sorted_wrt (<) (map obs_time (rev (filter ?P (mem_observations m))))"
    using rising_filter [of obs_time "rev (mem_observations m)" ?P] by (simp add: rev_filter)
  then have "sort_key obs_time (filter ?P (mem_observations m)) = rev (filter ?P (mem_observations m))"
    by (rule sort_key_falling)
  then show ?thesis using f assms
    by (simp add: sql_getObservationsByTimeRange_def mem_getObservationsByTimeRange_def statement_def agree_def sorts_rows_def
        rising_tables_def order_asc_rising rising_filter rev_map flip: rev_map)
qed

lemma metrics_agree:
  "sorts_rows E \<Longrightarrow> agree q m \<Longrightarrow> rising_tables q \<Longrightarrow>
   map_option (map met_plain) (sql_getRecentMetrics E u t n q) = Some (map met_plain (mem_getRecentMetrics u t n m))"
  using filter_agree [of met_plain "mem_metrics m" "quantitative_metrics q" "\<lambda>x. met_user x = u \<and> has_type t x"]
  by (simp add: agree_def sql_getRecentMetrics_def mem_getRecentMetrics_def statement_def rising_tables_def conj_commute
      sorts_rows_def order_desc_rising rising_filter rev_map flip: take_map)

lemma plain_refs: "hyp_plain (json_refs h) = json_refs (hyp_plain h)"
  by (simp add: hyp_plain_def json_refs_def)

lemma confidence_agree:
  "sorts_rows E \<Longrightarrow> agree q m \<Longrightarrow> rising_tables q \<Longrightarrow>
   map_option (map hyp_plain) (sql_getHypothesesByConfidence E u c q)
   = Some (map json_refs (map hyp_plain (mem_getHypothesesByConfidence u c m)))"
  using filter_agree [of hyp_plain "mem_hypotheses m" "reflective_hypotheses q" "\<lambda>x. hyp_user x = u \<and> num_le c (hyp_confidence x)"]
  by (simp add: agree_def sql_getHypothesesByConfidence_def mem_getHypothesesByConfidence_def statement_def rising_tables_def
      sorts_rows_def order_desc_rising rising_filter rev_map o_def plain_refs flip: map_map)
    (simp add: o_def plain_refs rev_map)

lemma version_reversed:
  "sorts_rows E \<Longrightarrow> agree q m \<Longrightarrow> rising_tables q \<Longrightarrow>
   map_option (map hyp_plain) (sql_getHypothesesByVersion E u v q)
   = Some (rev (map json_refs (map hyp_plain (mem_getHypothesesByVersion u v m))))"
  using filter_agree [of hyp_plain "mem_hypotheses m" "reflective_hypotheses q" "\<lambda>x. hyp_user x = u \<and> hyp_version x = v"]
  by (simp add: agree_def sql_getHypothesesByVersion_def mem_getHypothesesByVersion_def statement_def rising_tables_def
      sorts_rows_def order_asc_rising rising_filter rev_map o_def plain_refs flip: map_map)
    (simp add: o_def plain_refs rev_map)

lemma profile_agree:
  assumes "sorts_rows E" and "agree q m" and "rising_tables q"
  shows "sql_getLatestProfile E u q = Some (map_option json_profile (mem_getLatestProfile u m))"
proof -
  let ?ps = "filter (\<lambda>p. prof_user p = u) (profile_snapshots q)"
  have r: "sorted_wrt (<) (map prof_merged ?ps)" using assms(3) by (simp add: rising_tables_def rising_filter)
  have o: "order_by (arrange_desc E) prof_merged ?ps = rev ?ps"
    using assms(1) r by (simp add: sorts_rows_def order_desc_rising)
  show ?thesis
  proof (cases ?ps)
    case Nil
    then show ?thesis using assms(2) o by (simp add: sql_getLatestProfile_def mem_getLatestProfile_def statement_def agree_def)
  next
    case (Cons p ps)
    then obtain qs where "rev ?ps = last ?ps # qs" by (metis last_rev list.distinct(1) list.exhaust_sel rev_is_Nil_conv rev_rev_ident hd_rev)
    then show ?thesis using assms(2) o Cons r latest_rising [of p ps]
      by (simp add: sql_getLatestProfile_def mem_getLatestProfile_def statement_def agree_def)
  qed
qed

lemma agree_lengths:
  "agree q m \<Longrightarrow> length (mem_observations m) = length (observations q) \<and> length (mem_metrics m) = length (quantitative_metrics q)
     \<and> length (mem_hypotheses m) = length (reflective_hypotheses q)"
  by (simp add: agree_def) (metis length_map length_rev)

lemma count_agree: "agree q m \<Longrightarrow> sql_countObservations u q = Some (mem_countObservations u m)"
  using filter_agree [of obs_plain "mem_observations m" "observations q" "\<lambda>x. obs_user x = u"]
  by (simp add: agree_def sql_countObservations_def mem_countObservations_def statement_def) (metis length_map length_rev)

lemma stats_agree: "agree q m \<Longrightarrow> sql_getStats q = Some (mem_getStats m)"
  using agree_lengths [of q m] by (simp add: sql_getStats_def mem_getStats_def statement_def agree_def)

lemma agree_initial: "agree new_sql_store new_memory_store"
  by (simp add: agree_def new_sql_store_def new_memory_store_def)


definition sample_observation :: create_observation where
  "sample_observation = \<lparr>new_session = js ''s'', new_content = js ''hello'', new_emotion = js ''happy'', new_intensity = Fin 1,
     new_valence = Fin 1, new_arousal = Fin (1/2), new_dominance = Fin (1/4)\<rparr>"

definition sample_ops :: "store_op list" where
  "sample_ops = [PutObservation sample_observation (js ''u'') True 10, PutObservation sample_observation (js ''v'') False 20,
     Forget (js ''v''), PutObservation sample_observation (js ''u'') False 30, Expire 1 40]"


end
