(* ===== verification/NarrativeSystem.thy ===== *)
theory NarrativeSystem
  imports NarrativeStore RequestTable
begin

text \<open>
  The narrative system of the assistant (\<open>livedesign/src/llm-service/narrative/\<close>): the quantifier
  (\<open>quantify-scheduler.ts\<close>), the reflection scheduler split at its call of the model
  (\<open>reflect-scheduler.ts\<close>), the profile merger (\<open>profile-merger.ts\<close>) and the system that owns them
  (\<open>index.ts\<close>), over any store of the interface. The local hour and the ISO text of a time, the printing of numbers, the clock and the
  answers of the model are parameters. Names of trajectory attributes are not \<open>__proto__\<close>.
\<close>

section \<open>Quantification\<close>

record platform =
  local_hour :: "int \<Rightarrow> nat"
  iso_text :: "int \<Rightarrow> jstr"
  show_number :: "jsnum \<Rightarrow> jstr"

record trajectory_ma =
  valenceAvg :: jsnum
  arousalAvg :: jsnum
  dominanceAvg :: jsnum
  ma_window :: nat

definition sum_of :: "('a \<Rightarrow> jsnum) \<Rightarrow> 'a list \<Rightarrow> jsnum" where
  "sum_of f xs = foldl (\<lambda>acc x. nadd acc (f x)) (Fin 0) xs"

definition count_num :: "nat \<Rightarrow> jsnum" where "count_num n = Fin (of_nat n)"

definition calculateTrajectoryMA :: "observation list \<Rightarrow> trajectory_ma" where
  "calculateTrajectoryMA xs =
     (if xs = [] then \<lparr>valenceAvg = Fin (1/2), arousalAvg = Fin (1/2), dominanceAvg = Fin (1/2), ma_window = 0\<rparr>
      else \<lparr>valenceAvg = ndiv (sum_of obs_valence xs) (count_num (length xs)),
            arousalAvg = ndiv (sum_of obs_arousal xs) (count_num (length xs)),
            dominanceAvg = ndiv (sum_of obs_dominance xs) (count_num (length xs)), ma_window = length xs\<rparr>)"

text \<open>
  The counters of themes are the properties of an object. For the name of a method of \<open>Object.prototype\<close> the first
  addition joins texts, and what comes out is no number; assigning \<open>__proto__\<close> changes nothing.
\<close>

datatype theme_count = Times nat | JoinedText

definition inherited_methods :: "jstr list" where
  "inherited_methods = map js [''constructor'', ''toString'', ''toLocaleString'', ''valueOf'', ''hasOwnProperty'',
     ''isPrototypeOf'', ''propertyIsEnumerable'', ''__defineGetter__'', ''__defineSetter__'', ''__lookupGetter__'',
     ''__lookupSetter__'']"

definition bump_theme :: "jstr \<Rightarrow> (jstr, theme_count) jmap \<Rightarrow> (jstr, theme_count) jmap" where
  "bump_theme e t =
     (if e = js ''__proto__'' then t
      else (case mget t e of
          Some (Times n) \<Rightarrow> mput e (Times (Suc n)) t
        | Some JoinedText \<Rightarrow> t
        | None \<Rightarrow> mput e (if e \<in> set inherited_methods then JoinedText else Times 1) t))"

definition theme_of :: "observation \<Rightarrow> jstr" where
  "theme_of x = (if obs_emotion x = [] then js ''neutral'' else obs_emotion x)"

definition calculateThemeDensity :: "observation list \<Rightarrow> (jstr, theme_count) jmap \<times> nat" where
  "calculateThemeDensity xs = (fold (\<lambda>x. bump_theme (theme_of x)) xs [], length xs)"

text \<open>The properties of an object are listed with the array indices first, in rising order.\<close>

definition digits_value :: "jstr \<Rightarrow> nat" where
  "digits_value s = foldl (\<lambda>n c. 10 * n + (unat c - 48)) 0 s"

definition array_index :: "jstr \<Rightarrow> bool" where
  "array_index s \<longleftrightarrow> s \<noteq> [] \<and> list_all is_digit s \<and> (hd s \<noteq> 0x30 \<or> length s = 1) \<and> digits_value s < 4294967295"

definition object_entries :: "(jstr, 'v) jmap \<Rightarrow> (jstr \<times> 'v) list" where
  "object_entries m = sort_key (digits_value \<circ> fst) (filter (array_index \<circ> fst) m) @ filter (Not \<circ> array_index \<circ> fst) m"

definition density_value :: "theme_count \<Rightarrow> nat \<Rightarrow> jsnum" where
  "density_value c n_all = (case c of Times n \<Rightarrow> ndiv (count_num n) (count_num (max n_all 1)) | JoinedText \<Rightarrow> NaN)"

record interaction_pattern =
  messagesPerDay :: jsnum
  avgInterval :: jsnum
  peakHour :: nat

definition intervals :: "observation list \<Rightarrow> int list" where
  "intervals xs = filter (\<lambda>d. 0 < d \<and> d < day_ms) (map2 (\<lambda>a b. obs_time a - obs_time b) xs (tl xs))"

definition hour_count :: "platform \<Rightarrow> observation list \<Rightarrow> nat \<Rightarrow> nat" where
  "hour_count P xs h = length (filter (\<lambda>x. local_hour P (obs_time x) = h) xs)"

text \<open>The hours that occur, in rising order; the first with the greatest count wins.\<close>

definition peak_hour :: "platform \<Rightarrow> observation list \<Rightarrow> nat" where
  "peak_hour P xs = fst (foldl (\<lambda>(h, m) h'. if m < hour_count P xs h' then (h', hour_count P xs h') else (h, m)) (0, 0)
     (sort (remdups (map (\<lambda>x. local_hour P (obs_time x)) xs))))"

definition calculateInteractionPattern :: "platform \<Rightarrow> observation list \<Rightarrow> interaction_pattern" where
  "calculateInteractionPattern P xs =
     (if length xs < 2 then \<lparr>messagesPerDay = Fin 0, avgInterval = Fin 0, peakHour = 0\<rparr>
      else \<lparr>messagesPerDay = ndiv (count_num (length xs))
               (nmax (ndiv (num (of_int (obs_time (hd xs) - obs_time (last xs)))) (num (of_int day_ms))) (Fin 1)),
            avgInterval = (if intervals xs = [] then Fin 0
               else ndiv (ndiv (num (of_int (sum_list (intervals xs)))) (count_num (length (intervals xs)))) (Fin 60000)),
            peakHour = peak_hour P xs\<rparr>)"

text \<open>A run that throws leaves what it has inserted: the state comes with whether the code went on.\<close>

type_synonym 's attempt = "'s \<times> bool"

definition and_then :: "'s attempt \<Rightarrow> ('s \<Rightarrow> 's attempt) \<Rightarrow> 's attempt" where
  "and_then a f = (if snd a then f (fst a) else a)"

fun insert_metrics :: "'s INarrativeStore \<Rightarrow> metric list \<Rightarrow> 's \<Rightarrow> 's attempt" where
  "insert_metrics S [] s = (s, True)"
| "insert_metrics S (x # xs) s = (case insertMetric S x s of None \<Rightarrow> (s, False) | Some (i, s') \<Rightarrow> insert_metrics S xs s')"

definition six_hours :: int where "six_hours = 21600000"

definition metric_at :: "jstr \<Rightarrow> int \<Rightarrow> metric_type \<Rightarrow> jstr \<Rightarrow> jsnum \<Rightarrow> nat \<Rightarrow> metric" where
  "metric_at u now t name v w = \<lparr>met_id = 0, met_user = u, met_type = t, met_name = name, met_value = v, met_window = w,
     met_start = now - six_hours, met_end = now, met_time = now\<rparr>"

definition ma_metrics :: "jstr \<Rightarrow> int \<Rightarrow> trajectory_ma \<Rightarrow> metric list" where
  "ma_metrics u now ma = [metric_at u now EmotionalTrajectory (js ''valence_avg'') (valenceAvg ma) (ma_window ma),
     metric_at u now EmotionalTrajectory (js ''arousal_avg'') (arousalAvg ma) (ma_window ma),
     metric_at u now EmotionalTrajectory (js ''dominance_avg'') (dominanceAvg ma) (ma_window ma)]"

definition theme_metrics :: "jstr \<Rightarrow> int \<Rightarrow> (jstr, theme_count) jmap \<times> nat \<Rightarrow> metric list" where
  "theme_metrics u now d =
     map (\<lambda>(e, c). metric_at u now ThemeDensityMetric e (density_value c (snd d)) (snd d)) (object_entries (fst d))"

definition pattern_metrics :: "jstr \<Rightarrow> int \<Rightarrow> interaction_pattern \<Rightarrow> metric list" where
  "pattern_metrics u now p = [metric_at u now InteractionMetric (js ''messages_per_day'') (messagesPerDay p) 0,
     metric_at u now InteractionMetric (js ''avg_interval_min'') (avgInterval p) 0,
     metric_at u now InteractionMetric (js ''peak_hour'') (count_num (peakHour p)) 0]"

definition reading :: "'r option \<Rightarrow> ('r \<Rightarrow> 's \<Rightarrow> 's attempt) \<Rightarrow> 's \<Rightarrow> 's attempt" where
  "reading r f s = (case r of None \<Rightarrow> (s, False) | Some x \<Rightarrow> f x s)"

definition quantify_run :: "platform \<Rightarrow> 's INarrativeStore \<Rightarrow> jstr \<Rightarrow> int \<Rightarrow> 's \<Rightarrow> 's attempt" where
  "quantify_run P S u now s =
     and_then (and_then
       (reading (getRecentObservations S u 20 0 s)
          (\<lambda>xs. insert_metrics S (ma_metrics u now (calculateTrajectoryMA xs))) s)
       (\<lambda>s. reading (getRecentObservations S u 100 0 s)
          (\<lambda>xs. insert_metrics S (theme_metrics u now (calculateThemeDensity xs))) s))
       (\<lambda>s. reading (getRecentObservations S u 200 0 s)
          (\<lambda>xs. insert_metrics S (pattern_metrics u now (calculateInteractionPattern P xs))) s)"

section \<open>Reflection\<close>

text \<open>\<open>[i] content\<close>, one observation a line; \<open>- [domain] hypothesis (confidence: c)\<close>, one hypothesis a line.\<close>

definition observation_line :: "nat \<Rightarrow> observation \<Rightarrow> jstr" where
  "observation_line i x = js ''['' @ decimal i @ js ''] '' @ obs_content x"

definition hypothesis_line :: "platform \<Rightarrow> hypothesis \<Rightarrow> jstr" where
  "hypothesis_line P h = js ''- ['' @ hyp_domain h @ js ''] '' @ hyp_text h @ js '' (confidence: '' @ show_number P (hyp_confidence h) @ js '')''"

fun join_lines :: "jstr list \<Rightarrow> jstr" where
  "join_lines [] = []"
| "join_lines [x] = x"
| "join_lines (x # y # xs) = x @ [0x0A] @ join_lines (y # xs)"

definition version_of :: "platform \<Rightarrow> int \<Rightarrow> jstr" where
  "version_of P now = map (\<lambda>c. if c = 0x3A \<or> c = 0x2E then 0x2D else c) (iso_text P now)"

text \<open>A reflection that awaits the model: its user, its version, and the two texts it passed on.\<close>

record reflection =
  ref_user :: jstr
  ref_version :: jstr
  ref_observations :: jstr
  ref_previous :: jstr

datatype reflect_start = ReflectThrows | NothingToReflect | Awaiting reflection

definition reflect_run :: "platform \<Rightarrow> 's INarrativeStore \<Rightarrow> nat \<Rightarrow> bool \<Rightarrow> jstr \<Rightarrow> int \<Rightarrow> 's \<Rightarrow> reflect_start" where
  "reflect_run P S least callback u now s =
     (case countObservations S u s of None \<Rightarrow> ReflectThrows
      | Some n \<Rightarrow> if n < least then NothingToReflect else
        (case getRecentObservations S u least 0 s of None \<Rightarrow> ReflectThrows
         | Some xs \<Rightarrow> (case getHypothesesByConfidence S u (Fin 0) s of None \<Rightarrow> ReflectThrows
           | Some hs \<Rightarrow> if \<not> callback then NothingToReflect else
               Awaiting \<lparr>ref_user = u, ref_version = version_of P now,
                 ref_observations = join_lines (map2 observation_line [0..<length xs] xs),
                 ref_previous = (if hs = [] then [] else join_lines (map (hypothesis_line P) hs))\<rparr>)))"

text \<open>
  The answer of the model with the two readings of the clock for each hypothesis. What has been inserted before a throw
  stays.
\<close>

fun reflect_save :: "'s INarrativeStore \<Rightarrow> reflection \<Rightarrow> (hypothesis \<times> int \<times> int) list \<Rightarrow> 's \<Rightarrow> hypothesis list option \<times> 's" where
  "reflect_save S r [] s = (Some [], s)"
| "reflect_save S r ((h, t1, t2) # hs) s =
     (case insertHypothesis S (h\<lparr>hyp_id := 0, hyp_user := ref_user r, hyp_version := ref_version r, hyp_time := t1\<rparr>) s of
        None \<Rightarrow> (None, s)
      | Some (i, s') \<Rightarrow> (case reflect_save S r hs s' of
            (saved, s'') \<Rightarrow> (map_option ((#) (h\<lparr>hyp_id := i, hyp_user := ref_user r, hyp_version := ref_version r, hyp_time := t2\<rparr>)) saved, s'')))"

section \<open>Profiles\<close>

definition put_all_empty :: "jstr list \<Rightarrow> (jstr, jsnum list) jmap" where
  "put_all_empty names = fold (\<lambda>a. mput a []) names []"

text \<open>\<open>metricName.replace('_avg', '')\<close> drops the first occurrence.\<close>

fun drop_avg :: "jstr \<Rightarrow> jstr" where
  "drop_avg [] = []"
| "drop_avg (c # cs) = (if starts_with (c # cs) (js ''_avg'') then drop 4 (c # cs) else c # drop_avg cs)"

definition push_value :: "jstr list \<Rightarrow> metric \<Rightarrow> (jstr, jsnum list) jmap \<Rightarrow> (jstr, jsnum list) jmap" where
  "push_value names x m =
     (let a = drop_avg (met_name x) in
      if a \<in> set names then mput a ((case mget m a of Some vs \<Rightarrow> vs | None \<Rightarrow> []) @ [met_value x]) m else m)"

definition fill_default :: "jstr \<Rightarrow> (jstr, jsnum list) jmap \<Rightarrow> (jstr, jsnum list) jmap" where
  "fill_default a m = (if mget m a = Some [] then mput a [Fin (1/2)] m else m)"

definition extractTrajectoryAttributes :: "jstr list \<Rightarrow> metric list \<Rightarrow> (jstr, jsnum list) jmap" where
  "extractTrajectoryAttributes names xs = fold fill_default names (fold (push_value names) xs (put_all_empty names))"

definition sensitivity_of :: "jsnum \<Rightarrow> jsnum" where
  "sensitivity_of x = (if x = Fin 0 \<or> x = NaN then num (3/10) else x)"

definition trend_of :: "jsnum \<Rightarrow> jsnum list \<Rightarrow> trend" where
  "trend_of sens vs =
     (if length vs < 4 then Stable else
        (let half = length vs div 2;
             recent = ndiv (sum_of id (take half vs)) (count_num half);
             older = ndiv (sum_of id (drop half vs)) (count_num (length vs - half));
             s = sensitivity_of sens;
             diff = nsub recent older
         in if num_less s diff then Rising else if num_less diff (nneg s) then Falling else Stable))"

definition calculateTrends :: "jsnum \<Rightarrow> (jstr, jsnum list) jmap \<Rightarrow> (jstr, trend) jmap" where
  "calculateTrends sens m = map (\<lambda>(a, vs). (a, trend_of sens vs)) (object_entries m)"

definition min_confidence :: jsnum where "min_confidence = num (4/10)"

text \<open>The clock is read for the version and again for the time of the merge.\<close>

definition merge_profile :: "platform \<Rightarrow> 's INarrativeStore \<Rightarrow> jstr list \<Rightarrow> jsnum \<Rightarrow> jstr \<Rightarrow> int \<Rightarrow> int \<Rightarrow> 's \<Rightarrow> profile option \<times> 's" where
  "merge_profile P S names sens u now now' s =
     (case getHypothesesByConfidence S u min_confidence s of None \<Rightarrow> (None, s)
      | Some hs \<Rightarrow> (case getRecentMetrics S u (Some EmotionalTrajectory) 200 s of None \<Rightarrow> (None, s)
        | Some xs \<Rightarrow>
           (let attrs = extractTrajectoryAttributes names xs;
                p = \<lparr>prof_version = version_of P now, prof_user = u, prof_hypotheses = hs, prof_attributes = attrs,
                     prof_merged = now', prof_trends = calculateTrends sens attrs\<rparr>
            in (case saveProfileSnapshot S p s of None \<Rightarrow> (None, s) | Some (i, s') \<Rightarrow> (Some p, s')))))"

section \<open>The system\<close>

record partial_config =
  set_quantify :: "jstr option"
  set_reflect :: "jstr option"
  set_observations :: "nat option"
  set_threshold :: "jsnum option"
  set_names :: "jstr list option"
  set_retention :: "int option"
  set_sensitivity :: "jsnum option"

definition given :: "'a option \<Rightarrow> 'a \<Rightarrow> 'a" where
  "given x d = (case x of Some v \<Rightarrow> v | None \<Rightarrow> d)"

definition merge_config :: "partial_config \<Rightarrow> narrative_config \<Rightarrow> narrative_config" where
  "merge_config p c = \<lparr>quantifySchedule = given (set_quantify p) (quantifySchedule c),
     reflectSchedule = given (set_reflect p) (reflectSchedule c),
     minObservations = given (set_observations p) (minObservations c),
     significantThreshold = given (set_threshold p) (significantThreshold c),
     trajectoryNames = given (set_names p) (trajectoryNames c),
     retentionDays = given (set_retention p) (retentionDays c),
     patternSensitivity = given (set_sensitivity p) (patternSensitivity c)\<rparr>"

text \<open>
  The schedulers and the merger keep the object that the constructor made; \<open>updateConfig\<close> makes another for the system
  alone. A timer holds the user it was started for. \<open>reflections\<close> are the calls of the model that have not come back,
  \<open>uncaught\<close> counts what a timer's callback threw to the process.
\<close>

record 's narrative_system =
  sys_store :: 's
  own_config :: narrative_config
  first_config :: narrative_config
  reflectCallback :: bool
  quantify_timer :: "jstr option"
  reflect_timer :: "jstr option"
  sys_session :: jstr
  sys_user :: jstr
  sys_started :: bool
  reflections :: "reflection list"
  uncaught :: nat

definition new_narrative_system :: "partial_config \<Rightarrow> 's \<Rightarrow> 's narrative_system" where
  "new_narrative_system p s =
     (let c = merge_config p DEFAULT_NARRATIVE_CONFIG in
      \<lparr>sys_store = s, own_config = c, first_config = c, reflectCallback = False, quantify_timer = None, reflect_timer = None,
       sys_session = js ''default'', sys_user = js ''default'', sys_started = False, reflections = [], uncaught = 0\<rparr>)"

definition updateNarrativeConfig :: "partial_config \<Rightarrow> 's narrative_system \<Rightarrow> 's narrative_system" where
  "updateNarrativeConfig p N = N\<lparr>own_config := merge_config p (own_config N)\<rparr>"

definition setContext :: "jstr \<Rightarrow> jstr \<Rightarrow> 's narrative_system \<Rightarrow> 's narrative_system" where
  "setContext sid u N = N\<lparr>sys_session := sid, sys_user := u\<rparr>"

definition setReflectCallback :: "'s narrative_system \<Rightarrow> 's narrative_system" where
  "setReflectCallback N = N\<lparr>reflectCallback := True\<rparr>"

definition is_significant :: "narrative_config \<Rightarrow> jsnum \<Rightarrow> bool" where
  "is_significant c x = num_le (nsub (significantThreshold c) (Fin (1/2))) (nabs (nsub x (Fin (1/2))))"

text \<open>A throw of the store is logged and swallowed.\<close>

definition record_observation :: "'s INarrativeStore \<Rightarrow> create_observation \<Rightarrow> int \<Rightarrow> 's narrative_system \<Rightarrow> 's narrative_system" where
  "record_observation S p now N =
     (case insertObservation S p (sys_user N) (is_significant (own_config N) (new_intensity p)) now (sys_store N) of
        None \<Rightarrow> N | Some (i, s) \<Rightarrow> N\<lparr>sys_store := s\<rparr>)"

record expression =
  exp_text :: jstr
  exp_emotion :: "jstr option"
  exp_intensity :: "jsnum option"
  exp_valence :: "jsnum option"
  exp_arousal :: "jsnum option"
  exp_dominance :: "jsnum option"

definition recordFromExpression :: "'s INarrativeStore \<Rightarrow> expression \<Rightarrow> int \<Rightarrow> 's narrative_system \<Rightarrow> 's narrative_system" where
  "recordFromExpression S x now N = record_observation S
     \<lparr>new_session = sys_session N, new_content = exp_text x,
      new_emotion = (case exp_emotion x of Some (c # cs) \<Rightarrow> c # cs | _ \<Rightarrow> js ''neutral''),
      new_intensity = given (exp_intensity x) (Fin (1/2)), new_valence = given (exp_valence x) (Fin (1/2)),
      new_arousal = given (exp_arousal x) (Fin (1/2)), new_dominance = given (exp_dominance x) (Fin (1/2))\<rparr> now N"

text \<open>The first run of the quantifier comes before its timer: when it throws, the timer is not armed.\<close>

definition quantify_start :: "platform \<Rightarrow> 's INarrativeStore \<Rightarrow> jstr \<Rightarrow> int \<Rightarrow> 's narrative_system \<Rightarrow> 's narrative_system" where
  "quantify_start P S u now N =
     (if quantify_timer N \<noteq> None then N
      else (case quantify_run P S u now (sys_store N) of
          (s, True) \<Rightarrow> N\<lparr>sys_store := s, quantify_timer := Some u\<rparr>
        | (s, False) \<Rightarrow> N\<lparr>sys_store := s\<rparr>))"

definition reflect_start :: "jstr \<Rightarrow> 's narrative_system \<Rightarrow> 's narrative_system" where
  "reflect_start u N = (if reflect_timer N \<noteq> None then N else N\<lparr>reflect_timer := Some u\<rparr>)"

definition start_system :: "platform \<Rightarrow> 's INarrativeStore \<Rightarrow> jstr \<Rightarrow> int \<Rightarrow> 's narrative_system \<Rightarrow> 's narrative_system" where
  "start_system P S u now N =
     (if sys_started N then N
      else reflect_start u (quantify_start P S u now (N\<lparr>sys_started := True, sys_user := u\<rparr>)))"

definition stop_system :: "'s narrative_system \<Rightarrow> 's narrative_system" where
  "stop_system N = N\<lparr>quantify_timer := None, reflect_timer := None, sys_started := False\<rparr>"

definition deleteUserData :: "'s INarrativeStore \<Rightarrow> jstr \<Rightarrow> 's narrative_system \<Rightarrow> 's narrative_system" where
  "deleteUserData S u N = (case deleteUserRows S u (sys_store N) of None \<Rightarrow> N | Some s \<Rightarrow> N\<lparr>sys_store := s\<rparr>)"

definition getProfile :: "'s INarrativeStore \<Rightarrow> jstr \<Rightarrow> 's narrative_system \<Rightarrow> profile option" where
  "getProfile S u N = (case getLatestProfile S u (sys_store N) of None \<Rightarrow> None | Some p \<Rightarrow> p)"

definition mergeProfile :: "platform \<Rightarrow> 's INarrativeStore \<Rightarrow> jstr \<Rightarrow> int \<Rightarrow> int \<Rightarrow> 's narrative_system \<Rightarrow> profile option \<times> 's narrative_system" where
  "mergeProfile P S u now now' N =
     (case merge_profile P S (trajectoryNames (first_config N)) (patternSensitivity (first_config N)) u now now' (sys_store N) of
        (p, s) \<Rightarrow> (p, N\<lparr>sys_store := s\<rparr>))"

definition runQuantify :: "platform \<Rightarrow> 's INarrativeStore \<Rightarrow> jstr \<Rightarrow> int \<Rightarrow> 's narrative_system \<Rightarrow> 's narrative_system" where
  "runQuantify P S u now N = N\<lparr>sys_store := fst (quantify_run P S u now (sys_store N))\<rparr>"

text \<open>The part of \<open>runReflect\<close> before the model is called, and the two ways in which the call comes back.\<close>

definition runReflect :: "platform \<Rightarrow> 's INarrativeStore \<Rightarrow> jstr \<Rightarrow> int \<Rightarrow> 's narrative_system \<Rightarrow> 's narrative_system" where
  "runReflect P S u now N =
     (case reflect_run P S (minObservations (first_config N)) (reflectCallback N) u now (sys_store N) of
        Awaiting r \<Rightarrow> N\<lparr>reflections := reflections N @ [r]\<rparr> | _ \<Rightarrow> N)"

definition take_out :: "nat \<Rightarrow> 'a list \<Rightarrow> 'a list" where
  "take_out k xs = take k xs @ drop (Suc k) xs"

definition reflect_answer :: "'s INarrativeStore \<Rightarrow> nat \<Rightarrow> (hypothesis \<times> int \<times> int) list \<Rightarrow> 's narrative_system \<Rightarrow> 's narrative_system" where
  "reflect_answer S k hs N =
     (if k < length (reflections N)
      then N\<lparr>sys_store := snd (reflect_save S (reflections N ! k) hs (sys_store N)), reflections := take_out k (reflections N)\<rparr>
      else N)"

definition reflect_failure :: "nat \<Rightarrow> 's narrative_system \<Rightarrow> 's narrative_system" where
  "reflect_failure k N = N\<lparr>reflections := take_out k (reflections N)\<rparr>"

definition cleanOldData :: "'s INarrativeStore \<Rightarrow> int \<Rightarrow> 's narrative_system \<Rightarrow> nat \<times> 's narrative_system" where
  "cleanOldData S now N =
     (case cleanOldObservations S (retentionDays (own_config N)) now (sys_store N) of
        None \<Rightarrow> (0, N) | Some (n, s) \<Rightarrow> (n, N\<lparr>sys_store := s\<rparr>))"

definition getNarrativeStats :: "'s INarrativeStore \<Rightarrow> 's narrative_system \<Rightarrow> store_stats option" where
  "getNarrativeStats S N = store_getStats S (sys_store N)"

definition destroy_system :: "'s INarrativeStore \<Rightarrow> 's narrative_system \<Rightarrow> 's narrative_system" where
  "destroy_system S N = (let N = stop_system N in N\<lparr>sys_store := close_store S (sys_store N)\<rparr>)"

text \<open>The callbacks of the two timers. Only the reflection's promise has a handler.\<close>

definition quantify_tick :: "platform \<Rightarrow> 's INarrativeStore \<Rightarrow> int \<Rightarrow> 's narrative_system \<Rightarrow> 's narrative_system" where
  "quantify_tick P S now N =
     (case quantify_timer N of None \<Rightarrow> N
      | Some u \<Rightarrow> (case quantify_run P S u now (sys_store N) of
            (s, fine) \<Rightarrow> N\<lparr>sys_store := s, uncaught := (if fine then uncaught N else Suc (uncaught N))\<rparr>))"

definition reflect_tick :: "platform \<Rightarrow> 's INarrativeStore \<Rightarrow> int \<Rightarrow> 's narrative_system \<Rightarrow> 's narrative_system" where
  "reflect_tick P S now N = (case reflect_timer N of None \<Rightarrow> N | Some u \<Rightarrow> runReflect P S u now N)"

datatype narrative_event =
    Record create_observation int
  | Express expression int
  | Context jstr jstr
  | Configure partial_config
  | SetCallback
  | StartSystem jstr int
  | StopSystem
  | DeleteUser jstr
  | Merge jstr int int
  | Quantify jstr int
  | Reflect jstr int
  | Reflected nat "(hypothesis \<times> int \<times> int) list"
  | ReflectFailed nat
  | CleanOld int
  | QuantifyTick int
  | ReflectTick int
  | DestroySystem

fun narrative_step :: "platform \<Rightarrow> 's INarrativeStore \<Rightarrow> narrative_event \<Rightarrow> 's narrative_system \<Rightarrow> 's narrative_system" where
  "narrative_step P S (Record p now) N = record_observation S p now N"
| "narrative_step P S (Express x now) N = recordFromExpression S x now N"
| "narrative_step P S (Context sid u) N = setContext sid u N"
| "narrative_step P S (Configure p) N = updateNarrativeConfig p N"
| "narrative_step P S SetCallback N = setReflectCallback N"
| "narrative_step P S (StartSystem u now) N = start_system P S u now N"
| "narrative_step P S StopSystem N = stop_system N"
| "narrative_step P S (DeleteUser u) N = deleteUserData S u N"
| "narrative_step P S (Merge u now now') N = snd (mergeProfile P S u now now' N)"
| "narrative_step P S (Quantify u now) N = runQuantify P S u now N"
| "narrative_step P S (Reflect u now) N = runReflect P S u now N"
| "narrative_step P S (Reflected k hs) N = reflect_answer S k hs N"
| "narrative_step P S (ReflectFailed k) N = reflect_failure k N"
| "narrative_step P S (CleanOld now) N = snd (cleanOldData S now N)"
| "narrative_step P S (QuantifyTick now) N = quantify_tick P S now N"
| "narrative_step P S (ReflectTick now) N = reflect_tick P S now N"
| "narrative_step P S DestroySystem N = destroy_system S N"

section \<open>What the system asks of a store\<close>

datatype row = ObsRow observation | MetRow metric | HypRow hypothesis | ProfRow profile

fun row_user :: "row \<Rightarrow> jstr" where
  "row_user (ObsRow x) = obs_user x"
| "row_user (MetRow x) = met_user x"
| "row_user (HypRow x) = hyp_user x"
| "row_user (ProfRow x) = prof_user x"

text \<open>A profile whose hypotheses belong to its user and have at least the confidence that profiles demand.\<close>

definition trusted :: "profile \<Rightarrow> bool" where
  "trusted f \<longleftrightarrow> (\<forall>h\<in>set (prof_hypotheses f). hyp_user h = prof_user f \<and> num_le min_confidence (hyp_confidence h))"

text \<open>What an event may insert has the property \<open>good\<close>.\<close>

definition quantifies_well :: "(row \<Rightarrow> bool) \<Rightarrow> jstr \<Rightarrow> int \<Rightarrow> bool" where
  "quantifies_well good u now \<longleftrightarrow>
     (\<forall>xs x i. length xs \<le> 20 \<longrightarrow> (\<forall>y\<in>set xs. good (ObsRow y)) \<longrightarrow> x \<in> set (ma_metrics u now (calculateTrajectoryMA xs))
        \<longrightarrow> good (MetRow (x\<lparr>met_id := i\<rparr>)))
     \<and> (\<forall>x. met_user x = u \<longrightarrow> met_type x \<noteq> EmotionalTrajectory \<longrightarrow> good (MetRow x))"

fun admits :: "(row \<Rightarrow> bool) \<Rightarrow> 's narrative_system \<Rightarrow> narrative_event \<Rightarrow> bool" where
  "admits good N (Record p now) \<longleftrightarrow> (\<forall>i sig. good (ObsRow (observation_of i p (sys_user N) sig now)))"
| "admits good N (Express x now) \<longleftrightarrow> (\<forall>y. obs_user y = sys_user N \<longrightarrow> obs_valence y = given (exp_valence x) (Fin (1/2))
     \<longrightarrow> obs_arousal y = given (exp_arousal x) (Fin (1/2)) \<longrightarrow> obs_dominance y = given (exp_dominance x) (Fin (1/2)) \<longrightarrow> good (ObsRow y))"
| "admits good N (StartSystem u now) \<longleftrightarrow> quantifies_well good u now"
| "admits good N (Quantify u now) \<longleftrightarrow> quantifies_well good u now"
| "admits good N (QuantifyTick now) \<longleftrightarrow> (case quantify_timer N of None \<Rightarrow> True | Some u \<Rightarrow> quantifies_well good u now)"
| "admits good N (Merge u now now') \<longleftrightarrow> (\<forall>f. prof_user f = u \<longrightarrow> trusted f \<longrightarrow> good (ProfRow f))"
| "admits good N (Reflected k hs) \<longleftrightarrow> (k < length (reflections N) \<longrightarrow> (\<forall>h. hyp_user h = ref_user (reflections N ! k) \<longrightarrow> good (HypRow h)))"
| "admits good N _ \<longleftrightarrow> True"

lemma store_unchanged:
  "sys_store (updateNarrativeConfig c N) = sys_store N" "sys_store (setContext sid u N) = sys_store N"
  "sys_store (setReflectCallback N) = sys_store N" "sys_store (stop_system N) = sys_store N"
  "sys_store (runReflect P S u now N) = sys_store N" "sys_store (reflect_tick P S now N) = sys_store N"
  "sys_store (reflect_failure k N) = sys_store N"
  by (simp_all add: updateNarrativeConfig_def setContext_def setReflectCallback_def stop_system_def runReflect_def reflect_tick_def
      reflect_failure_def split: reflect_start.split option.split)

text \<open>Nothing of the system runs for a user, and an event does not concern one.\<close>

definition unattended :: "jstr \<Rightarrow> 's narrative_system \<Rightarrow> bool" where
  "unattended u N \<longleftrightarrow> quantify_timer N \<noteq> Some u \<and> reflect_timer N \<noteq> Some u \<and> sys_user N \<noteq> u
     \<and> (\<forall>r\<in>set (reflections N). ref_user r \<noteq> u)"

fun concerns :: "jstr \<Rightarrow> narrative_event \<Rightarrow> bool" where
  "concerns u (Context sid v) \<longleftrightarrow> v = u"
| "concerns u (StartSystem v now) \<longleftrightarrow> v = u"
| "concerns u (Merge v now now') \<longleftrightarrow> v = u"
| "concerns u (Quantify v now) \<longleftrightarrow> v = u"
| "concerns u (Reflect v now) \<longleftrightarrow> v = u"
| "concerns u _ \<longleftrightarrow> False"

lemma ma_metrics_user: "x \<in> set (ma_metrics u now ma) \<Longrightarrow> met_user x = u \<and> met_type x = EmotionalTrajectory"
  by (auto simp: ma_metrics_def metric_at_def)

lemma quantifies_other: "v \<noteq> u \<Longrightarrow> quantifies_well (\<lambda>r. row_user r \<noteq> u) v now"
  by (auto simp: quantifies_well_def dest: ma_metrics_user)

lemma unattended_admits: "unattended u N \<Longrightarrow> \<not> concerns u e \<Longrightarrow> admits (\<lambda>r. row_user r \<noteq> u) N e"
  by (cases e) (auto simp: unattended_def quantifies_other observation_of_def split: option.split)

lemma reflect_run_user: "reflect_run P S n cb u now s = Awaiting r \<Longrightarrow> ref_user r = u"
  by (auto simp: reflect_run_def split: option.splits if_splits)

lemma set_take_out: "set (take_out k xs) \<subseteq> set xs"
  by (auto simp: take_out_def dest: in_set_takeD in_set_dropD)

lemma runReflect_unattended: "unattended u N \<Longrightarrow> v \<noteq> u \<Longrightarrow> unattended u (runReflect P S v now N)"
  by (auto simp: runReflect_def unattended_def dest: reflect_run_user split: reflect_start.split)

lemma unattended_step: "unattended u N \<Longrightarrow> \<not> concerns u e \<Longrightarrow> unattended u (narrative_step P S e N)"
proof (cases e)
  case (Reflected k hs)
  then show "unattended u N \<Longrightarrow> ?thesis" using set_take_out [of k "reflections N"]
    by (auto simp: reflect_answer_def unattended_def)
next
  case (ReflectFailed k)
  then show "unattended u N \<Longrightarrow> ?thesis" using set_take_out [of k "reflections N"]
    by (auto simp: reflect_failure_def unattended_def)
next
  case (Reflect v now)
  then show "unattended u N \<Longrightarrow> \<not> concerns u e \<Longrightarrow> ?thesis" using runReflect_unattended by simp
next
  case (ReflectTick now)
  then show "unattended u N \<Longrightarrow> ?thesis"
    by (simp add: reflect_tick_def split: option.split) (metis runReflect_unattended unattended_def)
next
  case (StartSystem v now)
  then show "unattended u N \<Longrightarrow> \<not> concerns u e \<Longrightarrow> ?thesis"
    by (cases "quantify_run P S v now (sys_store N)")
      (auto simp: unattended_def start_system_def reflect_start_def quantify_start_def split: bool.split)
qed (auto simp: unattended_def record_observation_def recordFromExpression_def setContext_def updateNarrativeConfig_def
    setReflectCallback_def stop_system_def deleteUserData_def mergeProfile_def runQuantify_def cleanOldData_def quantify_tick_def
    destroy_system_def Let_def split: option.split prod.split)

lemma quantifies_trusted: "quantifies_well (\<lambda>r. \<forall>f. r = ProfRow f \<longrightarrow> trusted f) u now"
  by (simp add: quantifies_well_def)

lemma all_trusted_admits: "admits (\<lambda>r. \<forall>f. r = ProfRow f \<longrightarrow> trusted f) N e"
  by (cases e) (simp_all add: quantifies_trusted split: option.split)

locale narrative_store =
  fixes S :: "'s INarrativeStore"
    and ok :: "'s \<Rightarrow> bool"
    and rows :: "'s \<Rightarrow> row set"
  assumes put_observation: "ok s \<Longrightarrow> insertObservation S p u sig now s = Some (i, s') \<Longrightarrow>
        ok s' \<and> rows s' = insert (ObsRow (observation_of i p u sig now)) (rows s)"
    and put_metric: "ok s \<Longrightarrow> insertMetric S x s = Some (i, s') \<Longrightarrow> ok s' \<and> rows s' = insert (MetRow (x\<lparr>met_id := i\<rparr>)) (rows s)"
    and put_hypothesis: "ok s \<Longrightarrow> insertHypothesis S h s = Some (i, s') \<Longrightarrow>
        ok s' \<and> rows s' = insert (HypRow (h\<lparr>hyp_id := i\<rparr>)) (rows s)"
    and put_profile: "ok s \<Longrightarrow> saveProfileSnapshot S f s = Some (i, s') \<Longrightarrow> ok s' \<and> rows s' = insert (ProfRow f) (rows s)"
    and delete_rows: "ok s \<Longrightarrow> deleteUserRows S u s = Some s' \<Longrightarrow> ok s' \<and> rows s' = {r \<in> rows s. row_user r \<noteq> u}"
    and clean_rows: "ok s \<Longrightarrow> cleanOldObservations S days now s = Some (i, s') \<Longrightarrow> ok s' \<and> rows s' \<subseteq> rows s"
    and close_rows: "ok s \<Longrightarrow> ok (close_store S s) \<and> rows (close_store S s) = rows s"
    and read_observations: "ok s \<Longrightarrow> getRecentObservations S u n k s = Some xs \<Longrightarrow>
        length xs \<le> n \<and> (\<forall>x\<in>set xs. ObsRow x \<in> rows s \<and> obs_user x = u)"
    and read_metrics: "ok s \<Longrightarrow> getRecentMetrics S u (Some t) n s = Some ms \<Longrightarrow>
        \<forall>x\<in>set ms. MetRow x \<in> rows s \<and> met_user x = u \<and> met_type x = t"
    and read_confident: "ok s \<Longrightarrow> getHypothesesByConfidence S u c s = Some hs \<Longrightarrow>
        \<forall>h\<in>set hs. hyp_user h = u \<and> num_le c (hyp_confidence h)"
begin

text \<open>A property of single rows that everything which is inserted has.\<close>

definition all_rows :: "(row \<Rightarrow> bool) \<Rightarrow> 's \<Rightarrow> bool" where
  "all_rows good s \<longleftrightarrow> ok s \<and> (\<forall>r\<in>rows s. good r)"

lemma observation_rows:
  "all_rows good s \<Longrightarrow> insertObservation S p u sig now s = Some (i, s') \<Longrightarrow> good (ObsRow (observation_of i p u sig now)) \<Longrightarrow> all_rows good s'"
  using put_observation by (auto simp: all_rows_def)

lemma hypothesis_rows:
  "all_rows good s \<Longrightarrow> insertHypothesis S h s = Some (i, s') \<Longrightarrow> good (HypRow (h\<lparr>hyp_id := i\<rparr>)) \<Longrightarrow> all_rows good s'"
  using put_hypothesis by (auto simp: all_rows_def)

lemma profile_rows:
  "all_rows good s \<Longrightarrow> saveProfileSnapshot S f s = Some (i, s') \<Longrightarrow> good (ProfRow f) \<Longrightarrow> all_rows good s'"
  using put_profile by (auto simp: all_rows_def)

lemma delete_all_rows: "all_rows good s \<Longrightarrow> deleteUserRows S u s = Some s' \<Longrightarrow> all_rows good s'"
  using delete_rows by (auto simp: all_rows_def)

lemma clean_all_rows: "all_rows good s \<Longrightarrow> cleanOldObservations S days now s = Some (i, s') \<Longrightarrow> all_rows good s'"
  using clean_rows by (fastforce simp: all_rows_def)

lemma metric_rows:
  "all_rows good s \<Longrightarrow> insertMetric S x s = Some (i, s') \<Longrightarrow> good (MetRow (x\<lparr>met_id := i\<rparr>)) \<Longrightarrow> all_rows good s'"
  using put_metric by (auto simp: all_rows_def)

lemma insert_metrics_rows:
  "all_rows good s \<Longrightarrow> (\<And>x i. x \<in> set xs \<Longrightarrow> good (MetRow (x\<lparr>met_id := i\<rparr>))) \<Longrightarrow> all_rows good (fst (insert_metrics S xs s))"
proof (induction xs arbitrary: s)
  case (Cons x xs)
  then show ?case by (auto split: option.split intro!: Cons.IH intro: metric_rows)
qed simp

text \<open>A run of the quantifier inserts metrics of its user, made from observations of the user.\<close>

lemma quantify_rows:
  assumes ok: "all_rows good s"
    and ma: "\<And>xs x i. length xs \<le> 20 \<Longrightarrow> (\<forall>y\<in>set xs. good (ObsRow y)) \<Longrightarrow> x \<in> set (ma_metrics u now (calculateTrajectoryMA xs))
      \<Longrightarrow> good (MetRow (x\<lparr>met_id := i\<rparr>))"
    and other: "\<And>x. met_user x = u \<Longrightarrow> met_type x \<noteq> EmotionalTrajectory \<Longrightarrow> good (MetRow x)"
  shows "all_rows good (fst (quantify_run P S u now s))"
proof -
  have reading: "all_rows good (fst (reading (getRecentObservations S u n 0 s) (\<lambda>xs. insert_metrics S (f xs)) s))"
    if "all_rows good s" and "\<And>xs x i. length xs \<le> n \<Longrightarrow> (\<forall>y\<in>set xs. good (ObsRow y)) \<Longrightarrow> x \<in> set (f xs) \<Longrightarrow> good (MetRow (x\<lparr>met_id := i\<rparr>))"
    for n f s
  proof (cases "getRecentObservations S u n 0 s")
    case (Some xs)
    then have "length xs \<le> n" "\<forall>y\<in>set xs. good (ObsRow y)"
      using read_observations that(1) by (fastforce simp: all_rows_def)+
    then show ?thesis using that Some by (simp add: reading_def insert_metrics_rows)
  qed (simp add: reading_def that(1))
  have bind: "all_rows good (fst (and_then a f))" if "all_rows good (fst a)" "\<And>s. all_rows good s \<Longrightarrow> all_rows good (fst (f s))" for a f
    using that by (simp add: and_then_def)
  show ?thesis unfolding quantify_run_def
    by (intro bind reading ok ma other)
      (auto simp: theme_metrics_def pattern_metrics_def metric_at_def)
qed

lemma reflect_save_rows:
  "all_rows good s \<Longrightarrow> (\<And>h. hyp_user h = ref_user r \<Longrightarrow> good (HypRow h)) \<Longrightarrow> all_rows good (snd (reflect_save S r hs s))"
proof (induction hs arbitrary: s)
  case (Cons x hs)
  obtain h t1 t2 where x: "x = (h, t1, t2)" by (cases x)
  show ?case
  proof (cases "insertHypothesis S (h\<lparr>hyp_id := 0, hyp_user := ref_user r, hyp_version := ref_version r, hyp_time := t1\<rparr>) s")
    case (Some a)
    obtain i s' where [simp]: "a = (i, s')" by (cases a)
    have "all_rows good s'" using Some Cons.prems by (auto intro: hypothesis_rows)
    then show ?thesis using Some Cons by (simp add: x split: prod.split) (metis snd_conv)
  qed (use Cons.prems x in simp)
qed simp

lemma merge_rows:
  assumes "all_rows good s" and "\<And>f. prof_user f = u \<Longrightarrow> trusted f \<Longrightarrow> good (ProfRow f)"
  shows "all_rows good (snd (merge_profile P S names sens u now now' s))"
proof (cases "getHypothesesByConfidence S u min_confidence s")
  case (Some hs)
  then have "\<forall>h\<in>set hs. hyp_user h = u \<and> num_le min_confidence (hyp_confidence h)"
    using read_confident assms(1) by (auto simp: all_rows_def)
  then show ?thesis using assms Some
    by (auto simp: merge_profile_def Let_def trusted_def split: option.split intro: profile_rows)
qed (simp add: merge_profile_def assms(1))

lemma quantified: "all_rows good s \<Longrightarrow> quantifies_well good u now \<Longrightarrow> all_rows good (fst (quantify_run P S u now s))"
  by (rule quantify_rows) (auto simp: quantifies_well_def)

lemma record_rows:
  "all_rows good (sys_store N) \<Longrightarrow> (\<forall>i sig. good (ObsRow (observation_of i p (sys_user N) sig now))) \<Longrightarrow>
   all_rows good (sys_store (record_observation S p now N))"
  by (auto simp: record_observation_def split: option.split intro: observation_rows)

lemma start_rows:
  "all_rows good (sys_store N) \<Longrightarrow> quantifies_well good u now \<Longrightarrow> all_rows good (sys_store (start_system P S u now N))"
  using quantified [of good "sys_store N" u now P]
  by (cases "quantify_run P S u now (sys_store N)") (auto simp: start_system_def reflect_start_def quantify_start_def split: bool.split)

lemma step_rows:
  assumes "all_rows good (sys_store N)" and "admits good N e"
  shows "all_rows good (sys_store (narrative_step P S e N))"
proof (cases e)
  case (StartSystem u now)
  then show ?thesis using start_rows assms by simp
next
  case (Record p now)
  then show ?thesis using record_rows assms by simp
next
  case (Express x now)
  then show ?thesis using assms by (auto simp: recordFromExpression_def observation_of_def intro!: record_rows)
next
  case (Merge u now now')
  then show ?thesis using assms merge_rows [of good "sys_store N" u P]
    by (simp add: mergeProfile_def split: prod.split) (metis snd_conv)
next
  case (Reflected k hs)
  then show ?thesis using assms by (auto simp: reflect_answer_def intro!: reflect_save_rows)
next
  case (QuantifyTick now)
  then show ?thesis using assms quantified [of good "sys_store N" _ now P]
    by (auto simp: quantify_tick_def split: option.split prod.split) (metis fst_conv)
next
  case (DeleteUser u)
  then show ?thesis using assms by (auto simp: deleteUserData_def split: option.split intro: delete_all_rows)
next
  case (CleanOld now)
  then show ?thesis using assms by (auto simp: cleanOldData_def split: option.split intro: clean_all_rows)
next
  case DestroySystem
  then show ?thesis using assms close_rows by (auto simp: destroy_system_def stop_system_def all_rows_def Let_def)
next
  case (Quantify u now)
  then show ?thesis using assms quantified [of good "sys_store N" u now P] by (simp add: runQuantify_def)
qed (use assms in \<open>simp_all add: store_unchanged\<close>)

text \<open>Invariants of runs: stored profiles are trusted, and averages stay where the observations are.\<close>

lemma run_rows:
  assumes "all_rows good (sys_store N)" and "\<And>(N :: 's narrative_system) e. e \<in> set es \<Longrightarrow> admits good N e"
  shows "all_rows good (sys_store (fold (narrative_step P S) es N))"
  using assms
proof (induction es arbitrary: N)
  case (Cons e es)
  have "all_rows good (sys_store (narrative_step P S e N))" using Cons.prems by (auto intro!: step_rows)
  then show ?case using Cons.IH Cons.prems(2) by simp
qed simp

lemma run_trusted:
  "all_rows (\<lambda>r. \<forall>f. r = ProfRow f \<longrightarrow> trusted f) (sys_store N) \<Longrightarrow>
   all_rows (\<lambda>r. \<forall>f. r = ProfRow f \<longrightarrow> trusted f) (sys_store (fold (narrative_step P S) es N))"
  by (rule run_rows) (auto intro: all_trusted_admits)

text \<open>Nothing is held of a user, no timer runs for the user, no call of the model is open, and the context is another's.\<close>

definition gone :: "jstr \<Rightarrow> 's narrative_system \<Rightarrow> bool" where
  "gone u N \<longleftrightarrow> all_rows (\<lambda>r. row_user r \<noteq> u) (sys_store N) \<and> unattended u N"

lemma gone_step: "gone u N \<Longrightarrow> \<not> concerns u e \<Longrightarrow> gone u (narrative_step P S e N)"
  using step_rows [of "\<lambda>r. row_user r \<noteq> u" N e P] unattended_admits [of u N e] unattended_step [of u N e P S] by (simp add: gone_def)

lemma gone_run: "gone u N \<Longrightarrow> \<forall>e\<in>set es. \<not> concerns u e \<Longrightarrow> gone u (fold (narrative_step P S) es N)"
  by (induction es arbitrary: N) (simp_all add: gone_step)

lemma deleted_gone:
  assumes "ok (sys_store N)" and "deleteUserRows S u (sys_store N) \<noteq> None" and "unattended u N"
  shows "gone u (narrative_step P S (DeleteUser u) N)"
proof -
  obtain s where s: "deleteUserRows S u (sys_store N) = Some s" using assms(2) by blast
  show ?thesis using delete_rows [OF assms(1) s] assms(3) s
    by (simp add: gone_def all_rows_def deleteUserData_def unattended_def)
qed

end

section \<open>The two stores keep the interface\<close>

definition mem_rows :: "memory_store \<Rightarrow> row set" where
  "mem_rows m = ObsRow ` set (mem_observations m) \<union> MetRow ` set (mem_metrics m) \<union> HypRow ` set (mem_hypotheses m)
     \<union> ProfRow ` set (mem_profiles m)"

definition sql_rows :: "sql_store \<Rightarrow> row set" where
  "sql_rows q = ObsRow ` set (observations q) \<union> MetRow ` set (quantitative_metrics q) \<union> HypRow ` set (reflective_hypotheses q)
     \<union> ProfRow ` set (profile_snapshots q)"

lemma mem_delete_rows: "mem_rows (mem_deleteUserData u m) = {r \<in> mem_rows m. row_user r \<noteq> u}"
  by (auto simp: mem_rows_def mem_deleteUserData_def)

interpretation on_arrays: narrative_store MemoryStore "\<lambda>m. True" mem_rows
  by unfold_locales
    (auto simp: mem_delete_rows store_defs mem_rows_def mem_getRecentObservations_def mem_getRecentMetrics_def
       mem_getHypothesesByConfidence_def has_type_def dest!: in_set_takeD in_set_dropD)

lemma order_desc_set: "sorts_rows E \<Longrightarrow> set (order_by (arrange_desc E) k rs) = set rs"
  by (auto simp: sorts_rows_def order_by_set)

interpretation on_database: narrative_store "NarrativeStore E" "\<lambda>q. sorts_rows E" sql_rows
  for E :: sql_engine
  by unfold_locales
    (auto simp: sql_deleteUserData_def sql_rows_def sql_getRecentObservations_def sql_getRecentMetrics_def sql_close_def
       sql_getHypothesesByConfidence_def has_type_def order_desc_set json_refs_def statement_def insert_row_def
       sql_insertObservation_def sql_insertMetric_def sql_insertHypothesis_def sql_saveProfileSnapshot_def sql_cleanOldObservations_def
       Let_def split: if_splits dest!: in_set_takeD in_set_dropD)

section \<open>Properties\<close>

definition working :: "sql_store \<Rightarrow> bool" where
  "working q \<longleftrightarrow> db_open q \<and> \<not> db_refuses q"

text \<open>C13: The right to be forgotten. When no timer runs for a user, no call of the model is open for the user and the context is another
  user's, then after a deletion nothing of the user is in the database, whatever happens afterwards that does not name the
  user.\<close>

theorem forgotten_stays_forgotten:
  assumes "sorts_rows E" and "working (sys_store N)" and "unattended u N" and "\<forall>e\<in>set es. \<not> concerns u e"
  shows "\<forall>r\<in>sql_rows (sys_store (fold (narrative_step P (NarrativeStore E)) (DeleteUser u # es) N)). row_user r \<noteq> u"
proof -
  have "on_database.gone E u (narrative_step P (NarrativeStore E) (DeleteUser u) N)"
    using assms(1-3) by (intro on_database.deleted_gone) (simp_all add: sql_deleteUserData_def statement_def working_def)
  from on_database.gone_run [OF this assms(4)] show ?thesis
    by (simp add: on_database.gone_def on_database.all_rows_def del: narrative_step.simps)
qed

definition platform0 :: platform where
  "platform0 = \<lparr>local_hour = (\<lambda>t. nat (t div 3600000) mod 24), iso_text = (\<lambda>t. js ''2025-01-01T00:00:00.000Z''), show_number = (\<lambda>x. [])\<rparr>"

definition no_partial :: partial_config where
  "no_partial = \<lparr>set_quantify = None, set_reflect = None, set_observations = None, set_threshold = None, set_names = None,
     set_retention = None, set_sensitivity = None\<rparr>"

theorem forgotten_stays_forgotten_witness:
  "js ''u'' \<notin> row_user ` sql_rows (sys_store (fold (narrative_step platform0 (NarrativeStore stable_engine))
       (DeleteUser (js ''u'') # [Record sample_observation 10, StopSystem])
       (new_narrative_system no_partial (new_sql_store\<lparr>observations := [observation_of 1 sample_observation (js ''u'') True 5]\<rparr>))))"
proof -
  let ?N = "new_narrative_system no_partial (new_sql_store\<lparr>observations := [observation_of 1 sample_observation (js ''u'') True 5]\<rparr>)"
  have "working (sys_store ?N)" "unattended (js ''u'') ?N"
    by (simp_all add: new_narrative_system_def working_def new_sql_store_def unattended_def Let_def)
  from forgotten_stays_forgotten [OF stable_engine_sorts this, of "[Record sample_observation 10, StopSystem]" platform0]
  show ?thesis by (auto simp del: fold_simps)
qed

lemma insert_metrics_sql:
  "working q \<Longrightarrow> \<forall>x\<in>set xs. met_value x \<noteq> NaN \<Longrightarrow>
   \<exists>q' ids. insert_metrics (NarrativeStore E) xs q = (q', True) \<and> working q' \<and> length ids = length xs
     \<and> quantitative_metrics q' = quantitative_metrics q @ map2 (\<lambda>x i. x\<lparr>met_id := i\<rparr>) xs ids \<and> observations q' = observations q"
proof (induction xs arbitrary: q)
  case (Cons x xs)
  let ?i = "Suc (last_metric q)"
  let ?q = "q\<lparr>quantitative_metrics := quantitative_metrics q @ [x\<lparr>met_id := ?i\<rparr>], last_metric := ?i\<rparr>"
  have "working ?q" "\<forall>x\<in>set xs. met_value x \<noteq> NaN" using Cons.prems by (simp_all add: working_def)
  from Cons.IH [OF this] obtain q' ids where "insert_metrics (NarrativeStore E) xs ?q = (q', True)" "working q'" "length ids = length xs"
      "quantitative_metrics q' = quantitative_metrics ?q @ map2 (\<lambda>x i. x\<lparr>met_id := i\<rparr>) xs ids" "observations q' = observations q"
    by auto
  moreover have "NaN \<noteq> met_value x" using Cons.prems(2) by auto
  ultimately show ?case using Cons.prems
    by (intro exI [of _ q'] exI [of _ "?i # ids"]) (simp add: sql_insertMetric_def insert_row_def statement_def working_def)
qed simp

lemma order_by_Nil [simp]: "sorts_rows E \<Longrightarrow> order_by (arrange_desc E) k [] = []"
  by (metis order_desc_set set_empty)

lemma quantify_nothing:
  assumes "sorts_rows E" and "working q" and "filter (\<lambda>x. obs_user x = u) (observations q) = []"
  shows "\<exists>q' ms. quantify_run P (NarrativeStore E) u now q = (q', True) \<and> working q' \<and> length ms = 6 \<and> (\<forall>x\<in>set ms. met_user x = u)
    \<and> quantitative_metrics q' = quantitative_metrics q @ ms"
proof -
  let ?m1 = "ma_metrics u now (calculateTrajectoryMA [])" and ?m3 = "pattern_metrics u now (calculateInteractionPattern P [])"
  have v: "\<forall>x\<in>set ?m1. met_value x \<noteq> NaN \<and> met_user x = u" "\<forall>x\<in>set ?m3. met_value x \<noteq> NaN \<and> met_user x = u"
    by (simp_all add: ma_metrics_def pattern_metrics_def metric_at_def calculateTrajectoryMA_def calculateInteractionPattern_def count_num_def)
  have r: "getRecentObservations (NarrativeStore E) u n 0 q = Some []" if "working q" "filter (\<lambda>x. obs_user x = u) (observations q) = []" for n q
    using that assms(1) by (simp add: sql_getRecentObservations_def statement_def working_def)
  obtain q1 i1 where q1: "insert_metrics (NarrativeStore E) ?m1 q = (q1, True)" "working q1" "length i1 = length ?m1"
      "quantitative_metrics q1 = quantitative_metrics q @ map2 (\<lambda>x i. x\<lparr>met_id := i\<rparr>) ?m1 i1" "observations q1 = observations q"
    using insert_metrics_sql [OF assms(2), of ?m1 E] v by auto
  obtain q3 i3 where q3: "insert_metrics (NarrativeStore E) ?m3 q1 = (q3, True)" "working q3" "length i3 = length ?m3"
      "quantitative_metrics q3 = quantitative_metrics q1 @ map2 (\<lambda>x i. x\<lparr>met_id := i\<rparr>) ?m3 i3" "observations q3 = observations q1"
    using insert_metrics_sql [OF q1(2), of ?m3 E] v by auto
  have themes: "theme_metrics u now (calculateThemeDensity []) = []"
    by (simp add: theme_metrics_def calculateThemeDensity_def object_entries_def)
  have run: "quantify_run P (NarrativeStore E) u now q = (q3, True)"
    using r [OF assms(2,3)] r [OF q1(2)] assms(3) q1 q3
    by (simp add: quantify_run_def reading_def and_then_def themes del: sql_ops)
  let ?ms = "map2 (\<lambda>x i. x\<lparr>met_id := i\<rparr>) ?m1 i1 @ map2 (\<lambda>x i. x\<lparr>met_id := i\<rparr>) ?m3 i3"
  have "length ?m1 = 3" "length ?m3 = 3" by (simp_all add: ma_metrics_def pattern_metrics_def)
  then have "length ?ms = 6" using q1(3) q3(3) by simp
  moreover have "\<forall>y\<in>set ?ms. met_user y = u"
    using v by (auto dest!: set_zip_leftD)
  moreover have "quantitative_metrics q3 = quantitative_metrics q @ ?ms" unfolding q3(4) q1(4) by (rule append.assoc)
  ultimately show ?thesis using run q3(2) by (intro exI [of _ q3] exI [of _ ?ms] conjI)
qed

lemma delete_empties:
  assumes "working (sys_store N)"
  shows "\<exists>q. narrative_step P (NarrativeStore E) (DeleteUser u) N = N\<lparr>sys_store := q\<rparr> \<and> working q
    \<and> filter (\<lambda>x. obs_user x = u) (observations q) = [] \<and> filter (\<lambda>x. met_user x = u) (quantitative_metrics q) = []
    \<and> filter (\<lambda>x. hyp_user x = u) (reflective_hypotheses q) = []"
  using assms by (auto simp: deleteUserData_def sql_deleteUserData_def statement_def working_def)

text \<open>C26: A deletion is not final while the system runs for the user. The next tick of the quantifier's timer stores six new metrics of
  the deleted user, and the answer to a call of the model that was open at the deletion is stored as hypotheses of the
  user.\<close>

theorem deleted_user_returns:
  assumes "sorts_rows E" and "working (sys_store N)"
  shows "(quantify_timer N = Some u \<longrightarrow>
      length (filter (\<lambda>x. met_user x = u) (quantitative_metrics (sys_store
        (fold (narrative_step P (NarrativeStore E)) [DeleteUser u, QuantifyTick now] N)))) = 6)
    \<and> (reflections N = [r] \<longrightarrow> ref_user r = u \<longrightarrow> hyp_confidence h \<noteq> NaN \<longrightarrow>
      map hyp_text (filter (\<lambda>x. hyp_user x = u) (reflective_hypotheses (sys_store
        (fold (narrative_step P (NarrativeStore E)) [DeleteUser u, Reflected 0 [(h, t1, t2)]] N)))) = [hyp_text h])"
proof -
  obtain q where q: "narrative_step P (NarrativeStore E) (DeleteUser u) N = N\<lparr>sys_store := q\<rparr>" "working q"
      "filter (\<lambda>x. obs_user x = u) (observations q) = []" "filter (\<lambda>x. met_user x = u) (quantitative_metrics q) = []"
      "filter (\<lambda>x. hyp_user x = u) (reflective_hypotheses q) = []"
    using delete_empties [OF assms(2)] by blast
  obtain q' ms where m: "quantify_run P (NarrativeStore E) u now q = (q', True)" "length ms = 6" "\<forall>x\<in>set ms. met_user x = u"
      "quantitative_metrics q' = quantitative_metrics q @ ms"
    using quantify_nothing [OF assms(1) q(2,3)] by blast
  have "filter (\<lambda>x. met_user x = u) (quantitative_metrics q') = ms" using m(3,4) q(4) by simp
  then have "length (filter (\<lambda>x. met_user x = u) (quantitative_metrics (sys_store
      (fold (narrative_step P (NarrativeStore E)) [DeleteUser u, QuantifyTick now] N)))) = 6" if "quantify_timer N = Some u"
    using that m(1,2) by (simp add: q(1) quantify_tick_def del: narrative_step.simps(8))
  moreover have "map hyp_text (filter (\<lambda>x. hyp_user x = u) (reflective_hypotheses (sys_store
      (fold (narrative_step P (NarrativeStore E)) [DeleteUser u, Reflected 0 [(h, t1, t2)]] N)))) = [hyp_text h]"
    if "reflections N = [r]" "ref_user r = u" "hyp_confidence h \<noteq> NaN"
  proof -
    have "NaN \<noteq> hyp_confidence h" using that(3) by simp
    then show ?thesis using that(1,2) q(2,5)
      by (simp add: q(1) reflect_answer_def sql_insertHypothesis_def insert_row_def statement_def working_def
          del: narrative_step.simps(8))
  qed
  ultimately show ?thesis by blast
qed

definition running_system :: "sql_store narrative_system" where
  "running_system = (new_narrative_system no_partial new_sql_store)\<lparr>quantify_timer := Some (js ''u''), sys_started := True\<rparr>"

theorem deleted_user_returns_witness:
  "length (filter (\<lambda>x. met_user x = js ''u'') (quantitative_metrics (sys_store
     (fold (narrative_step platform0 (NarrativeStore stable_engine)) [DeleteUser (js ''u''), QuantifyTick 100] running_system)))) = 6"
  using deleted_user_returns [of stable_engine running_system "js ''u''" platform0 100, OF stable_engine_sorts]
  by (simp add: running_system_def working_def new_narrative_system_def new_sql_store_def Let_def del: fold_simps)

text \<open>C10: Every profile that the system has stored names only hypotheses of its own user, each with at least the confidence that
  profiles demand, whatever the model answered and whatever the engine refused.\<close>

theorem profiles_are_trusted:
  assumes "sorts_rows E"
  shows "\<forall>f\<in>set (profile_snapshots (sys_store (fold (narrative_step P (NarrativeStore E)) es (new_narrative_system c new_sql_store)))).
    trusted f"
proof -
  have "on_database.all_rows E (\<lambda>r. \<forall>f. r = ProfRow f \<longrightarrow> trusted f) (sys_store (new_narrative_system c new_sql_store))"
    unfolding on_database.all_rows_def using assms by (simp add: new_narrative_system_def new_sql_store_def sql_rows_def Let_def)
  from on_database.run_trusted [OF this, of P es] show ?thesis
    by (auto simp: on_database.all_rows_def sql_rows_def)
qed

theorem profiles_are_trusted_witness:
  "list_all trusted (profile_snapshots (sys_store (fold (narrative_step platform0 (NarrativeStore stable_engine))
     [Record sample_observation 10, Merge (js ''default'') 20 21] (new_narrative_system no_partial new_sql_store))))"
  unfolding list_all_iff by (rule profiles_are_trusted [OF stable_engine_sorts])

section \<open>Averages and trends\<close>

lemma sum_of_range:
  "\<forall>x\<in>set xs. in_range 0 1 (f x) \<Longrightarrow> length xs \<le> 2 ^ 20 \<Longrightarrow> in_range 0 (of_nat (length xs)) (sum_of f xs)"
proof (induction xs rule: rev_induct)
  case (snoc x xs)
  have "in_range (0 + 0) (of_nat (length xs) + 1) (nadd (sum_of f xs) (f x))"
  proof (rule nadd_range)
    show "dbl (of_nat (length xs) + 1) = of_nat (length xs) + 1"
      using dbl_of_nat [of "Suc (length xs)"] snoc.prems(2) by (simp add: add.commute)
    have "of_nat (length xs + 1) \<le> (of_nat (2 ^ 20) :: rat)" using snoc.prems(2) by (intro of_nat_mono) simp
    then have "of_nat (length xs) + 1 \<le> (2 ^ 64 :: rat)" by simp
    then show "of_nat (length xs) + 1 < finite_limit" by (rule finite_limit_gt)
  qed (use snoc in simp_all)
  then show ?case by (simp add: sum_of_def add.commute)
qed (simp add: sum_of_def)

text \<open>Observations whose three values satisfy \<open>Q\<close>, and trajectory metrics with one of three names and such a value.\<close>

definition ma_names :: "jstr list" where "ma_names = [js ''valence_avg'', js ''arousal_avg'', js ''dominance_avg'']"

fun trajectory_row :: "(jsnum \<Rightarrow> bool) \<Rightarrow> row \<Rightarrow> bool" where
  "trajectory_row Q (ObsRow x) \<longleftrightarrow> Q (obs_valence x) \<and> Q (obs_arousal x) \<and> Q (obs_dominance x)"
| "trajectory_row Q (MetRow x) \<longleftrightarrow> (met_type x = EmotionalTrajectory \<longrightarrow> met_name x \<in> set ma_names \<and> Q (met_value x))"
| "trajectory_row Q _ \<longleftrightarrow> True"

definition averages_keep :: "(jsnum \<Rightarrow> bool) \<Rightarrow> bool" where
  "averages_keep Q \<longleftrightarrow> Q (Fin (1/2)) \<and> (\<forall>(f :: observation \<Rightarrow> jsnum) xs. xs \<noteq> [] \<longrightarrow> length xs \<le> 20 \<longrightarrow> (\<forall>x\<in>set xs. Q (f x))
     \<longrightarrow> Q (ndiv (sum_of f xs) (count_num (length xs))))"

lemma averages_keep_unit: "averages_keep (in_range 0 1)"
  by (auto simp: averages_keep_def count_num_def intro!: ndiv_average sum_of_range)

lemma averages_keep_all: "averages_keep (\<lambda>x. True)"
  by (simp add: averages_keep_def)

fun observes :: "(jsnum \<Rightarrow> bool) \<Rightarrow> narrative_event \<Rightarrow> bool" where
  "observes Q (Record p now) \<longleftrightarrow> Q (new_valence p) \<and> Q (new_arousal p) \<and> Q (new_dominance p)"
| "observes Q (Express x now) \<longleftrightarrow> Q (given (exp_valence x) (Fin (1/2))) \<and> Q (given (exp_arousal x) (Fin (1/2))) \<and> Q (given (exp_dominance x) (Fin (1/2)))"
| "observes Q _ \<longleftrightarrow> True"

lemma observes_all [simp]: "observes (\<lambda>x. True) e"
  by (cases e) simp_all

lemma trajectory_quantified:
  assumes "averages_keep Q"
  shows "quantifies_well (trajectory_row Q) u now"
  unfolding quantifies_well_def
proof (intro conjI allI impI)
  fix xs x i
  assume "length xs \<le> 20" "\<forall>y\<in>set xs. trajectory_row Q (ObsRow y)" "x \<in> set (ma_metrics u now (calculateTrajectoryMA xs))"
  then show "trajectory_row Q (MetRow (x\<lparr>met_id := i\<rparr>))"
    using assms unfolding averages_keep_def
    by (cases "xs = []") (auto simp: ma_metrics_def metric_at_def ma_names_def calculateTrajectoryMA_def)
qed auto

lemma trajectory_admits: "averages_keep Q \<Longrightarrow> observes Q e \<Longrightarrow> admits (trajectory_row Q) N e"
  by (cases e) (auto simp: trajectory_quantified observation_of_def split: option.split)

lemma trajectory_run:
  assumes "sorts_rows E" and "averages_keep Q" and "\<forall>e\<in>set es. observes Q e"
  shows "\<forall>r\<in>sql_rows (sys_store (fold (narrative_step P (NarrativeStore E)) es (new_narrative_system c new_sql_store))). trajectory_row Q r"
proof -
  have "on_database.all_rows E (trajectory_row Q) (sys_store (new_narrative_system c new_sql_store))"
    unfolding on_database.all_rows_def using assms(1) by (simp add: new_narrative_system_def new_sql_store_def sql_rows_def Let_def)
  then have "on_database.all_rows E (trajectory_row Q) (sys_store (fold (narrative_step P (NarrativeStore E)) es (new_narrative_system c new_sql_store)))"
    by (rule on_database.run_rows) (use assms in \<open>simp add: trajectory_admits\<close>)
  then show ?thesis unfolding on_database.all_rows_def by simp
qed

lemma metric_row: "x \<in> set (quantitative_metrics q) \<Longrightarrow> \<forall>r\<in>sql_rows q. trajectory_row Q r \<Longrightarrow> trajectory_row Q (MetRow x)"
proof -
  assume x: "x \<in> set (quantitative_metrics q)" and q: "\<forall>r\<in>sql_rows q. trajectory_row Q r"
  have "MetRow x \<in> sql_rows q" using x by (simp add: sql_rows_def)
  with q show ?thesis by blast
qed

text \<open>C28: When every observation has its valence, arousal and dominance between 0 and 1, so has every average that the quantifier
  has stored, in the floating-point arithmetic of the code.\<close>

theorem averages_stay_in_unit:
  assumes "sorts_rows E" and "\<forall>e\<in>set es. observes (in_range 0 1) e"
  shows "\<forall>x\<in>set (quantitative_metrics (sys_store (fold (narrative_step P (NarrativeStore E)) es (new_narrative_system c new_sql_store)))).
    met_type x \<noteq> EmotionalTrajectory \<or> in_range 0 1 (met_value x)"
  using trajectory_run [OF assms(1) averages_keep_unit assms(2), of P c] by (auto dest: metric_row)

theorem averages_stay_in_unit_witness:
  "list_all (\<lambda>x. in_range 0 1 (met_value x)) (filter (\<lambda>x. met_type x = EmotionalTrajectory)
     (quantitative_metrics (sys_store (fold (narrative_step platform0 (NarrativeStore stable_engine))
        [Record sample_observation 10, Quantify (js ''default'') 20] (new_narrative_system no_partial new_sql_store)))))"
  using averages_stay_in_unit [OF stable_engine_sorts, of "[Record sample_observation 10, Quantify (js ''default'') 20]" platform0 no_partial]
  by (auto simp: list_all_iff sample_observation_def simp del: fold_simps narrative_step.simps)

lemma step_config: "first_config (narrative_step P S e N) = first_config N"
  by (cases e) (auto simp: record_observation_def recordFromExpression_def setContext_def updateNarrativeConfig_def
    setReflectCallback_def stop_system_def deleteUserData_def mergeProfile_def runQuantify_def cleanOldData_def quantify_tick_def
    destroy_system_def Let_def start_system_def reflect_start_def quantify_start_def runReflect_def reflect_tick_def
    reflect_answer_def reflect_failure_def split: option.split prod.split reflect_start.split bool.split)

lemma run_config: "first_config (fold (narrative_step P S) es N) = first_config N"
  by (induction es arbitrary: N) (simp_all add: step_config)

lemma drop_avg_names: "n \<in> set ma_names \<Longrightarrow> drop_avg n \<in> {js ''valence'', js ''arousal'', js ''dominance''}"
  by (auto simp: ma_names_def js_def)

lemma push_other: "drop_avg (met_name x) \<notin> set names \<Longrightarrow> push_value names x m = m"
  by (simp add: push_value_def Let_def)

lemma push_all_other: "\<forall>x\<in>set xs. drop_avg (met_name x) \<notin> set names \<Longrightarrow> fold (push_value names) xs m = m"
  by (induction xs) (simp_all add: push_other)

lemma order_desc_members: "sorts_rows E \<Longrightarrow> x \<in> set (take n (order_by (arrange_desc E) k rs)) \<Longrightarrow> x \<in> set rs"
  by (metis in_set_takeD order_desc_set)

definition default_names :: "jstr list" where "default_names = trajectoryNames DEFAULT_NARRATIVE_CONFIG"

lemma default_attributes:
  assumes "\<forall>x\<in>set xs. met_name x \<in> set ma_names"
  shows "extractTrajectoryAttributes default_names xs = map (\<lambda>a. (a, [Fin (1/2)])) default_names"
proof -
  have "drop_avg (met_name x) \<notin> set default_names" if "x \<in> set xs" for x
    using drop_avg_names [of "met_name x"] assms that by (auto simp: default_names_def DEFAULT_NARRATIVE_CONFIG_def)
  then have "extractTrajectoryAttributes default_names xs = fold fill_default default_names (put_all_empty default_names)"
    by (simp add: extractTrajectoryAttributes_def push_all_other)
  also have "\<dots> = map (\<lambda>a. (a, [Fin (1/2)])) default_names"
    by (simp add: default_names_def DEFAULT_NARRATIVE_CONFIG_def put_all_empty_def fill_default_def)
  finally show ?thesis .
qed

lemma default_trends: "calculateTrends sens (map (\<lambda>a. (a, [Fin (1/2)])) default_names) = map (\<lambda>a. (a, Stable)) default_names"
  by (simp add: calculateTrends_def object_entries_def array_index_def default_names_def DEFAULT_NARRATIVE_CONFIG_def js_Cons
      is_digit_def trend_of_def)

lemma merged_parts:
  "merge_profile P S names sens u t t' s = (Some f, s') \<Longrightarrow>
   \<exists>xs. getRecentMetrics S u (Some EmotionalTrajectory) 200 s = Some xs \<and> prof_attributes f = extractTrajectoryAttributes names xs
     \<and> prof_trends f = calculateTrends sens (prof_attributes f)"
  by (auto simp: merge_profile_def Let_def split: option.splits)

text \<open>C29: With the default names of trajectory attributes the profile shows no trajectory. Whatever has been observed and quantified,
  every attribute of a merged profile is the single placeholder one half and every trend is stable: no metric has
  a name that the merger looks for.\<close>

theorem default_trajectories_are_constant:
  assumes "sorts_rows E" and "set_names c = None"
    and "mergeProfile P (NarrativeStore E) u t t' (fold (narrative_step P (NarrativeStore E)) es (new_narrative_system c new_sql_store)) = (Some f, N)"
  shows "prof_attributes f = map (\<lambda>a. (a, [Fin (1/2)])) default_names \<and> prof_trends f = map (\<lambda>a. (a, Stable)) default_names"
proof -
  let ?N = "fold (narrative_step P (NarrativeStore E)) es (new_narrative_system c new_sql_store)"
  let ?q = "sys_store ?N"
  have names: "trajectoryNames (first_config ?N) = default_names"
    using assms(2) by (simp add: run_config new_narrative_system_def Let_def merge_config_def given_def default_names_def)
  from assms(3) obtain s' where "merge_profile P (NarrativeStore E) default_names (patternSensitivity (first_config ?N)) u t t' ?q = (Some f, s')"
    by (auto simp: mergeProfile_def names split: prod.splits)
  from merged_parts [OF this] obtain xs where xs: "getRecentMetrics (NarrativeStore E) u (Some EmotionalTrajectory) 200 ?q = Some xs"
      and f: "prof_attributes f = extractTrajectoryAttributes default_names xs"
        "prof_trends f = calculateTrends (patternSensitivity (first_config ?N)) (prof_attributes f)"
    by blast
  have "met_name x \<in> set ma_names" if "x \<in> set xs" for x
  proof -
    have "x \<in> set (quantitative_metrics ?q) \<and> met_type x = EmotionalTrajectory"
      using on_database.read_metrics [OF assms(1) xs] that by (auto simp: sql_rows_def)
    then show ?thesis
      using metric_row [OF _ trajectory_run [OF assms(1) averages_keep_all, of es P c]] by simp
  qed
  then show ?thesis using f default_attributes default_trends by auto
qed

lemma merge_goes_through:
  "sorts_rows E \<Longrightarrow> working (sys_store N) \<Longrightarrow> \<exists>f N'. mergeProfile P (NarrativeStore E) u t t' N = (Some f, N')"
  by (simp add: mergeProfile_def merge_profile_def sql_getHypothesesByConfidence_def sql_getRecentMetrics_def statement_def
      working_def sql_saveProfileSnapshot_def Let_def)

theorem default_trajectories_are_constant_witness:
  "\<exists>f N. mergeProfile platform0 (NarrativeStore stable_engine) (js ''default'') 50 51
      (fold (narrative_step platform0 (NarrativeStore stable_engine)) [Record sample_observation 10]
         (new_narrative_system no_partial new_sql_store)) = (Some f, N)
    \<and> prof_trends f = map (\<lambda>a. (a, Stable)) default_names"
proof -
  let ?N = "fold (narrative_step platform0 (NarrativeStore stable_engine)) [Record sample_observation 10] (new_narrative_system no_partial new_sql_store)"
  have "working (sys_store ?N)"
    by (simp add: working_def record_observation_def new_narrative_system_def new_sql_store_def Let_def sql_insertObservation_def
        insert_row_def statement_def sample_observation_def)
  then obtain f N where f: "mergeProfile platform0 (NarrativeStore stable_engine) (js ''default'') 50 51 ?N = (Some f, N)"
    using merge_goes_through [OF stable_engine_sorts] by blast
  have "set_names no_partial = None" by (simp add: no_partial_def)
  from default_trajectories_are_constant [OF stable_engine_sorts this f] f show ?thesis by blast
qed

text \<open>A first run that throws leaves the system started with its quantifier never armed, and starting again does nothing.\<close>

lemma failed_start_disarms:
  assumes "\<not> sys_started N" and "quantify_timer N = None" and "quantify_run P S u now (sys_store N) = (s, False)"
  shows "quantify_timer (start_system P S u now N) = None \<and> start_system P S u later (start_system P S u now N) = start_system P S u now N"
  using assms by (simp add: start_system_def quantify_start_def reflect_start_def)

text \<open>A throw in the callback of the quantifier's timer reaches the process.\<close>

lemma tick_reaches_process:
  "quantify_timer N = Some u \<Longrightarrow> \<not> snd (quantify_run P S u now (sys_store N)) \<Longrightarrow> uncaught (quantify_tick P S now N) = Suc (uncaught N)"
  by (cases "quantify_run P S u now (sys_store N)") (simp add: quantify_tick_def)

end
