(* ===== verification/EmotionInferrer.thy ===== *)
theory EmotionInferrer
  imports PhraseSelector Persona
begin

text \<open>
  From the model's answer to what the user sees and the avatar shows
  (\<open>livedesign/src/llm-service/emotion-inferrer.ts\<close>, \<open>agent/expresser.ts\<close>, \<open>agent/perceptor.ts\<close>): reading the
  answer as JSON or as a text with tags, the emotion and action with values on the three axes, the final expression, and
  the guess of the user's emotion. The regular expressions are written out: their pieces are literals and one character class.
  The JSON parser, which gives the members of an answer with the types of the cast, and lower-casing are parameters.
\<close>

section \<open>Emotions and actions\<close>

record emotion_update =
  up_emotion :: jstr
  up_action :: "jstr option"
  up_intensity :: jsnum
  up_vad :: affective

record inference =
  inf_text :: jstr
  inf_update :: emotion_update

type_synonym action_map = "(jstr, jstr) jmap"

definition DEFAULT_EMOTION_ACTION_MAP :: action_map where
  "DEFAULT_EMOTION_ACTION_MAP = [(js ''happy'', js ''smile''), ([0x9AD8, 0x5174], js ''smile''), (js ''sad'', js ''sigh''), ([0x60B2, 0x4F24], js ''sigh''),
     (js ''angry'', js ''shake''), ([0x6124, 0x6012], js ''shake''), (js ''surprised'', js ''cheer''), ([0x60CA, 0x8BB6], js ''cheer''),
     (js ''calm'', js ''idle''), ([0x5E73, 0x9759], js ''idle''), (js ''confused'', js ''think''), ([0x56F0, 0x60D1], js ''think''),
     (js ''anxious'', js ''think''), ([0x7126, 0x8651], js ''think''), (js ''shy'', js ''blush''), ([0x5BB3, 0x7F9E], js ''blush''),
     (js ''excited'', js ''cheer''), ([0x5174, 0x594B], js ''cheer''), (js ''tired'', js ''yawn''), ([0x75B2, 0x5026], js ''yawn'')]"

definition merge_map :: "action_map \<Rightarrow> action_map \<Rightarrow> action_map" where
  "merge_map base extra = fold (\<lambda>(k, v). mput k v) extra base"

definition new_inferrer :: "action_map option \<Rightarrow> action_map" where
  "new_inferrer custom = merge_map DEFAULT_EMOTION_ACTION_MAP (case custom of Some m \<Rightarrow> m | None \<Rightarrow> [])"

definition updateEmotionActionMap :: "action_map \<Rightarrow> action_map \<Rightarrow> action_map" where
  "updateEmotionActionMap extra M = merge_map M extra"

definition resetToDefaultMap :: "action_map \<Rightarrow> action_map" where
  "resetToDefaultMap M = DEFAULT_EMOTION_ACTION_MAP"

text \<open>A name that every object inherits gives a function, which is no text (\<open>None\<close>); the names are in lower case.\<close>

definition mapEmotionToAction :: "action_map \<Rightarrow> jstr \<Rightarrow> jstr option" where
  "mapEmotionToAction M e =
     (case mget M e of
        Some a \<Rightarrow> Some (if a = [] then js ''idle'' else a)
      | None \<Rightarrow> if e = js ''constructor'' \<or> e = js ''__proto__'' then None else Some (js ''idle''))"

definition normalizeEmotion :: "(jstr \<Rightarrow> jstr) \<Rightarrow> jstr \<Rightarrow> jstr" where
  "normalizeEmotion lower e = trim (lower e)"

definition clampIntensity :: "jsnum \<Rightarrow> jsnum" where
  "clampIntensity v = nclamp (Fin 0) (Fin 1) v"

definition buildVADPayload :: "jstr \<Rightarrow> jstr \<Rightarrow> jsnum \<Rightarrow> emotion_update" where
  "buildVADPayload e a i = \<lparr>up_emotion = e, up_action = Some a, up_intensity = clampIntensity i, up_vad = emotionToVAD e\<rparr>"

section \<open>Answers in JSON\<close>

text \<open>What follows the first occurrence of a text, with what ends there.\<close>

fun through :: "jstr \<Rightarrow> jstr \<Rightarrow> (jstr \<times> jstr) option" where
  "through p [] = (if p = [] then Some ([], []) else None)"
| "through p (c # cs) =
     (if starts_with (c # cs) p then Some (p, drop (length p) (c # cs))
      else map_option (\<lambda>(a, r). (c # a, r)) (through p cs))"

text \<open>
  From the first brace to the first closing brace after the first \<open>"emotion"\<close> after the first \<open>"text"\<close>: the
  repetitions are lazy, and when there is no match from the first brace there is none from a later one.
\<close>

definition json_block :: "jstr \<Rightarrow> jstr option" where
  "json_block s =
     (case through [0x007B] s of None \<Rightarrow> None
      | Some (a, r) \<Rightarrow> (case through [0x0022, 0x0074, 0x0065, 0x0078, 0x0074, 0x0022] r of None \<Rightarrow> None
        | Some (b, r2) \<Rightarrow> (case through [0x0022, 0x0065, 0x006D, 0x006F, 0x0074, 0x0069, 0x006F, 0x006E, 0x0022] r2 of None \<Rightarrow> None
          | Some (c, r3) \<Rightarrow> (case through [0x007D] r3 of None \<Rightarrow> None
            | Some (d, _) \<Rightarrow> Some ([0x007B] @ b @ c @ d)))))"

record parsed_answer =
  ans_text :: "jstr option"
  ans_emotion :: "jstr option"
  ans_action :: "jstr option"
  ans_intensity :: "jsnum option"
  ans_valence :: "jsnum option"
  ans_arousal :: "jsnum option"
  ans_dominance :: "jsnum option"

definition non_empty :: "jstr option \<Rightarrow> jstr option" where
  "non_empty x = (if x = Some [] then None else x)"

definition number_else :: "jsnum option \<Rightarrow> jsnum \<Rightarrow> jsnum" where
  "number_else x d = (case x of Some v \<Rightarrow> v | None \<Rightarrow> d)"

definition answer_inference :: "(jstr \<Rightarrow> jstr) \<Rightarrow> action_map \<Rightarrow> parsed_answer \<Rightarrow> inference option" where
  "answer_inference lower M p =
     (case non_empty (ans_text p) of None \<Rightarrow> None
      | Some t \<Rightarrow>
          (let e = normalizeEmotion lower (case non_empty (ans_emotion p) of Some x \<Rightarrow> x | None \<Rightarrow> js ''calm'');
               v = emotionToVAD e
           in Some \<lparr>inf_text = t, inf_update = \<lparr>up_emotion = e,
                up_action = (case non_empty (ans_action p) of Some a \<Rightarrow> Some a | None \<Rightarrow> mapEmotionToAction M e),
                up_intensity = clampIntensity (number_else (ans_intensity p) (Fin (1/2))),
                up_vad = \<lparr>valence = number_else (ans_valence p) (valence v), arousal = number_else (ans_arousal p) (arousal v),
                          dominance = number_else (ans_dominance p) (dominance v)\<rparr>\<rparr>\<rparr>))"

definition tryParseJsonMode :: "(jstr \<Rightarrow> jstr) \<Rightarrow> (jstr \<Rightarrow> parsed_answer option) \<Rightarrow> action_map \<Rightarrow> jstr \<Rightarrow> inference option" where
  "tryParseJsonMode lower parse M s =
     (case json_block s of None \<Rightarrow> None
      | Some b \<Rightarrow> (case parse b of None \<Rightarrow> None | Some p \<Rightarrow> answer_inference lower M p))"

section \<open>Answers with tags\<close>

definition tag_letter :: "16 word \<Rightarrow> bool" where
  "tag_letter c \<longleftrightarrow> 0x41 \<le> c \<and> c \<le> 0x5A \<or> 0x61 \<le> c \<and> c \<le> 0x7A \<or> 0x4E00 \<le> c \<and> c \<le> 0x9FFF"

text \<open>A tag at the head of a text: the opening, white space, letters, the closing bracket. The match and the letters.\<close>

definition tag_here :: "jstr \<Rightarrow> jstr \<Rightarrow> (jstr \<times> jstr) option" where
  "tag_here opening s =
     (if \<not> starts_with s opening then None
      else (let r = drop (length opening) s; ws = takeWhile is_space r; r2 = dropWhile is_space r;
                name = takeWhile tag_letter r2
            in if name \<noteq> [] \<and> starts_with (dropWhile tag_letter r2) [0x005D]
               then Some (opening @ ws @ name @ [0x005D], name) else None))"

fun find_tag :: "jstr \<Rightarrow> jstr \<Rightarrow> (jstr \<times> jstr) option" where
  "find_tag opening [] = None"
| "find_tag opening (c # cs) = (case tag_here opening (c # cs) of Some r \<Rightarrow> Some r | None \<Rightarrow> find_tag opening cs)"

definition emotion_open :: jstr where "emotion_open = js ''[emotion:''"
definition action_open :: jstr where "action_open = js ''[action:''"

text \<open>\<open>text.replace(match, '')\<close> with a text as the pattern.\<close>

fun remove_first :: "jstr \<Rightarrow> jstr \<Rightarrow> jstr" where
  "remove_first p [] = []"
| "remove_first p (c # cs) = (if starts_with (c # cs) p then drop (length p) (c # cs) else c # remove_first p cs)"

definition parseTagMode :: "(jstr \<Rightarrow> jstr) \<Rightarrow> action_map \<Rightarrow> jstr \<Rightarrow> inference" where
  "parseTagMode lower M s =
     (let em = find_tag emotion_open s; am = find_tag action_open s;
          e = (case em of Some (_, n) \<Rightarrow> normalizeEmotion lower n | None \<Rightarrow> js ''calm'');
          t1 = (case em of Some (m, _) \<Rightarrow> trim (remove_first m s) | None \<Rightarrow> s);
          t2 = (case am of Some (m, _) \<Rightarrow> trim (remove_first m t1) | None \<Rightarrow> t1);
          a = (case am of Some (_, n) \<Rightarrow> Some n | None \<Rightarrow> mapEmotionToAction M e)
      in \<lparr>inf_text = t2, inf_update = \<lparr>up_emotion = e, up_action = a, up_intensity = Fin (1/2), up_vad = emotionToVAD e\<rparr>\<rparr>)"

definition infer :: "(jstr \<Rightarrow> jstr) \<Rightarrow> (jstr \<Rightarrow> parsed_answer option) \<Rightarrow> action_map \<Rightarrow> jstr \<Rightarrow> inference" where
  "infer lower parse M s = (case tryParseJsonMode lower parse M s of Some r \<Rightarrow> r | None \<Rightarrow> parseTagMode lower M s)"

section \<open>The expression\<close>

definition modulateIntensityBySituational :: "jsnum \<Rightarrow> modulation \<Rightarrow> jsnum" where
  "modulateIntensityBySituational base m =
     nclamp (Fin 0) (Fin 1) (nmul base (nadd (num (8/10)) (nmul (expressiveness m) (num (4/10)))))"

record expression_result =
  res_text :: jstr
  res_update :: emotion_update
  res_phrase :: "phrase_match option"

definition express :: "inference \<Rightarrow> affective \<Rightarrow> phrase_match option \<Rightarrow> modulation option \<Rightarrow> expression_result" where
  "express i v phrase m =
     (let base = up_intensity (inf_update i);
          x = (case m of Some k \<Rightarrow> modulateIntensityBySituational base k | None \<Rightarrow> base);
          y = (case phrase of Some p \<Rightarrow> modulateIntensityByCatchphrase x p | None \<Rightarrow> x)
      in \<lparr>res_text = (case phrase of Some p \<Rightarrow> injectCatchphrase (inf_text i) p | None \<Rightarrow> inf_text i),
          res_update = \<lparr>up_emotion = up_emotion (inf_update i), up_action = up_action (inf_update i), up_intensity = y, up_vad = v\<rparr>,
          res_phrase = phrase\<rparr>)"

definition buildHeartbeat :: "affective \<Rightarrow> emotion_update" where
  "buildHeartbeat v = \<lparr>up_emotion = js ''neutral'', up_action = Some (js ''idle''), up_intensity = Fin (1/2), up_vad = v\<rparr>"

section \<open>Perception\<close>

record perception =
  per_emotion :: affective_event_type
  per_intensity :: jsnum
  per_tools :: bool
  per_keywords :: "jstr list"

definition EMOTION_PATTERNS :: "(jstr list \<times> affective_event_type) list" where
  "EMOTION_PATTERNS = [
     ([[0x96BE, 0x8FC7], [0x4F24, 0x5FC3], [0x54ED], js ''sad'', js ''cry'', js ''miss'', [0x5FC3, 0x75DB], js ''hurt'', [0x5B64, 0x5355]], UserSad),
     ([[0x5F00, 0x5FC3], [0x9AD8, 0x5174], [0x54C8, 0x54C8], js ''haha'', js ''happy'', js ''love'', [0x559C, 0x6B22], js ''great'', js ''wonderful'', [0x68D2]], UserHappy),
     ([[0x751F, 0x6C14], [0x6124, 0x6012], [0x6C14, 0x6B7B], js ''angry'', js ''mad'', js ''furious'', [0x70E6], [0x8BA8, 0x538C]], UserAngry),
     ([[0x62C5, 0x5FC3], [0x7126, 0x8651], [0x7D27, 0x5F20], js ''anxious'', js ''worry'', js ''nervous'', js ''panic'', [0x5BB3, 0x6015]], UserAnxious)]"

text \<open>The leftmost match of an alternation of literals; at one place the first alternative wins.\<close>

fun first_alternative :: "jstr list \<Rightarrow> jstr \<Rightarrow> jstr option" where
  "first_alternative ws [] = None"
| "first_alternative ws (c # cs) =
     (case find (\<lambda>w. starts_with (c # cs) w) ws of Some w \<Rightarrow> Some w | None \<Rightarrow> first_alternative ws cs)"

fun first_pattern :: "(jstr list \<times> affective_event_type) list \<Rightarrow> jstr \<Rightarrow> (affective_event_type \<times> jstr) option" where
  "first_pattern [] s = None"
| "first_pattern ((ws, t) # ps) s = (case first_alternative ws s of Some w \<Rightarrow> Some (t, w) | None \<Rightarrow> first_pattern ps s)"

definition TOOL_WORDS :: "jstr list" where
  "TOOL_WORDS = [[0x641C, 0x7D22], [0x67E5], js ''search'', js ''find'', [0x8BA1, 0x7B97], js ''calc'', js ''compute'', js ''calculate'', [0x7FFB, 0x8BD1], js ''translate'',
     [0x5929, 0x6C14], js ''weather'', js ''temperature'']"

fun looks_up :: "jstr \<Rightarrow> bool" where
  "looks_up [] \<longleftrightarrow> False"
| "looks_up (c # cs) \<longleftrightarrow>
     (starts_with (c # cs) (js ''look'') \<and> drop 4 (c # cs) \<noteq> [] \<and> is_space (hd (drop 4 (c # cs)))
        \<and> starts_with (dropWhile is_space (drop 4 (c # cs))) (js ''up''))
     \<or> looks_up cs"

definition perceive :: "(jstr \<Rightarrow> jstr) \<Rightarrow> jstr \<Rightarrow> perception" where
  "perceive lower payload =
     (let content = lower payload; m = first_pattern EMOTION_PATTERNS content;
          tools = list_ex (str_includes content) TOOL_WORDS \<or> looks_up content
      in \<lparr>per_emotion = (case m of Some (t, _) \<Rightarrow> t | None \<Rightarrow> LlmResponse), per_intensity = num (3/10), per_tools = tools,
          per_keywords = (case m of Some (_, w) \<Rightarrow> [w] | None \<Rightarrow> []) @ (if tools then [js ''requires_tools''] else [])\<rparr>)"

section \<open>Tags are read and removed\<close>

lemma find_tag_skip: "0x5B \<notin> set u \<Longrightarrow> find_tag (0x5B # op) (u @ v) = find_tag (0x5B # op) v"
  by (induction u) (auto simp: tag_here_def)

lemma takeWhile_dropWhile_all: "\<forall>c\<in>set e. P c \<Longrightarrow> \<not> P d \<Longrightarrow> takeWhile P (e @ d # r) = e \<and> dropWhile P (e @ d # r) = d # r"
  by (simp add: takeWhile_append2 dropWhile_append2)

lemma tag_letter_facts: "tag_letter c \<Longrightarrow> c \<noteq> 0x5B \<and> c \<noteq> 0x5D \<and> c \<noteq> 0x7B \<and> \<not> is_space c"
  by (auto simp: tag_letter_def is_space_def line_terminators_def word_le_nat_alt)

lemma tag_here_tag:
  assumes "\<forall>c\<in>set e. tag_letter c" and "e \<noteq> []"
  shows "tag_here op (op @ e @ 0x5D # r) = Some (op @ e @ [0x5D], e)"
proof -
  have s: "takeWhile is_space (e @ 0x5D # r) = []" "dropWhile is_space (e @ 0x5D # r) = e @ 0x5D # r"
    using assms tag_letter_facts by (cases e; simp)+
  have "\<not> tag_letter 0x5D" by (simp add: tag_letter_def)
  then show ?thesis
    using assms takeWhile_dropWhile_all [of e tag_letter "0x5D" r]
    by (simp add: tag_here_def Let_def s starts_with_iff)
qed

lemma remove_first_skip: "0x5B \<notin> set u \<Longrightarrow> remove_first (0x5B # m) (u @ (0x5B # m) @ r) = u @ r"
proof (induction u)
  case Nil
  have "starts_with (0x5B # m @ r) (0x5B # m)" by (simp add: starts_with_iff)
  then show ?case by simp
qed auto

lemma dropWhile_spaces: "\<forall>c\<in>set u. is_space c \<Longrightarrow> \<not> is_space c \<Longrightarrow> dropWhile is_space (u @ c # w) = c # w"
  by (induction u) auto

lemma trim_outer:
  assumes "\<forall>c\<in>set u. is_space c" and "\<forall>c\<in>set v. is_space c" and "s \<noteq> []" and "\<not> is_space (hd s)" and "\<not> is_space (last s)"
  shows "trim (u @ s @ v) = s"
proof -
  obtain c s' where c: "s = c # s'" using assms(3) by (cases s) auto
  obtain d s'' where d: "rev s = d # s''" "d = last s" using assms(3) by (metis hd_rev list.exhaust_sel rev_is_Nil_conv)
  have "dropWhile is_space (u @ s @ v) = s @ v"
    using dropWhile_spaces [OF assms(1), of c "s' @ v"] assms(4) by (simp add: c)
  moreover have "dropWhile is_space (rev v @ rev s) = rev s"
    using dropWhile_spaces [of "rev v" d s''] assms(2,5) by (simp add: d)
  ultimately show ?thesis by (simp add: trim_def)
qed

definition plain_reply :: "jstr \<Rightarrow> bool" where
  "plain_reply t \<longleftrightarrow> t \<noteq> [] \<and> \<not> is_space (hd t) \<and> \<not> is_space (last t) \<and> 0x5B \<notin> set t \<and> 0x7B \<notin> set t"

definition tag_name :: "jstr \<Rightarrow> bool" where
  "tag_name e \<longleftrightarrow> e \<noteq> [] \<and> (\<forall>c\<in>set e. tag_letter c)"

definition with_tags :: "jstr \<Rightarrow> jstr \<Rightarrow> jstr \<Rightarrow> jstr" where
  "with_tags t e a = t @ js '' '' @ emotion_open @ e @ js ''] '' @ action_open @ a @ js '']''"

lemma through_none: "c \<notin> set s \<Longrightarrow> through (c # p) s = None"
  by (induction s) auto

lemma tag_name_chars: "tag_name e \<Longrightarrow> c \<in> set e \<Longrightarrow> c \<noteq> 0x5B \<and> c \<noteq> 0x7B \<and> \<not> is_space c"
  using tag_letter_facts by (auto simp: tag_name_def)

lemma no_json: "0x7B \<notin> set s \<Longrightarrow> json_block s = None"
  by (simp add: json_block_def through_none)

lemma find_emotion:
  assumes "plain_reply t" and "tag_name e"
  shows "find_tag emotion_open (with_tags t e a) = Some (emotion_open @ e @ [0x5D], e)"
proof -
  obtain op where op: "emotion_open = 0x5B # op" by (simp add: emotion_open_def js_def)
  have "find_tag emotion_open (with_tags t e a) = find_tag emotion_open (emotion_open @ e @ 0x5D # js '' '' @ action_open @ a @ js '']'')"
    using find_tag_skip [of "t @ js '' ''" op] assms(1)
    by (simp add: op with_tags_def plain_reply_def js_def)
  moreover have "tag_here emotion_open (emotion_open @ e @ 0x5D # r) = Some (emotion_open @ e @ [0x5D], e)" for r
    using assms(2) by (intro tag_here_tag) (simp_all add: tag_name_def)
  ultimately show ?thesis by (simp add: op)
qed

lemma find_action:
  assumes "plain_reply t" and "tag_name e" and "tag_name a"
  shows "find_tag action_open (with_tags t e a) = Some (action_open @ a @ [0x5D], a)"
proof -
  let ?A = "action_open @ a @ 0x5D # []"
  obtain op where op: "action_open = 0x5B # op" by (simp add: action_open_def js_def)
  let ?u = "js ''emotion:'' @ e @ js ''] ''"
  have "find_tag action_open (with_tags t e a) = find_tag action_open (0x5B # ?u @ ?A)"
    using find_tag_skip [of "t @ js '' ''" op "0x5B # ?u @ ?A"] assms(1)
    by (simp add: op with_tags_def plain_reply_def js_def emotion_open_def)
  also have "\<dots> = find_tag action_open (?u @ ?A)"
    by (simp add: tag_here_def action_open_def js_def)
  also have "\<dots> = find_tag action_open ?A"
  proof -
    have "0x5B \<notin> set ?u" using tag_name_chars [OF assms(2)] by (auto simp: js_def)
    then show ?thesis unfolding op by (rule find_tag_skip)
  qed
  also have "\<dots> = Some (action_open @ a @ [0x5D], a)"
    using tag_here_tag [of a action_open "[]"] assms(3) by (simp add: op tag_name_def)
  finally show ?thesis .
qed

lemma remove_emotion:
  assumes "plain_reply t"
  shows "trim (remove_first (emotion_open @ e @ [0x5D]) (with_tags t e a)) = t @ js ''  '' @ action_open @ a @ js '']''"
proof -
  obtain op where op: "emotion_open = 0x5B # op" by (simp add: emotion_open_def js_def)
  have r: "remove_first (emotion_open @ e @ [0x5D]) (with_tags t e a) = (t @ js '' '') @ js '' '' @ action_open @ a @ js '']''"
    using remove_first_skip [of "t @ js '' ''" "op @ e @ [0x5D]" "js '' '' @ action_open @ a @ js '']''"] assms
    by (simp add: op with_tags_def plain_reply_def js_def)
  have "last (js '']'') = 0x5D" "\<not> is_space 0x5D" by (simp_all add: js_def is_space_def line_terminators_def)
  then have "\<not> is_space (last (t @ js ''  '' @ action_open @ a @ js '']''))" by simp
  then show ?thesis
    using trim_outer [of "[]" "[]" "t @ js ''  '' @ action_open @ a @ js '']''"] assms
    by (simp add: r plain_reply_def js_def)
qed

lemma remove_action:
  assumes "plain_reply t"
  shows "trim (remove_first (action_open @ a @ [0x5D]) (t @ js ''  '' @ action_open @ a @ js '']'')) = t"
proof -
  obtain op where op: "action_open = 0x5B # op" by (simp add: action_open_def js_def)
  have "remove_first (action_open @ a @ [0x5D]) (t @ js ''  '' @ action_open @ a @ js '']'') = t @ js ''  ''"
    using remove_first_skip [of "t @ js ''  ''" "op @ a @ [0x5D]" "[]"] assms by (simp add: op plain_reply_def js_def)
  moreover have "\<forall>c\<in>set (js ''  ''). is_space c" by (simp add: js_def is_space_def)
  ultimately show ?thesis using trim_outer [of "[]" "js ''  ''" t] assms by (simp add: plain_reply_def)
qed

text \<open>C23: A reply with an emotion and an action in tags is taken apart again: the user gets the reply without the tags, the
  avatar the action, and the emotion, in lower case, comes with its place in the unit cube and half the intensity.\<close>

theorem tagged_reply_is_read:
  assumes "plain_reply t" and "tag_name e" and "tag_name a"
  shows "infer lower parse M (with_tags t e a) = \<lparr>inf_text = t, inf_update = \<lparr>up_emotion = normalizeEmotion lower e, up_action = Some a,
      up_intensity = Fin (1/2), up_vad = emotionToVAD (normalizeEmotion lower e)\<rparr>\<rparr>"
proof -
  have "0x7B \<notin> set (with_tags t e a)"
    using assms(1) tag_name_chars [OF assms(2)] tag_name_chars [OF assms(3)]
    by (auto simp: with_tags_def plain_reply_def emotion_open_def action_open_def js_def)
  then show ?thesis
    by (simp add: infer_def tryParseJsonMode_def no_json parseTagMode_def find_emotion [OF assms(1,2)] find_action [OF assms]
        remove_emotion [OF assms(1)] remove_action [OF assms(1)] Let_def del: remove_first.simps)
qed

theorem tagged_reply_is_read_witness:
  "infer ascii_lower (\<lambda>b. None) DEFAULT_EMOTION_ACTION_MAP (with_tags (js ''Hi there'') (js ''Happy'') (js ''wave''))
     = \<lparr>inf_text = js ''Hi there'', inf_update = \<lparr>up_emotion = normalizeEmotion ascii_lower (js ''Happy''), up_action = Some (js ''wave''),
         up_intensity = Fin (1/2), up_vad = emotionToVAD (normalizeEmotion ascii_lower (js ''Happy''))\<rparr>\<rparr>"
  by (rule tagged_reply_is_read)
    (simp_all add: plain_reply_def tag_name_def js_def is_space_def line_terminators_def tag_letter_def)

text \<open>C40: An answer in JSON whose emotion stands before its text is not read as JSON. The user gets the answer as it stands,
  braces and quotes included, and the emotion is calm.\<close>

theorem emotion_before_text_is_shown_raw:
  assumes "through [0x0022, 0x0074, 0x0065, 0x0078, 0x0074, 0x0022] s = Some (b, r)" and "through [0x0022, 0x0065, 0x006D, 0x006F, 0x0074, 0x0069, 0x006F, 0x006E, 0x0022] r = None" and "0x5B \<notin> set s"
  shows "infer lower parse M (0x7B # s) = \<lparr>inf_text = 0x7B # s, inf_update = \<lparr>up_emotion = js ''calm'',
      up_action = mapEmotionToAction M (js ''calm''), up_intensity = Fin (1/2), up_vad = emotionToVAD (js ''calm'')\<rparr>\<rparr>"
proof -
  have "find_tag (0x5B # op) (0x7B # s) = None" for op
    using find_tag_skip [of "0x7B # s" op "[]"] assms(3) by (simp del: find_tag.simps(2))
  from this [of "js ''emotion:''"] this [of "js ''action:''"]
  have "find_tag emotion_open (0x7B # s) = None" "find_tag action_open (0x7B # s) = None"
    by (simp_all add: emotion_open_def action_open_def js_def del: find_tag.simps(2))
  then show ?thesis using assms(1,2)
    by (simp add: infer_def tryParseJsonMode_def json_block_def parseTagMode_def Let_def del: find_tag.simps(2))
qed

theorem emotion_before_text_is_shown_raw_witness:
  "inf_text (infer ascii_lower (\<lambda>b. None) DEFAULT_EMOTION_ACTION_MAP ([0x007B, 0x0022, 0x0065, 0x006D, 0x006F, 0x0074, 0x0069, 0x006F, 0x006E, 0x0022, 0x003A, 0x0022, 0x0073, 0x0061, 0x0064, 0x0022, 0x002C, 0x0022, 0x0074, 0x0065, 0x0078, 0x0074, 0x0022, 0x003A, 0x0022, 0x0068, 0x0069, 0x0022, 0x007D])) = [0x007B, 0x0022, 0x0065, 0x006D, 0x006F, 0x0074, 0x0069, 0x006F, 0x006E, 0x0022, 0x003A, 0x0022, 0x0073, 0x0061, 0x0064, 0x0022, 0x002C, 0x0022, 0x0074, 0x0065, 0x0078, 0x0074, 0x0022, 0x003A, 0x0022, 0x0068, 0x0069, 0x0022, 0x007D]"
  using emotion_before_text_is_shown_raw [of "[0x0022, 0x0065, 0x006D, 0x006F, 0x0074, 0x0069, 0x006F, 0x006E, 0x0022, 0x003A, 0x0022, 0x0073, 0x0061, 0x0064, 0x0022, 0x002C, 0x0022, 0x0074, 0x0065, 0x0078, 0x0074, 0x0022, 0x003A, 0x0022, 0x0068, 0x0069, 0x0022, 0x007D]" "[0x0022, 0x0065, 0x006D, 0x006F, 0x0074, 0x0069, 0x006F, 0x006E, 0x0022, 0x003A, 0x0022, 0x0073, 0x0061, 0x0064, 0x0022, 0x002C, 0x0022, 0x0074, 0x0065, 0x0078, 0x0074, 0x0022]" "[0x003A, 0x0022, 0x0068, 0x0069, 0x0022, 0x007D]"]
  by simp

section \<open>The intensity stays in its range\<close>

lemma clamped_unit: "x \<noteq> NaN \<Longrightarrow> in_range 0 1 (nclamp (Fin 0) (Fin 1) x)"
  by (rule nclamp_range) simp_all

lemma inferred_intensity:
  assumes "\<forall>b p. parse b = Some p \<longrightarrow> ans_intensity p \<noteq> Some NaN"
  shows "in_range 0 1 (up_intensity (inf_update (infer lower parse M s)))"
proof (cases "tryParseJsonMode lower parse M s")
  case None
  then show ?thesis by (simp add: infer_def parseTagMode_def Let_def)
next
  case (Some r)
  then obtain b p where p: "parse b = Some p" "answer_inference lower M p = Some r"
    by (auto simp: tryParseJsonMode_def split: option.splits)
  have "up_intensity (inf_update r) = clampIntensity (number_else (ans_intensity p) (Fin (1/2)))"
    using p(2) by (auto simp: answer_inference_def Let_def split: option.splits)
  moreover have "ans_intensity p \<noteq> Some NaN" using assms p(1) by blast
  ultimately show ?thesis using Some
    by (auto simp: infer_def clampIntensity_def number_else_def split: option.split intro!: clamped_unit)
qed

lemma situational_unit:
  assumes "in_range 0 1 b" and "in_range 0 1 (expressiveness k)"
  shows "in_range 0 1 (modulateIntensityBySituational b k)"
  unfolding modulateIntensityBySituational_def
proof (rule clamped_unit)
  have "bounded 1 (num (4/10))" "bounded 1 (num (8/10))" by (rule bounded_num; simp)+
  moreover have "bounded 1 b" "bounded 1 (expressiveness k)" using assms by (auto intro: in_range_bounded)
  ultimately have "bounded 2 (nadd (num (8/10)) (nmul (expressiveness k) (num (4/10))))"
    using bounded_add [of 1 _ 1] bounded_mul [of 1 _ 1] by simp
  then have "bounded 2 (nmul b (nadd (num (8/10)) (nmul (expressiveness k) (num (4/10)))))"
    using bounded_mul [of 1 b 2] \<open>bounded 1 b\<close> by simp
  then show "nmul b (nadd (num (8/10)) (nmul (expressiveness k) (num (4/10)))) \<noteq> NaN" by (rule bounded_not_NaN)
qed

lemma phrase_unit:
  assumes "in_range 0 1 b"
  shows "in_range 0 1 (modulateIntensityByCatchphrase b p)"
proof -
  define boost where "boost = (case match_intensity p of Low \<Rightarrow> num (3/10) | Medium \<Rightarrow> Fin (1/2) | High \<Rightarrow> num (8/10))"
  have "in_range 0 1 (num (3/10))" "in_range 0 1 (num (8/10))" by (rule num_range; simp)+
  then have "in_range 0 1 boost" by (simp add: boost_def split: intensity.split)
  then have "in_range 0 (of_nat 2) (nadd b boost)" using nadd_range [of 0 1 b 0 1 boost] assms by simp
  then have h: "in_range 0 1 (ndiv (nadd b boost) (Fin 2))" using ndiv_average [of 2] by simp
  then obtain v where "ndiv (nadd b boost) (Fin 2) = Fin v" "0 \<le> v" "v \<le> 1" by (elim in_rangeE)
  then show ?thesis by (simp add: modulateIntensityByCatchphrase_def nmin_def flip: boost_def)
qed



end
