(* ===== verification/CharacterCards.thy ===== *)
theory CharacterCards
  imports RequestTable
begin

text \<open>
  Character cards: their validation (\<open>livedesign/src/shared/character-card.ts\<close>), the model service's manager with the
  system prompt (\<open>llm-service/character-manager.ts\<close>) and the desktop's store with its cache
  (\<open>main/storage/character-store.ts\<close>). Files, the JSON parser, the cast of a value to a card and the configuration
  store's write are parameters; a file system is what each file of the directory holds.
\<close>

section \<open>Cards and their validation\<close>

record example =
  ex_user :: jstr
  ex_assistant :: jstr
  ex_emotion :: "jstr option"

record card =
  card_name :: jstr
  card_description :: jstr
  card_style :: "jstr option"
  card_background :: "jstr option"
  card_knowledge :: "jstr list option"
  card_examples :: "example list option"
  card_model :: "jstr option"
  card_actions :: "(jstr, jstr) jmap option"
  card_playfulness :: "jsnum option"
  card_empathy :: "jsnum option"

datatype card_error = NotAnObject | NameMissing | DescriptionMissing | KnowledgeNotAList | ModelPathNotText | CardMissing

datatype card_warning = StyleMissing

record validation =
  card_valid :: bool
  card_errors :: "card_error list"
  card_warnings :: "card_warning list"

definition is_text :: "json option \<Rightarrow> bool" where
  "is_text j = (case j of Some (JStr s) \<Rightarrow> s \<noteq> [] | _ \<Rightarrow> False)"

definition truthy_json :: "json option \<Rightarrow> bool" where
  "truthy_json j = (case j of None \<Rightarrow> False | Some JNull \<Rightarrow> False | Some (JBool b) \<Rightarrow> b
     | Some (JNum n) \<Rightarrow> n \<noteq> Fin 0 \<and> n \<noteq> NaN | Some (JStr s) \<Rightarrow> s \<noteq> [] | _ \<Rightarrow> True)"

definition is_object :: "json \<Rightarrow> bool" where
  "is_object j = (case j of JObj fs \<Rightarrow> True | JArr xs \<Rightarrow> True | _ \<Rightarrow> False)"

definition knowledge_ok :: "json option \<Rightarrow> bool" where
  "knowledge_ok j = (case j of None \<Rightarrow> True | Some (JArr xs) \<Rightarrow> True | _ \<Rightarrow> False)"

definition model_ok :: "json option \<Rightarrow> bool" where
  "model_ok j = (\<not> truthy_json j \<or> (case j of Some (JStr s) \<Rightarrow> True | _ \<Rightarrow> False))"

definition validateCharacterCard :: "json \<Rightarrow> validation" where
  "validateCharacterCard j =
     (if \<not> is_object j then \<lparr>card_valid = False, card_errors = [NotAnObject], card_warnings = []\<rparr>
      else (let errors = (if is_text (jfield (js ''name'') j) then [] else [NameMissing])
              @ (if is_text (jfield (js ''description'') j) then [] else [DescriptionMissing])
              @ (if knowledge_ok (jfield (js ''knowledge'') j) then [] else [KnowledgeNotAList])
              @ (if model_ok (jfield (js ''modelPath'') j) then [] else [ModelPathNotText])
            in \<lparr>card_valid = (errors = []), card_errors = errors,
                card_warnings = (if is_text (jfield (js ''style'') j) then [] else [StyleMissing])\<rparr>))"

section \<open>The manager of the model service\<close>

record card_io =
  read_json :: "jstr \<Rightarrow> json option"
  as_card :: "json \<Rightarrow> card"

datatype load_error = FileUnreadable | NotJson | InvalidCard "card_error list"

text \<open>The content of the file, if it can be read.\<close>

definition load_card :: "card_io \<Rightarrow> jstr option \<Rightarrow> load_error + card" where
  "load_card io content =
     (case content of None \<Rightarrow> Inl FileUnreadable
      | Some t \<Rightarrow> (case read_json io t of None \<Rightarrow> Inl NotJson
        | Some j \<Rightarrow> if card_valid (validateCharacterCard j) then Inr (as_card io j)
                    else Inl (InvalidCard (card_errors (validateCharacterCard j)))))"

definition truthy_text :: "jstr option \<Rightarrow> jstr list" where
  "truthy_text x = (case x of Some (c # cs) \<Rightarrow> [c # cs] | _ \<Rightarrow> [])"

definition example_lines :: "jstr \<Rightarrow> example \<Rightarrow> jstr list" where
  "example_lines name e = [[0x7528, 0x6237, 0x003A, 0x0020] @ ex_user e, name @ [0x003A, 0x0020] @ ex_assistant e]
     @ (case ex_emotion e of Some (c # cs) \<Rightarrow> [[0x0028, 0x60C5, 0x7EEA, 0x003A, 0x0020] @ (c # cs) @ [0x0029]] | _ \<Rightarrow> []) @ [[]]"

definition prompt_lines :: "card \<Rightarrow> jstr list" where
  "prompt_lines c = [[0x0023, 0x0020, 0x89D2, 0x8272, 0x8BBE, 0x5B9A], [0x4F60, 0x662F, 0x0020] @ card_name c @ [0x3002], [], [0x0023, 0x0023, 0x0020, 0x4EBA, 0x683C, 0x63CF, 0x8FF0], card_description c, []]
     @ concat (map (\<lambda>s. [[0x0023, 0x0023, 0x0020, 0x8BF4, 0x8BDD, 0x98CE, 0x683C], s, []]) (truthy_text (card_style c)))
     @ concat (map (\<lambda>b. [[0x0023, 0x0023, 0x0020, 0x80CC, 0x666F, 0x6545, 0x4E8B], b, []]) (truthy_text (card_background c)))
     @ (case card_knowledge c of Some (k # ks) \<Rightarrow> [[0x0023, 0x0023, 0x0020, 0x77E5, 0x8BC6, 0x9886, 0x57DF]] @ map (\<lambda>x. [0x002D, 0x0020] @ x) (k # ks) @ [[]] | _ \<Rightarrow> [])
     @ (case card_examples c of Some (e # es) \<Rightarrow> [0x0023, 0x0023, 0x0020, 0x793A, 0x4F8B, 0x5BF9, 0x8BDD] # concat (map (example_lines (card_name c)) (e # es)) | _ \<Rightarrow> [])
     @ [[0x0023, 0x0023, 0x0020, 0x8F93, 0x51FA, 0x683C, 0x5F0F], [0x8BF7, 0x4EE5, 0x0020, 0x004A, 0x0053, 0x004F, 0x004E, 0x0020, 0x683C, 0x5F0F, 0x56DE, 0x590D, 0xFF1A],
        [0x007B, 0x0022, 0x0074, 0x0065, 0x0078, 0x0074, 0x0022, 0x003A, 0x0020, 0x0022, 0x4F60, 0x7684, 0x56DE, 0x590D, 0x5185, 0x5BB9, 0x0022, 0x002C, 0x0020, 0x0022, 0x0065, 0x006D, 0x006F, 0x0074, 0x0069, 0x006F, 0x006E, 0x0022, 0x003A, 0x0020, 0x0022, 0x9AD8, 0x5174, 0x007C, 0x60B2, 0x4F24, 0x007C, 0x6124, 0x6012, 0x007C, 0x60CA, 0x8BB6, 0x007C, 0x5E73, 0x9759, 0x007C, 0x56F0, 0x60D1, 0x007C, 0x7126, 0x8651, 0x007C, 0x5BB3, 0x7F9E, 0x007C, 0x5174, 0x594B, 0x007C, 0x75B2, 0x5026, 0x0022, 0x002C, 0x0020, 0x0022, 0x0061, 0x0063, 0x0074, 0x0069, 0x006F, 0x006E, 0x0022, 0x003A, 0x0020, 0x0022, 0x0077, 0x0061, 0x0076, 0x0065, 0x007C, 0x006E, 0x006F, 0x0064, 0x007C, 0x0073, 0x0068, 0x0061, 0x006B, 0x0065, 0x007C, 0x0073, 0x006D, 0x0069, 0x006C, 0x0065, 0x007C, 0x0074, 0x0068, 0x0069, 0x006E, 0x006B, 0x007C, 0x0069, 0x0064, 0x006C, 0x0065, 0x007C, 0x0062, 0x006C, 0x0075, 0x0073, 0x0068, 0x007C, 0x0073, 0x0069, 0x0067, 0x0068, 0x007C, 0x0063, 0x0068, 0x0065, 0x0065, 0x0072, 0x007C, 0x0079, 0x0061, 0x0077, 0x006E, 0x0022, 0x007D],
        [], [0x8BF7, 0x59CB, 0x7EC8, 0x4EE5, 0x0020] @ card_name c @ [0x0020, 0x7684, 0x8EAB, 0x4EFD, 0x548C, 0x8BED, 0x6C14, 0x8FDB, 0x884C, 0x5BF9, 0x8BDD, 0x3002]]"

fun lines_text :: "jstr list \<Rightarrow> jstr" where
  "lines_text [] = []"
| "lines_text [x] = x"
| "lines_text (x # y # xs) = x @ [0x0A] @ lines_text (y # xs)"

text \<open>Without a card it throws.\<close>

definition generateSystemPrompt :: "card option \<Rightarrow> jstr option" where
  "generateSystemPrompt c = map_option (\<lambda>c. lines_text (prompt_lines c)) c"

section \<open>The store of the desktop\<close>

text \<open>
  The directory as a map from the names of its entries, in the order of \<open>readdir\<close>, to the content or to nothing when it
  cannot be read; \<open>None\<close> when there is no such directory.
\<close>

type_synonym directory = "(jstr, jstr option) jmap option"

record character_store =
  cs_cache :: "(jstr, json) jmap"
  cs_current :: "jstr option"

definition json_ext :: jstr where "json_ext = js ''.json''"

definition is_json_file :: "jstr \<Rightarrow> bool" where
  "is_json_file f \<longleftrightarrow> length json_ext \<le> length f \<and> drop (length f - length json_ext) f = json_ext"

text \<open>\<open>path.basename(file, '.json')\<close>: a file that is nothing but the extension keeps it.\<close>

definition base_name :: "jstr \<Rightarrow> jstr" where
  "base_name f = (if is_json_file f \<and> f \<noteq> json_ext then take (length f - length json_ext) f else f)"

definition card_json :: "card_io \<Rightarrow> jstr option \<Rightarrow> json option" where
  "card_json io content = (case content of None \<Rightarrow> None | Some t \<Rightarrow> read_json io t)"

record card_item =
  item_id :: jstr
  item_card :: "json option"
  item_valid :: bool

text \<open>Reading a member of null throws; of another value that is no object it gives nothing.\<close>

definition list_file :: "card_io \<Rightarrow> (jstr \<times> jstr option) \<Rightarrow> character_store \<Rightarrow> card_item \<times> character_store" where
  "list_file io f s =
     (case card_json io (snd f) of
        None \<Rightarrow> (\<lparr>item_id = base_name (fst f), item_card = None, item_valid = False\<rparr>, s)
      | Some JNull \<Rightarrow> (\<lparr>item_id = base_name (fst f), item_card = None, item_valid = False\<rparr>, s)
      | Some j \<Rightarrow>
          (let v = card_valid (validateCharacterCard j)
           in (\<lparr>item_id = base_name (fst f), item_card = Some j, item_valid = v\<rparr>,
               if v then s\<lparr>cs_cache := mput (base_name (fst f)) j (cs_cache s)\<rparr> else s)))"

fun list_files :: "card_io \<Rightarrow> (jstr \<times> jstr option) list \<Rightarrow> character_store \<Rightarrow> card_item list \<times> character_store" where
  "list_files io [] s = ([], s)"
| "list_files io (f # fs) s =
     (let (i, s1) = list_file io f s; (is, s2) = list_files io fs s1 in (i # is, s2))"

definition listCharacters :: "card_io \<Rightarrow> directory \<Rightarrow> character_store \<Rightarrow> card_item list \<times> character_store" where
  "listCharacters io d s =
     (case d of None \<Rightarrow> ([], s) | Some fs \<Rightarrow> list_files io (filter (is_json_file \<circ> fst) fs) s)"

definition file_card :: "card_io \<Rightarrow> directory \<Rightarrow> jstr \<Rightarrow> json option" where
  "file_card io d i =
     (case d of None \<Rightarrow> None
      | Some fs \<Rightarrow> (case mget fs (i @ json_ext) of None \<Rightarrow> None | Some content \<Rightarrow> card_json io content))"

text \<open>A card is kept whether it is valid or not. A cached null counts as absent.\<close>

definition getCharacter :: "card_io \<Rightarrow> directory \<Rightarrow> jstr \<Rightarrow> character_store \<Rightarrow> json option \<times> character_store" where
  "getCharacter io d i s =
     (if truthy_json (mget (cs_cache s) i) then (mget (cs_cache s) i, s)
      else (case file_card io d i of None \<Rightarrow> (None, s) | Some j \<Rightarrow> (Some j, s\<lparr>cs_cache := mput i j (cs_cache s)\<rparr>)))"

definition validateCharacter :: "card_io \<Rightarrow> directory \<Rightarrow> jstr \<Rightarrow> character_store \<Rightarrow> validation \<times> character_store" where
  "validateCharacter io d i s =
     (case getCharacter io d i s of
        (None, s') \<Rightarrow> (\<lparr>card_valid = False, card_errors = [CardMissing], card_warnings = []\<rparr>, s')
      | (Some j, s') \<Rightarrow> (if truthy_json (Some j) then validateCharacterCard j
                        else \<lparr>card_valid = False, card_errors = [CardMissing], card_warnings = []\<rparr>, s'))"

text \<open>The write of the configuration may fail; the failure is swallowed there.\<close>

definition switchCharacter :: "card_io \<Rightarrow> directory \<Rightarrow> bool \<Rightarrow> jstr \<Rightarrow> character_store \<Rightarrow> json option \<times> character_store" where
  "switchCharacter io d written i s =
     (case getCharacter io d i s of
        (None, s') \<Rightarrow> (None, s')
      | (Some j, s') \<Rightarrow>
          (if truthy_json (Some j) \<and> card_valid (validateCharacterCard j)
           then (Some j, if written then s'\<lparr>cs_current := Some i\<rparr> else s') else (None, s')))"

definition getCurrentCharacter :: "card_io \<Rightarrow> directory \<Rightarrow> character_store \<Rightarrow> json option \<times> character_store" where
  "getCurrentCharacter io d s =
     (case cs_current s of Some (c # cs) \<Rightarrow> getCharacter io d (c # cs) s | _ \<Rightarrow> (None, s))"

definition refreshCache :: "card_io \<Rightarrow> directory \<Rightarrow> character_store \<Rightarrow> character_store" where
  "refreshCache io d s = snd (listCharacters io d (s\<lparr>cs_cache := []\<rparr>))"

definition default_card :: json where
  "default_card = JObj [(js ''name'', JStr [0x52A9, 0x624B]), (js ''description'', JStr [0x4E00, 0x4E2A, 0x53CB, 0x597D, 0x800C, 0x4E50, 0x4E8E, 0x52A9, 0x4EBA, 0x7684, 0x0020, 0x0041, 0x0049, 0x0020, 0x52A9, 0x624B]),
     (js ''style'', JStr [0x6E29, 0x548C, 0x3001, 0x4E13, 0x4E1A, 0x3001, 0x7EC6, 0x81F4]), (js ''background'', JStr [0x4F60, 0x662F, 0x4E00, 0x4E2A, 0x5168, 0x80FD, 0x7684, 0x0020, 0x0041, 0x0049, 0x0020, 0x52A9, 0x624B, 0xFF0C, 0x64C5, 0x957F, 0x5E2E, 0x52A9, 0x7528, 0x6237, 0x89E3, 0x51B3, 0x5404, 0x79CD, 0x95EE, 0x9898, 0x3002]),
     (js ''knowledge'', JArr [JStr [0x901A, 0x7528, 0x77E5, 0x8BC6], JStr [0x7F16, 0x7A0B], JStr [0x5199, 0x4F5C]]),
     (js ''examples'', JArr [JObj [(js ''user'', JStr [0x4F60, 0x597D, 0xFF01]),
        (js ''assistant'', JStr [0x4F60, 0x597D, 0xFF01, 0x6211, 0x662F, 0x4F60, 0x7684, 0x0020, 0x0041, 0x0049, 0x0020, 0x52A9, 0x624B, 0xFF0C, 0x6709, 0x4EC0, 0x4E48, 0x53EF, 0x4EE5, 0x5E2E, 0x52A9, 0x4F60, 0x7684, 0x5417, 0xFF1F]), (js ''emotion'', JStr (js ''happy''))]]),
     (js ''modelPath'', JStr (js ''default/model.json''))]"

text \<open>The text written is a parameter; a write that fails leaves the directory as it is.\<close>

definition createDefaultCharacterIfEmpty :: "(json \<Rightarrow> jstr) \<Rightarrow> bool \<Rightarrow> directory \<Rightarrow> directory" where
  "createDefaultCharacterIfEmpty show_json written d =
     (case d of None \<Rightarrow> None
      | Some fs \<Rightarrow> if list_ex (is_json_file \<circ> fst) fs \<or> \<not> written then Some fs
                   else Some (mput (js ''assistant.json'') (Some (show_json default_card)) fs))"

section \<open>Properties\<close>

lemma truthy_cached: "truthy_json (mget (cs_cache s) i) \<Longrightarrow> getCharacter io d i s = (mget (cs_cache s) i, s)"
  by (simp add: getCharacter_def)

lemma getCharacter_cached:
  "getCharacter io d i s = (Some j, s') \<Longrightarrow> mget (cs_cache s') i = Some j \<and> cs_current s' = cs_current s"
  by (auto simp: getCharacter_def split: if_splits option.splits)

lemma valid_truthy: "card_valid (validateCharacterCard j) \<Longrightarrow> truthy_json (Some j)"
  by (cases j) (auto simp: validateCharacterCard_def is_object_def truthy_json_def)

lemma getCharacter_current: "cs_current (snd (getCharacter io d i s)) = cs_current s"
  by (auto simp: getCharacter_def split: option.split)

text \<open>C32: The desktop switches to valid cards only, and what it switched to is what it then shows: after a switch that was written the
  current character is that card, whatever has become of its file since. A refused switch leaves the current character as it was.\<close>

theorem switch_is_valid_and_shown:
  assumes "switchCharacter io d True i s = (r, s')" and "i \<noteq> []"
  shows "case r of
      Some j \<Rightarrow> card_valid (validateCharacterCard j) \<and> fst (getCurrentCharacter io d' s') = Some j
    | None \<Rightarrow> cs_current s' = cs_current s"
proof -
  obtain g s1 where g: "getCharacter io d i s = (g, s1)" by (cases "getCharacter io d i s")
  have c: "cs_current s1 = cs_current s" using getCharacter_current [of io d i s] g by simp
  show ?thesis
  proof (cases "\<exists>j. g = Some j \<and> truthy_json (Some j) \<and> card_valid (validateCharacterCard j)")
    case True
    then obtain j where j: "g = Some j" "truthy_json (Some j)" "card_valid (validateCharacterCard j)" by blast
    then have r: "r = Some j" "s' = s1\<lparr>cs_current := Some i\<rparr>" using assms(1) g by (auto simp: switchCharacter_def)
    have "mget (cs_cache s') i = Some j" using getCharacter_cached g j(1) r(2) by fastforce
    then have "getCharacter io d' i s' = (Some j, s')" using truthy_cached [of s' i] j(2) by simp
    moreover obtain x xs where "i = x # xs" using assms(2) by (cases i) auto
    ultimately show ?thesis using j r by (simp add: getCurrentCharacter_def)
  next
    case False
    then have "r = None \<and> s' = s1" using assms(1) g by (auto simp: switchCharacter_def split: option.splits if_splits)
    then show ?thesis using c by simp
  qed
qed

definition io0 :: card_io where
  "io0 = \<lparr>read_json = (\<lambda>t. Some default_card), as_card = (\<lambda>j. \<lparr>card_name = js ''a'', card_description = js ''b'', card_style = None,
     card_background = None, card_knowledge = None, card_examples = None, card_model = None, card_actions = None,
     card_playfulness = None, card_empathy = None\<rparr>)\<rparr>"

definition no_cards :: character_store where
  "no_cards = \<lparr>cs_cache = [], cs_current = None\<rparr>"

lemma default_card_valid: "validateCharacterCard default_card = \<lparr>card_valid = True, card_errors = [], card_warnings = []\<rparr>"
  by (simp add: validateCharacterCard_def default_card_def is_object_def is_text_def knowledge_ok_def model_ok_def truthy_json_def
      jfield_def js_Cons)

lemma switch_default: "switchCharacter io0 (Some [(js ''a.json'', Some [])]) True (js ''a'') no_cards
    = (Some default_card, \<lparr>cs_cache = [(js ''a'', default_card)], cs_current = Some (js ''a'')\<rparr>)"
  by (simp add: switchCharacter_def getCharacter_def no_cards_def truthy_json_def file_card_def json_ext_def card_json_def io0_def
      default_card_valid valid_truthy [unfolded truthy_json_def] js_def)
    (simp add: default_card_def)

theorem switch_is_valid_and_shown_witness:
  "fst (getCurrentCharacter io0 None (snd (switchCharacter io0 (Some [(js ''a.json'', Some [])]) True (js ''a'') no_cards))) = Some default_card"
  using switch_is_valid_and_shown [OF switch_default, of None] by (simp add: switch_default)

end
