(* ===== verification/LlmService.thy ===== *)
theory LlmService
  imports EmotionInferrer CharacterCards StreamParser NarrativeSystem
begin

text \<open>
  The model service (\<open>livedesign/src/llm-service/index.ts\<close>) with its connector to the model
  (\<open>llm-connector.ts\<close>): abort controllers and the signals that a request and its reading listen to; chats, split where they wait for
  the answer and for each piece of it; switching of roles; changes of the configuration; and what is sent to the main process. It joins
  the parser of the stream, the inference of emotions, the personality, the persona and the narrative system as they are modelled.
  Files, JSON texts, the answers of the network, the clock and the tools that the tool server offers are parameters; texts of errors are
  constructors.
\<close>

section \<open>The connector\<close>

record llm_config =
  api_key :: jstr
  base_url :: jstr
  model_name :: jstr

text \<open>
  A signal is a position in \<open>aborted\<close>; \<open>forwards\<close> are the listeners that \<open>mergeSignals\<close> has put on the caller's
  signals, each with the internal signal whose abort removes it.
\<close>

record connector =
  lc_config :: llm_config
  providers :: "(jstr, llm_config) jmap"
  currentProvider :: jstr
  abortController :: "nat option"
  aborted :: "bool list"
  forwards :: "(nat \<times> nat) list"

definition new_connector :: "llm_config \<Rightarrow> connector" where
  "new_connector c = \<lparr>lc_config = c, providers = [], currentProvider = js ''default'', abortController = None, aborted = [], forwards = []\<rparr>"

definition setProviders :: "(jstr, llm_config) jmap \<Rightarrow> connector \<Rightarrow> connector" where
  "setProviders ps C = C\<lparr>providers := ps\<rparr>"

definition switchProvider :: "jstr \<Rightarrow> connector \<Rightarrow> bool \<times> connector" where
  "switchProvider n C =
     (case mget (providers C) n of None \<Rightarrow> (False, C) | Some c \<Rightarrow> (True, C\<lparr>currentProvider := n, lc_config := c\<rparr>))"

definition new_signal :: "connector \<Rightarrow> nat \<times> connector" where
  "new_signal C = (length (aborted C), C\<lparr>aborted := aborted C @ [False]\<rparr>)"

definition new_controller :: "connector \<Rightarrow> nat \<times> connector" where
  "new_controller C = (let (k, C') = new_signal C in (k, C'\<lparr>abortController := Some k\<rparr>))"

text \<open>The abort of an internal controller removes the listener it stands with; an abort happens once.\<close>

definition fire_abort :: "nat \<Rightarrow> connector \<Rightarrow> connector" where
  "fire_abort k C =
     (if k < length (aborted C) \<and> \<not> aborted C ! k
      then C\<lparr>aborted := (aborted C)[k := True], forwards := filter (\<lambda>(e, i). i \<noteq> k) (forwards C)\<rparr> else C)"

definition mergeSignals :: "nat option \<Rightarrow> connector \<Rightarrow> nat \<times> connector" where
  "mergeSignals ext C =
     (let (k, C') = new_controller C
      in case ext of None \<Rightarrow> (k, C') | Some e \<Rightarrow> (k, C'\<lparr>forwards := forwards C' @ [(e, k)]\<rparr>))"

text \<open>The signal of the request and the one of the reading: the second controller takes the place of the first.\<close>

definition chatStream_signals :: "nat option \<Rightarrow> connector \<Rightarrow> (nat \<times> nat) \<times> connector" where
  "chatStream_signals ext C =
     (let (k1, C1) = mergeSignals ext C; (k2, C2) = new_controller C1 in ((k1, k2), C2))"

definition abort_chat :: "connector \<Rightarrow> connector" where
  "abort_chat C = (case abortController C of None \<Rightarrow> C | Some k \<Rightarrow> (fire_abort k C)\<lparr>abortController := None\<rparr>)"

text \<open>The caller aborts its signal: each listener on it, once, aborts the controller that is current at that time.\<close>

definition external_abort :: "nat \<Rightarrow> connector \<Rightarrow> connector" where
  "external_abort e C =
     (if e < length (aborted C) \<and> \<not> aborted C ! e
      then (let C1 = C\<lparr>aborted := (aborted C)[e := True], forwards := filter (\<lambda>(x, i). x \<noteq> e) (forwards C)\<rparr>
            in if (\<exists>(x, i)\<in>set (forwards C). x = e) then (case abortController C of None \<Rightarrow> C1 | Some k \<Rightarrow> fire_abort k C1) else C1)
      else C)"

record partial_llm =
  p_key :: "jstr option"
  p_url :: "jstr option"
  p_model :: "jstr option"

definition updateLlmConfig :: "partial_llm \<Rightarrow> connector \<Rightarrow> connector" where
  "updateLlmConfig p C = C\<lparr>lc_config := \<lparr>api_key = given (p_key p) (api_key (lc_config C)), base_url = given (p_url p) (base_url (lc_config C)),
     model_name = given (p_model p) (model_name (lc_config C))\<rparr>\<rparr>"

section \<open>Requests\<close>

datatype chat_role = SystemRole | UserRole | AssistantRole | ToolRole

record llm_message =
  msg_role :: chat_role
  msg_content :: jstr

record request_body =
  body_model :: jstr
  body_messages :: "llm_message list"
  body_temperature :: jsnum
  body_stream :: bool
  body_tools :: "json list option"

definition request_of :: "connector \<Rightarrow> llm_message list \<Rightarrow> jsnum \<Rightarrow> json list option \<Rightarrow> request_body" where
  "request_of C ms temp tools = \<lparr>body_model = model_name (lc_config C), body_messages = ms, body_temperature = temp, body_stream = True,
     body_tools = (case tools of Some (t # ts) \<Rightarrow> Some (t # ts) | _ \<Rightarrow> None)\<rparr>"

section \<open>The service\<close>

datatype service_error =
    NoPresetGiven
  | TextMissing
  | PresetNotFound jstr
  | ApiRefused nat jstr
  | NetworkFailed
  | EmptyBody
  | ReadFailed
  | SwitchFailed load_error
  | UnknownChannel jstr
  | PayloadMissing jstr
  | UnknownProvider jstr

datatype outgoing =
    StreamPart jstr jstr bool
  | Response jstr jstr
  | Switched jstr jstr
  | EmotionUpdate emotion_update
  | Failed jstr service_error

text \<open>
  A chat that waits: for the answer of the network, or for the next piece of its body. \<open>chat_full\<close> is what the
  stream's callback has put together, \<open>chat_parser\<close> the state of the stream parser.
\<close>

datatype chat_phase = Requesting | Reading

record chat =
  chat_id :: jstr
  chat_message :: jstr
  chat_body :: "request_body option"
  chat_phase :: chat_phase
  request_signal :: nat
  read_signal :: nat
  chat_parser :: stream_parser
  chat_full :: jstr

record ('l, 's) service =
  connector :: connector
  current_card :: "card option"
  action_map :: action_map
  personality :: personality
  persona :: "'l persona_system"
  narrative :: "'s narrative_system"
  history :: "llm_message list"
  chats :: "chat list"
  sent :: "outgoing list"

record 's service_io =
  cards_io :: card_io
  card_files :: "jstr \<Rightarrow> jstr option"
  lower_case :: "jstr \<Rightarrow> jstr"
  parse_answer :: "jstr \<Rightarrow> parsed_answer option"
  stream_io :: json_io
  store_ops :: "'s INarrativeStore"
  max_history :: nat

definition send :: "outgoing list \<Rightarrow> ('l, 's) service \<Rightarrow> ('l, 's) service" where
  "send ms S = S\<lparr>sent := sent S @ ms\<rparr>"

text \<open>The manager loads a card; the callback of the service clears the history and sets the map of actions.\<close>

definition switch_callback :: "card \<Rightarrow> ('l, 's) service \<Rightarrow> ('l, 's) service" where
  "switch_callback c S = S\<lparr>history := [],
     action_map := (case card_actions c of Some m \<Rightarrow> updateEmotionActionMap m (action_map S) | None \<Rightarrow> resetToDefaultMap (action_map S))\<rparr>"

definition loadByName :: "'s service_io \<Rightarrow> jstr \<Rightarrow> ('l, 's) service \<Rightarrow> load_error + ('l, 's) service" where
  "loadByName io n S =
     (case load_card (cards_io io) (card_files io n) of Inl e \<Rightarrow> Inl e
      | Inr c \<Rightarrow> Inr (switch_callback c (S\<lparr>current_card := Some c\<rparr>)))"

text \<open>What the request carries: the prompt of the current card, the history, the message.\<close>

definition chat_request :: "('l, 's) service \<Rightarrow> jstr \<Rightarrow> jsnum option \<Rightarrow> json list option \<Rightarrow> request_body option" where
  "chat_request S message temp tools =
     (case generateSystemPrompt (current_card S) of None \<Rightarrow> None
      | Some prompt \<Rightarrow> Some (request_of (connector S) (\<lparr>msg_role = SystemRole, msg_content = prompt\<rparr> # history S
          @ [\<lparr>msg_role = UserRole, msg_content = message\<rparr>]) (given temp (num (7/10))) tools))"

definition begin_chat :: "'s service_io \<Rightarrow> jstr \<Rightarrow> jstr \<Rightarrow> jsnum option \<Rightarrow> json list option \<Rightarrow> ('l, 's) service \<Rightarrow> ('l, 's) service" where
  "begin_chat io cid message temp tools S =
     (let p = perceive (lower_case io) message;
          (_, P) = applyEvent \<lparr>ev_type = per_emotion p, ev_emotion = None, ev_intensity = per_intensity p\<rparr> (personality S);
          ((k1, k2), C) = chatStream_signals None (connector S)
      in S\<lparr>persona := recordConversation (persona S), personality := P, connector := C,
           chats := chats S @ [\<lparr>chat_id = cid, chat_message = message,
             chat_body = chat_request S message temp tools, chat_phase = Requesting, request_signal = k1, read_signal = k2,
             chat_parser = new_stream_parser, chat_full = []\<rparr>]\<rparr>)"

text \<open>A message that is no text fails in the perceptor, after the conversation has been counted.\<close>

definition accept_chat :: "'s service_io \<Rightarrow> jstr \<Rightarrow> jstr option \<Rightarrow> jsnum option \<Rightarrow> json list option \<Rightarrow> ('l, 's) service \<Rightarrow> ('l, 's) service" where
  "accept_chat io cid message temp tools S =
     (case message of Some t \<Rightarrow> begin_chat io cid t temp tools S
      | None \<Rightarrow> send [Failed cid TextMissing] (S\<lparr>persona := recordConversation (persona S)\<rparr>))"

definition handleChat :: "'s service_io \<Rightarrow> jstr \<Rightarrow> jstr option \<Rightarrow> jstr option \<Rightarrow> jsnum option \<Rightarrow> json list option \<Rightarrow> ('l, 's) service \<Rightarrow> ('l, 's) service" where
  "handleChat io cid message preset temp tools S =
     (if current_card S \<noteq> None then accept_chat io cid message temp tools S
      else (case preset of
          Some (c # cs) \<Rightarrow> (case loadByName io (c # cs) S of
              Inl e \<Rightarrow> send [Failed cid (PresetNotFound (c # cs))] S | Inr S' \<Rightarrow> accept_chat io cid message temp tools S')
        | _ \<Rightarrow> send [Failed cid NoPresetGiven] S))"

definition limit_history :: "nat \<Rightarrow> llm_message list \<Rightarrow> llm_message list" where
  "limit_history k h = (if 2 * k < length h then drop (length h - 2 * k) h else h)"

definition without_chat :: "nat \<Rightarrow> ('l, 's) service \<Rightarrow> ('l, 's) service" where
  "without_chat n S = S\<lparr>chats := take_out n (chats S)\<rparr>"

text \<open>The part after the stream has ended; the expresser hands its result to the narrative system.\<close>

definition finish_chat :: "'s service_io \<Rightarrow> int \<Rightarrow> chat \<Rightarrow> ('l, 's) service \<Rightarrow> ('l, 's) service" where
  "finish_chat io now c S =
     (let i = infer (lower_case io) (parse_answer io) (action_map S) (chat_full c);
          e = up_emotion (inf_update i);
          (_, P) = applyEvent \<lparr>ev_type = LlmResponse, ev_emotion = Some (if e = [] then js ''calm'' else e),
                               ev_intensity = up_intensity (inf_update i)\<rparr> (personality S);
          v = current P;
          m = selectSituational (persona S) \<lparr>userEmotion = Some e, turnNumber = (length (history S) + 1) div 2 + 1, userValence = Some (valence v)\<rparr>;
          x = express i v None (Some m);
          u = res_update x;
          N = recordFromExpression (store_ops io) \<lparr>exp_text = res_text x, exp_emotion = Some (up_emotion u), exp_intensity = Some (up_intensity u),
                exp_valence = Some (valence v), exp_arousal = Some (arousal v), exp_dominance = Some (dominance v)\<rparr> now (narrative S)
      in send [Response (chat_id c) (res_text x), StreamPart (chat_id c) (res_text x) True, EmotionUpdate u]
           (S\<lparr>personality := P, narrative := N,
              history := limit_history (max_history io) (history S @ [\<lparr>msg_role = UserRole, msg_content = chat_message c\<rparr>,
                \<lparr>msg_role = AssistantRole, msg_content = res_text x\<rparr>])\<rparr>))"

text \<open>
  The request comes back: with headers, or it fails; a failure because of its own signal is an abort, about which nothing is said. The
  reading loop looks at its signal before the first read.
\<close>

datatype network = HeadersOk bool | HeadersBad nat jstr | RequestFails

definition request_answered :: "'s service_io \<Rightarrow> int \<Rightarrow> nat \<Rightarrow> network \<Rightarrow> ('l, 's) service \<Rightarrow> ('l, 's) service" where
  "request_answered io now n r S =
     (if n < length (chats S) \<and> chat_phase (chats S ! n) = Requesting
      then (let c = chats S ! n in
        case r of
          HeadersOk True \<Rightarrow> (if aborted (connector S) ! read_signal c then finish_chat io now c (without_chat n S)
                            else S\<lparr>chats := (chats S)[n := c\<lparr>chat_phase := Reading\<rparr>]\<rparr>)
        | HeadersOk False \<Rightarrow> send [Failed (chat_id c) EmptyBody] (without_chat n S)
        | HeadersBad code t \<Rightarrow> send [Failed (chat_id c) (ApiRefused code t)] (without_chat n S)
        | RequestFails \<Rightarrow> (if aborted (connector S) ! request_signal c then without_chat n S
                           else send [Failed (chat_id c) NetworkFailed] (without_chat n S)))
      else S)"

fun parts_of :: "jstr \<Rightarrow> jstr \<Rightarrow> jstr list \<Rightarrow> outgoing list \<times> jstr" where
  "parts_of cid full [] = ([], full)"
| "parts_of cid full (d # ds) = (case parts_of cid (full @ d) ds of (os, f) \<Rightarrow> (StreamPart cid (full @ d) False # os, f))"

text \<open>
  One pass of the reading loop has ended with a piece of the body, its end or a failure. A piece is parsed and reported;
  then the loop looks at the reading signal: when it is aborted the loop ends as if the body had ended.
\<close>

definition body_read :: "'s service_io \<Rightarrow> int \<Rightarrow> nat \<Rightarrow> read_step \<Rightarrow> ('l, 's) service \<Rightarrow> ('l, 's) service" where
  "body_read io now n r S =
     (if n < length (chats S) \<and> chat_phase (chats S ! n) = Reading
      then (let c = chats S ! n in
        case r of
          Chunk t \<Rightarrow>
            (let (cs, p) = stream_feed (stream_io io) t (chat_parser c); (os, full) = parts_of (chat_id c) (chat_full c) (map chunk_delta cs);
                 c' = c\<lparr>chat_parser := p, chat_full := full\<rparr>
             in if aborted (connector S) ! read_signal c then finish_chat io now c' (without_chat n (send os S))
                else (send os S)\<lparr>chats := (chats S)[n := c']\<rparr>)
        | End \<Rightarrow> finish_chat io now c (without_chat n S)
        | AbortSeen \<Rightarrow> S
        | ReadFails \<Rightarrow> send [Failed (chat_id c) ReadFailed] (without_chat n S))
      else S)"

definition handleAbort :: "('l, 's) service \<Rightarrow> ('l, 's) service" where
  "handleAbort S = S\<lparr>connector := abort_chat (connector S)\<rparr>"

definition handleSwitchCharacter :: "'s service_io \<Rightarrow> jstr \<Rightarrow> jstr \<Rightarrow> ('l, 's) service \<Rightarrow> ('l, 's) service" where
  "handleSwitchCharacter io cid n S =
     (case loadByName io n S of
        Inl e \<Rightarrow> send [Failed cid (SwitchFailed e)] S
      | Inr S' \<Rightarrow> (case current_card S' of None \<Rightarrow> S'
          | Some c \<Rightarrow> send [Switched cid (card_name c)]
              (S'\<lparr>personality := updateTraits (card_playfulness c) (card_empathy c) (personality S')\<rparr>)))"

text \<open>Numbers and texts that a change of the configuration carries; an empty text changes nothing.\<close>

record config_change =
  ch_key :: "jstr option"
  ch_url :: "jstr option"
  ch_model :: "jstr option"
  ch_providers :: "(jstr, llm_config) jmap option"
  ch_switch :: "jstr option"
  ch_playfulness :: "jsnum option"
  ch_empathy :: "jsnum option"
  ch_decay :: "(jsnum \<times> jsnum) option"

definition changed_connector :: "config_change \<Rightarrow> connector \<Rightarrow> connector" where
  "changed_connector g C =
     (let C1 = updateLlmConfig \<lparr>p_key = non_empty (ch_key g), p_url = non_empty (ch_url g), p_model = non_empty (ch_model g)\<rparr> C
      in case ch_providers g of Some ps \<Rightarrow> setProviders ps C1 | None \<Rightarrow> C1)"

definition handleConfigChange :: "jstr \<Rightarrow> config_change \<Rightarrow> ('l, 's) service \<Rightarrow> ('l, 's) service" where
  "handleConfigChange uuid g S =
     (let (switched, C) = (case non_empty (ch_switch g) of Some n \<Rightarrow> switchProvider n (changed_connector g (connector S))
                           | None \<Rightarrow> (True, changed_connector g (connector S)));
          P = updateTraits (ch_playfulness g) (ch_empathy g) (personality S);
          P' = (case ch_decay g of Some (i, r) \<Rightarrow> updateDecay i r None P | None \<Rightarrow> P);
          S' = S\<lparr>connector := C, personality := P'\<rparr>
      in if switched then S' else send [Failed uuid (UnknownProvider (given (ch_switch g) []))] S')"

text \<open>A message without a payload fails when its handler takes the payload apart.\<close>

datatype service_event =
    ChatIn jstr "jstr option" "jstr option" "jsnum option" "json list option"
  | Answered int nat network
  | Read int nat read_step
  | AbortIn
  | SwitchIn jstr jstr
  | ConfigIn jstr config_change
  | UnknownIn jstr jstr
  | BareIn jstr jstr

fun service_step :: "'s service_io \<Rightarrow> service_event \<Rightarrow> ('l, 's) service \<Rightarrow> ('l, 's) service" where
  "service_step io (ChatIn cid m preset temp tools) S = handleChat io cid m preset temp tools S"
| "service_step io (Answered now n r) S = request_answered io now n r S"
| "service_step io (Read now n r) S = body_read io now n r S"
| "service_step io AbortIn S = handleAbort S"
| "service_step io (SwitchIn cid n) S = handleSwitchCharacter io cid n S"
| "service_step io (ConfigIn uuid g) S = handleConfigChange uuid g S"
| "service_step io (UnknownIn cid ch) S = send [Failed cid (UnknownChannel ch)] S"
| "service_step io (BareIn cid ch) S = send [Failed cid (PayloadMissing ch)] S"

definition new_service :: "llm_config \<Rightarrow> personality \<Rightarrow> 'l persona_system \<Rightarrow> 's narrative_system \<Rightarrow> ('l, 's) service" where
  "new_service c P L N = \<lparr>connector = new_connector c, current_card = None, action_map = new_inferrer None, personality = P, persona = L,
     narrative = N, history = [], chats = [], sent = []\<rparr>"

section \<open>The invariant\<close>

fun alternates :: "llm_message list \<Rightarrow> bool" where
  "alternates [] \<longleftrightarrow> True"
| "alternates [x] \<longleftrightarrow> False"
| "alternates (x # y # h) \<longleftrightarrow> msg_role x = UserRole \<and> msg_role y = AssistantRole \<and> alternates h"

lemma alternates_append: "alternates h \<Longrightarrow> alternates (h @ g) \<longleftrightarrow> alternates g"
  by (induction h rule: alternates.induct) auto

lemma alternates_even: "alternates h \<Longrightarrow> even (length h)"
  by (induction h rule: alternates.induct) auto

lemma alternates_drop: "alternates h \<Longrightarrow> alternates (drop (2 * n) h)"
proof (induction n arbitrary: h)
  case (Suc n)
  show ?case using Suc by (cases h rule: alternates.cases) auto
qed simp

lemma limit_history_ok: "alternates h \<Longrightarrow> alternates (limit_history k h) \<and> length (limit_history k h) \<le> 2 * k"
proof -
  assume h: "alternates h"
  then obtain m where "length h = 2 * m" using alternates_even by (auto elim: evenE)
  moreover from this have "length h - 2 * k = 2 * (m - k)" by simp
  ultimately show ?thesis using h alternates_drop [OF h, of "m - k"] by (auto simp: limit_history_def)
qed

definition history_ok :: "nat \<Rightarrow> llm_message list \<Rightarrow> bool" where
  "history_ok k h \<longleftrightarrow> alternates h \<and> length h \<le> 2 * k"

text \<open>
  Signals are those of controllers that were made, no chat's request signal has been aborted or can be, and the controller
  that can be aborted belongs at most to the latest chat.
\<close>

definition sigs :: "chat list \<Rightarrow> (nat \<times> nat) list" where
  "sigs cs = map (\<lambda>c. (request_signal c, read_signal c)) cs"

definition signals_ok :: "connector \<Rightarrow> (nat \<times> nat) list \<Rightarrow> bool" where
  "signals_ok C ps \<longleftrightarrow> (\<forall>(q, r)\<in>set ps. q < length (aborted C) \<and> r < length (aborted C) \<and> \<not> aborted C ! q \<and> abortController C \<noteq> Some q)
     \<and> (\<forall>(q, r)\<in>set (butlast ps). abortController C \<noteq> Some r) \<and> (\<forall>k. abortController C = Some k \<longrightarrow> k < length (aborted C))"

definition service_ok :: "'s service_io \<Rightarrow> ('l, 's) service \<Rightarrow> bool" where
  "service_ok io S \<longleftrightarrow> history_ok (max_history io) (history S) \<and> signals_ok (connector S) (sigs (chats S))"

lemma signals_begin:
  assumes "signals_ok C ps" and "chatStream_signals None C = ((k1, k2), C')"
  shows "signals_ok C' (ps @ [(k1, k2)])"
  using assms
  by (fastforce simp: signals_ok_def chatStream_signals_def mergeSignals_def new_controller_def new_signal_def Let_def nth_append
      dest: in_set_butlastD)

lemma butlast_take_out: "set (butlast (take_out n xs)) \<subseteq> set (butlast xs)"
proof (cases "Suc n < length xs")
  case True
  then have "butlast (take_out n xs) = take_out n (butlast xs)"
    by (simp add: take_out_def butlast_append drop_butlast take_butlast)
  then show ?thesis using set_take_out by metis
next
  case False
  show ?thesis
  proof (cases "n < length xs")
    case True
    then have "n = length xs - 1" using False by simp
    then have "take_out n xs = butlast xs" using True by (simp add: take_out_def butlast_conv_take)
    then show ?thesis by (auto dest: in_set_butlastD)
  qed (simp add: take_out_def)
qed

lemma signals_take_out: "signals_ok C ps \<Longrightarrow> signals_ok C (take_out n ps)"
  using set_take_out [of n ps] butlast_take_out [of n ps] by (fastforce simp: signals_ok_def)

lemma sigs_take_out [simp]: "sigs (take_out n cs) = take_out n (sigs cs)"
  by (simp add: sigs_def take_out_def take_map drop_map)

lemma sigs_update:
  "n < length cs \<Longrightarrow> request_signal c = request_signal (cs ! n) \<Longrightarrow> read_signal c = read_signal (cs ! n) \<Longrightarrow> sigs (cs[n := c]) = sigs cs"
  by (simp add: sigs_def map_update list_update_same_conv)

lemma signals_abort:
  assumes "signals_ok C ps"
  shows "signals_ok (abort_chat C) ps"
  using assms by (fastforce simp: signals_ok_def abort_chat_def fire_abort_def nth_list_update split: option.split)

lemma signals_config: "aborted C' = aborted C \<Longrightarrow> abortController C' = abortController C \<Longrightarrow> signals_ok C' ps \<longleftrightarrow> signals_ok C ps"
  by (simp add: signals_ok_def)

lemma finish_parts:
  "history_ok (max_history io) (history S) \<Longrightarrow> history_ok (max_history io) (history (finish_chat io now c S))"
  "connector (finish_chat io now c S) = connector S" "chats (finish_chat io now c S) = chats S"
  using limit_history_ok
  by (simp_all add: finish_chat_def Let_def send_def history_ok_def alternates_append split: prod.split)

lemma send_parts [simp]:
  "connector (send ms S) = connector S" "chats (send ms S) = chats S" "history (send ms S) = history S" "sent (send ms S) = sent S @ ms"
  "current_card (send ms S) = current_card S" "action_map (send ms S) = action_map S"
  by (simp_all add: send_def)

lemma without_chat_ok: "service_ok io S \<Longrightarrow> service_ok io (without_chat n S)"
  by (simp add: service_ok_def without_chat_def signals_take_out)

lemma send_ok [simp]: "service_ok io (send ms S) = service_ok io S"
  by (simp add: service_ok_def)

lemma finish_ok: "service_ok io S \<Longrightarrow> service_ok io (finish_chat io now c S)"
  by (simp add: service_ok_def finish_parts)

lemma begin_ok:
  assumes "service_ok io S"
  shows "service_ok io (begin_chat io cid message temp tools S)"
proof -
  obtain k1 k2 C where "chatStream_signals None (connector S) = ((k1, k2), C)" by (metis surj_pair)
  then show ?thesis using assms signals_begin [of "connector S" "sigs (chats S)" k1 k2 C]
    by (simp add: service_ok_def begin_chat_def sigs_def Let_def split: prod.split)
qed

lemma load_ok: "service_ok io S \<Longrightarrow> loadByName io n S = Inr S' \<Longrightarrow> service_ok io S'"
  by (auto simp: loadByName_def service_ok_def switch_callback_def history_ok_def split: sum.splits)

lemma chat_update_ok:
  "service_ok io S \<Longrightarrow> n < length (chats S) \<Longrightarrow> request_signal c = request_signal (chats S ! n) \<Longrightarrow> read_signal c = read_signal (chats S ! n)
   \<Longrightarrow> service_ok io (S\<lparr>chats := (chats S)[n := c]\<rparr>)"
  by (simp add: service_ok_def sigs_update)

lemma answered_ok: "service_ok io S \<Longrightarrow> service_ok io (request_answered io now n r S)"
  by (auto simp: request_answered_def Let_def without_chat_ok chat_update_ok intro!: finish_ok split: network.split bool.split)

lemma read_ok:
  assumes "service_ok io S"
  shows "service_ok io (body_read io now n r S)"
proof -
  have u: "service_ok io ((send os S)\<lparr>chats := (chats S)[n := c]\<rparr>)"
    if "n < length (chats S)" "request_signal c = request_signal (chats S ! n)" "read_signal c = read_signal (chats S ! n)" for os c
    using chat_update_ok [of io "send os S" n c] assms that by simp
  show ?thesis using assms
    by (auto simp: body_read_def Let_def without_chat_ok u intro!: finish_ok split: read_step.split prod.split)
qed

lemma traits_ok_service: "service_ok io (S\<lparr>personality := P\<rparr>) = service_ok io S"
  by (simp add: service_ok_def)

lemma switch_ok:
  assumes "service_ok io S"
  shows "service_ok io (handleSwitchCharacter io cid n S)"
proof (cases "loadByName io n S")
  case (Inl e)
  then show ?thesis using assms by (simp add: handleSwitchCharacter_def)
next
  case (Inr S')
  then show ?thesis using load_ok [OF assms Inr]
    by (simp add: handleSwitchCharacter_def traits_ok_service split: option.split)
qed

lemma config_ok: "service_ok io S \<Longrightarrow> service_ok io (handleConfigChange uuid g S)"
  by (auto simp: handleConfigChange_def Let_def service_ok_def changed_connector_def updateLlmConfig_def setProviders_def
      switchProvider_def signals_ok_def split: option.split prod.split)

lemma accept_ok: "service_ok io S \<Longrightarrow> service_ok io (accept_chat io cid m temp tools S)"
  by (simp add: accept_chat_def begin_ok split: option.split) (simp add: service_ok_def)

lemma chat_ok: "service_ok io S \<Longrightarrow> service_ok io (handleChat io cid m preset temp tools S)"
  by (auto simp: handleChat_def accept_ok split: option.split list.split sum.split dest: load_ok)

lemma service_step_ok: "service_ok io S \<Longrightarrow> service_ok io (service_step io e S)"
  by (cases e) (simp_all add: chat_ok answered_ok read_ok switch_ok config_ok,
    simp add: handleAbort_def service_ok_def signals_abort)

interpretation service: event_closed "service_ok io" "service_step io" for io :: "'s service_io"
  by unfold_locales (rule service_step_ok)

lemma new_service_ok: "service_ok io (new_service c P L N)"
  by (simp add: service_ok_def new_service_def history_ok_def signals_ok_def sigs_def new_connector_def)

section \<open>Properties\<close>

text \<open>C11: The history of the conversation alternates between the user and the assistant and never exceeds its limit, however chats
  overlap, are aborted, fail or are cut by a change of roles.\<close>

theorem history_alternates:
  "alternates (history (fold (service_step io) es (new_service c P L N)))
    \<and> length (history (fold (service_step io) es (new_service c P L N))) \<le> 2 * max_history io"
  using service.run_ok [OF new_service_ok, of io es c P L N] by (simp add: service_ok_def history_ok_def)

lemma begin_abort:
  assumes "chatStream_signals None C = ((k1, k2), C')"
  shows "aborted (abort_chat C') ! k2 \<and> \<not> aborted (abort_chat C') ! k1"
  using assms
  by (auto simp: chatStream_signals_def mergeSignals_def new_controller_def new_signal_def Let_def abort_chat_def fire_abort_def nth_append)

lemma infer_nothing: "inf_text (infer lower parse M []) = []"
  by (simp add: infer_def tryParseJsonMode_def json_block_def parseTagMode_def Let_def)

lemma without_chat_parts [simp]:
  "sent (without_chat n S) = sent S" "history (without_chat n S) = history S" "action_map (without_chat n S) = action_map S"
  "chats (without_chat n S) = take_out n (chats S)"
  by (simp_all add: without_chat_def)

lemma finish_outcome:
  "\<exists>u. let t = inf_text (infer (lower_case io) (parse_answer io) (action_map S) (chat_full c)) in
     sent (finish_chat io now c S) = sent S @ [Response (chat_id c) t, StreamPart (chat_id c) t True, EmotionUpdate u]
     \<and> history (finish_chat io now c S) = limit_history (max_history io) (history S @ [\<lparr>msg_role = UserRole, msg_content = chat_message c\<rparr>,
         \<lparr>msg_role = AssistantRole, msg_content = t\<rparr>])"
  by (simp add: finish_chat_def Let_def express_def split: prod.split)

text \<open>C19: An abort does not cancel the request of a chat, and its user is answered. A chat that is aborted before the model has
  answered goes on until the headers arrive; then the empty text is sent as the complete answer, and the message and the empty
  answer enter the history.\<close>

theorem aborted_request_is_answered:
  assumes "current_card S \<noteq> None"
  shows "\<exists>u. let S' = fold (service_step io) [ChatIn cid (Some m) preset temp tools, AbortIn, Answered now (length (chats S)) (HeadersOk True)] S in
    sent S' = sent S @ [Response cid [], StreamPart cid [] True, EmotionUpdate u]
    \<and> history S' = limit_history (max_history io) (history S @ [\<lparr>msg_role = UserRole, msg_content = m\<rparr>, \<lparr>msg_role = AssistantRole, msg_content = []\<rparr>])"
proof -
  obtain k1 k2 C where k: "chatStream_signals None (connector S) = ((k1, k2), C)" by (metis surj_pair)
  let ?S1 = "handleAbort (begin_chat io cid m temp tools S)"
  let ?c = "chats ?S1 ! length (chats S)"
  have c: "length (chats S) < length (chats ?S1)" "chat_phase ?c = Requesting" "chat_id ?c = cid" "chat_message ?c = m" "chat_full ?c = []"
      "aborted (connector ?S1) ! read_signal ?c" "sent ?S1 = sent S" "history ?S1 = history S"
    using begin_abort [OF k] by (simp_all add: k handleAbort_def begin_chat_def Let_def split: prod.split)
  have "fold (service_step io) [ChatIn cid (Some m) preset temp tools, AbortIn, Answered now (length (chats S)) (HeadersOk True)] S
      = finish_chat io now ?c (without_chat (length (chats S)) ?S1)"
    using assms c(1,2,6) by (simp add: handleChat_def accept_chat_def request_answered_def Let_def)
  then show ?thesis
    using finish_outcome [of io "without_chat (length (chats S)) ?S1" ?c now] c(3-5,7,8) by (simp add: infer_nothing Let_def)
qed

definition llm0 :: llm_config where
  "llm0 = \<lparr>api_key = [], base_url = [], model_name = js ''m''\<rparr>"

definition service_io0 :: "memory_store service_io" where
  "service_io0 = \<lparr>cards_io = io0, card_files = (\<lambda>n. Some []), lower_case = ascii_lower, parse_answer = (\<lambda>b. None),
     stream_io = w_io_json, store_ops = MemoryStore, max_history = 5\<rparr>"

definition service0 :: "(unit, memory_store) service" where
  "service0 = (new_service llm0 (new_personality (num (1/10)) DEFAULT_TRAITS DEFAULT_BIG_FIVE (Fin 1000) (num (1/100)))
     (new_persona_system DEFAULT_CORE_PERSONA DEFAULT_EVOLUTION_CONFIG ()) (new_narrative_system no_partial new_memory_store))
       \<lparr>current_card := Some (as_card io0 default_card)\<rparr>"

theorem aborted_request_is_answered_witness:
  "\<exists>u. sent (fold (service_step service_io0) [ChatIn (js ''r'') (Some (js ''hi'')) None None None, AbortIn, Answered 10 0 (HeadersOk True)] service0)
     = [Response (js ''r'') [], StreamPart (js ''r'') [] True, EmotionUpdate u]"
  using aborted_request_is_answered [of service0 service_io0 "js ''r''" "js ''hi''" None None None 10]
  by (simp add: service0_def new_service_def Let_def del: fold_simps)

text \<open>C14: A change of roles empties the history, but a chat that is still read comes back: when it ends after the change, its message
  and its answer, both of the old role, are the history of the new one.\<close>

theorem open_chat_outlives_switch:
  assumes "loadByName io name S = Inr S1" and "n < length (chats S)" and "chat_phase (chats S ! n) = Reading" and "0 < max_history io"
  shows "history (service_step io (SwitchIn cid name) S) = []
    \<and> history (fold (service_step io) [SwitchIn cid name, Read now n End] S)
      = [\<lparr>msg_role = UserRole, msg_content = chat_message (chats S ! n)\<rparr>,
         \<lparr>msg_role = AssistantRole,
          msg_content = inf_text (infer (lower_case io) (parse_answer io) (action_map S1) (chat_full (chats S ! n)))\<rparr>]"
proof -
  obtain c where S1: "S1 = switch_callback c (S\<lparr>current_card := Some c\<rparr>)"
    using assms(1) by (auto simp: loadByName_def split: sum.splits)
  let ?S2 = "handleSwitchCharacter io cid name S"
  have s2: "history ?S2 = []" "chats ?S2 = chats S" "action_map ?S2 = action_map S1"
    using assms(1) S1 by (simp_all add: handleSwitchCharacter_def switch_callback_def)
  have "fold (service_step io) [SwitchIn cid name, Read now n End] S = finish_chat io now (chats S ! n) (without_chat n ?S2)"
    using assms(2,3) s2(2) by (simp add: body_read_def Let_def)
  then show ?thesis
    using finish_outcome [of io "without_chat n ?S2" "chats S ! n" now] s2 assms(4) by (simp add: Let_def limit_history_def)
qed

definition reading0 :: "(unit, memory_store) service" where
  "reading0 = service0\<lparr>chats := [\<lparr>chat_id = js ''r'', chat_message = js ''hi'', chat_body = None, chat_phase = Reading, request_signal = 0,
     read_signal = 1, chat_parser = new_stream_parser, chat_full = js ''old answer''\<rparr>],
     connector := (connector service0)\<lparr>aborted := [False, False], abortController := Some 1\<rparr>\<rparr>"

theorem open_chat_outlives_switch_witness:
  "length (history (fold (service_step service_io0) [SwitchIn (js ''q'') (js ''other''), Read 10 0 End] reading0)) = 2"
proof -
  have "card_valid (validateCharacterCard default_card)" by (simp add: default_card_valid)
  then have "load_card (cards_io service_io0) (card_files service_io0 (js ''other'')) = Inr (as_card io0 default_card)"
    by (simp add: load_card_def service_io0_def) (simp add: io0_def)
  then obtain S1 where "loadByName service_io0 (js ''other'') reading0 = Inr S1" by (simp add: loadByName_def)
  from open_chat_outlives_switch [OF this, of 0 "js ''q''" 10] show ?thesis
    by (simp add: reading0_def service_io0_def del: fold_simps)
qed

lemma abort_chats: "chats (handleAbort S) = chats S"
  by (simp add: handleAbort_def)

lemma abort_other: "abortController C \<noteq> Some k \<Longrightarrow> aborted (abort_chat C) ! k = aborted C ! k \<and> abortController (abort_chat C) = None"
  by (auto simp: abort_chat_def fire_abort_def split: option.split)

lemma aborts_nothing: "abortController (connector S) = None \<Longrightarrow> fold (service_step io) (replicate k AbortIn) S = S"
  by (induction k) (simp_all add: handleAbort_def abort_chat_def)

text \<open>C22: Only the latest chat can be stopped. In every state that the service reaches, no number of aborts changes the signal that an
  earlier chat which is still open listens to.\<close>

theorem only_latest_chat_stops:
  assumes "S = fold (service_step io) es (new_service c P L N)" and "x \<in> set (butlast (chats S))"
  shows "aborted (connector (fold (service_step io) (replicate k AbortIn) S)) ! read_signal x = aborted (connector S) ! read_signal x"
proof (cases k)
  case (Suc j)
  have "signals_ok (connector S) (sigs (chats S))"
    using service.run_ok [OF new_service_ok, of io es c P L N] assms(1) by (simp add: service_ok_def)
  moreover have "(request_signal x, read_signal x) \<in> set (butlast (sigs (chats S)))"
    using assms(2) by (simp add: sigs_def map_butlast [symmetric])
  ultimately have "abortController (connector S) \<noteq> Some (read_signal x)" by (auto simp: signals_ok_def)
  then have "aborted (connector (handleAbort S)) ! read_signal x = aborted (connector S) ! read_signal x"
      "abortController (connector (handleAbort S)) = None"
    using abort_other by (simp_all add: handleAbort_def)
  then show ?thesis using Suc aborts_nothing [of "handleAbort S" io j] by simp
qed simp

lemma begin_length: "length (chats (begin_chat io cid m temp tools S)) = Suc (length (chats S))"
  "current_card (begin_chat io cid m temp tools S) = current_card S"
  by (simp_all add: begin_chat_def Let_def split: prod.split)

definition two_chats :: "service_event list" where
  "two_chats = [SwitchIn (js ''s'') (js ''a''), ChatIn (js ''1'') (Some (js ''hi'')) None None None, ChatIn (js ''2'') (Some (js ''ho'')) None None None]"

lemma load0: "loadByName service_io0 n S = Inr (switch_callback (as_card io0 default_card) (S\<lparr>current_card := Some (as_card io0 default_card)\<rparr>))"
proof -
  have "load_card (cards_io service_io0) (card_files service_io0 n) = Inr (as_card io0 default_card)"
    by (simp add: load_card_def service_io0_def default_card_valid io0_def)
  then show ?thesis by (simp add: loadByName_def)
qed

lemma two_chats_open:
  "length (chats (fold (service_step service_io0) two_chats S)) = Suc (Suc (length (chats S)))"
  by (simp add: two_chats_def handleChat_def accept_chat_def handleSwitchCharacter_def load0 switch_callback_def begin_length)

definition service1 :: "(unit, memory_store) service" where
  "service1 = new_service llm0 (new_personality (num (1/10)) DEFAULT_TRAITS DEFAULT_BIG_FIVE (Fin 1000) (num (1/100)))
     (new_persona_system DEFAULT_CORE_PERSONA DEFAULT_EVOLUTION_CONFIG ()) (new_narrative_system no_partial new_memory_store)"

theorem only_latest_chat_stops_witness:
  "aborted (connector (fold (service_step service_io0) (replicate 3 AbortIn) (fold (service_step service_io0) two_chats service1)))
      ! read_signal (hd (chats (fold (service_step service_io0) two_chats service1)))
   = aborted (connector (fold (service_step service_io0) two_chats service1))
      ! read_signal (hd (chats (fold (service_step service_io0) two_chats service1)))"
proof -
  let ?cs = "chats (fold (service_step service_io0) two_chats service1)"
  have "length ?cs = 2" by (simp add: two_chats_open service1_def new_service_def)
  then obtain a b where "?cs = [a, b]" by (auto simp: numeral_2_eq_2 length_Suc_conv)
  then have "hd ?cs \<in> set (butlast ?cs)" by simp
  from only_latest_chat_stops [OF _ this, unfolded service1_def, OF refl] show ?thesis unfolding service1_def by blast
qed

section \<open>A chat that is streamed\<close>

lemma parts_of_text: "snd (parts_of cid full ds) = full @ concat ds"
  by (induction ds arbitrary: full) (simp_all split: prod.split, metis append_assoc snd_conv)

lemma parts_of_append:
  "fst (parts_of cid full (ds @ es)) = fst (parts_of cid full ds) @ fst (parts_of cid (full @ concat ds) es)"
  by (induction ds arbitrary: full) (simp_all split: prod.split, metis append_assoc fst_conv)

text \<open>One piece: what the stream parser reports is sent and added to the text.\<close>

definition fed :: "json_io \<Rightarrow> jstr \<Rightarrow> chat \<Rightarrow> chat" where
  "fed io t c = c\<lparr>chat_parser := snd (stream_feed io t (chat_parser c)),
     chat_full := chat_full c @ concat (map chunk_delta (fst (stream_feed io t (chat_parser c))))\<rparr>"

lemma read_piece:
  assumes "chats S = [c]" and "chat_phase c = Reading" and "\<not> aborted (connector S) ! read_signal c"
  shows "body_read io now 0 (Chunk t) S =
    (send (fst (parts_of (chat_id c) (chat_full c) (map chunk_delta (fst (stream_feed (stream_io io) t (chat_parser c)))))) S)
      \<lparr>chats := [fed (stream_io io) t c]\<rparr>"
  using assms parts_of_text [of "chat_id c" "chat_full c"]
  by (simp add: body_read_def Let_def fed_def split: prod.split) (metis snd_conv)

lemma read_pieces:
  assumes "chats S = [c]" and "chat_phase c = Reading" and "\<not> aborted (connector S) ! read_signal c"
  shows "\<exists>c'. let (out, r) = parse_loop (stream_io io) (map Chunk ts @ [End]) (chat_parser c) full in
    chats (fold (service_step io) (map (\<lambda>t. Read now 0 (Chunk t)) ts) S) = [c']
    \<and> chat_phase c' = Reading \<and> chat_id c' = chat_id c \<and> chat_message c' = chat_message c
    \<and> chat_full c' = chat_full c @ concat (map chunk_delta out)
    \<and> sent (fold (service_step io) (map (\<lambda>t. Read now 0 (Chunk t)) ts) S) = sent S @ fst (parts_of (chat_id c) (chat_full c) (map chunk_delta out))
    \<and> action_map (fold (service_step io) (map (\<lambda>t. Read now 0 (Chunk t)) ts) S) = action_map S"
  using assms
proof (induction ts arbitrary: S c full)
  case (Cons t ts)
  let ?p = "stream_feed (stream_io io) t (chat_parser c)"
  let ?c = "fed (stream_io io) t c" and ?S = "body_read io now 0 (Chunk t) S"
  note S = read_piece [OF Cons.prems, of io now t]
  have "chats ?S = [?c]" "chat_phase ?c = Reading" "\<not> aborted (connector ?S) ! read_signal ?c"
    using Cons.prems by (simp_all add: S fed_def)
  from Cons.IH [OF this, of "accumulatedText (snd ?p)"] show ?case
    by (simp add: case_prod_beta' Let_def S fed_def parts_of_append)
qed simp

lemma stream_outcome:
  assumes "chats S = [c]" and "chat_phase c = Reading" and "\<not> aborted (connector S) ! read_signal c"
    and "chat_parser c = new_stream_parser" and "chat_full c = []"
    and "ds = fst (parseStream (stream_io io) True (map Chunk ts @ [End]))"
    and "t = inf_text (infer (lower_case io) (parse_answer io) (action_map S) (concat ds))"
  shows "\<exists>u. sent (fold (service_step io) (map (\<lambda>t. Read now 0 (Chunk t)) ts @ [Read now 0 End]) S)
      = sent S @ fst (parts_of (chat_id c) [] ds) @ [Response (chat_id c) t, StreamPart (chat_id c) t True, EmotionUpdate u]
    \<and> chats (fold (service_step io) (map (\<lambda>t. Read now 0 (Chunk t)) ts @ [Read now 0 End]) S) = []"
proof -
  obtain out r where pl: "parse_loop (stream_io io) (map Chunk ts @ [End]) (chat_parser c) [] = (out, r)" by (metis surj_pair)
  have ds: "ds = map chunk_delta out" using pl assms(4,6) by (simp add: parseStream_def)
  let ?S = "fold (service_step io) (map (\<lambda>t. Read now 0 (Chunk t)) ts) S"
  obtain c' where c': "chats ?S = [c']" "chat_phase c' = Reading" "chat_id c' = chat_id c" "chat_full c' = concat ds"
      "sent ?S = sent S @ fst (parts_of (chat_id c) [] ds)" "action_map ?S = action_map S"
    using read_pieces [OF assms(1-3), of io ts "[]" now] pl assms(5) ds by auto
  have "fold (service_step io) (map (\<lambda>t. Read now 0 (Chunk t)) ts @ [Read now 0 End]) S = finish_chat io now c' (without_chat 0 ?S)"
    using c'(1,2) by (simp add: body_read_def Let_def)
  then show ?thesis
    using finish_outcome [of io "without_chat 0 ?S" c' now] c' assms(7) by (simp add: finish_parts take_out_def Let_def)
qed


definition fresh_reading :: "(unit, memory_store) service" where
  "fresh_reading = reading0\<lparr>chats := map (\<lambda>c. c\<lparr>chat_full := []\<rparr>) (chats reading0)\<rparr>"


end
