(* ===== verification/Spec2Isabelle.thy ===== *)
theory Spec2Isabelle
  imports EventBus ComponentInstance EditorBridge ConfigValidator ConfigWatcher
    PluginHost ProcessManager StreamParser IntentRouting VersionRegistry AgentEngine
    PhraseSelector Persona EditorHost CommandGate ContextBudget SchemaReader McpBridge EngineClient NarrativeSystem LlmService
begin

text \<open>
  \<^bold>\<open>BlessStar: the TypeScript core.\<close>

  BlessStar is a configuration platform with a native kernel and several TypeScript programs on top of
  it. This development models the TypeScript logic of three of them: the component engine of the
  livestyle system (\<open>business system/livestyle/livestyle-engine/src\<close>, below \<open>LE\<close>), the desktop
  application livedesign (\<open>business system/livedesign/src\<close>, below \<open>LD\<close>), and the assistant of the
  configuration editor (\<open>app/editor/src/ai\<close>, below \<open>ED\<close>).

  \<^bold>\<open>How the parts interact.\<close> In the engine, components register in a registry that loads their scripts, are
  mounted and updated as instances on the page, announce themselves on an event bus, and are
  configured by an editor through a bridge of messages; their configuration is validated against a schema and
  watched on disk. In the desktop application the main process forks two children, the model service and
  the plugin host, restarts them when they exit, and routes every message between them and the renderer; the plugin
  host loads plugins and drives their life cycle; the model service sends the dialog with the prompt of the current role to
  the model, parses the streamed answer, infers the emotion from it, lets personality and persona shape the expression, and records
  what was said in the narrative memory, from which profiles of the user are made. In the
  editor, the assistant resolves a request through skills, learned routes, index shards and retrieved candidates, routes
  intents to operations and tools, runs stages over a context, dispatches hooks, executes tools through a gate and the main
  process down to the native addon, and keeps versions of what it wrote and the evidence for what it says.
  The editor also reads the schema that the SDK leaves in shared memory.

  \<^bold>\<open>Shared theories.\<close>
  \<^item> \<open>Prelude\<close>: strings as lists of 16-bit code units; the insertion-ordered Map of the language as an
    association list; the interface \<open>keyed_store\<close> with its interpretation \<open>jm\<close> on that map; the interfaces
    \<open>event_closed\<close> and its extension \<open>shut_down\<close> for components driven by events.
  \<^item> \<open>JsValue\<close>: numbers with NaN and infinities, primitive values, strict equality, truthiness, trimming,
    searching and splitting of texts.
  \<^item> \<open>JsNumber\<close>: the arithmetic of the language on binary64 numbers: rounding to nearest, ties to even, on exact
    rationals; overflow to infinity; comparison, \<open>Math.min\<close>, \<open>Math.max\<close>. Rounding is monotone and keeps
    dyadic fractions, from which the range lemmas (\<open>in_range\<close>, \<open>bounded\<close>, \<open>grid\<close>) follow. The sign of zero is
    not kept; no code modelled here observes it.
  \<^item> \<open>RequestTable\<close>: JSON values, decimal numerals, promises that settle once, the table of open
    requests with the invariant \<open>table_inv\<close>, and the interface \<open>request_table\<close> (every open promise is guarded by
    an armed timer) from which it follows that the timers alone settle everything.

  \<^bold>\<open>Components.\<close>
  \<^item> \<open>EventBus\<close> (\<open>LE/event/EventBus.ts\<close>): listener sets as live objects that a running dispatch iterates;
    an interpreter with fuel for re-entrant subscribe, unsubscribe, clear and emit. The fuel is one unit per visit
    and per call; the theorems state that enough fuel exists where they claim a result.
  \<^item> \<open>ComponentRegistry\<close>, \<open>ComponentInstance\<close> (\<open>LE/registry\<close>, \<open>LE/runtime\<close>): registration and asynchronous
    loading; mount, update with property diff, unmount over an explicit page.
  \<^item> \<open>EditorBridge\<close> (\<open>LE/bridge\<close>, \<open>LE/types/protocol.ts\<close>): messages, validation, parsing, and the
    bridge's requests; interpretation \<open>eb\<close> of \<open>request_table\<close>; reachable states by \<open>bridge_step\<close>.
  \<^item> \<open>ConfigValidator\<close>, \<open>ConfigWatcher\<close> (\<open>LE/validate\<close>, \<open>LE/config\<close>): schema loading and checking with the
    dependency pattern as an exact list of matcher successes; debounced events and polling, interpretation
    \<open>cw_down\<close> of \<open>shut_down\<close>.
  \<^item> \<open>IpcRouter\<close> (\<open>LD/main/ipc-router.ts\<close>, \<open>LD/shared/ipc-protocol.ts\<close>): routing table, validation,
    delivery with the injected source, requests; interpretation \<open>rt\<close> of \<open>request_table\<close>.
  \<^item> \<open>ProcessManager\<close> (\<open>LD/main/process-manager.ts\<close>): runtimes and children as objects, exit events, restart
    timers, shutdown; works on the router's state; interpretation \<open>pm_down\<close> of \<open>shut_down\<close>.
  \<^item> \<open>Lifecycle\<close>, \<open>PluginHost\<close> (\<open>LD/plugin-host\<close>): the plugin state machine with every operation split
    at its await and all interleavings as \<open>lc_step\<close>; loader, start-up loop and message handlers; the
    invocation path through router and host.
  \<^item> \<open>StreamParser\<close> (\<open>LD/llm-service/stream-parser.ts\<close>): event lines, deltas, reading loop.
  \<^item> \<open>IntentRouting\<close>, \<open>VersionRegistry\<close>, \<open>AgentEngine\<close> (\<open>ED\<close>: \<open>operationMapper.ts\<close>,
    \<open>intent/trie_dict.ts\<close>, \<open>parallelExecutor.ts\<close>, \<open>versionRegistry.ts\<close>, \<open>engine\<close>): routing tables and keyword
    extraction; per-key versions; stage pipeline, tool registry, hook dispatch with fuel, one unit per handler called.
  \<^item> \<open>Personality\<close> (\<open>LD/llm-service/personality\<close>): affective state, traits, decay, events, smoothing; the engine's two
    timers and its listeners as events; the random draws are arguments.
  \<^item> \<open>PhraseStore\<close>, \<open>PhraseSelector\<close> (\<open>LD/llm-service/catchphrase\<close>): learned phrases on a database
    or in memory (interface \<open>phrase_store\<close>, interpretation \<open>st\<close>), promotion split at the user's dialog,
    frequency governor; emotion and scenario triggers, the priority chain, tone modulation.
  \<^item> \<open>Persona\<close> (\<open>LD/llm-service/persona\<close>): core, adaptive and situational layers, consistency check, evolution;
    interpretation \<open>persona\<close> of \<open>event_closed\<close>.
  \<^item> \<open>ToolExecution\<close> (\<open>ED/preGate/index.ts\<close>, \<open>executor.ts\<close>, \<open>types.ts\<close>, \<open>tools\<close>): rules on arguments, the two
    stages of the gate, execution with retries, seven tools; the call into the main process is a parameter
    (\<open>host\<close>), and so are the engine's text functions and regular expressions.
  \<^item> \<open>EditorHost\<close> (\<open>app/editor/electron/main.ts\<close>): the handlers that serve those calls over the native addon, with the
    record of the commands that reached the shell; \<open>editor_host\<close> closes the loop, so that properties run from the tool call
    to the addon; interpretation \<open>host\<close> of \<open>event_closed\<close>.
  \<^item> \<open>GateChain\<close>, \<open>GateTools\<close> (\<open>ED/tools/create_gate_chain.ts\<close>, \<open>validator.ts\<close>, \<open>GateFactoryBridge.ts\<close>): rule trees,
    their check and compilation, structural validators, and the tools that register gates with the host.
  \<^item> \<open>ToolFormat\<close>, \<open>Evidence\<close> (\<open>ED/tools/toolFactory.ts\<close>, \<open>context-manager/executionTrace.ts\<close>,
    \<open>pipeline/stage-execute.ts\<close>): summaries of results, the trace of calls, claims and their evidence, plan steps matched with calls.
  \<^item> \<open>TextIndex\<close>, \<open>SkillRouter\<close>, \<open>AdaptiveIndex\<close>, \<open>IndexShards\<close>, \<open>Retriever\<close>, \<open>CommandGate\<close> (\<open>ED/context-manager\<close>,
    \<open>ED/pipeline/retriever.ts\<close>, the head of \<open>pipelineManager.ts\<close>): how a request finds its skill, its domains, its shards
    and its candidates; interpretation of \<open>event_closed\<close> for the learning index.
  \<^item> \<open>ContextBudget\<close> (\<open>contextBuilder.ts\<close>, \<open>contextBudget.ts\<close>, \<open>feedbackCollector.ts\<close>): the messages of a request, their
    estimated size and reduction, and the store of corrections; interpretation \<open>feedback\<close> of \<open>event_closed\<close>.
  \<^item> \<open>ByteText\<close>, \<open>SchemaReader\<close> (\<open>app/editor/src/shm/schema_reader.ts\<close>; the layout written by
    \<open>app/sdk/src/config_declare.cpp\<close>): the hash table of the shared memory as the SDK writes it and as the editor reads it,
    over bytes with range-checked reads, UTF-8 and 32-bit products.
  \<^item> \<open>McpBridge\<close> (\<open>LD/llm-service/mcp-bridge.ts\<close>), \<open>EngineClient\<close> (\<open>livestyle-editor/src/services/engineClient.ts\<close>): two further
    clients with tables of open requests; interpretations \<open>mcp\<close> and \<open>ec\<close> of \<open>request_table\<close>, \<open>client\<close> of \<open>event_closed\<close>.

  \<^item> \<open>NarrativeStore\<close>, \<open>NarrativeSystem\<close> (\<open>LD/llm-service/narrative\<close>): the interface of the store as a record of
    operations with its two implementations, on tables and on arrays (locale \<open>narrative_store\<close>, interpretations \<open>on_database\<close>
    and \<open>on_arrays\<close>); quantifier, reflection split at the call of the model, profiles, and the system with its timers.
  \<^item> \<open>EmotionInferrer\<close> (\<open>LD/llm-service/emotion-inferrer.ts\<close>, \<open>agent/expresser.ts\<close>, \<open>agent/perceptor.ts\<close>): an answer in
    JSON or with tags, its regular expressions written out, the final expression, the guess of the user's emotion.
  \<^item> \<open>CharacterCards\<close> (\<open>LD/shared/character-card.ts\<close>, \<open>llm-service/character-manager.ts\<close>,
    \<open>main/storage/character-store.ts\<close>): validation of cards, the system prompt, the desktop's store with its cache.
  \<^item> \<open>LlmService\<close> (\<open>LD/llm-service/index.ts\<close>, \<open>llm-connector.ts\<close>): controllers and signals, chats split at their awaits,
    history, switching of roles, configuration changes; it runs on the parser, inference, personality, persona and narrative models above;
    interpretation \<open>service\<close> of \<open>event_closed\<close>.

  \<^bold>\<open>Conventions.\<close> Objects that several holders share (listener sets, plugin records, runtimes, handler arrays)
  live in stores and are referred to by position. Exceptions are the left side of a sum or \<open>None\<close>. An asynchronous
  function whose interleavings matter is split at its await. What the programs call outside this
  repository (JSON text, YAML, regular expressions of a schema, file system, clock, transport, child processes,
  the page) is a parameter; texts of error messages are constructors.

  \<^bold>\<open>What the properties show.\<close> Refinement: a key looked up in the bytes of the shared memory is what the SDK wrote;
  rendered attributes are those of the current properties. Invariants: the plugin state machine under interleaving;
  affective state within its cube; learned phrases only after confirmation; a consistent persona; profiles from trusted hypotheses only;
  a history that alternates and keeps its bound.
  Liveness and termination: no request of bridge, router, tool server or client stays open for ever;
  a connection gives up. Equivalence: both narrative stores answer alike. Safety: no forged source, no start after shutdown, only listed
  commands reach the shell, every immediate write is validated, a deleted user stays forgotten while nothing runs for the user, only valid
  roles are switched to. Round trips: written configuration is read back, a tagged reply is taken apart. Functional behaviour:
  dispatch, start-up, invocation, routing, the execution stage, the outcome of a streamed chat. Bounds and errors: intensities and averages in
  the unit interval, what an unexpected order of members gives. Further theorems, about learning indexes, rankings, exports, totality on
  arbitrary bytes and the rest, stand beside them in their theories. Several properties
  state what the code does where it does not do what it means to; the manifest lists these as findings.

  \<^bold>\<open>Not modelled.\<close> The native kernel, adapters and SDK (C and C++; of the SDK only the writer of the schema area), the
  Rust module, generated bindings in other languages, user interfaces, prompts, thin wrappers of platform
  services, and the modules of the model service and the assistant that the manifest lists with their reasons; log output and
  durations other than those the code compares.
\<close>

end
